(* ===== verification/Prelude.thy ===== *)
theory Prelude
  imports Complex_Main "HOL-Library.AList" "HOL-Library.Sublist"
begin

text \<open>
  Shared vocabulary of the development: the Python values, exceptions, dictionaries and
  string operations that the modelled sources of \<^verbatim>\<open>src/otheros/omnigent/omnigent\<close> use.

  \<^item> A Python \<^verbatim>\<open>Any\<close> is a \<open>pyval\<close>; a \<^verbatim>\<open>float\<close> is an exact rational (rounding, infinities
    and NaN are not modelled), an \<^verbatim>\<open>int\<close> is an \<open>int\<close>.
  \<^item> A \<^verbatim>\<open>dict\<close> is an association list in insertion order with distinct keys: \<open>dget\<close> is
    \<^verbatim>\<open>d.get(k)\<close>, \<open>dset\<close> is \<^verbatim>\<open>d[k] = v\<close>, \<open>dpop\<close> is \<^verbatim>\<open>d.pop(k, None)\<close>, \<open>dupdate\<close> is
    \<^verbatim>\<open>d.update(e)\<close>.
  \<^item> An operation that can raise returns \<open>'a res\<close>, \<open>Inl\<close> the exception; an operation of a
    mutable object that can raise returns the result paired with the object as the raise
    left it.
  \<^item> A \<^verbatim>\<open>str\<close> is a \<open>string\<close> of ASCII characters (a non-ASCII character of a source literal is
    spelled in UTF-8); case folding and white space are those of ASCII.
\<close>

section \<open>Values, exceptions and results\<close>

datatype py_exn =
    TypeError string
  | ValueError string
  | KeyError string
  | AttributeError string
  | OmnigentError string
  | ElicitationDeclinedError string "string option"

datatype pyval =
    PNone
  | PBool bool
  | PInt int
  | PFloat rat
  | PStr string
  | PList "pyval list"
  | PDict "(string \<times> pyval) list"

type_synonym 'a res = "py_exn + 'a"
type_synonym 'v dict = "(string \<times> 'v) list"
type_synonym pydict = "pyval dict"

named_theorems dict_laws \<open>laws of the dictionary operations\<close>

fun exn_text :: "py_exn \<Rightarrow> string" where
  "exn_text (TypeError m) = m"
| "exn_text (ValueError m) = m"
| "exn_text (KeyError m) = m"
| "exn_text (AttributeError m) = m"
| "exn_text (OmnigentError m) = m"
| "exn_text (ElicitationDeclinedError m p) = m"

fun bind_res :: "'a res \<Rightarrow> ('a \<Rightarrow> 'b res) \<Rightarrow> 'b res" where
  "bind_res (Inl e) f = Inl e"
| "bind_res (Inr x) f = f x"

fun mapM_res :: "('a \<Rightarrow> 'b res) \<Rightarrow> 'a list \<Rightarrow> 'b list res" where
  "mapM_res f [] = Inr []"
| "mapM_res f (x # xs) =
     bind_res (f x) (\<lambda>y. bind_res (mapM_res f xs) (\<lambda>ys. Inr (y # ys)))"

text \<open>Python's truth value of an object (\<^verbatim>\<open>if x\<close>, \<^verbatim>\<open>x or y\<close>, \<^verbatim>\<open>not x\<close>).\<close>

fun truthy :: "pyval \<Rightarrow> bool" where
  "truthy PNone = False"
| "truthy (PBool b) = b"
| "truthy (PInt i) = (i \<noteq> 0)"
| "truthy (PFloat r) = (r \<noteq> 0)"
| "truthy (PStr s) = (s \<noteq> [])"
| "truthy (PList xs) = (xs \<noteq> [])"
| "truthy (PDict d) = (d \<noteq> [])"

fun type_name :: "pyval \<Rightarrow> string" where
  "type_name PNone = ''NoneType''"
| "type_name (PBool b) = ''bool''"
| "type_name (PInt i) = ''int''"
| "type_name (PFloat r) = ''float''"
| "type_name (PStr s) = ''str''"
| "type_name (PList xs) = ''list''"
| "type_name (PDict d) = ''dict''"

fun is_list :: "pyval \<Rightarrow> bool" where
  "is_list (PList xs) = True"
| "is_list v = False"

text \<open>The numeric reading of a value: \<^verbatim>\<open>bool\<close> is a subclass of \<^verbatim>\<open>int\<close>.\<close>

fun num_of :: "pyval \<Rightarrow> rat option" where
  "num_of (PBool b) = Some (if b then 1 else 0)"
| "num_of (PInt i) = Some (of_int i)"
| "num_of (PFloat r) = Some r"
| "num_of v = None"

fun int_of :: "pyval \<Rightarrow> int option" where
  "int_of (PBool b) = Some (if b then 1 else 0)"
| "int_of (PInt i) = Some i"
| "int_of v = None"

text \<open>\<^verbatim>\<open>a + b\<close>: integer addition, float addition when one side is a float, concatenation.\<close>

definition py_add :: "pyval \<Rightarrow> pyval \<Rightarrow> pyval res" where
  "py_add a b =
     (case (int_of a, int_of b) of
        (Some i, Some j) \<Rightarrow> Inr (PInt (i + j))
      | _ \<Rightarrow>
        (case (num_of a, num_of b) of
           (Some x, Some y) \<Rightarrow> Inr (PFloat (x + y))
         | _ \<Rightarrow>
           (case (a, b) of
              (PStr s, PStr t) \<Rightarrow> Inr (PStr (s @ t))
            | (PList xs, PList ys) \<Rightarrow> Inr (PList (xs @ ys))
            | (PStr s, _) \<Rightarrow>
                Inl (TypeError (''can only concatenate str (not '' @ [CHR 34] @ type_name b @
                  [CHR 34] @ '') to str''))
            | (PList xs, _) \<Rightarrow>
                Inl (TypeError (''can only concatenate list (not '' @ [CHR 34] @ type_name b @
                  [CHR 34] @ '') to list''))
            | _ \<Rightarrow>
                Inl (TypeError (''unsupported operand type(s) for +: '' @ [CHR 39] @
                  type_name a @ [CHR 39] @ '' and '' @ [CHR 39] @ type_name b @ [CHR 39])))))"

section \<open>Dictionaries\<close>

abbreviation dget :: "'v dict \<Rightarrow> string \<Rightarrow> 'v option" where
  "dget d k \<equiv> map_of d k"

definition dset :: "'v dict \<Rightarrow> string \<Rightarrow> 'v \<Rightarrow> 'v dict" where
  "dset d k v = AList.update k v d"

definition dpop :: "'v dict \<Rightarrow> string \<Rightarrow> 'v dict" where
  "dpop d k = AList.delete k d"

fun dupdate :: "'v dict \<Rightarrow> 'v dict \<Rightarrow> 'v dict" where
  "dupdate d [] = d"
| "dupdate d ((k, v) # e) = dupdate (dset d k v) e"

definition dhas :: "'v dict \<Rightarrow> string \<Rightarrow> bool" where
  "dhas d k \<longleftrightarrow> k \<in> set (map fst d)"

definition dsetdefault :: "'v dict \<Rightarrow> string \<Rightarrow> 'v \<Rightarrow> 'v dict" where
  "dsetdefault d k v = (if dhas d k then d else dset d k v)"

definition dict_ok :: "'v dict \<Rightarrow> bool" where
  "dict_ok d \<longleftrightarrow> distinct (map fst d)"

text \<open>\<^verbatim>\<open>d.get(k)\<close> on a dictionary of Python values: \<^verbatim>\<open>None\<close> when the key is absent.\<close>

definition pget :: "pydict \<Rightarrow> string \<Rightarrow> pyval" where
  "pget d k = (case dget d k of None \<Rightarrow> PNone | Some v \<Rightarrow> v)"

definition pget_default :: "pydict \<Rightarrow> string \<Rightarrow> pyval \<Rightarrow> pyval" where
  "pget_default d k v = (case dget d k of None \<Rightarrow> v | Some w \<Rightarrow> w)"

section \<open>Strings\<close>

definition char_code :: "char \<Rightarrow> nat" where
  "char_code c = of_char c"

definition is_digit :: "char \<Rightarrow> bool" where
  "is_digit c \<longleftrightarrow> 48 \<le> char_code c \<and> char_code c \<le> 57"

definition digit_val :: "char \<Rightarrow> nat" where
  "digit_val c = char_code c - 48"

definition is_space :: "char \<Rightarrow> bool" where
  "is_space c \<longleftrightarrow>
     (9 \<le> char_code c \<and> char_code c \<le> 13) \<or> (28 \<le> char_code c \<and> char_code c \<le> 32)"

definition lower_char :: "char \<Rightarrow> char" where
  "lower_char c =
     (if 65 \<le> char_code c \<and> char_code c \<le> 90 then char_of (char_code c + 32) else c)"

definition upper_char :: "char \<Rightarrow> char" where
  "upper_char c =
     (if 97 \<le> char_code c \<and> char_code c \<le> 122 then char_of (char_code c - 32) else c)"

definition str_lower :: "string \<Rightarrow> string" where
  "str_lower s = map lower_char s"

definition str_upper :: "string \<Rightarrow> string" where
  "str_upper s = map upper_char s"

definition str_strip :: "string \<Rightarrow> string" where
  "str_strip s = rev (dropWhile is_space (rev (dropWhile is_space s)))"

definition startswith :: "string \<Rightarrow> string \<Rightarrow> bool" where
  "startswith s p \<longleftrightarrow> take (length p) s = p"

definition endswith :: "string \<Rightarrow> string \<Rightarrow> bool" where
  "endswith s p \<longleftrightarrow> take (length p) (rev s) = rev p"

text \<open>\<^verbatim>\<open>p in s\<close> for strings.\<close>

fun py_in :: "string \<Rightarrow> string \<Rightarrow> bool" where
  "py_in p [] = (p = [])"
| "py_in p (c # s) = (startswith (c # s) p \<or> py_in p s)"

text \<open>\<^verbatim>\<open>s.split(c)\<close> at a single character.\<close>

fun split_char :: "char \<Rightarrow> string \<Rightarrow> string list" where
  "split_char c [] = [[]]"
| "split_char c (x # xs) =
     (if x = c then [] # split_char c xs
      else (case split_char c xs of [] \<Rightarrow> [[x]] | y # ys \<Rightarrow> (x # y) # ys))"

text \<open>\<^verbatim>\<open>s.split(None, 1)\<close>.\<close>

definition split_ws1 :: "string \<Rightarrow> string list" where
  "split_ws1 s =
     (let t = dropWhile is_space s;
          w = takeWhile (\<lambda>c. \<not> is_space c) t;
          r = dropWhile is_space (dropWhile (\<lambda>c. \<not> is_space c) t)
      in if t = [] then [] else if r = [] then [w] else [w, r])"

text \<open>\<^verbatim>\<open>s.split()\<close>: the runs of non-space characters; the first argument is the run being read, reversed.\<close>

fun words :: "string \<Rightarrow> string \<Rightarrow> string list" where
  "words w [] = (if w = [] then [] else [rev w])"
| "words w (c # s) =
     (if is_space c then (if w = [] then words [] s else rev w # words [] s) else words (c # w) s)"

text \<open>\<^verbatim>\<open>s.split(c, 1)[0]\<close> and the part after the first \<open>c\<close>; \<^verbatim>\<open>s.rsplit(c, 1)\<close>.\<close>

definition before_first :: "char \<Rightarrow> string \<Rightarrow> string" where
  "before_first c s = takeWhile (\<lambda>x. x \<noteq> c) s"

definition after_first :: "char \<Rightarrow> string \<Rightarrow> string" where
  "after_first c s = tl (dropWhile (\<lambda>x. x \<noteq> c) s)"

definition after_last :: "char \<Rightarrow> string \<Rightarrow> string" where
  "after_last c s = rev (takeWhile (\<lambda>x. x \<noteq> c) (rev s))"

definition before_last :: "char \<Rightarrow> string \<Rightarrow> string" where
  "before_last c s = rev (tl (dropWhile (\<lambda>x. x \<noteq> c) (rev s)))"

fun str_join :: "string \<Rightarrow> string list \<Rightarrow> string" where
  "str_join sep [] = []"
| "str_join sep [x] = x"
| "str_join sep (x # y # ys) = x @ sep @ str_join sep (y # ys)"

section \<open>Numbers as text\<close>

definition digit_char :: "nat \<Rightarrow> char" where
  "digit_char n = char_of (48 + n mod 10)"

fun str_of_nat :: "nat \<Rightarrow> string" where
  "str_of_nat n = (if n < 10 then [digit_char n] else str_of_nat (n div 10) @ [digit_char n])"

declare str_of_nat.simps [simp del]

definition str_of_int :: "int \<Rightarrow> string" where
  "str_of_int i = (if i < 0 then ''-'' else []) @ str_of_nat (nat \<bar>i\<bar>)"

text \<open>Round half to even, as the \<^verbatim>\<open>.2f\<close> format does on the exact value.\<close>

definition round_half_even :: "rat \<Rightarrow> int" where
  "round_half_even x =
     (let f = \<lfloor>x\<rfloor>; d = x - of_int f
      in if d < 1 / 2 then f else if d > 1 / 2 then f + 1
         else if even f then f else f + 1)"

definition fmt_2f :: "rat \<Rightarrow> string" where
  "fmt_2f x =
     (let n = nat (round_half_even (\<bar>x\<bar> * 100))
      in (if x < 0 then ''-'' else []) @ str_of_nat (n div 100) @ ''.'' @
         [digit_char (n div 10), digit_char n])"

text \<open>
  \<^verbatim>\<open>repr\<close> of a float: the decimal expansion of the rational, up to 17 digits after the point
  (Python prints the shortest decimal that rounds back to the double; the two agree on short
  decimals of ordinary magnitude).
\<close>

fun frac_digits :: "nat \<Rightarrow> rat \<Rightarrow> string" where
  "frac_digits 0 r = []"
| "frac_digits (Suc n) r =
     (if r = 0 then [] else digit_char (nat \<lfloor>r * 10\<rfloor>) # frac_digits n (r * 10 - of_int \<lfloor>r * 10\<rfloor>))"

definition repr_float :: "rat \<Rightarrow> string" where
  "repr_float x =
     (let a = \<bar>x\<bar>; f = frac_digits 17 (a - of_int \<lfloor>a\<rfloor>)
      in (if x < 0 then ''-'' else []) @ str_of_nat (nat \<lfloor>a\<rfloor>) @ ''.'' @
         (if f = [] then ''0'' else f))"

text \<open>\<^verbatim>\<open>repr\<close> of a string: single quotes unless the text has one and no double quote.\<close>

definition repr_char :: "char \<Rightarrow> char \<Rightarrow> string" where
  "repr_char q c =
     (if c = q \<or> c = CHR 92 then [CHR 92, c]
      else if c = CHR 10 then [CHR 92, CHR ''n'']
      else if c = CHR 13 then [CHR 92, CHR ''r'']
      else if c = CHR 9 then [CHR 92, CHR ''t'']
      else if char_code c < 32 \<or> char_code c = 127 then
        [CHR 92, CHR ''x'', ''0123456789abcdef'' ! (char_code c div 16),
         ''0123456789abcdef'' ! (char_code c mod 16)]
      else [c])"

definition repr_str :: "string \<Rightarrow> string" where
  "repr_str s =
     (let q = (if CHR 39 \<in> set s \<and> CHR 34 \<notin> set s then CHR 34 else CHR 39)
      in q # concat (map (repr_char q) s) @ [q])"

fun py_repr :: "pyval \<Rightarrow> string" where
  "py_repr PNone = ''None''"
| "py_repr (PBool b) = (if b then ''True'' else ''False'')"
| "py_repr (PInt i) = str_of_int i"
| "py_repr (PFloat r) = repr_float r"
| "py_repr (PStr s) = repr_str s"
| "py_repr (PList xs) = ''['' @ str_join '', '' (map py_repr xs) @ '']''"
| "py_repr (PDict d) =
     ''{'' @ str_join '', '' (map (\<lambda>(k, v). repr_str k @ '': '' @ py_repr v) d) @ ''}''"

fun py_str :: "pyval \<Rightarrow> string" where
  "py_str (PStr s) = s"
| "py_str v = py_repr v"

section \<open>\<^verbatim>\<open>float(x)\<close> and \<^verbatim>\<open>int(x)\<close>\<close>

text \<open>A run of digits in which single underscores may separate digits.\<close>

fun digitpart_tail :: "string \<Rightarrow> bool" where
  "digitpart_tail [] = True"
| "digitpart_tail (c # s) =
     (if is_digit c then digitpart_tail s
      else c = CHR ''_'' \<and> (case s of [] \<Rightarrow> False | d # t \<Rightarrow> is_digit d) \<and> digitpart_tail s)"

definition digitpart :: "string \<Rightarrow> bool" where
  "digitpart s \<longleftrightarrow> (case s of [] \<Rightarrow> False | c # t \<Rightarrow> is_digit c \<and> digitpart_tail t)"

definition digits_val :: "string \<Rightarrow> nat" where
  "digits_val s = foldl (\<lambda>n c. if c = CHR ''_'' then n else 10 * n + digit_val c) 0 s"

definition count_digits :: "string \<Rightarrow> nat" where
  "count_digits s = length (filter is_digit s)"

fun split_sign :: "string \<Rightarrow> bool \<times> string" where
  "split_sign [] = (False, [])"
| "split_sign (c # s) =
     (if c = CHR ''-'' then (True, s) else if c = CHR ''+'' then (False, s) else (False, c # s))"

definition parse_decimal :: "string \<Rightarrow> rat option" where
  "parse_decimal m =
     (let i = before_first (CHR ''.'') m;
          f = after_first (CHR ''.'') m
      in if (i = [] \<or> digitpart i) \<and> (f = [] \<or> digitpart f) \<and> (i \<noteq> [] \<or> f \<noteq> [])
         then Some (of_nat (digits_val i) + of_nat (digits_val f) / 10 ^ count_digits f)
         else None)"

definition parse_exponent :: "string \<Rightarrow> rat option" where
  "parse_exponent e =
     (let (neg, d) = split_sign e
      in if digitpart d then Some (if neg then 1 / 10 ^ digits_val d else 10 ^ digits_val d)
         else None)"

definition float_of_str :: "string \<Rightarrow> rat option" where
  "float_of_str s =
     (let (neg, t) = split_sign (str_strip s);
          is_e = (\<lambda>c. c = CHR ''e'' \<or> c = CHR ''E'');
          m = takeWhile (\<lambda>c. \<not> is_e c) t;
          rest = dropWhile (\<lambda>c. \<not> is_e c) t
      in (case (parse_decimal m, if rest = [] then Some 1 else parse_exponent (tl rest)) of
            (Some x, Some p) \<Rightarrow> Some ((if neg then - 1 else 1) * x * p)
          | _ \<Rightarrow> None))"

definition py_float :: "pyval \<Rightarrow> rat res" where
  "py_float v =
     (case num_of v of
        Some x \<Rightarrow> Inr x
      | None \<Rightarrow>
        (case v of
           PStr s \<Rightarrow>
             (case float_of_str s of
                Some x \<Rightarrow> Inr x
              | None \<Rightarrow> Inl (ValueError (''could not convert string to float: '' @ repr_str s)))
         | _ \<Rightarrow> Inl (TypeError (''float() argument must be a string or a real number, not '' @
                    [CHR 39] @ type_name v @ [CHR 39]))))"

definition int_of_str :: "string \<Rightarrow> int option" where
  "int_of_str s =
     (let (neg, t) = split_sign (str_strip s)
      in if digitpart t then Some ((if neg then - 1 else 1) * int (digits_val t)) else None)"

definition py_int :: "pyval \<Rightarrow> int res" where
  "py_int v =
     (case v of
        PBool b \<Rightarrow> Inr (if b then 1 else 0)
      | PInt i \<Rightarrow> Inr i
      | PFloat r \<Rightarrow> Inr (if r < 0 then \<lceil>r\<rceil> else \<lfloor>r\<rfloor>)
      | PStr s \<Rightarrow>
          (case int_of_str s of
             Some i \<Rightarrow> Inr i
           | None \<Rightarrow> Inl (ValueError (''invalid literal for int() with base 10: '' @ repr_str s)))
      | _ \<Rightarrow> Inl (TypeError (''int() argument must be a string, a bytes-like object or a real number, not '' @
                 [CHR 39] @ type_name v @ [CHR 39])))"

section \<open>Lemmas on dictionaries\<close>

lemma dget_dset [simp, dict_laws]: "dget (dset d k v) k' = (if k' = k then Some v else dget d k')"
  by (simp add: dset_def update_conv')

lemma dget_dpop [simp, dict_laws]: "dget (dpop d k) k' = (if k' = k then None else dget d k')"
  by (simp add: dpop_def delete_conv')

lemma keys_dset: "fst ` set (dset d k v) = insert k (fst ` set d)"
  by (simp add: dset_def dom_update)

lemma dhas_iff [dict_laws]: "dhas d k \<longleftrightarrow> dget d k \<noteq> None"
  by (auto simp: dhas_def map_of_eq_None_iff)

lemma dict_ok_Nil [simp]: "dict_ok []"
  by (simp add: dict_ok_def)

lemma dict_ok_dset [simp]: "dict_ok d \<Longrightarrow> dict_ok (dset d k v)"
  by (simp add: dict_ok_def dset_def distinct_update)

lemma dict_ok_dpop [simp]: "dict_ok d \<Longrightarrow> dict_ok (dpop d k)"
  by (simp add: dict_ok_def dpop_def distinct_delete)

lemma dict_ok_dupdate [simp]: "dict_ok d \<Longrightarrow> dict_ok (dupdate d e)"
  by (induction d e rule: dupdate.induct) auto

lemma dict_ok_filter: "dict_ok d \<Longrightarrow> dict_ok (filter p d)"
  by (induction d) (auto simp: dict_ok_def)

lemma dset_not_Nil [simp]: "dset d k v \<noteq> []"
  by (cases d) (auto simp: dset_def split: prod.splits)

text \<open>\<^verbatim>\<open>d.update(e)\<close>: the last binding of \<open>e\<close> for a key wins, other keys keep theirs.\<close>

lemma dget_dupdate:
  "dict_ok e \<Longrightarrow> dget (dupdate d e) k = (case dget e k of None \<Rightarrow> dget d k | Some v \<Rightarrow> Some v)"
proof (induction d e rule: dupdate.induct)
  case (1 d)
  then show ?case by simp
next
  case (2 d k' v e)
  then have "k' \<notin> fst ` set e" and "dict_ok e"
    by (auto simp: dict_ok_def)
  then have "dget e k' = None" by (simp add: map_of_eq_None_iff)
  with 2 \<open>dict_ok e\<close> show ?case by (auto split: option.splits)
qed

lemma dupdate_Nil_iff [simp]: "dupdate d e = [] \<longleftrightarrow> d = [] \<and> e = []"
proof (induction d e rule: dupdate.induct)
  case (1 d)
  then show ?case by simp
next
  case (2 d k v e)
  then show ?case by simp
qed

lemma dupdate_append: "dupdate d (e @ f) = dupdate (dupdate d e) f"
  by (induction d e rule: dupdate.induct) auto

lemma map_of_filter_key:
  "dget (filter (\<lambda>(k, v). p k) d) k = (if p k then dget d k else None)"
  by (induction d) auto

section \<open>Lemmas on results, strings and numbers\<close>

lemma bind_res_eq_Inr [simp]: "bind_res r f = Inr y \<longleftrightarrow> (\<exists>x. r = Inr x \<and> f x = Inr y)"
  by (cases r) auto

lemma bind_res_InrD: "bind_res r f = Inr y \<Longrightarrow> \<exists>x. f x = Inr y"
  by auto

lemma mapM_res_Inr:
  "mapM_res f xs = Inr ys \<longleftrightarrow> length ys = length xs \<and> (\<forall>i < length xs. f (xs ! i) = Inr (ys ! i))"
proof (induction xs arbitrary: ys)
  case Nil
  then show ?case by auto
next
  case (Cons x xs)
  show ?case
  proof (cases ys)
    case Nil
    then show ?thesis by auto
  next
    case (Cons y zs)
    then show ?thesis using Cons.IH [of zs]
      by (auto simp: nth_Cons less_Suc_eq_0_disj split: nat.splits)
  qed
qed

lemma returns_Inr: "\<not> isl (fst x) \<Longrightarrow> \<exists>r y. x = (Inr r, y)"
  by (cases x; cases "fst x") auto

lemma startswith_iff: "startswith s p \<longleftrightarrow> (\<exists>t. s = p @ t)"
  by (auto simp: startswith_def) (metis append_take_drop_id)

lemma split_char_single: "c \<notin> set x \<Longrightarrow> split_char c x = [x]"
  by (induction x) auto

lemma split_char_not_Nil [simp]: "split_char c s \<noteq> []"
  by (induction s) (auto split: list.splits)

lemma split_char_append: "split_char c (x @ c # s) = split_char c x @ split_char c s"
  by (induction x) (auto split: list.splits simp: Cons_eq_append_conv)

lemma split_char_join:
  "xs \<noteq> [] \<Longrightarrow> \<forall>x \<in> set xs. c \<notin> set x \<Longrightarrow> split_char c (str_join [c] xs) = xs"
proof (induction xs rule: list_nonempty_induct)
  case (single x)
  then show ?case by (simp add: split_char_single)
next
  case (cons x xs)
  then show ?case by (cases xs) (simp_all add: split_char_single split_char_append)
qed

lemma split_char_no_sep: "x \<in> set (split_char c s) \<Longrightarrow> c \<notin> set x"
  by (induction s arbitrary: x) (auto split: if_splits list.splits)

lemma startswith_prefix: "startswith s p \<longleftrightarrow> prefix p s"
  by (auto simp: startswith_iff prefix_def)

lemma endswith_iff: "endswith s p \<longleftrightarrow> (\<exists>t. s = t @ p)"
proof -
  have "endswith s p \<longleftrightarrow> startswith (rev s) (rev p)"
    by (simp add: endswith_def startswith_def)
  also have "\<dots> \<longleftrightarrow> (\<exists>t. rev s = rev p @ t)" by (simp add: startswith_iff)
  also have "\<dots> \<longleftrightarrow> (\<exists>t. s = t @ p)"
    by (metis rev_append rev_rev_ident)
  finally show ?thesis .
qed

lemma py_in_sublist: "py_in p s \<longleftrightarrow> sublist p s"
proof (induction s)
  case Nil
  then show ?case by simp
next
  case (Cons c s)
  then show ?case by (simp add: startswith_prefix sublist_Cons_right)
qed

lemma split_ws1_first:
  assumes "\<forall>c \<in> set name. \<not> is_space c" and "name \<noteq> []" and "x = [] \<or> (\<exists>y. x = '' '' @ y)"
  shows "\<exists>ts. split_ws1 (name @ x) = name # ts"
proof -
  have sp: "is_space (CHR '' '')" by (simp add: is_space_def char_code_def)
  have none: "takeWhile (\<lambda>c. \<not> is_space c) name = name" using assms(1) by (simp add: takeWhile_eq_all_conv)
  have tw: "takeWhile (\<lambda>c. \<not> is_space c) (name @ x) = name"
    using assms(3)
  proof
    assume "x = []"
    then show ?thesis using none by (simp only: append_Nil2)
  next
    assume "\<exists>y. x = '' '' @ y"
    then obtain y where "x = CHR '' '' # y" by auto
    then show ?thesis using assms(1) sp takeWhile_append2 [of name "\<lambda>c. \<not> is_space c" x] by simp
  qed
  have dw: "dropWhile is_space (name @ x) = name @ x" using assms(1,2) by (cases name) simp_all
  have ne: "name @ x \<noteq> []" using assms(2) by simp
  have "split_ws1 (name @ x) = [name] \<or> (\<exists>r. split_ws1 (name @ x) = [name, r])"
    unfolding split_ws1_def Let_def dw tw using ne by metis
  then show ?thesis by blast
qed

lemma py_add_int: "py_add (PInt i) (PInt j) = Inr (PInt (i + j))"
  by (simp add: py_add_def)

lemma py_float_num [simp]:
  "py_float (PFloat r) = Inr r"
  "py_float (PInt i) = Inr (of_int i)"
  "py_float (PBool b) = Inr (if b then 1 else 0)"
  by (simp_all add: py_float_def)

lemma round_half_even_bounds: "\<bar>of_int (round_half_even x) - x\<bar> \<le> 1 / 2"
proof -
  have "of_int \<lfloor>x\<rfloor> \<le> x" and "x < of_int \<lfloor>x\<rfloor> + 1" by linarith+
  then show ?thesis
    by (simp add: round_half_even_def Let_def abs_if) linarith
qed

end
