(* ===== verification/PolicyTypes.thy ===== *)
theory PolicyTypes
  imports Prelude
begin

text \<open>
  The data of the policy system: the spec types of \<^verbatim>\<open>spec/types.py\<close> (phases, actions,
  selectors, label schemas, policy specs) and the runtime contracts of
  \<^verbatim>\<open>policies/types.py\<close> (the evaluation context a caller hands to the engine, the result a
  policy returns and the engine composes, the elicitation an ASK becomes).
  A policy action is ordered by strictness (ALLOW, ASK, DENY), which the composition
  theorems use.
\<close>

section \<open>Phases, actions and state updates\<close>

datatype phase = REQUEST | TOOL_CALL | TOOL_RESULT | RESPONSE | LLM_REQUEST | LLM_RESPONSE

fun phase_value :: "phase \<Rightarrow> string" where
  "phase_value REQUEST = ''request''"
| "phase_value TOOL_CALL = ''tool_call''"
| "phase_value TOOL_RESULT = ''tool_result''"
| "phase_value RESPONSE = ''response''"
| "phase_value LLM_REQUEST = ''llm_request''"
| "phase_value LLM_RESPONSE = ''llm_response''"

datatype policy_action = ALLOW | ASK | DENY

text \<open>\<^verbatim>\<open>PolicyAction(s)\<close>: \<open>None\<close> is the \<^verbatim>\<open>ValueError\<close> of an unknown member value.\<close>

definition policy_action_of :: "string \<Rightarrow> policy_action option" where
  "policy_action_of s =
     (if s = ''allow'' then Some ALLOW
      else if s = ''ask'' then Some ASK
      else if s = ''deny'' then Some DENY
      else None)"

fun action_value :: "policy_action \<Rightarrow> string" where
  "action_value ALLOW = ''allow''"
| "action_value ASK = ''ask''"
| "action_value DENY = ''deny''"

datatype state_update_action = SET | INCREMENT | DELETE | APPEND

definition state_update_action_of :: "string \<Rightarrow> state_update_action option" where
  "state_update_action_of s =
     (if s = ''set'' then Some SET
      else if s = ''increment'' then Some INCREMENT
      else if s = ''delete'' then Some DELETE
      else if s = ''append'' then Some APPEND
      else None)"

record state_update =
  su_key :: string
  su_action :: state_update_action
  su_value :: pyval

section \<open>Policy specs\<close>

record phase_selector =
  sel_phase :: phase
  sel_tool_name :: "string option"

record label_def =
  ld_initial :: "string option"
  ld_values :: "string list option"

record function_ref =
  fr_path :: string
  fr_arguments :: "pydict option"

text \<open>A value of a \<^verbatim>\<open>condition:\<close> entry: a scalar, or a list read as a disjunction.\<close>

datatype cond_value = CScalar string | CList "string list"

record policy_spec =
  ps_name :: string
  ps_on :: "phase_selector list option"
  ps_condition :: "cond_value dict option"
  ps_ask_timeout :: "int option"
  ps_function :: "function_ref option"
  ps_set_labels :: "string list option"
  ps_config :: "string dict option"

definition DEFAULT_ASK_TIMEOUT :: int where
  "DEFAULT_ASK_TIMEOUT = 86400"

record guardrails_spec =
  gs_labels :: "label_def dict option"
  gs_policies :: "policy_spec list option"
  gs_ask_timeout :: int

section \<open>Runtime contracts\<close>

text \<open>
  \<open>ec_llm_client\<close> is the identity of the shared client object, which the engine only passes
  through.
\<close>

record evaluation_context =
  ec_phase :: phase
  ec_content :: pyval
  ec_tool_name :: "string option"
  ec_trajectory :: "pyval list option"
  ec_actor :: "pydict option"
  ec_request_data :: pyval
  ec_session_state :: "pydict option"
  ec_usage :: "pydict option"
  ec_subtree_usage :: "pydict option"
  ec_user_daily_cost :: "pydict option"
  ec_model :: "string option"
  ec_harness :: "string option"
  ec_labels :: "pydict option"
  ec_llm_client :: "nat option"

record policy_result =
  pr_action :: policy_action
  pr_reason :: pyval
  pr_set_labels :: "pydict option"
  pr_deciding_policies :: "string list option"
  pr_data :: pyval
  pr_state_updates :: "state_update list option"

definition policy_result_of :: "policy_action \<Rightarrow> policy_result" where
  "policy_result_of a =
     \<lparr>pr_action = a, pr_reason = PNone, pr_set_labels = None, pr_deciding_policies = None,
      pr_data = PNone, pr_state_updates = None\<rparr>"

definition deciding_policy :: "policy_result \<Rightarrow> string option" where
  "deciding_policy r =
     (case pr_deciding_policies r of
        Some (p # ps) \<Rightarrow> Some p
      | _ \<Rightarrow> None)"

record elicitation_request =
  el_message :: pyval
  el_phase :: string
  el_policy_names :: "string list"
  el_content_preview :: string
  el_requested_schema :: pydict

definition el_policy_name :: "elicitation_request \<Rightarrow> string" where
  "el_policy_name e = (case el_policy_names e of p # ps \<Rightarrow> p | [] \<Rightarrow> [])"

definition FAIL_CLOSED_PHASES :: "string list" where
  "FAIL_CLOSED_PHASES = [''PHASE_TOOL_CALL'', ''PHASE_REQUEST'']"

text \<open>\<^verbatim>\<open>PhaseSelector.matches\<close>.\<close>

definition sel_matches :: "phase_selector \<Rightarrow> evaluation_context \<Rightarrow> bool" where
  "sel_matches sel ctx =
     (if ec_phase ctx \<noteq> sel_phase sel then False
      else (case sel_tool_name sel of
              None \<Rightarrow> True
            | Some t \<Rightarrow> ec_tool_name ctx = Some t))"

section \<open>Actions ordered by strictness\<close>

fun action_rank :: "policy_action \<Rightarrow> nat" where
  "action_rank ALLOW = 0"
| "action_rank ASK = 1"
| "action_rank DENY = 2"

instantiation policy_action :: linorder
begin
definition less_eq_policy_action :: "policy_action \<Rightarrow> policy_action \<Rightarrow> bool" where
  "less_eq_policy_action a b = (action_rank a \<le> action_rank b)"
definition less_policy_action :: "policy_action \<Rightarrow> policy_action \<Rightarrow> bool" where
  "less_policy_action a b = (action_rank a < action_rank b)"
instance
proof
  fix a b c :: policy_action
  show "(a < b) = (a \<le> b \<and> \<not> b \<le> a)"
    by (auto simp: less_eq_policy_action_def less_policy_action_def)
  show "a \<le> a" by (simp add: less_eq_policy_action_def)
  show "a \<le> b \<Longrightarrow> b \<le> c \<Longrightarrow> a \<le> c" by (simp add: less_eq_policy_action_def)
  show "a \<le> b \<Longrightarrow> b \<le> a \<Longrightarrow> a = b"
    by (cases a; cases b) (simp_all add: less_eq_policy_action_def)
  show "a \<le> b \<or> b \<le> a" by (auto simp: less_eq_policy_action_def)
qed
end

lemma ALLOW_least [simp]: "ALLOW \<le> a"
  by (simp add: less_eq_policy_action_def)

lemma DENY_greatest [simp]: "a \<le> DENY"
  by (cases a) (simp_all add: less_eq_policy_action_def)

lemma max_ALLOW [simp]: "max ALLOW a = a" "max a ALLOW = a"
  by (simp_all add: max_def antisym)

lemma max_DENY [simp]: "max DENY a = DENY" "max a DENY = DENY"
  by (simp_all add: max_def antisym)

text \<open>The wire values are a round trip.\<close>

lemma policy_action_of_action_value [simp]: "policy_action_of (action_value a) = Some a"
  by (cases a) (simp_all add: policy_action_of_def)

lemma phase_value_inject [simp]: "phase_value p = phase_value q \<longleftrightarrow> p = q"
  by (cases p; cases q) simp_all

end
