(* ===== verification/ConversationStore.thy ===== *)
theory ConversationStore
  imports PolicyTypes
begin

text \<open>
  The part of the SQLAlchemy conversation store
  (\<^verbatim>\<open>stores/conversation_store/sqlalchemy_store.py\<close>) that the policy system reads and writes:
  conversation rows, guardrail labels, session state and usage columns, the per-user daily
  cost table and the permission grants the owner lookup reads. A table is a map or a list
  of rows; a transaction is one function on the store. JSON columns hold the value they
  encode. The locale \<open>kv_column\<close> is the contract the policy engine relies on for a
  per-conversation column, interpreted here on the store's own operations.
\<close>

section \<open>Tables\<close>

record conversation =
  cv_id :: string
  cv_root :: string
  cv_parent :: "string option"
  cv_archived :: bool
  cv_model_override :: "string option"
  cv_labels :: pydict
  cv_session_state :: pydict
  cv_session_usage :: pydict

record daily_row =
  dr_cost_usd :: rat
  dr_ask_approved_usd :: "rat option"

text \<open>
  \<open>st_rows\<close> is the conversations table in its listing order (newest first); the labels of a
  row live in a table of their own, as in the database.
\<close>

record conv_store =
  st_rows :: "conversation list"
  st_labels :: "string \<Rightarrow> pydict"
  st_items :: "string \<Rightarrow> pyval list"
  st_daily :: "(string \<times> string) \<Rightarrow> daily_row option"
  st_grants :: "(string \<times> string \<times> int) list"

definition LABEL_VALUE_MAX_LEN :: nat where
  "LABEL_VALUE_MAX_LEN = 256"

definition RESERVED_USER_PUBLIC :: string where
  "RESERVED_USER_PUBLIC = ''__public__''"

section \<open>Operations\<close>

definition get_conversation :: "conv_store \<Rightarrow> string \<Rightarrow> conversation option" where
  "get_conversation st cid =
     (case filter (\<lambda>r. cv_id r = cid) (st_rows st) of
        [] \<Rightarrow> None
      | r # rs \<Rightarrow> Some (r\<lparr>cv_labels := st_labels st cid\<rparr>))"

text \<open>
  \<^verbatim>\<open>value[:LABEL_VALUE_MAX_LEN]\<close> on one label value. Slicing a string clamps it; a list slices
  but is not a value the text column takes; other values cannot be sliced.
\<close>

fun clamp_label :: "pyval \<Rightarrow> pyval res" where
  "clamp_label (PStr s) = Inr (PStr (take LABEL_VALUE_MAX_LEN s))"
| "clamp_label (PList xs) = Inl (ValueError ''Error binding parameter: type list is not supported'')"
| "clamp_label v = Inl (TypeError ([CHR 39] @ type_name v @ [CHR 39] @ '' object is not subscriptable''))"

definition label_rows :: "pydict \<Rightarrow> pydict res" where
  "label_rows updates =
     mapM_res (\<lambda>(k, v). bind_res (clamp_label v) (\<lambda>w. Inr (k, w))) updates"

definition set_labels :: "conv_store \<Rightarrow> string \<Rightarrow> pydict \<Rightarrow> conv_store res" where
  "set_labels st cid updates =
     (if updates = [] then Inr st
      else bind_res (label_rows updates) (\<lambda>rows.
        Inr (st\<lparr>st_labels := (st_labels st)(cid := dupdate (st_labels st cid) rows)\<rparr>)))"

definition set_session_state :: "conv_store \<Rightarrow> string \<Rightarrow> pydict \<Rightarrow> conv_store" where
  "set_session_state st cid state =
     st\<lparr>st_rows := map (\<lambda>r. if cv_id r = cid then r\<lparr>cv_session_state := state\<rparr> else r) (st_rows st)\<rparr>"

definition set_session_usage :: "conv_store \<Rightarrow> string \<Rightarrow> pydict \<Rightarrow> conv_store" where
  "set_session_usage st cid usage =
     st\<lparr>st_rows := map (\<lambda>r. if cv_id r = cid then r\<lparr>cv_session_usage := usage\<rparr> else r) (st_rows st)\<rparr>"

definition add_daily_cost :: "conv_store \<Rightarrow> string \<Rightarrow> string \<Rightarrow> rat \<Rightarrow> conv_store" where
  "add_daily_cost st user day delta =
     (if delta \<le> 0 then st
      else st\<lparr>st_daily := (st_daily st)((user, day) \<mapsto>
        (case st_daily st (user, day) of
           None \<Rightarrow> \<lparr>dr_cost_usd = delta, dr_ask_approved_usd = None\<rparr>
         | Some r \<Rightarrow> r\<lparr>dr_cost_usd := dr_cost_usd r + delta\<rparr>))\<rparr>)"

definition get_daily_cost :: "conv_store \<Rightarrow> string \<Rightarrow> string \<Rightarrow> rat" where
  "get_daily_cost st user day =
     (case st_daily st (user, day) of None \<Rightarrow> 0 | Some r \<Rightarrow> dr_cost_usd r)"

definition get_daily_cost_state :: "conv_store \<Rightarrow> string \<Rightarrow> string \<Rightarrow> pydict" where
  "get_daily_cost_state st user day =
     (case st_daily st (user, day) of
        None \<Rightarrow> [(''cost_usd'', PFloat 0), (''ask_approved_usd'', PFloat 0)]
      | Some r \<Rightarrow>
          [(''cost_usd'', PFloat (dr_cost_usd r)),
           (''ask_approved_usd'', PFloat (case dr_ask_approved_usd r of None \<Rightarrow> 0 | Some a \<Rightarrow> a))])"

definition set_daily_ask_approved :: "conv_store \<Rightarrow> string \<Rightarrow> string \<Rightarrow> rat \<Rightarrow> conv_store" where
  "set_daily_ask_approved st user day approved =
     st\<lparr>st_daily := (st_daily st)((user, day) \<mapsto>
       (case st_daily st (user, day) of
          None \<Rightarrow> \<lparr>dr_cost_usd = 0, dr_ask_approved_usd = Some approved\<rparr>
        | Some r \<Rightarrow> r\<lparr>dr_ask_approved_usd := Some approved\<rparr>))\<rparr>"

text \<open>
  \<^verbatim>\<open>ORDER BY level DESC LIMIT 1\<close>: the first grant of the highest level. The database leaves
  the order of equal levels open; the model takes table order.
\<close>

fun best_grant :: "(string \<times> int) option \<Rightarrow> (string \<times> int) list \<Rightarrow> (string \<times> int) option" where
  "best_grant b [] = b"
| "best_grant b ((u, l) # gs) =
     best_grant (case b of None \<Rightarrow> Some (u, l) | Some (u', l') \<Rightarrow> if l' < l then Some (u, l) else b) gs"

definition get_session_owner :: "conv_store \<Rightarrow> string \<Rightarrow> string option" where
  "get_session_owner st cid =
     map_option fst (best_grant None
       (map snd (filter (\<lambda>(c, u, l). c = cid \<and> u \<noteq> RESERVED_USER_PUBLIC) (st_grants st))))"

text \<open>\<^verbatim>\<open>list_items(cid, limit=n, order=...)\<close> without cursors and type filter.\<close>

definition list_items :: "conv_store \<Rightarrow> string \<Rightarrow> nat \<Rightarrow> bool \<Rightarrow> pyval list" where
  "list_items st cid limit asc =
     take limit (if asc then st_items st cid else rev (st_items st cid))"

record 'a paged_list =
  pg_data :: "'a list"
  pg_first_id :: "string option"
  pg_last_id :: "string option"
  pg_has_more :: bool

text \<open>
  \<^verbatim>\<open>list_conversations(limit, after, kind=None, root_conversation_id, include_archived)\<close> in
  descending creation order: the cursor keeps the rows that come later in the listing than
  the cursor row, and a cursor that names no row keeps none (the sub-select is NULL).
\<close>

definition rows_after :: "conv_store \<Rightarrow> string option \<Rightarrow> conversation list" where
  "rows_after st after =
     (case after of
        None \<Rightarrow> st_rows st
      | Some [] \<Rightarrow> st_rows st
      | Some cid \<Rightarrow> tl (dropWhile (\<lambda>r. cv_id r \<noteq> cid) (st_rows st)))"

definition list_conversations ::
    "conv_store \<Rightarrow> nat \<Rightarrow> string option \<Rightarrow> string \<Rightarrow> bool \<Rightarrow> conversation paged_list" where
  "list_conversations st limit after root_id include_archived =
     (let rows = filter (\<lambda>r. cv_root r = root_id \<and> (include_archived \<or> \<not> cv_archived r))
                   (rows_after st after);
          page = take limit rows;
          convs = map (\<lambda>r. r\<lparr>cv_labels := st_labels st (cv_id r)\<rparr>) page
      in \<lparr>pg_data = convs,
          pg_first_id = (case convs of [] \<Rightarrow> None | c # cs \<Rightarrow> Some (cv_id c)),
          pg_last_id = (if convs = [] then None else Some (cv_id (last convs))),
          pg_has_more = (limit < length rows)\<rparr>)"

section \<open>The column contract\<close>

text \<open>
  A per-conversation column: writing a value makes it the one read back, and writes to
  different conversations do not disturb each other.
\<close>

locale kv_column =
  fixes rd :: "'st \<Rightarrow> string \<Rightarrow> 'v option"
    and wr :: "'st \<Rightarrow> string \<Rightarrow> 'v \<Rightarrow> 'st"
  assumes read_write: "rd st c \<noteq> None \<Longrightarrow> rd (wr st c v) c = Some v"
    and read_other: "c' \<noteq> c \<Longrightarrow> rd (wr st c v) c' = rd st c'"
    and write_absent: "rd st c = None \<Longrightarrow> rd (wr st c v) c = None"
begin

lemma read_write_iff:
  "rd (wr st c v) c' = (if c' = c then (case rd st c of None \<Rightarrow> None | Some w \<Rightarrow> Some v) else rd st c')"
  by (cases "rd st c") (auto simp: read_write read_other write_absent)

lemma write_write: "rd (wr (wr st c v) c w) c' = rd (wr st c w) c'"
  by (simp add: read_write_iff split: option.splits)

lemma write_commute: "c \<noteq> c' \<Longrightarrow> rd (wr (wr st c v) c' w) x = rd (wr (wr st c' w) c v) x"
  by (auto simp: read_write_iff)

end

section \<open>Laws of the store\<close>

lemma map_upd_rows:
  "(\<And>r. cv_id (f r) = cv_id r) \<Longrightarrow>
   filter (\<lambda>r. cv_id r = c) (map (\<lambda>r. if cv_id r = d then f r else r) rows) =
   map (\<lambda>r. if cv_id r = d then f r else r) (filter (\<lambda>r. cv_id r = c) rows)"
  by (induction rows) auto

lemma get_conversation_Some:
  "get_conversation st c = Some cv \<Longrightarrow>
   cv_id cv = c \<and> cv_labels cv = st_labels st c"
  by (auto simp: get_conversation_def filter_eq_Cons_iff split: list.splits)

lemma get_conversation_set_session_state:
  "get_conversation (set_session_state st c s) d =
   (if d = c then map_option (\<lambda>v. v\<lparr>cv_session_state := s\<rparr>) (get_conversation st c)
    else get_conversation st d)"
proof -
  have *: "filter (\<lambda>r. cv_id r = d) (st_rows (set_session_state st c s)) =
      map (\<lambda>r. if cv_id r = c then r\<lparr>cv_session_state := s\<rparr> else r) (filter (\<lambda>r. cv_id r = d) (st_rows st))"
    by (simp add: set_session_state_def map_upd_rows)
  have "r \<in> set (filter (\<lambda>r. cv_id r = d) (st_rows st)) \<Longrightarrow> cv_id r = d" for r by simp
  then show ?thesis
    using * by (cases "filter (\<lambda>r. cv_id r = d) (st_rows st)")
      (auto simp: get_conversation_def set_session_state_def)
qed

lemma get_conversation_set_session_usage:
  "get_conversation (set_session_usage st c s) d =
   (if d = c then map_option (\<lambda>v. v\<lparr>cv_session_usage := s\<rparr>) (get_conversation st c)
    else get_conversation st d)"
proof -
  have *: "filter (\<lambda>r. cv_id r = d) (st_rows (set_session_usage st c s)) =
      map (\<lambda>r. if cv_id r = c then r\<lparr>cv_session_usage := s\<rparr> else r) (filter (\<lambda>r. cv_id r = d) (st_rows st))"
    by (simp add: set_session_usage_def map_upd_rows)
  have "r \<in> set (filter (\<lambda>r. cv_id r = d) (st_rows st)) \<Longrightarrow> cv_id r = d" for r by simp
  then show ?thesis
    using * by (cases "filter (\<lambda>r. cv_id r = d) (st_rows st)")
      (auto simp: get_conversation_def set_session_usage_def)
qed

definition read_session_state :: "conv_store \<Rightarrow> string \<Rightarrow> pydict option" where
  "read_session_state st c = map_option cv_session_state (get_conversation st c)"

definition read_session_usage :: "conv_store \<Rightarrow> string \<Rightarrow> pydict option" where
  "read_session_usage st c = map_option cv_session_usage (get_conversation st c)"

interpretation state_column: kv_column read_session_state set_session_state
  by unfold_locales
    (auto simp: read_session_state_def get_conversation_set_session_state)

interpretation usage_column: kv_column read_session_usage set_session_usage
  by unfold_locales
    (auto simp: read_session_usage_def get_conversation_set_session_usage)

text \<open>A label write that goes through stores the clamped values of exactly its keys.\<close>

definition clamp_value :: "pyval \<Rightarrow> pyval" where
  "clamp_value v = (case clamp_label v of Inr w \<Rightarrow> w | Inl e \<Rightarrow> v)"

definition is_str :: "pyval \<Rightarrow> bool" where
  "is_str v = (case v of PStr s \<Rightarrow> True | _ \<Rightarrow> False)"

lemma clamp_label_ok: "(\<exists>w. clamp_label v = Inr w) \<longleftrightarrow> is_str v"
  by (cases v) (auto simp: is_str_def)

lemma label_rows_ok:
  "(\<forall>v \<in> snd ` set d. is_str v) \<Longrightarrow> label_rows d = Inr (map (\<lambda>(k, v). (k, clamp_value v)) d)"
proof (induction d)
  case Nil
  then show ?case by (simp add: label_rows_def)
next
  case (Cons kv d)
  obtain k v where kv: "kv = (k, v)" by fastforce
  with Cons.prems have "is_str v" by simp
  then obtain w where w: "clamp_label v = Inr w" using clamp_label_ok by blast
  with Cons kv show ?case by (simp add: label_rows_def clamp_value_def)
qed

lemma label_rows_Inr: "label_rows d = Inr rows \<longleftrightarrow>
   (\<forall>v \<in> snd ` set d. is_str v) \<and> rows = map (\<lambda>(k, v). (k, clamp_value v)) d"
proof
  assume "label_rows d = Inr rows"
  then have "\<forall>v \<in> snd ` set d. is_str v"
  proof (induction d arbitrary: rows)
    case Nil
    then show ?case by simp
  next
    case (Cons kv d)
    obtain k v where kv: "kv = (k, v)" by fastforce
    from Cons.prems obtain w ws where "clamp_label v = Inr w" and "label_rows d = Inr ws"
      by (auto simp: label_rows_def kv)
    then show ?case using Cons.IH clamp_label_ok kv by auto
  qed
  with \<open>label_rows d = Inr rows\<close> show "(\<forall>v \<in> snd ` set d. is_str v) \<and>
      rows = map (\<lambda>(k, v). (k, clamp_value v)) d"
    using label_rows_ok [of d] by auto
next
  assume "(\<forall>v \<in> snd ` set d. is_str v) \<and> rows = map (\<lambda>(k, v). (k, clamp_value v)) d"
  then show "label_rows d = Inr rows" using label_rows_ok [of d] by auto
qed

lemma set_labels_Inr:
  "set_labels st c d = Inr st' \<longleftrightarrow>
   (\<forall>v \<in> snd ` set d. is_str v) \<and>
   st' = (if d = [] then st
          else st\<lparr>st_labels := (st_labels st)(c := dupdate (st_labels st c) (map (\<lambda>(k, v). (k, clamp_value v)) d))\<rparr>)"
  by (auto simp: set_labels_def label_rows_Inr)

lemma dget_map_snd: "dget (map (\<lambda>(k, v). (k, f v)) d) k = map_option f (dget d k)"
  by (induction d) auto

lemma dict_ok_map_snd: "dict_ok (map (\<lambda>(k, v). (k, f v)) d) = dict_ok d"
  by (simp add: dict_ok_def comp_def case_prod_beta)

lemma get_daily_cost_add:
  "get_daily_cost (add_daily_cost st u d x) u' d' =
   get_daily_cost st u' d' + (if u' = u \<and> d' = d \<and> 0 < x then x else 0)"
  by (auto simp: get_daily_cost_def add_daily_cost_def split: option.splits)

lemma get_daily_cost_approve:
  "get_daily_cost (set_daily_ask_approved st u d a) u' d' = get_daily_cost st u' d'"
  by (auto simp: get_daily_cost_def set_daily_ask_approved_def split: option.splits)

lemma best_grant_max:
  assumes "best_grant b gs = Some (u, l)"
  shows "(Some (u, l) = b \<or> (u, l) \<in> set gs) \<and> (\<forall>(v, m) \<in> set gs. m \<le> l) \<and>
    (case b of None \<Rightarrow> True | Some (v, m) \<Rightarrow> m \<le> l)"
  using assms
proof (induction b gs rule: best_grant.induct)
  case (1 b)
  then show ?case by auto
next
  case (2 b v m gs)
  then show ?case by (auto split: option.splits if_splits)
qed

lemma best_grant_None: "best_grant b gs = None \<longleftrightarrow> b = None \<and> gs = []"
  by (induction b gs rule: best_grant.induct) (auto split: option.splits)

text \<open>The owner lookup names a grantee of the session, never the public sentinel, of the highest level.\<close>

lemma get_session_owner_Some:
  assumes "get_session_owner st c = Some u"
  shows "\<exists>l. (c, u, l) \<in> set (st_grants st) \<and> u \<noteq> RESERVED_USER_PUBLIC \<and>
    (\<forall>(c', v, m) \<in> set (st_grants st). c' = c \<and> v \<noteq> RESERVED_USER_PUBLIC \<longrightarrow> m \<le> l)"
proof -
  let ?gs = "map snd (filter (\<lambda>(c', u, l). c' = c \<and> u \<noteq> RESERVED_USER_PUBLIC) (st_grants st))"
  from assms obtain l where l: "best_grant None ?gs = Some (u, l)"
    by (auto simp: get_session_owner_def)
  from best_grant_max [OF l] have "(u, l) \<in> set ?gs" and "\<forall>(v, m) \<in> set ?gs. m \<le> l" by auto
  then show ?thesis by (intro exI [of _ l]) force
qed

end
