(* ===== verification/Pricing.thy ===== *)
theory Pricing
  imports Prelude
begin

text \<open>
  Context windows and token prices (\<^verbatim>\<open>llms/context_window.py\<close>): the authoritative registry, the
  provider inference, the catalog lookups with their family-prefix and gateway-alias
  fallbacks, and the cache-aware cost formula. The MLflow catalog (a network fetch behind a
  cache) is the parameter \<open>fetch\<close>, litellm's registry is the parameter \<open>litellm\<close> (absent when
  the package is not installed), and the two environment variables are arguments.
\<close>

section \<open>The registry\<close>

definition DEFAULT_CONTEXT_WINDOW :: int where
  "DEFAULT_CONTEXT_WINDOW = 128000"

definition MODEL_PREFIX_TO_PROVIDER :: "string dict" where
  "MODEL_PREFIX_TO_PROVIDER =
     [(''databricks-'', ''databricks''), (''gpt-'', ''openai''), (''o1-'', ''openai''),
      (''o3-'', ''openai''), (''o4-'', ''openai''), (''claude-'', ''anthropic''),
      (''gemini-'', ''google''), (''llama-'', ''meta''), (''mistral-'', ''mistral'')]"

definition CONTEXT_WINDOW_REGISTRY :: "int dict" where
  "CONTEXT_WINDOW_REGISTRY =
     [(''qwen3-coder-plus'', 1048576), (''qwen3-coder-flash'', 1048576),
      (''qwen3-coder'', 262144), (''qwen-plus'', 131072), (''qwen-max'', 131072),
      (''qwen-turbo'', 1008192), (''qwen-flash'', 1000000)]"

definition registry_context_window :: "string \<Rightarrow> int option" where
  "registry_context_window model =
     (let bare = str_lower (str_strip (before_first (CHR '':'') (after_last (CHR ''/'') model)))
      in case dget CONTEXT_WINDOW_REGISTRY bare of
           Some w \<Rightarrow> Some w
         | None \<Rightarrow>
             if py_in ''claude'' bare \<and> endswith bare ''[1m]'' then Some 1000000 else None)"

text \<open>\<^verbatim>\<open>sorted(..., key=len of the prefix, reverse=True)\<close>: longest prefix first, ties in table order.\<close>

definition infer_provider :: "string \<Rightarrow> string option" where
  "infer_provider bare =
     (case filter (\<lambda>(p, v). startswith bare p)
             (sort_key (\<lambda>(p, v). - int (length p)) MODEL_PREFIX_TO_PROVIDER) of
        [] \<Rightarrow> None
      | (p, v) # r \<Rightarrow> Some v)"

definition split_model :: "string \<Rightarrow> string option \<times> string" where
  "split_model model =
     (if CHR ''/'' \<in> set model
      then (Some (before_first (CHR ''/'') model), after_first (CHR ''/'') model)
      else (infer_provider model, model))"

section \<open>Context windows\<close>

fun cw_total :: "pyval \<Rightarrow> int option res" where
  "cw_total (PDict cw) =
     (case pget cw ''max_input'' of
        PNone \<Rightarrow> Inr None
      | mi \<Rightarrow>
          bind_res (py_int mi) (\<lambda>i.
            bind_res (let mo = pget cw ''max_output'' in if truthy mo then py_int mo else Inr 0) (\<lambda>j.
              Inr (Some (i + j)))))"
| "cw_total v = Inr None"

definition entry_window :: "pyval \<Rightarrow> int option res" where
  "entry_window e = (case e of PDict d \<Rightarrow> cw_total (pget d ''context_window'') | _ \<Rightarrow> Inr None)"

definition family_windows :: "pydict \<Rightarrow> string \<Rightarrow> int list res" where
  "family_windows models pfx =
     bind_res (mapM_res (\<lambda>(n, e). entry_window e) (filter (\<lambda>(n, e). startswith n pfx) models))
       (\<lambda>ws. Inr (remdups (List.map_filter id ws)))"

definition fetch_context_window_from_mlflow ::
    "bool \<Rightarrow> (string \<Rightarrow> pydict option) \<Rightarrow> string \<Rightarrow> int option res" where
  "fetch_context_window_from_mlflow disabled fetch model =
     (if disabled then Inr None
      else (case split_model model of
        (None, bare) \<Rightarrow> Inr None
      | (Some provider, bare) \<Rightarrow>
          (case fetch provider of
             None \<Rightarrow> Inr None
           | Some models \<Rightarrow>
               (case entry_window (pget models bare) of
                  Inl e \<Rightarrow> Inl e
                | Inr (Some w) \<Rightarrow> Inr (Some w)
                | Inr None \<Rightarrow>
                    if CHR ''-'' \<in> set bare then
                      bind_res (family_windows models (before_last (CHR ''-'') bare)) (\<lambda>ws.
                        Inr (case ws of [w] \<Rightarrow> Some w | _ \<Rightarrow> None))
                    else Inr None))))"

text \<open>
  One litellm lookup: the limit when the package knows the model and reports a non-zero one;
  every exception inside the \<^verbatim>\<open>try\<close> is swallowed.
\<close>

definition litellm_limit :: "(string \<Rightarrow> pydict option) \<Rightarrow> string \<Rightarrow> int option" where
  "litellm_limit info model =
     (case info model of
        None \<Rightarrow> None
      | Some d \<Rightarrow>
          (let limit = pget d ''max_input_tokens''
           in if truthy limit then (case py_int limit of Inr i \<Rightarrow> Some i | Inl e \<Rightarrow> None) else None))"

definition or_default :: "int option \<Rightarrow> int" where
  "or_default w = (case w of Some i \<Rightarrow> if i \<noteq> 0 then i else DEFAULT_CONTEXT_WINDOW
                   | None \<Rightarrow> DEFAULT_CONTEXT_WINDOW)"

definition get_model_context_window ::
    "string option \<Rightarrow> bool \<Rightarrow> (string \<Rightarrow> pydict option) option \<Rightarrow> (string \<Rightarrow> pydict option)
     \<Rightarrow> string \<Rightarrow> int res" where
  "get_model_context_window override disabled litellm fetch model =
     (case override of
        Some o' \<Rightarrow> py_int (PStr o')
      | None \<Rightarrow>
        (case registry_context_window model of
           Some w \<Rightarrow> Inr w
         | None \<Rightarrow>
           (let catalog = bind_res (fetch_context_window_from_mlflow disabled fetch model)
                            (\<lambda>w. Inr (or_default w))
            in case litellm of
                 None \<Rightarrow> catalog
               | Some info \<Rightarrow>
                   (case litellm_limit info model of
                      Some i \<Rightarrow> Inr i
                    | None \<Rightarrow>
                        (if startswith model ''databricks-'' then
                           (case litellm_limit info (''databricks/'' @ model) of
                              Some i \<Rightarrow> Inr i
                            | None \<Rightarrow> catalog)
                         else catalog)))))"

definition resolve_effective_context_window ::
    "(string \<Rightarrow> int res) \<Rightarrow> int option \<Rightarrow> string option \<Rightarrow> string option \<Rightarrow> int option res" where
  "resolve_effective_context_window lookup spec_window model model_override =
     (let effective = (case model_override of Some m \<Rightarrow> Some m | None \<Rightarrow> model)
      in case (spec_window, model_override) of
           (Some w, None) \<Rightarrow> Inr (Some w)
         | _ \<Rightarrow>
             (case effective of
                Some (c # m) \<Rightarrow> bind_res (lookup (c # m)) (\<lambda>w. Inr (Some w))
              | _ \<Rightarrow> Inr None))"

section \<open>Prices\<close>

record model_pricing =
  mp_input_per_token :: rat
  mp_output_per_token :: rat
  mp_cache_read_per_token :: "rat option"
  mp_cache_write_per_token :: "rat option"

definition per_million :: "pyval \<Rightarrow> rat res" where
  "per_million v = bind_res (py_float v) (\<lambda>x. Inr (x / 1000000))"

definition per_million_opt :: "pyval \<Rightarrow> rat option res" where
  "per_million_opt v = (case v of PNone \<Rightarrow> Inr None | _ \<Rightarrow> bind_res (per_million v) (\<lambda>x. Inr (Some x)))"

text \<open>The inner \<^verbatim>\<open>_extract\<close> of \<^verbatim>\<open>fetch_model_pricing\<close>.\<close>

definition extract_pricing :: "pyval \<Rightarrow> model_pricing option res" where
  "extract_pricing entry =
     (case entry of
        PDict e \<Rightarrow>
          (case pget e ''pricing'' of
             PDict p \<Rightarrow>
               (let i = pget p ''input_per_million_tokens'';
                    ou = pget p ''output_per_million_tokens''
                in if i = PNone \<or> ou = PNone then Inr None
                   else bind_res (per_million i) (\<lambda>ip.
                        bind_res (per_million ou) (\<lambda>op.
                        bind_res (per_million_opt (pget p ''cache_read_per_million_tokens'')) (\<lambda>cr.
                        bind_res (per_million_opt (pget p ''cache_write_per_million_tokens'')) (\<lambda>cw.
                        Inr (Some \<lparr>mp_input_per_token = ip, mp_output_per_token = op,
                                   mp_cache_read_per_token = cr, mp_cache_write_per_token = cw\<rparr>))))))
           | _ \<Rightarrow> Inr None)
      | _ \<Rightarrow> Inr None)"

definition family_prices :: "pydict \<Rightarrow> string \<Rightarrow> model_pricing list res" where
  "family_prices models pfx =
     bind_res (mapM_res (\<lambda>(n, e). extract_pricing e) (filter (\<lambda>(n, e). startswith n pfx) models))
       (\<lambda>ps. Inr (remdups (List.map_filter id ps)))"

definition catalog_price :: "pydict \<Rightarrow> string \<Rightarrow> model_pricing option res" where
  "catalog_price models bare =
     (case extract_pricing (pget models bare) of
        Inl e \<Rightarrow> Inl e
      | Inr (Some p) \<Rightarrow> Inr (Some p)
      | Inr None \<Rightarrow>
          if CHR ''-'' \<in> set bare then
            bind_res (family_prices models (before_last (CHR ''-'') bare)) (\<lambda>ps.
              Inr (case ps of [p] \<Rightarrow> Some p | _ \<Rightarrow> None))
          else Inr None)"

function fetch_model_pricing ::
    "bool \<Rightarrow> (string \<Rightarrow> pydict option) \<Rightarrow> string \<Rightarrow> model_pricing option res" where
  "fetch_model_pricing disabled fetch model =
     (if disabled then Inr None
      else (case split_model model of
        (None, bare) \<Rightarrow> Inr None
      | (Some provider, bare) \<Rightarrow>
          (case fetch provider of
             None \<Rightarrow> Inr None
           | Some models \<Rightarrow>
               (case catalog_price models bare of
                  Inl e \<Rightarrow> Inl e
                | Inr (Some p) \<Rightarrow> Inr (Some p)
                | Inr None \<Rightarrow>
                    (if provider = ''databricks'' \<and> startswith bare ''databricks-'' \<and>
                        drop 11 bare \<noteq> []
                     then fetch_model_pricing disabled fetch (drop 11 bare)
                     else Inr None)))))"
  by pat_completeness auto

lemma split_model_length: "split_model m = (q, b) \<Longrightarrow> length b \<le> length m"
proof -
  have "length (after_first c m) \<le> length m" for c
    using length_dropWhile_le [of "\<lambda>x. x \<noteq> c" m] by (simp add: after_first_def)
  then show "split_model m = (q, b) \<Longrightarrow> length b \<le> length m"
    by (auto simp: split_model_def split: if_splits)
qed

lemma drop_alias_shorter:
  "(q, b) = split_model m \<Longrightarrow> drop 11 b \<noteq> [] \<Longrightarrow> length (drop 11 b) < length m"
  using split_model_length [of m q b] by (cases b) auto

termination fetch_model_pricing
  by (relation "measure (\<lambda>(d, f, m). length m)") (use drop_alias_shorter in fastforce)+

declare fetch_model_pricing.simps [simp del]

section \<open>The cost of one usage record\<close>

definition FALLBACK_CACHE_READ_INPUT_RATIO :: rat where
  "FALLBACK_CACHE_READ_INPUT_RATIO = 1 / 10"

definition FALLBACK_CACHE_WRITE_INPUT_RATIO :: rat where
  "FALLBACK_CACHE_WRITE_INPUT_RATIO = 5 / 4"

text \<open>\<^verbatim>\<open>usage.get(k) or 0\<close> as a factor of a float product.\<close>

definition token_count :: "pydict \<Rightarrow> string \<Rightarrow> rat res" where
  "token_count usage k =
     (let v = pget usage k
      in if \<not> truthy v then Inr 0
         else (case num_of v of
                 Some x \<Rightarrow> Inr x
               | None \<Rightarrow> Inl (TypeError (''unsupported operand type(s) for *: '' @ [CHR 39] @
                           type_name v @ [CHR 39] @ '' and '' @ [CHR 39] @ ''float'' @ [CHR 39]))))"

definition compute_llm_cost :: "pydict \<Rightarrow> model_pricing \<Rightarrow> rat res" where
  "compute_llm_cost usage pricing =
     bind_res (token_count usage ''input_tokens'') (\<lambda>i.
     bind_res (token_count usage ''output_tokens'') (\<lambda>ou.
     bind_res (token_count usage ''cache_read_input_tokens'') (\<lambda>r.
     bind_res (token_count usage ''cache_creation_input_tokens'') (\<lambda>w.
       let read_rate = (case mp_cache_read_per_token pricing of
                          Some x \<Rightarrow> x
                        | None \<Rightarrow> mp_input_per_token pricing * FALLBACK_CACHE_READ_INPUT_RATIO);
           write_rate = (case mp_cache_write_per_token pricing of
                          Some x \<Rightarrow> x
                        | None \<Rightarrow> mp_input_per_token pricing * FALLBACK_CACHE_WRITE_INPUT_RATIO)
       in Inr (i * mp_input_per_token pricing + ou * mp_output_per_token pricing +
               r * read_rate + w * write_rate)))))"

section \<open>Lemmas\<close>

lemma map_filter_id_set: "x \<in> set (List.map_filter id ys) \<longleftrightarrow> Some x \<in> set ys"
  by (induction ys) (auto simp: List.map_filter_simps split: option.splits)

lemma mapM_res_mem:
  assumes "mapM_res f xs = Inr ys" and "y \<in> set ys"
  shows "\<exists>x \<in> set xs. f x = Inr y"
proof -
  from assms(2) obtain i where "i < length ys" and "ys ! i = y" by (auto simp: in_set_conv_nth)
  with assms(1) show ?thesis by (auto simp: mapM_res_Inr intro!: bexI [of _ "xs ! i"])
qed

lemma mapM_res_mem':
  assumes "mapM_res f xs = Inr ys" and "x \<in> set xs"
  shows "\<exists>y \<in> set ys. f x = Inr y"
proof -
  from assms(2) obtain i where "i < length xs" and "xs ! i = x" by (auto simp: in_set_conv_nth)
  with assms(1) show ?thesis by (auto simp: mapM_res_Inr intro!: bexI [of _ "ys ! i"])
qed

lemma family_prices_mem:
  assumes "family_prices models pfx = Inr ps"
  shows "p \<in> set ps \<longleftrightarrow> (\<exists>n e. (n, e) \<in> set models \<and> startswith n pfx \<and> extract_pricing e = Inr (Some p))"
proof -
  from assms obtain qs where qs: "mapM_res (\<lambda>(n, e). extract_pricing e)
      (filter (\<lambda>(n, e). startswith n pfx) models) = Inr qs"
    and ps: "ps = remdups (List.map_filter id qs)"
    by (auto simp: family_prices_def)
  have "p \<in> set ps \<longleftrightarrow> Some p \<in> set qs" by (simp add: ps map_filter_id_set)
  also have "\<dots> \<longleftrightarrow> (\<exists>n e. (n, e) \<in> set models \<and> startswith n pfx \<and> extract_pricing e = Inr (Some p))"
    using mapM_res_mem [OF qs, of "Some p"] mapM_res_mem' [OF qs] by fastforce
  finally show ?thesis .
qed

lemma catalog_price_entry:
  assumes "catalog_price models bare = Inr (Some p)"
  shows "\<exists>n e. (n, e) \<in> set models \<and> extract_pricing e = Inr (Some p) \<and>
    (n = bare \<or> (startswith n (before_last (CHR ''-'') bare) \<and>
       (\<forall>n' e' p'. (n', e') \<in> set models \<and> startswith n' (before_last (CHR ''-'') bare) \<and>
          extract_pricing e' = Inr (Some p') \<longrightarrow> p' = p)))"
proof (cases "extract_pricing (pget models bare)")
  case (Inl e)
  with assms show ?thesis by (simp add: catalog_price_def)
next
  case (Inr o')
  show ?thesis
  proof (cases o')
    case (Some q)
    with Inr assms have "extract_pricing (pget models bare) = Inr (Some p)"
      by (simp add: catalog_price_def)
    moreover from this obtain e where "dget models bare = Some e"
      by (cases "dget models bare") (auto simp: pget_def extract_pricing_def)
    ultimately show ?thesis by (metis map_of_SomeD option.simps(5) pget_def)
  next
    case None
    with Inr assms obtain ps where ps: "family_prices models (before_last (CHR ''-'') bare) = Inr ps"
      and one: "ps = [p]"
      by (cases "family_prices models (before_last (CHR ''-'') bare)")
        (auto simp: catalog_price_def split: if_splits list.splits)
    show ?thesis using family_prices_mem [OF ps] one by (metis list.set_intros(1) set_ConsD empty_iff empty_set)
  qed
qed

lemma token_count_num:
  "num_of (pget u k) = Some x \<Longrightarrow> token_count u k = Inr x"
  by (cases "pget u k") (auto simp: token_count_def Let_def split: if_splits)

lemma token_count_absent: "dget u k = None \<Longrightarrow> token_count u k = Inr 0"
  by (simp add: token_count_def pget_def)

definition usage_record :: "int \<Rightarrow> int \<Rightarrow> int \<Rightarrow> int \<Rightarrow> pydict" where
  "usage_record i ou r w =
     [(''input_tokens'', PInt i), (''output_tokens'', PInt ou),
      (''cache_read_input_tokens'', PInt r), (''cache_creation_input_tokens'', PInt w)]"

definition record_cost :: "model_pricing \<Rightarrow> int \<Rightarrow> int \<Rightarrow> int \<Rightarrow> int \<Rightarrow> rat" where
  "record_cost p i ou r w =
     of_int i * mp_input_per_token p + of_int ou * mp_output_per_token p +
     of_int r * (case mp_cache_read_per_token p of Some x \<Rightarrow> x | None \<Rightarrow> mp_input_per_token p / 10) +
     of_int w * (case mp_cache_write_per_token p of Some x \<Rightarrow> x | None \<Rightarrow> mp_input_per_token p * 5 / 4)"

lemma compute_llm_cost_record: "compute_llm_cost (usage_record i ou r w) p = Inr (record_cost p i ou r w)"
  by (simp add: compute_llm_cost_def usage_record_def token_count_num pget_def record_cost_def
      FALLBACK_CACHE_READ_INPUT_RATIO_def FALLBACK_CACHE_WRITE_INPUT_RATIO_def Let_def
      split: option.splits)

lemma record_cost_add:
  "record_cost p (i + i') (ou + ou') (r + r') (w + w') = record_cost p i ou r w + record_cost p i' ou' r' w'"
  by (simp add: record_cost_def ring_distribs split: option.splits)

end
