(* ===== verification/PolicyEngine.thy ===== *)
theory PolicyEngine
  imports ConversationStore Pricing
begin

text \<open>
  The policy engine (\<^verbatim>\<open>runtime/policies/engine.py\<close>): the pipeline that composes the verdicts of
  the configured policies, the hot label and session-state caches with their write-through
  to the conversation store, the routing of the reserved cost-approval keys and the usage
  counters. A policy is an object with a mutable state of type \<open>'s\<close>; an engine method
  returns the engine it leaves behind, also when it raises. \<open>today\<close> is
  \<^verbatim>\<open>utc_day(now_epoch())\<close>. A list stored in the session state is a value: the aliasing of a list
  between an update and the cache is not modelled.
\<close>

section \<open>State\<close>

record ctx_bundle =
  cb_labels :: pydict
  cb_conversation_id :: string
  cb_session_state :: pydict

record 's policy =
  pol_spec :: policy_spec
  pol_eval :: "evaluation_context \<Rightarrow> ctx_bundle \<Rightarrow> 's \<Rightarrow> policy_result res \<times> 's"
  pol_state :: 's
  pol_reset :: "'s \<Rightarrow> 's"

record 's engine =
  en_policies :: "'s policy list"
  en_label_defs :: "label_def dict"
  en_ask_timeout :: int
  en_conversation_id :: string
  en_root_conversation_id :: string
  en_labels :: pydict
  en_session_state :: pydict
  en_usage :: pydict
  en_subtree_usage :: "pydict option"
  en_user_daily_cost :: "pydict option"
  en_token_pricing :: "model_pricing option"
  en_model :: "string option"
  en_store :: conv_store
  en_llm_client :: "nat option"

definition TRAJECTORY_WINDOW :: nat where
  "TRAJECTORY_WINDOW = 10"

definition USER_DAILY_ASK_APPROVED_STATE_KEY :: string where
  "USER_DAILY_ASK_APPROVED_STATE_KEY = ''_policy_user_daily_ask_approved_usd''"

definition SESSION_COST_ASK_APPROVED_STATE_KEY :: string where
  "SESSION_COST_ASK_APPROVED_STATE_KEY = ''_policy_cost_ask_approved_usd''"

definition SESSION_COST_UNPRICED_APPROVED_KEY :: string where
  "SESSION_COST_UNPRICED_APPROVED_KEY = ''_policy_cost_unpriced_approved''"

definition zero_usage :: pydict where
  "zero_usage =
     [(''input_tokens'', PInt 0), (''output_tokens'', PInt 0), (''total_tokens'', PInt 0),
      (''cache_read_input_tokens'', PInt 0), (''cache_creation_input_tokens'', PInt 0),
      (''total_cost_usd'', PFloat 0)]"

text \<open>\<^verbatim>\<open>PolicyEngine.__init__\<close>: an empty root id, state or usage counts as missing.\<close>

definition init_engine ::
    "'s policy list \<Rightarrow> label_def dict \<Rightarrow> int \<Rightarrow> string \<Rightarrow> pydict \<Rightarrow> pydict option \<Rightarrow> pydict option
     \<Rightarrow> pydict option \<Rightarrow> pydict option \<Rightarrow> model_pricing option \<Rightarrow> string option \<Rightarrow> conv_store
     \<Rightarrow> string option \<Rightarrow> nat option \<Rightarrow> 's engine" where
  "init_engine policies label_defs ask_timeout cid labels session_state usage subtree daily pricing
      model st root_id llm_client =
     \<lparr>en_policies = policies, en_label_defs = label_defs, en_ask_timeout = ask_timeout,
      en_conversation_id = cid,
      en_root_conversation_id = (case root_id of Some (c # r) \<Rightarrow> c # r | _ \<Rightarrow> cid),
      en_labels = labels,
      en_session_state = (case session_state of Some s \<Rightarrow> s | None \<Rightarrow> []),
      en_usage =
        dsetdefault
          (dsetdefault (case usage of Some (u # us) \<Rightarrow> u # us | _ \<Rightarrow> zero_usage)
             ''cache_read_input_tokens'' (PInt 0))
          ''cache_creation_input_tokens'' (PInt 0),
      en_subtree_usage = subtree, en_user_daily_cost = daily, en_token_pricing = pricing,
      en_model = model, en_store = st, en_llm_client = llm_client\<rparr>"

section \<open>Gates and filters\<close>

fun cond_ok :: "cond_value \<Rightarrow> pyval \<Rightarrow> bool" where
  "cond_ok (CScalar e) actual = (actual = PStr e)"
| "cond_ok (CList es) actual = (\<exists>e \<in> set es. actual = PStr e)"

fun condition_matches :: "cond_value dict \<Rightarrow> pydict \<Rightarrow> bool" where
  "condition_matches [] labels = True"
| "condition_matches ((k, expected) # cs) labels =
     (case pget labels k of
        PNone \<Rightarrow> False
      | actual \<Rightarrow> if cond_ok expected actual then condition_matches cs labels else False)"

definition should_fire :: "policy_spec \<Rightarrow> pydict \<Rightarrow> evaluation_context \<Rightarrow> bool" where
  "should_fire spec labels ctx =
     (if (case ps_on spec of None \<Rightarrow> False | Some sels \<Rightarrow> \<not> (\<exists>sel \<in> set sels. sel_matches sel ctx))
      then False
      else if (case ps_condition spec of None \<Rightarrow> False | Some c \<Rightarrow> \<not> condition_matches c labels)
      then False
      else True)"

definition filter_writable_labels :: "pydict option \<Rightarrow> policy_spec \<Rightarrow> pydict option" where
  "filter_writable_labels writes spec =
     (case writes of
        None \<Rightarrow> None
      | Some [] \<Rightarrow> None
      | Some d \<Rightarrow>
          (case ps_set_labels spec of
             None \<Rightarrow> Some d
           | Some whitelist \<Rightarrow> Some (filter (\<lambda>(k, v). k \<in> set whitelist) d)))"

definition label_value_ok :: "label_def dict \<Rightarrow> string \<Rightarrow> pyval \<Rightarrow> bool" where
  "label_value_ok defs k v =
     (case dget defs k of
        None \<Rightarrow> True
      | Some ldef \<Rightarrow>
          (case ld_values ldef of
             None \<Rightarrow> True
           | Some vs \<Rightarrow> (\<exists>s \<in> set vs. v = PStr s)))"

definition filter_schema_valid :: "label_def dict \<Rightarrow> pydict \<Rightarrow> pydict" where
  "filter_schema_valid defs d = filter (\<lambda>(k, v). label_value_ok defs k v) d"

text \<open>Any exception of a policy becomes a DENY without labels or state updates.\<close>

definition dispatch_policy ::
    "'s policy \<Rightarrow> evaluation_context \<Rightarrow> ctx_bundle \<Rightarrow> policy_result \<times> 's policy" where
  "dispatch_policy p ctx b =
     (case pol_eval p ctx b (pol_state p) of
        (Inr r, s) \<Rightarrow> (r, p\<lparr>pol_state := s\<rparr>)
      | (Inl e, s) \<Rightarrow>
          ((policy_result_of DENY)
             \<lparr>pr_reason := PStr (''policy '' @ repr_str (ps_name (pol_spec p)) @ '' failed: '' @ exn_text e)\<rparr>,
           p\<lparr>pol_state := s\<rparr>))"

section \<open>Context injection\<close>

definition context_bundle :: "'s engine \<Rightarrow> ctx_bundle" where
  "context_bundle en =
     \<lparr>cb_labels = en_labels en, cb_conversation_id = en_conversation_id en,
      cb_session_state = en_session_state en\<rparr>"

definition populate_trajectory :: "'s engine \<Rightarrow> evaluation_context \<Rightarrow> evaluation_context" where
  "populate_trajectory en ctx =
     ctx\<lparr>ec_trajectory :=
       Some (rev (list_items (en_store en) (en_conversation_id en) TRAJECTORY_WINDOW False))\<rparr>"

definition inject_session_state :: "'s engine \<Rightarrow> evaluation_context \<Rightarrow> evaluation_context" where
  "inject_session_state en ctx = ctx\<lparr>ec_session_state := Some (en_session_state en)\<rparr>"

definition inject_usage :: "'s engine \<Rightarrow> evaluation_context \<Rightarrow> evaluation_context" where
  "inject_usage en ctx = ctx\<lparr>ec_usage := Some (en_usage en)\<rparr>"

definition inject_subtree_usage :: "'s engine \<Rightarrow> evaluation_context \<Rightarrow> evaluation_context" where
  "inject_subtree_usage en ctx =
     (case en_subtree_usage en of None \<Rightarrow> ctx | Some u \<Rightarrow> ctx\<lparr>ec_subtree_usage := Some u\<rparr>)"

definition inject_user_daily_cost :: "'s engine \<Rightarrow> evaluation_context \<Rightarrow> evaluation_context" where
  "inject_user_daily_cost en ctx =
     (case en_user_daily_cost en of None \<Rightarrow> ctx | Some u \<Rightarrow> ctx\<lparr>ec_user_daily_cost := Some u\<rparr>)"

definition inject_model :: "'s engine \<Rightarrow> evaluation_context \<Rightarrow> evaluation_context" where
  "inject_model en ctx =
     (case ec_model ctx of Some m \<Rightarrow> ctx | None \<Rightarrow> ctx\<lparr>ec_model := en_model en\<rparr>)"

definition inject_labels :: "'s engine \<Rightarrow> evaluation_context \<Rightarrow> evaluation_context" where
  "inject_labels en ctx = ctx\<lparr>ec_labels := Some (en_labels en)\<rparr>"

definition inject_llm_client :: "'s engine \<Rightarrow> evaluation_context \<Rightarrow> evaluation_context" where
  "inject_llm_client en ctx = ctx\<lparr>ec_llm_client := en_llm_client en\<rparr>"

definition prepare_ctx :: "'s engine \<Rightarrow> evaluation_context \<Rightarrow> evaluation_context" where
  "prepare_ctx en ctx =
     inject_llm_client en (inject_labels en (inject_model en (inject_user_daily_cost en
       (inject_subtree_usage en (inject_usage en (inject_session_state en
         (populate_trajectory en ctx)))))))"

section \<open>Label writes and state updates\<close>

definition apply_label_writes :: "'s engine \<Rightarrow> pydict \<Rightarrow> unit res \<times> 's engine" where
  "apply_label_writes en d =
     (if d = [] then (Inr (), en)
      else let filtered = filter_schema_valid (en_label_defs en) d
           in if filtered = [] then (Inr (), en)
              else (case set_labels (en_store en) (en_conversation_id en) filtered of
                      Inl e \<Rightarrow> (Inl e, en)
                    | Inr st \<Rightarrow>
                        (Inr (), en\<lparr>en_store := st, en_labels := dupdate (en_labels en) filtered\<rparr>)))"

fun apply_one :: "pydict \<Rightarrow> state_update \<Rightarrow> pydict res" where
  "apply_one state u =
     (case su_action u of
        SET \<Rightarrow> Inr (dset state (su_key u) (su_value u))
      | INCREMENT \<Rightarrow>
          bind_res (py_add (pget_default state (su_key u) (PInt 0)) (su_value u)) (\<lambda>v.
            Inr (dset state (su_key u) v))
      | DELETE \<Rightarrow> Inr (dpop state (su_key u))
      | APPEND \<Rightarrow>
          (case pget state (su_key u) of
             PNone \<Rightarrow> Inr (dset state (su_key u) (PList [su_value u]))
           | PList xs \<Rightarrow> Inr (dset state (su_key u) (PList (xs @ [su_value u])))
           | v \<Rightarrow> Inl (TypeError (''APPEND on key '' @ repr_str (su_key u) @
                       '': expected list, got '' @ type_name v))))"

declare apply_one.simps [simp del]

text \<open>The loop over the session operations: the updates before a raising one stay applied.\<close>

fun apply_ops :: "pydict \<Rightarrow> state_update list \<Rightarrow> unit res \<times> pydict" where
  "apply_ops state [] = (Inr (), state)"
| "apply_ops state (u # us) =
     (case apply_one state u of
        Inl e \<Rightarrow> (Inl e, state)
      | Inr state' \<Rightarrow> apply_ops state' us)"

definition record_user_daily_ask_approved :: "string \<Rightarrow> 's engine \<Rightarrow> pyval \<Rightarrow> 's engine" where
  "record_user_daily_ask_approved today en v =
     (case v of
        PNone \<Rightarrow> en
      | _ \<Rightarrow>
        (case py_float v of
           Inl e \<Rightarrow> en
         | Inr approved \<Rightarrow>
             (case get_session_owner (en_store en) (en_conversation_id en) of
                None \<Rightarrow> en
              | Some owner \<Rightarrow>
                  en\<lparr>en_store := set_daily_ask_approved (en_store en) owner today approved,
                     en_user_daily_cost :=
                       map_option (\<lambda>d. dset d ''ask_approved_usd'' (PFloat approved))
                         (en_user_daily_cost en)\<rparr>)))"

definition record_root_cost_ask_approved :: "'s engine \<Rightarrow> state_update \<Rightarrow> unit res \<times> 's engine" where
  "record_root_cost_ask_approved en u =
     (let root_state = (case get_conversation (en_store en) (en_root_conversation_id en) of
                          None \<Rightarrow> [] | Some c \<Rightarrow> cv_session_state c)
      in case apply_one root_state u of
           Inl e \<Rightarrow> (Inl e, en)
         | Inr root_state' \<Rightarrow>
             (let en' = en\<lparr>en_store :=
                    set_session_state (en_store en) (en_root_conversation_id en) root_state'\<rparr>
              in case apply_one (en_session_state en) u of
                   Inl e \<Rightarrow> (Inl e, en')
                 | Inr s \<Rightarrow> (Inr (), en'\<lparr>en_session_state := s\<rparr>)))"

definition root_routed :: "'s engine \<Rightarrow> state_update \<Rightarrow> bool" where
  "root_routed en u \<longleftrightarrow>
     su_key u \<in> {SESSION_COST_ASK_APPROVED_STATE_KEY, SESSION_COST_UNPRICED_APPROVED_KEY} \<and>
     en_root_conversation_id en \<noteq> en_conversation_id en"

fun route_updates ::
    "string \<Rightarrow> 's engine \<Rightarrow> state_update list \<Rightarrow> state_update list \<Rightarrow> state_update list res \<times> 's engine" where
  "route_updates today en [] session_ops = (Inr session_ops, en)"
| "route_updates today en (u # us) session_ops =
     (if su_key u = USER_DAILY_ASK_APPROVED_STATE_KEY then
        route_updates today (record_user_daily_ask_approved today en (su_value u)) us session_ops
      else if root_routed en u then
        (case record_root_cost_ask_approved en u of
           (Inl e, en') \<Rightarrow> (Inl e, en')
         | (Inr x, en') \<Rightarrow> route_updates today en' us session_ops)
      else route_updates today en us (session_ops @ [u]))"

definition apply_state_updates ::
    "string \<Rightarrow> 's engine \<Rightarrow> state_update list \<Rightarrow> unit res \<times> 's engine" where
  "apply_state_updates today en updates =
     (if updates = [] then (Inr (), en)
      else (case route_updates today en updates [] of
              (Inl e, en') \<Rightarrow> (Inl e, en')
            | (Inr session_ops, en') \<Rightarrow>
                (if session_ops = [] then (Inr (), en')
                 else (case apply_ops (en_session_state en') session_ops of
                         (Inl e, s) \<Rightarrow> (Inl e, en'\<lparr>en_session_state := s\<rparr>)
                       | (Inr x, s) \<Rightarrow>
                           (Inr (), en'\<lparr>en_session_state := s,
                              en_store := set_session_state (en_store en') (en_conversation_id en') s\<rparr>)))))"

section \<open>The composed evaluation\<close>

record accum =
  ac_labels :: pydict
  ac_state :: "state_update list"
  ac_ask_reasons :: "string list"
  ac_ask_policies :: "string list"
  ac_data :: pyval

definition empty_accum :: accum where
  "empty_accum =
     \<lparr>ac_labels = [], ac_state = [], ac_ask_reasons = [], ac_ask_policies = [], ac_data = PNone\<rparr>"

datatype outcome = Denied string pyval | Completed

text \<open>The part of the loop body before the DENY test: label and state accumulation.\<close>

definition accumulate :: "policy_spec \<Rightarrow> policy_result \<Rightarrow> accum \<Rightarrow> accum" where
  "accumulate spec r acc =
     acc\<lparr>ac_labels :=
           (case filter_writable_labels (pr_set_labels r) spec of
              None \<Rightarrow> ac_labels acc | Some d \<Rightarrow> dupdate (ac_labels acc) d),
         ac_state := ac_state acc @ (case pr_state_updates r of None \<Rightarrow> [] | Some us \<Rightarrow> us)\<rparr>"

definition ask_reason :: "policy_spec \<Rightarrow> policy_result \<Rightarrow> string" where
  "ask_reason spec r =
     ps_name spec @ '': '' @ (if truthy (pr_reason r) then py_str (pr_reason r) else ''approval required'')"

text \<open>The part after it: the data handed on and the ASK bookkeeping.\<close>

definition note_result :: "policy_spec \<Rightarrow> policy_result \<Rightarrow> accum \<Rightarrow> accum" where
  "note_result spec r acc =
     acc\<lparr>ac_data := (if pr_data r = PNone then ac_data acc else pr_data r),
         ac_ask_reasons := ac_ask_reasons acc @ (if pr_action r = ASK then [ask_reason spec r] else []),
         ac_ask_policies := ac_ask_policies acc @ (if pr_action r = ASK then [ps_name spec] else [])\<rparr>"

definition next_ctx :: "policy_result \<Rightarrow> evaluation_context \<Rightarrow> evaluation_context" where
  "next_ctx r ctx = (if pr_data r = PNone then ctx else ctx\<lparr>ec_content := pr_data r\<rparr>)"

fun run_policies ::
    "pydict \<Rightarrow> ctx_bundle \<Rightarrow> evaluation_context \<Rightarrow> accum \<Rightarrow> 's policy list
     \<Rightarrow> outcome \<times> accum \<times> 's policy list" where
  "run_policies labels b ctx acc [] = (Completed, acc, [])"
| "run_policies labels b ctx acc (p # ps) =
     (if \<not> should_fire (pol_spec p) labels ctx then
        (case run_policies labels b ctx acc ps of (out, acc', ps') \<Rightarrow> (out, acc', p # ps'))
      else
        (case dispatch_policy p ctx b of
           (r, p') \<Rightarrow>
             (let acc1 = accumulate (pol_spec p) r acc
              in if pr_action r = DENY then
                   (Denied (ps_name (pol_spec p)) (pr_reason r), acc1, p' # ps)
                 else
                   (case run_policies labels b (next_ctx r ctx) (note_result (pol_spec p) r acc1) ps of
                      (out, acc', ps') \<Rightarrow> (out, acc', p' # ps')))))"

definition or_none :: "'a list \<Rightarrow> 'a list option" where
  "or_none xs = (if xs = [] then None else Some xs)"

definition compose_deny ::
    "string \<Rightarrow> 's engine \<Rightarrow> string \<Rightarrow> pyval \<Rightarrow> accum \<Rightarrow> bool \<Rightarrow> policy_result res \<times> 's engine" where
  "compose_deny today en name reason acc read_only =
     (let result = \<lparr>pr_action = DENY, pr_reason = reason, pr_set_labels = or_none (ac_labels acc),
            pr_deciding_policies = Some [name], pr_data = PNone,
            pr_state_updates = or_none (ac_state acc)\<rparr>
      in if read_only then (Inr result, en)
         else (case apply_state_updates today en (ac_state acc) of
                 (Inl e, en') \<Rightarrow> (Inl e, en')
               | (Inr x, en') \<Rightarrow>
                   (case apply_label_writes en' (ac_labels acc) of
                      (Inl e, en'') \<Rightarrow> (Inl e, en'')
                    | (Inr x, en'') \<Rightarrow> (Inr result, en''))))"

definition compose_ask :: "accum \<Rightarrow> policy_result" where
  "compose_ask acc =
     \<lparr>pr_action = ASK, pr_reason = PStr (str_join ''; '' (ac_ask_reasons acc)),
      pr_set_labels = or_none (ac_labels acc), pr_deciding_policies = Some (ac_ask_policies acc),
      pr_data = ac_data acc, pr_state_updates = or_none (ac_state acc)\<rparr>"

definition compose_allow ::
    "string \<Rightarrow> 's engine \<Rightarrow> accum \<Rightarrow> bool \<Rightarrow> policy_result res \<times> 's engine" where
  "compose_allow today en acc read_only =
     (let result = \<lparr>pr_action = ALLOW, pr_reason = PNone, pr_set_labels = or_none (ac_labels acc),
            pr_deciding_policies = None, pr_data = ac_data acc,
            pr_state_updates = or_none (ac_state acc)\<rparr>
      in if read_only then (Inr result, en)
         else (case apply_label_writes en (ac_labels acc) of
                 (Inl e, en') \<Rightarrow> (Inl e, en')
               | (Inr x, en') \<Rightarrow>
                   (case apply_state_updates today en' (ac_state acc) of
                      (Inl e, en'') \<Rightarrow> (Inl e, en'')
                    | (Inr x, en'') \<Rightarrow> (Inr result, en''))))"

definition evaluate_composed ::
    "string \<Rightarrow> 's engine \<Rightarrow> evaluation_context \<Rightarrow> bool \<Rightarrow> policy_result res \<times> 's engine" where
  "evaluate_composed today en ctx read_only =
     (case run_policies (en_labels en) (context_bundle en) (prepare_ctx en ctx) empty_accum
             (en_policies en) of
        (out, acc, ps) \<Rightarrow>
          (let en' = en\<lparr>en_policies := ps\<rparr>
           in case out of
                Denied name reason \<Rightarrow> compose_deny today en' name reason acc read_only
              | Completed \<Rightarrow>
                  (if ac_ask_reasons acc \<noteq> [] then (Inr (compose_ask acc), en')
                   else compose_allow today en' acc read_only)))"

section \<open>Remaining operations\<close>

definition spec_for :: "'s engine \<Rightarrow> string option \<Rightarrow> policy_spec option" where
  "spec_for en name =
     (case name of
        None \<Rightarrow> None
      | Some n \<Rightarrow>
          (case filter (\<lambda>p. ps_name (pol_spec p) = n) (en_policies en) of
             [] \<Rightarrow> None
           | p # ps \<Rightarrow> Some (pol_spec p)))"

definition reset_turn :: "'s engine \<Rightarrow> 's engine" where
  "reset_turn en =
     en\<lparr>en_policies := map (\<lambda>p. p\<lparr>pol_state := pol_reset p (pol_state p)\<rparr>) (en_policies en)\<rparr>"

text \<open>\<^verbatim>\<open>d[k] += v\<close>, one after the other; a missing key raises and leaves the rest undone.\<close>

fun bump :: "pydict \<Rightarrow> (string \<times> pyval) list \<Rightarrow> unit res \<times> pydict" where
  "bump d [] = (Inr (), d)"
| "bump d ((k, v) # kvs) =
     (case dget d k of
        None \<Rightarrow> (Inl (KeyError (repr_str k)), d)
      | Some w \<Rightarrow>
          (case py_add w v of
             Inl e \<Rightarrow> (Inl e, d)
           | Inr x \<Rightarrow> bump (dset d k x) kvs))"

definition token_deltas :: "int \<Rightarrow> int \<Rightarrow> int \<Rightarrow> int \<Rightarrow> int \<Rightarrow> (string \<times> pyval) list" where
  "token_deltas i ou t r w =
     [(''input_tokens'', PInt i), (''output_tokens'', PInt ou), (''total_tokens'', PInt t),
      (''cache_read_input_tokens'', PInt r), (''cache_creation_input_tokens'', PInt w)]"

definition bump_cost ::
    "model_pricing option \<Rightarrow> pydict \<Rightarrow> int \<Rightarrow> int \<Rightarrow> int \<Rightarrow> int \<Rightarrow> rat res \<times> pydict" where
  "bump_cost pricing d i ou r w =
     (case pricing of
        None \<Rightarrow> (Inr 0, d)
      | Some p \<Rightarrow>
          (case compute_llm_cost (usage_record i ou r w) p of
             Inl e \<Rightarrow> (Inl e, d)
           | Inr delta \<Rightarrow>
               (case bump d [(''total_cost_usd'', PFloat delta)] of
                  (Inl e, d') \<Rightarrow> (Inl e, d')
                | (Inr x, d') \<Rightarrow> (Inr delta, d'))))"

definition record_usage :: "'s engine \<Rightarrow> int \<Rightarrow> int \<Rightarrow> int \<Rightarrow> int \<Rightarrow> int \<Rightarrow> unit res \<times> 's engine" where
  "record_usage en i ou t r w =
     (case bump (en_usage en) (token_deltas i ou t r w) of
        (Inl e, d) \<Rightarrow> (Inl e, en\<lparr>en_usage := d\<rparr>)
      | (Inr x, d) \<Rightarrow>
          (case bump_cost (en_token_pricing en) d i ou r w of
             (Inl e, d') \<Rightarrow> (Inl e, en\<lparr>en_usage := d'\<rparr>)
           | (Inr delta, d') \<Rightarrow>
               (case en_subtree_usage en of
                  None \<Rightarrow>
                    (Inr (), en\<lparr>en_usage := d',
                       en_store := set_session_usage (en_store en) (en_conversation_id en) d'\<rparr>)
                | Some su \<Rightarrow>
                    (case bump su (token_deltas i ou t r w @ [(''total_cost_usd'', PFloat delta)]) of
                       (Inl e, su') \<Rightarrow> (Inl e, en\<lparr>en_usage := d', en_subtree_usage := Some su'\<rparr>)
                     | (Inr x, su') \<Rightarrow>
                         (Inr (), en\<lparr>en_usage := d', en_subtree_usage := Some su',
                            en_store := set_session_usage (en_store en) (en_conversation_id en) d'\<rparr>)))))"

end
