(* ===== verification/EngineLaws.thy ===== *)
theory EngineLaws
  imports PolicyEngine
begin

text \<open>
  Laws of the policy engine. \<open>chain\<close> is the reference view of one evaluation, the list of the
  policies that were dispatched with their results; the pipeline is shown to compute the
  composition of that list. Then: the effects of an evaluation and of the write-through
  operations, the label-schema and write-through invariants of every engine reachable by
  \<open>engine_step\<close>, and the usage counters.
\<close>

section \<open>The reference view of an evaluation\<close>

fun chain ::
    "pydict \<Rightarrow> ctx_bundle \<Rightarrow> evaluation_context \<Rightarrow> 's policy list \<Rightarrow> (policy_spec \<times> policy_result) list" where
  "chain labels b ctx [] = []"
| "chain labels b ctx (p # ps) =
     (if should_fire (pol_spec p) labels ctx then
        (let r = fst (dispatch_policy p ctx b)
         in (pol_spec p, r) # (if pr_action r = DENY then [] else chain labels b (next_ctx r ctx) ps))
      else chain labels b ctx ps)"

definition verdicts :: "'s engine \<Rightarrow> evaluation_context \<Rightarrow> (policy_spec \<times> policy_result) list" where
  "verdicts en ctx = chain (en_labels en) (context_bundle en) (prepare_ctx en ctx) (en_policies en)"

definition strictest :: "(policy_spec \<times> policy_result) list \<Rightarrow> policy_action" where
  "strictest vs = foldr max (map (\<lambda>(s, r). pr_action r) vs) ALLOW"

definition names_with :: "policy_action \<Rightarrow> (policy_spec \<times> policy_result) list \<Rightarrow> string list" where
  "names_with a vs = map (\<lambda>(s, r). ps_name s) (filter (\<lambda>(s, r). pr_action r = a) vs)"

definition label_writes :: "(policy_spec \<times> policy_result) list \<Rightarrow> pydict" where
  "label_writes vs =
     foldl (\<lambda>d (s, r). case filter_writable_labels (pr_set_labels r) s of None \<Rightarrow> d | Some e \<Rightarrow> dupdate d e)
       [] vs"

definition state_writes :: "(policy_spec \<times> policy_result) list \<Rightarrow> state_update list" where
  "state_writes vs =
     concat (map (\<lambda>(s, r). case pr_state_updates r of None \<Rightarrow> [] | Some us \<Rightarrow> us) vs)"

definition composed_data :: "(policy_spec \<times> policy_result) list \<Rightarrow> pyval" where
  "composed_data vs = foldl (\<lambda>d (s, r). if pr_data r = PNone then d else pr_data r) PNone vs"

lemmas verdict_defs = strictest_def names_with_def label_writes_def state_writes_def composed_data_def

lemma strictest_Nil [simp]: "strictest [] = ALLOW"
  by (simp add: strictest_def)

lemma strictest_Cons [simp]: "strictest ((s, r) # vs) = max (pr_action r) (strictest vs)"
  by (simp add: strictest_def)

lemma names_with_Nil [simp]: "names_with a [] = []"
  by (simp add: names_with_def)

lemma names_with_Cons [simp]:
  "names_with a ((s, r) # vs) = (if pr_action r = a then ps_name s # names_with a vs else names_with a vs)"
  by (simp add: names_with_def)

lemma strictest_upper: "(s, r) \<in> set vs \<Longrightarrow> pr_action r \<le> strictest vs"
  by (induction vs) (auto simp: le_max_iff_disj)

lemma strictest_attained: "strictest vs \<noteq> ALLOW \<Longrightarrow> \<exists>s r. (s, r) \<in> set vs \<and> pr_action r = strictest vs"
proof (induction vs)
  case Nil
  then show ?case by simp
next
  case (Cons v vs)
  obtain s r where v: "v = (s, r)" by fastforce
  show ?case
  proof (cases "pr_action r = strictest (v # vs)")
    case True
    with v show ?thesis by fastforce
  next
    case False
    with v have "strictest (v # vs) = strictest vs" by (simp add: max_def split: if_splits)
    with Cons show ?thesis by auto
  qed
qed

lemma strictest_ASK_iff:
  "strictest vs \<noteq> DENY \<Longrightarrow> (strictest vs = ASK \<longleftrightarrow> names_with ASK vs \<noteq> [])"
proof (induction vs)
  case (Cons v vs)
  obtain s r where v: "v = (s, r)" by fastforce
  show ?case using Cons
    by (cases "pr_action r"; cases "strictest vs") (auto simp: v max_def less_eq_policy_action_def)
qed simp

text \<open>The loop computes the outcome and the accumulator from the chain.\<close>

fun fold_chain :: "accum \<Rightarrow> (policy_spec \<times> policy_result) list \<Rightarrow> outcome \<times> accum" where
  "fold_chain acc [] = (Completed, acc)"
| "fold_chain acc ((s, r) # vs) =
     (if pr_action r = DENY then (Denied (ps_name s) (pr_reason r), accumulate s r acc)
      else fold_chain (note_result s r (accumulate s r acc)) vs)"

lemma run_policies_chain:
  "run_policies labels b ctx acc ps = (out, acc', ps') \<Longrightarrow>
   fold_chain acc (chain labels b ctx ps) = (out, acc')"
proof (induction labels b ctx acc ps arbitrary: out acc' ps' rule: run_policies.induct)
  case (1 labels b ctx acc)
  then show ?case by simp
next
  case (2 labels b ctx acc p ps)
  obtain r p' where d: "dispatch_policy p ctx b = (r, p')" by fastforce
  show ?case
  proof (cases "should_fire (pol_spec p) labels ctx")
    case False
    with 2 show ?thesis by (auto split: prod.splits)
  next
    case fire: True
    show ?thesis
    proof (cases "pr_action r = DENY")
      case True
      with fire d "2.prems" show ?thesis by (auto simp: Let_def)
    next
      case False
      obtain o2 a2 p2 where rec: "run_policies labels b (next_ctx r ctx)
          (note_result (pol_spec p) r (accumulate (pol_spec p) r acc)) ps = (o2, a2, p2)"
        by (metis prod_cases3)
      from "2.IH"(2) [OF _ d [symmetric] refl False rec] fire
      have "fold_chain (note_result (pol_spec p) r (accumulate (pol_spec p) r acc))
          (chain labels b (next_ctx r ctx) ps) = (o2, a2)" by simp
      with fire d False rec "2.prems" show ?thesis by (auto simp: Let_def)
    qed
  qed
qed

lemma chain_DENY_last:
  "chain labels b ctx ps = us @ (s, r) # vs \<Longrightarrow> pr_action r = DENY \<Longrightarrow> vs = []"
proof (induction labels b ctx ps arbitrary: us rule: chain.induct)
  case (1 labels b ctx)
  then show ?case by simp
next
  case (2 labels b ctx p ps)
  show ?case
  proof (cases "should_fire (pol_spec p) labels ctx")
    case False
    with 2 show ?thesis by simp
  next
    case True
    with 2 show ?thesis
      by (cases us) (auto simp: Let_def split: if_splits)
  qed
qed

lemma names_with_DENY_chain:
  "strictest (chain labels b ctx ps) = DENY \<Longrightarrow> length (names_with DENY (chain labels b ctx ps)) = 1"
proof (induction labels b ctx ps rule: chain.induct)
  case (2 labels b ctx p ps)
  then show ?case by (auto simp: Let_def max_def split: if_splits)
qed simp

text \<open>Fields of the folded accumulator.\<close>

lemma accumulate_fields [simp]:
  "ac_ask_reasons (accumulate s r acc) = ac_ask_reasons acc"
  "ac_ask_policies (accumulate s r acc) = ac_ask_policies acc"
  "ac_data (accumulate s r acc) = ac_data acc"
  "ac_state (accumulate s r acc) = ac_state acc @ (case pr_state_updates r of None \<Rightarrow> [] | Some us \<Rightarrow> us)"
  "ac_labels (accumulate s r acc) =
     (case filter_writable_labels (pr_set_labels r) s of
        None \<Rightarrow> ac_labels acc | Some d \<Rightarrow> dupdate (ac_labels acc) d)"
  by (simp_all add: accumulate_def)

lemma note_result_fields [simp]:
  "ac_state (note_result s r acc) = ac_state acc"
  "ac_labels (note_result s r acc) = ac_labels acc"
  "ac_data (note_result s r acc) = (if pr_data r = PNone then ac_data acc else pr_data r)"
  "ac_ask_reasons (note_result s r acc) = ac_ask_reasons acc @ (if pr_action r = ASK then [ask_reason s r] else [])"
  "ac_ask_policies (note_result s r acc) = ac_ask_policies acc @ (if pr_action r = ASK then [ps_name s] else [])"
  by (simp_all add: note_result_def)

lemma fold_chain_asks:
  "fold_chain acc vs = (Completed, acc') \<Longrightarrow>
   strictest vs \<noteq> DENY \<and> ac_ask_policies acc' = ac_ask_policies acc @ names_with ASK vs \<and>
   length (ac_ask_reasons acc') = length (ac_ask_reasons acc) + length (names_with ASK vs)"
  by (induction acc vs arbitrary: acc' rule: fold_chain.induct)
    (auto split: if_splits simp: max_def)

lemma fold_chain_denied:
  "fold_chain acc vs = (Denied n why, acc') \<Longrightarrow>
   strictest vs = DENY \<and> (\<exists>s r. (s, r) \<in> set vs \<and> pr_action r = DENY \<and> ps_name s = n \<and> pr_reason r = why)"
  by (induction acc vs rule: fold_chain.induct) (fastforce split: if_splits)+

lemma fold_chain_writes:
  assumes "fold_chain acc (chain labels b ctx ps) = (out, acc')"
  shows "ac_state acc' = ac_state acc @ state_writes (chain labels b ctx ps) \<and>
    ac_labels acc' = foldl (\<lambda>d (s, r). case filter_writable_labels (pr_set_labels r) s of
        None \<Rightarrow> d | Some e \<Rightarrow> dupdate d e) (ac_labels acc) (chain labels b ctx ps)"
  using assms
proof (induction labels b ctx ps arbitrary: acc rule: chain.induct)
  case (2 labels b ctx p ps)
  then show ?case by (auto simp: Let_def state_writes_def split: if_splits)
qed (auto simp: state_writes_def)

lemma fold_chain_data:
  "fold_chain acc vs = (Completed, acc') \<Longrightarrow>
   ac_data acc' = foldl (\<lambda>d (s, r). if pr_data r = PNone then d else pr_data r) (ac_data acc) vs"
  by (induction acc vs rule: fold_chain.induct) (auto split: if_splits)

lemma dict_ok_label_writes: "dict_ok (label_writes vs)"
proof -
  have "dict_ok d \<Longrightarrow> dict_ok (foldl (\<lambda>d (s, r). case filter_writable_labels (pr_set_labels r) s of
      None \<Rightarrow> d | Some e \<Rightarrow> dupdate d e) d vs)" for d
    by (induction vs arbitrary: d) (auto split: option.splits)
  then show ?thesis by (simp add: label_writes_def)
qed

section \<open>The composed result\<close>

definition composed_result :: "(policy_spec \<times> policy_result) list \<Rightarrow> policy_result" where
  "composed_result vs =
     \<lparr>pr_action = strictest vs,
      pr_reason =
        (case strictest vs of
           ALLOW \<Rightarrow> PNone
         | ASK \<Rightarrow> PStr (str_join ''; '' (map (\<lambda>(s, r). ask_reason s r) (filter (\<lambda>(s, r). pr_action r = ASK) vs)))
         | DENY \<Rightarrow> pr_reason (snd (last vs))),
      pr_set_labels = or_none (label_writes vs),
      pr_deciding_policies = (if strictest vs = ALLOW then None else Some (names_with (strictest vs) vs)),
      pr_data = (if strictest vs = DENY then PNone else composed_data vs),
      pr_state_updates = or_none (state_writes vs)\<rparr>"

definition policies_after :: "'s engine \<Rightarrow> evaluation_context \<Rightarrow> 's policy list" where
  "policies_after en ctx =
     snd (snd (run_policies (en_labels en) (context_bundle en) (prepare_ctx en ctx) empty_accum (en_policies en)))"

text \<open>The effects of an evaluation: in which order the accumulated writes are applied.\<close>

definition compose_effects ::
    "string \<Rightarrow> 's engine \<Rightarrow> bool \<Rightarrow> (policy_spec \<times> policy_result) list \<Rightarrow> unit res \<times> 's engine" where
  "compose_effects today en read_only vs =
     (if read_only \<or> strictest vs = ASK then (Inr (), en)
      else if strictest vs = DENY then
        (case apply_state_updates today en (state_writes vs) of
           (Inl e, en') \<Rightarrow> (Inl e, en')
         | (Inr x, en') \<Rightarrow> apply_label_writes en' (label_writes vs))
      else
        (case apply_label_writes en (label_writes vs) of
           (Inl e, en') \<Rightarrow> (Inl e, en')
         | (Inr x, en') \<Rightarrow> apply_state_updates today en' (state_writes vs)))"

lemma fold_chain_ask_reasons:
  "fold_chain acc vs = (Completed, acc') \<Longrightarrow>
   ac_ask_reasons acc' = ac_ask_reasons acc @
     map (\<lambda>(s, r). ask_reason s r) (filter (\<lambda>(s, r). pr_action r = ASK) vs)"
  by (induction acc vs rule: fold_chain.induct) (auto split: if_splits)

lemma fold_chain_denied_chain:
  "fold_chain acc (chain labels b ctx ps) = (Denied n why, acc') \<Longrightarrow>
   names_with DENY (chain labels b ctx ps) = [n] \<and> pr_reason (snd (last (chain labels b ctx ps))) = why"
proof (induction labels b ctx ps arbitrary: acc rule: chain.induct)
  case (2 labels b ctx p ps)
  show ?case
  proof (cases "should_fire (pol_spec p) labels ctx")
    case False
    with 2 show ?thesis by simp
  next
    case fire: True
    let ?r = "fst (dispatch_policy p ctx b)"
    show ?thesis
    proof (cases "pr_action ?r = DENY")
      case True
      with fire "2.prems" show ?thesis by (simp add: Let_def)
    next
      case False
      let ?acc = "note_result (pol_spec p) ?r (accumulate (pol_spec p) ?r acc)"
      from fire False "2.prems"
      have rec: "fold_chain ?acc (chain labels b (next_ctx ?r ctx) ps) = (Denied n why, acc')"
        by (simp add: Let_def)
      then have "chain labels b (next_ctx ?r ctx) ps \<noteq> []" by auto
      with "2.IH"(1) [OF fire refl False rec] fire False show ?thesis by (simp add: Let_def)
    qed
  qed
qed simp

lemma fold_chain_verdicts:
  assumes "fold_chain empty_accum (verdicts en ctx) = (out, acc)"
  shows "ac_state acc = state_writes (verdicts en ctx) \<and> ac_labels acc = label_writes (verdicts en ctx)"
  using fold_chain_writes [OF assms [unfolded verdicts_def]]
  by (simp add: empty_accum_def verdicts_def label_writes_def)

text \<open>
  The pipeline as a whole: the engine after the loop carries the policies' new states, the
  effects follow \<open>compose_effects\<close>, and a return that does not raise is the composed result.
\<close>

lemma evaluate_composed_spec:
  "evaluate_composed today en ctx ro =
   (case compose_effects today (en\<lparr>en_policies := policies_after en ctx\<rparr>) ro (verdicts en ctx) of
      (Inl e, en') \<Rightarrow> (Inl e, en')
    | (Inr x, en') \<Rightarrow> (Inr (composed_result (verdicts en ctx)), en'))"
proof -
  obtain out acc ps where run: "run_policies (en_labels en) (context_bundle en) (prepare_ctx en ctx)
      empty_accum (en_policies en) = (out, acc, ps)" by (metis prod_cases3)
  have fc: "fold_chain empty_accum (verdicts en ctx) = (out, acc)"
    using run_policies_chain [OF run] by (simp add: verdicts_def)
  have ps: "policies_after en ctx = ps" by (simp add: policies_after_def run)
  note w = fold_chain_verdicts [OF fc]
  show ?thesis
  proof (cases out)
    case (Denied n why)
    have d: "strictest (verdicts en ctx) = DENY" using fold_chain_denied fc Denied by blast
    have "names_with DENY (verdicts en ctx) = [n] \<and> pr_reason (snd (last (verdicts en ctx))) = why"
      using fold_chain_denied_chain fc Denied by (metis verdicts_def)
    with d have "composed_result (verdicts en ctx) = \<lparr>pr_action = DENY, pr_reason = why,
        pr_set_labels = or_none (ac_labels acc), pr_deciding_policies = Some [n], pr_data = PNone,
        pr_state_updates = or_none (ac_state acc)\<rparr>"
      by (simp add: composed_result_def w)
    then show ?thesis
      by (auto simp: evaluate_composed_def run ps Denied compose_deny_def compose_effects_def d w Let_def
          split: prod.splits sum.splits)
  next
    case Completed
    note fa = fold_chain_asks [OF fc [unfolded Completed]]
      fold_chain_ask_reasons [OF fc [unfolded Completed]] fold_chain_data [OF fc [unfolded Completed]]
    have nd: "strictest (verdicts en ctx) \<noteq> DENY" using fa by simp
    have asks: "ac_ask_reasons acc \<noteq> [] \<longleftrightarrow> strictest (verdicts en ctx) = ASK"
      using strictest_ASK_iff [OF nd] fa by (auto simp: empty_accum_def)
    show ?thesis
    proof (cases "strictest (verdicts en ctx)")
      case DENY
      with nd show ?thesis by simp
    next
      case ASK
      with asks have "ac_ask_reasons acc \<noteq> []" by simp
      moreover have "composed_result (verdicts en ctx) = compose_ask acc"
        using fa w by (simp add: composed_result_def compose_ask_def ASK empty_accum_def composed_data_def)
      ultimately show ?thesis
        by (simp add: evaluate_composed_def run ps Completed compose_effects_def ASK)
    next
      case ALLOW
      with asks have "ac_ask_reasons acc = []" by simp
      moreover have "composed_result (verdicts en ctx) = \<lparr>pr_action = ALLOW, pr_reason = PNone,
          pr_set_labels = or_none (ac_labels acc), pr_deciding_policies = None, pr_data = ac_data acc,
          pr_state_updates = or_none (ac_state acc)\<rparr>"
        using fa w by (simp add: composed_result_def ALLOW empty_accum_def composed_data_def)
      ultimately show ?thesis
        by (auto simp: evaluate_composed_def run ps Completed compose_allow_def compose_effects_def ALLOW w Let_def
            split: prod.splits sum.splits)
    qed
  qed
qed

lemma evaluate_composed_result:
  "evaluate_composed today en ctx ro = (Inr r, en') \<Longrightarrow> r = composed_result (verdicts en ctx)"
  by (auto simp: evaluate_composed_spec split: prod.splits sum.splits)

text \<open>
  A guard: a policy that fires and whose verdict is at least \<open>a\<close> whatever the content bounds
  the composition from below, wherever it stands and whatever the others return.
\<close>

lemma should_fire_content [simp]:
  "should_fire spec labels (ctx\<lparr>ec_content := c\<rparr>) = should_fire spec labels ctx"
  by (auto simp: should_fire_def sel_matches_def split: option.splits)

lemma chain_guard_inv:
  assumes "p \<in> set ps" and "should_fire (pol_spec p) labels ctx" and "Q (ec_content ctx)"
    and "\<forall>q \<in> set ps. \<forall>c. Q c \<longrightarrow>
      (let d = pr_data (fst (dispatch_policy q (ctx\<lparr>ec_content := c\<rparr>) b)) in d = PNone \<or> Q d)"
    and "\<forall>c. Q c \<longrightarrow> a \<le> pr_action (fst (dispatch_policy p (ctx\<lparr>ec_content := c\<rparr>) b))"
  shows "a \<le> strictest (chain labels b ctx ps)"
  using assms
proof (induction labels b ctx ps rule: chain.induct)
  case (2 labels b ctx q ps)
  let ?r = "fst (dispatch_policy q ctx b)"
  have self: "ctx\<lparr>ec_content := ec_content ctx\<rparr> = ctx" by simp
  show ?case
  proof (cases "should_fire (pol_spec q) labels ctx")
    case False
    with 2 show ?thesis by auto
  next
    case fire: True
    show ?thesis
    proof (cases "p = q")
      case True
      have "a \<le> pr_action ?r" using "2.prems"(5) [rule_format, OF "2.prems"(3)] by (simp only: self True)
      with fire show ?thesis by (simp add: Let_def le_max_iff_disj)
    next
      case False
      obtain c where c: "next_ctx ?r ctx = ctx\<lparr>ec_content := c\<rparr>" "Q c"
      proof (cases "pr_data ?r = PNone")
        case True
        then show ?thesis using that [of "ec_content ctx"] "2.prems"(3) by (simp add: next_ctx_def)
      next
        case nn: False
        have "q \<in> set (q # ps)" by simp
        then have "pr_data ?r = PNone \<or> Q (pr_data ?r)"
          using "2.prems"(4) [rule_format, OF _ "2.prems"(3)] unfolding Let_def self by blast
        with nn show ?thesis using that [of "pr_data ?r"] by (simp add: next_ctx_def)
      qed
      show ?thesis
      proof (cases "pr_action ?r = DENY")
        case True
        with fire show ?thesis by (simp add: Let_def)
      next
        case nd: False
        have "a \<le> strictest (chain labels b (next_ctx ?r ctx) ps)"
          using "2.IH"(1) [OF fire refl nd] "2.prems" False c by simp
        with fire nd show ?thesis by (simp add: Let_def le_max_iff_disj)
      qed
    qed
  qed
qed simp

lemma evaluate_guard_inv:
  assumes "evaluate_composed today en ctx ro = (Inr r, en')"
    and "p \<in> set (en_policies en)"
    and "should_fire (pol_spec p) (en_labels en) (prepare_ctx en ctx)" and "Q (ec_content (prepare_ctx en ctx))"
    and "\<forall>q \<in> set (en_policies en). \<forall>c. Q c \<longrightarrow>
      (let d = pr_data (fst (dispatch_policy q ((prepare_ctx en ctx)\<lparr>ec_content := c\<rparr>) (context_bundle en)))
       in d = PNone \<or> Q d)"
    and "\<forall>c. Q c \<longrightarrow>
      a \<le> pr_action (fst (dispatch_policy p ((prepare_ctx en ctx)\<lparr>ec_content := c\<rparr>) (context_bundle en)))"
  shows "a \<le> pr_action r"
proof -
  have "a \<le> strictest (verdicts en ctx)"
    unfolding verdicts_def by (rule chain_guard_inv [of _ _ _ _ Q, OF assms(2-6)])
  then show ?thesis using evaluate_composed_result [OF assms(1)] by (simp add: composed_result_def)
qed

lemma evaluate_guard:
  assumes "evaluate_composed today en ctx ro = (Inr r, en')"
    and "p \<in> set (en_policies en)"
    and "should_fire (pol_spec p) (en_labels en) (prepare_ctx en ctx)"
    and "\<forall>c. a \<le> pr_action (fst (dispatch_policy p ((prepare_ctx en ctx)\<lparr>ec_content := c\<rparr>) (context_bundle en)))"
  shows "a \<le> pr_action r"
  by (rule evaluate_guard_inv [of _ _ _ _ _ _ _ "\<lambda>c. True", OF assms(1-3)]) (simp_all add: assms(4))

lemma prepare_ctx_fields [simp]:
  "ec_phase (prepare_ctx en ctx) = ec_phase ctx"
  "ec_content (prepare_ctx en ctx) = ec_content ctx"
  "ec_tool_name (prepare_ctx en ctx) = ec_tool_name ctx"
  "ec_actor (prepare_ctx en ctx) = ec_actor ctx"
  "ec_request_data (prepare_ctx en ctx) = ec_request_data ctx"
  "ec_harness (prepare_ctx en ctx) = ec_harness ctx"
  "ec_session_state (prepare_ctx en ctx) = Some (en_session_state en)"
  "ec_usage (prepare_ctx en ctx) = Some (en_usage en)"
  "ec_labels (prepare_ctx en ctx) = Some (en_labels en)"
  "ec_llm_client (prepare_ctx en ctx) = en_llm_client en"
  by (simp_all add: prepare_ctx_def inject_llm_client_def inject_labels_def inject_model_def
      inject_user_daily_cost_def inject_subtree_usage_def inject_usage_def inject_session_state_def
      populate_trajectory_def split: option.splits)

lemma should_fire_prepare [simp]:
  "should_fire spec labels (prepare_ctx en ctx) = should_fire spec labels ctx"
proof -
  have "sel_matches s (prepare_ctx en ctx) = sel_matches s ctx" for s
    by (simp add: sel_matches_def split: option.splits)
  then show ?thesis by (simp add: should_fire_def split: option.splits)
qed

lemma prepare_ctx_model:
  "ec_model (prepare_ctx en ctx) = (case ec_model ctx of Some m \<Rightarrow> Some m | None \<Rightarrow> en_model en)"
  "ec_subtree_usage (prepare_ctx en ctx) =
     (case en_subtree_usage en of None \<Rightarrow> ec_subtree_usage ctx | Some u \<Rightarrow> Some u)"
  "ec_user_daily_cost (prepare_ctx en ctx) =
     (case en_user_daily_cost en of None \<Rightarrow> ec_user_daily_cost ctx | Some u \<Rightarrow> Some u)"
  by (simp_all add: prepare_ctx_def inject_llm_client_def inject_labels_def inject_model_def
      inject_user_daily_cost_def inject_subtree_usage_def inject_usage_def inject_session_state_def
      populate_trajectory_def split: option.splits)

lemma trajectory_tail:
  "ec_trajectory (prepare_ctx en ctx) =
   Some (drop (length (st_items (en_store en) (en_conversation_id en)) - TRAJECTORY_WINDOW)
     (st_items (en_store en) (en_conversation_id en)))"
  by (simp add: prepare_ctx_def inject_llm_client_def inject_labels_def inject_model_def
      inject_user_daily_cost_def inject_subtree_usage_def inject_usage_def inject_session_state_def
      populate_trajectory_def list_items_def rev_take split: option.splits)

section \<open>Frames of the write-through operations\<close>

text \<open>What no engine operation but construction changes.\<close>

definition same_setup :: "'s engine \<Rightarrow> 's engine \<Rightarrow> bool" where
  "same_setup en en' \<longleftrightarrow>
     en_label_defs en' = en_label_defs en \<and> en_ask_timeout en' = en_ask_timeout en \<and>
     en_conversation_id en' = en_conversation_id en \<and>
     en_root_conversation_id en' = en_root_conversation_id en \<and>
     en_token_pricing en' = en_token_pricing en \<and> en_model en' = en_model en \<and>
     en_llm_client en' = en_llm_client en"

lemma same_setup_refl [simp]: "same_setup en en"
  by (simp add: same_setup_def)

lemma same_setup_trans [trans]: "same_setup a b \<Longrightarrow> same_setup b c \<Longrightarrow> same_setup a c"
  by (simp add: same_setup_def)

text \<open>What the label tables and caches may see of a state update: nothing.\<close>

definition same_labels :: "'s engine \<Rightarrow> 's engine \<Rightarrow> bool" where
  "same_labels en en' \<longleftrightarrow> en_labels en' = en_labels en \<and> st_labels (en_store en') = st_labels (en_store en)"

lemma same_labels_refl [simp]: "same_labels en en"
  by (simp add: same_labels_def)

lemma same_labels_trans [trans]: "same_labels a b \<Longrightarrow> same_labels b c \<Longrightarrow> same_labels a c"
  by (simp add: same_labels_def)

lemma store_labels_frame [simp]:
  "st_labels (set_session_state st c s) = st_labels st"
  "st_labels (set_session_usage st c s) = st_labels st"
  "st_labels (set_daily_ask_approved st u d x) = st_labels st"
  by (simp_all add: set_session_state_def set_session_usage_def set_daily_ask_approved_def)

lemma record_user_daily_frame:
  "same_setup en (record_user_daily_ask_approved today en v)"
  "same_labels en (record_user_daily_ask_approved today en v)"
  "en_policies (record_user_daily_ask_approved today en v) = en_policies en"
  "en_session_state (record_user_daily_ask_approved today en v) = en_session_state en"
  "en_usage (record_user_daily_ask_approved today en v) = en_usage en"
  "st_rows (en_store (record_user_daily_ask_approved today en v)) = st_rows (en_store en)"
  by (simp_all add: record_user_daily_ask_approved_def same_setup_def same_labels_def
      set_daily_ask_approved_def split: pyval.splits sum.splits option.splits)

lemma record_root_frame:
  assumes "record_root_cost_ask_approved en u = (x, en')"
  shows "same_setup en en'" "same_labels en en'" "en_policies en' = en_policies en" "en_usage en' = en_usage en"
  using assms
  by (auto simp: record_root_cost_ask_approved_def same_setup_def same_labels_def Let_def
      split: sum.splits)

lemma same_frames_trans:
  assumes "same_setup a b" and "same_labels a b" and "en_policies b = en_policies a" and "en_usage b = en_usage a"
    and "same_setup b c \<and> same_labels b c \<and> en_policies c = en_policies b \<and> en_usage c = en_usage b"
  shows "same_setup a c \<and> same_labels a c \<and> en_policies c = en_policies a \<and> en_usage c = en_usage a"
  using assms by (simp add: same_setup_def same_labels_def)

lemma route_updates_frame:
  "route_updates today en us ops = (x, en') \<Longrightarrow>
   same_setup en en' \<and> same_labels en en' \<and> en_policies en' = en_policies en \<and> en_usage en' = en_usage en"
proof (induction today en us ops arbitrary: x en' rule: route_updates.induct)
  case (1 today en ops)
  then show ?case by simp
next
  case (2 today en u us ops)
  consider (daily) "su_key u = USER_DAILY_ASK_APPROVED_STATE_KEY"
    | (root) "su_key u \<noteq> USER_DAILY_ASK_APPROVED_STATE_KEY" "root_routed en u"
    | (own) "su_key u \<noteq> USER_DAILY_ASK_APPROVED_STATE_KEY" "\<not> root_routed en u"
    by blast
  then show ?case
  proof cases
    case daily
    with "2.prems" have "route_updates today (record_user_daily_ask_approved today en (su_value u)) us ops = (x, en')"
      by simp
    from "2.IH"(1) [OF daily this] show ?thesis
      by (rule same_frames_trans [OF record_user_daily_frame(1,2,3,5)])
  next
    case root
    obtain y en1 where r: "record_root_cost_ask_approved en u = (y, en1)" by fastforce
    note f = record_root_frame [OF r]
    show ?thesis
    proof (cases y)
      case (Inl e)
      with "2.prems" root r f show ?thesis by simp
    next
      case (Inr z)
      with root r "2.prems" have "route_updates today en1 us ops = (x, en')" by simp
      from "2.IH"(2) [OF root(1,2) r [symmetric] Inr this] show ?thesis
        by (rule same_frames_trans [OF f])
    qed
  next
    case own
    with "2.prems" have "route_updates today en us (ops @ [u]) = (x, en')" by simp
    from "2.IH"(3) [OF own this] show ?thesis .
  qed
qed

lemma apply_state_updates_frame:
  assumes "apply_state_updates today en us = (x, en')"
  shows "same_setup en en'" "same_labels en en'" "en_policies en' = en_policies en" "en_usage en' = en_usage en"
proof -
  have "same_setup en en' \<and> same_labels en en' \<and> en_policies en' = en_policies en \<and> en_usage en' = en_usage en"
  proof (cases "us = []")
    case True
    with assms show ?thesis by (simp add: apply_state_updates_def)
  next
    case False
    obtain y en1 where r: "route_updates today en us [] = (y, en1)" by fastforce
    show ?thesis using assms route_updates_frame [OF r] False r
      by (auto simp: apply_state_updates_def same_setup_def same_labels_def
          split: sum.splits if_splits prod.splits)
  qed
  then show "same_setup en en'" "same_labels en en'" "en_policies en' = en_policies en" "en_usage en' = en_usage en"
    by simp_all
qed

lemma apply_label_writes_frame:
  assumes "apply_label_writes en d = (x, en')"
  shows "same_setup en en'" "en_policies en' = en_policies en" "en_session_state en' = en_session_state en"
    "en_usage en' = en_usage en" "st_rows (en_store en') = st_rows (en_store en)"
    "en_user_daily_cost en' = en_user_daily_cost en"
  using assms
  by (auto simp: apply_label_writes_def same_setup_def Let_def set_labels_Inr split: if_splits sum.splits)

lemma apply_label_writes_cases:
  assumes "apply_label_writes en d = (x, en')"
  shows "en' = en \<or>
    (let f = filter_schema_valid (en_label_defs en) d
     in en_labels en' = dupdate (en_labels en) f \<and>
        st_labels (en_store en') = (st_labels (en_store en))(en_conversation_id en :=
          dupdate (st_labels (en_store en) (en_conversation_id en)) (map (\<lambda>(k, v). (k, clamp_value v)) f)))"
  using assms
  by (auto simp: apply_label_writes_def Let_def set_labels_Inr split: if_splits sum.splits)

section \<open>Invariants of the label cache\<close>

definition labels_valid :: "'s engine \<Rightarrow> bool" where
  "labels_valid en \<longleftrightarrow>
     (\<forall>(k, v) \<in> set (en_labels en). label_value_ok (en_label_defs en) k v)"

definition labels_synced :: "'s engine \<Rightarrow> bool" where
  "labels_synced en \<longleftrightarrow>
     st_labels (en_store en) (en_conversation_id en) = map (\<lambda>(k, v). (k, clamp_value v)) (en_labels en)"

lemma set_dset_subset: "set (dset d k v) \<subseteq> insert (k, v) (set d)"
proof (induction d)
  case Nil
  then show ?case by (simp add: dset_def)
next
  case (Cons kv d)
  then show ?case by (cases kv) (auto simp: dset_def)
qed

lemma set_dupdate_subset: "set (dupdate d e) \<subseteq> set d \<union> set e"
proof (induction d e rule: dupdate.induct)
  case (2 d k v e)
  then show ?case using set_dset_subset [of d k v] by auto
qed simp

lemma dset_map_snd: "dset (map (\<lambda>(k, v). (k, f v)) d) k (f v) = map (\<lambda>(k, v). (k, f v)) (dset d k v)"
  by (induction d) (auto simp: dset_def)

lemma dupdate_map_snd:
  "dupdate (map (\<lambda>(k, v). (k, f v)) d) (map (\<lambda>(k, v). (k, f v)) e) = map (\<lambda>(k, v). (k, f v)) (dupdate d e)"
  by (induction d e rule: dupdate.induct) (simp_all add: dset_map_snd)

lemma labels_valid_apply:
  assumes "labels_valid en" and "apply_label_writes en d = (x, en')"
  shows "labels_valid en'"
proof -
  let ?f = "filter_schema_valid (en_label_defs en) d"
  have "set (dupdate (en_labels en) ?f) \<subseteq> set (en_labels en) \<union> set ?f" by (rule set_dupdate_subset)
  moreover have "\<forall>(k, v) \<in> set ?f. label_value_ok (en_label_defs en) k v"
    by (auto simp: filter_schema_valid_def)
  ultimately show ?thesis
    using assms apply_label_writes_cases [OF assms(2)] apply_label_writes_frame(1) [OF assms(2)]
    by (fastforce simp: labels_valid_def Let_def same_setup_def)
qed

lemma labels_synced_apply:
  assumes "labels_synced en" and "apply_label_writes en d = (x, en')"
  shows "labels_synced en'"
  using assms apply_label_writes_cases [OF assms(2)] apply_label_writes_frame(1) [OF assms(2)]
  by (auto simp: labels_synced_def Let_def same_setup_def dupdate_map_snd)

lemma labels_frame:
  assumes "same_setup en en'" and "same_labels en en'"
  shows "labels_valid en' = labels_valid en" and "labels_synced en' = labels_synced en"
  using assms by (simp_all add: labels_valid_def labels_synced_def same_setup_def same_labels_def)

section \<open>Engine runs\<close>

inductive engine_step :: "'s engine \<Rightarrow> 's engine \<Rightarrow> bool" where
  step_evaluate: "evaluate_composed today en ctx ro = (x, en') \<Longrightarrow> engine_step en en'"
| step_labels: "apply_label_writes en d = (x, en') \<Longrightarrow> engine_step en en'"
| step_state: "apply_state_updates today en us = (x, en') \<Longrightarrow> engine_step en en'"
| step_usage: "record_usage en i ou t r w = (x, en') \<Longrightarrow> engine_step en en'"
| step_reset: "engine_step en (reset_turn en)"

inductive_cases engine_stepE: "engine_step en en'"

lemma record_usage_frame:
  assumes "record_usage en i ou t r w = (x, en')"
  shows "same_setup en en'" "same_labels en en'" "en_session_state en' = en_session_state en"
    "en_policies en' = en_policies en"
  using assms
  by (auto simp: record_usage_def same_setup_def same_labels_def
      split: prod.splits sum.splits option.splits)

text \<open>
  The contract of a label invariant: label writes keep it and it depends on nothing that the
  other operations change. It then holds along every run of the engine, raising operations
  included.
\<close>

locale label_invariant =
  fixes P :: "'s engine \<Rightarrow> bool"
  assumes keep_write: "P en \<Longrightarrow> apply_label_writes en d = (x, en') \<Longrightarrow> P en'"
    and keep_frame: "same_setup en en' \<Longrightarrow> same_labels en en' \<Longrightarrow> P en \<Longrightarrow> P en'"
begin

lemma keep_effects:
  assumes "P en" and "compose_effects today en ro vs = (x, en')"
  shows "P en'"
proof (cases "ro \<or> strictest vs = ASK")
  case True
  with assms show ?thesis by (simp add: compose_effects_def)
next
  case False
  show ?thesis
  proof (cases "strictest vs = DENY")
    case True
    obtain y en1 where s: "apply_state_updates today en (state_writes vs) = (y, en1)" by fastforce
    have "P en1" using keep_frame apply_state_updates_frame [OF s] assms(1) by blast
    with s True False assms(2) keep_write show ?thesis
      by (cases y) (auto simp: compose_effects_def)
  next
    case nd: False
    obtain y en1 where l: "apply_label_writes en (label_writes vs) = (y, en1)" by fastforce
    have "P en1" using keep_write assms(1) l by blast
    moreover have "P en'" if "apply_state_updates today en1 (state_writes vs) = (x, en')"
      using keep_frame apply_state_updates_frame [OF that] \<open>P en1\<close> by blast
    ultimately show ?thesis using l nd False assms(2)
      by (cases y) (auto simp: compose_effects_def)
  qed
qed

lemma keep_evaluate:
  assumes "P en" and "evaluate_composed today en ctx ro = (x, en')"
  shows "P en'"
proof -
  let ?en = "en\<lparr>en_policies := policies_after en ctx\<rparr>"
  have "P ?en" using keep_frame [of en ?en] assms(1) by (simp add: same_setup_def same_labels_def)
  moreover obtain y where "compose_effects today ?en ro (verdicts en ctx) = (y, en')"
    using assms(2) by (auto simp: evaluate_composed_spec split: prod.splits sum.splits)
  ultimately show ?thesis using keep_effects by blast
qed

lemma keep_step:
  assumes "engine_step en en'" and "P en"
  shows "P en'"
  using assms
proof (cases rule: engine_step.cases)
  case step_evaluate
  then show ?thesis using keep_evaluate assms(2) by blast
next
  case step_labels
  then show ?thesis using keep_write assms(2) by blast
next
  case step_state
  then show ?thesis using keep_frame apply_state_updates_frame assms(2) by blast
next
  case step_usage
  then show ?thesis using keep_frame record_usage_frame assms(2) by blast
next
  case step_reset
  then show ?thesis using keep_frame [of en en'] assms(2)
    by (simp add: reset_turn_def same_setup_def same_labels_def)
qed

lemma keep_run: "engine_step\<^sup>*\<^sup>* en en' \<Longrightarrow> P en \<Longrightarrow> P en'"
  by (induction rule: rtranclp_induct) (auto intro: keep_step)

end

interpretation valid_inv: label_invariant labels_valid
  by unfold_locales (blast intro: labels_valid_apply, blast dest: labels_frame(1))

interpretation setup_inv: label_invariant "same_setup en0" for en0
  using apply_label_writes_frame(1) same_setup_trans by unfold_locales blast+

interpretation synced_inv: label_invariant labels_synced
  by unfold_locales (blast intro: labels_synced_apply, blast dest: labels_frame(2))

section \<open>The session-state cache and its row\<close>

definition state_synced :: "'s engine \<Rightarrow> bool" where
  "state_synced en \<longleftrightarrow>
     read_session_state (en_store en) (en_conversation_id en) = Some (en_session_state en)"

lemma read_session_state_rows:
  "st_rows st = st_rows st' \<Longrightarrow> read_session_state st c = read_session_state st' c"
  by (simp add: read_session_state_def get_conversation_def split: list.splits)

lemma route_updates_top:
  assumes "route_updates today en us ops = (x, en')" and "en_root_conversation_id en = en_conversation_id en"
  shows "(\<exists>ops'. x = Inr ops') \<and> en_session_state en' = en_session_state en \<and>
    st_rows (en_store en') = st_rows (en_store en)"
  using assms
proof (induction today en us ops arbitrary: x en' rule: route_updates.induct)
  case (1 today en ops)
  then show ?case by auto
next
  case (2 today en u us ops)
  show ?case
  proof (cases "su_key u = USER_DAILY_ASK_APPROVED_STATE_KEY")
    case True
    let ?en = "record_user_daily_ask_approved today en (su_value u)"
    have "en_root_conversation_id ?en = en_conversation_id ?en"
      using record_user_daily_frame(1) [of en today "su_value u"] "2.prems"(2) by (simp add: same_setup_def)
    with "2.IH"(1) [OF True] "2.prems"(1) True
    have "(\<exists>ops'. x = Inr ops') \<and> en_session_state en' = en_session_state ?en \<and>
        st_rows (en_store en') = st_rows (en_store ?en)" by simp
    then show ?thesis by (simp add: record_user_daily_frame)
  next
    case False
    moreover have "\<not> root_routed en u" using "2.prems"(2) by (simp add: root_routed_def)
    ultimately show ?thesis using "2.IH"(3) "2.prems" by simp
  qed
qed

lemma state_synced_apply:
  assumes "apply_state_updates today en us = (Inr x, en')" and "state_synced en"
    and "en_root_conversation_id en = en_conversation_id en"
  shows "state_synced en'"
proof (cases "us = []")
  case True
  with assms show ?thesis by (simp add: apply_state_updates_def)
next
  case False
  obtain y en1 where r: "route_updates today en us [] = (y, en1)" by fastforce
  from route_updates_top [OF r assms(3)] obtain ops where y: "y = Inr ops"
    and s1: "en_session_state en1 = en_session_state en" "st_rows (en_store en1) = st_rows (en_store en)" by auto
  have cid: "en_conversation_id en1 = en_conversation_id en"
    using route_updates_frame [OF r] by (simp add: same_setup_def)
  have read1: "read_session_state (en_store en1) (en_conversation_id en) = Some (en_session_state en)"
    using assms(2) read_session_state_rows [OF s1(2)] by (simp add: state_synced_def)
  have frame: "en_conversation_id en' = en_conversation_id en"
    using apply_state_updates_frame(1) [OF assms(1)] by (simp add: same_setup_def)
  show ?thesis
  proof (cases "ops = []")
    case True
    with assms(1) False r y have "en' = en1" by (simp add: apply_state_updates_def)
    with read1 s1 cid show ?thesis by (simp add: state_synced_def)
  next
    case ne: False
    obtain z s where a: "apply_ops (en_session_state en1) ops = (z, s)" by fastforce
    with assms(1) False r y ne have "en_session_state en' = s"
      and "en_store en' = set_session_state (en_store en1) (en_conversation_id en1) s"
      by (auto simp: apply_state_updates_def split: sum.splits)
    then show ?thesis using state_column.read_write [of "en_store en1" "en_conversation_id en" s] read1 frame cid
      by (simp add: state_synced_def)
  qed
qed

lemma state_synced_labels:
  assumes "apply_label_writes en d = (x, en')"
  shows "state_synced en' = state_synced en"
  using apply_label_writes_frame [OF assms] read_session_state_rows [of "en_store en'" "en_store en"]
  by (simp add: state_synced_def same_setup_def)

lemma state_synced_evaluate:
  assumes ev: "evaluate_composed today en ctx ro = (Inr r, en')" and sy: "state_synced en"
    and top: "en_root_conversation_id en = en_conversation_id en"
  shows "state_synced en'"
proof -
  let ?en = "en\<lparr>en_policies := policies_after en ctx\<rparr>" and ?vs = "verdicts en ctx"
  have s: "state_synced ?en" and t: "en_root_conversation_id ?en = en_conversation_id ?en"
    using sy top by (simp_all add: state_synced_def)
  from ev obtain y where e: "compose_effects today ?en ro ?vs = (Inr y, en')"
    by (auto simp: evaluate_composed_spec split: prod.splits sum.splits)
  consider (none) "ro \<or> strictest ?vs = ASK" | (deny) "\<not> ro" "strictest ?vs = DENY"
    | (allow) "\<not> ro" "strictest ?vs = ALLOW"
    by (cases "strictest ?vs") auto
  then show ?thesis
  proof cases
    case none
    with e s show ?thesis by (simp add: compose_effects_def)
  next
    case deny
    with e obtain z en1 where "apply_state_updates today ?en (state_writes ?vs) = (Inr z, en1)"
      and l: "apply_label_writes en1 (label_writes ?vs) = (Inr y, en')"
      by (auto simp: compose_effects_def split: prod.splits sum.splits)
    from state_synced_apply [OF this(1) s t] state_synced_labels [OF l] show ?thesis by simp
  next
    case allow
    with e obtain z en1 where l: "apply_label_writes ?en (label_writes ?vs) = (Inr z, en1)"
      and a: "apply_state_updates today en1 (state_writes ?vs) = (Inr y, en')"
      by (auto simp: compose_effects_def split: prod.splits sum.splits)
    have "en_root_conversation_id en1 = en_conversation_id en1"
      using apply_label_writes_frame(1) [OF l] t by (simp add: same_setup_def)
    then show ?thesis using state_synced_apply [OF a] state_synced_labels [OF l] s by simp
  qed
qed

section \<open>Usage counters\<close>

definition num_at :: "pydict \<Rightarrow> string \<Rightarrow> rat option" where
  "num_at d k = (case dget d k of None \<Rightarrow> None | Some v \<Rightarrow> num_of v)"

definition usage_keys :: "string list" where
  "usage_keys =
     [''input_tokens'', ''output_tokens'', ''total_tokens'', ''cache_read_input_tokens'',
      ''cache_creation_input_tokens'', ''total_cost_usd'']"

definition usage_ok :: "pydict \<Rightarrow> bool" where
  "usage_ok d \<longleftrightarrow> (\<forall>k \<in> set usage_keys. num_at d k \<noteq> None)"

lemma num_at_dset [simp]: "num_at (dset d k v) k' = (if k' = k then num_of v else num_at d k')"
  by (simp add: num_at_def)

lemma num_of_int_of: "int_of v = Some i \<Longrightarrow> num_of v = Some (of_int i)"
  by (cases v) auto

lemma py_add_num:
  assumes "num_of a = Some x" and "num_of b = Some y"
  shows "\<exists>c. py_add a b = Inr c \<and> num_of c = Some (x + y)"
proof (cases "int_of a"; cases "int_of b")
  fix i j
  assume "int_of a = Some i" and "int_of b = Some j"
  then show ?thesis using assms by (simp add: py_add_def num_of_int_of)
qed (use assms in \<open>simp_all add: py_add_def\<close>)

lemma bump_numeric:
  assumes "\<forall>(k, v) \<in> set kvs. num_at d k \<noteq> None \<and> num_of v \<noteq> None" and "distinct (map fst kvs)"
  shows "\<exists>d'. bump d kvs = (Inr (), d') \<and>
    (\<forall>k. num_at d' k = (case map_of kvs k of None \<Rightarrow> num_at d k
                        | Some v \<Rightarrow> Some (the (num_at d k) + the (num_of v))))"
  using assms
proof (induction d kvs rule: bump.induct)
  case (1 d)
  then show ?case by simp
next
  case (2 d k v kvs)
  from "2.prems" obtain w x y where w: "dget d k = Some w" "num_of w = Some x" "num_of v = Some y"
    by (auto simp: num_at_def split: option.splits)
  from py_add_num [OF w(2,3)] obtain c where c: "py_add w v = Inr c" "num_of c = Some (x + y)" by blast
  have nk: "num_at d k = Some x" using w by (simp add: num_at_def)
  have "\<forall>(k', v) \<in> set kvs. num_at (dset d k c) k' \<noteq> None \<and> num_of v \<noteq> None"
    using "2.prems" c by auto
  with "2.IH" [OF w(1) c(1)] "2.prems"(2) obtain d' where d': "bump (dset d k c) kvs = (Inr (), d')"
    and look: "\<forall>k'. num_at d' k' = (case map_of kvs k' of None \<Rightarrow> num_at (dset d k c) k'
                        | Some v \<Rightarrow> Some (the (num_at (dset d k c) k') + the (num_of v)))" by auto
  have "map_of kvs k = None" using "2.prems"(2) by (simp add: map_of_eq_None_iff)
  with look nk c w have "\<forall>k'. num_at d' k' = (case map_of ((k, v) # kvs) k' of None \<Rightarrow> num_at d k'
      | Some v \<Rightarrow> Some (the (num_at d k') + the (num_of v)))"
    by (auto split: option.splits)
  with d' w c show ?case by simp
qed

lemma bump_tokens:
  assumes "usage_ok d"
  obtains d' where "bump d (token_deltas i ou t r w) = (Inr (), d')" and "usage_ok d'"
    and "num_at d' ''input_tokens'' = Some (the (num_at d ''input_tokens'') + of_int i)"
    and "num_at d' ''output_tokens'' = Some (the (num_at d ''output_tokens'') + of_int ou)"
    and "num_at d' ''total_tokens'' = Some (the (num_at d ''total_tokens'') + of_int t)"
    and "num_at d' ''total_cost_usd'' = num_at d ''total_cost_usd''"
proof -
  have "\<forall>(k, v) \<in> set (token_deltas i ou t r w). num_at d k \<noteq> None \<and> num_of v \<noteq> None"
    using assms by (auto simp: token_deltas_def usage_ok_def usage_keys_def)
  from bump_numeric [OF this] obtain d' where b: "bump d (token_deltas i ou t r w) = (Inr (), d')"
    and look: "\<And>k. num_at d' k = (case map_of (token_deltas i ou t r w) k of None \<Rightarrow> num_at d k
                        | Some v \<Rightarrow> Some (the (num_at d k) + the (num_of v)))"
    by (auto simp: token_deltas_def)
  have "usage_ok d'" using assms by (auto simp: usage_ok_def look split: option.splits)
  with b look show ?thesis by (intro that [of d']) (simp_all add: token_deltas_def)
qed

definition call_cost :: "model_pricing option \<Rightarrow> int \<Rightarrow> int \<Rightarrow> int \<Rightarrow> int \<Rightarrow> rat" where
  "call_cost pricing i ou r w = (case pricing of None \<Rightarrow> 0 | Some p \<Rightarrow> record_cost p i ou r w)"

lemma bump_cost_ok:
  assumes "usage_ok d"
  obtains d' where "bump_cost pricing d i ou r w = (Inr (call_cost pricing i ou r w), d')" and "usage_ok d'"
    and "num_at d' ''total_cost_usd'' = Some (the (num_at d ''total_cost_usd'') + call_cost pricing i ou r w)"
    and "\<forall>k. k \<noteq> ''total_cost_usd'' \<longrightarrow> num_at d' k = num_at d k"
proof (cases pricing)
  case None
  show ?thesis
    by (rule that [of d]) (use assms in \<open>auto simp: None bump_cost_def call_cost_def usage_ok_def usage_keys_def\<close>)
next
  case (Some p)
  let ?kv = "[(''total_cost_usd'', PFloat (record_cost p i ou r w))]"
  have "\<forall>(k, v) \<in> set ?kv. num_at d k \<noteq> None \<and> num_of v \<noteq> None"
    using assms by (auto simp: usage_ok_def usage_keys_def)
  from bump_numeric [OF this] obtain d' where b: "bump d ?kv = (Inr (), d')"
    and look: "\<And>k. num_at d' k = (case map_of ?kv k of None \<Rightarrow> num_at d k
                        | Some v \<Rightarrow> Some (the (num_at d k) + the (num_of v)))"
    by auto
  have "usage_ok d'" using assms by (auto simp: usage_ok_def look split: option.splits)
  moreover have "bump_cost pricing d i ou r w = (Inr (call_cost pricing i ou r w), d')"
    using b by (simp add: bump_cost_def Some compute_llm_cost_record call_cost_def del: bump.simps)
  ultimately show ?thesis using look by (intro that [of d']) (simp_all add: call_cost_def Some)
qed

text \<open>An engine constructed without a usage seed has every counter.\<close>

lemma usage_ok_init:
  "usage_ok (en_usage (init_engine ps defs tmo cid labels ss None sub daily pricing m st rid llm))"
  by (simp add: init_engine_def usage_ok_def usage_keys_def zero_usage_def dsetdefault_def dhas_def num_at_def)

end
