(* ===== verification/FunctionPolicy.thy ===== *)
theory FunctionPolicy
  imports EngineLaws
begin

text \<open>
  Policies backed by a Python callable (\<^verbatim>\<open>policies/function.py\<close>) with the adapter for legacy
  \<^verbatim>\<open>(content, phase)\<close> callables (\<^verbatim>\<open>spec/_omnigent_legacy_shim.py\<close>): the event handed to the callable,
  the call conventions chosen from the callable's signature, and the normalisation of
  whatever it returns into a policy result. A callable is an object with a signature, a
  state of type \<open>'s\<close> and a function on the arguments it is called with. Importing a dotted path
  (\<^verbatim>\<open>importlib\<close>) is the parameter \<open>import_path\<close>, \<^verbatim>\<open>json.loads\<close> the parameter \<open>json_loads\<close>. A callable's
  dictionary holds plain values (an enum member or a \<^verbatim>\<open>StateUpdate\<close> object in it reads like its
  value); keys of state updates are strings, as \<^verbatim>\<open>StateUpdateEntry\<close> declares.
\<close>

section \<open>Events\<close>

text \<open>The event dictionary; its \<^verbatim>\<open>llm_client\<close> entry, an object reference, is kept apart.\<close>

record event =
  ev_fields :: pydict
  ev_llm_client :: "nat option"

definition opt_str :: "string option \<Rightarrow> pyval" where
  "opt_str s = (case s of None \<Rightarrow> PNone | Some t \<Rightarrow> PStr t)"

definition opt_dict :: "pydict option \<Rightarrow> pyval" where
  "opt_dict d = (case d of None \<Rightarrow> PDict [] | Some e \<Rightarrow> PDict e)"

definition build_event :: "evaluation_context \<Rightarrow> event" where
  "build_event ctx =
     \<lparr>ev_fields =
        [(''type'', PStr (phase_value (ec_phase ctx))),
         (''target'', opt_str (ec_tool_name ctx)),
         (''data'', ec_content ctx),
         (''context'', PDict
            [(''actor'', opt_dict (ec_actor ctx)),
             (''usage'', opt_dict (ec_usage ctx)),
             (''user_daily_cost'', opt_dict (ec_user_daily_cost ctx)),
             (''model'', opt_str (ec_model ctx)),
             (''harness'', opt_str (ec_harness ctx)),
             (''labels'', opt_dict (ec_labels ctx)),
             (''subtree_usage'', opt_dict (ec_subtree_usage ctx))]),
         (''session_state'', opt_dict (ec_session_state ctx))] @
        (if ec_request_data ctx = PNone then [] else [(''request_data'', ec_request_data ctx)]),
      ev_llm_client = ec_llm_client ctx\<rparr>"

section \<open>Callables\<close>

datatype param_kind = POSITIONAL_ONLY | POSITIONAL_OR_KEYWORD | VAR_POSITIONAL | KEYWORD_ONLY | VAR_KEYWORD

record param =
  pa_name :: string
  pa_kind :: param_kind
  pa_has_default :: bool

text \<open>What the source passes to a callable: an event, an event with the config, or legacy arguments.\<close>

datatype call_args =
    CEvent event
  | CEventConfig event "string dict"
  | CLegacy pyval string "pydict option"

datatype raw_return =
    RNone
  | RResult policy_result
  | RDict pydict
  | RShaped pyval pyval pyval pyval
  | ROther string

record 's callable_obj =
  ca_sig :: "param list option"
  ca_fun :: "call_args \<Rightarrow> 's \<Rightarrow> raw_return res \<times> 's"
  ca_state :: 's
  ca_reset :: "('s \<Rightarrow> 's) option"

definition is_positional :: "param \<Rightarrow> bool" where
  "is_positional p \<longleftrightarrow> pa_kind p \<in> {POSITIONAL_ONLY, POSITIONAL_OR_KEYWORD}"

definition callable_arity :: "param list option \<Rightarrow> nat" where
  "callable_arity sig = (case sig of None \<Rightarrow> 1 | Some ps \<Rightarrow> length (filter is_positional ps))"

definition has_no_required_params :: "param list option \<Rightarrow> bool" where
  "has_no_required_params sig =
     (case sig of None \<Rightarrow> False | Some ps \<Rightarrow> (\<forall>p \<in> set ps. is_positional p \<longrightarrow> pa_has_default p))"

section \<open>Normalising a return value\<close>

definition quoted :: "string \<Rightarrow> string" where
  "quoted s = [CHR 39] @ s @ [CHR 39]"

definition coerce_entry :: "string \<Rightarrow> pyval \<Rightarrow> state_update res" where
  "coerce_entry spec_name entry =
     (case entry of
        PDict d \<Rightarrow>
          (if pget d ''key'' = PNone \<or> pget d ''action'' = PNone then
             Inl (ValueError (''FunctionPolicy '' @ repr_str spec_name @
               '': state_updates entry missing required '' @ quoted ''key'' @ '' or '' @
               quoted ''action'' @ '' field''))
           else
             (case state_update_action_of (str_lower (py_str (pget d ''action''))) of
                None \<Rightarrow>
                  Inl (ValueError (''FunctionPolicy '' @ repr_str spec_name @
                    '': invalid state_updates action '' @ py_repr (pget d ''action'') @
                    ''; must be one of '' @ quoted ''set'' @ '', '' @ quoted ''increment'' @ '', '' @
                    quoted ''delete'' @ '', '' @ quoted ''append''))
              | Some a \<Rightarrow>
                  (case pget d ''key'' of
                     PStr k \<Rightarrow> Inr \<lparr>su_key = k, su_action = a, su_value = pget d ''value''\<rparr>
                   | v \<Rightarrow> Inl (TypeError (''state key must be str, not '' @ type_name v)))))
      | v \<Rightarrow>
          Inl (TypeError (''FunctionPolicy '' @ repr_str spec_name @
            '': state_updates entry must be a dict, got '' @ type_name v)))"

definition coerce_state_updates :: "string \<Rightarrow> pyval \<Rightarrow> state_update list option res" where
  "coerce_state_updates spec_name raw =
     (case raw of
        PNone \<Rightarrow> Inr None
      | PDict d \<Rightarrow> Inr (Some (map (\<lambda>(k, v). \<lparr>su_key = k, su_action = SET, su_value = v\<rparr>) d))
      | PList es \<Rightarrow>
          bind_res (mapM_res (coerce_entry spec_name) es) (\<lambda>us. Inr (or_none us))
      | _ \<Rightarrow> Inr None)"

definition dict_or_none :: "pyval \<Rightarrow> pydict option" where
  "dict_or_none v = (case v of PDict d \<Rightarrow> Some d | _ \<Rightarrow> None)"

definition policy_result_from_dict :: "string \<Rightarrow> pydict \<Rightarrow> policy_result res" where
  "policy_result_from_dict spec_name raw =
     (let result_raw = pget raw ''result''
      in if result_raw = PNone then
           Inl (ValueError (''FunctionPolicy '' @ repr_str spec_name @ '' dict return missing '' @
             quoted ''result'' @ '' key''))
         else
           (case policy_action_of (str_lower (py_str result_raw)) of
              None \<Rightarrow>
                Inl (ValueError (''FunctionPolicy '' @ repr_str spec_name @
                  '' returned invalid decision result '' @ py_repr result_raw @ ''; must be one of '' @
                  quoted ''allow'' @ '', '' @ quoted ''ask'' @ '', '' @ quoted ''deny'' @
                  '' (case-insensitive)''))
            | Some a \<Rightarrow>
                bind_res (coerce_state_updates spec_name (pget raw ''state_updates'')) (\<lambda>us.
                  Inr \<lparr>pr_action = a, pr_reason = pget raw ''reason'',
                       pr_set_labels = dict_or_none (pget raw ''set_labels''),
                       pr_deciding_policies = None, pr_data = pget raw ''data'',
                       pr_state_updates = us\<rparr>)))"

definition coerce_to_policy_result :: "string \<Rightarrow> raw_return \<Rightarrow> policy_result res" where
  "coerce_to_policy_result spec_name raw =
     (case raw of
        RNone \<Rightarrow> Inr (policy_result_of ALLOW)
      | RResult r \<Rightarrow> Inr r
      | RDict d \<Rightarrow> policy_result_from_dict spec_name d
      | RShaped a reason labels updates \<Rightarrow>
          (case policy_action_of (str_lower (py_str a)) of
             None \<Rightarrow>
               Inl (ValueError (''FunctionPolicy '' @ repr_str spec_name @ '' returned invalid action '' @
                 py_repr a @ ''; must be one of '' @ quoted ''allow'' @ '', '' @ quoted ''ask'' @ '', '' @
                 quoted ''deny''))
           | Some act \<Rightarrow>
               bind_res (coerce_state_updates spec_name updates) (\<lambda>us.
                 Inr \<lparr>pr_action = act, pr_reason = reason, pr_set_labels = dict_or_none labels,
                      pr_deciding_policies = None, pr_data = PNone, pr_state_updates = us\<rparr>))
      | ROther t \<Rightarrow>
          Inl (TypeError (''FunctionPolicy '' @ repr_str spec_name @ '' returned unsupported type '' @ t @
            ''; expected dict with '' @ quoted ''result'' @ '' key or PolicyResult'')))"

section \<open>The policy object\<close>

definition call_policy ::
    "policy_spec \<Rightarrow> 's callable_obj \<Rightarrow> evaluation_context \<Rightarrow> 's \<Rightarrow> raw_return res \<times> 's" where
  "call_policy spec ca ctx s =
     (let ev = build_event ctx;
          config = (case ps_config spec of None \<Rightarrow> [] | Some c \<Rightarrow> c)
      in if 2 \<le> callable_arity (ca_sig ca) then ca_fun ca (CEventConfig ev config) s
         else ca_fun ca (CEvent ev) s)"

definition function_evaluate ::
    "policy_spec \<Rightarrow> 's callable_obj \<Rightarrow> evaluation_context \<Rightarrow> ctx_bundle \<Rightarrow> 's \<Rightarrow> policy_result res \<times> 's" where
  "function_evaluate spec ca ctx b s =
     (case call_policy spec ca ctx s of
        (Inl e, s') \<Rightarrow> (Inl e, s')
      | (Inr raw, s') \<Rightarrow> (coerce_to_policy_result (ps_name spec) raw, s'))"

definition function_policy :: "policy_spec \<Rightarrow> 's callable_obj \<Rightarrow> 's policy" where
  "function_policy spec ca =
     \<lparr>pol_spec = spec, pol_eval = function_evaluate spec ca, pol_state = ca_state ca,
      pol_reset = (case ca_reset ca of None \<Rightarrow> id | Some f \<Rightarrow> f)\<rparr>"

section \<open>The legacy adapter\<close>

definition has_legacy_signature :: "param list option \<Rightarrow> bool" where
  "has_legacy_signature sig =
     (case sig of
        None \<Rightarrow> False
      | Some ps \<Rightarrow> take 2 (map pa_name (filter is_positional ps)) = [''content'', ''phase''])"

definition positional_arity :: "param list option \<Rightarrow> nat" where
  "positional_arity sig = (case sig of None \<Rightarrow> 2 | Some ps \<Rightarrow> length (filter is_positional ps))"

definition coerce_legacy_return :: "raw_return \<Rightarrow> raw_return" where
  "coerce_legacy_return raw =
     (case raw of
        RDict d \<Rightarrow>
          (if dhas d ''action'' \<and> \<not> dhas d ''decision'' then
             RDict ((''result'', PStr (str_upper (py_str (pget d ''action'')))) #
               (if pget d ''reason'' = PNone then [] else [(''reason'', pget d ''reason'')]))
           else RDict d)
      | _ \<Rightarrow> raw)"

definition maybe_parse_json :: "(string \<Rightarrow> pyval option) \<Rightarrow> pyval \<Rightarrow> pyval" where
  "maybe_parse_json json_loads v =
     (case v of PStr s \<Rightarrow> (case json_loads s of None \<Rightarrow> v | Some w \<Rightarrow> w) | _ \<Rightarrow> v)"

definition v0_event_to_legacy_phase :: "pydict \<Rightarrow> pyval" where
  "v0_event_to_legacy_phase ev = pget_default ev ''type'' (PStr ''request'')"

definition v0_event_to_legacy_content :: "(string \<Rightarrow> pyval option) \<Rightarrow> pydict \<Rightarrow> pyval" where
  "v0_event_to_legacy_content json_loads ev =
     (if pget_default ev ''type'' (PStr []) = PStr ''tool_result''
      then maybe_parse_json json_loads (pget ev ''data'')
      else pget ev ''data'')"

definition sub_dict :: "pydict \<Rightarrow> string \<Rightarrow> pydict" where
  "sub_dict d k = (case dget d k of Some (PDict e) \<Rightarrow> e | _ \<Rightarrow> [])"

text \<open>\<^verbatim>\<open>_convert_args\<close> on an event, the only form \<^verbatim>\<open>FunctionPolicy\<close> calls the wrapper with.\<close>

definition convert_args ::
    "(string \<Rightarrow> pyval option) \<Rightarrow> bool \<Rightarrow> string list option \<Rightarrow> event \<Rightarrow> call_args" where
  "convert_args json_loads wants_context configured_phases ev =
     (let f = ev_fields ev;
          labels = pget_default (sub_dict f ''context'') ''labels'' (PDict [])
      in CLegacy (v0_event_to_legacy_content json_loads f) (py_str (v0_event_to_legacy_phase f))
           (if wants_context then
              Some ([(''labels'', labels)] @
                (case configured_phases of
                   None \<Rightarrow> []
                 | Some ps \<Rightarrow> [(''configured_phases'', PList (map PStr ps))]) @
                (if truthy (pget f ''target'') then [(''tool_name'', pget f ''target'')] else []))
            else None))"

definition legacy_shim_sig :: "param list" where
  "legacy_shim_sig =
     [\<lparr>pa_name = ''ctx'', pa_kind = POSITIONAL_OR_KEYWORD, pa_has_default = False\<rparr>,
      \<lparr>pa_name = ''context'', pa_kind = POSITIONAL_OR_KEYWORD, pa_has_default = False\<rparr>]"

definition wrap_legacy ::
    "(string \<Rightarrow> pyval option) \<Rightarrow> string list option \<Rightarrow> 's callable_obj \<Rightarrow> 's callable_obj" where
  "wrap_legacy json_loads configured_phases fn =
     \<lparr>ca_sig = Some legacy_shim_sig,
      ca_fun = (\<lambda>args s.
        (case args of
           CEventConfig ev cfg \<Rightarrow>
             (case ca_fun fn (convert_args json_loads (3 \<le> positional_arity (ca_sig fn))
                     configured_phases ev) s of
                (Inl e, s') \<Rightarrow> (Inl e, s')
              | (Inr raw, s') \<Rightarrow> (Inr (coerce_legacy_return raw), s'))
         | _ \<Rightarrow> (Inl (TypeError ''missing 1 required positional argument''), s))),
      ca_state = ca_state fn, ca_reset = ca_reset fn\<rparr>"

section \<open>Resolving a spec\<close>

text \<open>
  What a dotted path imports: an object that may be callable (otherwise its type name) and
  that may be called with keyword arguments as a factory, giving such an object again.
\<close>

record 's target =
  tg_self :: "'s callable_obj + string"
  tg_call :: "pydict \<Rightarrow> ('s callable_obj + string) res"

definition resolve_dotted_path :: "(string \<Rightarrow> string \<Rightarrow> 's target res) \<Rightarrow> string \<Rightarrow> 's target res" where
  "resolve_dotted_path import_path path =
     (if CHR ''.'' \<notin> set path then
        Inl (ValueError (''function path '' @ repr_str path @
          '' must be a dotted module.attribute reference (e.g. '' @ quoted ''myorg.policies.rate_limit'' @ '')''))
      else import_path (before_last (CHR ''.'') path) (after_last (CHR ''.'') path))"

definition target_sig :: "'s target \<Rightarrow> param list option" where
  "target_sig t = (case tg_self t of Inl c \<Rightarrow> ca_sig c | Inr n \<Rightarrow> None)"

definition resolve_function_policy ::
    "(string \<Rightarrow> string \<Rightarrow> 's target res) \<Rightarrow> (string \<Rightarrow> pyval option) \<Rightarrow> policy_spec \<Rightarrow> 's policy res" where
  "resolve_function_policy import_path json_loads spec =
     (case ps_function spec of
        None \<Rightarrow>
          Inl (ValueError (''FunctionPolicy '' @ repr_str (ps_name spec) @
            '' has no function reference; parser should have rejected this at spec load.''))
      | Some fr \<Rightarrow>
          bind_res (resolve_dotted_path import_path (fr_path fr)) (\<lambda>t.
          bind_res (case fr_arguments fr of
                      Some args \<Rightarrow> tg_call t args
                    | None \<Rightarrow> if has_no_required_params (target_sig t) then tg_call t [] else Inr (tg_self t))
            (\<lambda>c.
              (case c of
                 Inr n \<Rightarrow>
                   Inl (ValueError (''FunctionPolicy '' @ repr_str (ps_name spec) @ '': resolved object at '' @
                     repr_str (fr_path fr) @ '' is not callable (got '' @ n @ '')''))
               | Inl ca \<Rightarrow>
                   Inr (function_policy spec
                     (if has_legacy_signature (ca_sig ca) then wrap_legacy json_loads None ca else ca))))))"

section \<open>Declarative fixed actions\<close>

definition fixed_action ::
    "string \<Rightarrow> string option \<Rightarrow> pydict option \<Rightarrow> string list option \<Rightarrow> string list option \<Rightarrow> pydict \<Rightarrow> raw_return" where
  "fixed_action action reason labels on_phases on_tools ev =
     (if (case on_phases of Some (p # ps) \<Rightarrow> pget ev ''type'' \<notin> PStr ` set (p # ps) | _ \<Rightarrow> False) then RNone
      else if (case on_tools of Some (t # ts) \<Rightarrow> pget ev ''target'' \<notin> PStr ` set (t # ts) | _ \<Rightarrow> False) then RNone
      else RDict ([(''result'', PStr action), (''reason'', opt_str reason)] @
             (case labels of Some (l # ls) \<Rightarrow> [(''set_labels'', PDict (l # ls))] | _ \<Rightarrow> [])))"

definition event_sig :: "param list option" where
  "event_sig = Some [\<lparr>pa_name = ''event'', pa_kind = POSITIONAL_OR_KEYWORD, pa_has_default = False\<rparr>]"

text \<open>A stateless one-argument evaluator on the event's fields, as a callable object.\<close>

definition event_callable :: "(pydict \<Rightarrow> raw_return res) \<Rightarrow> 's \<Rightarrow> 's callable_obj" where
  "event_callable f s0 =
     \<lparr>ca_sig = event_sig,
      ca_fun = (\<lambda>args s.
        (case args of
           CEvent ev \<Rightarrow> (f (ev_fields ev), s)
         | _ \<Rightarrow> (Inl (TypeError ''takes 1 positional argument''), s))),
      ca_state = s0, ca_reset = None\<rparr>"

definition make_fixed_action_callable ::
    "string \<Rightarrow> string option \<Rightarrow> pydict option \<Rightarrow> string list option \<Rightarrow> string list option \<Rightarrow> 's \<Rightarrow> 's callable_obj" where
  "make_fixed_action_callable action reason labels on_phases on_tools s0 =
     event_callable (\<lambda>ev. Inr (fixed_action action reason labels on_phases on_tools ev)) s0"

section \<open>Lemmas\<close>

lemma callable_arity_event_sig [simp]: "callable_arity event_sig = 1"
  by (simp add: callable_arity_def event_sig_def is_positional_def)

text \<open>An event callable behaves as its function on the event of the context.\<close>

lemma dispatch_event_callable:
  "dispatch_policy (function_policy spec (event_callable f s0)) ctx b =
   (case bind_res (f (ev_fields (build_event ctx))) (coerce_to_policy_result (ps_name spec)) of
      Inr r \<Rightarrow> (r, function_policy spec (event_callable f s0))
    | Inl e \<Rightarrow>
        ((policy_result_of DENY)\<lparr>pr_reason :=
            PStr (''policy '' @ repr_str (ps_name spec) @ '' failed: '' @ exn_text e)\<rparr>,
         function_policy spec (event_callable f s0)))"
  by (auto simp: dispatch_policy_def function_policy_def function_evaluate_def call_policy_def
      event_callable_def split: sum.splits)

lemma build_event_get [simp]:
  "pget (ev_fields (build_event ctx)) ''type'' = PStr (phase_value (ec_phase ctx))"
  "pget (ev_fields (build_event ctx)) ''target'' = opt_str (ec_tool_name ctx)"
  "pget (ev_fields (build_event ctx)) ''data'' = ec_content ctx"
  "pget (ev_fields (build_event ctx)) ''session_state'' = opt_dict (ec_session_state ctx)"
  by (simp_all add: build_event_def pget_def)

text \<open>The verdict of a fixed action that applies is the declared one, in either letter case.\<close>

lemma coerce_verdict:
  assumes "policy_action_of (str_lower a) = Some act"
  shows "coerce_to_policy_result n (RDict [(''result'', PStr a), (''reason'', v)]) =
    Inr ((policy_result_of act)\<lparr>pr_reason := v\<rparr>)"
  using assms
  by (simp add: coerce_to_policy_result_def policy_result_from_dict_def coerce_state_updates_def
      pget_def dict_or_none_def policy_result_of_def)

end
