(* ===== verification/CostBudget.thy ===== *)
theory CostBudget
  imports FunctionPolicy
begin

text \<open>
  The three spending gates of \<^verbatim>\<open>policies/builtins/cost.py\<close>: the session budget, the per-user
  daily budget and the sub-agent budget. Each factory validates its arguments and returns an
  evaluator on the event dictionary. The evaluators are written out one by one, as in the
  source; the locale \<open>budget_gate\<close> states the decision they share and is interpreted on each of
  them. An event satisfies the \<^verbatim>\<open>PolicyEvent\<close> contract: \<^verbatim>\<open>context\<close>, its sub-dictionaries and
  \<^verbatim>\<open>session_state\<close> are dictionaries when present.
\<close>

section \<open>Reading the event\<close>

definition ALLOW_RESPONSE :: pydict where
  "ALLOW_RESPONSE = [(''result'', PStr ''ALLOW'')]"

definition UNPRICED_REASON :: string where
  "UNPRICED_REASON =
     ''The active model has no catalog pricing so cumulative spend cannot be '' @
     ''tracked. Continuing will allow untracked spend that counts against '' @
     ''neither the cap nor the warning thresholds. Switch to a priced model '' @
     ''to restore budget enforcement, or approve to continue without it.''"

definition set_update :: "string \<Rightarrow> pyval \<Rightarrow> pyval" where
  "set_update k v = PList [PDict [(''key'', PStr k), (''action'', PStr ''set''), (''value'', v)]]"

definition UNPRICED_ASK :: pydict where
  "UNPRICED_ASK =
     [(''result'', PStr ''ASK''), (''reason'', PStr UNPRICED_REASON),
      (''state_updates'', set_update SESSION_COST_UNPRICED_APPROVED_KEY (PBool True))]"

text \<open>\<^verbatim>\<open>d.get(k) or {}\<close> for a dictionary-valued entry.\<close>

definition or_dict :: "pyval \<Rightarrow> pydict" where
  "or_dict v = (case v of PDict d \<Rightarrow> d | _ \<Rightarrow> [])"

definition event_context :: "pydict \<Rightarrow> pydict" where
  "event_context ev = or_dict (pget ev ''context'')"

definition usage_is_unpriced :: "pydict \<Rightarrow> bool" where
  "usage_is_unpriced usage =
     (if dhas usage ''total_cost_usd'' then False
      else truthy (pget usage ''input_tokens'') \<or> truthy (pget usage ''output_tokens'') \<or>
           truthy (pget usage ''total_tokens''))"

definition GATED_PHASES :: "string list" where
  "GATED_PHASES = [''request'', ''tool_call'']"

definition is_gated :: "pydict \<Rightarrow> bool" where
  "is_gated ev \<longleftrightarrow> pget ev ''type'' \<in> PStr ` set GATED_PHASES"

definition float_or_zero :: "pyval \<Rightarrow> rat" where
  "float_or_zero v = (case py_float v of Inr x \<Rightarrow> x | Inl e \<Rightarrow> 0)"

definition session_cost_usd :: "pydict \<Rightarrow> rat" where
  "session_cost_usd ev =
     float_or_zero (pget_default (or_dict (pget (event_context ev) ''usage'')) ''total_cost_usd'' (PFloat 0))"

definition nonempty_str :: "pyval \<Rightarrow> string option" where
  "nonempty_str v = (case v of PStr s \<Rightarrow> if s \<noteq> [] then Some s else None | _ \<Rightarrow> None)"

definition current_model :: "pydict \<Rightarrow> string option" where
  "current_model ev = nonempty_str (pget (event_context ev) ''model'')"

definition current_harness :: "pydict \<Rightarrow> string option" where
  "current_harness ev = nonempty_str (pget (event_context ev) ''harness'')"

definition user_daily_cost_usd :: "pydict \<Rightarrow> rat" where
  "user_daily_cost_usd ev =
     float_or_zero (pget_default (or_dict (pget (event_context ev) ''user_daily_cost'')) ''cost_usd'' (PFloat 0))"

definition user_daily_ask_approved_usd :: "pydict \<Rightarrow> rat" where
  "user_daily_ask_approved_usd ev =
     float_or_zero
       (pget_default (or_dict (pget (event_context ev) ''user_daily_cost'')) ''ask_approved_usd'' (PFloat 0))"

definition user_daily_owner :: "pydict \<Rightarrow> string option" where
  "user_daily_owner ev = nonempty_str (pget (or_dict (pget (event_context ev) ''user_daily_cost'')) ''user_id'')"

definition subtree_cost_usd :: "pydict \<Rightarrow> rat" where
  "subtree_cost_usd ev =
     float_or_zero
       (pget_default (or_dict (pget (event_context ev) ''subtree_usage'')) ''total_cost_usd'' (PFloat 0))"

section \<open>Messages\<close>

definition apos :: string where
  "apos = [CHR 39]"

definition dquote :: string where
  "dquote = [CHR 34]"

definition emdash :: string where
  "emdash = [CHR 0xE2, CHR 0x80, CHR 0x94]"

definition usd :: "rat \<Rightarrow> string" where
  "usd x = ''$'' @ fmt_2f x"

definition over_budget_deny_reason ::
    "rat \<Rightarrow> rat \<Rightarrow> string list \<Rightarrow> string option \<Rightarrow> string \<Rightarrow> string \<Rightarrow> string \<Rightarrow> string option \<Rightarrow> bool \<Rightarrow> string" where
  "over_budget_deny_reason cost max_cost tokens harness ph policy_label budget_label subject_user block_all =
     (let spend_subject = (case subject_user of
                             Some (c # u) \<Rightarrow> (c # u) @ apos @ ''s spend''
                           | _ \<Rightarrow> ''spend'');
          head = ''Blocked by the '' @ policy_label @ '' policy: '' @ spend_subject @ '' '' @ usd cost @
                 '' reached the '' @ usd max_cost @ '' limit''
      in if block_all then
           (let verbatim = ''You'' @ apos @ ''ve hit the '' @ usd max_cost @ '' '' @ budget_label @ ''. '' @
                  ''All model calls are blocked over budget.''
            in if ph = ''request'' then head @ ''. '' @ verbatim
               else head @ '', and all further tool calls are blocked. Relay this to '' @
                 ''the user verbatim, then stop and wait for them '' @ emdash @
                 '' do not silently re-run the tool right now: '' @ dquote @ verbatim @ dquote)
         else
           (let expensive_list = (let l = str_join '', '' tokens
                                  in if l = [] then ''the configured high-cost models'' else l);
                switch_hint = (if (case harness of Some h \<Rightarrow> py_in ''codex'' h | None \<Rightarrow> False)
                               then ''in the terminal, run /model and pick a cheaper model to continue''
                               else ''switch to a cheaper model to continue'');
                verbatim = ''You'' @ apos @ ''ve hit the '' @ usd max_cost @ '' '' @ budget_label @
                  ''. High-cost models ('' @ expensive_list @ '') are blocked over budget '' @ emdash @ '' '' @
                  switch_hint @ ''.''
            in if ph = ''request'' then head @ ''. '' @ verbatim
               else head @ '', and tool calls are blocked while on a high-cost '' @
                 ''model. Relay this to the user verbatim, then stop and wait for them '' @ emdash @
                 '' do not silently re-run the tool right now: '' @ dquote @ verbatim @ dquote @
                 '' This block is NOT permanent: '' @
                 ''once the user switches to a cheaper model and asks you to continue, actually '' @
                 ''re-issue the tool call (it will be allowed) '' @ emdash @ '' do not just repeat this message.''))"

section \<open>Expensive models\<close>

definition model_blocked_over_budget :: "string option \<Rightarrow> string list \<Rightarrow> string list \<Rightarrow> bool \<Rightarrow> bool" where
  "model_blocked_over_budget model expensive_tokens exclude_tokens block_all =
     (if block_all then True
      else (case model of
              None \<Rightarrow> True
            | Some m \<Rightarrow>
                (let low = str_lower m
                 in if \<exists>t \<in> set exclude_tokens. py_in t low then False
                    else \<exists>t \<in> set expensive_tokens. py_in t low)))"

record expensive_model_config =
  xm_expensive_tokens :: "string list"
  xm_exclude_tokens :: "string list"
  xm_hard_cap_enabled :: bool
  xm_block_all_models :: bool

definition resolve_expensive_models :: "pyval list option \<Rightarrow> expensive_model_config res" where
  "resolve_expensive_models expensive_models =
     (case expensive_models of
        Some (m # ms) \<Rightarrow>
          bind_res (mapM_res (\<lambda>m. case nonempty_str m of
              Some s \<Rightarrow> Inr (str_lower s)
            | None \<Rightarrow> Inl (ValueError (''each expensive_models value must be a non-empty string, got '' @ py_repr m)))
              (m # ms))
            (\<lambda>tokens. Inr \<lparr>xm_expensive_tokens = tokens, xm_exclude_tokens = [], xm_hard_cap_enabled = True,
                           xm_block_all_models = False\<rparr>)
      | _ \<Rightarrow> Inr \<lparr>xm_expensive_tokens = [], xm_exclude_tokens = [], xm_hard_cap_enabled = True,
                  xm_block_all_models = True\<rparr>)"

section \<open>Soft checkpoints\<close>

text \<open>\<^verbatim>\<open>sorted({float(t) for t in (ask_thresholds_usd or [])})\<close>.\<close>

definition sorted_thresholds :: "pyval list option \<Rightarrow> rat list res" where
  "sorted_thresholds ts =
     (case ts of
        None \<Rightarrow> Inr []
      | Some vs \<Rightarrow> bind_res (mapM_res py_float vs) (\<lambda>xs. Inr (sort (remdups xs))))"

definition threshold_error :: "rat \<Rightarrow> rat \<Rightarrow> py_exn" where
  "threshold_error max_cost t =
     ValueError (''each ask_thresholds_usd value must be in (0, max_cost_usd='' @ repr_float max_cost @
       ''), got '' @ repr_float t)"

definition check_thresholds :: "rat option \<Rightarrow> rat list \<Rightarrow> unit res" where
  "check_thresholds max_cost ts =
     (case max_cost of
        None \<Rightarrow> Inr ()
      | Some m \<Rightarrow>
          (case find (\<lambda>t. \<not> (0 < t \<and> t < m)) ts of
             Some t \<Rightarrow> Inl (threshold_error m t)
           | None \<Rightarrow> Inr ()))"

text \<open>\<^verbatim>\<open>max((t for t in thresholds if cost >= t), default=None)\<close>.\<close>

definition crossed_checkpoint :: "rat list \<Rightarrow> rat \<Rightarrow> rat option" where
  "crossed_checkpoint thresholds cost =
     (case filter (\<lambda>t. t \<le> cost) thresholds of [] \<Rightarrow> None | t # ts \<Rightarrow> Some (foldl max t ts))"

text \<open>\<^verbatim>\<open>float(state.get(key, 0.0) or 0.0)\<close>, which raises on a malformed entry.\<close>

definition approved_in_state :: "pydict \<Rightarrow> string \<Rightarrow> rat res" where
  "approved_in_state ev key =
     (let v = pget_default (or_dict (pget ev ''session_state'')) key (PFloat 0)
      in if truthy v then py_float v else Inr 0)"

definition unpriced_approved :: "pydict \<Rightarrow> bool" where
  "unpriced_approved ev = truthy (pget (or_dict (pget ev ''session_state'')) SESSION_COST_UNPRICED_APPROVED_KEY)"

definition positive_error :: "rat \<Rightarrow> py_exn" where
  "positive_error m = ValueError (''max_cost_usd must be > 0, got '' @ repr_float m)"

definition event_type :: "pydict \<Rightarrow> string" where
  "event_type ev = py_str (pget ev ''type'')"

definition deny_response :: "string \<Rightarrow> pydict" where
  "deny_response reason = [(''result'', PStr ''DENY''), (''reason'', PStr reason)]"

definition ask_response :: "string \<Rightarrow> string \<Rightarrow> rat \<Rightarrow> pydict" where
  "ask_response reason key crossed =
     [(''result'', PStr ''ASK''), (''reason'', PStr reason), (''state_updates'', set_update key (PFloat crossed))]"

section \<open>The session budget\<close>

definition cost_budget_evaluate ::
    "rat option \<Rightarrow> rat list \<Rightarrow> expensive_model_config \<Rightarrow> pydict \<Rightarrow> pydict res" where
  "cost_budget_evaluate max_cost thresholds cfg ev =
     (if \<not> is_gated ev then Inr ALLOW_RESPONSE
      else if usage_is_unpriced (or_dict (pget (event_context ev) ''usage'')) then
        (if \<not> unpriced_approved ev then Inr UNPRICED_ASK else Inr ALLOW_RESPONSE)
      else
        (let cost = session_cost_usd ev
         in if (case max_cost of Some m \<Rightarrow> xm_hard_cap_enabled cfg \<and> m \<le> cost | None \<Rightarrow> False) then
              (if model_blocked_over_budget (current_model ev) (xm_expensive_tokens cfg)
                    (xm_exclude_tokens cfg) (xm_block_all_models cfg)
               then Inr (deny_response (over_budget_deny_reason cost (the max_cost) (xm_expensive_tokens cfg)
                      (current_harness ev) (event_type ev) ''session cost-budget'' ''cost budget'' None
                      (xm_block_all_models cfg)))
               else Inr ALLOW_RESPONSE)
            else
              (case crossed_checkpoint thresholds cost of
                 None \<Rightarrow> Inr ALLOW_RESPONSE
               | Some crossed \<Rightarrow>
                   bind_res (approved_in_state ev SESSION_COST_ASK_APPROVED_STATE_KEY) (\<lambda>approved_up_to.
                     if approved_up_to < crossed then
                       Inr (ask_response
                         (''Session cost '' @ usd cost @ '' passed the '' @ usd crossed @ '' warning threshold'' @
                          (case max_cost of Some m \<Rightarrow> '' (limit '' @ usd m @ '')'' | None \<Rightarrow> []) @ ''. Continue?'')
                         SESSION_COST_ASK_APPROVED_STATE_KEY crossed)
                     else Inr ALLOW_RESPONSE))))"

definition cost_budget ::
    "rat option \<Rightarrow> pyval list option \<Rightarrow> pyval list option \<Rightarrow> (pydict \<Rightarrow> pydict res) res" where
  "cost_budget max_cost ask_thresholds expensive_models =
     (if max_cost = None \<and> (ask_thresholds = None \<or> ask_thresholds = Some []) then
        Inl (ValueError ''cost_budget requires max_cost_usd and/or ask_thresholds_usd'')
      else if (case max_cost of Some m \<Rightarrow> m \<le> 0 | None \<Rightarrow> False) then Inl (positive_error (the max_cost))
      else
        bind_res (sorted_thresholds ask_thresholds) (\<lambda>thresholds.
        bind_res (check_thresholds max_cost thresholds) (\<lambda>_.
        bind_res (resolve_expensive_models expensive_models) (\<lambda>cfg.
          Inr (cost_budget_evaluate max_cost thresholds cfg)))))"

section \<open>The per-user daily budget\<close>

definition user_daily_cost_budget_evaluate ::
    "rat \<Rightarrow> rat list \<Rightarrow> expensive_model_config \<Rightarrow> pydict \<Rightarrow> pydict res" where
  "user_daily_cost_budget_evaluate max_cost thresholds cfg ev =
     (if \<not> is_gated ev then Inr ALLOW_RESPONSE
      else if usage_is_unpriced (or_dict (pget (event_context ev) ''usage'')) then
        (if \<not> unpriced_approved ev then Inr UNPRICED_ASK else Inr ALLOW_RESPONSE)
      else
        (let cost = user_daily_cost_usd ev; owner = user_daily_owner ev
         in if xm_hard_cap_enabled cfg \<and> max_cost \<le> cost then
              (if model_blocked_over_budget (current_model ev) (xm_expensive_tokens cfg)
                    (xm_exclude_tokens cfg) (xm_block_all_models cfg)
               then Inr (deny_response (over_budget_deny_reason cost max_cost (xm_expensive_tokens cfg)
                      (current_harness ev) (event_type ev) ''per-user daily cost-budget'' ''daily cost budget''
                      owner (xm_block_all_models cfg)))
               else Inr ALLOW_RESPONSE)
            else
              (case crossed_checkpoint thresholds cost of
                 None \<Rightarrow> Inr ALLOW_RESPONSE
               | Some crossed \<Rightarrow>
                   (if user_daily_ask_approved_usd ev < crossed then
                      Inr (ask_response
                        ((case owner of Some u \<Rightarrow> u @ apos @ ''s spend today'' | None \<Rightarrow> ''Today'' @ apos @ ''s spend'') @
                         '' '' @ usd cost @ '' passed the '' @ usd crossed @
                         '' daily warning threshold (daily limit '' @ usd max_cost @ ''). Continue?'')
                        USER_DAILY_ASK_APPROVED_STATE_KEY crossed)
                    else Inr ALLOW_RESPONSE))))"

definition user_daily_cost_budget ::
    "rat \<Rightarrow> pyval list option \<Rightarrow> pyval list option \<Rightarrow> (pydict \<Rightarrow> pydict res) res" where
  "user_daily_cost_budget max_cost ask_thresholds expensive_models =
     (if max_cost \<le> 0 then Inl (positive_error max_cost)
      else
        bind_res (sorted_thresholds ask_thresholds) (\<lambda>thresholds.
        bind_res (check_thresholds (Some max_cost) thresholds) (\<lambda>_.
        bind_res (resolve_expensive_models expensive_models) (\<lambda>cfg.
          Inr (user_daily_cost_budget_evaluate max_cost thresholds cfg)))))"

section \<open>The sub-agent budget\<close>

definition SUBAGENT_ASK_APPROVED_KEY :: string where
  "SUBAGENT_ASK_APPROVED_KEY = ''subagent_cost_ask_approved_usd''"

definition subagent_cost_budget_evaluate ::
    "rat option \<Rightarrow> rat list \<Rightarrow> expensive_model_config \<Rightarrow> pydict \<Rightarrow> pydict res" where
  "subagent_cost_budget_evaluate max_cost thresholds cfg ev =
     (if \<not> is_gated ev then Inr ALLOW_RESPONSE
      else if usage_is_unpriced (or_dict (pget (event_context ev) ''subtree_usage'')) then
        (if \<not> unpriced_approved ev then Inr UNPRICED_ASK else Inr ALLOW_RESPONSE)
      else
        (let cost = subtree_cost_usd ev
         in if (case max_cost of Some m \<Rightarrow> xm_hard_cap_enabled cfg \<and> m \<le> cost | None \<Rightarrow> False) then
              (if model_blocked_over_budget (current_model ev) (xm_expensive_tokens cfg)
                    (xm_exclude_tokens cfg) (xm_block_all_models cfg)
               then Inr (deny_response (over_budget_deny_reason cost (the max_cost) (xm_expensive_tokens cfg)
                      (current_harness ev) (event_type ev) ''subagent cost-budget'' ''subagent cost budget'' None
                      (xm_block_all_models cfg)))
               else Inr ALLOW_RESPONSE)
            else
              (case crossed_checkpoint thresholds cost of
                 None \<Rightarrow> Inr ALLOW_RESPONSE
               | Some crossed \<Rightarrow>
                   bind_res (approved_in_state ev SUBAGENT_ASK_APPROVED_KEY) (\<lambda>approved_up_to.
                     if approved_up_to < crossed then
                       Inr (ask_response
                         (''Subagent subtree cost '' @ usd cost @ '' passed the '' @ usd crossed @
                          '' warning threshold'' @
                          (case max_cost of
                             Some m \<Rightarrow> if m \<noteq> 0 then '' (limit '' @ usd m @ '')'' else []
                           | None \<Rightarrow> []) @ ''. Continue?'')
                         SUBAGENT_ASK_APPROVED_KEY crossed)
                     else Inr ALLOW_RESPONSE))))"

definition subagent_cost_budget ::
    "rat option \<Rightarrow> pyval list option \<Rightarrow> pyval list option \<Rightarrow> (pydict \<Rightarrow> pydict res) res" where
  "subagent_cost_budget max_cost ask_thresholds expensive_models =
     (if max_cost = None \<and> (ask_thresholds = None \<or> ask_thresholds = Some []) then
        Inl (ValueError ''subagent_cost_budget requires max_cost_usd and/or ask_thresholds_usd'')
      else if (case max_cost of Some m \<Rightarrow> m \<le> 0 | None \<Rightarrow> False) then Inl (positive_error (the max_cost))
      else
        bind_res (sorted_thresholds ask_thresholds) (\<lambda>thresholds.
        bind_res (check_thresholds max_cost thresholds) (\<lambda>_.
        bind_res (resolve_expensive_models expensive_models) (\<lambda>cfg.
          Inr (subagent_cost_budget_evaluate max_cost thresholds cfg)))))"

section \<open>The shared decision\<close>

text \<open>
  The contract of a spending gate: abstain outside the gated phases, ask once for an unpriced
  model, deny past the hard limit on a blocked model, otherwise ask when the highest crossed
  checkpoint lies above the approved one.
\<close>

locale budget_gate =
  fixes gate :: "pydict \<Rightarrow> pydict res"
    and unpriced over blocked :: "pydict \<Rightarrow> bool"
    and crossed :: "pydict \<Rightarrow> rat option"
    and approved :: "pydict \<Rightarrow> rat res"
    and deny_text :: "pydict \<Rightarrow> string"
    and ask_text :: "pydict \<Rightarrow> rat \<Rightarrow> string"
    and key :: string
  assumes gate_eq:
    "gate ev =
       (if \<not> is_gated ev then Inr ALLOW_RESPONSE
        else if unpriced ev then (if \<not> unpriced_approved ev then Inr UNPRICED_ASK else Inr ALLOW_RESPONSE)
        else if over ev then
          (if blocked ev then Inr (deny_response (deny_text ev)) else Inr ALLOW_RESPONSE)
        else (case crossed ev of
                None \<Rightarrow> Inr ALLOW_RESPONSE
              | Some c \<Rightarrow> bind_res (approved ev) (\<lambda>a.
                  if a < c then Inr (ask_response (ask_text ev c) key c) else Inr ALLOW_RESPONSE)))"
begin

lemma abstains: "\<not> is_gated ev \<Longrightarrow> gate ev = Inr ALLOW_RESPONSE"
  by (simp add: gate_eq)

lemma denies_iff:
  "(\<exists>why. gate ev = Inr (deny_response why)) \<longleftrightarrow> is_gated ev \<and> \<not> unpriced ev \<and> over ev \<and> blocked ev"
proof -
  have "bind_res (approved ev) (\<lambda>a. if a < c then Inr (ask_response (ask_text ev c) key c)
      else Inr ALLOW_RESPONSE) \<noteq> Inr (deny_response why)" for c why
    by (auto simp: ask_response_def deny_response_def ALLOW_RESPONSE_def split: if_splits)
  then show ?thesis
    by (auto simp: gate_eq deny_response_def ALLOW_RESPONSE_def UNPRICED_ASK_def split: option.splits)
qed

lemma asks_checkpoint:
  assumes "is_gated ev" and "\<not> unpriced ev" and "\<not> over ev" and "approved ev = Inr a"
  shows "gate ev = Inr (case crossed ev of
      Some c \<Rightarrow> if a < c then ask_response (ask_text ev c) key c else ALLOW_RESPONSE
    | None \<Rightarrow> ALLOW_RESPONSE)"
  using assms by (simp add: gate_eq split: option.splits)

text \<open>The gate raises only on a malformed approval entry, which the engine turns into a DENY.\<close>

lemma raises: "gate ev = Inl e \<Longrightarrow> approved ev = Inl e \<and> is_gated ev \<and> crossed ev \<noteq> None"
proof -
  assume "gate ev = Inl e"
  moreover have "bind_res (approved ev) (\<lambda>a. if a < c then Inr (ask_response (ask_text ev c) key c)
      else Inr ALLOW_RESPONSE) = Inl e \<Longrightarrow> approved ev = Inl e" for c
    by (cases "approved ev") (auto split: if_splits)
  ultimately show ?thesis by (auto simp: gate_eq split: if_splits option.splits)
qed

end

definition limit_reached :: "rat option \<Rightarrow> expensive_model_config \<Rightarrow> rat \<Rightarrow> bool" where
  "limit_reached max_cost cfg cost = (case max_cost of Some m \<Rightarrow> xm_hard_cap_enabled cfg \<and> m \<le> cost | None \<Rightarrow> False)"

definition model_blocked :: "expensive_model_config \<Rightarrow> pydict \<Rightarrow> bool" where
  "model_blocked cfg ev =
     model_blocked_over_budget (current_model ev) (xm_expensive_tokens cfg) (xm_exclude_tokens cfg)
       (xm_block_all_models cfg)"

interpretation session_gate: budget_gate
  "cost_budget_evaluate max_cost thresholds cfg"
  "\<lambda>ev. usage_is_unpriced (or_dict (pget (event_context ev) ''usage''))"
  "\<lambda>ev. limit_reached max_cost cfg (session_cost_usd ev)"
  "model_blocked cfg"
  "\<lambda>ev. crossed_checkpoint thresholds (session_cost_usd ev)"
  "\<lambda>ev. approved_in_state ev SESSION_COST_ASK_APPROVED_STATE_KEY"
  "\<lambda>ev. over_budget_deny_reason (session_cost_usd ev) (the max_cost) (xm_expensive_tokens cfg)
     (current_harness ev) (event_type ev) ''session cost-budget'' ''cost budget'' None (xm_block_all_models cfg)"
  "\<lambda>ev c. ''Session cost '' @ usd (session_cost_usd ev) @ '' passed the '' @
     usd c @ '' warning threshold'' @
     (case max_cost of Some m \<Rightarrow> '' (limit '' @ usd m @ '')'' | None \<Rightarrow> []) @ ''. Continue?''"
  SESSION_COST_ASK_APPROVED_STATE_KEY
  for max_cost thresholds cfg
  by unfold_locales
    (simp add: cost_budget_evaluate_def limit_reached_def model_blocked_def Let_def split: option.splits)

interpretation daily_gate: budget_gate
  "user_daily_cost_budget_evaluate max_cost thresholds cfg"
  "\<lambda>ev. usage_is_unpriced (or_dict (pget (event_context ev) ''usage''))"
  "\<lambda>ev. limit_reached (Some max_cost) cfg (user_daily_cost_usd ev)"
  "model_blocked cfg"
  "\<lambda>ev. crossed_checkpoint thresholds (user_daily_cost_usd ev)"
  "\<lambda>ev. Inr (user_daily_ask_approved_usd ev)"
  "\<lambda>ev. over_budget_deny_reason (user_daily_cost_usd ev) max_cost (xm_expensive_tokens cfg)
     (current_harness ev) (event_type ev) ''per-user daily cost-budget'' ''daily cost budget''
     (user_daily_owner ev) (xm_block_all_models cfg)"
  "\<lambda>ev c. (case user_daily_owner ev of Some u \<Rightarrow> u @ apos @ ''s spend today'' | None \<Rightarrow> ''Today'' @ apos @ ''s spend'') @
     '' '' @ usd (user_daily_cost_usd ev) @ '' passed the '' @
     usd c @
     '' daily warning threshold (daily limit '' @ usd max_cost @ ''). Continue?''"
  USER_DAILY_ASK_APPROVED_STATE_KEY
  for max_cost thresholds cfg
  by unfold_locales
    (simp add: user_daily_cost_budget_evaluate_def limit_reached_def model_blocked_def Let_def split: option.splits)

interpretation subagent_gate: budget_gate
  "subagent_cost_budget_evaluate max_cost thresholds cfg"
  "\<lambda>ev. usage_is_unpriced (or_dict (pget (event_context ev) ''subtree_usage''))"
  "\<lambda>ev. limit_reached max_cost cfg (subtree_cost_usd ev)"
  "model_blocked cfg"
  "\<lambda>ev. crossed_checkpoint thresholds (subtree_cost_usd ev)"
  "\<lambda>ev. approved_in_state ev SUBAGENT_ASK_APPROVED_KEY"
  "\<lambda>ev. over_budget_deny_reason (subtree_cost_usd ev) (the max_cost) (xm_expensive_tokens cfg)
     (current_harness ev) (event_type ev) ''subagent cost-budget'' ''subagent cost budget'' None
     (xm_block_all_models cfg)"
  "\<lambda>ev c. ''Subagent subtree cost '' @ usd (subtree_cost_usd ev) @ '' passed the '' @
     usd c @ '' warning threshold'' @
     (case max_cost of Some m \<Rightarrow> if m \<noteq> 0 then '' (limit '' @ usd m @ '')'' else [] | None \<Rightarrow> []) @ ''. Continue?''"
  SUBAGENT_ASK_APPROVED_KEY
  for max_cost thresholds cfg
  by unfold_locales
    (simp add: subagent_cost_budget_evaluate_def limit_reached_def model_blocked_def Let_def split: option.splits)

section \<open>Checkpoints and factories\<close>

lemma foldl_max_Max: "foldl max t ts = Max (set (t # ts))" for t :: rat
proof (induction ts arbitrary: t)
  case (Cons x ts)
  then show ?case by (cases "ts = []") (simp_all add: max.assoc)
qed simp

lemma crossed_checkpoint_Some:
  "crossed_checkpoint ts cost = Some c \<longleftrightarrow> c \<in> set ts \<and> c \<le> cost \<and> (\<forall>t \<in> set ts. t \<le> cost \<longrightarrow> t \<le> c)"
proof (cases "filter (\<lambda>t. t \<le> cost) ts")
  case Nil
  then show ?thesis by (auto simp: crossed_checkpoint_def filter_empty_conv)
next
  case (Cons x xs)
  then have s: "set (x # xs) = {t \<in> set ts. t \<le> cost}" by (metis set_filter)
  have "crossed_checkpoint ts cost = Some (Max (set (x # xs)))"
    using Cons by (simp add: crossed_checkpoint_def foldl_max_Max)
  moreover have "Max (set (x # xs)) = c \<longleftrightarrow> c \<in> set (x # xs) \<and> (\<forall>t \<in> set (x # xs). t \<le> c)"
    by (rule Max_eq_iff) simp_all
  ultimately show ?thesis using s by auto
qed

lemma crossed_checkpoint_None: "crossed_checkpoint ts cost = None \<longleftrightarrow> (\<forall>t \<in> set ts. cost < t)"
  using crossed_checkpoint_Some [of ts cost]
  by (cases "filter (\<lambda>t. t \<le> cost) ts") (auto simp: crossed_checkpoint_def filter_empty_conv not_le filter_eq_Cons_iff)

lemma find_NoneD: "find P xs = None \<Longrightarrow> x \<in> set xs \<Longrightarrow> \<not> P x"
  by (simp add: find_None_iff)

lemma cost_budget_Inr:
  assumes "cost_budget max_cost ts xs = Inr f"
  obtains thresholds cfg where "f = cost_budget_evaluate max_cost thresholds cfg"
    and "sorted_thresholds ts = Inr thresholds" and "resolve_expensive_models xs = Inr cfg"
    and "\<forall>m. max_cost = Some m \<longrightarrow> 0 < m \<and> (\<forall>t \<in> set thresholds. 0 < t \<and> t < m)"
  using assms
  by (auto simp: cost_budget_def check_thresholds_def split: if_splits option.splits dest: find_NoneD)

lemma resolve_expensive_hard_cap:
  "resolve_expensive_models xs = Inr cfg \<Longrightarrow> xm_hard_cap_enabled cfg \<and> xm_exclude_tokens cfg = []"
  by (auto simp: resolve_expensive_models_def split: option.splits list.splits)

lemma resolve_expensive_block_all:
  assumes "resolve_expensive_models xs = Inr cfg"
  shows "xm_block_all_models cfg \<longleftrightarrow> xs = None \<or> xs = Some []"
  using assms by (auto simp: resolve_expensive_models_def split: option.splits list.splits)

section \<open>A budget as a policy of the engine\<close>

definition budget_policy :: "policy_spec \<Rightarrow> (pydict \<Rightarrow> pydict res) \<Rightarrow> 's \<Rightarrow> 's policy" where
  "budget_policy spec gate s0 =
     function_policy spec (event_callable (\<lambda>ev. bind_res (gate ev) (\<lambda>d. Inr (RDict d))) s0)"

lemma budget_policy_spec [simp]: "pol_spec (budget_policy spec gate s0) = spec"
  by (simp add: budget_policy_def function_policy_def)

lemma dispatch_budget:
  "gate (ev_fields (build_event ctx)) = Inr d \<Longrightarrow> policy_result_from_dict (ps_name spec) d = Inr r \<Longrightarrow>
   dispatch_policy (budget_policy spec gate s0) ctx b = (r, budget_policy spec gate s0)"
  by (simp add: budget_policy_def dispatch_event_callable coerce_to_policy_result_def)

lemma str_lower_results [simp]:
  "str_lower ''ALLOW'' = ''allow''" "str_lower ''ASK'' = ''ask''" "str_lower ''DENY'' = ''deny''"
  "str_lower ''set'' = ''set''"
  by (code_simp, code_simp, code_simp, code_simp)

lemma response_results:
  "policy_result_from_dict n ALLOW_RESPONSE = Inr (policy_result_of ALLOW)"
  "policy_result_from_dict n (deny_response why) = Inr ((policy_result_of DENY)\<lparr>pr_reason := PStr why\<rparr>)"
  "policy_result_from_dict n (ask_response why k c) =
     Inr ((policy_result_of ASK)\<lparr>pr_reason := PStr why,
       pr_state_updates := Some [\<lparr>su_key = k, su_action = SET, su_value = PFloat c\<rparr>]\<rparr>)"
  "policy_result_from_dict n UNPRICED_ASK =
     Inr ((policy_result_of ASK)\<lparr>pr_reason := PStr UNPRICED_REASON,
       pr_state_updates := Some [\<lparr>su_key = SESSION_COST_UNPRICED_APPROVED_KEY, su_action = SET, su_value = PBool True\<rparr>]\<rparr>)"
  by (simp_all add: policy_result_from_dict_def ALLOW_RESPONSE_def deny_response_def ask_response_def
      UNPRICED_ASK_def pget_def policy_action_of_def coerce_state_updates_def dict_or_none_def
      policy_result_of_def set_update_def coerce_entry_def state_update_action_of_def or_none_def)

text \<open>What an ASK of a gate looks like, and what settles it.\<close>

context budget_gate
begin

lemma asks_form:
  assumes "gate ev = Inr d" and "policy_result_from_dict n d = Inr v" and "pr_action v = ASK"
  shows "is_gated ev \<and> pr_set_labels v = None \<and>
    (unpriced ev \<and> pr_state_updates v =
        Some [\<lparr>su_key = SESSION_COST_UNPRICED_APPROVED_KEY, su_action = SET, su_value = PBool True\<rparr>] \<or>
     \<not> unpriced ev \<and> \<not> over ev \<and> (\<exists>c. crossed ev = Some c \<and>
        pr_state_updates v = Some [\<lparr>su_key = key, su_action = SET, su_value = PFloat c\<rparr>]))"
  using assms
  by (auto simp: gate_eq response_results policy_result_of_def split: if_splits option.splits)

lemma settled:
  assumes "is_gated ev" and "is_gated ev' = is_gated ev" and "unpriced ev' = unpriced ev"
    and "over ev' = over ev" and "crossed ev' = crossed ev"
    and "unpriced ev \<Longrightarrow> unpriced_approved ev'"
    and "\<not> unpriced ev \<Longrightarrow> \<not> over ev \<and> (\<exists>c a. crossed ev = Some c \<and> approved ev' = Inr a \<and> c \<le> a)"
  shows "gate ev' = Inr ALLOW_RESPONSE"
  using assms by (auto simp: gate_eq)

end

lemma build_event_context:
  "event_context (ev_fields (build_event ctx)) =
     [(''actor'', opt_dict (ec_actor ctx)), (''usage'', opt_dict (ec_usage ctx)),
      (''user_daily_cost'', opt_dict (ec_user_daily_cost ctx)), (''model'', opt_str (ec_model ctx)),
      (''harness'', opt_str (ec_harness ctx)), (''labels'', opt_dict (ec_labels ctx)),
      (''subtree_usage'', opt_dict (ec_subtree_usage ctx))]"
  by (simp add: event_context_def build_event_def pget_def or_dict_def)

lemma is_gated_event [simp]:
  "is_gated (ev_fields (build_event ctx)) \<longleftrightarrow> ec_phase ctx = REQUEST \<or> ec_phase ctx = TOOL_CALL"
  by (cases "ec_phase ctx") (auto simp: is_gated_def GATED_PHASES_def)

end
