(* ===== verification/Approval.thy ===== *)
theory Approval
  imports EngineLaws
begin

text \<open>
  The approval round trip of an ASK (\<^verbatim>\<open>runtime/policies/approval.py\<close>). The three seams of the
  source are explicit: \<open>register\<close>, \<open>emit\<close> and \<open>park\<close> calls are recorded in a log, and what the
  parked wait brings back (a deadline, no row, or the body of the reply) is the parameter
  \<open>park\<close>. \<^verbatim>\<open>secrets.token_hex\<close>, \<^verbatim>\<open>json.loads\<close> (absent on a parse error) and \<^verbatim>\<open>json.dumps\<close> are parameters
  too; the environment variable that picks the elicitation mode is an argument.
\<close>

section \<open>Seams\<close>

datatype park_reply = Deadline | Reply "string option"

datatype seam_call =
    Registered string string string
  | Emitted pydict
  | Parked string int

definition MCP_ELICITATION_METHOD :: string where
  "MCP_ELICITATION_METHOD = ''elicitation/create''"

section \<open>Verdicts\<close>

definition verdict_action :: "(string \<Rightarrow> pyval option) \<Rightarrow> string option \<Rightarrow> pyval" where
  "verdict_action json_loads raw =
     (case raw of
        None \<Rightarrow> PNone
      | Some s \<Rightarrow> (case json_loads s of Some (PDict d) \<Rightarrow> pget d ''action'' | _ \<Rightarrow> PNone))"

definition is_explicit_decline :: "(string \<Rightarrow> pyval option) \<Rightarrow> string option \<Rightarrow> bool" where
  "is_explicit_decline json_loads raw =
     (case raw of
        None \<Rightarrow> False
      | Some s \<Rightarrow>
          (case json_loads s of
             None \<Rightarrow> False
           | Some parsed \<Rightarrow>
               (case parsed of PDict d \<Rightarrow> pget d ''action'' = PStr ''decline'' | _ \<Rightarrow> False)))"

definition parse_verdict :: "(string \<Rightarrow> pyval option) \<Rightarrow> string option \<Rightarrow> bool" where
  "parse_verdict json_loads raw =
     (case raw of
        None \<Rightarrow> False
      | Some s \<Rightarrow>
          (case json_loads s of
             None \<Rightarrow> False
           | Some parsed \<Rightarrow>
               (case parsed of PDict d \<Rightarrow> pget d ''action'' = PStr ''accept'' | _ \<Rightarrow> False)))"

definition truncate_text :: "string \<Rightarrow> nat \<Rightarrow> string" where
  "truncate_text text limit =
     (if length text \<le> limit then text else take limit text @ '' [truncated]'')"

definition resolve_ask_timeout :: "'s engine \<Rightarrow> policy_result \<Rightarrow> int" where
  "resolve_ask_timeout en result =
     (case spec_for en (deciding_policy result) of
        Some spec \<Rightarrow> (case ps_ask_timeout spec of Some t \<Rightarrow> t | None \<Rightarrow> en_ask_timeout en)
      | None \<Rightarrow> en_ask_timeout en)"

section \<open>Wire payloads\<close>

definition resolve_elicitation_mode :: "string option \<Rightarrow> string" where
  "resolve_elicitation_mode env =
     (let raw = str_strip (str_lower (case env of None \<Rightarrow> ''url'' | Some v \<Rightarrow> v))
      in if raw = ''url'' \<or> raw = ''form'' then raw else ''url'')"

definition base_params :: "string \<Rightarrow> elicitation_request \<Rightarrow> pydict" where
  "base_params mode el =
     [(''mode'', PStr mode), (''message'', el_message el),
      (''requestedSchema'', PDict (el_requested_schema el)), (''phase'', PStr (el_phase el)),
      (''policy_name'', PStr (el_policy_name el)), (''content_preview'', PStr (el_content_preview el))]"

definition build_elicitation_request_event ::
    "string \<Rightarrow> string \<Rightarrow> elicitation_request \<Rightarrow> string option \<Rightarrow> pydict" where
  "build_elicitation_request_event configured_mode elicitation_id el session_id =
     (let url = (case session_id of
                   Some sid \<Rightarrow> if configured_mode = ''url''
                               then Some (''/approve/'' @ sid @ ''/'' @ elicitation_id) else None
                 | None \<Rightarrow> None);
          mode = (case url of Some u \<Rightarrow> ''url'' | None \<Rightarrow> ''form'');
          params = base_params mode el @
            (if 1 < length (el_policy_names el)
             then [(''policy_names'', PList (map PStr (el_policy_names el)))] else []) @
            (case url of Some u \<Rightarrow> [(''url'', PStr u)] | None \<Rightarrow> [])
      in [(''type'', PStr ''response.elicitation_request''), (''elicitation_id'', PStr elicitation_id),
          (''method'', PStr MCP_ELICITATION_METHOD), (''params'', PDict params)])"

definition elicitation_params :: "elicitation_request \<Rightarrow> pydict" where
  "elicitation_params el = base_params ''form'' el"

definition build_elicitation_params_json :: "(pydict \<Rightarrow> string) \<Rightarrow> elicitation_request \<Rightarrow> string" where
  "build_elicitation_params_json json_dumps el = json_dumps (elicitation_params el)"

section \<open>The round trip\<close>

definition reason_or_empty :: "policy_result \<Rightarrow> pyval" where
  "reason_or_empty result = (if truthy (pr_reason result) then pr_reason result else PStr [])"

definition elicitation_of :: "policy_result \<Rightarrow> phase \<Rightarrow> string \<Rightarrow> elicitation_request" where
  "elicitation_of result ph content_preview =
     \<lparr>el_message = reason_or_empty result, el_phase = phase_value ph,
      el_policy_names = (case pr_deciding_policies result of Some (p # ps) \<Rightarrow> p # ps | _ \<Rightarrow> [[]]),
      el_content_preview = truncate_text content_preview 1024, el_requested_schema = []\<rparr>"

text \<open>The writes of an approved ASK: labels first, then state updates.\<close>

definition apply_approved :: "string \<Rightarrow> 's engine \<Rightarrow> policy_result \<Rightarrow> unit res \<times> 's engine" where
  "apply_approved today en result =
     (case (case pr_set_labels result of
              Some (l # ls) \<Rightarrow> apply_label_writes en (l # ls)
            | _ \<Rightarrow> (Inr (), en)) of
        (Inl e, en1) \<Rightarrow> (Inl e, en1)
      | (Inr x, en1) \<Rightarrow>
          (case pr_state_updates result of
             Some (u # us) \<Rightarrow> apply_state_updates today en1 (u # us)
           | _ \<Rightarrow> (Inr (), en1)))"

definition await_elicitation ::
    "(string \<Rightarrow> pyval option) \<Rightarrow> (pydict \<Rightarrow> string) \<Rightarrow> string \<Rightarrow> (string \<Rightarrow> int \<Rightarrow> park_reply) \<Rightarrow> string
     \<Rightarrow> string \<Rightarrow> policy_result \<Rightarrow> phase \<Rightarrow> string \<Rightarrow> 's engine \<Rightarrow> bool res \<times> 's engine \<times> seam_call list" where
  "await_elicitation json_loads json_dumps token park today task_id result ph content_preview en =
     (let eid = ''elicit_'' @ token;
          el = elicitation_of result ph content_preview;
          tmo = resolve_ask_timeout en result;
          log = [Registered eid task_id (build_elicitation_params_json json_dumps el),
                 Emitted (build_elicitation_request_event ''url'' eid el None), Parked eid tmo]
      in case park eid tmo of
           Deadline \<Rightarrow> (Inr False, en, log)
         | Reply raw \<Rightarrow>
             (if is_explicit_decline json_loads raw then
                (Inl (ElicitationDeclinedError (py_str (reason_or_empty result)) (deciding_policy result)), en, log)
              else if parse_verdict json_loads raw then
                (case apply_approved today en result of
                   (Inl e, en') \<Rightarrow> (Inl e, en', log)
                 | (Inr x, en') \<Rightarrow> (Inr True, en', log))
              else (Inr False, en, log)))"

section \<open>Lemmas\<close>

lemma parse_verdict_iff: "parse_verdict jl raw \<longleftrightarrow> verdict_action jl raw = PStr ''accept''"
  by (auto simp: parse_verdict_def verdict_action_def split: option.splits pyval.splits)

lemma is_explicit_decline_iff: "is_explicit_decline jl raw \<longleftrightarrow> verdict_action jl raw = PStr ''decline''"
  by (auto simp: is_explicit_decline_def verdict_action_def split: option.splits pyval.splits)

lemma truncate_text_bound: "length (truncate_text t n) \<le> n + 12"
  by (simp add: truncate_text_def)

text \<open>The accepted writes are those the composed result carries.\<close>

lemma apply_label_writes_Nil [simp]: "apply_label_writes en [] = (Inr (), en)"
  by (simp add: apply_label_writes_def)

lemma apply_state_updates_Nil [simp]: "apply_state_updates today en [] = (Inr (), en)"
  by (simp add: apply_state_updates_def)

lemma apply_approved_composed:
  "apply_approved today en (composed_result vs) =
   (case apply_label_writes en (label_writes vs) of
      (Inl e, en1) \<Rightarrow> (Inl e, en1)
    | (Inr x, en1) \<Rightarrow> apply_state_updates today en1 (state_writes vs))"
  by (cases "label_writes vs"; cases "state_writes vs")
    (simp_all add: apply_approved_def composed_result_def or_none_def split: prod.splits sum.splits)

text \<open>
  The composed result of an ASK names at least one asking policy, so the elicitation has a
  policy to show and the timeout is that policy's.
\<close>

lemma composed_ask_deciding:
  assumes "strictest (verdicts en ctx) = ASK"
  shows "deciding_policy (composed_result (verdicts en ctx)) = Some (hd (names_with ASK (verdicts en ctx)))"
proof -
  have "names_with ASK (verdicts en ctx) \<noteq> []" using assms strictest_ASK_iff [of "verdicts en ctx"] by simp
  then show ?thesis using assms
    by (cases "names_with ASK (verdicts en ctx)") (simp_all add: deciding_policy_def composed_result_def)
qed

end
