(* ===== verification/Fixtures.thy ===== *)
theory Fixtures
  imports CostBudget Approval
begin

text \<open>
  Concrete stores, policies, engines and contexts on which the witnesses of the development
  evaluate its properties.
\<close>

definition fx_conv :: "string \<Rightarrow> string \<Rightarrow> conversation" where
  "fx_conv cid root_id =
     \<lparr>cv_id = cid, cv_root = root_id, cv_parent = (if cid = root_id then None else Some root_id),
      cv_archived = False, cv_model_override = None, cv_labels = [], cv_session_state = [],
      cv_session_usage = []\<rparr>"

definition fx_store :: conv_store where
  "fx_store =
     \<lparr>st_rows = [fx_conv ''child'' ''root'', fx_conv ''root'' ''root''], st_labels = (\<lambda>c. []),
      st_items = (\<lambda>c. []), st_daily = (\<lambda>k. None), st_grants = [(''root'', ''alice'', 4)]\<rparr>"

definition fx_spec :: "string \<Rightarrow> policy_spec" where
  "fx_spec name =
     \<lparr>ps_name = name, ps_on = None, ps_condition = None, ps_ask_timeout = None, ps_function = None,
      ps_set_labels = None, ps_config = None\<rparr>"

definition fx_fixed :: "string \<Rightarrow> string \<Rightarrow> pydict option \<Rightarrow> unit policy" where
  "fx_fixed name action labels =
     function_policy (fx_spec name) (make_fixed_action_callable action (Some ''why'') labels None None ())"

definition fx_engine :: "unit policy list \<Rightarrow> pydict option \<Rightarrow> string \<Rightarrow> unit engine" where
  "fx_engine ps usage cid =
     init_engine ps [(''risk'', \<lparr>ld_initial = None, ld_values = Some [''low'', ''high'']\<rparr>)] 60 cid [] None usage
       None None None (Some ''opus'') fx_store (Some ''root'') None"

definition fx_ctx :: "phase \<Rightarrow> evaluation_context" where
  "fx_ctx ph =
     \<lparr>ec_phase = ph, ec_content = PStr ''hello'', ec_tool_name = Some ''bash'', ec_trajectory = None,
      ec_actor = None, ec_request_data = PNone, ec_session_state = None, ec_usage = None,
      ec_subtree_usage = None, ec_user_daily_cost = None, ec_model = None, ec_harness = None,
      ec_labels = None, ec_llm_client = None\<rparr>"

text \<open>A policy whose callable raises.\<close>

definition fx_raising :: "string \<Rightarrow> unit policy" where
  "fx_raising name = function_policy (fx_spec name) (event_callable (\<lambda>ev. Inl (ValueError ''boom'')) ())"

definition fx_mixed :: "unit engine" where
  "fx_mixed = fx_engine [fx_fixed ''first'' ''allow'' (Some [(''risk'', PStr ''high'')]),
     fx_fixed ''second'' ''ask'' None, fx_fixed ''third'' ''deny'' None] None ''root''"

definition fx_asking :: "unit engine" where
  "fx_asking = fx_engine [fx_fixed ''first'' ''allow'' (Some [(''risk'', PStr ''high'')]),
     fx_fixed ''second'' ''ask'' None] None ''root''"

lemma fx_simps [simp]:
  "pol_spec (fx_fixed n a l) = fx_spec n"
  "pol_spec (fx_raising n) = fx_spec n"
  "should_fire (fx_spec n) labels ctx"
  "en_policies (fx_engine ps u c) = ps"
  by (simp_all add: fx_fixed_def fx_raising_def function_policy_def should_fire_def fx_spec_def
      fx_engine_def init_engine_def)

end
