(* ===== verification/PolicyProperties.thy ===== *)
theory PolicyProperties
  imports Fixtures
begin

text \<open>
  The properties of the policy engine, of the approval round trip and of the spending gates,
  each followed by its witness.
\<close>

section \<open>Composition\<close>

text \<open>
  C1: an evaluation that returns composes the results of the dispatched policies: its verdict
  is the strictest of theirs (ALLOW, then ASK, then DENY), the deciding policies are those
  with that verdict in declaration order, the label and state writes are those of every
  dispatched policy, the reason and the data follow the verdict.
\<close>

theorem evaluate_composes_verdicts:
  assumes "evaluate_composed today en ctx ro = (Inr r, en')"
  shows "r = composed_result (verdicts en ctx) \<and>
    (\<forall>(s, v) \<in> set (verdicts en ctx). pr_action v \<le> pr_action r) \<and>
    (pr_action r \<noteq> ALLOW \<longrightarrow> (\<exists>(s, v) \<in> set (verdicts en ctx). pr_action v = pr_action r))"
proof -
  have r: "r = composed_result (verdicts en ctx)" by (rule evaluate_composed_result [OF assms])
  then have a: "pr_action r = strictest (verdicts en ctx)" by (simp add: composed_result_def)
  have "\<forall>(s, v) \<in> set (verdicts en ctx). pr_action v \<le> pr_action r"
    using strictest_upper a by auto
  moreover have "pr_action r \<noteq> ALLOW \<longrightarrow> (\<exists>(s, v) \<in> set (verdicts en ctx). pr_action v = pr_action r)"
    using strictest_attained [of "verdicts en ctx"] a by fastforce
  ultimately show ?thesis using r by blast
qed

lemma fx_mixed_returns: "\<not> isl (fst (evaluate_composed ''d'' fx_mixed (fx_ctx TOOL_CALL) False))"
  by code_simp

lemma fx_mixed_verdicts: "strictest (verdicts fx_mixed (fx_ctx TOOL_CALL)) = DENY"
  by code_simp

theorem evaluate_composes_verdicts_witness:
  "\<exists>r en'. evaluate_composed ''d'' fx_mixed (fx_ctx TOOL_CALL) False = (Inr r, en') \<and> pr_action r = DENY"
proof -
  obtain r en' where e: "evaluate_composed ''d'' fx_mixed (fx_ctx TOOL_CALL) False = (Inr r, en')"
    using returns_Inr [OF fx_mixed_returns] by blast
  from evaluate_composes_verdicts [OF e] have "pr_action r = DENY"
    using fx_mixed_verdicts by (simp add: composed_result_def)
  with e show ?thesis by blast
qed

text \<open>
  C2: a policy that fires and answers at least \<open>a\<close> whatever content it is shown bounds the
  composed verdict: no other policy, in front of it or behind it, can loosen the decision, also
  not by rewriting the content.
\<close>

theorem no_policy_loosens_verdict:
  assumes "evaluate_composed today en ctx ro = (Inr r, en')"
    and "p \<in> set (en_policies en)"
    and "should_fire (pol_spec p) (en_labels en) ctx"
    and "\<forall>c. a \<le> pr_action (fst (dispatch_policy p ((prepare_ctx en ctx)\<lparr>ec_content := c\<rparr>) (context_bundle en)))"
  shows "a \<le> pr_action r"
  using evaluate_guard [OF assms(1,2) _ assms(4)] assms(3) by simp

lemma fixed_dispatch:
  "pr_action (fst (dispatch_policy (fx_fixed n ''ask'' None) ctx b)) = ASK"
  by (simp add: fx_fixed_def make_fixed_action_callable_def dispatch_event_callable fixed_action_def
      coerce_to_policy_result_def policy_result_from_dict_def pget_def policy_action_of_def str_lower_def
      lower_char_def char_code_def coerce_state_updates_def)

theorem no_policy_loosens_verdict_witness:
  "\<exists>r en'. evaluate_composed ''d'' fx_mixed (fx_ctx TOOL_CALL) False = (Inr r, en') \<and> ASK \<le> pr_action r"
proof -
  obtain r en' where e: "evaluate_composed ''d'' fx_mixed (fx_ctx TOOL_CALL) False = (Inr r, en')"
    using returns_Inr [OF fx_mixed_returns] by blast
  have "ASK \<le> pr_action r"
    by (rule no_policy_loosens_verdict [OF e, of "fx_fixed ''second'' ''ask'' None"])
      (simp_all add: fixed_dispatch fx_mixed_def)
  with e show ?thesis by blast
qed

text \<open>
  C3: a policy that raises fails closed: when it fires and raises on every content, an
  evaluation that returns is a DENY, whatever the other policies say.
\<close>

theorem raising_policy_denies:
  assumes "evaluate_composed today en ctx ro = (Inr r, en')"
    and "p \<in> set (en_policies en)"
    and "should_fire (pol_spec p) (en_labels en) ctx"
    and "\<forall>c b s. \<exists>e s'. pol_eval p c b s = (Inl e, s')"
  shows "pr_action r = DENY"
proof -
  have "pr_action (fst (dispatch_policy p c b)) = DENY" for c b
    using assms(4) [rule_format, of c b "pol_state p"]
    by (auto simp: dispatch_policy_def policy_result_of_def)
  then have "DENY \<le> pr_action r" using evaluate_guard [OF assms(1,2), of DENY] assms(3) by simp
  then show ?thesis by (simp add: antisym)
qed

theorem raising_policy_denies_witness:
  "\<exists>r en'. evaluate_composed ''d'' (fx_engine [fx_raising ''broken''] None ''root'') (fx_ctx REQUEST) True = (Inr r, en')
     \<and> pr_action r = DENY"
proof -
  let ?en = "fx_engine [fx_raising ''broken''] None ''root''"
  have "\<not> isl (fst (evaluate_composed ''d'' ?en (fx_ctx REQUEST) True))" by code_simp
  then obtain r en' where e: "evaluate_composed ''d'' ?en (fx_ctx REQUEST) True = (Inr r, en')"
    using returns_Inr by blast
  have "pr_action r = DENY"
    by (rule raising_policy_denies [OF e, of "fx_raising ''broken''"])
      (simp_all add: fx_raising_def function_policy_def function_evaluate_def call_policy_def event_callable_def)
  with e show ?thesis by blast
qed

section \<open>Effects of an evaluation\<close>

text \<open>
  C4: a read-only evaluation and an evaluation that asks return the composed result and leave
  the engine as it was, up to the private state of the policies: no label, session state,
  usage counter or store row changes.
\<close>

theorem readonly_and_ask_leave_no_trace:
  assumes "ro \<or> strictest (verdicts en ctx) = ASK"
  shows "evaluate_composed today en ctx ro =
    (Inr (composed_result (verdicts en ctx)), en\<lparr>en_policies := policies_after en ctx\<rparr>)"
  using assms by (simp add: evaluate_composed_spec compose_effects_def)

theorem readonly_and_ask_leave_no_trace_witness:
  "en_labels (snd (evaluate_composed ''d'' fx_asking (fx_ctx TOOL_CALL) False)) = [] \<and>
   label_writes (verdicts fx_asking (fx_ctx TOOL_CALL)) = [(''risk'', PStr ''high'')]"
proof
  have "strictest (verdicts fx_asking (fx_ctx TOOL_CALL)) = ASK" by code_simp
  then show "en_labels (snd (evaluate_composed ''d'' fx_asking (fx_ctx TOOL_CALL) False)) = []"
    by (subst readonly_and_ask_leave_no_trace) (simp_all add: fx_asking_def fx_engine_def init_engine_def)
  show "label_writes (verdicts fx_asking (fx_ctx TOOL_CALL)) = [(''risk'', PStr ''high'')]" by code_simp
qed

text \<open>
  C5: the writes that an ASK withholds are applied exactly when the parked reply is a JSON object
  whose action is \<^verbatim>\<open>accept\<close>, labels before state updates; on a deadline, a decline, a cancel or a
  malformed reply the engine is the one before the evaluation (up to the policies' private
  state) and the round trip does not answer that the action was approved.
\<close>

theorem ask_commits_only_on_accept:
  assumes "evaluate_composed today en ctx ro = (Inr r, en1)" and "pr_action r = ASK"
    and "await_elicitation jl jd token park today' tid r ph preview en1 = (y, en2, calls)"
  shows "if \<exists>raw. park (''elicit_'' @ token) (resolve_ask_timeout en1 r) = Reply raw \<and>
              verdict_action jl raw = PStr ''accept''
         then (case apply_label_writes en1 (label_writes (verdicts en ctx)) of
                 (Inl e, en') \<Rightarrow> y = Inl e \<and> en2 = en'
               | (Inr x, en') \<Rightarrow>
                   (case apply_state_updates today' en' (state_writes (verdicts en ctx)) of
                      (Inl e, en'') \<Rightarrow> y = Inl e \<and> en2 = en''
                    | (Inr x, en'') \<Rightarrow> y = Inr True \<and> en2 = en''))
         else en2 = en\<lparr>en_policies := policies_after en ctx\<rparr> \<and> y \<noteq> Inr True"
proof -
  have r: "r = composed_result (verdicts en ctx)" by (rule evaluate_composed_result [OF assms(1)])
  with assms(2) have "strictest (verdicts en ctx) = ASK" by (simp add: composed_result_def)
  with assms(1) have en1: "en1 = en\<lparr>en_policies := policies_after en ctx\<rparr>"
    by (simp add: evaluate_composed_spec compose_effects_def)
  show ?thesis
  proof (cases "park (''elicit_'' @ token) (resolve_ask_timeout en1 r)")
    case Deadline
    with assms(3) en1 show ?thesis by (auto simp: await_elicitation_def Let_def)
  next
    case (Reply raw)
    show ?thesis
    proof (cases "verdict_action jl raw = PStr ''accept''")
      case True
      with Reply assms(3) show ?thesis
        by (auto simp: await_elicitation_def Let_def is_explicit_decline_iff parse_verdict_iff r
            apply_approved_composed split: prod.splits sum.splits)
    next
      case False
      with Reply assms(3) en1 show ?thesis
        by (auto simp: await_elicitation_def Let_def is_explicit_decline_iff parse_verdict_iff split: if_splits)
    qed
  qed
qed

definition fx_accept :: "string \<Rightarrow> pyval option" where
  "fx_accept s = (if s = ''yes'' then Some (PDict [(''action'', PStr ''accept'')]) else None)"

theorem ask_commits_only_on_accept_witness:
  "\<exists>r en1 y en2 calls. evaluate_composed ''d'' fx_asking (fx_ctx TOOL_CALL) False = (Inr r, en1) \<and>
     await_elicitation fx_accept (\<lambda>d. []) ''t'' (\<lambda>e t. Reply (Some ''yes'')) ''d'' ''task'' r TOOL_CALL [] en1 = (y, en2, calls) \<and>
     en_labels en1 = [] \<and> en_labels en2 = [(''risk'', PStr ''high'')]"
proof -
  let ?vs = "verdicts fx_asking (fx_ctx TOOL_CALL)"
  let ?en1 = "fx_asking\<lparr>en_policies := policies_after fx_asking (fx_ctx TOOL_CALL)\<rparr>"
  have vs: "strictest ?vs = ASK" "label_writes ?vs = [(''risk'', PStr ''high'')]" "state_writes ?vs = []"
    by (code_simp, code_simp, code_simp)
  have e: "evaluate_composed ''d'' fx_asking (fx_ctx TOOL_CALL) False = (Inr (composed_result ?vs), ?en1)"
    using vs by (simp add: evaluate_composed_spec compose_effects_def)
  obtain y en2 calls where a: "await_elicitation fx_accept (\<lambda>d. []) ''t'' (\<lambda>e t. Reply (Some ''yes'')) ''d'' ''task''
      (composed_result ?vs) TOOL_CALL [] ?en1 = (y, en2, calls)" by (metis prod_cases3)
  have "pr_action (composed_result ?vs) = ASK" by (simp add: composed_result_def vs)
  note c = ask_commits_only_on_accept [OF e this a]
  have "fst (apply_label_writes ?en1 [(''risk'', PStr ''high'')]) = Inr () \<and>
      en_labels (snd (apply_label_writes ?en1 [(''risk'', PStr ''high'')])) = [(''risk'', PStr ''high'')]"
    by (simp add: apply_label_writes_def fx_asking_def fx_engine_def init_engine_def filter_schema_valid_def
        label_value_ok_def set_labels_def label_rows_def dset_def Let_def)
  then obtain en3 where lw: "apply_label_writes ?en1 [(''risk'', PStr ''high'')] = (Inr (), en3)"
    and lab: "en_labels en3 = [(''risk'', PStr ''high'')]" by (metis prod.collapse)
  from c have "en2 = en3" by (simp add: verdict_action_def fx_accept_def pget_def vs lw)
  with lab have "en_labels en2 = [(''risk'', PStr ''high'')]" by simp
  moreover have "en_labels ?en1 = []" by (simp add: fx_asking_def fx_engine_def init_engine_def)
  ultimately show ?thesis using e a by blast
qed

section \<open>Invariants of every engine run\<close>

text \<open>
  C6: along every run of the engine (evaluations, approvals' label and state writes, usage
  records and turn resets, raising ones included) the label cache respects the declared
  schemas, when the labels loaded at construction do.
\<close>

theorem label_schema_invariant:
  assumes "engine_step\<^sup>*\<^sup>* (init_engine ps defs tmo cid labels ss usage sub daily pricing m st rid llm) en'"
    and "\<forall>(k, v) \<in> set labels. label_value_ok defs k v"
  shows "\<forall>(k, v) \<in> set (en_labels en'). label_value_ok defs k v"
proof -
  let ?en = "init_engine ps defs tmo cid labels ss usage sub daily pricing m st rid llm"
  have "labels_valid ?en" using assms(2) by (simp add: labels_valid_def init_engine_def)
  then have "labels_valid en'" by (rule valid_inv.keep_run [OF assms(1)])
  moreover have "en_label_defs en' = defs"
    using setup_inv.keep_run [OF assms(1), of ?en] by (simp add: same_setup_def init_engine_def)
  ultimately show ?thesis by (simp add: labels_valid_def)
qed

theorem label_schema_invariant_witness:
  "list_all (\<lambda>(k, v). label_value_ok [(''risk'', \<lparr>ld_initial = None, ld_values = Some [''low'', ''high'']\<rparr>)] k v)
     (en_labels (snd (apply_label_writes (fx_engine [] None ''root'')
        [(''risk'', PStr ''maybe''), (''risk'', PStr ''low'')])))"
proof -
  let ?en = "fx_engine [] None ''root''" and ?d = "[(''risk'', PStr ''maybe''), (''risk'', PStr ''low'')]"
  have "engine_step ?en (snd (apply_label_writes ?en ?d))"
    by (rule step_labels [of _ ?d "fst (apply_label_writes ?en ?d)"]) simp
  then have "engine_step\<^sup>*\<^sup>* ?en (snd (apply_label_writes ?en ?d))" by blast
  from label_schema_invariant [OF this [unfolded fx_engine_def]] show ?thesis by (simp add: fx_engine_def list_all_iff)
qed

text \<open>
  C7: write-through of labels: along every run from an engine whose labels were loaded from its
  conversation, the stored labels are the cached ones clamped to the width of the column. A
  cached value of at most 256 characters is therefore the stored one.
\<close>

theorem label_write_through:
  assumes "engine_step\<^sup>*\<^sup>* (init_engine ps defs tmo cid (st_labels st cid) ss usage sub daily pricing m st rid llm) en'"
    and "\<forall>(k, v) \<in> set (st_labels st cid). clamp_value v = v"
  shows "st_labels (en_store en') cid = map (\<lambda>(k, v). (k, clamp_value v)) (en_labels en')"
proof -
  let ?en = "init_engine ps defs tmo cid (st_labels st cid) ss usage sub daily pricing m st rid llm"
  have "map (\<lambda>(k, v). (k, clamp_value v)) (st_labels st cid) = st_labels st cid"
    using assms(2) by (intro map_idI) auto
  then have "labels_synced ?en" by (simp add: labels_synced_def init_engine_def)
  then have "labels_synced en'" by (rule synced_inv.keep_run [OF assms(1)])
  moreover have "en_conversation_id en' = cid"
    using setup_inv.keep_run [OF assms(1), of ?en] by (simp add: same_setup_def init_engine_def)
  ultimately show ?thesis by (simp add: labels_synced_def)
qed

theorem label_write_through_witness:
  "st_labels (en_store (snd (apply_label_writes (fx_engine [] None ''root'') [(''risk'', PStr ''low'')]))) ''root'' =
   [(''risk'', PStr ''low'')]"
proof -
  let ?en = "fx_engine [] None ''root''" and ?d = "[(''risk'', PStr ''low'')]"
  have empty: "fx_engine [] None ''root'' = init_engine []
      [(''risk'', \<lparr>ld_initial = None, ld_values = Some [''low'', ''high'']\<rparr>)] 60 ''root'' (st_labels fx_store ''root'')
      None None None None None (Some ''opus'') fx_store (Some ''root'') None"
    by (simp add: fx_engine_def fx_store_def)
  have "engine_step ?en (snd (apply_label_writes ?en ?d))"
    by (rule step_labels [of _ ?d "fst (apply_label_writes ?en ?d)"]) simp
  then have "engine_step\<^sup>*\<^sup>* ?en (snd (apply_label_writes ?en ?d))" by blast
  from label_write_through [OF this [unfolded empty]] have
    "st_labels (en_store (snd (apply_label_writes ?en ?d))) ''root'' =
       map (\<lambda>(k, v). (k, clamp_value v)) (en_labels (snd (apply_label_writes ?en ?d)))"
    by (simp add: empty fx_store_def)
  also have "en_labels (snd (apply_label_writes ?en ?d)) = [(''risk'', PStr ''low'')]" by code_simp
  finally show ?thesis by (simp add: clamp_value_def LABEL_VALUE_MAX_LEN_def)
qed

section \<open>Session state and usage\<close>

text \<open>
  for a top-level conversation the persisted session state and the engine's cache stay
  equal across every evaluation that returns.
\<close>

theorem session_state_write_through:
  assumes "evaluate_composed today en ctx ro = (Inr r, en')"
    and "en_root_conversation_id en = en_conversation_id en"
    and "read_session_state (en_store en) (en_conversation_id en) = Some (en_session_state en)"
  shows "read_session_state (en_store en') (en_conversation_id en') = Some (en_session_state en')"
  using state_synced_evaluate [OF assms(1)] assms(2,3) by (simp add: state_synced_def)

definition fx_counting :: "unit policy" where
  "fx_counting =
     function_policy (fx_spec ''count'') (event_callable (\<lambda>ev. Inr (RDict [(''result'', PStr ''ALLOW''),
       (''state_updates'', PList [PDict [(''key'', PStr ''n''), (''action'', PStr ''increment''), (''value'', PInt 1)]])])) ())"

theorem session_state_write_through_witness:
  "\<exists>r en'. evaluate_composed ''d'' (fx_engine [fx_counting] None ''root'') (fx_ctx TOOL_CALL) False = (Inr r, en') \<and>
     read_session_state (en_store en') ''root'' = Some (en_session_state en') \<and> en_session_state en' = [(''n'', PInt 1)]"
proof -
  let ?en = "fx_engine [fx_counting] None ''root''"
  have "\<not> isl (fst (evaluate_composed ''d'' ?en (fx_ctx TOOL_CALL) False))" by code_simp
  then obtain r en' where e: "evaluate_composed ''d'' ?en (fx_ctx TOOL_CALL) False = (Inr r, en')"
    using returns_Inr by blast
  have "en_session_state (snd (evaluate_composed ''d'' ?en (fx_ctx TOOL_CALL) False)) = [(''n'', PInt 1)]"
    "en_conversation_id (snd (evaluate_composed ''d'' ?en (fx_ctx TOOL_CALL) False)) = ''root''"
    by (code_simp, code_simp)
  with e have s: "en_session_state en' = [(''n'', PInt 1)]" and c: "en_conversation_id en' = ''root''" by simp_all
  have "read_session_state (en_store en') (en_conversation_id en') = Some (en_session_state en')"
    by (rule session_state_write_through [OF e])
      (simp_all add: fx_engine_def init_engine_def read_session_state_def get_conversation_def fx_store_def fx_conv_def)
  with e s c show ?thesis by auto
qed

text \<open>
  A cost approval given inside a sub-agent is recorded on the root conversation and in the
  sub-agent's cache, and no other conversation's state changes, the sub-agent's own row
  included.
\<close>

theorem subagent_approval_reaches_root:
  assumes "k \<in> {SESSION_COST_ASK_APPROVED_STATE_KEY, SESSION_COST_UNPRICED_APPROVED_KEY}"
    and "en_root_conversation_id en \<noteq> en_conversation_id en"
    and "read_session_state (en_store en) (en_root_conversation_id en) = Some rs"
  shows "\<exists>en'. apply_state_updates today en [\<lparr>su_key = k, su_action = SET, su_value = v\<rparr>] = (Inr (), en') \<and>
    read_session_state (en_store en') (en_root_conversation_id en) = Some (dset rs k v) \<and>
    en_session_state en' = dset (en_session_state en) k v \<and>
    (\<forall>c. c \<noteq> en_root_conversation_id en \<longrightarrow> read_session_state (en_store en') c = read_session_state (en_store en) c)"
proof -
  let ?u = "\<lparr>su_key = k, su_action = SET, su_value = v\<rparr>" and ?root = "en_root_conversation_id en"
  obtain cv where cv: "get_conversation (en_store en) ?root = Some cv" "cv_session_state cv = rs"
    using assms(3) by (auto simp: read_session_state_def)
  have "k \<noteq> USER_DAILY_ASK_APPROVED_STATE_KEY"
    using assms(1) by (auto simp: SESSION_COST_ASK_APPROVED_STATE_KEY_def SESSION_COST_UNPRICED_APPROVED_KEY_def
        USER_DAILY_ASK_APPROVED_STATE_KEY_def)
  moreover have "root_routed en ?u" using assms by (simp add: root_routed_def)
  ultimately have "apply_state_updates today en [?u] = (Inr (), en\<lparr>en_store :=
      set_session_state (en_store en) ?root (dset rs k v), en_session_state := dset (en_session_state en) k v\<rparr>)"
    using cv by (simp add: apply_state_updates_def record_root_cost_ask_approved_def apply_one.simps)
  moreover have "read_session_state (set_session_state (en_store en) ?root (dset rs k v)) ?root = Some (dset rs k v)"
    by (rule state_column.read_write) (simp add: assms(3))
  moreover have "c \<noteq> ?root \<longrightarrow> read_session_state (set_session_state (en_store en) ?root (dset rs k v)) c =
      read_session_state (en_store en) c" for c
    using state_column.read_other by blast
  ultimately show ?thesis by auto
qed

theorem subagent_approval_reaches_root_witness:
  "\<exists>en'. apply_state_updates ''d'' (fx_engine [] None ''child'')
       [\<lparr>su_key = ''_policy_cost_ask_approved_usd'', su_action = SET, su_value = PFloat 5\<rparr>] = (Inr (), en') \<and>
     read_session_state (en_store en') ''root'' = Some [(''_policy_cost_ask_approved_usd'', PFloat 5)] \<and>
     read_session_state (en_store en') ''child'' = Some []"
proof -
  let ?en = "fx_engine [] None ''child''"
  have root_id: "en_root_conversation_id ?en = ''root''" by (simp add: fx_engine_def init_engine_def)
  have rs: "read_session_state (en_store ?en) ''root'' = Some []" "read_session_state (en_store ?en) ''child'' = Some []"
    by (simp_all add: fx_engine_def init_engine_def read_session_state_def get_conversation_def fx_store_def fx_conv_def)
  show ?thesis
    using subagent_approval_reaches_root [of "''_policy_cost_ask_approved_usd''" ?en "[]" "''d''" "PFloat 5"] rs
    by (auto simp: root_id SESSION_COST_ASK_APPROVED_STATE_KEY_def fx_engine_def init_engine_def dset_def)
qed

text \<open>
  recording a call's usage on an engine whose counters are complete never raises, keeps them
  complete, adds the token counts and the priced cost of the call to the running totals of the
  session, and persists the new totals on the conversation.
\<close>

theorem record_usage_adds_call:
  assumes "usage_ok (en_usage en)" and "\<forall>u. en_subtree_usage en = Some u \<longrightarrow> usage_ok u"
    and "read_session_usage (en_store en) (en_conversation_id en) \<noteq> None"
  shows "\<exists>en'. record_usage en i ou t r w = (Inr (), en') \<and> usage_ok (en_usage en') \<and>
    num_at (en_usage en') ''input_tokens'' = Some (the (num_at (en_usage en) ''input_tokens'') + of_int i) \<and>
    num_at (en_usage en') ''output_tokens'' = Some (the (num_at (en_usage en) ''output_tokens'') + of_int ou) \<and>
    num_at (en_usage en') ''total_tokens'' = Some (the (num_at (en_usage en) ''total_tokens'') + of_int t) \<and>
    num_at (en_usage en') ''total_cost_usd'' =
      Some (the (num_at (en_usage en) ''total_cost_usd'') + call_cost (en_token_pricing en) i ou r w) \<and>
    read_session_usage (en_store en') (en_conversation_id en) = Some (en_usage en')"
proof -
  obtain d where d: "bump (en_usage en) (token_deltas i ou t r w) = (Inr (), d)" "usage_ok d"
    "num_at d ''input_tokens'' = Some (the (num_at (en_usage en) ''input_tokens'') + of_int i)"
    "num_at d ''output_tokens'' = Some (the (num_at (en_usage en) ''output_tokens'') + of_int ou)"
    "num_at d ''total_tokens'' = Some (the (num_at (en_usage en) ''total_tokens'') + of_int t)"
    "num_at d ''total_cost_usd'' = num_at (en_usage en) ''total_cost_usd''"
    using bump_tokens [OF assms(1)] by blast
  obtain d' where d': "bump_cost (en_token_pricing en) d i ou r w = (Inr (call_cost (en_token_pricing en) i ou r w), d')"
    "usage_ok d'"
    "num_at d' ''total_cost_usd'' = Some (the (num_at d ''total_cost_usd'') + call_cost (en_token_pricing en) i ou r w)"
    "\<forall>k. k \<noteq> ''total_cost_usd'' \<longrightarrow> num_at d' k = num_at d k"
    using bump_cost_ok [OF d(2)] by blast
  have stored: "read_session_usage (set_session_usage (en_store en) (en_conversation_id en) d') (en_conversation_id en) = Some d'"
    by (rule usage_column.read_write [OF assms(3)])
  show ?thesis
  proof (cases "en_subtree_usage en")
    case None
    with d d' stored show ?thesis by (simp add: record_usage_def)
  next
    case (Some u)
    let ?kvs = "token_deltas i ou t r w @ [(''total_cost_usd'', PFloat (call_cost (en_token_pricing en) i ou r w))]"
    have "\<forall>(k, v) \<in> set ?kvs. num_at u k \<noteq> None \<and> num_of v \<noteq> None"
      using assms(2) Some by (auto simp: token_deltas_def usage_ok_def usage_keys_def)
    from bump_numeric [OF this] obtain su where "bump u ?kvs = (Inr (), su)" by (auto simp: token_deltas_def)
    with Some d d' stored show ?thesis by (simp add: record_usage_def)
  qed
qed

theorem record_usage_adds_call_witness:
  "\<exists>en'. record_usage (fx_engine [] None ''root'') 100 20 120 0 0 = (Inr (), en') \<and>
     num_at (en_usage en') ''total_tokens'' = Some 120"
proof -
  let ?en = "fx_engine [] None ''root''"
  have "usage_ok (en_usage ?en)" unfolding fx_engine_def by (rule usage_ok_init)
  moreover have "\<forall>u. en_subtree_usage ?en = Some u \<longrightarrow> usage_ok u" by (simp add: fx_engine_def init_engine_def)
  moreover have "read_session_usage (en_store ?en) (en_conversation_id ?en) \<noteq> None"
    by (simp add: fx_engine_def init_engine_def read_session_usage_def get_conversation_def fx_store_def fx_conv_def)
  moreover have "num_at (en_usage ?en) ''total_tokens'' = Some 0" by code_simp
  ultimately show ?thesis using record_usage_adds_call [of ?en 100 20 120 0 0] by auto
qed

section \<open>Spending gates inside the engine\<close>

definition effective_model :: "'s engine \<Rightarrow> evaluation_context \<Rightarrow> string option" where
  "effective_model en ctx =
     nonempty_str (opt_str (case ec_model ctx of Some m \<Rightarrow> Some m | None \<Rightarrow> en_model en))"

definition unconditional :: "policy_spec \<Rightarrow> bool" where
  "unconditional spec \<longleftrightarrow> ps_on spec = None \<and> ps_condition spec = None"

lemma should_fire_unconditional: "unconditional spec \<Longrightarrow> should_fire spec labels ctx"
  by (simp add: unconditional_def should_fire_def)

text \<open>What a gate reads from the event that the engine prepares, whatever the content.\<close>

definition engine_event :: "'s engine \<Rightarrow> evaluation_context \<Rightarrow> pyval \<Rightarrow> pydict" where
  "engine_event en ctx c = ev_fields (build_event ((prepare_ctx en ctx)\<lparr>ec_content := c\<rparr>))"

lemma engine_event_reads:
  "is_gated (engine_event en ctx c) \<longleftrightarrow> ec_phase ctx = REQUEST \<or> ec_phase ctx = TOOL_CALL"
  "or_dict (pget (event_context (engine_event en ctx c)) ''usage'') = en_usage en"
  "or_dict (pget (engine_event en ctx c) ''session_state'') = en_session_state en"
  "current_model (engine_event en ctx c) = effective_model en ctx"
  by (simp_all add: engine_event_def build_event_context pget_def opt_dict_def or_dict_def current_model_def
      effective_model_def prepare_ctx_model del: build_event_get) (simp add: build_event_def opt_dict_def)

lemma engine_event_session_cost:
  assumes "num_at (en_usage en) ''total_cost_usd'' = Some x"
  shows "session_cost_usd (engine_event en ctx c) = x" and "\<not> usage_is_unpriced (en_usage en)"
proof -
  obtain v where v: "dget (en_usage en) ''total_cost_usd'' = Some v" "num_of v = Some x"
    using assms by (auto simp: num_at_def split: option.splits)
  have "py_float v = Inr x" using v(2) by (simp add: py_float_def)
  then show "session_cost_usd (engine_event en ctx c) = x"
    by (simp add: session_cost_usd_def engine_event_reads pget_default_def v float_or_zero_def)
  show "\<not> usage_is_unpriced (en_usage en)" by (simp add: usage_is_unpriced_def dhas_iff v)
qed

text \<open>
  C8: once the session's recorded spend has reached the hard limit and the model in use is
  blocked, every request and every tool call that the engine evaluates and answers is denied,
  whatever other policies are configured around the budget and whatever they answer.
\<close>

theorem over_budget_engine_denies:
  assumes "evaluate_composed today en ctx ro = (Inr r, en')"
    and "cost_budget (Some m) ts xs = Inr gate" and "resolve_expensive_models xs = Inr cfg"
    and "budget_policy spec gate s0 \<in> set (en_policies en)" and "unconditional spec"
    and "ec_phase ctx = REQUEST \<or> ec_phase ctx = TOOL_CALL"
    and "num_at (en_usage en) ''total_cost_usd'' = Some spend" and "m \<le> spend"
    and "model_blocked_over_budget (effective_model en ctx) (xm_expensive_tokens cfg) (xm_exclude_tokens cfg)
           (xm_block_all_models cfg)"
  shows "pr_action r = DENY"
proof -
  obtain thresholds where gate: "gate = cost_budget_evaluate (Some m) thresholds cfg"
    using cost_budget_Inr [OF assms(2)] assms(3) by auto
  have cap: "xm_hard_cap_enabled cfg" using resolve_expensive_hard_cap [OF assms(3)] by simp
  have "\<exists>why. gate (engine_event en ctx c) = Inr (deny_response why)" for c
    unfolding gate session_gate.denies_iff
    using assms(6,8,9) cap engine_event_session_cost [OF assms(7)]
    by (simp add: engine_event_reads limit_reached_def model_blocked_def)
  then have "DENY \<le> pr_action (fst (dispatch_policy (budget_policy spec gate s0)
      ((prepare_ctx en ctx)\<lparr>ec_content := c\<rparr>) (context_bundle en)))" for c
    using dispatch_budget [of gate "(prepare_ctx en ctx)\<lparr>ec_content := c\<rparr>"] response_results(2)
    unfolding engine_event_def by (metis fst_conv DENY_greatest dual_order.refl policy_result.select_convs(1)
        policy_result.update_convs(2) policy_result.surjective policy_result_of_def)
  then have "DENY \<le> pr_action r"
    using evaluate_guard [OF assms(1,4), of DENY] should_fire_unconditional [OF assms(5)] by simp
  then show ?thesis by (simp add: antisym)
qed

definition fx_spent :: pydict where
  "fx_spent = [(''total_cost_usd'', PFloat 6), (''input_tokens'', PInt 10)]"

definition fx_budget_gate :: "pydict \<Rightarrow> pydict res" where
  "fx_budget_gate = cost_budget_evaluate (Some 5) [2]
     \<lparr>xm_expensive_tokens = [''opus''], xm_exclude_tokens = [], xm_hard_cap_enabled = True, xm_block_all_models = False\<rparr>"

lemma fx_resolve:
  "resolve_expensive_models (Some [PStr ''opus'']) = Inr
     \<lparr>xm_expensive_tokens = [''opus''], xm_exclude_tokens = [], xm_hard_cap_enabled = True, xm_block_all_models = False\<rparr>"
  by code_simp

lemma fx_budget: "cost_budget (Some 5) (Some [PFloat 2]) (Some [PStr ''opus'']) = Inr fx_budget_gate"
  by (simp add: cost_budget_def fx_resolve sorted_thresholds_def check_thresholds_def fx_budget_gate_def)

theorem over_budget_engine_denies_witness:
  "\<exists>r en'. evaluate_composed ''d'' (fx_engine [fx_fixed ''first'' ''allow'' None,
       budget_policy (fx_spec ''budget'') fx_budget_gate ()] (Some fx_spent) ''root'') (fx_ctx REQUEST) False = (Inr r, en') \<and>
     pr_action r = DENY"
proof -
  let ?en = "fx_engine [fx_fixed ''first'' ''allow'' None, budget_policy (fx_spec ''budget'') fx_budget_gate ()]
    (Some fx_spent) ''root''"
  have "\<not> isl (fst (evaluate_composed ''d'' ?en (fx_ctx REQUEST) False))" by code_simp
  then obtain r en' where e: "evaluate_composed ''d'' ?en (fx_ctx REQUEST) False = (Inr r, en')"
    using returns_Inr by blast
  have spend: "num_at (en_usage ?en) ''total_cost_usd'' = Some 6" by code_simp
  have model: "effective_model ?en (fx_ctx REQUEST) = Some ''opus''"
    by (simp add: effective_model_def fx_engine_def init_engine_def fx_ctx_def opt_str_def nonempty_str_def)
  have "model_blocked_over_budget (Some ''opus'') [''opus''] [] False" by code_simp
  then have "pr_action r = DENY"
    using over_budget_engine_denies [OF e fx_budget fx_resolve _ _ _ spend, where spec = "fx_spec ''budget''"] model
    by (simp add: unconditional_def fx_spec_def fx_ctx_def)
  with e show ?thesis by blast
qed


lemma evaluate_single:
  assumes "en_policies en = [p]" and "unconditional (pol_spec p)"
    and "dispatch_policy p (prepare_ctx en ctx) (context_bundle en) = (v, p)"
  shows "verdicts en ctx = [(pol_spec p, v)]" and "policies_after en ctx = [p]"
  using assms should_fire_unconditional [OF assms(2), of "en_labels en" "prepare_ctx en ctx"]
  by (simp_all add: verdicts_def policies_after_def Let_def split: prod.splits)

lemma dispatch_budget_same:
  "\<exists>v. dispatch_policy (budget_policy spec gate s0) ctx b = (v, budget_policy spec gate s0)"
  by (simp add: budget_policy_def dispatch_event_callable split: sum.splits)

text \<open>Setting one state key never raises; it reaches the cache whoever the key belongs to.\<close>

lemma apply_set:
  assumes "k \<noteq> USER_DAILY_ASK_APPROVED_STATE_KEY"
  shows "\<exists>en'. apply_state_updates today en [\<lparr>su_key = k, su_action = SET, su_value = v\<rparr>] = (Inr (), en') \<and>
    en_session_state en' = dset (en_session_state en) k v"
proof -
  let ?u = "\<lparr>su_key = k, su_action = SET, su_value = v\<rparr>"
  show ?thesis
  proof (cases "root_routed en ?u")
    case True
    with assms show ?thesis
      by (simp add: apply_state_updates_def record_root_cost_ask_approved_def apply_one.simps Let_def)
  next
    case False
    with assms show ?thesis by (simp add: apply_state_updates_def apply_one.simps)
  qed
qed

lemma approved_after_set:
  assumes "or_dict (pget ev ''session_state'') = dset d k (PFloat c)"
  shows "\<exists>a. approved_in_state ev k = Inr a \<and> c \<le> a"
  using assms by (simp add: approved_in_state_def pget_default_def)

lemma prepare_ctx_same_content: "(prepare_ctx en ctx)\<lparr>ec_content := ec_content ctx\<rparr> = prepare_ctx en ctx"
  using prepare_ctx_fields(2) [of en ctx] by (metis evaluation_context.surjective evaluation_context.update_convs(2))

lemma dispatch_budget_ask:
  assumes "dispatch_policy (budget_policy spec gate s0) (prepare_ctx en ctx) b = (v, p)" and "pr_action v = ASK"
  shows "\<exists>d. gate (engine_event en ctx (ec_content ctx)) = Inr d \<and> policy_result_from_dict (ps_name spec) d = Inr v"
  using assms unfolding budget_policy_def dispatch_event_callable engine_event_def prepare_ctx_same_content
  by (cases "gate (ev_fields (build_event (prepare_ctx en ctx)))")
    (auto simp: policy_result_of_def coerce_to_policy_result_def split: sum.splits)

lemma evaluate_allow_no_writes:
  assumes "verdicts en ctx = [(spec, policy_result_of ALLOW)]"
  shows "\<exists>r en'. evaluate_composed today en ctx ro = (Inr r, en') \<and> pr_action r = ALLOW"
  using assms
  by (simp add: evaluate_composed_spec compose_effects_def composed_result_def policy_result_of_def
      label_writes_def filter_writable_labels_def state_writes_def)


definition fx_warned :: pydict where
  "fx_warned = [(''total_cost_usd'', PFloat 3), (''input_tokens'', PInt 10)]"


text \<open>
  Approving a daily checkpoint is remembered for the session owner and the day, not for the
  session: the row that any engine of the same owner reads that day carries the approved value
  and the unchanged spend, the engine's own snapshot carries it too, no session state changes, and the approved value
  is what the daily gate reads from the next event of this engine.
\<close>

theorem daily_approval_is_shared:
  assumes "get_session_owner (en_store en) (en_conversation_id en) = Some owner"
    and "en_user_daily_cost en = Some d"
  shows "\<exists>en'. apply_state_updates today en
        [\<lparr>su_key = USER_DAILY_ASK_APPROVED_STATE_KEY, su_action = SET, su_value = PFloat c\<rparr>] = (Inr (), en') \<and>
    get_daily_cost_state (en_store en') owner today =
      [(''cost_usd'', PFloat (get_daily_cost (en_store en) owner today)), (''ask_approved_usd'', PFloat c)] \<and>
    en_user_daily_cost en' = Some (dset d ''ask_approved_usd'' (PFloat c)) \<and>
    en_session_state en' = en_session_state en \<and> st_rows (en_store en') = st_rows (en_store en) \<and>
    user_daily_ask_approved_usd (engine_event en' ctx content) = c"
proof -
  let ?u = "\<lparr>su_key = USER_DAILY_ASK_APPROVED_STATE_KEY, su_action = SET, su_value = PFloat c\<rparr>"
  let ?en = "record_user_daily_ask_approved today en (PFloat c)"
  have "apply_state_updates today en [?u] = (Inr (), ?en)" by (simp add: apply_state_updates_def)
  moreover have rec: "?en = en\<lparr>en_store := set_daily_ask_approved (en_store en) owner today c,
      en_user_daily_cost := Some (dset d ''ask_approved_usd'' (PFloat c))\<rparr>"
    using assms by (simp add: record_user_daily_ask_approved_def)
  moreover have "user_daily_ask_approved_usd (engine_event ?en ctx content) = c"
    by (simp add: rec user_daily_ask_approved_usd_def engine_event_def build_event_context pget_def opt_dict_def
        prepare_ctx_model or_dict_def pget_default_def float_or_zero_def)
  ultimately show ?thesis
    by (simp add: get_daily_cost_state_def set_daily_ask_approved_def get_daily_cost_def split: option.splits)
qed

theorem daily_approval_is_shared_witness:
  "\<exists>en'. apply_state_updates ''2026-01-01'' ((fx_engine [] None ''root'')\<lparr>en_user_daily_cost := Some []\<rparr>)
        [\<lparr>su_key = USER_DAILY_ASK_APPROVED_STATE_KEY, su_action = SET, su_value = PFloat 2\<rparr>] = (Inr (), en') \<and>
     get_daily_cost_state (en_store en') ''alice'' ''2026-01-01'' =
       [(''cost_usd'', PFloat 0), (''ask_approved_usd'', PFloat 2)]"
proof -
  let ?en = "(fx_engine [] None ''root'')\<lparr>en_user_daily_cost := Some []\<rparr>"
  have owner: "get_session_owner (en_store ?en) (en_conversation_id ?en) = Some ''alice''"
    by (simp add: fx_engine_def init_engine_def get_session_owner_def fx_store_def RESERVED_USER_PUBLIC_def)
  have daily: "en_user_daily_cost ?en = Some []" by simp
  have "get_daily_cost (en_store ?en) ''alice'' ''2026-01-01'' = 0"
    by (simp add: fx_engine_def init_engine_def get_daily_cost_def fx_store_def)
  with daily_approval_is_shared [OF owner daily, of "''2026-01-01''" 2] show ?thesis by auto
qed

end
