(* ===== verification/Safety.thy ===== *)
theory Safety
  imports CostBudget
begin

text \<open>
  Built-in safety policies (\<^verbatim>\<open>policies/builtins/safety.py\<close>): the session-wide tool-call limit,
  the approval of file and shell tools, the approval of policy installation, the skill block
  list and the forced sandbox. Each evaluator maps the event dictionary to the response
  dictionary, or raises as the source does. The PII scanner (regular expressions) is not
  part of this theory.
\<close>

section \<open>Helpers\<close>

text \<open>Membership of a value in a frozenset of strings: unhashable values raise.\<close>

definition in_strs :: "pyval \<Rightarrow> string list \<Rightarrow> bool res" where
  "in_strs v xs =
     (case v of
        PList l \<Rightarrow> Inl (TypeError (''unhashable type: '' @ quoted ''list''))
      | PDict d \<Rightarrow> Inl (TypeError (''unhashable type: '' @ quoted ''dict''))
      | PStr s \<Rightarrow> Inr (s \<in> set xs)
      | _ \<Rightarrow> Inr False)"

definition is_tool_call :: "pydict \<Rightarrow> bool" where
  "is_tool_call ev \<longleftrightarrow> pget ev ''type'' = PStr ''tool_call''"

section \<open>Rate limiting\<close>

definition TOOL_CALL_COUNT_KEY :: string where
  "TOOL_CALL_COUNT_KEY = ''_policy_tool_call_count''"

definition max_tool_calls_per_session :: "int \<Rightarrow> pydict \<Rightarrow> pydict res" where
  "max_tool_calls_per_session limit ev =
     (if \<not> is_tool_call ev then Inr ALLOW_RESPONSE
      else
        bind_res (py_int (pget_default (or_dict (pget ev ''session_state'')) TOOL_CALL_COUNT_KEY (PInt 0)))
          (\<lambda>count.
             if limit \<le> count then
               Inr (deny_response (''Exceeded '' @ str_of_int limit @ '' tool calls this session''))
             else
               Inr [(''result'', PStr ''ALLOW''),
                    (''state_updates'', PList [PDict [(''key'', PStr TOOL_CALL_COUNT_KEY),
                       (''action'', PStr ''increment''), (''value'', PInt 1)]])]))"

section \<open>OS tool approval\<close>

definition SYS_OS_TOOLS :: "string list" where
  "SYS_OS_TOOLS = [''sys_os_read'', ''sys_os_write'', ''sys_os_edit'', ''sys_os_shell'']"

definition NATIVE_OS_TOOLS :: "string list" where
  "NATIVE_OS_TOOLS = [''Bash'', ''Read'', ''Write'', ''Edit'', ''Glob'', ''Grep'']"

definition CURSOR_NATIVE_OS_TOOLS :: "string list" where
  "CURSOR_NATIVE_OS_TOOLS = [''Shell'']"

definition PI_NATIVE_OS_TOOLS :: "string list" where
  "PI_NATIVE_OS_TOOLS = [''read'', ''bash'', ''write'', ''edit'']"

definition HERMES_OS_TOOLS :: "string list" where
  "HERMES_OS_TOOLS = [''terminal'', ''execute_code'', ''read_file'', ''write_file'', ''search_files'']"

definition GOOSE_NATIVE_OS_TOOLS :: "string list" where
  "GOOSE_NATIVE_OS_TOOLS =
     [''developer__shell'', ''developer__write'', ''developer__edit'', ''developer__text_editor'',
      ''developer__read_image'', ''developer__tree'']"

definition OPENCODE_NATIVE_OS_TOOLS :: "string list" where
  "OPENCODE_NATIVE_OS_TOOLS = [''bash'', ''edit'', ''read'', ''grep'', ''glob'']"

definition all_os_tools :: "string list" where
  "all_os_tools =
     SYS_OS_TOOLS @ NATIVE_OS_TOOLS @ CURSOR_NATIVE_OS_TOOLS @ PI_NATIVE_OS_TOOLS @ HERMES_OS_TOOLS @
     GOOSE_NATIVE_OS_TOOLS @ OPENCODE_NATIVE_OS_TOOLS"

text \<open>\<^verbatim>\<open>v[:80]\<close>.\<close>

definition slice80 :: "pyval \<Rightarrow> pyval res" where
  "slice80 v =
     (case v of
        PStr s \<Rightarrow> Inr (PStr (take 80 s))
      | PList xs \<Rightarrow> Inr (PList (take 80 xs))
      | _ \<Rightarrow> Inl (TypeError (quoted (type_name v) @ '' object is not subscriptable'')))"

definition tool_preview :: "string \<Rightarrow> pyval \<Rightarrow> pyval res" where
  "tool_preview tool args =
     (case args of
        PDict a \<Rightarrow>
          (if tool \<in> set [''sys_os_shell'', ''Bash'', ''bash'', ''Shell'', ''terminal'', ''developer__shell''] then
             Inr (pget_default a ''command'' (PStr []))
           else if tool \<in> set [''Grep'', ''Glob'', ''search_files'', ''grep'', ''glob''] then
             Inr (pget_default a ''pattern'' (PStr []))
           else if tool = ''execute_code'' then slice80 (pget_default a ''code'' (PStr []))
           else Inr (if truthy (pget a ''path'') then pget a ''path''
                     else pget_default a ''file_path'' (PStr [])))
      | _ \<Rightarrow> Inr (PStr []))"

definition ask_on_os_tools :: "pydict \<Rightarrow> pydict res" where
  "ask_on_os_tools ev =
     (if \<not> is_tool_call ev then Inr ALLOW_RESPONSE
      else (case pget ev ''data'' of
        PDict data \<Rightarrow>
          bind_res (in_strs (pget_default data ''name'' (PStr [])) all_os_tools) (\<lambda>os_tool.
            if os_tool then
              (let tool = py_str (pget_default data ''name'' (PStr []))
               in bind_res (tool_preview tool (pget_default data ''arguments'' (PDict []))) (\<lambda>preview.
                    Inr [(''result'', PStr ''ASK''),
                         (''reason'', PStr (''Agent wants to call '' @ tool @ ''('' @ py_repr preview @ ''). Approve?''))]))
            else Inr ALLOW_RESPONSE)
      | _ \<Rightarrow> Inr ALLOW_RESPONSE))"

section \<open>Policy installation approval\<close>

definition add_policy_preview :: "pyval \<Rightarrow> string" where
  "add_policy_preview args =
     (case args of
        PDict a \<Rightarrow>
          (let policy_name = pget_default a ''name'' (PStr []); handler = pget_default a ''handler'' (PStr [])
           in if truthy handler then py_str policy_name @ '' ('' @ py_str handler @ '')'' else py_str policy_name)
      | _ \<Rightarrow> [])"

definition ask_on_add_policy :: "pydict \<Rightarrow> pydict res" where
  "ask_on_add_policy ev =
     (if \<not> is_tool_call ev then Inr ALLOW_RESPONSE
      else (case pget ev ''data'' of
        PDict data \<Rightarrow>
          (if pget data ''name'' \<noteq> PStr ''sys_add_policy'' then Inr ALLOW_RESPONSE
           else Inr [(''result'', PStr ''ASK''),
                     (''reason'', PStr (''Agent wants to add policy: '' @
                        add_policy_preview (pget data ''arguments'') @ ''. Approve?''))])
      | _ \<Rightarrow> Inr ALLOW_RESPONSE))"

section \<open>Skill blocking\<close>

definition SKILL_TOOLS :: "string list" where
  "SKILL_TOOLS = [''load_skill'', ''read_skill_file'']"

definition NATIVE_SKILL_TOOL :: string where
  "NATIVE_SKILL_TOOL = ''Skill''"

definition skill_denied :: "string \<Rightarrow> pydict" where
  "skill_denied name = deny_response (''Skill '' @ quoted name @ '' is blocked by policy'')"

text \<open>\<^verbatim>\<open>skill_name and skill_name.lower() in blocked_lower\<close>.\<close>

definition skill_verdict :: "string list \<Rightarrow> pyval \<Rightarrow> pydict res" where
  "skill_verdict blocked v =
     (if \<not> truthy v then Inr ALLOW_RESPONSE
      else (case v of
        PStr s \<Rightarrow> Inr (if str_lower s \<in> str_lower ` set blocked then skill_denied s else ALLOW_RESPONSE)
      | _ \<Rightarrow> Inl (AttributeError (quoted (type_name v) @ '' object has no attribute '' @ quoted ''lower''))))"

definition block_skills :: "string list \<Rightarrow> pydict \<Rightarrow> pydict res" where
  "block_skills blocked ev =
     (if is_tool_call ev then
        (case pget ev ''data'' of
           PDict data \<Rightarrow>
             (let tool = pget_default data ''name'' (PStr [])
              in case pget data ''arguments'' of
                   PDict args \<Rightarrow>
                     bind_res (in_strs tool SKILL_TOOLS) (\<lambda>runner_tool.
                       if runner_tool then
                         skill_verdict blocked
                           (if tool = PStr ''load_skill'' then pget args ''name'' else pget args ''skill_name'')
                       else if tool = PStr NATIVE_SKILL_TOOL then skill_verdict blocked (pget args ''skill'')
                       else Inr ALLOW_RESPONSE)
                 | _ \<Rightarrow> Inr ALLOW_RESPONSE)
         | _ \<Rightarrow> Inr ALLOW_RESPONSE)
      else if pget ev ''type'' = PStr ''request'' then
        (let text = (case pget ev ''data'' of PStr s \<Rightarrow> s | _ \<Rightarrow> [])
         in if startswith text ''/'' then
              (let command = (case split_ws1 (tl text) of [] \<Rightarrow> [] | t # ts \<Rightarrow> t)
               in Inr (if str_lower command \<in> str_lower ` set blocked then skill_denied command else ALLOW_RESPONSE))
            else Inr ALLOW_RESPONSE)
      else Inr ALLOW_RESPONSE)"

section \<open>Sandbox enforcement\<close>

definition AGENT_START_TOOL :: string where
  "AGENT_START_TOOL = ''sys_agent_start''"

definition SANDBOX_OVERRIDE_KEYS :: "string list" where
  "SANDBOX_OVERRIDE_KEYS =
     [''type'', ''read_paths'', ''write_paths'', ''write_files'', ''allow_network'', ''cwd_allow_hidden'',
      ''env_passthrough'', ''egress_rules'', ''egress_allow_private_destinations'',
      ''cwd_hidden_scan_max_entries'', ''cwd_hidden_scan_overflow'']"

definition str_list_entry :: "string \<Rightarrow> string list option \<Rightarrow> pydict" where
  "str_list_entry k v = (case v of None \<Rightarrow> [] | Some xs \<Rightarrow> [(k, PList (map PStr xs))])"

definition sandbox_override ::
    "string \<Rightarrow> bool \<Rightarrow> string list option \<Rightarrow> string list option \<Rightarrow> string list option \<Rightarrow> pydict" where
  "sandbox_override sandbox_type allow_network write_paths read_paths env_passthrough =
     [(''type'', PStr sandbox_type), (''allow_network'', PBool allow_network)] @
     str_list_entry ''write_paths'' write_paths @ str_list_entry ''read_paths'' read_paths @
     str_list_entry ''env_passthrough'' env_passthrough"

definition enforce_sandbox ::
    "string \<Rightarrow> bool \<Rightarrow> string list option \<Rightarrow> string list option \<Rightarrow> string list option \<Rightarrow> pydict \<Rightarrow> pydict res" where
  "enforce_sandbox sandbox_type allow_network write_paths read_paths env_passthrough ev =
     (if \<not> is_tool_call ev then Inr ALLOW_RESPONSE
      else (case pget ev ''data'' of
        PDict data \<Rightarrow>
          (if pget_default data ''name'' (PStr []) \<noteq> PStr AGENT_START_TOOL then Inr ALLOW_RESPONSE
           else
             (let args = or_dict (pget data ''arguments'');
                  sb = pget args ''sandbox''
              in bind_res (if \<not> truthy sb then Inr []
                           else (case sb of
                             PDict d \<Rightarrow> Inr d
                           | _ \<Rightarrow> Inl (TypeError (quoted (type_name sb) @ '' object is not a mapping''))))
                   (\<lambda>current.
                     let forced = filter (\<lambda>(k, v). k \<in> set SANDBOX_OVERRIDE_KEYS)
                           (dupdate current
                              (sandbox_override sandbox_type allow_network write_paths read_paths env_passthrough))
                     in Inr [(''result'', PStr ''ALLOW''),
                             (''data'', PDict [(''name'', PStr AGENT_START_TOOL),
                                (''arguments'', PDict (dset args ''sandbox'' (PDict forced)))])])))
      | _ \<Rightarrow> Inr ALLOW_RESPONSE))"

section \<open>Lemmas\<close>

lemma is_tool_call_event [simp]: "is_tool_call (ev_fields (build_event ctx)) \<longleftrightarrow> ec_phase ctx = TOOL_CALL"
  by (cases "ec_phase ctx") (simp_all add: is_tool_call_def)

lemma ask_on_add_policy_asks:
  assumes "is_tool_call ev" and "pget ev ''data'' = PDict data" and "pget data ''name'' = PStr ''sys_add_policy''"
  shows "\<exists>why. ask_on_add_policy ev = Inr [(''result'', PStr ''ASK''), (''reason'', PStr why)]"
  using assms by (simp add: ask_on_add_policy_def)

text \<open>What the sandbox policy forces on the start of an agent.\<close>

lemma dict_ok_override: "dict_ok (sandbox_override t n w r e)"
  by (auto simp: dict_ok_def sandbox_override_def str_list_entry_def split: option.splits)

lemma dget_override:
  "dget (sandbox_override t n w r e) ''type'' = Some (PStr t)"
  "dget (sandbox_override t n w r e) ''allow_network'' = Some (PBool n)"
  "dget (sandbox_override t n w r e) ''write_paths'' = map_option (\<lambda>xs. PList (map PStr xs)) w"
  "dget (sandbox_override t n w r e) ''read_paths'' = map_option (\<lambda>xs. PList (map PStr xs)) r"
  by (simp_all add: sandbox_override_def str_list_entry_def split: option.splits)

lemma forced_lookup:
  "dget (filter (\<lambda>(k, v). k \<in> set SANDBOX_OVERRIDE_KEYS) (dupdate cur (sandbox_override t n w r e))) k =
   (if k \<in> set SANDBOX_OVERRIDE_KEYS then
      (case dget (sandbox_override t n w r e) k of None \<Rightarrow> dget cur k | Some v \<Rightarrow> Some v)
    else None)"
  by (simp add: map_of_filter_key dget_dupdate dict_ok_override)

end
