(* ===== verification/SafetyProperties.thy ===== *)
theory SafetyProperties
  imports PolicyProperties Safety
begin

text \<open>
  Properties of the built-in safety policies, through the engine where the behaviour spans
  several evaluations.
\<close>

section \<open>The tool-call limit over a session\<close>

fun run_calls :: "string \<Rightarrow> 's engine \<Rightarrow> evaluation_context list \<Rightarrow> policy_action option list \<times> 's engine" where
  "run_calls today en [] = ([], en)"
| "run_calls today en (ctx # ctxs) =
     (case evaluate_composed today en ctx False of
        (x, en1) \<Rightarrow>
          (case run_calls today en1 ctxs of
             (as, en2) \<Rightarrow> ((case x of Inr r \<Rightarrow> Some (pr_action r) | Inl e \<Rightarrow> None) # as, en2)))"

definition call_count :: "'s engine \<Rightarrow> pyval" where
  "call_count en = pget_default (en_session_state en) TOOL_CALL_COUNT_KEY (PInt 0)"

definition limit_policy :: "policy_spec \<Rightarrow> int \<Rightarrow> 's \<Rightarrow> 's policy" where
  "limit_policy spec limit s0 = budget_policy spec (max_tool_calls_per_session limit) s0"

lemma str_lower_increment [simp]: "str_lower ''increment'' = ''increment''"
  by code_simp

definition count_update :: state_update where
  "count_update = \<lparr>su_key = TOOL_CALL_COUNT_KEY, su_action = INCREMENT, su_value = PInt 1\<rparr>"

lemma limit_dispatch:
  assumes "ec_phase ctx = TOOL_CALL" and "call_count en = PInt k"
  shows "dispatch_policy (limit_policy spec limit s0) (prepare_ctx en ctx) b =
    (if limit \<le> k
     then ((policy_result_of DENY)\<lparr>pr_reason := PStr (''Exceeded '' @ str_of_int limit @ '' tool calls this session'')\<rparr>,
           limit_policy spec limit s0)
     else ((policy_result_of ALLOW)\<lparr>pr_state_updates := Some [count_update]\<rparr>, limit_policy spec limit s0))"
proof -
  let ?ev = "ev_fields (build_event (prepare_ctx en ctx))"
  have "or_dict (pget ?ev ''session_state'') = en_session_state en" by (simp add: opt_dict_def or_dict_def)
  then have g: "max_tool_calls_per_session limit ?ev =
      (if limit \<le> k then Inr (deny_response (''Exceeded '' @ str_of_int limit @ '' tool calls this session''))
       else Inr [(''result'', PStr ''ALLOW''), (''state_updates'', PList [PDict [(''key'', PStr TOOL_CALL_COUNT_KEY),
          (''action'', PStr ''increment''), (''value'', PInt 1)]])])"
    using assms by (simp add: max_tool_calls_per_session_def call_count_def py_int_def)
  have allow: "policy_result_from_dict n [(''result'', PStr ''ALLOW''), (''state_updates'',
      PList [PDict [(''key'', PStr TOOL_CALL_COUNT_KEY), (''action'', PStr ''increment''), (''value'', PInt 1)]])] =
      Inr ((policy_result_of ALLOW)\<lparr>pr_state_updates := Some [count_update]\<rparr>)" for n
    by (simp add: policy_result_from_dict_def pget_def policy_action_of_def coerce_state_updates_def dict_or_none_def
        policy_result_of_def coerce_entry_def state_update_action_of_def or_none_def count_update_def)
  show ?thesis
  proof (cases "limit \<le> k")
    case True
    then show ?thesis
      using dispatch_budget [of "max_tool_calls_per_session limit", OF _ response_results(2)] g by (simp add: limit_policy_def)
  next
    case False
    then show ?thesis
      using dispatch_budget [of "max_tool_calls_per_session limit", OF _ allow] g by (simp add: limit_policy_def)
  qed
qed

lemma apply_count:
  assumes "call_count en = PInt k"
  shows "\<exists>en'. apply_state_updates today en [count_update] = (Inr (), en') \<and> call_count en' = PInt (k + 1) \<and>
    en_policies en' = en_policies en"
proof -
  have "TOOL_CALL_COUNT_KEY \<noteq> USER_DAILY_ASK_APPROVED_STATE_KEY" "\<not> root_routed en count_update"
    by (simp_all add: root_routed_def count_update_def TOOL_CALL_COUNT_KEY_def USER_DAILY_ASK_APPROVED_STATE_KEY_def
        SESSION_COST_ASK_APPROVED_STATE_KEY_def SESSION_COST_UNPRICED_APPROVED_KEY_def)
  moreover have "apply_one (en_session_state en) count_update =
      Inr (dset (en_session_state en) TOOL_CALL_COUNT_KEY (PInt (k + 1)))"
    using assms by (simp add: apply_one.simps count_update_def call_count_def py_add_int)
  ultimately show ?thesis
    by (simp add: apply_state_updates_def call_count_def pget_default_def) (simp add: count_update_def)
qed

lemma limit_step:
  assumes "en_policies en = [limit_policy spec limit s0]" and "unconditional spec"
    and "ec_phase ctx = TOOL_CALL" and "call_count en = PInt k"
  shows "\<exists>r en'. evaluate_composed today en ctx False = (Inr r, en') \<and>
    pr_action r = (if limit \<le> k then DENY else ALLOW) \<and> en_policies en' = [limit_policy spec limit s0] \<and>
    call_count en' = PInt (if limit \<le> k then k else k + 1)"
proof -
  let ?p = "limit_policy spec limit s0"
  let ?en1 = "en\<lparr>en_policies := [?p]\<rparr>"
  obtain v where v: "dispatch_policy ?p (prepare_ctx en ctx) (context_bundle en) = (v, ?p)"
    and vr: "v = (if limit \<le> k
       then (policy_result_of DENY)\<lparr>pr_reason := PStr (''Exceeded '' @ str_of_int limit @ '' tool calls this session'')\<rparr>
       else (policy_result_of ALLOW)\<lparr>pr_state_updates := Some [count_update]\<rparr>)"
    using limit_dispatch [OF assms(3,4), of spec limit s0 "context_bundle en"] by (cases "limit \<le> k") auto
  have spec: "pol_spec ?p = spec" by (simp add: limit_policy_def)
  have vs: "verdicts en ctx = [(spec, v)]" "policies_after en ctx = [?p]"
    using evaluate_single [OF assms(1) _ v] assms(2) by (simp_all add: spec)
  have c1: "call_count ?en1 = PInt k" using assms(4) by (simp add: call_count_def)
  obtain en' where a: "apply_state_updates today ?en1 [count_update] = (Inr (), en')"
    "call_count en' = PInt (k + 1)" "en_policies en' = [?p]"
    using apply_count [OF c1] by auto
  show ?thesis
  proof (cases "limit \<le> k")
    case True
    then show ?thesis using vs vr c1
      by (simp add: evaluate_composed_spec compose_effects_def composed_result_def policy_result_of_def
          label_writes_def filter_writable_labels_def state_writes_def)
  next
    case False
    then show ?thesis using vs vr a
      by (simp add: evaluate_composed_spec compose_effects_def composed_result_def policy_result_of_def
          label_writes_def filter_writable_labels_def state_writes_def)
  qed
qed

lemma run_calls_limit:
  assumes "en_policies en = [limit_policy spec limit s0]" and "unconditional spec"
    and "\<forall>ctx \<in> set ctxs. ec_phase ctx = TOOL_CALL" and "call_count en = PInt k"
  shows "fst (run_calls today en ctxs) =
    replicate (min (length ctxs) (nat (limit - k))) (Some ALLOW) @ replicate (length ctxs - nat (limit - k)) (Some DENY)"
  using assms
proof (induction ctxs arbitrary: en k)
  case Nil
  then show ?case by simp
next
  case (Cons ctx ctxs)
  from Cons.prems limit_step [of en spec limit s0 ctx k today]
  obtain r en1 where e: "evaluate_composed today en ctx False = (Inr r, en1)"
    "pr_action r = (if limit \<le> k then DENY else ALLOW)" "en_policies en1 = [limit_policy spec limit s0]"
    "call_count en1 = PInt (if limit \<le> k then k else k + 1)" by auto
  from Cons.IH [OF e(3) Cons.prems(2) _ e(4)] Cons.prems(3) have
    rest: "fst (run_calls today en1 ctxs) = (let j = (if limit \<le> k then k else k + 1) in
      replicate (min (length ctxs) (nat (limit - j))) (Some ALLOW) @
      replicate (length ctxs - nat (limit - j)) (Some DENY))" by (simp add: Let_def)
  have head: "fst (run_calls today en (ctx # ctxs)) = Some (pr_action r) # fst (run_calls today en1 ctxs)"
    by (simp add: e(1) split: prod.splits)
  show ?case
  proof (cases "limit \<le> k")
    case True
    with head rest e(2) show ?thesis by simp
  next
    case False
    then have "nat (limit - k) = Suc (nat (limit - (k + 1)))" by simp
    with False head rest e(2) show ?thesis by (simp add: Let_def)
  qed
qed

text \<open>
  the tool-call limit holds over a whole session: on an engine with only this policy and no
  earlier count, of any sequence of tool calls the first \<open>limit\<close> are allowed and every later one is denied.
\<close>

theorem tool_call_limit_over_session:
  assumes "en_policies en = [limit_policy spec limit s0]" and "unconditional spec"
    and "\<forall>ctx \<in> set ctxs. ec_phase ctx = TOOL_CALL" and "dget (en_session_state en) TOOL_CALL_COUNT_KEY = None"
  shows "fst (run_calls today en ctxs) =
    replicate (min (length ctxs) (nat limit)) (Some ALLOW) @ replicate (length ctxs - nat limit) (Some DENY)"
  using run_calls_limit [OF assms(1-3), of 0] assms(4) by (simp add: call_count_def pget_default_def)

theorem tool_call_limit_over_session_witness:
  "fst (run_calls ''d'' (fx_engine [limit_policy (fx_spec ''limit'') 2 ()] None ''root'')
      [fx_ctx TOOL_CALL, fx_ctx TOOL_CALL, fx_ctx TOOL_CALL]) = [Some ALLOW, Some ALLOW, Some DENY]"
  using tool_call_limit_over_session [of "fx_engine [limit_policy (fx_spec ''limit'') 2 ()] None ''root''"
      "fx_spec ''limit''" 2 "()" "[fx_ctx TOOL_CALL, fx_ctx TOOL_CALL, fx_ctx TOOL_CALL]" "''d''"]
  by (simp add: fx_ctx_def unconditional_def fx_spec_def numeral_3_eq_3 numeral_2_eq_2)
    (simp add: fx_engine_def init_engine_def)

section \<open>Forced sandbox, blocked skills, asked tools\<close>

text \<open>
  starting an agent under the sandbox policy: the call is allowed with rewritten arguments whose sandbox
  has the forced backend and network setting, has the forced paths where the policy sets
  them and the agent's own entries otherwise (none when it declares no sandbox), contains no key
  outside the supported ones, and leaves every other argument as it was.
\<close>

theorem sandbox_is_forced:
  assumes "is_tool_call ev" and "pget ev ''data'' = PDict data" and "pget data ''name'' = PStr AGENT_START_TOOL"
    and "pget (or_dict (pget data ''arguments'')) ''sandbox'' = PDict cur \<or>
         pget (or_dict (pget data ''arguments'')) ''sandbox'' = PNone \<and> cur = []"
  shows "\<exists>args sb. enforce_sandbox t net w rd env ev =
        Inr [(''result'', PStr ''ALLOW''),
             (''data'', PDict [(''name'', PStr AGENT_START_TOOL), (''arguments'', PDict args)])] \<and>
    dget args ''sandbox'' = Some (PDict sb) \<and>
    (\<forall>k. k \<noteq> ''sandbox'' \<longrightarrow> dget args k = dget (or_dict (pget data ''arguments'')) k) \<and>
    dget sb ''type'' = Some (PStr t) \<and> dget sb ''allow_network'' = Some (PBool net) \<and>
    dget sb ''write_paths'' = (case w of None \<Rightarrow> dget cur ''write_paths'' | Some ps \<Rightarrow> Some (PList (map PStr ps))) \<and>
    (\<forall>k. k \<notin> set SANDBOX_OVERRIDE_KEYS \<longrightarrow> dget sb k = None)"
proof -
  let ?args = "or_dict (pget data ''arguments'')"
  let ?sb = "filter (\<lambda>(k, v). k \<in> set SANDBOX_OVERRIDE_KEYS) (dupdate cur (sandbox_override t net w rd env))"
  have keys: "''type'' \<in> set SANDBOX_OVERRIDE_KEYS" "''allow_network'' \<in> set SANDBOX_OVERRIDE_KEYS"
    "''write_paths'' \<in> set SANDBOX_OVERRIDE_KEYS"
    by (simp_all add: SANDBOX_OVERRIDE_KEYS_def)
  have name: "pget_default data ''name'' (PStr []) = PStr AGENT_START_TOOL"
    using assms(3) by (auto simp: pget_def pget_default_def AGENT_START_TOOL_def split: option.splits)
  have "enforce_sandbox t net w rd env ev = Inr [(''result'', PStr ''ALLOW''),
      (''data'', PDict [(''name'', PStr AGENT_START_TOOL), (''arguments'', PDict (dset ?args ''sandbox'' (PDict ?sb)))])]"
    using assms name by (cases cur) (auto simp: enforce_sandbox_def Let_def)
  moreover have "dget ?sb ''type'' = Some (PStr t)" "dget ?sb ''allow_network'' = Some (PBool net)"
    "dget ?sb ''write_paths'' = (case w of None \<Rightarrow> dget cur ''write_paths'' | Some ps \<Rightarrow> Some (PList (map PStr ps)))"
    "\<forall>k. k \<notin> set SANDBOX_OVERRIDE_KEYS \<longrightarrow> dget ?sb k = None"
    using keys by (simp_all add: forced_lookup dget_override split: option.splits)
  moreover have "dget (dset ?args ''sandbox'' (PDict ?sb)) ''sandbox'' = Some (PDict ?sb)"
    "\<forall>k. k \<noteq> ''sandbox'' \<longrightarrow> dget (dset ?args ''sandbox'' (PDict ?sb)) k = dget ?args k" by simp_all
  ultimately show ?thesis by blast
qed

definition fx_start :: pydict where
  "fx_start =
     [(''type'', PStr ''tool_call''),
      (''data'', PDict [(''name'', PStr ''sys_agent_start''),
         (''arguments'', PDict [(''agent'', PStr ''coder''),
            (''sandbox'', PDict [(''type'', PStr ''none''), (''write_paths'', PList [PStr ''/'']), (''hack'', PInt 1)])])])]"

theorem sandbox_is_forced_witness:
  "\<exists>args sb. enforce_sandbox ''linux_bwrap'' False None None None fx_start =
        Inr [(''result'', PStr ''ALLOW''),
             (''data'', PDict [(''name'', PStr AGENT_START_TOOL), (''arguments'', PDict args)])] \<and>
     dget args ''sandbox'' = Some (PDict sb) \<and> dget sb ''type'' = Some (PStr ''linux_bwrap'') \<and> dget sb ''hack'' = None"
proof -
  let ?cur = "[(''type'', PStr ''none''), (''write_paths'', PList [PStr ''/'']), (''hack'', PInt 1)]"
  let ?data = "[(''name'', PStr ''sys_agent_start''),
      (''arguments'', PDict [(''agent'', PStr ''coder''), (''sandbox'', PDict ?cur)])]"
  have "is_tool_call fx_start" "pget fx_start ''data'' = PDict ?data"
    "pget ?data ''name'' = PStr AGENT_START_TOOL"
    "pget (or_dict (pget ?data ''arguments'')) ''sandbox'' = PDict ?cur \<or>
     pget (or_dict (pget ?data ''arguments'')) ''sandbox'' = PNone \<and> ?cur = []"
    by (simp_all add: is_tool_call_def fx_start_def pget_def AGENT_START_TOOL_def or_dict_def)
  note sandbox_is_forced [OF this, of "''linux_bwrap''" False None None None]
  moreover have "''hack'' \<notin> set SANDBOX_OVERRIDE_KEYS" by (simp add: SANDBOX_OVERRIDE_KEYS_def)
  ultimately show ?thesis by blast
qed

text \<open>
  A blocked skill cannot be loaded by any of the three paths, in any letter case: the runner tools
  \<^verbatim>\<open>load_skill\<close> and \<^verbatim>\<open>read_skill_file\<close>, the native \<^verbatim>\<open>Skill\<close> tool, and a slash command at the request
  phase with or without arguments.
\<close>

theorem blocked_skill_is_denied:
  assumes "b \<in> set blocked" and "str_lower name = str_lower b" and "name \<noteq> []" and "\<forall>c \<in> set name. \<not> is_space c"
    and "(pget ev ''type'' = PStr ''tool_call'' \<and>
          (\<exists>data args. pget ev ''data'' = PDict data \<and> pget data ''arguments'' = PDict args \<and>
             (pget data ''name'' = PStr ''load_skill'' \<and> pget args ''name'' = PStr name \<or>
              pget data ''name'' = PStr ''read_skill_file'' \<and> pget args ''skill_name'' = PStr name \<or>
              pget data ''name'' = PStr ''Skill'' \<and> pget args ''skill'' = PStr name))) \<or>
         (pget ev ''type'' = PStr ''request'' \<and>
          (pget ev ''data'' = PStr (''/'' @ name) \<or> (\<exists>rest. pget ev ''data'' = PStr (''/'' @ name @ '' '' @ rest))))"
  shows "block_skills blocked ev = Inr (skill_denied name)"
proof -
  have low: "str_lower name \<in> str_lower ` set blocked" using assms(1,2) by auto
  have v: "skill_verdict blocked (PStr name) = Inr (skill_denied name)" using low assms(3) by (simp add: skill_verdict_def)
  have dflt: "pget_default d k (PStr []) = PStr s" if "pget d k = PStr s" for d k s
    using that by (auto simp: pget_def pget_default_def split: option.splits)
  from assms(5) show ?thesis
  proof
    assume "pget ev ''type'' = PStr ''tool_call'' \<and>
      (\<exists>data args. pget ev ''data'' = PDict data \<and> pget data ''arguments'' = PDict args \<and>
             (pget data ''name'' = PStr ''load_skill'' \<and> pget args ''name'' = PStr name \<or>
              pget data ''name'' = PStr ''read_skill_file'' \<and> pget args ''skill_name'' = PStr name \<or>
              pget data ''name'' = PStr ''Skill'' \<and> pget args ''skill'' = PStr name))"
    then obtain data args where tc: "is_tool_call ev" and d: "pget ev ''data'' = PDict data" "pget data ''arguments'' = PDict args"
      and path: "pget data ''name'' = PStr ''load_skill'' \<and> pget args ''name'' = PStr name \<or>
        pget data ''name'' = PStr ''read_skill_file'' \<and> pget args ''skill_name'' = PStr name \<or>
        pget data ''name'' = PStr ''Skill'' \<and> pget args ''skill'' = PStr name"
      by (auto simp: is_tool_call_def)
    from path show ?thesis
      by (elim disjE conjE) (simp_all add: block_skills_def tc d dflt in_strs_def SKILL_TOOLS_def NATIVE_SKILL_TOOL_def v)
  next
    assume req: "pget ev ''type'' = PStr ''request'' \<and>
      (pget ev ''data'' = PStr (''/'' @ name) \<or> (\<exists>rest. pget ev ''data'' = PStr (''/'' @ name @ '' '' @ rest)))"
    then obtain x where x: "pget ev ''data'' = PStr (''/'' @ name @ x)" "x = [] \<or> (\<exists>y. x = '' '' @ y)" by auto
    from split_ws1_first [OF assms(4,3) x(2)] obtain ts where "split_ws1 (name @ x) = name # ts" by blast
    with req x low show ?thesis by (simp add: block_skills_def is_tool_call_def startswith_def)
  qed
qed

theorem blocked_skill_is_denied_witness:
  "block_skills [''Deploy''] [(''type'', PStr ''request''), (''data'', PStr ''/DEPLOY prod now'')] = Inr (skill_denied ''DEPLOY'')"
proof (rule blocked_skill_is_denied [of "''Deploy''"])
  show "str_lower ''DEPLOY'' = str_lower ''Deploy''" by code_simp
  show "\<forall>c \<in> set ''DEPLOY''. \<not> is_space c" by code_simp
qed (auto simp: pget_def)

text \<open>
  A tool call with a textual tool name that the file and shell approval answers at all is asked
  about exactly when the name is one of the listed tools; every other event is allowed.
\<close>

theorem os_tools_are_asked:
  assumes "is_tool_call ev" and "pget ev ''data'' = PDict data" and "dget data ''name'' = Some (PStr tool)"
    and "ask_on_os_tools ev = Inr d"
  shows "pget d ''result'' = PStr (if tool \<in> set all_os_tools then ''ASK'' else ''ALLOW'')"
proof -
  have name: "pget_default data ''name'' (PStr []) = PStr tool" using assms(3) by (simp add: pget_default_def)
  show ?thesis using assms(1,2,4) by (auto simp: ask_on_os_tools_def name in_strs_def ALLOW_RESPONSE_def pget_def Let_def split: if_splits)
qed

theorem os_tools_are_asked_witness:
  "pget (projr (ask_on_os_tools [(''type'', PStr ''tool_call''),
      (''data'', PDict [(''name'', PStr ''Bash''), (''arguments'', PDict [(''command'', PStr ''ls'')])])])) ''result'' = PStr ''ASK''"
proof -
  let ?data = "[(''name'', PStr ''Bash''), (''arguments'', PDict [(''command'', PStr ''ls'')])]"
  let ?ev = "[(''type'', PStr ''tool_call''), (''data'', PDict ?data)]"
  have "is_tool_call ?ev" "pget ?ev ''data'' = PDict ?data" "dget ?data ''name'' = Some (PStr ''Bash'')"
    by (simp_all add: is_tool_call_def pget_def)
  moreover obtain d where d: "ask_on_os_tools ?ev = Inr d"
    by (simp add: ask_on_os_tools_def is_tool_call_def pget_def pget_default_def in_strs_def all_os_tools_def
        NATIVE_OS_TOOLS_def tool_preview_def Let_def)
  ultimately have "pget d ''result'' = PStr (if ''Bash'' \<in> set all_os_tools then ''ASK'' else ''ALLOW'')"
    by (rule os_tools_are_asked)
  moreover have "''Bash'' \<in> set all_os_tools" by (simp add: all_os_tools_def NATIVE_OS_TOOLS_def)
  ultimately show ?thesis using d by simp
qed

end
