(* ===== verification/Builder.thy ===== *)
theory Builder
  imports FunctionPolicy Safety
begin

text \<open>
  Construction of the engine for a conversation (\<^verbatim>\<open>runtime/policies/builder.py\<close>): which policies run
  and in which order, label seeding, the session state and usage seeds with the walk over the
  spawn tree, and the assembly. The policy table is a map from a session to its stored
  policies in creation order; \<open>cap\<close> is the eviction of the bounded owner cache (cachetools); the
  policy LLM client (credentials and a network client) is an argument.
\<close>

section \<open>Inputs\<close>

record agent_spec =
  ag_guardrails :: "guardrails_spec option"
  ag_llm_model :: "string option"

record stored_policy =
  sp_id :: string
  sp_name :: string
  sp_type :: string
  sp_handler :: string
  sp_factory_params :: "pydict option"
  sp_enabled :: bool

definition USER_DAILY_COST_POLICY_PATH :: string where
  "USER_DAILY_COST_POLICY_PATH = ''omnigent.policies.builtins.cost.user_daily_cost_budget''"

definition SUBAGENT_COST_POLICY_PATH :: string where
  "SUBAGENT_COST_POLICY_PATH = ''omnigent.policies.builtins.cost.subagent_cost_budget''"

definition function_spec :: "string \<Rightarrow> string \<Rightarrow> pydict option \<Rightarrow> policy_spec" where
  "function_spec name path arguments =
     \<lparr>ps_name = name, ps_on = None, ps_condition = None, ps_ask_timeout = None,
      ps_function = Some \<lparr>fr_path = path, fr_arguments = arguments\<rparr>, ps_set_labels = None, ps_config = None\<rparr>"

definition ASK_ON_ADD_POLICY_SPEC :: policy_spec where
  "ASK_ON_ADD_POLICY_SPEC =
     function_spec ''__ask_on_add_policy'' ''omnigent.policies.builtins.safety.ask_on_add_policy'' None"

definition references :: "string \<Rightarrow> policy_spec \<Rightarrow> bool" where
  "references path s = (case ps_function s of Some fr \<Rightarrow> fr_path fr = path | None \<Rightarrow> False)"

definition needs_user_daily_cost :: "policy_spec list \<Rightarrow> bool" where
  "needs_user_daily_cost specs = (\<exists>s \<in> set specs. references USER_DAILY_COST_POLICY_PATH s)"

definition needs_subtree_usage :: "policy_spec list \<Rightarrow> bool" where
  "needs_subtree_usage specs = (\<exists>s \<in> set specs. references SUBAGENT_COST_POLICY_PATH s)"

section \<open>Stored policies\<close>

definition stored_policy_to_spec :: "stored_policy \<Rightarrow> policy_spec res" where
  "stored_policy_to_spec p =
     (if sp_type p = ''python'' then Inr (function_spec (sp_name p) (sp_handler p) (sp_factory_params p))
      else Inl (OmnigentError (''Session policy '' @ repr_str (sp_name p) @ '' (id '' @ repr_str (sp_id p) @
        '') has unsupported type '' @ repr_str (sp_type p) @ ''; only type='' @ quoted ''python'' @
        '' policies can be evaluated today. URL policy evaluation is a future extension. Remove or '' @
        ''disable this policy, since storing it does not enforce anything.'')))"

definition load_session_policy_specs ::
    "string \<Rightarrow> (string \<Rightarrow> stored_policy list) option \<Rightarrow> policy_spec list res" where
  "load_session_policy_specs cid policy_store =
     (case policy_store of
        None \<Rightarrow> Inr []
      | Some table \<Rightarrow> mapM_res stored_policy_to_spec (filter sp_enabled (table cid)))"

section \<open>Labels, state and model\<close>

definition load_existing_labels :: "string \<Rightarrow> conv_store \<Rightarrow> pydict" where
  "load_existing_labels cid st = (case get_conversation st cid of None \<Rightarrow> [] | Some c \<Rightarrow> cv_labels c)"

definition seed_and_load_labels :: "string \<Rightarrow> label_def dict \<Rightarrow> conv_store \<Rightarrow> pydict res \<times> conv_store" where
  "seed_and_load_labels cid defs st =
     (let existing = load_existing_labels cid st;
          to_seed = List.map_filter
            (\<lambda>(k, ld). case ld_initial ld of
               Some v \<Rightarrow> if dhas existing k then None else Some (k, PStr v)
             | None \<Rightarrow> None) defs
      in if to_seed = [] then (Inr existing, st)
         else (case set_labels st cid to_seed of
                 Inl e \<Rightarrow> (Inl e, st)
               | Inr st' \<Rightarrow> (Inr (load_existing_labels cid st'), st')))"

definition load_session_state :: "string \<Rightarrow> conv_store \<Rightarrow> pydict" where
  "load_session_state cid st = (case get_conversation st cid of None \<Rightarrow> [] | Some c \<Rightarrow> cv_session_state c)"

definition resolve_session_model :: "string \<Rightarrow> conv_store \<Rightarrow> agent_spec \<Rightarrow> string option" where
  "resolve_session_model cid st spec =
     (case get_conversation st cid of
        Some c \<Rightarrow> (case cv_model_override c of Some (x # xs) \<Rightarrow> Some (x # xs) | _ \<Rightarrow> ag_llm_model spec)
      | None \<Rightarrow> ag_llm_model spec)"

text \<open>The root's cost approvals are copied over a sub-agent's own state.\<close>

definition seed_root_approvals :: "pydict \<Rightarrow> pydict \<Rightarrow> pydict" where
  "seed_root_approvals root_state state =
     foldl (\<lambda>s k. case dget root_state k of Some v \<Rightarrow> dset s k v | None \<Rightarrow> s) state
       [SESSION_COST_ASK_APPROVED_STATE_KEY, SESSION_COST_UNPRICED_APPROVED_KEY]"

section \<open>The spawn tree\<close>

definition SUBTREE_USAGE_PAGE_SIZE :: nat where
  "SUBTREE_USAGE_PAGE_SIZE = 100"

text \<open>The paging loop; \<open>None\<close> is a loop that does not end.\<close>

partial_function (option) load_tree_pages ::
    "conv_store \<Rightarrow> string \<Rightarrow> string option \<Rightarrow> conversation list option" where
  "load_tree_pages st root_id after =
     (let page = list_conversations st SUBTREE_USAGE_PAGE_SIZE after root_id False
      in if \<not> pg_has_more page \<or> pg_last_id page = None then Some (pg_data page)
         else Option.bind (load_tree_pages st root_id (pg_last_id page)) (\<lambda>rest. Some (pg_data page @ rest)))"

declare load_tree_pages.simps [code]

definition load_tree_conversations :: "string \<Rightarrow> conv_store \<Rightarrow> conversation list option" where
  "load_tree_conversations root_id st = load_tree_pages st root_id None"

definition children_by_parent :: "conversation list \<Rightarrow> string \<Rightarrow> string list" where
  "children_by_parent tree p = map cv_id (filter (\<lambda>c. cv_parent c = Some p) tree)"

text \<open>The stack of the walk, top first.\<close>

function subtree_walk :: "conversation list \<Rightarrow> string list \<Rightarrow> string list \<Rightarrow> string list" where
  "subtree_walk tree seen [] = seen"
| "subtree_walk tree seen (n # stack) =
     (if n \<in> set seen then subtree_walk tree seen stack
      else subtree_walk tree (n # seen) (rev (children_by_parent tree n) @ stack))"
  by pat_completeness auto

lemma children_subset: "set (children_by_parent tree n) \<subseteq> cv_id ` set tree"
  by (auto simp: children_by_parent_def)

termination subtree_walk
proof (relation "measures [\<lambda>(tree, seen, stack). card ((set stack \<union> cv_id ` set tree) - set seen),
                           \<lambda>(tree, seen, stack). length stack]")
  fix tree :: "conversation list" and seen stack :: "string list" and n :: string
  assume "n \<in> set seen"
  then have "(set (n # stack) \<union> cv_id ` set tree) - set seen = (set stack \<union> cv_id ` set tree) - set seen" by auto
  then show "((tree, seen, stack), tree, seen, n # stack) \<in> measures
      [\<lambda>(tree, seen, stack). card ((set stack \<union> cv_id ` set tree) - set seen), \<lambda>(tree, seen, stack). length stack]"
    by simp
next
  fix tree :: "conversation list" and seen stack :: "string list" and n :: string
  assume "n \<notin> set seen"
  then have "(set (rev (children_by_parent tree n) @ stack) \<union> cv_id ` set tree) - set (n # seen) \<subset>
      (set (n # stack) \<union> cv_id ` set tree) - set seen"
    using children_subset [of tree n] by auto
  then show "((tree, n # seen, rev (children_by_parent tree n) @ stack), tree, seen, n # stack) \<in> measures
      [\<lambda>(tree, seen, stack). card ((set stack \<union> cv_id ` set tree) - set seen), \<lambda>(tree, seen, stack). length stack]"
    by (simp add: psubset_card_mono)
qed simp

definition subtree_conversation_ids :: "conversation list \<Rightarrow> string \<Rightarrow> string list" where
  "subtree_conversation_ids tree cid = subtree_walk tree [] [cid]"

section \<open>Usage of a subtree\<close>

definition SUMMABLE_USAGE_KEYS :: "string list" where
  "SUMMABLE_USAGE_KEYS =
     [''input_tokens'', ''output_tokens'', ''total_tokens'', ''cache_read_input_tokens'',
      ''cache_creation_input_tokens'', ''total_cost_usd'']"

fun is_number :: "pyval \<Rightarrow> bool" where
  "is_number (PInt i) = True"
| "is_number (PFloat r) = True"
| "is_number v = False"

definition merge_bucket :: "pydict \<Rightarrow> pydict \<Rightarrow> pydict" where
  "merge_bucket agg bucket =
     foldl (\<lambda>a (k, v). if is_number v
              then (case py_add (pget_default a k (PFloat 0)) v of Inr x \<Rightarrow> dset a k x | Inl e \<Rightarrow> a)
              else a) agg bucket"

definition merge_by_model :: "pydict dict \<Rightarrow> pydict \<Rightarrow> pydict dict" where
  "merge_by_model aggregate per_conv =
     foldl (\<lambda>agg (m, b). case b of
              PDict bucket \<Rightarrow> dset agg m (merge_bucket (case dget agg m of Some a \<Rightarrow> a | None \<Rightarrow> []) bucket)
            | _ \<Rightarrow> agg) aggregate per_conv"

record usage_acc =
  ua_totals :: pydict
  ua_by_model :: "pydict dict"
  ua_policy_cost :: pyval
  ua_any_policy_cost :: bool

fun sum_keys :: "string list \<Rightarrow> pydict \<Rightarrow> pydict \<Rightarrow> pydict res" where
  "sum_keys [] usage totals = Inr totals"
| "sum_keys (k # ks) usage totals =
     (case pget usage k of
        PNone \<Rightarrow> sum_keys ks usage totals
      | v \<Rightarrow> bind_res (py_add (pget_default totals k (PFloat 0)) v) (\<lambda>x. sum_keys ks usage (dset totals k x)))"

definition enforcement_cost :: "pydict \<Rightarrow> pyval" where
  "enforcement_cost usage =
     (if pget usage ''policy_cost_usd'' = PNone then pget usage ''total_cost_usd'' else pget usage ''policy_cost_usd'')"

definition add_usage :: "pydict \<Rightarrow> usage_acc \<Rightarrow> usage_acc res" where
  "add_usage usage acc =
     bind_res (sum_keys SUMMABLE_USAGE_KEYS usage (ua_totals acc)) (\<lambda>totals.
       let acc1 = acc\<lparr>ua_totals := totals,
             ua_by_model := (case pget usage ''by_model'' of
                               PDict d \<Rightarrow> merge_by_model (ua_by_model acc) d
                             | _ \<Rightarrow> ua_by_model acc)\<rparr>
       in if enforcement_cost usage = PNone then Inr acc1
          else bind_res (py_add (ua_policy_cost acc) (enforcement_cost usage)) (\<lambda>c.
            Inr (acc1\<lparr>ua_policy_cost := c, ua_any_policy_cost := True\<rparr>)))"

fun sum_usages :: "pydict list \<Rightarrow> usage_acc \<Rightarrow> usage_acc res" where
  "sum_usages [] acc = Inr acc"
| "sum_usages (u # us) acc = bind_res (add_usage u acc) (sum_usages us)"

definition usage_totals :: "usage_acc \<Rightarrow> pydict" where
  "usage_totals acc =
     (let t = (if ua_any_policy_cost acc then dset (ua_totals acc) ''policy_cost_usd'' (ua_policy_cost acc)
               else ua_totals acc)
      in if ua_by_model acc \<noteq> [] then dset t ''by_model'' (PDict (map (\<lambda>(m, b). (m, PDict b)) (ua_by_model acc)))
         else t)"

definition empty_usage_acc :: usage_acc where
  "empty_usage_acc = \<lparr>ua_totals = [], ua_by_model = [], ua_policy_cost = PFloat 0, ua_any_policy_cost = False\<rparr>"

text \<open>\<open>None\<close>: the paging loop does not end.\<close>

definition load_session_usage :: "string \<Rightarrow> conv_store \<Rightarrow> pydict res option" where
  "load_session_usage cid st =
     (case get_conversation st cid of
        None \<Rightarrow> Some (Inr [])
      | Some conv \<Rightarrow>
          map_option (\<lambda>tree.
            let ids = subtree_conversation_ids tree cid
            in bind_res (sum_usages (map cv_session_usage (filter (\<lambda>c. cv_id c \<in> set ids) tree)) empty_usage_acc)
                 (\<lambda>acc. Inr (usage_totals acc)))
            (load_tree_conversations (cv_root conv) st))"

definition normalize_usage_for_engine :: "pydict \<Rightarrow> pydict" where
  "normalize_usage_for_engine usage =
     (let u = dpop usage ''by_model''; cost = pget u ''policy_cost_usd''; u' = dpop u ''policy_cost_usd''
      in if cost = PNone then u' else dset u' ''total_cost_usd'' cost)"

definition subtree_usage_seed :: "string \<Rightarrow> conv_store \<Rightarrow> pydict res option" where
  "subtree_usage_seed cid st =
     map_option (\<lambda>r. bind_res r (\<lambda>u. Inr (normalize_usage_for_engine u))) (load_session_usage cid st)"

definition policy_usage_seed :: "string \<Rightarrow> conv_store \<Rightarrow> pydict res option" where
  "policy_usage_seed cid st =
     (case get_conversation st cid of
        None \<Rightarrow> Some (Inr [])
      | Some conv \<Rightarrow>
          map_option (\<lambda>r. bind_res r (\<lambda>u. Inr (normalize_usage_for_engine u))) (load_session_usage (cv_root conv) st))"

section \<open>The session owner's day\<close>

definition resolve_session_owner_cached ::
    "(string dict \<Rightarrow> string dict) \<Rightarrow> string dict \<Rightarrow> string \<Rightarrow> conv_store \<Rightarrow> string option \<times> string dict" where
  "resolve_session_owner_cached cap cache cid st =
     (case dget cache cid of
        Some owner \<Rightarrow> (Some owner, cache)
      | None \<Rightarrow>
          (case get_session_owner st cid of
             Some owner \<Rightarrow> (Some owner, cap (dset cache cid owner))
           | None \<Rightarrow> (None, cache)))"

definition load_user_daily_cost ::
    "(string dict \<Rightarrow> string dict) \<Rightarrow> string \<Rightarrow> string dict \<Rightarrow> string \<Rightarrow> conv_store \<Rightarrow> pydict \<times> string dict" where
  "load_user_daily_cost cap today cache cid st =
     (case resolve_session_owner_cached cap cache cid st of
        (None, cache') \<Rightarrow> ([(''cost_usd'', PFloat 0), (''ask_approved_usd'', PFloat 0)], cache')
      | (Some owner, cache') \<Rightarrow> (dset (get_daily_cost_state st owner today) ''user_id'' (PStr owner), cache'))"

section \<open>Assembly\<close>

definition merge_session_specs :: "policy_spec list \<Rightarrow> policy_spec list \<Rightarrow> policy_spec list" where
  "merge_session_specs root_specs child_specs =
     filter (\<lambda>p. ps_name p \<notin> ps_name ` set child_specs) root_specs @ child_specs"

definition root_of :: "string \<Rightarrow> conv_store \<Rightarrow> string" where
  "root_of cid st = (case get_conversation st cid of Some c \<Rightarrow> cv_root c | None \<Rightarrow> cid)"

definition collect_specs ::
    "agent_spec \<Rightarrow> string \<Rightarrow> conv_store \<Rightarrow> policy_spec list option \<Rightarrow> (string \<Rightarrow> stored_policy list) option
     \<Rightarrow> policy_spec list res" where
  "collect_specs spec cid st default_policies policy_store =
     bind_res (load_session_policy_specs cid policy_store) (\<lambda>child_specs.
     bind_res (if root_of cid st \<noteq> cid
               then bind_res (load_session_policy_specs (root_of cid st) policy_store)
                      (\<lambda>root_specs. Inr (merge_session_specs root_specs child_specs))
               else Inr child_specs) (\<lambda>session_specs.
       Inr (session_specs @
            (case ag_guardrails spec of
               Some g \<Rightarrow> (case gs_policies g of Some ps \<Rightarrow> ps | None \<Rightarrow> [])
             | None \<Rightarrow> []) @
            (case default_policies of Some ps \<Rightarrow> ps | None \<Rightarrow> []) @
            [ASK_ON_ADD_POLICY_SPEC])))"

definition label_defs_of :: "agent_spec \<Rightarrow> label_def dict" where
  "label_defs_of spec =
     (case ag_guardrails spec of Some g \<Rightarrow> (case gs_labels g of Some d \<Rightarrow> d | None \<Rightarrow> []) | None \<Rightarrow> [])"

definition seed_session_state :: "string \<Rightarrow> conv_store \<Rightarrow> pydict" where
  "seed_session_state cid st =
     (if root_of cid st \<noteq> cid
      then seed_root_approvals (load_session_state (root_of cid st) st) (load_session_state cid st)
      else load_session_state cid st)"

text \<open>The seeds that read usage and daily cost, in the order of the source.\<close>

record engine_seeds =
  es_usage :: pydict
  es_subtree :: "pydict option"
  es_daily :: "pydict option"

definition load_seeds ::
    "(string dict \<Rightarrow> string dict) \<Rightarrow> string \<Rightarrow> string dict \<Rightarrow> policy_spec list \<Rightarrow> string \<Rightarrow> conv_store
     \<Rightarrow> (engine_seeds res \<times> string dict) option" where
  "load_seeds cap today cache specs cid st =
     Option.bind (policy_usage_seed cid st) (\<lambda>ur.
       case ur of
         Inl e \<Rightarrow> Some (Inl e, cache)
       | Inr usage \<Rightarrow>
           Option.bind (if needs_subtree_usage specs
                        then map_option (\<lambda>r. bind_res r (\<lambda>u. Inr (Some u))) (subtree_usage_seed cid st)
                        else Some (Inr None)) (\<lambda>sr.
             case sr of
               Inl e \<Rightarrow> Some (Inl e, cache)
             | Inr sub \<Rightarrow>
                 (if needs_user_daily_cost specs then
                    (case load_user_daily_cost cap today cache cid st of
                       (daily, cache') \<Rightarrow> Some (Inr \<lparr>es_usage = usage, es_subtree = sub, es_daily = Some daily\<rparr>, cache'))
                  else Some (Inr \<lparr>es_usage = usage, es_subtree = sub, es_daily = None\<rparr>, cache))))"

definition build_policy_engine ::
    "(string \<Rightarrow> string \<Rightarrow> 's target res) \<Rightarrow> (string \<Rightarrow> pyval option) \<Rightarrow> (string \<Rightarrow> model_pricing option res)
     \<Rightarrow> (string dict \<Rightarrow> string dict) \<Rightarrow> string \<Rightarrow> nat option \<Rightarrow> agent_spec \<Rightarrow> string \<Rightarrow> policy_spec list option
     \<Rightarrow> (string \<Rightarrow> stored_policy list) option \<Rightarrow> string dict \<Rightarrow> conv_store
     \<Rightarrow> ('s engine res \<times> conv_store \<times> string dict) option" where
  "build_policy_engine import_path json_loads price cap today llm_client spec cid default_policies
      policy_store cache st =
     (case collect_specs spec cid st default_policies policy_store of
        Inl e \<Rightarrow> Some (Inl e, st, cache)
      | Inr specs \<Rightarrow>
          (case seed_and_load_labels cid (label_defs_of spec) st of
             (Inl e, st1) \<Rightarrow> Some (Inl e, st1, cache)
           | (Inr labels, st1) \<Rightarrow>
               Option.bind (load_seeds cap today cache specs cid st1) (\<lambda>(sr, cache').
                 Some
                   (bind_res sr (\<lambda>seeds.
                    bind_res (case ag_llm_model spec of Some m \<Rightarrow> price m | None \<Rightarrow> Inr None) (\<lambda>pricing.
                    bind_res (mapM_res (resolve_function_policy import_path json_loads) specs) (\<lambda>policies.
                      Inr (init_engine policies (label_defs_of spec)
                        (case ag_guardrails spec of Some g \<Rightarrow> gs_ask_timeout g | None \<Rightarrow> DEFAULT_ASK_TIMEOUT)
                        cid labels (Some (seed_session_state cid st1)) (Some (es_usage seeds)) (es_subtree seeds)
                        (es_daily seeds) pricing (resolve_session_model cid st1 spec) st1
                        (Some (root_of cid st)) llm_client)))),
                    st1, cache'))))"

end
