(* ===== verification/UsageSeeds.thy ===== *)
theory UsageSeeds
  imports Builder
begin

text \<open>
  The usage seeds of an engine against their specification: the paging loop returns exactly the live rows of
  a spawn tree, the walk over parent links visits exactly the subtree below a conversation, and the
  sums over it are the sums of the stored usages.
\<close>

section \<open>Paging\<close>

definition rows_ok :: "conv_store \<Rightarrow> bool" where
  "rows_ok st \<longleftrightarrow> distinct (map cv_id (st_rows st)) \<and> [] \<notin> cv_id ` set (st_rows st)"

definition tree_rows :: "conv_store \<Rightarrow> string \<Rightarrow> conversation list \<Rightarrow> conversation list" where
  "tree_rows st rid rows =
     map (\<lambda>r. r\<lparr>cv_labels := st_labels st (cv_id r)\<rparr>) (filter (\<lambda>r. cv_root r = rid \<and> \<not> cv_archived r) rows)"

lemma filter_split_nth:
  assumes "n < length (filter k xs)"
  shows "\<exists>as x bs. xs = as @ x # bs \<and> take (Suc n) (filter k xs) = filter k as @ [x] \<and>
    drop (Suc n) (filter k xs) = filter k bs \<and> k x"
  using assms
proof (induction xs arbitrary: n)
  case (Cons y ys)
  show ?case
  proof (cases "k y \<and> n = 0")
    case True
    then show ?thesis by (intro exI [of _ "[]"]) auto
  next
    case False
    let ?m = "if k y then n - 1 else n"
    have "?m < length (filter k ys)" using Cons.prems False by (cases n) auto
    from Cons.IH [OF this] obtain as x bs where IH: "ys = as @ x # bs" "k x"
      "take (Suc ?m) (filter k ys) = filter k as @ [x]" "drop (Suc ?m) (filter k ys) = filter k bs" by blast
    show ?thesis using IH False
      by (intro exI [of _ "y # as"] exI [of _ x] exI [of _ bs]) (cases n; auto split: if_splits)
  qed
qed simp

lemma rows_after_suffix: "\<exists>ps. st_rows st = ps @ rows_after st after"
proof -
  have "\<exists>ps. xs = ps @ tl (dropWhile q xs)" for q and xs :: "conversation list"
    by (metis append_Nil2 append.assoc append_Cons append_Nil list.collapse takeWhile_dropWhile_id tl_Nil)
  then show ?thesis by (auto simp: rows_after_def split: option.splits list.splits)
qed

lemma rows_after_split:
  assumes "rows_ok st" and "st_rows st = ps @ as @ x # bs"
  shows "rows_after st (Some (cv_id x)) = bs"
proof -
  have ne: "cv_id x \<noteq> []" and "\<forall>r \<in> set (ps @ as). cv_id r \<noteq> cv_id x"
    using assms by (auto simp: rows_ok_def) (metis image_eqI)+
  then have "dropWhile (\<lambda>r. cv_id r \<noteq> cv_id x) ((ps @ as) @ x # bs) = x # bs"
    by (subst dropWhile_append2) auto
  with ne assms(2) show ?thesis by (auto simp: rows_after_def split: list.splits)
qed

lemma load_tree_pages_complete:
  assumes "rows_ok st"
  shows "load_tree_pages st rid after = Some (tree_rows st rid (rows_after st after))"
proof (induction "length (rows_after st after)" arbitrary: after rule: less_induct)
  case less
  let ?k = "\<lambda>r. cv_root r = rid \<and> \<not> cv_archived r"
  let ?R = "rows_after st after"
  let ?lab = "\<lambda>r. r\<lparr>cv_labels := st_labels st (cv_id r)\<rparr>"
  show ?case
  proof (cases "length (filter ?k ?R) \<le> 100")
    case True
    then show ?thesis
      by (subst load_tree_pages.simps)
        (simp add: list_conversations_def SUBTREE_USAGE_PAGE_SIZE_def tree_rows_def Let_def)
  next
    case False
    then obtain as x bs where R: "?R = as @ x # bs" and t: "take 100 (filter ?k ?R) = filter ?k as @ [x]"
      and d: "drop 100 (filter ?k ?R) = filter ?k bs"
      using filter_split_nth [of 99 ?k ?R] by auto
    obtain ps where "st_rows st = ps @ ?R" using rows_after_suffix by blast
    then have ra: "rows_after st (Some (cv_id x)) = bs" using rows_after_split [OF assms, of ps as x bs] R by simp
    have IH: "load_tree_pages st rid (Some (cv_id x)) = Some (tree_rows st rid bs)"
      using less [of "Some (cv_id x)"] ra R by simp
    have "tree_rows st rid ?R = map ?lab (filter ?k as @ [x]) @ tree_rows st rid bs"
      unfolding tree_rows_def t [symmetric] d [symmetric] by (simp flip: map_append)
    moreover have "filter ?k ?R \<noteq> []" using False by auto
    ultimately show ?thesis using False t IH
      by (subst load_tree_pages.simps)
        (simp add: list_conversations_def SUBTREE_USAGE_PAGE_SIZE_def Let_def)
  qed
qed

section \<open>The walk over parent links\<close>

text \<open>The specification of the walk: the conversations that a chain of parent links leads back to \<open>cid\<close>.\<close>

inductive in_subtree :: "conversation list \<Rightarrow> string \<Rightarrow> string \<Rightarrow> bool" for tree cid where
  here: "in_subtree tree cid cid"
| child: "in_subtree tree cid p \<Longrightarrow> c \<in> set tree \<Longrightarrow> cv_parent c = Some p \<Longrightarrow> in_subtree tree cid (cv_id c)"

lemma children_iff: "n \<in> set (children_by_parent tree p) \<longleftrightarrow> (\<exists>c \<in> set tree. cv_parent c = Some p \<and> cv_id c = n)"
  by (auto simp: children_by_parent_def)

lemma walk_sound:
  "\<forall>n \<in> set seen \<union> set stack. in_subtree tree cid n \<Longrightarrow> n \<in> set (subtree_walk tree seen stack) \<Longrightarrow> in_subtree tree cid n"
proof (induction tree seen stack rule: subtree_walk.induct)
  case (2 tree seen m stack)
  have "\<forall>c \<in> set (children_by_parent tree m). in_subtree tree cid c"
    using "2.prems"(1) by (auto simp: children_iff intro: in_subtree.child)
  with 2 show ?case by (auto split: if_splits)
qed auto

lemma walk_covers: "set seen \<union> set stack \<subseteq> set (subtree_walk tree seen stack)"
  by (induction tree seen stack rule: subtree_walk.induct) auto

lemma walk_closed:
  assumes "\<forall>p \<in> set seen. set (children_by_parent tree p) \<subseteq> set seen \<union> set stack"
    and "p \<in> set (subtree_walk tree seen stack)"
  shows "set (children_by_parent tree p) \<subseteq> set (subtree_walk tree seen stack)"
  using assms
proof (induction tree seen stack rule: subtree_walk.induct)
  case (2 tree seen m stack)
  show ?case
  proof (cases "m \<in> set seen")
    case True
    then show ?thesis using 2 by auto
  next
    case False
    then show ?thesis using 2 by auto
  qed
qed auto

lemma walk_distinct: "distinct seen \<Longrightarrow> distinct (subtree_walk tree seen stack)"
  by (induction tree seen stack rule: subtree_walk.induct) auto

lemma subtree_ids_iff: "n \<in> set (subtree_conversation_ids tree cid) \<longleftrightarrow> in_subtree tree cid n"
proof
  show "n \<in> set (subtree_conversation_ids tree cid) \<Longrightarrow> in_subtree tree cid n"
    using walk_sound [of "[]" "[cid]" tree cid n] by (simp add: subtree_conversation_ids_def in_subtree.here)
next
  assume "in_subtree tree cid n"
  then show "n \<in> set (subtree_conversation_ids tree cid)"
  proof induction
    case here
    show ?case using walk_covers [of "[]" "[cid]" tree] by (simp add: subtree_conversation_ids_def)
  next
    case (child p c)
    have "set (children_by_parent tree p) \<subseteq> set (subtree_conversation_ids tree cid)"
      using walk_closed [of "[]" tree "[cid]" p] child.IH by (simp add: subtree_conversation_ids_def)
    moreover have "cv_id c \<in> set (children_by_parent tree p)" using child.hyps by (auto simp: children_iff)
    ultimately show ?case by blast
  qed
qed

section \<open>Sums of usage\<close>

definition amount :: "pydict \<Rightarrow> string \<Rightarrow> rat" where
  "amount d k = (case num_of (pget d k) of Some x \<Rightarrow> x | None \<Rightarrow> 0)"

definition numeric :: "pydict \<Rightarrow> string \<Rightarrow> bool" where
  "numeric d k \<longleftrightarrow> pget d k = PNone \<or> num_of (pget d k) \<noteq> None"

lemma sum_keys_total:
  assumes "distinct ks" and "\<forall>k \<in> set ks. numeric u k \<and> (dget t k = None \<or> num_of (pget t k) \<noteq> None)"
  shows "\<exists>t'. sum_keys ks u t = Inr t' \<and>
    (\<forall>k. k \<notin> set ks \<or> pget u k = PNone \<longrightarrow> dget t' k = dget t k) \<and>
    (\<forall>k \<in> set ks. pget u k \<noteq> PNone \<longrightarrow> num_of (pget t' k) = Some (amount t k + amount u k))"
  using assms
proof (induction ks arbitrary: t)
  case (Cons k ks)
  show ?case
  proof (cases "pget u k = PNone")
    case True
    obtain t' where "sum_keys ks u t = Inr t'"
      "\<forall>j. j \<notin> set ks \<or> pget u j = PNone \<longrightarrow> dget t' j = dget t j"
      "\<forall>j \<in> set ks. pget u j \<noteq> PNone \<longrightarrow> num_of (pget t' j) = Some (amount t j + amount u j)"
      using Cons.IH [of t] Cons.prems by auto
    then show ?thesis using True Cons.prems by auto
  next
    case False
    then obtain y where y: "num_of (pget u k) = Some y" using Cons.prems by (auto simp: numeric_def)
    obtain x where x: "num_of (pget_default t k (PFloat 0)) = Some x" "x = amount t k"
      using Cons.prems by (auto simp: pget_def pget_default_def amount_def split: option.splits)
    obtain c where c: "py_add (pget_default t k (PFloat 0)) (pget u k) = Inr c" "num_of c = Some (x + y)"
      using py_add_num [OF x(1) y] by blast
    have kn: "k \<notin> set ks" and dk: "distinct ks" using Cons.prems by auto
    have pre: "\<forall>j \<in> set ks. numeric u j \<and> (dget (dset t k c) j = None \<or> num_of (pget (dset t k c) j) \<noteq> None)"
    proof
      fix j assume "j \<in> set ks"
      moreover from this kn have "j \<noteq> k" by blast
      ultimately show "numeric u j \<and> (dget (dset t k c) j = None \<or> num_of (pget (dset t k c) j) \<noteq> None)"
        using Cons.prems by (simp add: pget_def)
    qed
    obtain t' where t': "sum_keys ks u (dset t k c) = Inr t'"
      "\<forall>j. j \<notin> set ks \<or> pget u j = PNone \<longrightarrow> dget t' j = dget (dset t k c) j"
      "\<forall>j \<in> set ks. pget u j \<noteq> PNone \<longrightarrow> num_of (pget t' j) = Some (amount (dset t k c) j + amount u j)"
      using Cons.IH [OF dk pre] by blast
    have "sum_keys (k # ks) u t = Inr t'" using t' c False by (cases "pget u k") auto
    then show ?thesis using t' c x y Cons.prems
      by (intro exI [of _ t']) (auto simp: pget_def amount_def)
  qed
qed simp

definition usage_numeric :: "pydict \<Rightarrow> bool" where
  "usage_numeric u \<longleftrightarrow> (\<forall>k \<in> set (''policy_cost_usd'' # SUMMABLE_USAGE_KEYS). numeric u k)"

definition cost_of :: "pydict \<Rightarrow> rat" where
  "cost_of u = (case num_of (enforcement_cost u) of Some x \<Rightarrow> x | None \<Rightarrow> 0)"

definition acc_ok :: "usage_acc \<Rightarrow> bool" where
  "acc_ok acc \<longleftrightarrow> num_of (ua_policy_cost acc) \<noteq> None \<and>
     (\<forall>k \<in> set SUMMABLE_USAGE_KEYS. dget (ua_totals acc) k = None \<or> num_of (pget (ua_totals acc) k) \<noteq> None) \<and>
     (\<forall>k. k \<notin> set SUMMABLE_USAGE_KEYS \<longrightarrow> dget (ua_totals acc) k = None)"

definition adds_up :: "pydict list \<Rightarrow> usage_acc \<Rightarrow> usage_acc \<Rightarrow> bool" where
  "adds_up us acc acc' \<longleftrightarrow>
     (\<forall>k \<in> set SUMMABLE_USAGE_KEYS.
        amount (ua_totals acc') k = amount (ua_totals acc) k + (\<Sum>u\<leftarrow>us. amount u k) \<and>
        (dget (ua_totals acc') k = None \<longleftrightarrow> dget (ua_totals acc) k = None \<and> (\<forall>u \<in> set us. pget u k = PNone))) \<and>
     (\<exists>x y. num_of (ua_policy_cost acc) = Some x \<and> num_of (ua_policy_cost acc') = Some y \<and> y = x + (\<Sum>u\<leftarrow>us. cost_of u)) \<and>
     (ua_any_policy_cost acc' \<longleftrightarrow> ua_any_policy_cost acc \<or> (\<exists>u \<in> set us. enforcement_cost u \<noteq> PNone))"

lemma enforcement_numeric:
  assumes "usage_numeric u" and "enforcement_cost u \<noteq> PNone"
  shows "num_of (enforcement_cost u) = Some (cost_of u)"
proof -
  have "numeric u ''policy_cost_usd''" "numeric u ''total_cost_usd''"
    using assms(1) by (auto simp: usage_numeric_def SUMMABLE_USAGE_KEYS_def)
  then show ?thesis using assms(2) by (auto simp: numeric_def enforcement_cost_def cost_of_def)
qed

lemma distinct_summable: "distinct SUMMABLE_USAGE_KEYS"
  by (simp add: SUMMABLE_USAGE_KEYS_def)

lemma add_usage_total:
  assumes "acc_ok acc" and "usage_numeric u"
  shows "\<exists>acc'. add_usage u acc = Inr acc' \<and> acc_ok acc' \<and> adds_up [u] acc acc'"
proof -
  let ?K = "set SUMMABLE_USAGE_KEYS" and ?t = "ua_totals acc"
  have pre: "\<forall>k \<in> ?K. numeric u k \<and> (dget ?t k = None \<or> num_of (pget ?t k) \<noteq> None)"
    using assms by (auto simp: acc_ok_def usage_numeric_def split: if_splits)
  from sum_keys_total [OF distinct_summable pre] obtain t where
    t: "sum_keys SUMMABLE_USAGE_KEYS u ?t = Inr t"
    and keep: "\<And>k. k \<notin> ?K \<or> pget u k = PNone \<Longrightarrow> dget t k = dget ?t k"
    and add: "\<And>k. k \<in> ?K \<Longrightarrow> pget u k \<noteq> PNone \<Longrightarrow> num_of (pget t k) = Some (amount ?t k + amount u k)"
    by blast
  obtain x where x: "num_of (ua_policy_cost acc) = Some x" using assms(1) by (auto simp: acc_ok_def)
  have tot: "amount t k = amount ?t k + amount u k \<and> (dget t k = None \<longleftrightarrow> dget ?t k = None \<and> pget u k = PNone) \<and>
      (dget t k = None \<or> num_of (pget t k) \<noteq> None)" if "k \<in> ?K" for k
  proof (cases "pget u k = PNone")
    case True
    then show ?thesis using keep [of k] pre that by (simp add: amount_def pget_def)
  next
    case False
    have "dget t k \<noteq> None" using add [OF that False] by (auto simp: pget_def split: option.splits)
    then show ?thesis using add [OF that False] False by (simp add: amount_def)
  qed
  have ok: "acc_ok acc'" if "ua_totals acc' = t" "num_of (ua_policy_cost acc') \<noteq> None" for acc'
    using that tot keep assms(1) unfolding acc_ok_def by metis
  show ?thesis
  proof (cases "enforcement_cost u = PNone")
    case True
    then have "cost_of u = 0" by (simp add: cost_of_def)
    with True t tot x ok show ?thesis by (simp add: add_usage_def Let_def adds_up_def)
  next
    case False
    obtain c where "py_add (ua_policy_cost acc) (enforcement_cost u) = Inr c" "num_of c = Some (x + cost_of u)"
      using py_add_num [OF x enforcement_numeric [OF assms(2) False]] by blast
    with False t tot x ok show ?thesis by (simp add: add_usage_def Let_def adds_up_def)
  qed
qed

lemma sum_usages_total:
  assumes "acc_ok acc" and "\<forall>u \<in> set us. usage_numeric u"
  shows "\<exists>acc'. sum_usages us acc = Inr acc' \<and> acc_ok acc' \<and> adds_up us acc acc'"
  using assms
proof (induction us arbitrary: acc)
  case Nil
  then show ?case by (auto simp: adds_up_def acc_ok_def)
next
  case (Cons u us)
  obtain a where a: "add_usage u acc = Inr a" "acc_ok a" "adds_up [u] acc a"
    using add_usage_total [of acc u] Cons.prems by auto
  obtain b where b: "sum_usages us a = Inr b" "acc_ok b" "adds_up us a b"
    using Cons.IH [OF a(2)] Cons.prems by auto
  have "adds_up (u # us) acc b" using a(3) b(3) by (auto simp: adds_up_def)
  with a b show ?case by auto
qed

text \<open>What an engine seed built from the usages \<open>us\<close> holds.\<close>

definition seed_of :: "pydict list \<Rightarrow> pydict \<Rightarrow> bool" where
  "seed_of us u \<longleftrightarrow>
     (\<forall>k \<in> set SUMMABLE_USAGE_KEYS - {''total_cost_usd''}. amount u k = (\<Sum>v\<leftarrow>us. amount v k)) \<and>
     amount u ''total_cost_usd'' = (\<Sum>v\<leftarrow>us. cost_of v) \<and>
     (pget u ''total_cost_usd'' = PNone \<longleftrightarrow> (\<forall>v \<in> set us. enforcement_cost v = PNone))"

lemma seed_amounts:
  assumes "\<forall>u \<in> set us. usage_numeric u"
  shows "\<exists>acc. sum_usages us empty_usage_acc = Inr acc \<and> seed_of us (normalize_usage_for_engine (usage_totals acc))"
proof -
  have e: "acc_ok empty_usage_acc" by (simp add: acc_ok_def empty_usage_acc_def)
  obtain acc where s: "sum_usages us empty_usage_acc = Inr acc" and ok: "acc_ok acc" and up: "adds_up us empty_usage_acc acc"
    using sum_usages_total [OF e assms] by blast
  let ?n = "normalize_usage_for_engine (usage_totals acc)"
  have "''policy_cost_usd'' \<notin> set SUMMABLE_USAGE_KEYS" "''by_model'' \<notin> set SUMMABLE_USAGE_KEYS"
    by (simp_all add: SUMMABLE_USAGE_KEYS_def)
  then have pc: "dget (ua_totals acc) ''policy_cost_usd'' = None" using ok by (simp add: acc_ok_def)
  have tc: "''total_cost_usd'' \<in> set SUMMABLE_USAGE_KEYS" by (simp add: SUMMABLE_USAGE_KEYS_def)
  obtain y where y: "num_of (ua_policy_cost acc) = Some y" "y = (\<Sum>u\<leftarrow>us. cost_of u)"
    using up by (auto simp: adds_up_def empty_usage_acc_def)
  have any: "ua_any_policy_cost acc \<longleftrightarrow> (\<exists>u \<in> set us. enforcement_cost u \<noteq> PNone)"
    using up by (simp add: adds_up_def empty_usage_acc_def)
  have ncost: "ua_policy_cost acc \<noteq> PNone" using y(1) by auto
  have keys: "pget ?n k = pget (ua_totals acc) k" if "k \<in> set SUMMABLE_USAGE_KEYS - {''total_cost_usd''}" for k
    using that by (auto simp: SUMMABLE_USAGE_KEYS_def normalize_usage_for_engine_def usage_totals_def Let_def pget_def)
  have cost: "pget ?n ''total_cost_usd'' = (if ua_any_policy_cost acc then ua_policy_cost acc else pget (ua_totals acc) ''total_cost_usd'')"
    using ncost pc by (simp add: normalize_usage_for_engine_def usage_totals_def Let_def pget_def)
  have none: "pget (ua_totals acc) ''total_cost_usd'' = PNone" "(\<Sum>u\<leftarrow>us. cost_of u) = 0" if "\<not> ua_any_policy_cost acc"
  proof -
    have "\<forall>u \<in> set us. enforcement_cost u = PNone" using any that by blast
    then have "\<forall>u \<in> set us. pget u ''total_cost_usd'' = PNone" "\<forall>u \<in> set us. cost_of u = 0"
      by (auto simp: enforcement_cost_def cost_of_def split: if_splits)
    moreover from this(2) have "(\<Sum>u\<leftarrow>us. cost_of u) = 0" by (induction us) auto
    ultimately show "pget (ua_totals acc) ''total_cost_usd'' = PNone" "(\<Sum>u\<leftarrow>us. cost_of u) = 0"
      using up tc by (auto simp: adds_up_def empty_usage_acc_def pget_def)
  qed
  have "amount ?n ''total_cost_usd'' = (\<Sum>u\<leftarrow>us. cost_of u)"
    using cost y none by (simp add: amount_def)
  moreover have "pget ?n ''total_cost_usd'' = PNone \<longleftrightarrow> (\<forall>u \<in> set us. enforcement_cost u = PNone)"
    using cost any none ncost by auto
  moreover have "\<forall>k \<in> set SUMMABLE_USAGE_KEYS - {''total_cost_usd''}. amount ?n k = (\<Sum>u\<leftarrow>us. amount u k)"
    using up keys by (simp add: adds_up_def amount_def empty_usage_acc_def pget_def)
  ultimately show ?thesis using s unfolding seed_of_def by blast
qed

text \<open>The usages of the conversations of the tree \<open>rid\<close> at or below \<open>start\<close>.\<close>

definition subtree_usages :: "conv_store \<Rightarrow> string \<Rightarrow> string \<Rightarrow> pydict list" where
  "subtree_usages st rid start =
     (let tree = tree_rows st rid (st_rows st)
      in map cv_session_usage (filter (\<lambda>c. in_subtree tree start (cv_id c)) tree))"

definition tree_numeric :: "conv_store \<Rightarrow> string \<Rightarrow> bool" where
  "tree_numeric st rid \<longleftrightarrow> (\<forall>r \<in> set (st_rows st). cv_root r = rid \<longrightarrow> usage_numeric (cv_session_usage r))"

lemma load_session_usage_sums:
  assumes "rows_ok st" and "get_conversation st start = Some c" and "tree_numeric st (cv_root c)"
  shows "\<exists>v. load_session_usage start st = Some (Inr v) \<and>
    seed_of (subtree_usages st (cv_root c) start) (normalize_usage_for_engine v)"
proof -
  let ?tree = "tree_rows st (cv_root c) (st_rows st)"
  have pages: "load_tree_conversations (cv_root c) st = Some ?tree"
    using load_tree_pages_complete [OF assms(1), of "cv_root c" None] by (simp add: load_tree_conversations_def rows_after_def)
  have "\<forall>u \<in> set (subtree_usages st (cv_root c) start). usage_numeric u"
    using assms(3) by (auto simp: subtree_usages_def tree_rows_def tree_numeric_def Let_def)
  from seed_amounts [OF this] show ?thesis
    by (auto simp: load_session_usage_def assms(2) pages subtree_ids_iff subtree_usages_def Let_def)
qed

end
