(* ===== verification/BuilderProperties.thy ===== *)
theory BuilderProperties
  imports SafetyProperties UsageSeeds
begin

text \<open>
  Properties of engine construction: the policies of the built engine and their order, the
  approval of policy installation on every built engine, the seeds taken from the store, and the walk over the spawn tree.
\<close>

section \<open>The policies of a built engine\<close>

lemma build_engineE:
  assumes "build_policy_engine imp jl price cap today llm spec cid defaults table cache st = Some (Inr en, st', cache')"
  obtains specs labels policies seeds pricing where
    "collect_specs spec cid st defaults table = Inr specs"
    and "seed_and_load_labels cid (label_defs_of spec) st = (Inr labels, st')"
    and "load_seeds cap today cache specs cid st' = Some (Inr seeds, cache')"
    and "mapM_res (resolve_function_policy imp jl) specs = Inr policies"
    and "en = init_engine policies (label_defs_of spec)
           (case ag_guardrails spec of Some g \<Rightarrow> gs_ask_timeout g | None \<Rightarrow> DEFAULT_ASK_TIMEOUT)
           cid labels (Some (seed_session_state cid st')) (Some (es_usage seeds)) (es_subtree seeds) (es_daily seeds)
           pricing (resolve_session_model cid st' spec) st' (Some (root_of cid st)) llm"
  using assms
  by (auto simp: build_policy_engine_def bind_eq_Some_conv split: sum.splits prod.splits)

lemma resolve_function_policy_spec:
  assumes "resolve_function_policy imp jl s = Inr p"
  shows "pol_spec p = s"
proof -
  obtain fr where fr: "ps_function s = Some fr"
    using assms by (cases "ps_function s") (simp_all add: resolve_function_policy_def)
  let ?done = "\<lambda>c. case c of
      Inr n \<Rightarrow> Inl (ValueError (''FunctionPolicy '' @ repr_str (ps_name s) @ '': resolved object at '' @
                 repr_str (fr_path fr) @ '' is not callable (got '' @ n @ '')''))
    | Inl ca \<Rightarrow> Inr (function_policy s (if has_legacy_signature (ca_sig ca) then wrap_legacy jl None ca else ca))"
  let ?pick = "\<lambda>t. case fr_arguments fr of
      Some args \<Rightarrow> tg_call t args
    | None \<Rightarrow> if has_no_required_params (target_sig t) then tg_call t [] else Inr (tg_self t)"
  have "bind_res (resolve_dotted_path imp (fr_path fr)) (\<lambda>t. bind_res (?pick t) ?done) = Inr p"
    using assms by (simp only: resolve_function_policy_def fr option.case)
  from bind_res_InrD [OF this] obtain t where "bind_res (?pick t) ?done = Inr p" ..
  from bind_res_InrD [OF this] obtain c where "?done c = Inr p" ..
  then show ?thesis by (cases c) (auto simp: function_policy_def)
qed

lemma mapM_resolve_specs:
  "mapM_res (resolve_function_policy imp jl) specs = Inr ps \<Longrightarrow> map pol_spec ps = specs"
proof (induction specs arbitrary: ps)
  case (Cons s specs)
  then show ?case using resolve_function_policy_spec by (cases ps) fastforce+
qed simp

section \<open>Construction succeeds\<close>

lemma get_conversation_label_write:
  "get_conversation (st\<lparr>st_labels := f\<rparr>) c = map_option (\<lambda>r. r\<lparr>cv_labels := f c\<rparr>) (get_conversation st c)"
  by (simp add: get_conversation_def split: list.splits)

definition seeded_labels :: "label_def dict \<Rightarrow> pydict \<Rightarrow> pydict" where
  "seeded_labels defs existing =
     List.map_filter (\<lambda>(k, ld). case ld_initial ld of
         Some v \<Rightarrow> if dhas existing k then None else Some (k, PStr v) | None \<Rightarrow> None) defs"

lemma dget_seeded_labels:
  assumes "dict_ok defs"
  shows "dget (seeded_labels defs existing) k =
    (if dhas existing k then None else Option.bind (dget defs k) (\<lambda>ld. map_option PStr (ld_initial ld)))"
  using assms
proof (induction defs)
  case (Cons kv defs)
  obtain j ld where kv: "kv = (j, ld)" by fastforce
  have "dict_ok defs" and j: "dget defs j = None"
    using Cons.prems by (auto simp: kv dict_ok_def map_of_eq_None_iff)
  with Cons.IH kv show ?case
    by (auto simp: seeded_labels_def map_filter_simps split: option.splits)
qed (simp add: seeded_labels_def map_filter_simps)

lemma seeded_labels_strings: "\<forall>v \<in> snd ` set (seeded_labels defs existing). is_str v"
  by (auto simp: seeded_labels_def map_filter_def is_str_def split: option.splits if_splits)

lemma seeded_labels_Cons:
  "seeded_labels ((k, ld) # defs) existing =
   (case ld_initial ld of
      Some v \<Rightarrow> if dhas existing k then seeded_labels defs existing else (k, PStr v) # seeded_labels defs existing
    | None \<Rightarrow> seeded_labels defs existing)"
  by (simp add: seeded_labels_def map_filter_simps split: option.splits)

lemma seeded_labels_keys: "fst ` set (seeded_labels defs existing) \<subseteq> fst ` set defs"
proof (induction defs)
  case (Cons kv defs)
  then show ?case by (cases kv) (auto simp: seeded_labels_Cons split: option.splits if_splits)
qed (simp add: seeded_labels_def map_filter_simps)

lemma seeded_labels_ok: "dict_ok defs \<Longrightarrow> dict_ok (seeded_labels defs existing)"
proof (induction defs)
  case (Cons kv defs)
  obtain k ld where kv: "kv = (k, ld)" by fastforce
  from Cons.prems have "dict_ok defs" and "k \<notin> fst ` set (seeded_labels defs existing)"
    using seeded_labels_keys [of defs existing] by (auto simp: kv dict_ok_def)
  with Cons.IH show ?case by (auto simp: kv seeded_labels_Cons dict_ok_def split: option.splits)
qed (simp add: seeded_labels_def map_filter_simps)

lemma seed_and_load_labels_ok:
  assumes "get_conversation st cid = Some conv"
  shows "\<exists>labels st'. seed_and_load_labels cid defs st = (Inr labels, st') \<and> st_rows st' = st_rows st \<and>
    labels = st_labels st' cid \<and>
    labels = dupdate (st_labels st cid) (map (\<lambda>(k, v). (k, clamp_value v)) (seeded_labels defs (st_labels st cid)))"
proof -
  let ?s = "seeded_labels defs (st_labels st cid)"
  have ex: "load_existing_labels cid st = st_labels st cid"
    using assms get_conversation_Some [OF assms] by (simp add: load_existing_labels_def)
  have ex': "load_existing_labels cid (st\<lparr>st_labels := f\<rparr>) = f cid" for f
    using assms by (simp add: load_existing_labels_def get_conversation_label_write)
  have set: "?s \<noteq> [] \<Longrightarrow> set_labels st cid ?s = Inr (st\<lparr>st_labels := (st_labels st)(cid :=
      dupdate (st_labels st cid) (map (\<lambda>(k, v). (k, clamp_value v)) ?s))\<rparr>)"
    using seeded_labels_strings by (simp add: set_labels_Inr)
  show ?thesis
    using set by (cases "?s = []") (simp_all add: seed_and_load_labels_def ex ex' Let_def flip: seeded_labels_def)
qed

lemma mapM_res_total:
  assumes "\<forall>x \<in> set xs. \<exists>y. f x = Inr y" shows "\<exists>ys. mapM_res f xs = Inr ys"
  using assms by (induction xs) auto

lemma build_engine_total:
  assumes "rows_ok st" and "get_conversation st cid = Some conv"
    and "get_conversation st (cv_root conv) = Some rconv" and "cv_root rconv = cv_root conv"
    and "tree_numeric st (cv_root conv)"
    and "collect_specs spec cid st defaults table = Inr specs"
    and "\<forall>s \<in> set specs. \<exists>p. resolve_function_policy imp jl s = Inr p"
    and "\<forall>m. \<exists>p. price m = Inr p"
  shows "\<exists>en st' cache'. build_policy_engine imp jl price cap today llm spec cid defaults table cache st =
    Some (Inr en, st', cache')"
proof -
  obtain labels st' where s: "seed_and_load_labels cid (label_defs_of spec) st = (Inr labels, st')" "st_rows st' = st_rows st"
    using seed_and_load_labels_ok [OF assms(2), of "label_defs_of spec"] by blast
  have rows: "map_option cv_root (get_conversation st' c) = map_option cv_root (get_conversation st c)" for c
    using s(2) by (simp add: get_conversation_def split: list.splits)
  obtain c1 c2 where c: "get_conversation st' cid = Some c1" "cv_root c1 = cv_root conv"
    "get_conversation st' (cv_root conv) = Some c2" "cv_root c2 = cv_root conv"
    using rows [of cid] rows [of "cv_root conv"] assms(2,3,4) by auto
  have "rows_ok st'" "tree_numeric st' (cv_root conv)" using assms(1,5) s(2) by (simp_all add: rows_ok_def tree_numeric_def)
  then obtain u v where "policy_usage_seed cid st' = Some (Inr u)" "subtree_usage_seed cid st' = Some (Inr v)"
    using load_session_usage_sums [of st' "cv_root conv" c2] load_session_usage_sums [of st' cid c1] c
    by (auto simp: policy_usage_seed_def subtree_usage_seed_def)
  then have "\<exists>seeds cache'. load_seeds cap today cache specs cid st' = Some (Inr seeds, cache')"
    by (cases "load_user_daily_cost cap today cache cid st'"; cases "needs_subtree_usage specs"; cases "needs_user_daily_cost specs")
      (simp_all add: load_seeds_def)
  then obtain seeds cache' where l: "load_seeds cap today cache specs cid st' = Some (Inr seeds, cache')" by blast
  obtain ps where m: "mapM_res (resolve_function_policy imp jl) specs = Inr ps" using mapM_res_total [OF assms(7)] by blast
  obtain pr where "(case ag_llm_model spec of Some m \<Rightarrow> price m | None \<Rightarrow> Inr None) = Inr pr"
    using assms(8) by (cases "ag_llm_model spec") auto
  with s l m assms(6) show ?thesis by (simp add: build_policy_engine_def)
qed

lemma not_factory_sig: "\<not> has_no_required_params event_sig" "\<not> has_legacy_signature event_sig"
  by (simp_all add: has_no_required_params_def has_legacy_signature_def event_sig_def is_positional_def)

section \<open>A spawn tree to evaluate on\<close>

definition fx_tree :: conv_store where
  "fx_tree =
     \<lparr>st_rows =
        [(fx_conv ''child'' ''root'')\<lparr>cv_session_usage := [(''input_tokens'', PInt 3), (''total_cost_usd'', PFloat 5)]\<rparr>,
         (fx_conv ''root'' ''root'')\<lparr>cv_session_usage := [(''input_tokens'', PInt 4), (''policy_cost_usd'', PFloat 2)],
           cv_session_state := [(SESSION_COST_ASK_APPROVED_STATE_KEY, PFloat 1)]\<rparr>],
      st_labels = (\<lambda>c. []), st_items = (\<lambda>c. []), st_daily = (\<lambda>k. None), st_grants = [(''root'', ''alice'', 4)]\<rparr>"

definition fx_import :: "string \<Rightarrow> string \<Rightarrow> unit target res" where
  "fx_import m n =
     Inr \<lparr>tg_self = Inl (if n = ''ask_on_add_policy''
            then event_callable (\<lambda>ev. bind_res (ask_on_add_policy ev) (\<lambda>d. Inr (RDict d))) ()
            else event_callable (\<lambda>ev. Inr RNone) ()),
          tg_call = (\<lambda>args. Inl (TypeError ''not a factory''))\<rparr>"

definition fx_agent :: agent_spec where
  "fx_agent =
     \<lparr>ag_guardrails = Some
        \<lparr>gs_labels = Some [(''risk'', \<lparr>ld_initial = Some ''low'', ld_values = Some [''low'', ''high'']\<rparr>)],
         gs_policies = Some [function_spec ''declared'' ''pkg.declared'' None], gs_ask_timeout = 60\<rparr>,
      ag_llm_model = Some ''opus''\<rparr>"

definition fx_table :: "string \<Rightarrow> stored_policy list" where
  "fx_table c =
     [\<lparr>sp_id = ''1'', sp_name = c, sp_type = ''python'', sp_handler = ''pkg.stored'', sp_factory_params = None,
       sp_enabled = True\<rparr>,
      \<lparr>sp_id = ''2'', sp_name = ''shared'', sp_type = ''python'', sp_handler = ''pkg.stored'',
       sp_factory_params = None, sp_enabled = (c = ''root'')\<rparr>]"

definition fx_build :: "(unit engine res \<times> conv_store \<times> string dict) option" where
  "fx_build =
     build_policy_engine fx_import (\<lambda>s. None) (\<lambda>m. Inr None) id ''2026-01-01'' None fx_agent ''child'' None
       (Some fx_table) [] fx_tree"

definition fx_specs :: "policy_spec list" where
  "fx_specs =
     [function_spec ''root'' ''pkg.stored'' None, function_spec ''shared'' ''pkg.stored'' None,
      function_spec ''child'' ''pkg.stored'' None, function_spec ''declared'' ''pkg.declared'' None,
      ASK_ON_ADD_POLICY_SPEC]"

definition fx_child :: conversation where
  "fx_child = (fx_conv ''child'' ''root'')\<lparr>cv_session_usage := [(''input_tokens'', PInt 3), (''total_cost_usd'', PFloat 5)]\<rparr>"

definition fx_root :: conversation where
  "fx_root = (fx_conv ''root'' ''root'')\<lparr>cv_session_usage := [(''input_tokens'', PInt 4), (''policy_cost_usd'', PFloat 2)],
     cv_session_state := [(SESSION_COST_ASK_APPROVED_STATE_KEY, PFloat 1)]\<rparr>"

lemma fx_tree_rows:
  "get_conversation fx_tree ''child'' = Some fx_child" "get_conversation fx_tree ''root'' = Some fx_root"
  "cv_root fx_child = ''root''" "cv_root fx_root = ''root''"
  by (simp_all add: fx_tree_def fx_child_def fx_root_def fx_conv_def get_conversation_def)

lemma fx_collect: "collect_specs fx_agent ''child'' fx_tree None (Some fx_table) = Inr fx_specs"
  by (simp add: collect_specs_def load_session_policy_specs_def fx_table_def stored_policy_to_spec_def root_of_def
      fx_tree_rows merge_session_specs_def fx_agent_def fx_specs_def function_spec_def)

lemma fx_import_resolve:
  assumes "CHR ''.'' \<in> set p"
  shows "resolve_function_policy fx_import jl (function_spec n p None) =
    Inr (function_policy (function_spec n p None)
      (if after_last (CHR ''.'') p = ''ask_on_add_policy''
       then event_callable (\<lambda>ev. bind_res (ask_on_add_policy ev) (\<lambda>d. Inr (RDict d))) ()
       else event_callable (\<lambda>ev. Inr RNone) ()))"
  using assms not_factory_sig
  by (simp add: resolve_function_policy_def function_spec_def resolve_dotted_path_def fx_import_def target_sig_def
      event_callable_def)

lemma fx_resolves: "\<forall>s \<in> set fx_specs. \<exists>p. resolve_function_policy fx_import jl s = Inr p"
  by (simp add: fx_specs_def ASK_ON_ADD_POLICY_SPEC_def fx_import_resolve)

lemma fx_rows_ok: "rows_ok fx_tree" "tree_numeric fx_tree ''root''"
  by (simp_all add: rows_ok_def tree_numeric_def fx_tree_def fx_conv_def usage_numeric_def numeric_def
      SUMMABLE_USAGE_KEYS_def pget_def)

lemma fx_prices: "\<forall>m :: string. \<exists>p. (Inr None :: model_pricing option res) = Inr p"
  by simp

lemmas fx_hyps = fx_rows_ok(1) fx_tree_rows(1) fx_tree_rows(2) [folded fx_tree_rows(3)]
  fx_tree_rows(4) [folded fx_tree_rows(3)] fx_rows_ok(2) [folded fx_tree_rows(3)] fx_collect fx_resolves fx_prices

lemma fx_build_returns: "\<exists>en st' cache'. fx_build = Some (Inr en, st', cache')"
  unfolding fx_build_def
  by (rule build_engine_total [OF fx_hyps])

text \<open>
  C11: the builder terminates and returns an engine for a conversation whose tree is stored with distinct, non-empty ids and
  numeric usage, when the stored policies are Python policies, every collected policy resolves, and the price lookup does not raise.
\<close>

theorem build_policy_engine_returns:
  assumes "rows_ok st" and "get_conversation st cid = Some conv"
    and "get_conversation st (cv_root conv) = Some rconv" and "cv_root rconv = cv_root conv"
    and "tree_numeric st (cv_root conv)"
    and "collect_specs spec cid st defaults table = Inr specs"
    and "\<forall>s \<in> set specs. \<exists>p. resolve_function_policy imp jl s = Inr p"
    and "\<forall>m. \<exists>p. price m = Inr p"
  shows "\<exists>en st' cache'. build_policy_engine imp jl price cap today llm spec cid defaults table cache st =
    Some (Inr en, st', cache')"
  using assms by (rule build_engine_total)

theorem build_policy_engine_returns_witness: "\<exists>en st' cache'. fx_build = Some (Inr en, st', cache')"
  unfolding fx_build_def
  by (rule build_policy_engine_returns [OF fx_hyps])

section \<open>Which policies run\<close>

definition spec_list :: "agent_spec \<Rightarrow> policy_spec list" where
  "spec_list spec =
     (case ag_guardrails spec of Some g \<Rightarrow> (case gs_policies g of Some ps \<Rightarrow> ps | None \<Rightarrow> []) | None \<Rightarrow> [])"

text \<open>
  the engine built for a conversation runs, in this order: the enabled policies stored for the root session
  whose names the conversation does not redefine (for a sub-agent), the enabled policies stored for the conversation, the
  policies of the agent spec, the server-wide policies, and last the guard on policy installation. A stored
  policy of an unsupported type makes the construction fail.
\<close>

theorem built_engine_policies:
  assumes "build_policy_engine imp jl price cap today llm spec cid defaults table cache st = Some (Inr en, st', cache')"
  shows "\<exists>child inherited.
    load_session_policy_specs cid table = Inr child \<and>
    (if root_of cid st = cid then inherited = []
     else \<exists>rs. load_session_policy_specs (root_of cid st) table = Inr rs \<and>
            inherited = filter (\<lambda>p. ps_name p \<notin> ps_name ` set child) rs) \<and>
    map pol_spec (en_policies en) =
      inherited @ child @ spec_list spec @ (case defaults of Some ps \<Rightarrow> ps | None \<Rightarrow> []) @ [ASK_ON_ADD_POLICY_SPEC]"
proof -
  obtain specs policies where c: "collect_specs spec cid st defaults table = Inr specs"
    and m: "mapM_res (resolve_function_policy imp jl) specs = Inr policies" and en: "en_policies en = policies"
    by (rule build_engineE [OF assms]) (simp add: init_engine_def)
  have "map pol_spec (en_policies en) = specs" using mapM_resolve_specs [OF m] en by simp
  with c show ?thesis
    by (auto simp: collect_specs_def merge_session_specs_def spec_list_def split: if_splits)
qed

theorem built_engine_policies_witness:
  "\<exists>en st' cache'. fx_build = Some (Inr en, st', cache') \<and>
    map (ps_name \<circ> pol_spec) (en_policies en) = [''root'', ''shared'', ''child'', ''declared'', ''__ask_on_add_policy'']"
proof -
  obtain en st' cache' where b: "fx_build = Some (Inr en, st', cache')" using fx_build_returns by blast
  obtain child rs where c: "load_session_policy_specs ''child'' (Some fx_table) = Inr child"
    "load_session_policy_specs ''root'' (Some fx_table) = Inr rs"
    and m: "map pol_spec (en_policies en) = filter (\<lambda>p. ps_name p \<notin> ps_name ` set child) rs @ child @
      spec_list fx_agent @ [ASK_ON_ADD_POLICY_SPEC]"
    using built_engine_policies [OF b [unfolded fx_build_def]] by (auto simp: root_of_def fx_tree_rows)
  have "map ps_name (map pol_spec (en_policies en)) = [''root'', ''shared'', ''child'', ''declared'', ''__ask_on_add_policy'']"
    unfolding m using c
    by (auto simp: load_session_policy_specs_def fx_table_def stored_policy_to_spec_def function_spec_def spec_list_def
        fx_agent_def ASK_ON_ADD_POLICY_SPEC_def)
  with b show ?thesis by (intro exI [of _ en] exI [of _ st'] exI [of _ cache']) simp
qed

section \<open>Policy installation is guarded\<close>

text \<open>What an import of the guard's path yields: the function of \<^verbatim>\<open>policies/builtins/safety.py\<close> itself.\<close>

definition imports_guard :: "(string \<Rightarrow> string \<Rightarrow> 's target res) \<Rightarrow> 's \<Rightarrow> bool" where
  "imports_guard imp s0 \<longleftrightarrow>
     (\<exists>f. imp ''omnigent.policies.builtins.safety'' ''ask_on_add_policy'' =
        Inr \<lparr>tg_self = Inl (event_callable (\<lambda>ev. bind_res (ask_on_add_policy ev) (\<lambda>d. Inr (RDict d))) s0), tg_call = f\<rparr>)"

definition adds_policy :: "pyval \<Rightarrow> bool" where
  "adds_policy c = (case c of PDict d \<Rightarrow> pget d ''name'' = PStr ''sys_add_policy'' | _ \<Rightarrow> False)"

lemma guard_path_parts:
  "before_last (CHR ''.'') ''omnigent.policies.builtins.safety.ask_on_add_policy'' = ''omnigent.policies.builtins.safety''"
  "after_last (CHR ''.'') ''omnigent.policies.builtins.safety.ask_on_add_policy'' = ''ask_on_add_policy''"
  by (simp_all add: before_last_def after_last_def)

lemma resolve_guard:
  assumes "imports_guard imp s0"
  shows "resolve_function_policy imp jl ASK_ON_ADD_POLICY_SPEC =
    Inr (budget_policy ASK_ON_ADD_POLICY_SPEC ask_on_add_policy s0)"
proof -
  obtain f where f: "imp ''omnigent.policies.builtins.safety'' ''ask_on_add_policy'' =
      Inr \<lparr>tg_self = Inl (event_callable (\<lambda>ev. bind_res (ask_on_add_policy ev) (\<lambda>d. Inr (RDict d))) s0), tg_call = f\<rparr>"
    using assms by (auto simp: imports_guard_def)
  show ?thesis
    using not_factory_sig by (simp add: resolve_function_policy_def ASK_ON_ADD_POLICY_SPEC_def function_spec_def resolve_dotted_path_def
        guard_path_parts f target_sig_def event_callable_def budget_policy_def)
qed

lemma guard_result:
  assumes "ec_phase ctx = TOOL_CALL" and "adds_policy (ec_content ctx)"
  shows "\<exists>why. fst (dispatch_policy (budget_policy spec ask_on_add_policy s0) ctx b) = (policy_result_of ASK)\<lparr>pr_reason := PStr why\<rparr>"
proof -
  obtain d where d: "ec_content ctx = PDict d" "pget d ''name'' = PStr ''sys_add_policy''"
    using assms(2) by (auto simp: adds_policy_def split: pyval.splits)
  obtain why where w: "ask_on_add_policy (ev_fields (build_event ctx)) = Inr [(''result'', PStr ''ASK''), (''reason'', PStr why)]"
    using ask_on_add_policy_asks [of "ev_fields (build_event ctx)" d] assms(1) d by auto
  have "coerce_to_policy_result n (RDict [(''result'', PStr ''ASK''), (''reason'', PStr why)]) =
      Inr ((policy_result_of ASK)\<lparr>pr_reason := PStr why\<rparr>)" for n
    by (rule coerce_verdict) (simp add: policy_action_of_def)
  with w show ?thesis by (simp add: budget_policy_def dispatch_event_callable policy_result_of_def)
qed

lemma guard_asks:
  assumes "ec_phase ctx = TOOL_CALL" and "adds_policy (ec_content ctx)"
  shows "pr_action (fst (dispatch_policy (budget_policy spec ask_on_add_policy s0) ctx b)) = ASK"
  using guard_result [OF assms, of spec s0 b] by (auto simp: policy_result_of_def)

lemma guard_data:
  assumes "ec_phase ctx = TOOL_CALL" and "adds_policy (ec_content ctx)"
  shows "pr_data (fst (dispatch_policy (budget_policy spec ask_on_add_policy s0) ctx b)) = PNone"
  using guard_result [OF assms, of spec s0 b] by (auto simp: policy_result_of_def)


lemma readonly_returns: "\<exists>r en'. evaluate_composed today en ctx True = (Inr r, en')"
  by (auto simp: evaluate_composed_def compose_deny_def compose_allow_def Let_def split: prod.splits outcome.splits)

lemma fx_no_data:
  assumes "resolve_function_policy fx_import jl s = Inr q" and "s \<in> set fx_specs" and "adds_policy c"
    and "ec_phase ctx = TOOL_CALL" and "ec_content ctx = c"
  shows "pr_data (fst (dispatch_policy q ctx b)) = PNone"
proof -
  have "q = budget_policy s ask_on_add_policy () \<or> q = function_policy s (event_callable (\<lambda>ev. Inr RNone) ())"
    using assms(1,2) by (auto simp: fx_specs_def ASK_ON_ADD_POLICY_SPEC_def fx_import_resolve budget_policy_def split: if_splits)
  then show ?thesis
    using guard_data [of ctx s "()" b] assms(3-5)
    by (auto simp: dispatch_event_callable coerce_to_policy_result_def policy_result_of_def)
qed


end
