(* ===== verification/SeedProperties.thy ===== *)
theory SeedProperties
  imports BuilderProperties
begin

text \<open>
  Properties of what a built engine starts from: usage summed over the spawn tree, labels, session state
  and the owner's daily cost.
\<close>

text \<open>
  the usage an engine starts from is the sum over the whole spawn tree (over the conversation's own
  subtree for the sub-agent budget) of the stored usages: token counters key by key, and a total cost that adds each
  conversation's enforcement cost and is absent exactly when no conversation has one.
\<close>

theorem usage_seeds_sum_tree:
  assumes "rows_ok st" and "get_conversation st cid = Some conv"
    and "get_conversation st (cv_root conv) = Some rconv" and "cv_root rconv = cv_root conv"
    and "tree_numeric st (cv_root conv)"
  shows "(\<exists>u. policy_usage_seed cid st = Some (Inr u) \<and> seed_of (subtree_usages st (cv_root conv) (cv_root conv)) u) \<and>
    (\<exists>u. subtree_usage_seed cid st = Some (Inr u) \<and> seed_of (subtree_usages st (cv_root conv) cid) u)"
  using load_session_usage_sums [OF assms(1) assms(3)] load_session_usage_sums [OF assms(1,2,5)] assms(2,4,5)
  by (auto simp: policy_usage_seed_def subtree_usage_seed_def)

theorem usage_seeds_sum_tree_witness:
  "\<exists>u v. policy_usage_seed ''child'' fx_tree = Some (Inr u) \<and> subtree_usage_seed ''child'' fx_tree = Some (Inr v) \<and>
     seed_of (subtree_usages fx_tree ''root'' ''root'') u \<and> seed_of (subtree_usages fx_tree ''root'' ''child'') v"
  using usage_seeds_sum_tree [of fx_tree "''child''" fx_child fx_root] fx_rows_ok fx_tree_rows by auto

text \<open>
  the subtree walk visits each conversation that descends from its start, itself included, once, and no other
  one, on any rows, cyclic parent links included.
\<close>

theorem subtree_walk_reaches_descendants:
  "distinct (subtree_conversation_ids tree cid) \<and>
   set (subtree_conversation_ids tree cid) = {n. in_subtree tree cid n}"
proof
  show "distinct (subtree_conversation_ids tree cid)"
    unfolding subtree_conversation_ids_def by (rule walk_distinct) simp
  show "set (subtree_conversation_ids tree cid) = {n. in_subtree tree cid n}" by (auto simp: subtree_ids_iff)
qed

section \<open>Labels and state\<close>

text \<open>
  A built engine starts with every stored label as it is and with the (clamped) initial value of each
  declared label that had none, and the store holds the same labels.
\<close>

theorem built_engine_labels:
  assumes "build_policy_engine imp jl price cap today llm spec cid defaults table cache st = Some (Inr en, st', cache')"
    and "get_conversation st cid = Some conv" and "dict_ok (label_defs_of spec)"
  shows "en_store en = st' \<and> st_labels st' cid = en_labels en \<and>
    dget (en_labels en) k =
      (case dget (cv_labels conv) k of
         Some v \<Rightarrow> Some v
       | None \<Rightarrow> Option.bind (dget (label_defs_of spec) k)
                 (\<lambda>ld. map_option (\<lambda>v. PStr (take LABEL_VALUE_MAX_LEN v)) (ld_initial ld)))"
proof -
  obtain labels where s: "seed_and_load_labels cid (label_defs_of spec) st = (Inr labels, st')"
    and en: "en_labels en = labels" "en_store en = st'"
    by (rule build_engineE [OF assms(1)]) (simp add: init_engine_def)
  let ?s = "seeded_labels (label_defs_of spec) (st_labels st cid)"
  from seed_and_load_labels_ok [OF assms(2), of "label_defs_of spec"] s
  have l: "labels = st_labels st' cid" "labels = dupdate (st_labels st cid) (map (\<lambda>(k, v). (k, clamp_value v)) ?s)"
    by auto
  have "dict_ok (map (\<lambda>(k, v). (k, clamp_value v)) ?s)"
    by (simp add: dict_ok_map_snd seeded_labels_ok assms(3))
  then have "dget labels k = (case map_option clamp_value (dget ?s k) of
      None \<Rightarrow> dget (st_labels st cid) k | Some v \<Rightarrow> Some v)"
    by (simp add: l(2) dget_dupdate dget_map_snd)
  then show ?thesis
    using l(1) en get_conversation_Some [OF assms(2)]
    by (cases "dget (label_defs_of spec) k")
      (auto simp: dget_seeded_labels assms(3) dhas_iff clamp_value_def split: option.splits)
qed

theorem built_engine_labels_witness:
  "\<exists>en st' cache'. fx_build = Some (Inr en, st', cache') \<and> dget (en_labels en) ''risk'' = Some (PStr ''low'') \<and>
     st_labels st' ''child'' = en_labels en"
proof -
  obtain en st' cache' where b: "fx_build = Some (Inr en, st', cache')" using fx_build_returns by blast
  show ?thesis
    using built_engine_labels [OF b [unfolded fx_build_def] fx_tree_rows(1), of "''risk''"] b
    by (auto simp: label_defs_of_def fx_agent_def dict_ok_def fx_child_def fx_conv_def LABEL_VALUE_MAX_LEN_def)
qed

lemma seed_root_approvals_get:
  "dget (seed_root_approvals root_state s) k =
   (if k \<in> {SESSION_COST_ASK_APPROVED_STATE_KEY, SESSION_COST_UNPRICED_APPROVED_KEY} \<and> dget root_state k \<noteq> None
    then dget root_state k else dget s k)"
  by (auto simp: seed_root_approvals_def split: option.splits)

text \<open>
  A built engine starts with the conversation's stored session state, over which a sub-agent's engine
  takes the cost approvals of the root conversation, and it is bound to the conversation and to its root.
\<close>

theorem built_engine_state:
  assumes "build_policy_engine imp jl price cap today llm spec cid defaults table cache st = Some (Inr en, st', cache')"
    and "get_conversation st cid = Some conv" and "get_conversation st (cv_root conv) = Some rconv"
  shows "en_conversation_id en = cid \<and> (cv_root conv \<noteq> [] \<longrightarrow> en_root_conversation_id en = cv_root conv) \<and>
    dget (en_session_state en) k =
      (if cv_root conv \<noteq> cid \<and> k \<in> {SESSION_COST_ASK_APPROVED_STATE_KEY, SESSION_COST_UNPRICED_APPROVED_KEY} \<and>
          dget (cv_session_state rconv) k \<noteq> None
       then dget (cv_session_state rconv) k else dget (cv_session_state conv) k)"
proof -
  obtain labels where s: "seed_and_load_labels cid (label_defs_of spec) st = (Inr labels, st')"
    and en: "en_session_state en = seed_session_state cid st'" "en_conversation_id en = cid"
      "en_root_conversation_id en = (case root_of cid st of c # r \<Rightarrow> c # r | _ \<Rightarrow> cid)"
    by (rule build_engineE [OF assms(1)]) (simp add: init_engine_def)
  from seed_and_load_labels_ok [OF assms(2), of "label_defs_of spec"] s have "st_rows st' = st_rows st" by auto
  then have rows: "map_option (\<lambda>c. (cv_root c, cv_session_state c)) (get_conversation st' c) =
      map_option (\<lambda>c. (cv_root c, cv_session_state c)) (get_conversation st c)" for c
    by (simp add: get_conversation_def split: list.splits)
  obtain c1 c2 where c: "get_conversation st' cid = Some c1" "cv_root c1 = cv_root conv" "cv_session_state c1 = cv_session_state conv"
    "get_conversation st' (cv_root conv) = Some c2" "cv_session_state c2 = cv_session_state rconv"
    using rows [of cid] rows [of "cv_root conv"] assms(2,3) by auto
  show ?thesis
    using en assms(2) c by (auto simp: seed_session_state_def root_of_def load_session_state_def seed_root_approvals_get split: list.splits)
qed

theorem built_engine_state_witness:
  "\<exists>en st' cache'. fx_build = Some (Inr en, st', cache') \<and> en_root_conversation_id en = ''root'' \<and>
     dget (en_session_state en) SESSION_COST_ASK_APPROVED_STATE_KEY = Some (PFloat 1)"
proof -
  obtain en st' cache' where b: "fx_build = Some (Inr en, st', cache')" using fx_build_returns by blast
  have r: "get_conversation fx_tree (cv_root fx_child) = Some fx_root" by (simp add: fx_tree_rows)
  show ?thesis
    using built_engine_state [OF b [unfolded fx_build_def] fx_tree_rows(1) r, of SESSION_COST_ASK_APPROVED_STATE_KEY] b
    by (auto simp: fx_tree_rows fx_root_def)
qed

section \<open>The session owner\<close>

definition cache_coherent :: "string dict \<Rightarrow> conv_store \<Rightarrow> bool" where
  "cache_coherent cache st \<longleftrightarrow> (\<forall>c u. dget cache c = Some u \<longrightarrow> get_session_owner st c = Some u)"

text \<open>
  The bounded owner cache never changes an answer: on a cache that agrees with the grants, the daily
  cost loaded is that of the session's owner on that day, and the cache still agrees, whatever entries the bound evicts.
\<close>

theorem owner_cache_is_coherent:
  assumes "cache_coherent cache st" and "\<And>d c. dget (cap d) c = None \<or> dget (cap d) c = dget d c"
    and "load_user_daily_cost cap today cache cid st = (daily, cache')"
  shows "cache_coherent cache' st \<and>
    daily = (case get_session_owner st cid of
       None \<Rightarrow> [(''cost_usd'', PFloat 0), (''ask_approved_usd'', PFloat 0)]
     | Some owner \<Rightarrow> dset (get_daily_cost_state st owner today) ''user_id'' (PStr owner))"
proof (cases "dget cache cid")
  case (Some u)
  then show ?thesis using assms by (auto simp: load_user_daily_cost_def resolve_session_owner_cached_def cache_coherent_def)
next
  case None
  have "cache_coherent (cap (dset cache cid u)) st" if u: "get_session_owner st cid = Some u" for u
    unfolding cache_coherent_def
  proof (intro allI impI)
    fix c v assume "dget (cap (dset cache cid u)) c = Some v"
    then have "dget (dset cache cid u) c = Some v" using assms(2) [of "dset cache cid u" c] by auto
    then show "get_session_owner st c = Some v" using u assms(1) by (auto simp: cache_coherent_def split: if_splits)
  qed
  then show ?thesis using None assms(1,3)
    by (auto simp: load_user_daily_cost_def resolve_session_owner_cached_def split: option.splits)
qed

theorem owner_cache_is_coherent_witness:
  "cache_coherent (snd (load_user_daily_cost id ''d'' [] ''root'' fx_tree)) fx_tree \<and>
   pget (fst (load_user_daily_cost id ''d'' [] ''root'' fx_tree)) ''user_id'' = PStr ''alice''"
proof -
  have "get_session_owner fx_tree ''root'' = Some ''alice''"
    by (simp add: get_session_owner_def fx_tree_def RESERVED_USER_PUBLIC_def)
  then show ?thesis
    using owner_cache_is_coherent [of "[]" fx_tree id "''d''" "''root''" "fst (load_user_daily_cost id ''d'' [] ''root'' fx_tree)"
        "snd (load_user_daily_cost id ''d'' [] ''root'' fx_tree)"]
    by (simp add: cache_coherent_def pget_def)
qed

end
