(* ===== verification/AccountingProperties.thy ===== *)
theory AccountingProperties
  imports Fixtures
begin

text \<open>
  Properties of accounting and of the normalisation of verdicts: token prices and costs, the daily
  ledger and the session owner, what a policy's return value becomes.
\<close>

section \<open>Prices and costs\<close>

text \<open>Where a catalog price may come from: the entry of the model, or the one price its family agrees on.\<close>

definition quoted_price :: "pydict \<Rightarrow> string \<Rightarrow> model_pricing \<Rightarrow> bool" where
  "quoted_price models bare p \<longleftrightarrow>
     (\<exists>n e. (n, e) \<in> set models \<and> extract_pricing e = Inr (Some p) \<and>
       (n = bare \<or> (startswith n (before_last (CHR ''-'') bare) \<and>
          (\<forall>n' e' p'. (n', e') \<in> set models \<and> startswith n' (before_last (CHR ''-'') bare) \<and>
             extract_pricing e' = Inr (Some p') \<longrightarrow> p' = p))))"

text \<open>
  a fetched price is never made up: the lookup ends, and a price it returns is quoted in the fetched catalog
  of the model's provider (or, for a gateway alias, of the aliased model's), as the entry of the model itself or
  as the only price all entries of its family carry.
\<close>

theorem fetched_price_is_quoted:
  assumes "fetch_model_pricing disabled fetch model = Inr (Some p)"
  shows "\<exists>alias provider bare models. (\<exists>gateway. model = gateway @ alias) \<and> split_model alias = (Some provider, bare) \<and>
    fetch provider = Some models \<and> quoted_price models bare p"
  using assms
proof (induction disabled fetch model rule: fetch_model_pricing.induct)
  case (1 disabled fetch model)
  obtain q bare where sm: "split_model model = (q, bare)" by fastforce
  from "1.prems" sm obtain provider models where q: "\<not> disabled" "q = Some provider" "fetch provider = Some models"
    by (subst (asm) fetch_model_pricing.simps) (auto split: if_splits option.splits)
  obtain o' where c: "catalog_price models bare = Inr o'"
    using "1.prems" sm q by (subst (asm) fetch_model_pricing.simps) (auto split: sum.splits)
  show ?case
  proof (cases o')
    case (Some p')
    with "1.prems" sm q c have "p' = p" by (subst (asm) fetch_model_pricing.simps) simp
    then have "quoted_price models bare p"
      using catalog_price_entry [of models bare p] c Some by (simp add: quoted_price_def)
    with sm q show ?thesis by (metis append_Nil)
  next
    case None
    from "1.prems" sm q c None have a: "provider = ''databricks'' \<and> startswith bare ''databricks-'' \<and> drop 11 bare \<noteq> []"
      and r: "fetch_model_pricing disabled fetch (drop 11 bare) = Inr (Some p)"
      by (subst (asm) fetch_model_pricing.simps, auto split: if_splits)+
    have "\<exists>g. model = g @ bare"
      using sm suffix_dropWhile [of _ model]
      by (auto simp: split_model_def after_first_def suffix_def split: if_splits)
        (metis append.assoc append_take_drop_id drop_Suc drop0 takeWhile_dropWhile_id)
    then obtain g where g: "model = g @ bare" by blast
    then have pre: "model = (g @ take 11 bare) @ drop 11 bare" by simp
    have "\<exists>alias provider' bare' models'. (\<exists>gateway. drop 11 bare = gateway @ alias) \<and>
        split_model alias = (Some provider', bare') \<and> fetch provider' = Some models' \<and> quoted_price models' bare' p"
      using "1.IH" [OF q(1) sm [symmetric] q(2,3) c None a r] .
    with pre show ?thesis by (metis append.assoc)
  qed
qed

definition fx_catalog :: "string \<Rightarrow> pydict option" where
  "fx_catalog provider =
     (if provider = ''anthropic''
      then Some [(''claude-opus-1'', PDict [(''pricing'', PDict [(''input_per_million_tokens'', PInt 5),
             (''output_per_million_tokens'', PInt 25)])])]
      else None)"

definition fx_price :: model_pricing where
  "fx_price = \<lparr>mp_input_per_token = 1 / 200000, mp_output_per_token = 1 / 40000, mp_cache_read_per_token = None,
     mp_cache_write_per_token = None\<rparr>"

lemma fx_fetch: "fetch_model_pricing False fx_catalog ''anthropic/claude-opus-2'' = Inr (Some fx_price)"
  by code_simp

theorem fetched_price_is_quoted_witness:
  "\<exists>alias provider bare models. split_model alias = (Some provider, bare) \<and> fx_catalog provider = Some models \<and>
     quoted_price models bare fx_price"
  using fetched_price_is_quoted [OF fx_fetch] by blast

text \<open>
  The cost of usage is linear: usage records add up in cost as they add up in tokens, cached tokens
  included, so pricing calls one by one or in total gives the same bill.
\<close>

theorem cost_adds_up:
  "\<exists>c c'. compute_llm_cost (usage_record i ou r w) p = Inr c \<and> compute_llm_cost (usage_record i' ou' r' w') p = Inr c' \<and>
     compute_llm_cost (usage_record (i + i') (ou + ou') (r + r') (w + w')) p = Inr (c + c')"
  by (simp add: compute_llm_cost_record record_cost_add)

section \<open>The daily ledger\<close>

datatype ledger_op = Spend string string rat | Approve string string rat

fun ledger_step :: "ledger_op \<Rightarrow> conv_store \<Rightarrow> conv_store" where
  "ledger_step (Spend user day x) st = add_daily_cost st user day x"
| "ledger_step (Approve user day x) st = set_daily_ask_approved st user day x"

fun spent :: "string \<Rightarrow> string \<Rightarrow> ledger_op \<Rightarrow> rat" where
  "spent user day (Spend u d x) = (if u = user \<and> d = day \<and> 0 < x then x else 0)"
| "spent user day (Approve u d x) = 0"

text \<open>
  However spends and approvals of several users and days interleave, a user's cost of a day is the sum of that
  user's positive spends on that day: days start afresh, users do not share, approvals change no cost.
\<close>

theorem daily_cost_accumulates:
  "get_daily_cost (fold ledger_step ops st) user day =
   get_daily_cost st user day + (\<Sum>x\<leftarrow>ops. spent user day x)"
proof (induction ops arbitrary: st)
  case (Cons x ops)
  have "get_daily_cost (ledger_step x st) user day = get_daily_cost st user day + spent user day x"
    by (cases x) (auto simp: get_daily_cost_add get_daily_cost_approve)
  with Cons show ?case by simp
qed simp

text \<open>
  The owner of a session is a grantee of that session, never the public sentinel, and no other real grantee has
  a higher level; a session has no owner exactly when it has no real grantee.
\<close>

theorem session_owner_is_top_grantee:
  "(case get_session_owner st c of
      None \<Rightarrow> \<not> (\<exists>u l. (c, u, l) \<in> set (st_grants st) \<and> u \<noteq> RESERVED_USER_PUBLIC)
    | Some u \<Rightarrow> u \<noteq> RESERVED_USER_PUBLIC \<and>
        (\<exists>l. (c, u, l) \<in> set (st_grants st) \<and>
          \<not> (\<exists>v m. (c, v, m) \<in> set (st_grants st) \<and> v \<noteq> RESERVED_USER_PUBLIC \<and> l < m)))"
proof (cases "get_session_owner st c")
  case None
  then show ?thesis by (auto simp: get_session_owner_def best_grant_None filter_empty_conv)
next
  case (Some u)
  from get_session_owner_Some [OF Some] obtain l where "(c, u, l) \<in> set (st_grants st)" "u \<noteq> RESERVED_USER_PUBLIC"
    "\<forall>(c', v, m) \<in> set (st_grants st). c' = c \<and> v \<noteq> RESERVED_USER_PUBLIC \<longrightarrow> m \<le> l" by blast
  with Some show ?thesis by (force simp: not_less)
qed

section \<open>What a return value becomes\<close>

lemma of_char_lt: "(of_char (c :: char) - 32 :: nat) < 256"
  by (rule le_less_trans [OF diff_le_self nat_of_char_less_256])

lemma lower_upper [simp]: "str_lower (str_upper s) = str_lower s"
proof -
  have "lower_char (upper_char c) = lower_char c" for c
  proof (cases "97 \<le> char_code c \<and> char_code c \<le> 122")
    case True
    then have bounds: "65 \<le> char_code c - 32" "char_code c - 32 \<le> 90" "char_code c - 32 + 32 = char_code c" "\<not> char_code c \<le> 90"
      by linarith+
    have up: "upper_char c = char_of (char_code c - 32)" using True by (simp add: upper_char_def)
    have code: "char_code (char_of (char_code c - 32) :: char) = char_code c - 32"
      using of_char_lt by (simp add: char_code_def)
    have "lower_char (upper_char c) = char_of (char_code c)"
      by (simp only: up lower_char_def code bounds simp_thms if_True)
    moreover have "lower_char c = c" by (simp only: lower_char_def bounds simp_thms if_False)
    ultimately show ?thesis by (simp add: char_code_def)
  qed (auto simp: upper_char_def)
  then show ?thesis by (simp add: str_lower_def str_upper_def)
qed

text \<open>
  A legacy policy called through the adapter sees the content and the phase name of the event, and an action
  dictionary it returns (without a \<^verbatim>\<open>decision\<close> key) becomes that verdict with its reason, in any letter case; labels and state updates it carries are dropped.
\<close>

theorem legacy_verdict_is_kept:
  assumes "ca_fun fn (CLegacy (v0_event_to_legacy_content jl (ev_fields (build_event ctx))) (phase_value (ec_phase ctx)) None)
      (ca_state fn) = (Inr (RDict d), s')"
    and "positional_arity (ca_sig fn) = 2"
    and "dhas d ''action''" and "\<not> dhas d ''decision''"
    and "policy_action_of (str_lower (py_str (pget d ''action''))) = Some a"
  shows "fst (dispatch_policy (function_policy spec (wrap_legacy jl None fn)) ctx b) =
    (policy_result_of a)\<lparr>pr_reason := pget d ''reason''\<rparr>"
proof -
  have ar: "2 \<le> callable_arity (ca_sig (wrap_legacy jl None fn))"
    by (simp add: wrap_legacy_def callable_arity_def legacy_shim_sig_def is_positional_def)
  have call: "call_policy spec (wrap_legacy jl None fn) ctx (ca_state fn) = (Inr (coerce_legacy_return (RDict d)), s')"
    using assms(1,2) ar
    by (simp add: call_policy_def wrap_legacy_def convert_args_def v0_event_to_legacy_phase_def Let_def pget_default_def build_event_def)
  have "coerce_to_policy_result n (coerce_legacy_return (RDict d)) = Inr ((policy_result_of a)\<lparr>pr_reason := pget d ''reason''\<rparr>)" for n
    using assms(3-5)
    by (simp add: coerce_legacy_return_def coerce_to_policy_result_def policy_result_from_dict_def pget_def
        coerce_state_updates_def dict_or_none_def policy_result_of_def)
  with call show ?thesis
    by (simp add: dispatch_policy_def function_policy_def function_evaluate_def wrap_legacy_def)
qed

definition fx_legacy :: "unit callable_obj" where
  "fx_legacy =
     \<lparr>ca_sig = Some [\<lparr>pa_name = ''content'', pa_kind = POSITIONAL_OR_KEYWORD, pa_has_default = False\<rparr>,
                    \<lparr>pa_name = ''phase'', pa_kind = POSITIONAL_OR_KEYWORD, pa_has_default = False\<rparr>],
      ca_fun = (\<lambda>args s. (case args of
         CLegacy c ph x \<Rightarrow> (Inr (if ph = ''tool_call'' then RDict [(''action'', PStr ''Deny''), (''reason'', PStr ''no'')] else RNone), s)
       | _ \<Rightarrow> (Inl (TypeError ''legacy''), s))),
      ca_state = (), ca_reset = None\<rparr>"

theorem legacy_verdict_is_kept_witness:
  "fst (dispatch_policy (function_policy (fx_spec ''old'') (wrap_legacy (\<lambda>s. None) None fx_legacy)) (fx_ctx TOOL_CALL)
      (context_bundle fx_mixed)) = (policy_result_of DENY)\<lparr>pr_reason := PStr ''no''\<rparr>"
proof -
  have "policy_action_of (str_lower (py_str (pget [(''action'', PStr ''Deny''), (''reason'', PStr ''no'')] ''action''))) = Some DENY"
    by code_simp
  then show ?thesis
    using legacy_verdict_is_kept [of fx_legacy "\<lambda>s. None" "fx_ctx TOOL_CALL" "[(''action'', PStr ''Deny''), (''reason'', PStr ''no'')]"
        "()" DENY "fx_spec ''old''" "context_bundle fx_mixed"]
    by (simp add: fx_legacy_def fx_ctx_def positional_arity_def is_positional_def dhas_iff pget_def)
qed

text \<open>A return value that is no verdict: nothing the normalisation reads as allow, ask or deny.\<close>

definition no_verdict :: "raw_return \<Rightarrow> bool" where
  "no_verdict raw =
     (case raw of
        RDict d \<Rightarrow> pget d ''result'' = PNone \<or> policy_action_of (str_lower (py_str (pget d ''result''))) = None
      | RShaped a r l u \<Rightarrow> policy_action_of (str_lower (py_str a)) = None
      | ROther t \<Rightarrow> True
      | _ \<Rightarrow> False)"

text \<open>
  A policy whose callable returns something that is no verdict fails closed: the engine answers DENY for it.
\<close>

theorem garbage_verdict_denies:
  assumes "no_verdict raw" and "ca_fun ca (CEvent (build_event ctx)) (ca_state ca) = (Inr raw, s')"
    and "callable_arity (ca_sig ca) < 2"
  shows "pr_action (fst (dispatch_policy (function_policy spec ca) ctx b)) = DENY"
proof -
  have "\<exists>e. coerce_to_policy_result n raw = Inl e" for n
    using assms(1)
    by (cases raw) (auto simp: no_verdict_def coerce_to_policy_result_def policy_result_from_dict_def Let_def)
  then obtain e where "coerce_to_policy_result (ps_name spec) raw = Inl e" by blast
  with assms(2,3) show ?thesis
    by (simp add: dispatch_policy_def function_policy_def function_evaluate_def call_policy_def policy_result_of_def)
qed

theorem garbage_verdict_denies_witness:
  "pr_action (fst (dispatch_policy (function_policy (fx_spec ''odd'') (event_callable (\<lambda>ev. Inr (RDict [(''result'', PStr ''maybe'')])) ()))
      (fx_ctx REQUEST) (context_bundle fx_mixed))) = DENY"
proof -
  have "policy_action_of (str_lower ''maybe'') = None" by code_simp
  then show ?thesis
    by (intro garbage_verdict_denies [of "RDict [(''result'', PStr ''maybe'')]" _ _ "()"])
      (simp_all add: no_verdict_def pget_def event_callable_def callable_arity_def event_sig_def)
qed

end
