(* ===== verification/Egress.thy ===== *)
theory Egress
  imports Prelude
begin

text \<open>
  Egress rules (\<^verbatim>\<open>inner/egress/rules.py\<close>): the host grammar, the rule record with its method, host
  and path matching, the rule parser and the two checks of the proxy. The path glob is compiled
  to a regular expression in the source; here the compiled form is a token list, and
  \<open>toks_match\<close> is the match of that expression under Python's rules (the dot does not match a
  newline, the final dollar also matches before one trailing newline). The compile cache
  changes nothing that is observable and is left out.
\<close>

section \<open>Hosts\<close>

definition dns_char :: "char \<Rightarrow> bool" where
  "dns_char c \<longleftrightarrow>
     (65 \<le> char_code c \<and> char_code c \<le> 90) \<or> (97 \<le> char_code c \<and> char_code c \<le> 122) \<or>
     is_digit c \<or> c = CHR ''.'' \<or> c = CHR ''-''"

definition is_dns_safe_host :: "string \<Rightarrow> bool" where
  "is_dns_safe_host host \<longleftrightarrow> host \<noteq> [] \<and> (\<forall>c \<in> set host. dns_char c)"

section \<open>Path globs\<close>

text \<open>The pieces of the compiled expression: \<^verbatim>\<open>.*\<close>, \<^verbatim>\<open>[^/]*\<close>, \<^verbatim>\<open>[^/]\<close> and an escaped character.\<close>

datatype glob_tok = DotStar | SegStar | SegOne | Lit char

fun glob_to_regex :: "string \<Rightarrow> glob_tok list" where
  "glob_to_regex [] = []"
| "glob_to_regex (c # cs) =
     (if c = CHR ''*'' then
        (case cs of
           d # ds \<Rightarrow>
             (if d = CHR ''*'' then
                DotStar # (case ds of e # es \<Rightarrow> if e = CHR ''/'' then glob_to_regex es else glob_to_regex ds
                           | [] \<Rightarrow> [])
              else SegStar # glob_to_regex cs)
         | [] \<Rightarrow> [SegStar])
      else if c = CHR ''?'' then SegOne # glob_to_regex cs
      else Lit c # glob_to_regex cs)"

fun tok_ok :: "glob_tok \<Rightarrow> char \<Rightarrow> bool" where
  "tok_ok DotStar c = (c \<noteq> CHR 10)"
| "tok_ok SegStar c = (c \<noteq> CHR ''/'')"
| "tok_ok SegOne c = (c \<noteq> CHR ''/'')"
| "tok_ok (Lit d) c = (c = d)"

fun is_star :: "glob_tok \<Rightarrow> bool" where
  "is_star DotStar = True"
| "is_star SegStar = True"
| "is_star t = False"

fun toks_match :: "glob_tok list \<Rightarrow> string \<Rightarrow> bool" where
  "toks_match [] s = (s = [] \<or> s = [CHR 10])"
| "toks_match (t # ts) s =
     (if is_star t then
        toks_match ts s \<or> (case s of c # s' \<Rightarrow> tok_ok t c \<and> toks_match (t # ts) s' | [] \<Rightarrow> False)
      else (case s of c # s' \<Rightarrow> tok_ok t c \<and> toks_match ts s' | [] \<Rightarrow> False))"

definition glob_match :: "string \<Rightarrow> string \<Rightarrow> bool" where
  "glob_match pat v = toks_match (glob_to_regex pat) v"

section \<open>Rules\<close>

text \<open>The method frozenset is a list without duplicates.\<close>

record egress_rule =
  er_methods :: "string list"
  er_host_pattern :: string
  er_path_pattern :: string

definition method_matches :: "egress_rule \<Rightarrow> string \<Rightarrow> bool" where
  "method_matches r meth =
     (if ''*'' \<in> set (er_methods r) then True else str_upper meth \<in> set (er_methods r))"

definition host_matches :: "egress_rule \<Rightarrow> string \<Rightarrow> bool" where
  "host_matches r host =
     (if \<not> is_dns_safe_host host then False
      else (let h = str_lower host; pat = str_lower (er_host_pattern r)
            in if startswith pat ''*.'' then endswith h (drop 1 pat) \<or> h = drop 2 pat
               else h = pat))"

definition path_matches :: "egress_rule \<Rightarrow> string \<Rightarrow> bool" where
  "path_matches r path =
     glob_match (er_path_pattern r) (if startswith path ''/'' then path else ''/'' @ path)"

definition rule_matches :: "egress_rule \<Rightarrow> string \<Rightarrow> string \<Rightarrow> string \<Rightarrow> bool" where
  "rule_matches r meth host path =
     (if \<not> method_matches r meth then False
      else if \<not> host_matches r host then False
      else path_matches r path)"

definition VALID_METHODS :: "string list" where
  "VALID_METHODS =
     [''GET'', ''HEAD'', ''POST'', ''PUT'', ''DELETE'', ''PATCH'', ''OPTIONS'', ''TRACE'', ''*'']"

definition parse_methods :: "string \<Rightarrow> string list" where
  "parse_methods s =
     remdups (map (\<lambda>m. str_upper (str_strip m)) (filter (\<lambda>m. str_strip m \<noteq> []) (split_char (CHR '','') s)))"

definition parse_rule :: "string \<Rightarrow> egress_rule res" where
  "parse_rule rule_str =
     (let s = str_strip rule_str
      in if s = [] then Inl (ValueError ''Empty egress rule'')
         else (case split_ws1 s of
           [methods_str, url_part] \<Rightarrow>
             (let methods = parse_methods methods_str;
                  bad = filter (\<lambda>m. m \<notin> set VALID_METHODS) methods;
                  host_pattern = (if CHR ''/'' \<in> set url_part then before_first (CHR ''/'') url_part else url_part);
                  path_pattern = (if CHR ''/'' \<in> set url_part
                                  then CHR ''/'' # after_first (CHR ''/'') url_part else ''/**'')
              in if methods = [] then Inl (ValueError (''No methods specified in rule: '' @ repr_str s))
                 else if bad \<noteq> [] then
                   Inl (ValueError (''Invalid HTTP method(s) {'' @ str_join '', '' (map repr_str bad) @
                     ''} in rule: '' @ repr_str s))
                 else if host_pattern = [] then Inl (ValueError (''Empty host in rule: '' @ repr_str s))
                 else Inr \<lparr>er_methods = methods, er_host_pattern = host_pattern,
                           er_path_pattern = (if startswith path_pattern ''/'' then path_pattern
                                              else ''/'' @ path_pattern)\<rparr>)
         | _ \<Rightarrow> Inl (ValueError (''Egress rule must be '' @ [CHR 39] @ ''METHODS host/path'' @ [CHR 39] @
                     '', got: '' @ repr_str s))))"

definition parse_rules :: "string list \<Rightarrow> egress_rule list res" where
  "parse_rules ss = mapM_res parse_rule ss"

definition check_request :: "egress_rule list \<Rightarrow> string \<Rightarrow> string \<Rightarrow> string \<Rightarrow> bool" where
  "check_request rules meth host path = (\<exists>r \<in> set rules. rule_matches r meth host path)"

definition check_host :: "egress_rule list \<Rightarrow> string \<Rightarrow> bool" where
  "check_host rules host = (\<exists>r \<in> set rules. host_matches r host)"

section \<open>The language of a glob\<close>

text \<open>The reference reading of a compiled glob: the strings it denotes.\<close>

inductive glob_lang :: "glob_tok list \<Rightarrow> string \<Rightarrow> bool" where
  lang_Nil: "glob_lang [] []"
| lang_newline: "glob_lang [] [CHR 10]"
| lang_one: "\<not> is_star t \<Longrightarrow> tok_ok t c \<Longrightarrow> glob_lang ts s \<Longrightarrow> glob_lang (t # ts) (c # s)"
| lang_star: "is_star t \<Longrightarrow> \<forall>c \<in> set u. tok_ok t c \<Longrightarrow> glob_lang ts s \<Longrightarrow> glob_lang (t # ts) (u @ s)"

inductive_cases glob_lang_NilE: "glob_lang [] s"
inductive_cases glob_lang_ConsE: "glob_lang (t # ts) s"

lemma toks_match_star_append:
  "is_star t \<Longrightarrow> \<forall>c \<in> set u. tok_ok t c \<Longrightarrow> toks_match ts s \<Longrightarrow> toks_match (t # ts) (u @ s)"
  by (induction u) auto

lemma toks_match_imp_lang: "toks_match ts s \<Longrightarrow> glob_lang ts s"
proof (induction ts s rule: toks_match.induct)
  case (1 s)
  then show ?case by (auto intro: glob_lang.intros)
next
  case (2 t ts s)
  show ?case
  proof (cases "is_star t")
    case False
    with 2 show ?thesis by (auto split: list.splits intro: glob_lang.intros)
  next
    case star: True
    show ?thesis
    proof (cases "toks_match ts s")
      case True
      with 2 star lang_star [of t "[]"] show ?thesis by simp
    next
      case False
      with "2.prems" star obtain c s' where s: "s = c # s'" "tok_ok t c" "toks_match (t # ts) s'"
        by (auto split: list.splits)
      with "2.IH"(2) [OF star] have "glob_lang (t # ts) s'" by blast
      then obtain u v where u: "s' = u @ v" "\<forall>c \<in> set u. tok_ok t c" "glob_lang ts v"
        using star by (auto elim: glob_lang_ConsE)
      then show ?thesis using lang_star [OF star, of "c # u" ts v] s by simp
    qed
  qed
qed

lemma lang_imp_toks_match: "glob_lang ts s \<Longrightarrow> toks_match ts s"
  by (induction rule: glob_lang.induct) (auto simp: toks_match_star_append simp del: toks_match.simps(2), auto)

section \<open>Lemmas on hosts and rules\<close>

lemma host_matches_safe: "host_matches r h \<Longrightarrow> is_dns_safe_host h"
  by (simp add: host_matches_def split: if_splits)

lemma host_matches_iff:
  "host_matches r h \<longleftrightarrow> is_dns_safe_host h \<and>
     (let pat = str_lower (er_host_pattern r)
      in (\<exists>d. pat = ''*.'' @ d \<and> (str_lower h = d \<or> (\<exists>sub. str_lower h = sub @ ''.'' @ d))) \<or>
         (\<not> startswith pat ''*.'' \<and> str_lower h = pat))"
proof -
  have "endswith x (drop 1 p) \<longleftrightarrow> (\<exists>sub. x = sub @ ''.'' @ d)" if "p = ''*.'' @ d" for x p d :: string
    using that by (auto simp: endswith_iff)
  then show ?thesis by (auto simp: host_matches_def Let_def startswith_iff)
qed

lemma parse_rule_Inr:
  assumes "parse_rule s = Inr r"
  shows "er_methods r \<noteq> []" and "set (er_methods r) \<subseteq> set VALID_METHODS" and "distinct (er_methods r)"
    and "er_host_pattern r \<noteq> []" and "CHR ''/'' \<notin> set (er_host_pattern r)" and "startswith (er_path_pattern r) ''/''"
proof -
  obtain m u where sp: "split_ws1 (str_strip s) = [m, u]"
    using assms by (auto simp: parse_rule_def Let_def split: if_splits list.splits)
  have notin: "CHR ''/'' \<notin> set (before_first (CHR ''/'') u)"
    by (auto simp: before_first_def dest: set_takeWhileD)
  show "er_methods r \<noteq> []" "distinct (er_methods r)" "er_host_pattern r \<noteq> []" "startswith (er_path_pattern r) ''/''"
    using assms sp by (auto simp: parse_rule_def Let_def parse_methods_def startswith_def split: if_splits)
  show "CHR ''/'' \<notin> set (er_host_pattern r)"
    using assms sp notin by (auto simp: parse_rule_def Let_def split: if_splits)
  show "set (er_methods r) \<subseteq> set VALID_METHODS"
    using assms sp by (auto simp: parse_rule_def Let_def filter_empty_conv split: if_splits)
qed

section \<open>Printing a rule\<close>

definition no_space :: "string \<Rightarrow> bool" where
  "no_space s \<longleftrightarrow> (\<forall>c \<in> set s. \<not> is_space c)"

definition print_rule :: "egress_rule \<Rightarrow> string" where
  "print_rule r = str_join '','' (er_methods r) @ '' '' @ er_host_pattern r @ er_path_pattern r"

definition wf_rule :: "egress_rule \<Rightarrow> bool" where
  "wf_rule r \<longleftrightarrow>
     er_methods r \<noteq> [] \<and> distinct (er_methods r) \<and> set (er_methods r) \<subseteq> set VALID_METHODS \<and>
     er_host_pattern r \<noteq> [] \<and> CHR ''/'' \<notin> set (er_host_pattern r) \<and> no_space (er_host_pattern r) \<and>
     startswith (er_path_pattern r) ''/'' \<and> no_space (er_path_pattern r)"

lemma set_str_join: "set (str_join sep xs) \<subseteq> set sep \<union> \<Union> (set ` set xs)"
proof (induction xs)
  case (Cons x xs)
  then show ?case by (cases xs) auto
qed simp

lemma no_space_str_join:
  assumes "no_space sep" and "\<forall>x \<in> set xs. no_space x"
  shows "no_space (str_join sep xs)"
  using assms set_str_join [of sep xs] unfolding no_space_def by blast

lemma dropWhile_no_space: "no_space s \<Longrightarrow> dropWhile is_space s = s"
  by (cases s) (auto simp: no_space_def)

lemma str_strip_no_space: "no_space s \<Longrightarrow> str_strip s = s"
  by (simp add: str_strip_def dropWhile_no_space no_space_def)

lemma str_strip_ends:
  assumes "no_space a" and "a \<noteq> []" and "no_space b" and "b \<noteq> []"
  shows "str_strip (a @ m @ b) = a @ m @ b"
proof -
  have "dropWhile is_space (a @ x) = a @ x" for x
    using assms(1,2) by (cases a) (auto simp: no_space_def)
  moreover have "dropWhile is_space (rev b @ x) = rev b @ x" for x
    using assms(3,4) by (cases "rev b") (auto simp: no_space_def)
  ultimately show ?thesis by (simp add: str_strip_def)
qed

lemma split_ws1_pair:
  assumes "no_space a" and "a \<noteq> []" and "no_space b" and "b \<noteq> []"
  shows "split_ws1 (a @ '' '' @ b) = [a, b]"
proof -
  have sp: "is_space (CHR '' '')" by (simp add: is_space_def char_code_def)
  have "dropWhile is_space (a @ x) = a @ x" for x
    using assms(1,2) by (cases a) (auto simp: no_space_def)
  moreover have "takeWhile (\<lambda>c. \<not> is_space c) (a @ '' '' @ b) = a"
    "dropWhile (\<lambda>c. \<not> is_space c) (a @ '' '' @ b) = '' '' @ b"
    using assms(1) sp by (simp_all add: no_space_def takeWhile_append dropWhile_append)
  ultimately show ?thesis using assms sp by (simp add: split_ws1_def Let_def dropWhile_no_space)
qed

lemma valid_method_facts:
  "m \<in> set VALID_METHODS \<Longrightarrow> no_space m \<and> m \<noteq> [] \<and> CHR '','' \<notin> set m \<and> str_upper m = m"
proof -
  have "\<forall>m \<in> set VALID_METHODS. no_space m \<and> m \<noteq> [] \<and> CHR '','' \<notin> set m \<and> str_upper m = m" by code_simp
  then show "m \<in> set VALID_METHODS \<Longrightarrow> no_space m \<and> m \<noteq> [] \<and> CHR '','' \<notin> set m \<and> str_upper m = m" by blast
qed

lemma str_join_not_Nil:
  assumes "xs \<noteq> []" and "\<forall>x \<in> set xs. x \<noteq> []"
  shows "str_join sep xs \<noteq> []"
proof -
  obtain y ys where "xs = y # ys" using assms(1) by (cases xs) auto
  then show ?thesis using assms(2) by (cases ys) auto
qed

lemma parse_methods_print:
  assumes "ms \<noteq> []" and "distinct ms" and "set ms \<subseteq> set VALID_METHODS"
  shows "parse_methods (str_join '','' ms) = ms"
proof -
  have facts: "\<forall>m \<in> set ms. no_space m \<and> m \<noteq> [] \<and> CHR '','' \<notin> set m \<and> str_upper m = m"
    using assms(3) valid_method_facts by blast
  then have "split_char (CHR '','') (str_join '','' ms) = ms" using split_char_join assms(1) by blast
  moreover have "filter (\<lambda>m. str_strip m \<noteq> []) ms = ms"
    using facts by (simp add: filter_id_conv str_strip_no_space)
  moreover have "map (\<lambda>m. str_upper (str_strip m)) ms = ms"
    using facts by (simp add: map_idI str_strip_no_space)
  ultimately show ?thesis using assms(2) by (simp add: parse_methods_def)
qed

lemma split_host_path:
  assumes "CHR ''/'' \<notin> set h"
  shows "before_first (CHR ''/'') (h @ CHR ''/'' # p) = h" and "after_first (CHR ''/'') (h @ CHR ''/'' # p) = p"
  using assms by (simp_all add: before_first_def after_first_def takeWhile_append dropWhile_append)

text \<open>
  Two readings of the compiled form that differ from the documented glob: a \<^verbatim>\<open>**/\<close> also matches inside
  a segment, because the slash after it is dropped, and a trailing newline is accepted.
\<close>

lemma glob_deep_matches_partial_segment: "glob_match ''/a/**/b'' ''/a/xb''"
  by code_simp

lemma glob_accepts_trailing_newline: "glob_match ''/a'' (''/a'' @ [CHR 10])"
  by code_simp

section \<open>Properties\<close>


text \<open>
  Rejecting a CONNECT by its host alone is sound: a request that the rules allow on any method
  and path passes the host check, and every host that passes it is DNS-safe.
\<close>

theorem check_host_sound:
  "(check_request rules meth host path \<longrightarrow> check_host rules host) \<and> (check_host rules host \<longrightarrow> is_dns_safe_host host)"
  by (auto simp: check_request_def check_host_def rule_matches_def split: if_splits dest: host_matches_safe)

theorem check_host_sound_witness:
  "check_host [\<lparr>er_methods = [''GET''], er_host_pattern = ''*.github.com'', er_path_pattern = ''/repos/**''\<rparr>]
     ''API.github.com''"
proof -
  have "check_request [\<lparr>er_methods = [''GET''], er_host_pattern = ''*.github.com'', er_path_pattern = ''/repos/**''\<rparr>]
     ''get'' ''API.github.com'' ''/repos/x/y''" by code_simp
  then show ?thesis using check_host_sound by blast
qed

text \<open>
  what the rule parser accepts is well formed: a non-empty set of valid methods, a non-empty
  host pattern without a slash, a path pattern that starts with a slash.
\<close>

theorem parse_rule_well_formed:
  assumes "parse_rule s = Inr r"
  shows "er_methods r \<noteq> [] \<and> set (er_methods r) \<subseteq> set VALID_METHODS \<and> distinct (er_methods r) \<and>
    er_host_pattern r \<noteq> [] \<and> CHR ''/'' \<notin> set (er_host_pattern r) \<and> startswith (er_path_pattern r) ''/''"
  using parse_rule_Inr [OF assms] by blast

theorem parse_rule_well_formed_witness:
  "er_path_pattern (projr (parse_rule ''  get,POST pypi.org '')) = ''/**'' \<and>
   startswith (er_path_pattern (projr (parse_rule ''  get,POST pypi.org ''))) ''/''"
proof -
  have p: "parse_rule ''  get,POST pypi.org '' =
      Inr \<lparr>er_methods = [''GET'', ''POST''], er_host_pattern = ''pypi.org'', er_path_pattern = ''/**''\<rparr>"
    by code_simp
  from parse_rule_well_formed [OF p] p show ?thesis by simp
qed

text \<open>
  parsing the printed form of a well-formed rule gives the rule back.
\<close>

theorem parse_print_rule:
  assumes "wf_rule r"
  shows "parse_rule (print_rule r) = Inr r"
proof -
  let ?m = "str_join '','' (er_methods r)" and ?u = "er_host_pattern r @ er_path_pattern r"
  have ms: "er_methods r \<noteq> []" "distinct (er_methods r)" "set (er_methods r) \<subseteq> set VALID_METHODS"
    and h: "er_host_pattern r \<noteq> []" "CHR ''/'' \<notin> set (er_host_pattern r)"
    and ns: "no_space ?u" using assms by (auto simp: wf_rule_def no_space_def)
  obtain p where p: "er_path_pattern r = CHR ''/'' # p" using assms by (auto simp: wf_rule_def startswith_iff)
  have facts: "\<forall>m \<in> set (er_methods r). no_space m \<and> m \<noteq> []" using ms(3) valid_method_facts by blast
  have "no_space '',''" by code_simp
  then have nm: "no_space ?m" "?m \<noteq> []"
    using no_space_str_join str_join_not_Nil ms(1) facts by blast+
  have pr: "print_rule r = ?m @ '' '' @ ?u" by (simp add: print_rule_def)
  have ne: "?u \<noteq> []" using h by simp
  have strip: "str_strip (?m @ '' '' @ ?u) = ?m @ '' '' @ ?u" by (rule str_strip_ends [OF nm ns ne])
  have split: "split_ws1 (?m @ '' '' @ ?u) = [?m, ?u]" by (rule split_ws1_pair [OF nm ns ne])
  have slash: "CHR ''/'' \<in> set ?u" by (simp add: p)
  have parts: "before_first (CHR ''/'') ?u = er_host_pattern r" "after_first (CHR ''/'') ?u = p"
    using split_host_path [OF h(2), of p] by (simp_all add: p)
  have nobad: "filter (\<lambda>m. m \<notin> set VALID_METHODS) (er_methods r) = []"
    using ms(3) by (auto simp: filter_empty_conv)
  have sw: "startswith (CHR ''/'' # p) ''/''" by (simp add: startswith_def)
  show ?thesis
    unfolding parse_rule_def pr strip Let_def split
    using parts parse_methods_print [OF ms] nobad slash ms(1) h(1) sw nm(2) p by (simp del: set_append)
qed

theorem parse_print_rule_witness:
  "parse_rule (print_rule \<lparr>er_methods = [''GET'', ''*''], er_host_pattern = ''*.x.org'', er_path_pattern = ''/a/?/**''\<rparr>) =
   Inr \<lparr>er_methods = [''GET'', ''*''], er_host_pattern = ''*.x.org'', er_path_pattern = ''/a/?/**''\<rparr>"
proof -
  have "wf_rule \<lparr>er_methods = [''GET'', ''*''], er_host_pattern = ''*.x.org'', er_path_pattern = ''/a/?/**''\<rparr>"
    by code_simp
  then show ?thesis by (rule parse_print_rule)
qed

end
