(* ===== verification/Permissions.thy ===== *)
theory Permissions
  imports ConversationStore
begin

text \<open>
  Session permissions: the permission store (\<^verbatim>\<open>stores/permission_store/sqlalchemy_store.py\<close>) and the access
  decision of the route handlers (\<^verbatim>\<open>server/permissions.py\<close>). The grants table has the rows that
  the conversation store's owner lookup reads; a table is a list of rows, its primary key
  an invariant. The locale \<open>grant_table\<close> is the contract the access decision relies on.
\<close>

section \<open>Tables\<close>

definition LEVEL_READ :: int where "LEVEL_READ = 1"
definition LEVEL_EDIT :: int where "LEVEL_EDIT = 2"
definition LEVEL_MANAGE :: int where "LEVEL_MANAGE = 3"
definition LEVEL_OWNER :: int where "LEVEL_OWNER = 4"

definition RESERVED_USER_LOCAL :: string where
  "RESERVED_USER_LOCAL = ''local''"

record user_row =
  ur_id :: string
  ur_is_admin :: bool
  ur_password_hash :: "string option"
  ur_created_at :: "int option"
  ur_last_login_at :: "int option"

record account =
  ac_id :: string
  ac_is_admin :: bool
  ac_created_at :: "int option"
  ac_last_login_at :: "int option"
  ac_has_password :: bool

text \<open>A row of \<open>pd_grants\<close> is conversation, grantee and level, as in \<open>st_grants\<close>.\<close>

record perm_db =
  pd_users :: "user_row list"
  pd_grants :: "(string \<times> string \<times> int) list"

definition grant_key :: "string \<times> string \<times> int \<Rightarrow> string \<times> string" where
  "grant_key = (\<lambda>(c, u, l). (u, c))"

definition perm_ok :: "perm_db \<Rightarrow> bool" where
  "perm_ok db \<longleftrightarrow> distinct (map grant_key (pd_grants db)) \<and> distinct (map ur_id (pd_users db))"

definition get_grant :: "perm_db \<Rightarrow> string \<Rightarrow> string \<Rightarrow> int option" where
  "get_grant db u c = map_option (snd \<circ> snd) (find (\<lambda>g. grant_key g = (u, c)) (pd_grants db))"

definition get_user :: "perm_db \<Rightarrow> string \<Rightarrow> user_row option" where
  "get_user db u = find (\<lambda>r. ur_id r = u) (pd_users db)"

section \<open>Operations of the store\<close>

text \<open>\<^verbatim>\<open>ON CONFLICT (user_id, conversation_id) DO UPDATE SET level\<close>.\<close>

fun upsert_grant :: "string \<Rightarrow> string \<Rightarrow> int \<Rightarrow> (string \<times> string \<times> int) list \<Rightarrow> (string \<times> string \<times> int) list" where
  "upsert_grant u c l [] = [(c, u, l)]"
| "upsert_grant u c l (g # gs) = (if grant_key g = (u, c) then (c, u, l) # gs else g # upsert_grant u c l gs)"

definition grant :: "perm_db \<Rightarrow> string \<Rightarrow> string \<Rightarrow> int \<Rightarrow> perm_db" where
  "grant db u c l = db\<lparr>pd_grants := upsert_grant u c l (pd_grants db)\<rparr>"

definition revoke :: "perm_db \<Rightarrow> string \<Rightarrow> string \<Rightarrow> bool \<times> perm_db" where
  "revoke db u c =
     (let kept = filter (\<lambda>g. grant_key g \<noteq> (u, c)) (pd_grants db)
      in (length kept < length (pd_grants db), db\<lparr>pd_grants := kept\<rparr>))"

definition blank_user :: "string \<Rightarrow> bool \<Rightarrow> user_row" where
  "blank_user u admin =
     \<lparr>ur_id = u, ur_is_admin = admin, ur_password_hash = None, ur_created_at = None, ur_last_login_at = None\<rparr>"

text \<open>\<^verbatim>\<open>ON CONFLICT (id) DO NOTHING\<close>.\<close>

definition ensure_user :: "perm_db \<Rightarrow> string \<Rightarrow> bool \<Rightarrow> perm_db" where
  "ensure_user db u admin =
     (case get_user db u of
        Some r \<Rightarrow> db
      | None \<Rightarrow> db\<lparr>pd_users := pd_users db @ [blank_user u admin]\<rparr>)"

definition repoint :: "string \<Rightarrow> string \<Rightarrow> string \<Rightarrow> perm_db \<Rightarrow> perm_db" where
  "repoint u v c db =
     db\<lparr>pd_grants := map (\<lambda>g. if grant_key g = (u, c) then (c, v, snd (snd g)) else g) (pd_grants db)\<rparr>"

text \<open>One iteration of the loop over the source user's grants, with the running count.\<close>

definition move_grant :: "string \<Rightarrow> string \<Rightarrow> string \<times> string \<times> int \<Rightarrow> nat \<times> perm_db \<Rightarrow> nat \<times> perm_db" where
  "move_grant from_user to_user g =
     (\<lambda>(moved, db).
        (case get_grant db to_user (fst g) of
           Some l \<Rightarrow> (moved, snd (revoke db from_user (fst g)))
         | None \<Rightarrow> (Suc moved, repoint from_user to_user (fst g) db)))"

definition list_for_user :: "perm_db \<Rightarrow> string \<Rightarrow> (string \<times> string \<times> int) list" where
  "list_for_user db u = filter (\<lambda>(c, v, l). v = u) (pd_grants db)"

definition list_for_session :: "perm_db \<Rightarrow> string \<Rightarrow> (string \<times> string \<times> int) list" where
  "list_for_session db c = filter (\<lambda>(d, v, l). d = c) (pd_grants db)"

definition list_for_sessions :: "perm_db \<Rightarrow> string list \<Rightarrow> (string \<times> string \<times> int) list dict" where
  "list_for_sessions db cs =
     (if cs = [] then []
      else map (\<lambda>c. (c, list_for_session db c)) (rev (remdups (rev cs))))"

definition reassign_user_grants :: "perm_db \<Rightarrow> string \<Rightarrow> string \<Rightarrow> nat \<times> perm_db" where
  "reassign_user_grants db from_user to_user =
     (let db1 = ensure_user db to_user False
      in fold (move_grant from_user to_user) (list_for_user db1 from_user) (0, db1))"

definition HIDDEN_LIST_USERS :: "string list" where
  "HIDDEN_LIST_USERS = [RESERVED_USER_PUBLIC, RESERVED_USER_LOCAL]"

definition to_account :: "user_row \<Rightarrow> account" where
  "to_account r =
     \<lparr>ac_id = ur_id r, ac_is_admin = ur_is_admin r, ac_created_at = ur_created_at r,
      ac_last_login_at = ur_last_login_at r, ac_has_password = (ur_password_hash r \<noteq> None)\<rparr>"

definition list_users :: "perm_db \<Rightarrow> account list" where
  "list_users db = map to_account (filter (\<lambda>r. ur_id r \<notin> set HIDDEN_LIST_USERS) (pd_users db))"

definition is_admin :: "perm_db \<Rightarrow> string \<Rightarrow> bool" where
  "is_admin db u = (case get_user db u of Some r \<Rightarrow> ur_is_admin r | None \<Rightarrow> False)"

definition set_admin :: "perm_db \<Rightarrow> string \<Rightarrow> bool \<Rightarrow> perm_db" where
  "set_admin db u b =
     db\<lparr>pd_users := map (\<lambda>r. if ur_id r = u then r\<lparr>ur_is_admin := b\<rparr> else r) (pd_users db)\<rparr>"

definition check_access :: "perm_db \<Rightarrow> string option \<Rightarrow> string \<Rightarrow> int \<Rightarrow> bool" where
  "check_access db user c lvl =
     (case user of
        None \<Rightarrow> False
      | Some u \<Rightarrow>
          (case get_grant db u c of Some l \<Rightarrow> lvl \<le> l | None \<Rightarrow> False) \<or>
          (case get_grant db RESERVED_USER_PUBLIC c of Some l \<Rightarrow> lvl \<le> l | None \<Rightarrow> False))"

definition get_permission_level :: "perm_db \<Rightarrow> string option \<Rightarrow> string \<Rightarrow> int option" where
  "get_permission_level db user c =
     (case user of
        None \<Rightarrow> None
      | Some u \<Rightarrow>
          if is_admin db u then Some LEVEL_OWNER
          else (case get_grant db u c of
                  Some l \<Rightarrow> Some l
                | None \<Rightarrow> get_grant db RESERVED_USER_PUBLIC c))"

record resolved_access =
  ra_is_admin :: bool
  ra_user_level :: "int option"
  ra_public_level :: "int option"

definition resolve_access :: "perm_db \<Rightarrow> string option \<Rightarrow> string \<Rightarrow> resolved_access" where
  "resolve_access db user c =
     (case user of
        None \<Rightarrow> \<lparr>ra_is_admin = False, ra_user_level = None, ra_public_level = None\<rparr>
      | Some u \<Rightarrow>
          \<lparr>ra_is_admin = is_admin db u, ra_user_level = get_grant db u c,
           ra_public_level = get_grant db RESERVED_USER_PUBLIC c\<rparr>)"

definition has_any_grants :: "perm_db \<Rightarrow> string \<Rightarrow> bool" where
  "has_any_grants db c = (\<exists>g \<in> set (pd_grants db). fst g = c)"

section \<open>The access decision\<close>

text \<open>Delegation to the parent conversation; \<open>None\<close> is an unbounded recursion.\<close>

partial_function (option) check_session_access ::
    "perm_db \<Rightarrow> conv_store \<Rightarrow> string option \<Rightarrow> string \<Rightarrow> int \<Rightarrow> bool option" where
  "check_session_access db st user c lvl =
     (if (case user of Some u \<Rightarrow> is_admin db u | None \<Rightarrow> False) then Some True
      else (case get_conversation st c of
              None \<Rightarrow> Some False
            | Some conv \<Rightarrow>
                (case cv_parent conv of
                   Some p \<Rightarrow> check_session_access db st user p lvl
                 | None \<Rightarrow> Some (check_access db user c lvl))))"

declare check_session_access.simps [code]

definition check_is_manager :: "perm_db \<Rightarrow> conv_store \<Rightarrow> string option \<Rightarrow> string \<Rightarrow> bool option" where
  "check_is_manager db st user c = check_session_access db st user c LEVEL_MANAGE"

definition resolved_allows :: "resolved_access \<Rightarrow> int \<Rightarrow> bool" where
  "resolved_allows a lvl =
     (if ra_is_admin a then True
      else if (case ra_user_level a of Some l \<Rightarrow> lvl \<le> l | None \<Rightarrow> False) then True
      else if (case ra_public_level a of Some l \<Rightarrow> lvl \<le> l | None \<Rightarrow> False) then True
      else False)"

definition resolved_level :: "resolved_access \<Rightarrow> int option" where
  "resolved_level a =
     (if ra_is_admin a then Some LEVEL_OWNER
      else (case ra_user_level a of Some l \<Rightarrow> Some l | None \<Rightarrow> ra_public_level a))"

section \<open>The grant table contract\<close>

locale grant_table =
  fixes look :: "'db \<Rightarrow> string \<Rightarrow> string \<Rightarrow> int option"
    and put :: "'db \<Rightarrow> string \<Rightarrow> string \<Rightarrow> int \<Rightarrow> 'db"
    and del :: "'db \<Rightarrow> string \<Rightarrow> string \<Rightarrow> 'db"
    and ok :: "'db \<Rightarrow> bool"
  assumes ok_put: "ok db \<Longrightarrow> ok (put db u c l)"
    and ok_del: "ok db \<Longrightarrow> ok (del db u c)"
    and look_put: "ok db \<Longrightarrow> look (put db u c l) v d = (if v = u \<and> d = c then Some l else look db v d)"
    and look_del: "ok db \<Longrightarrow> look (del db u c) v d = (if v = u \<and> d = c then None else look db v d)"
begin

lemma put_del: "ok db \<Longrightarrow> look (del (put db u c l) u c) v d = look (del db u c) v d"
  by (simp add: look_put look_del ok_put)

lemma put_put: "ok db \<Longrightarrow> look (put (put db u c l) u c m) v d = look (put db u c m) v d"
  by (simp add: look_put ok_put)

lemma put_commute: "ok db \<Longrightarrow> (u, c) \<noteq> (v, d) \<Longrightarrow> look (put (put db u c l) v d m) w e = look (put (put db v d m) u c l) w e"
  by (auto simp: look_put ok_put)

end

section \<open>Laws of the tables\<close>

lemma grant_key_simp [simp]: "grant_key (c, u, l) = (u, c)"
  by (simp add: grant_key_def)

lemma grant_key_eq: "grant_key g = (u, c) \<longleftrightarrow> (\<exists>l. g = (c, u, l))"
  by (cases g) auto

lemma find_grant:
  assumes "distinct (map grant_key gs)"
  shows "map_option (snd \<circ> snd) (find (\<lambda>g. grant_key g = (u, c)) gs) = Some l \<longleftrightarrow> (c, u, l) \<in> set gs"
  using assms
proof (induction gs)
  case (Cons g gs)
  show ?case
  proof (cases "grant_key g = (u, c)")
    case True
    then obtain m where g: "g = (c, u, m)" by (auto simp: grant_key_eq)
    have "(c, u, l) \<notin> set gs" using Cons.prems g by force
    with g show ?thesis by auto
  qed (use Cons in auto)
qed simp

lemma get_grant_iff: "perm_ok db \<Longrightarrow> get_grant db u c = Some l \<longleftrightarrow> (c, u, l) \<in> set (pd_grants db)"
  unfolding get_grant_def perm_ok_def by (rule find_grant) simp

lemma get_grant_cong: "pd_grants db = pd_grants db' \<Longrightarrow> get_grant db u c = get_grant db' u c"
  by (simp add: get_grant_def)

lemma set_upsert_grant:
  "distinct (map grant_key gs) \<Longrightarrow>
   set (upsert_grant u c l gs) = insert (c, u, l) {g \<in> set gs. grant_key g \<noteq> (u, c)} \<and>
   distinct (map grant_key (upsert_grant u c l gs))"
proof (induction gs)
  case (Cons g gs)
  show ?case
  proof (cases "grant_key g = (u, c)")
    case True
    then have "(u, c) \<notin> grant_key ` set gs" using Cons.prems by auto
    then have "\<forall>h \<in> set gs. grant_key h \<noteq> (u, c)" by force
    then show ?thesis using True Cons.prems by auto
  next
    case False
    then show ?thesis using Cons by (auto simp: image_iff)
  qed
qed auto

lemma perm_ok_grant: "perm_ok db \<Longrightarrow> perm_ok (grant db u c l)"
  using set_upsert_grant [of "pd_grants db"] by (simp add: perm_ok_def grant_def)

lemma perm_ok_revoke: "perm_ok db \<Longrightarrow> perm_ok (snd (revoke db u c))"
  by (simp add: perm_ok_def revoke_def Let_def distinct_map_filter)

lemma set_revoke: "set (pd_grants (snd (revoke db u c))) = {g \<in> set (pd_grants db). grant_key g \<noteq> (u, c)}"
  by (auto simp: revoke_def Let_def)

lemma option_eq_by_Some: "(\<And>l. x = Some l \<longleftrightarrow> y = Some l) \<Longrightarrow> x = y"
  by (cases x; cases y) auto

interpretation grants: grant_table get_grant grant "\<lambda>db u c. snd (revoke db u c)" perm_ok
proof
  fix db u c l v d
  assume ok: "perm_ok db"
  show "perm_ok (grant db u c l)" using ok by (rule perm_ok_grant)
  show "perm_ok (snd (revoke db u c))" using ok by (rule perm_ok_revoke)
  have "set (pd_grants (grant db u c l)) = insert (c, u, l) {g \<in> set (pd_grants db). grant_key g \<noteq> (u, c)}"
    using set_upsert_grant [of "pd_grants db"] ok by (simp add: perm_ok_def grant_def)
  then show "get_grant (grant db u c l) v d = (if v = u \<and> d = c then Some l else get_grant db v d)"
    by (intro option_eq_by_Some) (auto simp: get_grant_iff ok perm_ok_grant)
  show "get_grant (snd (revoke db u c)) v d = (if v = u \<and> d = c then None else get_grant db v d)"
    by (intro option_eq_by_Some) (auto simp: get_grant_iff [OF perm_ok_revoke [OF ok]] get_grant_iff [OF ok] set_revoke)
qed

section \<open>Moving grants\<close>

lemma repoint_set:
  "set (pd_grants (repoint u v c db)) =
   {g \<in> set (pd_grants db). grant_key g \<noteq> (u, c)} \<union> {(c, v, l) | l. (c, u, l) \<in> set (pd_grants db)}"
proof -
  have "(c, u, l) \<in> set gs \<Longrightarrow> (c, v, l) \<in> (\<lambda>g. (c, v, snd (snd g))) ` {g \<in> set gs. grant_key g = (u, c)}" for l gs
    by (rule image_eqI [of _ _ "(c, u, l)"]) auto
  then show ?thesis by (auto simp: repoint_def grant_key_eq split: if_splits)
qed

lemma perm_ok_repoint:
  assumes "perm_ok db" and "get_grant db v c = None"
  shows "perm_ok (repoint u v c db)"
proof -
  let ?f = "\<lambda>g. if grant_key g = (u, c) then (c, v, snd (snd g)) else g"
  let ?k = "\<lambda>k. if k = (u, c) then (v, c) else k"
  have no: "(v, c) \<notin> grant_key ` set (pd_grants db)"
  proof
    assume "(v, c) \<in> grant_key ` set (pd_grants db)"
    then obtain l where "(c, v, l) \<in> set (pd_grants db)" by (auto simp: grant_key_def)
    with assms show False by (simp flip: get_grant_iff)
  qed
  have "map (grant_key \<circ> ?f) (pd_grants db) = map ?k (map grant_key (pd_grants db))"
    by (auto simp: grant_key_def)
  moreover have "inj_on ?k (set (map grant_key (pd_grants db)))"
    using no by (auto simp: inj_on_def) (metis grant_key_simp image_eqI)+
  moreover have "distinct (map grant_key (pd_grants db))" "distinct (map ur_id (pd_users db))"
    using assms(1) by (simp_all add: perm_ok_def)
  ultimately have "distinct (map (grant_key \<circ> ?f) (pd_grants db))" by (simp only: distinct_map [of ?k])
  then show ?thesis using \<open>distinct (map ur_id (pd_users db))\<close> by (simp add: perm_ok_def repoint_def)
qed

lemma get_grant_repoint:
  assumes "perm_ok db" and "get_grant db v c = None" and "u \<noteq> v"
  shows "get_grant (repoint u v c db) w d =
    (if d = c \<and> w = v then get_grant db u c else if d = c \<and> w = u then None else get_grant db w d)"
proof (rule option_eq_by_Some)
  fix l
  have ok: "perm_ok (repoint u v c db)" by (rule perm_ok_repoint [OF assms(1,2)])
  have "(c, v, l) \<notin> set (pd_grants db)" using assms(1,2) get_grant_iff [of db v c l] by simp
  then show "get_grant (repoint u v c db) w d = Some l \<longleftrightarrow>
    (if d = c \<and> w = v then get_grant db u c else if d = c \<and> w = u then None else get_grant db w d) = Some l"
    using assms(3) by (auto simp: get_grant_iff [OF ok] get_grant_iff [OF assms(1)] repoint_set)
qed

lemma repoint_users: "pd_users (repoint u v c db) = pd_users db"
  by (simp add: repoint_def)

text \<open>The table after the grants of \<open>u\<close> on the conversations \<open>cs\<close> moved to \<open>v\<close>.\<close>

definition moved_grant :: "perm_db \<Rightarrow> string set \<Rightarrow> string \<Rightarrow> string \<Rightarrow> string \<Rightarrow> string \<Rightarrow> int option" where
  "moved_grant db cs u v w c =
     (if c \<in> cs \<and> w = u then None
      else if c \<in> cs \<and> w = v then (case get_grant db v c of Some l \<Rightarrow> Some l | None \<Rightarrow> get_grant db u c)
      else get_grant db w c)"

lemma move_grant_step:
  assumes "perm_ok db" and "u \<noteq> v"
  shows "\<exists>db'. move_grant u v (c, x) (n, db) = ((if get_grant db v c = None then Suc n else n), db') \<and> perm_ok db' \<and>
    pd_users db' = pd_users db \<and> (\<forall>w d. get_grant db' w d = moved_grant db {c} u v w d)"
proof (cases "get_grant db v c")
  case None
  then show ?thesis
    using assms perm_ok_repoint [OF assms(1) None] get_grant_repoint [OF assms(1) None assms(2)] repoint_users [of u v c db]
    by (auto simp: move_grant_def moved_grant_def)
next
  case (Some l)
  then show ?thesis
    using assms grants.look_del [OF assms(1)] perm_ok_revoke [OF assms(1)]
    by (auto simp: move_grant_def moved_grant_def revoke_def Let_def)
qed

lemma move_grants_fold:
  assumes "perm_ok db" and "u \<noteq> v" and "distinct (map fst gs)"
  shows "\<exists>db'. fold (move_grant u v) gs (n, db) = (n + length (filter (\<lambda>g. get_grant db v (fst g) = None) gs), db') \<and>
    perm_ok db' \<and> pd_users db' = pd_users db \<and> (\<forall>w d. get_grant db' w d = moved_grant db (fst ` set gs) u v w d)"
  using assms
proof (induction gs arbitrary: n db)
  case Nil
  then show ?case by (simp add: moved_grant_def)
next
  case (Cons g gs)
  obtain c x where g: "g = (c, x)" by (cases g) blast
  obtain db1 where s: "move_grant u v g (n, db) = ((if get_grant db v c = None then Suc n else n), db1)" "perm_ok db1"
    "pd_users db1 = pd_users db" and g1: "\<And>w d. get_grant db1 w d = moved_grant db {c} u v w d"
    using move_grant_step [OF Cons.prems(1,2), of c x n] g by auto
  obtain db2 where r: "fold (move_grant u v) gs (if get_grant db v c = None then Suc n else n, db1) =
      ((if get_grant db v c = None then Suc n else n) + length (filter (\<lambda>g. get_grant db1 v (fst g) = None) gs), db2)"
    "perm_ok db2" "pd_users db2 = pd_users db1" and g2: "\<And>w d. get_grant db2 w d = moved_grant db1 (fst ` set gs) u v w d"
    using Cons.IH [OF s(2) Cons.prems(2), of "if get_grant db v c = None then Suc n else n"] Cons.prems(3) by (auto simp del: if_split)
  have c: "c \<notin> fst ` set gs" using Cons.prems(3) g by auto
  have f: "filter (\<lambda>g. get_grant db1 v (fst g) = None) gs = filter (\<lambda>g. get_grant db v (fst g) = None) gs"
    using c by (intro filter_cong) (auto simp: g1 moved_grant_def image_iff)
  have "get_grant db2 w d = moved_grant db (fst ` set (g # gs)) u v w d" for w d
    using c Cons.prems(2) by (auto simp: g2 g1 moved_grant_def g split: option.splits)
  then show ?case using s r f g by auto
qed

lemma ensure_user_laws:
  assumes "perm_ok db"
  shows "perm_ok (ensure_user db u a)" and "pd_grants (ensure_user db u a) = pd_grants db"
    and "get_user (ensure_user db u a) u \<noteq> None" and "\<And>w. is_admin db w \<Longrightarrow> is_admin (ensure_user db u a) w"
proof -
  have none: "get_user db u = None \<longleftrightarrow> u \<notin> ur_id ` set (pd_users db)" by (auto simp: get_user_def find_None_iff)
  show "perm_ok (ensure_user db u a)"
    using assms none by (auto simp: ensure_user_def perm_ok_def blank_user_def split: option.splits)
  show "pd_grants (ensure_user db u a) = pd_grants db"
    by (simp add: ensure_user_def split: option.splits)
  have app: "find p (xs @ ys) = (case find p xs of Some x \<Rightarrow> Some x | None \<Rightarrow> find p ys)" for p and xs ys :: "user_row list"
    by (induction xs) auto
  show "get_user (ensure_user db u a) u \<noteq> None"
    by (cases "get_user db u") (auto simp: ensure_user_def get_user_def app blank_user_def)
  show "is_admin db w \<Longrightarrow> is_admin (ensure_user db u a) w" for w
    by (cases "get_user db u") (auto simp: ensure_user_def is_admin_def get_user_def app split: option.splits)
qed

section \<open>Delegation to the top conversation\<close>

text \<open>The conversation at the end of the chain of parents.\<close>

inductive top_of :: "conv_store \<Rightarrow> string \<Rightarrow> string \<Rightarrow> bool" for st where
  here: "get_conversation st c = Some conv \<Longrightarrow> cv_parent conv = None \<Longrightarrow> top_of st c c"
| up: "get_conversation st c = Some conv \<Longrightarrow> cv_parent conv = Some p \<Longrightarrow> top_of st p t \<Longrightarrow> top_of st c t"

inductive_cases top_ofE: "top_of st c t"

text \<open>Parents come before their children in some order, for instance creation.\<close>

definition parents_ranked :: "(string \<Rightarrow> nat) \<Rightarrow> conv_store \<Rightarrow> bool" where
  "parents_ranked rank st \<longleftrightarrow>
     (\<forall>c conv p. get_conversation st c = Some conv \<and> cv_parent conv = Some p \<longrightarrow> rank p < rank c)"

lemma top_of_unique: "top_of st c t \<Longrightarrow> top_of st c t' \<Longrightarrow> t = t'"
proof (induction arbitrary: t' rule: top_of.induct)
  case (here c conv)
  from here.prems show ?case by (rule top_ofE) (use here in auto)
next
  case (up c conv p t)
  from up.prems show ?case
  proof (cases rule: top_of.cases)
    case here
    then show ?thesis using up.hyps by simp
  next
    case (up conv' p')
    then show ?thesis using \<open>get_conversation st c = Some conv\<close> \<open>cv_parent conv = Some p\<close> up.IH by simp
  qed
qed

lemma access_by_top:
  assumes "parents_ranked rank st"
  shows "check_session_access db st user c lvl =
    Some ((\<exists>u. user = Some u \<and> is_admin db u) \<or> (\<exists>t. top_of st c t \<and> check_access db user t lvl))"
proof (induction "rank c" arbitrary: c rule: less_induct)
  case less
  show ?case
  proof (cases "\<exists>u. user = Some u \<and> is_admin db u")
    case True
    then show ?thesis by (subst check_session_access.simps) auto
  next
    case na: False
    then have adm: "\<not> (case user of Some u \<Rightarrow> is_admin db u | None \<Rightarrow> False)" by (simp split: option.splits)
    show ?thesis
    proof (cases "get_conversation st c")
      case None
      then have "\<not> top_of st c t" for t by (auto elim: top_ofE)
      with None na adm show ?thesis by (subst check_session_access.simps) auto
    next
      case (Some conv)
      show ?thesis
      proof (cases "cv_parent conv")
        case None
        have "top_of st c t \<longleftrightarrow> t = c" for t using Some None by (auto intro: top_of.here elim: top_ofE)
        with Some None na adm show ?thesis by (subst check_session_access.simps) auto
      next
        case (Some p)
        with \<open>get_conversation st c = Some conv\<close> assms have "rank p < rank c" by (auto simp: parents_ranked_def)
        then have IH: "check_session_access db st user p lvl = Some (\<exists>t. top_of st p t \<and> check_access db user t lvl)"
          using less na by auto
        have "top_of st c t \<longleftrightarrow> top_of st p t" for t
          using \<open>get_conversation st c = Some conv\<close> Some by (auto intro: top_of.up elim: top_ofE)
        with \<open>get_conversation st c = Some conv\<close> Some IH na adm show ?thesis
          by (subst check_session_access.simps) auto
      qed
    qed
  qed
qed

lemma check_access_mono: "check_access db user c l \<Longrightarrow> l' \<le> l \<Longrightarrow> check_access db user c l'"
  by (auto simp: check_access_def split: option.splits)

end
