(* ===== verification/Pending.thy ===== *)
theory Pending
  imports Prelude
begin

text \<open>
  The two in-process indexes behind the session snapshot: outstanding elicitations
  (\<^verbatim>\<open>runtime/pending_elicitations.py\<close>) and un-consumed composer messages
  (\<^verbatim>\<open>runtime/pending_inputs.py\<close>). An index is a dictionary of dictionaries in insertion order; the lock makes every
  operation atomic, so an execution is a sequence of operations. The observer is the list of notifications it
  receives. The clock reading and the random identifier of a new message are arguments.
\<close>

section \<open>A dictionary of dictionaries without empty entries\<close>

type_synonym 'v index = "'v dict dict"

definition inner :: "'v index \<Rightarrow> string \<Rightarrow> 'v dict" where
  "inner ix c = (case dget ix c of None \<Rightarrow> [] | Some d \<Rightarrow> d)"

text \<open>\<^verbatim>\<open>index.setdefault(c, {})[k] = v\<close>; \<^verbatim>\<open>ids.pop(k, None)\<close> with the eager removal of an emptied entry.\<close>

definition index_put :: "'v index \<Rightarrow> string \<Rightarrow> string \<Rightarrow> 'v \<Rightarrow> 'v index" where
  "index_put ix c k v = dset ix c (dset (inner ix c) k v)"

definition index_set :: "'v index \<Rightarrow> string \<Rightarrow> 'v dict \<Rightarrow> 'v index" where
  "index_set ix c d = (if d = [] then dpop ix c else dset ix c d)"

definition index_ok :: "'v index \<Rightarrow> bool" where
  "index_ok ix \<longleftrightarrow> dict_ok ix \<and> (\<forall>c d. dget ix c = Some d \<longrightarrow> d \<noteq> [] \<and> dict_ok d)"

section \<open>Outstanding elicitations\<close>

definition elicitation_id :: "pydict \<Rightarrow> string option" where
  "elicitation_id ev = (case pget ev ''elicitation_id'' of PStr (c # s) \<Rightarrow> Some (c # s) | _ \<Rightarrow> None)"

definition resolve_elicitation :: "pydict index \<Rightarrow> string \<Rightarrow> string \<Rightarrow> pydict index" where
  "resolve_elicitation ix c k =
     (case dget ix c of
        None \<Rightarrow> ix
      | Some ids \<Rightarrow> index_set ix c (dpop ids k))"

text \<open>The index and the notifications of a registered observer.\<close>

record pending_state =
  pn_index :: "pydict index"
  pn_observed :: bool
  pn_log :: "(string \<times> pydict) list"

definition notify_observer :: "string \<Rightarrow> pydict \<Rightarrow> pending_state \<Rightarrow> pending_state" where
  "notify_observer c ev s = (if pn_observed s then s\<lparr>pn_log := pn_log s @ [(c, ev)]\<rparr> else s)"

definition record_publish :: "string \<Rightarrow> pydict \<Rightarrow> pending_state \<Rightarrow> pending_state" where
  "record_publish c ev s =
     (if pget ev ''type'' = PStr ''response.elicitation_request'' then
        (case elicitation_id ev of
           None \<Rightarrow> s
         | Some k \<Rightarrow> notify_observer c ev (s\<lparr>pn_index := index_put (pn_index s) c k ev\<rparr>))
      else if pget ev ''type'' = PStr ''response.elicitation_resolved'' then
        (case elicitation_id ev of
           None \<Rightarrow> s
         | Some k \<Rightarrow> notify_observer c ev (s\<lparr>pn_index := resolve_elicitation (pn_index s) c k\<rparr>))
      else s)"

definition count_for :: "pydict index \<Rightarrow> string \<Rightarrow> nat" where
  "count_for ix c = (case dget ix c of Some ids \<Rightarrow> length ids | None \<Rightarrow> 0)"

definition counts_for :: "pydict index \<Rightarrow> string list \<Rightarrow> nat dict" where
  "counts_for ix cs = map (\<lambda>c. (c, if dhas ix c then length (inner ix c) else 0)) (rev (remdups (rev cs)))"

definition pending_session_ids :: "pydict index \<Rightarrow> string list" where
  "pending_session_ids ix = map fst ix"

definition snapshot_elicitations :: "pydict index \<Rightarrow> string \<Rightarrow> pydict list" where
  "snapshot_elicitations ix c = (case dget ix c of None \<Rightarrow> [] | Some ids \<Rightarrow> map snd ids)"

definition dict_of :: "pyval \<Rightarrow> pydict option" where
  "dict_of v = (case v of PDict d \<Rightarrow> Some d | _ \<Rightarrow> None)"

definition project_for_peek :: "pydict \<Rightarrow> pydict" where
  "project_for_peek ev =
     (let params = (case dict_of (pget ev ''params'') of Some p \<Rightarrow> p | None \<Rightarrow> []);
          item = [(''type'', PStr ''pending_elicitation''), (''elicitation_id'', pget ev ''elicitation_id''),
                  (''prompt'', pget params ''message'')]
      in case dict_of (pget params ''requestedSchema'') of
           None \<Rightarrow> item
         | Some schema \<Rightarrow>
             (case dict_of (pget schema ''properties'') of
                Some (p # ps) \<Rightarrow> item @ [(''fields'', PList (map (PStr \<circ> fst) (p # ps)))]
              | _ \<Rightarrow> item))"

definition lookup_elicitation :: "pydict index \<Rightarrow> string \<Rightarrow> (string \<times> pydict) option" where
  "lookup_elicitation ix k =
     (case filter (\<lambda>(c, ids). dhas ids k) ix of
        [] \<Rightarrow> None
      | (c, ids) # r \<Rightarrow> map_option (Pair c) (dget ids k))"

section \<open>Un-consumed messages\<close>

definition TTL_S :: rat where
  "TTL_S = 600"

record input_entry =
  ie_pending_id :: string
  ie_content :: "pyval list"
  ie_created_by :: "string option"
  ie_created_at :: rat

text \<open>What a drain hands to its caller.\<close>

record drained =
  di_pending_id :: string
  di_content :: "pyval list"
  di_created_by :: "string option"

definition drained_input :: "input_entry \<Rightarrow> drained" where
  "drained_input e = \<lparr>di_pending_id = ie_pending_id e, di_content = ie_content e, di_created_by = ie_created_by e\<rparr>"

definition is_stale :: "rat \<Rightarrow> input_entry \<Rightarrow> bool" where
  "is_stale now e \<longleftrightarrow> TTL_S < now - ie_created_at e"

definition evict_stale :: "input_entry index \<Rightarrow> string \<Rightarrow> rat \<Rightarrow> input_entry index" where
  "evict_stale ix c now =
     (case dget ix c of
        None \<Rightarrow> ix
      | Some es \<Rightarrow> index_set ix c (filter (\<lambda>(k, e). \<not> is_stale now e) es))"

definition record_input ::
    "input_entry index \<Rightarrow> string \<Rightarrow> string \<Rightarrow> pyval list \<Rightarrow> string option \<Rightarrow> rat \<Rightarrow> input_entry index" where
  "record_input ix c k content by_user now =
     index_put (evict_stale ix c now) c k
       \<lparr>ie_pending_id = k, ie_content = content, ie_created_by = by_user, ie_created_at = now\<rparr>"

definition resolve_input :: "input_entry index \<Rightarrow> string \<Rightarrow> string \<Rightarrow> input_entry index" where
  "resolve_input ix c k =
     (case dget ix c of
        None \<Rightarrow> ix
      | Some es \<Rightarrow> index_set ix c (dpop es k))"

definition resolve_oldest :: "input_entry index \<Rightarrow> string \<Rightarrow> rat \<Rightarrow> drained option \<times> input_entry index" where
  "resolve_oldest ix c now =
     (let ix1 = evict_stale ix c now
      in case dget ix1 c of
           Some ((k, e) # es) \<Rightarrow> (Some (drained_input e), index_set ix1 c (dpop ((k, e) # es) k))
         | _ \<Rightarrow> (None, ix1))"

text \<open>Text comparison: the words of the text blocks, joined by single spaces.\<close>

definition normalize_text :: "string \<Rightarrow> string" where
  "normalize_text s = str_join '' '' (words [] s)"

definition block_text :: "pyval \<Rightarrow> string option" where
  "block_text b =
     (case b of
        PDict d \<Rightarrow>
          if pget d ''type'' \<in> {PStr ''input_text'', PStr ''text'', PStr ''output_text''}
          then (case pget d ''text'' of PStr s \<Rightarrow> Some s | _ \<Rightarrow> None) else None
      | _ \<Rightarrow> None)"

definition content_text :: "pyval list \<Rightarrow> string" where
  "content_text bs = str_join [CHR 10] (List.map_filter block_text bs)"

definition entry_matches :: "string \<Rightarrow> input_entry \<Rightarrow> bool" where
  "entry_matches needle e =
     (let t = normalize_text (content_text (ie_content e))
      in t \<noteq> [] \<and> (needle = t \<or> endswith needle t))"

definition dpops :: "'v dict \<Rightarrow> string list \<Rightarrow> 'v dict" where
  "dpops d ks = foldl dpop d ks"

definition resolve_matching_text ::
    "input_entry index \<Rightarrow> string \<Rightarrow> string \<Rightarrow> rat \<Rightarrow> (drained option \<times> drained list) \<times> input_entry index" where
  "resolve_matching_text ix c text now =
     (let needle = normalize_text text
      in if needle = [] then ((None, []), ix)
         else
           (let ix1 = evict_stale ix c now
            in case dget ix1 c of
                 None \<Rightarrow> ((None, []), ix1)
               | Some es \<Rightarrow>
                   (case dropWhile (\<lambda>(k, e). \<not> entry_matches needle e) es of
                      [] \<Rightarrow> ((None, []), ix1)
                    | (k, e) # rest \<Rightarrow>
                        (let skipped = takeWhile (\<lambda>(k, e). \<not> entry_matches needle e) es
                         in ((Some (drained_input e), map (drained_input \<circ> snd) skipped),
                             index_set ix1 c (dpops es (map fst skipped @ [k])))))))"

definition snapshot_inputs :: "input_entry index \<Rightarrow> string \<Rightarrow> rat \<Rightarrow> pydict list \<times> input_entry index" where
  "snapshot_inputs ix c now =
     (let ix1 = evict_stale ix c now
      in (case dget ix1 c of
            None \<Rightarrow> []
          | Some es \<Rightarrow>
              map (\<lambda>(k, e). [(''pending_id'', PStr (ie_pending_id e)), (''content'', PList (ie_content e))] @
                (case ie_created_by e of Some u \<Rightarrow> [(''created_by'', PStr u)] | None \<Rightarrow> [])) es,
          ix1))"

section \<open>Laws of the index\<close>

lemma inner_put [simp]: "inner (index_put ix c k v) d = (if d = c then dset (inner ix c) k v else inner ix d)"
  by (simp add: inner_def index_put_def)

lemma inner_set [simp]: "inner (index_set ix c e) d = (if d = c then e else inner ix d)"
  by (simp add: inner_def index_set_def)

lemma inner_Nil [simp]: "inner [] c = []"
  by (simp add: inner_def)

lemma index_ok_Nil [simp]: "index_ok []"
  by (simp add: index_ok_def)

lemma index_ok_inner: "index_ok ix \<Longrightarrow> dict_ok (inner ix c)"
  by (auto simp: index_ok_def inner_def split: option.splits)

lemma index_ok_put: "index_ok ix \<Longrightarrow> index_ok (index_put ix c k v)"
  using index_ok_inner [of ix c] by (auto simp: index_ok_def index_put_def split: if_splits)

lemma index_ok_set: "index_ok ix \<Longrightarrow> dict_ok d \<Longrightarrow> index_ok (index_set ix c d)"
  by (auto simp: index_ok_def index_set_def split: if_splits)

lemma dget_index: "index_ok ix \<Longrightarrow> dget ix c = (if inner ix c = [] then None else Some (inner ix c))"
  by (auto simp: index_ok_def inner_def split: option.splits)

lemma inner_resolve [simp]:
  "inner (resolve_elicitation ix c k) d = (if d = c then dpop (inner ix c) k else inner ix d)"
  by (auto simp: resolve_elicitation_def split: option.splits) (simp_all add: inner_def dpop_def)

lemma index_ok_resolve: "index_ok ix \<Longrightarrow> index_ok (resolve_elicitation ix c k)"
  using index_ok_inner [of ix c] by (auto simp: resolve_elicitation_def inner_def index_ok_set split: option.splits)

lemma inner_resolve_input [simp]:
  "inner (resolve_input ix c k) d = (if d = c then dpop (inner ix c) k else inner ix d)"
  by (auto simp: resolve_input_def split: option.splits) (simp_all add: inner_def dpop_def)

lemma index_ok_resolve_input: "index_ok ix \<Longrightarrow> index_ok (resolve_input ix c k)"
  using index_ok_inner [of ix c] by (auto simp: resolve_input_def inner_def index_ok_set split: option.splits)

lemma inner_evict [simp]:
  "inner (evict_stale ix c now) d = (if d = c then filter (\<lambda>(k, e). \<not> is_stale now e) (inner ix c) else inner ix d)"
  by (auto simp: evict_stale_def split: option.splits) (simp_all add: inner_def)

lemma index_ok_evict: "index_ok ix \<Longrightarrow> index_ok (evict_stale ix c now)"
  using index_ok_inner [of ix c]
  by (auto simp: evict_stale_def inner_def index_ok_set dict_ok_filter split: option.splits)

lemma dpop_first: "dict_ok ((k, v) # d) \<Longrightarrow> dpop ((k, v) # d) k = d"
  by (auto simp: dpop_def dict_ok_def AList.delete_eq intro!: filter_True) (metis fst_conv image_eqI)

lemma dpops_prefix: "dict_ok (xs @ ys) \<Longrightarrow> dpops (xs @ ys) (map fst xs) = ys"
proof (induction xs)
  case (Cons x xs)
  then have "dpop ((fst x, snd x) # xs @ ys) (fst x) = xs @ ys" by (intro dpop_first) simp
  moreover have "dict_ok (xs @ ys)" using Cons.prems by (simp add: dict_ok_def)
  ultimately show ?case using Cons.IH by (simp add: dpops_def)
qed (simp add: dpops_def)

lemma dset_fresh: "k \<notin> fst ` set d \<Longrightarrow> dset d k v = d @ [(k, v)]"
  by (induction d) (auto simp: dset_def)

section \<open>Histories of the elicitation index\<close>

text \<open>An event published on a conversation, or a verdict dispatched to it.\<close>

datatype pending_op = Publish string pydict | Verdict string string

fun pending_step :: "pending_op \<Rightarrow> pending_state \<Rightarrow> pending_state" where
  "pending_step (Publish c ev) s = record_publish c ev s"
| "pending_step (Verdict c k) s = s\<lparr>pn_index := resolve_elicitation (pn_index s) c k\<rparr>"

text \<open>What an operation says about the elicitation \<open>k\<close> of \<open>c\<close>: nothing, that it is open with a payload, or closed.\<close>

fun says :: "string \<Rightarrow> string \<Rightarrow> pending_op \<Rightarrow> pydict option option" where
  "says c k (Publish d ev) =
     (if d = c \<and> elicitation_id ev = Some k then
        (if pget ev ''type'' = PStr ''response.elicitation_request'' then Some (Some ev)
         else if pget ev ''type'' = PStr ''response.elicitation_resolved'' then Some None
         else None)
      else None)"
| "says c k (Verdict d j) = (if d = c \<and> j = k then Some None else None)"

text \<open>The payload of the elicitation after a history: the last word on it.\<close>

definition outstanding :: "pending_op list \<Rightarrow> string \<Rightarrow> string \<Rightarrow> pydict option" where
  "outstanding ops c k = (case List.map_filter (says c k) (rev ops) of [] \<Rightarrow> None | w # ws \<Rightarrow> w)"

lemma outstanding_snoc:
  "outstanding (ops @ [x]) c k = (case says c k x of Some w \<Rightarrow> w | None \<Rightarrow> outstanding ops c k)"
  by (simp add: outstanding_def map_filter_simps split: option.splits)

lemma notify_index [simp]: "pn_index (notify_observer c ev s) = pn_index s"
  by (simp add: notify_observer_def)

lemma pending_step_get:
  "dget (inner (pn_index (pending_step x s)) c) k =
   (case says c k x of Some w \<Rightarrow> w | None \<Rightarrow> dget (inner (pn_index s) c) k)"
  by (cases x) (auto simp: record_publish_def split: option.splits)

lemma pending_step_ok: "index_ok (pn_index s) \<Longrightarrow> index_ok (pn_index (pending_step x s))"
  by (cases x) (auto simp: record_publish_def index_ok_put index_ok_resolve split: option.splits)

lemma pending_history:
  assumes "pn_index s = []"
  shows "index_ok (pn_index (fold pending_step ops s)) \<and>
    (\<forall>c k. dget (inner (pn_index (fold pending_step ops s)) c) k = outstanding ops c k)"
proof (induction ops rule: rev_induct)
  case Nil
  then show ?case using assms by (simp add: outstanding_def map_filter_simps)
next
  case (snoc x ops)
  then show ?case by (simp add: pending_step_ok pending_step_get outstanding_snoc split: option.splits)
qed

section \<open>Histories of the message index\<close>

datatype input_op =
    Record string string "pyval list" "string option" rat
  | Rollback string string
  | Oldest string rat
  | Matching string string rat
  | Snapshot string rat

text \<open>A step and what it drains, in order, with the time of the drain.\<close>

fun input_step :: "input_op \<Rightarrow> input_entry index \<Rightarrow> (string \<times> drained \<times> rat) list \<times> input_entry index" where
  "input_step (Record c k content u now) ix = ([], record_input ix c k content u now)"
| "input_step (Rollback c k) ix = ([], resolve_input ix c k)"
| "input_step (Oldest c now) ix =
     (case resolve_oldest ix c now of (d, ix') \<Rightarrow> ((case d of Some x \<Rightarrow> [(c, x, now)] | None \<Rightarrow> []), ix'))"
| "input_step (Matching c text now) ix =
     (case resolve_matching_text ix c text now of
        ((m, skipped), ix') \<Rightarrow>
          (map (\<lambda>x. (c, x, now)) (skipped @ (case m of Some x \<Rightarrow> [x] | None \<Rightarrow> [])), ix'))"
| "input_step (Snapshot c now) ix = ([], snd (snapshot_inputs ix c now))"

fun input_run :: "input_op list \<Rightarrow> input_entry index \<Rightarrow> (string \<times> drained \<times> rat) list \<times> input_entry index" where
  "input_run [] ix = ([], ix)"
| "input_run (x # xs) ix =
     (case input_step x ix of (out, ix1) \<Rightarrow> (case input_run xs ix1 of (out', ix2) \<Rightarrow> (out @ out', ix2)))"

fun recorded :: "string \<Rightarrow> input_op \<Rightarrow> input_entry list" where
  "recorded c (Record d k content u now) =
     (if d = c then [\<lparr>ie_pending_id = k, ie_content = content, ie_created_by = u, ie_created_at = now\<rparr>] else [])"
| "recorded c x = []"

definition drained_on :: "string \<Rightarrow> (string \<times> drained \<times> rat) list \<Rightarrow> (drained \<times> rat) list" where
  "drained_on c out = map snd (filter (\<lambda>x. fst x = c) out)"

text \<open>The entries of a conversation after a step, and the drained ones, come from those before it and the recorded one.\<close>

definition takes_from :: "input_entry list \<Rightarrow> (drained \<times> rat) list \<Rightarrow> input_entry list \<Rightarrow> bool" where
  "takes_from before outs after \<longleftrightarrow>
     subseq (map fst outs @ map drained_input after) (map drained_input before) \<and>
     set after \<subseteq> set before \<and>
     (\<forall>(d, now) \<in> set outs. \<exists>e \<in> set before. drained_input e = d \<and> \<not> is_stale now e)"

definition entries :: "input_entry index \<Rightarrow> string \<Rightarrow> input_entry list" where
  "entries ix c = map snd (inner ix c)"

definition keyed :: "input_entry index \<Rightarrow> string \<Rightarrow> bool" where
  "keyed ix c \<longleftrightarrow> (\<forall>(k, e) \<in> set (inner ix c). ie_pending_id e = k)"

lemma takes_from_refl: "takes_from es [] es"
  by (simp add: takes_from_def)

lemma takes_from_filter: "takes_from es [] (filter p es)"
  by (auto simp: takes_from_def intro: subseq_map subseq_filter_left)

lemma map_snd_filter: "map snd (filter (\<lambda>(k, e). p e) es) = filter p (map snd es)"
  by (induction es) auto

lemma takes_from_drop:
  "\<forall>e \<in> set (xs @ [x]). \<not> is_stale now e \<Longrightarrow> outs = map (\<lambda>e. (drained_input e, now)) (xs @ [x]) \<Longrightarrow>
   takes_from (xs @ x # ys) outs ys"
  by (auto simp: takes_from_def comp_def)

lemma takes_from_trans:
  assumes "takes_from a [] b" and "takes_from b outs c"
  shows "takes_from a outs c"
  using assms unfolding takes_from_def by (fastforce intro: subseq_order.trans)

lemma takes_from_more: "takes_from a outs b \<Longrightarrow> takes_from (a @ n) outs (b @ n)"
  using list_emb_append_mono [of "(=)" "map fst outs @ map drained_input b" "map drained_input a" "map drained_input n"]
  by (auto simp: takes_from_def)

lemma entries_evict: "entries (evict_stale ix c now) d = (if d = c then filter (\<lambda>e. \<not> is_stale now e) (entries ix c) else entries ix d)"
  by (simp add: entries_def map_snd_filter)

lemma keyed_evict: "keyed ix d \<Longrightarrow> keyed (evict_stale ix c now) d"
  by (auto simp: keyed_def)

lemma dpop_filter: "dpop d k = filter (\<lambda>(j, v). j \<noteq> k) d"
  by (auto simp: dpop_def AList.delete_eq intro!: filter_cong)

lemma record_step:
  assumes "index_ok ix" and "keyed ix c" and "k \<notin> ie_pending_id ` set (entries ix c)"
  shows "entries (record_input ix c k content u now) c =
    filter (\<lambda>e. \<not> is_stale now e) (entries ix c) @ recorded c (Record c k content u now)"
    and "keyed (record_input ix c k content u now) c"
proof -
  let ?es = "filter (\<lambda>(k, e). \<not> is_stale now e) (inner ix c)"
  have "k \<notin> fst ` set ?es" using assms(2,3) by (force simp: keyed_def entries_def)
  then have "inner (record_input ix c k content u now) c =
      ?es @ [(k, \<lparr>ie_pending_id = k, ie_content = content, ie_created_by = u, ie_created_at = now\<rparr>)]"
    by (simp add: record_input_def dset_fresh)
  then show "entries (record_input ix c k content u now) c =
      filter (\<lambda>e. \<not> is_stale now e) (entries ix c) @ recorded c (Record c k content u now)"
    and "keyed (record_input ix c k content u now) c"
    using assms(2) by (auto simp: entries_def map_snd_filter keyed_def)
qed

lemma keyed_set: "keyed ix c \<Longrightarrow> set es \<subseteq> set (inner ix c) \<Longrightarrow> keyed (index_set ix c es) c"
  by (auto simp: keyed_def)

text \<open>What the eviction at the start of an operation leaves.\<close>

lemma evicted:
  assumes "index_ok ix" and "keyed ix c"
  obtains ix1 where "evict_stale ix c now = ix1" and "index_ok ix1" and "keyed ix1 c"
    and "takes_from (entries ix c) [] (entries ix1 c)" and "\<forall>x \<in> set (inner ix1 c). \<not> is_stale now (snd x)"
    and "\<forall>b. b \<noteq> c \<longrightarrow> inner ix1 b = inner ix b"
proof
  show "takes_from (entries ix c) [] (entries (evict_stale ix c now) c)" by (simp add: entries_evict takes_from_filter)
qed (use assms in \<open>auto simp: index_ok_evict keyed_evict\<close>)

lemma oldest_step:
  assumes "index_ok ix" and "keyed ix c" and "resolve_oldest ix c now = (d, ix')"
  shows "takes_from (entries ix c) (case d of Some x \<Rightarrow> [(x, now)] | None \<Rightarrow> []) (entries ix' c) \<and> index_ok ix' \<and> keyed ix' c \<and>
    (\<forall>b. b \<noteq> c \<longrightarrow> inner ix' b = inner ix b)"
proof -
  obtain ix1 where e: "evict_stale ix c now = ix1" and ok: "index_ok ix1" and key: "keyed ix1 c"
    and ev: "takes_from (entries ix c) [] (entries ix1 c)" and live: "\<forall>x \<in> set (inner ix1 c). \<not> is_stale now (snd x)"
    and oth: "\<forall>b. b \<noteq> c \<longrightarrow> inner ix1 b = inner ix b"
    by (rule evicted [OF assms(1,2)])
  show ?thesis
  proof (cases "inner ix1 c")
    case Nil
    then show ?thesis using assms(3) ok key ev oth by (auto simp: resolve_oldest_def e dget_index Let_def)
  next
    case (Cons ke es)
    obtain k x where ke: "ke = (k, x)" by fastforce
    have d: "dict_ok ((k, x) # es)" using index_ok_inner [OF ok, of c] Cons ke by simp
    then have r: "d = Some (drained_input x)" "ix' = index_set ix1 c es"
      using assms(3) ok Cons ke by (auto simp: resolve_oldest_def e dget_index Let_def dpop_first)
    have "entries ix1 c = [] @ x # map snd es" using Cons ke by (simp add: entries_def)
    then have "takes_from (entries ix1 c) [(drained_input x, now)] (map snd es)"
      using takes_from_drop [of "[]" x now _ "map snd es"] live Cons ke by simp
    moreover have "dict_ok es" using d by (simp add: dict_ok_def)
    moreover have "keyed ix' c" unfolding r using Cons by (intro keyed_set key) auto
    ultimately show ?thesis using r takes_from_trans [OF ev] ok oth by (simp add: entries_def index_ok_set)
  qed
qed

lemma matching_step:
  assumes "index_ok ix" and "keyed ix c" and "resolve_matching_text ix c text now = ((m, sk), ix')"
  shows "takes_from (entries ix c) (map (\<lambda>x. (x, now)) (sk @ (case m of Some x \<Rightarrow> [x] | None \<Rightarrow> []))) (entries ix' c) \<and>
    index_ok ix' \<and> keyed ix' c \<and> (\<forall>b. b \<noteq> c \<longrightarrow> inner ix' b = inner ix b)"
proof (cases "normalize_text text = []")
  case True
  then show ?thesis using assms by (auto simp: resolve_matching_text_def takes_from_refl)
next
  case ne: False
  let ?p = "\<lambda>(k :: string, e). \<not> entry_matches (normalize_text text) e"
  obtain ix1 where e: "evict_stale ix c now = ix1" and ok: "index_ok ix1" and key: "keyed ix1 c"
    and ev: "takes_from (entries ix c) [] (entries ix1 c)" and live: "\<forall>x \<in> set (inner ix1 c). \<not> is_stale now (snd x)"
    and oth: "\<forall>b. b \<noteq> c \<longrightarrow> inner ix1 b = inner ix b"
    by (rule evicted [OF assms(1,2)])
  show ?thesis
  proof (cases "dropWhile ?p (inner ix1 c)")
    case Nil
    then have "((m, sk), ix') = ((None, []), ix1)"
      using assms(3) ne ok by (simp add: resolve_matching_text_def e dget_index Let_def del: dropWhile_eq_Nil_conv split: if_splits)
    then show ?thesis using ok key ev oth by simp
  next
    case (Cons ke es)
    obtain k x where ke: "ke = (k, x)" by fastforce
    let ?s = "takeWhile ?p (inner ix1 c)"
    have sp: "inner ix1 c = ?s @ (k, x) # es" using takeWhile_dropWhile_id [of ?p "inner ix1 c"] Cons ke by simp
    have dk: "dict_ok ((?s @ [(k, x)]) @ es)" using index_ok_inner [OF ok, of c] sp by simp
    have pop: "dpops (inner ix1 c) (map fst ?s @ [k]) = es" using dpops_prefix [OF dk] sp by simp
    have ne': "inner ix1 c \<noteq> []" using sp by auto
    have r: "m = Some (drained_input x)" "sk = map (drained_input \<circ> snd) ?s" "ix' = index_set ix1 c es"
      using assms(3) ne ok Cons ke pop ne' by (auto simp: resolve_matching_text_def e dget_index Let_def)
    have lv: "\<forall>y \<in> set (map snd ?s @ [x]). \<not> is_stale now y"
      using live by (subst (asm) sp) auto
    have "entries ix1 c = map snd ?s @ x # map snd es" unfolding entries_def by (subst sp) simp
    then have "takes_from (entries ix1 c) (map (\<lambda>x. (x, now)) (sk @ [drained_input x])) (map snd es)"
      using takes_from_drop [OF lv, of "map (\<lambda>x. (x, now)) (sk @ [drained_input x])" "map snd es"] r(2) by (simp add: comp_def)
    moreover have "dict_ok es" using dk by (simp add: dict_ok_def)
    moreover have "keyed ix' c" unfolding r(3) by (rule keyed_set [OF key]) (subst sp, auto)
    ultimately show ?thesis using r takes_from_trans [OF ev] ok oth by (simp add: entries_def index_ok_set)
  qed
qed

text \<open>Every step takes from what was there and what it records; other conversations are untouched.\<close>

lemma input_step_takes:
  assumes "index_ok ix" and "\<forall>b. keyed ix b" and "\<forall>e \<in> set (recorded c x). ie_pending_id e \<notin> ie_pending_id ` set (entries ix c)"
    and "input_step x ix = (out, ix')"
  shows "takes_from (entries ix c @ recorded c x) (drained_on c out) (entries ix' c)"
proof -
  have same: "takes_from (entries ix c) [] (entries ix' c)" if "inner ix' c = inner ix c"
    using that by (simp add: entries_def takes_from_refl)
  show ?thesis
  proof (cases "x")
    case (Record d k content u now)
    show ?thesis
    proof (cases "d = c")
      case True
      then show ?thesis
        using assms Record record_step(1) [OF assms(1), of c k content u now]
          takes_from_more [OF takes_from_filter [of "entries ix c"], of "recorded c x"]
        by (auto simp: drained_on_def)
    next
      case False
      then show ?thesis using assms(4) Record same by (auto simp: record_input_def drained_on_def)
    qed
  next
    case (Rollback d k)
    have "entries (resolve_input ix c k) c = map snd (filter (\<lambda>(j, e). j \<noteq> k) (inner ix c))"
      by (simp add: entries_def dpop_filter)
    moreover have "takes_from (map snd es) [] (map snd (filter p es))" for p and es :: "(string \<times> input_entry) list"
      by (auto simp: takes_from_def intro: subseq_map subseq_filter_left)
    ultimately show ?thesis using assms(4) Rollback same by (cases "d = c") (auto simp: drained_on_def entries_def)
  next
    case (Oldest d now)
    obtain y ix2 where r: "resolve_oldest ix d now = (y, ix2)" by fastforce
    then show ?thesis
      using oldest_step [OF assms(1), of d now y ix2] assms(2,4) Oldest same
      by (cases "d = c"; cases y) (auto simp: drained_on_def)
  next
    case (Matching d needle now)
    obtain m sk ix2 where r: "resolve_matching_text ix d needle now = ((m, sk), ix2)" by (metis prod.collapse)
    then show ?thesis
      using matching_step [OF assms(1), of d needle now m sk ix2] assms(2,4) Matching same
      by (cases "d = c") (auto simp: drained_on_def comp_def filter_map)
  next
    case (Snapshot d now)
    then show ?thesis
      using assms(4) same takes_from_filter [of "entries ix c"]
      by (cases "d = c") (auto simp: drained_on_def snapshot_inputs_def Let_def entries_evict)
  qed
qed

lemma keyed_frame:
  "keyed ix' d \<Longrightarrow> \<forall>b. b \<noteq> d \<longrightarrow> inner ix' b = inner ix b \<Longrightarrow> \<forall>b. keyed ix b \<Longrightarrow> \<forall>b. keyed ix' b"
  unfolding keyed_def by metis

lemma input_step_ok:
  assumes "index_ok ix" and "\<forall>b. keyed ix b" and "input_step x ix = (out, ix')"
  shows "index_ok ix' \<and> (\<forall>b. keyed ix' b)"
proof (cases "x")
  case (Record d k content u now)
  have "keyed (index_put ix1 d k e) b" if "\<forall>b. keyed ix1 b" "ie_pending_id e = k" "index_ok ix1" for ix1 e b
  proof -
    have "dict_ok (dset (inner ix1 d) k e)" using index_ok_inner [OF that(3)] by simp
    then have "dget (inner ix1 d) j = Some v \<longrightarrow> ie_pending_id v = j" for j v
      using that(1) by (auto simp: keyed_def dest: map_of_SomeD)
    then have "\<forall>(j, v) \<in> set (dset (inner ix1 d) k e). ie_pending_id v = j"
      using \<open>dict_ok (dset (inner ix1 d) k e)\<close> that(2) by (auto simp: dict_ok_def map_of_eq_Some_iff [symmetric] split: if_splits)
    then show ?thesis using that(1) by (auto simp: keyed_def)
  qed
  then show ?thesis
    using assms Record by (auto simp: record_input_def index_ok_put index_ok_evict keyed_evict)
next
  case (Rollback d k)
  then show ?thesis using assms by (fastforce simp: index_ok_resolve_input keyed_def dpop_filter split: if_splits)
next
  case (Oldest d now)
  obtain y where "resolve_oldest ix d now = (y, ix')" using assms(3) Oldest by (auto split: prod.splits)
  from oldest_step [OF assms(1) _ this] assms(2) have "index_ok ix'" "keyed ix' d" "\<forall>b. b \<noteq> d \<longrightarrow> inner ix' b = inner ix b" by auto
  then show ?thesis using keyed_frame assms(2) by blast
next
  case (Matching d needle now)
  obtain m sk where "resolve_matching_text ix d needle now = ((m, sk), ix')" using assms(3) Matching by (auto split: prod.splits)
  from matching_step [OF assms(1) _ this] assms(2) have "index_ok ix'" "keyed ix' d" "\<forall>b. b \<noteq> d \<longrightarrow> inner ix' b = inner ix b" by auto
  then show ?thesis using keyed_frame assms(2) by blast
next
  case (Snapshot d now)
  then show ?thesis using assms by (auto simp: snapshot_inputs_def Let_def index_ok_evict keyed_evict)
qed

lemma takes_from_seq:
  assumes "takes_from a o1 b" and "takes_from (b @ n) o2 c"
  shows "takes_from (a @ n) (o1 @ o2) c"
proof -
  let ?D = "map drained_input"
  have "subseq ((map fst o1 @ ?D b) @ ?D n) (?D a @ ?D n)" using assms(1) by (intro list_emb_append_mono) (auto simp: takes_from_def)
  moreover have "subseq (map fst o1 @ (map fst o2 @ ?D c)) (map fst o1 @ (?D b @ ?D n))"
    using assms(2) by (intro list_emb_append_mono [OF subseq_order.refl]) (simp add: takes_from_def)
  ultimately have "subseq (map fst (o1 @ o2) @ ?D c) (?D (a @ n))" by (auto intro: subseq_order.trans)
  then show ?thesis using assms unfolding takes_from_def by fastforce
qed

lemma subseq_distinct: "subseq xs ys \<Longrightarrow> distinct ys \<Longrightarrow> distinct xs"
  by (induction rule: list_emb.induct) (auto dest: list_emb_set)

lemma takes_from_ids:
  assumes "takes_from a outs b" and "distinct (map ie_pending_id (a @ n))"
  shows "distinct (map ie_pending_id (b @ n))"
proof -
  have id: "ie_pending_id e = di_pending_id (drained_input e)" for e by (simp add: drained_input_def)
  have "subseq (map drained_input b) (map fst outs @ map drained_input b)" by (rule list_emb_append2) simp
  then have "subseq (map drained_input b) (map drained_input a)" using assms(1) by (auto simp: takes_from_def intro: subseq_order.trans)
  then have "subseq (map di_pending_id (map drained_input b)) (map di_pending_id (map drained_input a))" by (rule subseq_map)
  then have "subseq (map ie_pending_id b @ map ie_pending_id n) (map ie_pending_id a @ map ie_pending_id n)"
    by (intro list_emb_append_mono) (simp_all add: comp_def flip: id)
  from subseq_distinct [OF this] show ?thesis using assms(2) by simp
qed

lemma input_run_takes:
  assumes "index_ok ix" and "\<forall>b. keyed ix b" and "distinct (map ie_pending_id (entries ix c @ concat (map (recorded c) ops)))"
    and "input_run ops ix = (out, ix')"
  shows "takes_from (entries ix c @ concat (map (recorded c) ops)) (drained_on c out) (entries ix' c)"
  using assms
proof (induction ops arbitrary: ix out)
  case Nil
  then show ?case by (simp add: drained_on_def takes_from_refl)
next
  case (Cons x ops)
  obtain o1 ix1 o2 where s: "input_step x ix = (o1, ix1)" and r: "input_run ops ix1 = (o2, ix')" and out: "out = o1 @ o2"
    using Cons.prems(4) by (auto split: prod.splits)
  let ?n = "concat (map (recorded c) ops)"
  have fresh: "\<forall>e \<in> set (recorded c x). ie_pending_id e \<notin> ie_pending_id ` set (entries ix c)"
    using Cons.prems(3) by auto
  have t: "takes_from (entries ix c @ recorded c x) (drained_on c o1) (entries ix1 c)"
    by (rule input_step_takes [OF Cons.prems(1,2) fresh s])
  have d: "distinct (map ie_pending_id (entries ix1 c @ ?n))"
    using takes_from_ids [OF t, of ?n] Cons.prems(3) by simp
  have ok: "index_ok ix1" "\<forall>b. keyed ix1 b" using input_step_ok [OF Cons.prems(1,2) s] by simp_all
  have "takes_from ((entries ix c @ recorded c x) @ ?n) (drained_on c o1 @ drained_on c o2) (entries ix' c)"
    using takes_from_seq [OF t Cons.IH [OF ok d r]] .
  then show ?case by (simp add: out drained_on_def)
qed

end
