(* ===== verification/AccessProperties.thy ===== *)
theory AccessProperties
  imports Permissions Pending Fixtures
begin

text \<open>
  Properties of the permission store and its access decision, and of the two in-process
  indexes behind the session snapshot.
\<close>

section \<open>Access decisions\<close>

lemma check_access_grants:
  "check_access db user t lvl \<longleftrightarrow>
   (\<exists>u w l. user = Some u \<and> w \<in> {u, RESERVED_USER_PUBLIC} \<and> get_grant db w t = Some l \<and> lvl \<le> l)"
  by (auto simp: check_access_def split: option.splits)

text \<open>
  C31: The access decision of a route returns and is exact: when parents precede their children, a request is let
  through precisely when the caller is an administrator, or when the caller or the public user holds a grant of
  at least the required level on the conversation at the top of the chain of parents. Grants on the sub-agent
  conversation itself give nothing, a missing conversation or a missing caller is refused.
\<close>

theorem session_access_decided:
  assumes "parents_ranked rank st"
  shows "check_session_access db st user c lvl =
    Some ((\<exists>u. user = Some u \<and> is_admin db u) \<or>
      (\<exists>t u w l. top_of st c t \<and> user = Some u \<and> w \<in> {u, RESERVED_USER_PUBLIC} \<and> get_grant db w t = Some l \<and> lvl \<le> l))"
  by (auto simp: access_by_top [OF assms] check_access_grants)

definition fx_perms :: perm_db where
  "fx_perms =
     \<lparr>pd_users = [blank_user ''alice'' False, blank_user ''admin'' True],
      pd_grants = [(''root'', ''alice'', LEVEL_EDIT), (''child'', ''bob'', LEVEL_OWNER), (''other'', ''alice'', LEVEL_OWNER),
        (''root'', RESERVED_USER_PUBLIC, LEVEL_READ)]\<rparr>"

lemmas fx_perm_simps = fx_perms_def blank_user_def LEVEL_READ_def LEVEL_EDIT_def LEVEL_MANAGE_def LEVEL_OWNER_def
  RESERVED_USER_PUBLIC_def get_grant_def get_user_def is_admin_def grant_key_def

lemma fx_get_conversation:
  "get_conversation fx_store c =
   (if c = ''child'' then Some (fx_conv ''child'' ''root'') else if c = ''root'' then Some (fx_conv ''root'' ''root'') else None)"
  by (auto simp: get_conversation_def fx_store_def fx_conv_def)

lemma fx_top_of: "top_of fx_store ''child'' t \<longleftrightarrow> t = ''root''"
proof
  have r: "top_of fx_store ''root'' ''root''"
    by (rule top_of.here [of _ _ "fx_conv ''root'' ''root''"]) (simp_all add: fx_get_conversation fx_conv_def)
  have c: "top_of fx_store ''child'' ''root''"
    by (rule top_of.up [OF _ _ r, of _ "fx_conv ''child'' ''root''"]) (simp_all add: fx_get_conversation fx_conv_def)
  from c show "t = ''root'' \<Longrightarrow> top_of fx_store ''child'' t" by simp
  from c show "top_of fx_store ''child'' t \<Longrightarrow> t = ''root''" by (rule top_of_unique [rotated])
qed

lemma fx_ranked: "parents_ranked length (fx_store\<lparr>st_rows := [fx_conv ''child'' ''root'', fx_conv ''root'' ''root'']\<rparr>)"
  by (auto simp: parents_ranked_def get_conversation_def fx_conv_def)

theorem session_access_decided_witness:
  "check_session_access fx_perms fx_store (Some ''alice'') ''child'' LEVEL_EDIT = Some True \<and>
   check_session_access fx_perms fx_store (Some ''bob'') ''child'' LEVEL_EDIT = Some False \<and>
   check_session_access fx_perms fx_store None ''child'' LEVEL_READ = Some False"
proof -
  have "fx_store\<lparr>st_rows := [fx_conv ''child'' ''root'', fx_conv ''root'' ''root'']\<rparr> = fx_store" by (simp add: fx_store_def)
  then have "parents_ranked length fx_store" using fx_ranked by simp
  note d = session_access_decided [OF this, of fx_perms _ "''child''", unfolded fx_top_of]
  show ?thesis unfolding d by (auto simp: fx_perm_simps)
qed

text \<open>
  The bundled permission read agrees with the separate ones: the decision made from the resolved snapshot is
  the administrator check joined with the grant check, the level it reports is the one the store reports, and a
  reported level is a level at which the same snapshot lets the request through.
\<close>

theorem resolved_access_agrees:
  "(resolved_allows (resolve_access db user c) lvl \<longleftrightarrow>
     (\<exists>u. user = Some u \<and> is_admin db u) \<or> check_access db user c lvl) \<and>
   resolved_level (resolve_access db user c) = get_permission_level db user c \<and>
   (get_permission_level db user c = Some l \<longrightarrow> resolved_allows (resolve_access db user c) l)"
  by (auto simp: resolved_allows_def resolve_access_def check_access_def resolved_level_def get_permission_level_def
      split: option.splits if_splits)

theorem resolved_access_agrees_witness:
  "resolved_allows (resolve_access fx_perms (Some ''alice'') ''root'') 2 \<and>
   resolved_level (resolve_access fx_perms (Some ''alice'') ''root'') = Some 2"
proof -
  have "get_permission_level fx_perms (Some ''alice'') ''root'' = Some 2" by (simp add: fx_perm_simps get_permission_level_def)
  then show ?thesis using resolved_access_agrees [of fx_perms "Some ''alice''" "''root''" 2 2] by metis
qed

section \<open>Moving the grants of a user\<close>

lemma in_list_for_user:
  assumes "perm_ok db"
  shows "c \<in> fst ` set (list_for_user db u) \<longleftrightarrow> get_grant db u c \<noteq> None"
proof -
  have "c \<in> fst ` set (list_for_user db u) \<longleftrightarrow> (\<exists>l. (c, u, l) \<in> set (pd_grants db))"
    by (force simp: list_for_user_def)
  then show ?thesis by (auto simp flip: get_grant_iff [OF assms])
qed

lemma list_for_user_distinct:
  assumes "perm_ok db"
  shows "distinct (map fst (list_for_user db u))"
proof -
  have "distinct (map grant_key (list_for_user db u))"
    using assms by (simp add: perm_ok_def list_for_user_def distinct_map_filter)
  moreover have "map grant_key (list_for_user db u) = map (Pair u) (map fst (list_for_user db u))"
    by (auto simp: list_for_user_def)
  ultimately show ?thesis by (simp only: distinct_map)
qed

text \<open>
  Reassigning the grants of one user to a different one keeps the tables well formed, leaves the source user
  with no grant, gives the destination each grant it did not hold already (a grant the destination holds is kept
  as it is), touches no other user, counts exactly the grants that moved, and provides the destination's user row.
\<close>

theorem reassign_moves_grants:
  assumes "perm_ok db" and "u \<noteq> v" and "reassign_user_grants db u v = (n, db')"
  shows "perm_ok db' \<and> get_user db' v \<noteq> None \<and>
    n = card {c. get_grant db u c \<noteq> None \<and> get_grant db v c = None} \<and>
    (\<forall>w c. get_grant db' w c =
       (if w = u then None
        else if w = v then (case get_grant db v c of Some l \<Rightarrow> Some l | None \<Rightarrow> get_grant db u c)
        else get_grant db w c))"
proof -
  define db1 where "db1 = ensure_user db v False"
  note e = ensure_user_laws [OF assms(1), where u = v and a = False, folded db1_def]
  have g: "get_grant db1 w c = get_grant db w c" for w c using e(2) by (rule get_grant_cong)
  let ?gs = "list_for_user db1 u"
  have d: "distinct (map fst ?gs)" by (rule list_for_user_distinct [OF e(1)])
  obtain db2 where r: "fold (move_grant u v) ?gs (0, db1) = (length (filter (\<lambda>g. get_grant db1 v (fst g) = None) ?gs), db2)"
    "perm_ok db2" "pd_users db2 = pd_users db1"
    and m: "\<And>w c. get_grant db2 w c = moved_grant db1 (fst ` set ?gs) u v w c"
    using move_grants_fold [OF e(1) assms(2) d, of 0] by auto
  have eq: "n = length (filter (\<lambda>g. get_grant db v (fst g) = None) ?gs)" "db' = db2"
    using assms(3) r(1) g by (simp_all add: reassign_user_grants_def Let_def flip: db1_def)
  have "n = length (filter (\<lambda>c. get_grant db v c = None) (map fst ?gs))"
    unfolding eq by (simp add: filter_map comp_def)
  also have "\<dots> = card (set (filter (\<lambda>c. get_grant db v c = None) (map fst ?gs)))"
    using d by (simp only: distinct_card [OF distinct_filter])
  also have "set (filter (\<lambda>c. get_grant db v c = None) (map fst ?gs)) = {c. get_grant db u c \<noteq> None \<and> get_grant db v c = None}"
    using in_list_for_user [OF e(1), of _ u] g by auto
  finally have n: "n = card {c. get_grant db u c \<noteq> None \<and> get_grant db v c = None}" .
  have "get_user db2 v \<noteq> None" using e(3) r(3) by (simp add: get_user_def)
  moreover have "get_grant db2 w c = (if w = u then None
        else if w = v then (case get_grant db v c of Some l \<Rightarrow> Some l | None \<Rightarrow> get_grant db u c)
        else get_grant db w c)" for w c
    using in_list_for_user [OF e(1), of c u] g assms(2)
    by (auto simp: m moved_grant_def split: option.splits)
  ultimately show ?thesis using n r(2) eq(2) by simp
qed

theorem reassign_moves_grants_witness:
  "fst (reassign_user_grants fx_perms ''alice'' ''bob'') = 2 \<and>
   get_grant (snd (reassign_user_grants fx_perms ''alice'' ''bob'')) ''bob'' ''other'' = Some 4 \<and>
   get_grant (snd (reassign_user_grants fx_perms ''alice'' ''bob'')) ''alice'' ''root'' = None"
proof -
  have ok: "perm_ok fx_perms" by (simp add: perm_ok_def fx_perm_simps)
  have s: "{c. get_grant fx_perms ''alice'' c \<noteq> None \<and> get_grant fx_perms ''bob'' c = None} = {''root'', ''other''}"
    by (auto simp: fx_perm_simps)
  show ?thesis
    using reassign_moves_grants [OF ok, of "''alice''" "''bob''" "fst (reassign_user_grants fx_perms ''alice'' ''bob'')"
        "snd (reassign_user_grants fx_perms ''alice'' ''bob'')", unfolded s]
    by (simp add: fx_perm_simps)
qed

section \<open>The elicitation index\<close>

lemma card_inner: "index_ok ix \<Longrightarrow> length (inner ix c) = card {k. dget (inner ix c) k \<noteq> None}"
proof -
  assume "index_ok ix"
  then have "distinct (map fst (inner ix c))" using index_ok_inner by (auto simp: dict_ok_def)
  then have "card (fst ` set (inner ix c)) = length (inner ix c)" by (metis distinct_card length_map set_map)
  moreover have "{k. dget (inner ix c) k \<noteq> None} = fst ` set (inner ix c)" by (auto simp: map_of_eq_None_iff)
  ultimately show ?thesis by simp
qed

lemma lookup_elicitation_some:
  assumes "index_ok ix" and "lookup_elicitation ix k = Some (c, ev)"
  shows "dget (inner ix c) k = Some ev"
proof -
  obtain ids r where f: "filter (\<lambda>(c, ids). dhas ids k) ix = (c, ids) # r" and ev: "dget ids k = Some ev"
    using assms(2) by (auto simp: lookup_elicitation_def split: list.splits)
  then have "(c, ids) \<in> set (filter (\<lambda>(c, ids). dhas ids k) ix)" by simp
  then have "(c, ids) \<in> set ix" by simp
  then have "dget ix c = Some ids" using assms(1) by (simp add: index_ok_def dict_ok_def)
  then show ?thesis using ev by (simp add: inner_def)
qed

lemma lookup_elicitation_none:
  assumes "lookup_elicitation ix k = None"
  shows "dget (inner ix c) k = None"
proof (rule ccontr)
  assume "dget (inner ix c) k \<noteq> None"
  then obtain ids ev where "dget ix c = Some ids" and "dget ids k = Some ev" by (auto simp: inner_def split: option.splits)
  then have "(c, ids) \<in> set (filter (\<lambda>(c, ids). dhas ids k) ix)" by (auto simp: dhas_iff dest: map_of_SomeD)
  then obtain d js r where f: "filter (\<lambda>(c, ids). dhas ids k) ix = (d, js) # r" by (cases "filter (\<lambda>(c, ids). dhas ids k) ix") auto
  then have "(d, js) \<in> set (filter (\<lambda>(c, ids). dhas ids k) ix)" by simp
  then have "dhas js k" by simp
  then show False using f assms by (auto simp: lookup_elicitation_def dhas_iff)
qed

text \<open>
  C37: After any history of published events and dispatched verdicts, the index holds exactly the elicitations whose
  last word is a request: a conversation's count is the number of its outstanding identifiers, its snapshot is their
  payloads, the pending sessions are those with one, and a lookup by identifier finds an outstanding elicitation
  if there is one.
\<close>

theorem elicitation_index_is_history:
  assumes "pn_index s = []" and "ix = pn_index (fold pending_step ops s)"
  shows "count_for ix c = card {k. outstanding ops c k \<noteq> None} \<and>
    set (snapshot_elicitations ix c) = {ev. \<exists>k. outstanding ops c k = Some ev} \<and>
    set (pending_session_ids ix) = {c. \<exists>k. outstanding ops c k \<noteq> None} \<and>
    (case lookup_elicitation ix k of
       Some (d, ev) \<Rightarrow> outstanding ops d k = Some ev
     | None \<Rightarrow> (\<forall>d. outstanding ops d k = None))"
proof -
  have ok: "index_ok ix" and h: "\<And>c k. dget (inner ix c) k = outstanding ops c k"
    using pending_history [OF assms(1), of ops] assms(2) by auto
  have "count_for ix c = length (inner ix c)" by (simp add: count_for_def inner_def split: option.splits)
  then have 1: "count_for ix c = card {k. outstanding ops c k \<noteq> None}" using card_inner [OF ok, of c] h by simp
  have "snapshot_elicitations ix c = map snd (inner ix c)" by (simp add: snapshot_elicitations_def inner_def split: option.splits)
  moreover have "distinct (map fst (inner ix c))" using index_ok_inner [OF ok] by (simp add: dict_ok_def)
  ultimately have 2: "set (snapshot_elicitations ix c) = {ev. \<exists>k. outstanding ops c k = Some ev}"
    by (force simp flip: h)
  have "d \<in> set (pending_session_ids ix) \<longleftrightarrow> (\<exists>k. outstanding ops d k \<noteq> None)" for d
  proof -
    have "d \<in> set (pending_session_ids ix) \<longleftrightarrow> dget ix d \<noteq> None"
      by (simp add: pending_session_ids_def map_of_eq_None_iff)
    also have "\<dots> \<longleftrightarrow> inner ix d \<noteq> []" by (simp add: dget_index [OF ok])
    also have "\<dots> \<longleftrightarrow> (\<exists>k. dget (inner ix d) k \<noteq> None)" by (cases "inner ix d") auto
    finally show ?thesis by (simp add: h)
  qed
  then have 3: "set (pending_session_ids ix) = {c. \<exists>k. outstanding ops c k \<noteq> None}" by auto
  have 4: "case lookup_elicitation ix k of Some (d, ev) \<Rightarrow> outstanding ops d k = Some ev | None \<Rightarrow> (\<forall>d. outstanding ops d k = None)"
    using lookup_elicitation_some [OF ok, of k] lookup_elicitation_none [of ix k] h by (auto split: option.splits)
  from 1 2 3 4 show ?thesis by blast
qed

definition fx_request :: "string \<Rightarrow> pydict" where
  "fx_request k = [(''type'', PStr ''response.elicitation_request''), (''elicitation_id'', PStr k)]"

theorem elicitation_index_is_history_witness:
  "count_for (pn_index (fold pending_step [Publish ''s'' (fx_request ''a''), Publish ''s'' (fx_request ''b''), Verdict ''s'' ''a'']
     \<lparr>pn_index = [], pn_observed = True, pn_log = []\<rparr>)) ''s'' = 1"
proof -
  let ?ops = "[Publish ''s'' (fx_request ''a''), Publish ''s'' (fx_request ''b''), Verdict ''s'' ''a'']"
  have "{k. outstanding ?ops ''s'' k \<noteq> None} = {''b''}"
    by (auto simp: outstanding_def fx_request_def elicitation_id_def pget_def map_filter_simps)
  then show ?thesis
    using elicitation_index_is_history [of "\<lparr>pn_index = [], pn_observed = True, pn_log = []\<rparr>" "pn_index (fold pending_step ?ops \<lparr>pn_index = [], pn_observed = True, pn_log = []\<rparr>)" ?ops "''s''"]
    by simp
qed

section \<open>The message index\<close>

text \<open>
  C36: However recording, rollback, draining and snapshots interleave, with fresh identifiers a recorded message is
  drained at most once and messages are drained in the order they were recorded, those still held coming after every
  drained one; a drain hands out the recorded content and author, and never a message older than the time to live.
\<close>

theorem pending_inputs_drain_in_order:
  assumes "distinct (map ie_pending_id (concat (map (recorded c) ops)))" and "input_run ops [] = (out, ix)"
  shows "subseq (map fst (drained_on c out) @ map drained_input (entries ix c))
      (map drained_input (concat (map (recorded c) ops))) \<and>
    distinct (map (di_pending_id \<circ> fst) (drained_on c out)) \<and>
    (\<forall>(d, now) \<in> set (drained_on c out).
       \<exists>e \<in> set (concat (map (recorded c) ops)). drained_input e = d \<and> now - ie_created_at e \<le> TTL_S)"
proof -
  have "takes_from (concat (map (recorded c) ops)) (drained_on c out) (entries ix c)"
    using input_run_takes [of "[]" c ops out ix] assms by (simp add: keyed_def entries_def)
  then have t: "subseq (map fst (drained_on c out) @ map drained_input (entries ix c)) (map drained_input (concat (map (recorded c) ops)))"
    and live: "\<forall>(d, now) \<in> set (drained_on c out). \<exists>e \<in> set (concat (map (recorded c) ops)). drained_input e = d \<and> \<not> is_stale now e"
    by (simp_all add: takes_from_def)
  have "map di_pending_id (map drained_input es) = map ie_pending_id es" for es by (simp add: drained_input_def)
  then have "distinct (map di_pending_id (map fst (drained_on c out) @ map drained_input (entries ix c)))"
    using subseq_distinct [OF subseq_map [OF t, of di_pending_id]] assms(1) by metis
  then have "distinct (map (di_pending_id \<circ> fst) (drained_on c out))" by simp
  moreover have "\<forall>(d, now) \<in> set (drained_on c out).
      \<exists>e \<in> set (concat (map (recorded c) ops)). drained_input e = d \<and> now - ie_created_at e \<le> TTL_S"
    using live unfolding is_stale_def by fastforce
  ultimately show ?thesis using t by blast
qed

definition fx_inputs :: "input_op list" where
  "fx_inputs = [Record ''s'' ''p1'' [] None 0, Record ''s'' ''p2'' [] (Some ''bob'') 300, Record ''s'' ''p3'' [] None 650, Oldest ''s'' 700]"

theorem pending_inputs_drain_in_order_witness:
  "map (di_pending_id \<circ> fst) (drained_on ''s'' (fst (input_run fx_inputs []))) = [''p2''] \<and>
   subseq (map fst (drained_on ''s'' (fst (input_run fx_inputs []))) @ map drained_input (entries (snd (input_run fx_inputs [])) ''s''))
      (map drained_input (concat (map (recorded ''s'') fx_inputs)))"
proof -
  have "map (di_pending_id \<circ> fst) (drained_on ''s'' (fst (input_run fx_inputs []))) = [''p2'']" by code_simp
  then show ?thesis
    using pending_inputs_drain_in_order [of "''s''" fx_inputs "fst (input_run fx_inputs [])" "snd (input_run fx_inputs [])"]
    by (simp add: fx_inputs_def del: input_run.simps)
qed

end
