(* ===== verification/Regex.thy ===== *)
theory Regex
  imports Prelude
begin

text \<open>
  The part of Python's \<^verbatim>\<open>re\<close> that the modelled sources use: a backtracking matcher that lists
  the ways a pattern matches at a position in the order Python tries them (so the first is
  the match Python reports), with capture groups, greedy and lazy repetition, and the
  zero-width assertions of the sources' patterns. The relation \<open>rx_rel\<close> is the meaning of a pattern
  without the order; the matcher computes exactly it.
\<close>

section \<open>Patterns\<close>

datatype rx =
    Eps
  | Cls "char \<Rightarrow> bool"
  | Seq rx rx
  | Alt rx rx
  | Star rx
  | LazyStar rx
  | Grp nat rx
  | Assert "string \<Rightarrow> string \<Rightarrow> bool"

definition is_word_char :: "char \<Rightarrow> bool" where
  "is_word_char c \<longleftrightarrow> is_digit c \<or> (65 \<le> char_code c \<and> char_code c \<le> 90) \<or>
     (97 \<le> char_code c \<and> char_code c \<le> 122) \<or> c = CHR ''_''"

definition is_alpha :: "char \<Rightarrow> bool" where
  "is_alpha c \<longleftrightarrow> (65 \<le> char_code c \<and> char_code c \<le> 90) \<or> (97 \<le> char_code c \<and> char_code c \<le> 122)"

text \<open>An assertion sees the text before the position, last character first, and the text after it.\<close>

definition word_edge :: "string \<Rightarrow> bool" where
  "word_edge s = (case s of [] \<Rightarrow> False | c # t \<Rightarrow> is_word_char c)"

definition rx_boundary :: rx where
  "rx_boundary = Assert (\<lambda>b t. word_edge b \<noteq> word_edge t)"

definition rx_end :: rx where
  "rx_end = Assert (\<lambda>b t. t = [] \<or> t = [CHR 10])"

definition rx_start :: rx where
  "rx_start = Assert (\<lambda>b t. b = [])"

definition rx_char :: "char \<Rightarrow> rx" where
  "rx_char c = Cls (\<lambda>x. x = c)"

fun rx_str :: "string \<Rightarrow> rx" where
  "rx_str [] = Eps"
| "rx_str (c # s) = Seq (rx_char c) (rx_str s)"

definition rx_dot :: rx where
  "rx_dot = Cls (\<lambda>x. x \<noteq> CHR 10)"

definition rx_digit :: rx where
  "rx_digit = Cls is_digit"

definition rx_space :: rx where
  "rx_space = Cls is_space"

definition rx_plus :: "rx \<Rightarrow> rx" where
  "rx_plus r = Seq r (Star r)"

definition rx_opt :: "rx \<Rightarrow> rx" where
  "rx_opt r = Alt r Eps"

fun rx_times :: "nat \<Rightarrow> rx \<Rightarrow> rx" where
  "rx_times 0 r = Eps"
| "rx_times (Suc n) r = Seq r (rx_times n r)"

text \<open>\<^verbatim>\<open>r{m,n}\<close> greedy, \<open>k = n - m\<close> optional repetitions.\<close>

fun rx_upto :: "nat \<Rightarrow> rx \<Rightarrow> rx" where
  "rx_upto 0 r = Eps"
| "rx_upto (Suc k) r = Alt (Seq r (rx_upto k r)) Eps"

definition rx_between :: "nat \<Rightarrow> nat \<Rightarrow> rx \<Rightarrow> rx" where
  "rx_between m n r = Seq (rx_times m r) (rx_upto (n - m) r)"

definition rx_atleast :: "nat \<Rightarrow> rx \<Rightarrow> rx" where
  "rx_atleast m r = Seq (rx_times m r) (Star r)"

fun rx_seq :: "rx list \<Rightarrow> rx" where
  "rx_seq [] = Eps"
| "rx_seq [r] = r"
| "rx_seq (r # s # rs) = Seq r (rx_seq (s # rs))"

fun rx_alts :: "rx list \<Rightarrow> rx" where
  "rx_alts [] = Eps"
| "rx_alts [r] = r"
| "rx_alts (r # s # rs) = Alt r (rx_alts (s # rs))"

section \<open>The matcher\<close>

text \<open>Text before the position in reverse, text after it, captured groups (latest first).\<close>

type_synonym rx_state = "string \<times> string \<times> (nat \<times> string) list"

definition rx_rest :: "rx_state \<Rightarrow> string" where
  "rx_rest s = fst (snd s)"

text \<open>
  Iteration: a further round must consume something, so as many rounds as there are characters
  left are enough.
\<close>

fun star_iter :: "bool \<Rightarrow> nat \<Rightarrow> (rx_state \<Rightarrow> rx_state list) \<Rightarrow> rx_state \<Rightarrow> rx_state list" where
  "star_iter greedy 0 m s = [s]"
| "star_iter greedy (Suc n) m s =
     (let more = concat (map (star_iter greedy n m) (filter (\<lambda>s'. length (rx_rest s') < length (rx_rest s)) (m s)))
      in if greedy then more @ [s] else s # more)"

definition capture :: "nat \<Rightarrow> string \<Rightarrow> rx_state \<Rightarrow> rx_state" where
  "capture n b = (\<lambda>(b', t', c). (b', t', (n, rev (take (length b' - length b) b')) # c))"

primrec rx_match :: "rx \<Rightarrow> rx_state \<Rightarrow> rx_state list" where
  "rx_match Eps s = [s]"
| "rx_match (Cls p) s =
     (case s of (b, t, c) \<Rightarrow> (case t of [] \<Rightarrow> [] | x # t' \<Rightarrow> if p x then [(x # b, t', c)] else []))"
| "rx_match (Seq r q) s = concat (map (rx_match q) (rx_match r s))"
| "rx_match (Alt r q) s = rx_match r s @ rx_match q s"
| "rx_match (Star r) s = star_iter True (length (rx_rest s)) (rx_match r) s"
| "rx_match (LazyStar r) s = star_iter False (length (rx_rest s)) (rx_match r) s"
| "rx_match (Grp n r) s = map (capture n (fst s)) (rx_match r s)"
| "rx_match (Assert p) s = (if p (fst s) (rx_rest s) then [s] else [])"

text \<open>A match object: the matched text and the groups.\<close>

type_synonym rx_result = "string \<times> (nat \<times> string) list"

definition rx_at :: "rx \<Rightarrow> string \<Rightarrow> string \<Rightarrow> rx_result option" where
  "rx_at r b t =
     (case rx_match r (b, t, []) of
        [] \<Rightarrow> None
      | (b', t', c) # ms \<Rightarrow> Some (rev (take (length b' - length b) b'), c))"

text \<open>\<^verbatim>\<open>re.search\<close>, \<^verbatim>\<open>re.match\<close> and \<^verbatim>\<open>re.fullmatch\<close>.\<close>

fun rx_search_from :: "rx \<Rightarrow> string \<Rightarrow> string \<Rightarrow> rx_result option" where
  "rx_search_from r b [] = rx_at r b []"
| "rx_search_from r b (x # t) =
     (case rx_at r b (x # t) of Some m \<Rightarrow> Some m | None \<Rightarrow> rx_search_from r (x # b) t)"

definition rx_search :: "rx \<Rightarrow> string \<Rightarrow> rx_result option" where
  "rx_search r s = rx_search_from r [] s"

definition rx_prefix :: "rx \<Rightarrow> string \<Rightarrow> rx_result option" where
  "rx_prefix r s = rx_at r [] s"

definition rx_full :: "rx \<Rightarrow> string \<Rightarrow> rx_result option" where
  "rx_full r s = rx_at (Seq r (Assert (\<lambda>b t. t = []))) [] s"

definition rx_group :: "nat \<Rightarrow> rx_result \<Rightarrow> string" where
  "rx_group n m = (if n = 0 then fst m else case map_of (snd m) n of Some g \<Rightarrow> g | None \<Rightarrow> [])"

section \<open>The meaning of a pattern\<close>

type_synonym rx_pos = "string \<times> string"

primrec rx_rel :: "rx \<Rightarrow> rx_pos \<Rightarrow> rx_pos \<Rightarrow> bool" where
  "rx_rel Eps = (=)"
| "rx_rel (Cls p) = (\<lambda>x y. \<exists>c. p c \<and> snd x = c # snd y \<and> fst y = c # fst x)"
| "rx_rel (Seq r q) = rx_rel r OO rx_rel q"
| "rx_rel (Alt r q) = sup (rx_rel r) (rx_rel q)"
| "rx_rel (Star r) = (rx_rel r)\<^sup>*\<^sup>*"
| "rx_rel (LazyStar r) = (rx_rel r)\<^sup>*\<^sup>*"
| "rx_rel (Grp n r) = rx_rel r"
| "rx_rel (Assert p) = (\<lambda>x y. x = y \<and> p (fst x) (snd x))"

definition pos_of :: "rx_state \<Rightarrow> rx_pos" where
  "pos_of s = (fst s, rx_rest s)"

text \<open>A position moves forward over the text.\<close>

definition moves :: "rx_pos \<Rightarrow> rx_pos \<Rightarrow> bool" where
  "moves x y \<longleftrightarrow> (\<exists>w. snd x = w @ snd y \<and> fst y = rev w @ fst x)"

lemma moves_refl [simp]: "moves x x"
  by (simp add: moves_def)

lemma moves_trans: "moves x y \<Longrightarrow> moves y z \<Longrightarrow> moves x z"
  unfolding moves_def by (metis append.assoc rev_append)

lemma moves_same: "moves x y \<Longrightarrow> length (snd y) \<ge> length (snd x) \<Longrightarrow> y = x"
  by (cases x; cases y) (auto simp: moves_def)

lemma moves_length: "moves x y \<Longrightarrow> length (snd y) \<le> length (snd x)"
  by (auto simp: moves_def)

lemma rx_rel_moves: "rx_rel r x y \<Longrightarrow> moves x y"
proof (induction r arbitrary: x y)
  case (Cls p)
  then show ?case by (force simp: moves_def)
next
  case (Seq r q)
  then show ?case by (metis moves_trans relcomppE rx_rel.simps(3))
next
  case (Star r)
  from Star.prems have "(rx_rel r)\<^sup>*\<^sup>* x y" by simp
  then show ?case by induction (auto intro: moves_trans Star.IH)
next
  case (LazyStar r)
  from LazyStar.prems have "(rx_rel r)\<^sup>*\<^sup>* x y" by simp
  then show ?case by induction (auto intro: moves_trans LazyStar.IH)
qed auto

lemma pos_of_simp [simp]: "pos_of (b, t, c) = (b, t)"
  by (simp add: pos_of_def rx_rest_def)

lemma rx_rest_pos: "rx_rest s = snd (pos_of s)"
  by (simp add: pos_of_def)

lemma pos_of_capture [simp]: "pos_of (capture n b s) = pos_of s"
  by (cases s) (simp add: capture_def)

text \<open>Reaching a position in rounds that each consume something.\<close>

lemma rtranclp_first_move:
  assumes "R\<^sup>*\<^sup>* x y" and "\<And>x y. R x y \<Longrightarrow> moves x y"
  shows "y = x \<or> (\<exists>z. R x z \<and> length (snd z) < length (snd x) \<and> R\<^sup>*\<^sup>* z y)"
  using assms(1)
proof (induction rule: converse_rtranclp_induct)
  case (step x z)
  show ?case
  proof (cases "length (snd z) < length (snd x)")
    case True
    then show ?thesis using step.hyps by blast
  next
    case False
    then have "z = x" using moves_same [OF assms(2) [OF step.hyps(1)]] by simp
    then show ?thesis using step.IH by simp
  qed
qed simp

lemma star_iter_set:
  assumes "\<And>s. pos_of ` set (m s) = {y. R (pos_of s) y}" and "\<And>x y. R x y \<Longrightarrow> moves x y"
    and "length (rx_rest s) \<le> n"
  shows "pos_of ` set (star_iter g n m s) = {y. R\<^sup>*\<^sup>* (pos_of s) y}"
  using assms(3)
proof (induction n arbitrary: s)
  case 0
  then have "R\<^sup>*\<^sup>* (pos_of s) y \<Longrightarrow> y = pos_of s" for y
    using rtranclp_first_move [of R "pos_of s" y] assms(2) by (auto simp: rx_rest_pos)
  then show ?case by auto
next
  case (Suc n)
  let ?next = "filter (\<lambda>s'. length (rx_rest s') < length (rx_rest s)) (m s)"
  have IH: "pos_of ` set (star_iter g n m s') = {y. R\<^sup>*\<^sup>* (pos_of s') y}" if "s' \<in> set ?next" for s'
    using Suc that by simp
  have mem: "R (pos_of s) z \<longleftrightarrow> (\<exists>s' \<in> set (m s). pos_of s' = z)" for z 
  proof -
    have "R (pos_of s) z \<longleftrightarrow> z \<in> pos_of ` set (m s)" using assms(1) [of s] by simp
    then show ?thesis by (auto simp: image_iff)
  qed
  have step: "(\<exists>s' \<in> set ?next. R\<^sup>*\<^sup>* (pos_of s') y) \<or> y = pos_of s \<longleftrightarrow> R\<^sup>*\<^sup>* (pos_of s) y" for y
    using rtranclp_first_move [of R "pos_of s" y] assms(2) mem
    by (fastforce simp: rx_rest_pos intro: converse_rtranclp_into_rtranclp)
  have "pos_of ` set (star_iter g (Suc n) m s) = insert (pos_of s) (\<Union>s' \<in> set ?next. pos_of ` set (star_iter g n m s'))"
    by (auto simp: Let_def)
  also have "\<dots> = insert (pos_of s) (\<Union>s' \<in> set ?next. {y. R\<^sup>*\<^sup>* (pos_of s') y})" using IH by simp
  also have "\<dots> = {y. R\<^sup>*\<^sup>* (pos_of s) y}" unfolding step [symmetric] by blast
  finally show ?case .
qed

text \<open>The matcher reaches exactly the positions the pattern relates.\<close>

lemma rx_match_rel: "pos_of ` set (rx_match r s) = {y. rx_rel r (pos_of s) y}"
proof (induction r arbitrary: s)
  case (Cls p)
  then show ?case by (cases s) (auto simp: pos_of_def rx_rest_def split: list.splits)
next
  case (Seq r q)
  have "pos_of ` set (rx_match (Seq r q) s) = (\<Union>s' \<in> set (rx_match r s). {y. rx_rel q (pos_of s') y})"
    by (simp add: image_UN Seq.IH(2))
  also have "\<dots> = (\<Union>x \<in> pos_of ` set (rx_match r s). {y. rx_rel q x y})" by simp
  also have "\<dots> = {y. rx_rel (Seq r q) (pos_of s) y}" unfolding Seq.IH(1) by auto
  finally show ?case .
next
  case (Alt r q)
  then show ?case by (auto simp: image_Un)
next
  case (Star r)
  show ?case using star_iter_set [of "rx_match r" "rx_rel r" s "length (rx_rest s)" True] Star.IH rx_rel_moves by simp
next
  case (LazyStar r)
  show ?case using star_iter_set [of "rx_match r" "rx_rel r" s "length (rx_rest s)" False] LazyStar.IH rx_rel_moves by simp
next
  case (Grp n r)
  then show ?case by (simp add: image_image)
next
  case (Assert p)
  then show ?case by (auto simp: pos_of_def rx_rest_def)
qed auto

lemma rx_at_iff: "rx_at r b t \<noteq> None \<longleftrightarrow> (\<exists>y. rx_rel r (b, t) y)"
proof -
  have "rx_at r b t \<noteq> None \<longleftrightarrow> rx_match r (b, t, []) \<noteq> []" by (auto simp: rx_at_def split: list.splits)
  also have "\<dots> \<longleftrightarrow> pos_of ` set (rx_match r (b, t, [])) \<noteq> {}" by simp
  also have "\<dots> \<longleftrightarrow> (\<exists>y. rx_rel r (b, t) y)" unfolding rx_match_rel by auto
  finally show ?thesis .
qed

lemma rx_search_from_iff:
  "rx_search_from r b s \<noteq> None \<longleftrightarrow> (\<exists>u v y. s = u @ v \<and> rx_rel r (rev u @ b, v) y)"
proof (induction s arbitrary: b)
  case Nil
  then show ?case using rx_at_iff by simp
next
  case (Cons x t)
  note IH = Cons.IH
  have "rx_search_from r b (x # t) \<noteq> None \<longleftrightarrow> (\<exists>y. rx_rel r (b, x # t) y) \<or> rx_search_from r (x # b) t \<noteq> None"
    using rx_at_iff [of r b "x # t"] by (auto split: option.splits)
  also have "\<dots> \<longleftrightarrow> (\<exists>u v y. x # t = u @ v \<and> rx_rel r (rev u @ b, v) y)"
  proof
    assume "(\<exists>y. rx_rel r (b, x # t) y) \<or> rx_search_from r (x # b) t \<noteq> None"
    then show "\<exists>u v y. x # t = u @ v \<and> rx_rel r (rev u @ b, v) y"
    proof
      assume "rx_search_from r (x # b) t \<noteq> None"
      then obtain u v y where "t = u @ v" "rx_rel r (rev u @ x # b, v) y" unfolding Cons.IH by blast
      then have "x # t = (x # u) @ v" "rx_rel r (rev (x # u) @ b, v) y" by simp_all
      then show ?thesis by blast
    qed force
  next
    assume "\<exists>u v y. x # t = u @ v \<and> rx_rel r (rev u @ b, v) y"
    then obtain u v y where uv: "x # t = u @ v" "rx_rel r (rev u @ b, v) y" by blast
    show "(\<exists>y. rx_rel r (b, x # t) y) \<or> rx_search_from r (x # b) t \<noteq> None"
    proof (cases u)
      case Nil
      then show ?thesis using uv by (metis append_Nil rev.simps(1))
    next
      case (Cons c u')
      then have "t = u' @ v" "rx_rel r (rev u' @ x # b, v) y" using uv by simp_all
      then show ?thesis unfolding IH by blast
    qed
  qed
  finally show ?case .
qed

text \<open>\<^verbatim>\<open>re.search\<close> finds a match precisely when the pattern matches at some position.\<close>

lemma rx_search_iff: "rx_search r s \<noteq> None \<longleftrightarrow> (\<exists>u v y. s = u @ v \<and> rx_rel r (rev u, v) y)"
  using rx_search_from_iff [of r "[]" s] by (simp add: rx_search_def)

lemma rx_full_iff: "rx_full r s \<noteq> None \<longleftrightarrow> rx_rel r ([], s) (rev s, [])"
proof -
  have "rx_full r s \<noteq> None \<longleftrightarrow> (\<exists>b. rx_rel r ([], s) (b, []))"
    unfolding rx_full_def rx_at_iff by (fastforce simp: relcompp_apply)
  moreover have "rx_rel r ([], s) (b, []) \<Longrightarrow> b = rev s" for b
    using rx_rel_moves [of r "([], s)" "(b, [])"] by (simp add: moves_def)
  ultimately show ?thesis by auto
qed

section \<open>Patterns on runs of characters\<close>

text \<open>One step over text: the position before \<open>w\<close> to the position after it.\<close>

definition eats :: "rx \<Rightarrow> string \<Rightarrow> bool" where
  "eats r w \<longleftrightarrow> (\<forall>b t. rx_rel r (b, w @ t) (rev w @ b, t))"

lemma eats_char [intro]: "eats (rx_char c) [c]"
  by (simp add: eats_def rx_char_def)

lemma eats_Cls: "p c \<Longrightarrow> eats (Cls p) [c]"
  by (simp add: eats_def)

lemma eats_Eps [intro]: "eats Eps []"
  by (simp add: eats_def)

lemma eats_Seq: "eats r u \<Longrightarrow> eats q v \<Longrightarrow> eats (Seq r q) (u @ v)"
  by (fastforce simp: eats_def)

lemma eats_str: "eats (rx_str w) w"
proof (induction w)
  case Nil
  then show ?case by auto
next
  case (Cons c w)
  then show ?case using eats_Seq [OF eats_char [of c] Cons.IH] by simp
qed

lemma eats_Alt: "eats r w \<or> eats q w \<Longrightarrow> eats (Alt r q) w"
  by (auto simp: eats_def)

lemma eats_Star: "\<forall>c \<in> set w. eats r [c] \<Longrightarrow> eats (Star r) w"
proof (induction w)
  case Nil
  then show ?case by (simp add: eats_def)
next
  case (Cons c w)
  then have "eats (Star r) w" and "eats r [c]" by simp_all
  then show ?case
    unfolding eats_def by simp (meson converse_rtranclp_into_rtranclp)
qed

lemma eats_times: "length w = n \<Longrightarrow> \<forall>c \<in> set w. eats r [c] \<Longrightarrow> eats (rx_times n r) w"
proof (induction n arbitrary: w)
  case (Suc n)
  then obtain c v where w: "w = c # v" by (cases w) auto
  with Suc have "eats r [c]" "eats (rx_times n r) v" by simp_all
  then show ?case using eats_Seq [of r "[c]" "rx_times n r" v] w by simp
qed auto

lemma eats_Grp [simp]: "eats (Grp n r) = eats r"
  by (simp add: eats_def fun_eq_iff)

section \<open>States the matcher reaches\<close>

lemma match_Seq_iff: "x \<in> set (rx_match (Seq r q) s) \<longleftrightarrow> (\<exists>y \<in> set (rx_match r s). x \<in> set (rx_match q y))"
  by simp

lemma match_Cls: "x \<in> set (rx_match (Cls p) (b, t, c)) \<Longrightarrow> \<exists>a t'. p a \<and> t = a # t' \<and> x = (a # b, t', c)"
  by (auto split: list.splits if_splits)

lemma star_Cls_states:
  "x \<in> set (star_iter g n (rx_match (Cls p)) (b, t, c)) \<Longrightarrow> \<exists>w t'. list_all p w \<and> t = w @ t' \<and> x = (rev w @ b, t', c)"
proof (induction n arbitrary: b t)
  case 0
  then show ?case by (intro exI [of _ "[]"] exI [of _ t]) simp
next
  case (Suc n)
  show ?case
  proof (cases "x = (b, t, c)")
    case True
    then show ?thesis by (intro exI [of _ "[]"] exI [of _ t]) simp
  next
    case False
    with Suc.prems obtain y where y: "y \<in> set (rx_match (Cls p) (b, t, c))" "x \<in> set (star_iter g n (rx_match (Cls p)) y)"
      by (auto simp: Let_def simp del: rx_match.simps split: if_splits)
    then obtain a t' where a: "p a" "t = a # t'" "y = (a # b, t', c)" using match_Cls by blast
    with Suc.IH [of "a # b" t'] y(2) obtain w t'' where "list_all p w" "t' = w @ t''" "x = (rev w @ a # b, t'', c)" by blast
    then show ?thesis using a by (intro exI [of _ "a # w"] exI [of _ t'']) simp
  qed
qed

text \<open>A non-empty run of a class, greedy or lazy, and literal text.\<close>

lemma match_run:
  assumes "x \<in> set (rx_match (Seq (Cls p) r) (b, t, c))" and "r = Star (Cls p) \<or> r = LazyStar (Cls p)"
  shows "\<exists>w t'. w \<noteq> [] \<and> list_all p w \<and> t = w @ t' \<and> x = (rev w @ b, t', c)"
proof -
  obtain y where y: "y \<in> set (rx_match (Cls p) (b, t, c))" "x \<in> set (rx_match r y)"
    using assms(1) by (auto simp del: rx_match.simps simp add: match_Seq_iff)
  then obtain a t' where a: "p a" "t = a # t'" "y = (a # b, t', c)" using match_Cls by blast
  then have "\<exists>g n. x \<in> set (star_iter g n (rx_match (Cls p)) (a # b, t', c))" 
    using y(2) assms(2) by (elim disjE) (simp only: rx_match.simps, blast)+
  then obtain w t'' where "list_all p w" "t' = w @ t''" "x = (rev w @ a # b, t'', c)" using star_Cls_states by blast
  then show ?thesis using a by (intro exI [of _ "a # w"] exI [of _ t'']) simp
qed

lemma match_str: "x \<in> set (rx_match (rx_str w) (b, t, c)) \<Longrightarrow> \<exists>t'. t = w @ t' \<and> x = (rev w @ b, t', c)"
proof (induction w arbitrary: b t)
  case (Cons a w)
  then obtain y where y: "y \<in> set (rx_match (rx_char a) (b, t, c))" "x \<in> set (rx_match (rx_str w) y)"
    by (auto simp del: rx_match.simps simp add: match_Seq_iff)
  then obtain t' where "t = a # t'" "y = (a # b, t', c)" unfolding rx_char_def using match_Cls by blast
  then show ?case using Cons.IH y(2) by fastforce
qed simp

lemma match_opt_str:
  assumes "x \<in> set (rx_match (rx_opt (rx_str w)) (b, t, c))"
  shows "\<exists>g b' t'. (g = [] \<or> g = w) \<and> t = g @ t' \<and> x = (b', t', c)"
proof -
  have "x \<in> set (rx_match (rx_str w) (b, t, c)) \<or> x = (b, t, c)" using assms by (auto simp: rx_opt_def)
  then show ?thesis using match_str by (metis append_Nil)
qed

lemma match_Grp:
  "x \<in> set (rx_match (Grp n r) (b, t, c)) \<Longrightarrow>
     \<exists>y \<in> set (rx_match r (b, t, c)). x = capture n b y"
  by auto

lemma capture_run: "capture n b (rev w @ b, t, c) = (rev w @ b, t, (n, w) # c)"
  by (simp add: capture_def)

lemma match_group_run:
  assumes "x \<in> set (rx_match (Grp n (Seq (Cls p) r)) (b, t, c))" and "r = Star (Cls p) \<or> r = LazyStar (Cls p)"
  shows "\<exists>w t'. w \<noteq> [] \<and> list_all p w \<and> t = w @ t' \<and> x = (rev w @ b, t', (n, w) # c)"
  using match_Grp [OF assms(1)] match_run [OF _ assms(2), of _ b t c] by (metis capture_run)

lemma rx_at_Some:
  assumes "rx_at r b t = Some m"
  shows "\<exists>b' t'. (b', t', snd m) \<in> set (rx_match r (b, t, []))"
proof -
  obtain b' t' c ms where "rx_match r (b, t, []) = (b', t', c) # ms" "c = snd m"
    using assms by (cases "rx_match r (b, t, [])") (auto simp: rx_at_def)
  then show ?thesis by (metis list.set_intros(1))
qed

lemma rx_search_from_Some:
  "rx_search_from r b s = Some m \<Longrightarrow>
     \<exists>u v b' t'. s = u @ v \<and> (b', t', snd m) \<in> set (rx_match r (rev u @ b, v, []))"
proof (induction s arbitrary: b)
  case Nil
  then show ?case using rx_at_Some [of r b "[]" m] by simp
next
  case (Cons a s)
  show ?case
  proof (cases "rx_at r b (a # s)")
    case None
    with Cons.prems Cons.IH [of "a # b"] obtain u v b' t'
      where "s = u @ v" "(b', t', snd m) \<in> set (rx_match r (rev u @ a # b, v, []))" by auto
    then have "a # s = (a # u) @ v \<and> (b', t', snd m) \<in> set (rx_match r (rev (a # u) @ b, v, []))" by simp
    then show ?thesis by blast
  next
    case (Some m')
    then have "\<exists>b' t'. (b', t', snd m) \<in> set (rx_match r (b, a # s, []))"
      using Cons.prems rx_at_Some [of r b "a # s" m] by simp
    then show ?thesis by (metis append_Nil rev.simps(1))
  qed
qed

lemma rx_search_Some:
  "rx_search r s = Some m \<Longrightarrow> \<exists>u v b' t'. s = u @ v \<and> (b', t', snd m) \<in> set (rx_match r (rev u, v, []))"
  using rx_search_from_Some [of r "[]" s m] by (simp add: rx_search_def)

end
