(* ===== verification/Shell.thy ===== *)
theory Shell
  imports Regex
begin

text \<open>
  Reading shell commands: the POSIX tokenizer \<^verbatim>\<open>shlex.split\<close> of the standard library, as a state machine
  over the characters, and the primitives of \<^verbatim>\<open>policies/builtins/_shell.py\<close> that break a command
  into its invocations.
\<close>

section \<open>\<^verbatim>\<open>shlex.split\<close>\<close>

text \<open>
  The states of the tokenizer: between tokens, in a word, in a quotation, after an escape
  character (in a word, or in a double quotation).
\<close>

datatype lex_state = Between | InWord | InQuote char | Escaped | EscapedInQuote

definition lex_space :: "char \<Rightarrow> bool" where
  "lex_space c \<longleftrightarrow> c \<in> {CHR '' '', CHR 9, CHR 13, CHR 10}"

definition single_quote :: char where "single_quote = CHR 39"
definition double_quote :: char where "double_quote = CHR 34"
definition backslash :: char where "backslash = CHR 92"

text \<open>The token read so far is kept in reverse; \<open>q\<close> records that a part of it was quoted.\<close>

fun shlex_read :: "lex_state \<Rightarrow> string \<Rightarrow> bool \<Rightarrow> string \<Rightarrow> string list res" where
  "shlex_read Between w q [] = Inr []"
| "shlex_read Between w q (c # s) =
     (if lex_space c then shlex_read Between [] False s
      else if c = backslash then shlex_read Escaped [] False s
      else if c = single_quote \<or> c = double_quote then shlex_read (InQuote c) [] False s
      else shlex_read InWord [c] False s)"
| "shlex_read InWord w q [] = Inr (if w = [] \<and> \<not> q then [] else [rev w])"
| "shlex_read InWord w q (c # s) =
     (if lex_space c then
        (if w = [] \<and> \<not> q then shlex_read Between [] False s
         else bind_res (shlex_read Between [] False s) (\<lambda>ts. Inr (rev w # ts)))
      else if c = single_quote \<or> c = double_quote then shlex_read (InQuote c) w q s
      else if c = backslash then shlex_read Escaped w q s
      else shlex_read InWord (c # w) q s)"
| "shlex_read (InQuote d) w q [] = Inl (ValueError ''No closing quotation'')"
| "shlex_read (InQuote d) w q (c # s) =
     (if c = d then shlex_read InWord w True s
      else if c = backslash \<and> d = double_quote then shlex_read EscapedInQuote w True s
      else shlex_read (InQuote d) (c # w) True s)"
| "shlex_read Escaped w q [] = Inl (ValueError ''No escaped character'')"
| "shlex_read Escaped w q (c # s) = shlex_read InWord (c # w) q s"
| "shlex_read EscapedInQuote w q [] = Inl (ValueError ''No escaped character'')"
| "shlex_read EscapedInQuote w q (c # s) =
     shlex_read (InQuote double_quote)
       (if c \<noteq> backslash \<and> c \<noteq> double_quote then c # backslash # w else c # w) q s"

definition shlex_split :: "string \<Rightarrow> string list res" where
  "shlex_split s = shlex_read Between [] False s"

section \<open>Splitting at operators\<close>

text \<open>
  \<^verbatim>\<open>re.split("&&|\|\||[...]", s)\<close>: the two-character operators first, then the single
  characters of the class. The first argument after the class is the piece being read, reversed.
\<close>

fun split_ops :: "(char \<Rightarrow> bool) \<Rightarrow> string \<Rightarrow> string \<Rightarrow> string list" where
  "split_ops p w [] = [rev w]"
| "split_ops p w [c] = (if p c then [rev w, []] else [rev (c # w)])"
| "split_ops p w (c # d # s) =
     (if c = CHR ''&'' \<and> d = CHR ''&'' \<or> c = CHR ''|'' \<and> d = CHR ''|'' then rev w # split_ops p [] s
      else if p c then rev w # split_ops p [] (d # s)
      else split_ops p (c # w) (d # s))"

section \<open>Invocations of a command\<close>

definition CMD_WRAPPERS :: "string list" where
  "CMD_WRAPPERS = [''sudo'', ''env'', ''command'', ''time'', ''nohup'', ''exec'']"

definition FLAG_WRAPPERS :: "string list dict" where
  "FLAG_WRAPPERS =
     [(''timeout'', [''-s'', ''--signal'', ''-k'', ''--kill-after'']), (''nice'', [''-n'', ''--adjustment'']),
      (''stdbuf'', [''-i'', ''--input'', ''-o'', ''--output'', ''-e'', ''--error'']), (''setsid'', [])]"

definition DURATION_WRAPPERS :: "string list" where
  "DURATION_WRAPPERS = [''timeout'']"

definition SHELL_INTERPRETERS :: "string list" where
  "SHELL_INTERPRETERS = [''sh'', ''bash'', ''zsh'', ''dash'', ''ksh'']"

text \<open>\<^verbatim>\<open>-[A-Za-z]*c[A-Za-z]*$\<close>.\<close>

definition INTERPRETER_C_FLAG :: rx where
  "INTERPRETER_C_FLAG = rx_seq [rx_char (CHR ''-''), Star (Cls is_alpha), rx_char (CHR ''c''), Star (Cls is_alpha), rx_end]"

definition MAX_SHELL_NESTING :: nat where
  "MAX_SHELL_NESTING = 4"

text \<open>\<^verbatim>\<open>[A-Za-z_][A-Za-z0-9_]*=.*\<close>.\<close>

definition ENV_ASSIGNMENT_RE :: rx where
  "ENV_ASSIGNMENT_RE =
     rx_seq [Cls (\<lambda>c. is_alpha c \<or> c = CHR ''_''), Star (Cls is_word_char), rx_char (CHR ''=''), Star rx_dot]"

text \<open>The body of a \<^verbatim>\<open>$(\<close> up to the balancing parenthesis, and the text after it.\<close>

fun close_paren :: "nat \<Rightarrow> string \<Rightarrow> string \<times> string" where
  "close_paren d [] = ([], [])"
| "close_paren d (c # s) =
     (if c = CHR '')'' \<and> d \<le> 1 then ([], s)
      else
        (case close_paren (if c = CHR ''('' then d + 1 else if c = CHR '')'' then d - 1 else d) s of
           (body, rest) \<Rightarrow> (c # body, rest)))"

lemma close_paren_length: "length (fst (close_paren d s)) + length (snd (close_paren d s)) \<le> length s"
  by (induction d s rule: close_paren.induct) (auto split: prod.splits)

function extract_command_substitutions :: "string \<Rightarrow> string \<times> string list" where
  "extract_command_substitutions s =
     (case s of
        [] \<Rightarrow> ([], [])
      | c # t \<Rightarrow>
          if c = CHR ''$'' \<and> startswith t ''('' then
            (case extract_command_substitutions (snd (close_paren 1 (tl t))) of
               (out, bodies) \<Rightarrow> (CHR '' '' # out, fst (close_paren 1 (tl t)) # bodies))
          else if c = CHR ''`'' \<and> CHR ''`'' \<in> set t then
            (case extract_command_substitutions (after_first (CHR ''`'') t) of
               (out, bodies) \<Rightarrow> (CHR '' '' # out, before_first (CHR ''`'') t # bodies))
          else
            (case extract_command_substitutions t of (out, bodies) \<Rightarrow> (c # out, bodies)))"
  by pat_completeness auto

lemma after_first_length: "length (after_first c t) \<le> length t"
  unfolding after_first_def by (metis diff_le_self le_trans length_dropWhile_le length_tl)

termination extract_command_substitutions
proof (relation "measure length", goal_cases)
  case (2 s c t)
  have "length (snd (close_paren 1 (tl t))) \<le> length t" using close_paren_length [of 1 "tl t"] by (simp add: le_trans)
  then show ?case using 2 by simp
next
  case (3 s c t)
  then show ?case using after_first_length [of "CHR ''`''" t] by simp
qed auto

declare extract_command_substitutions.simps [simp del]

lemma extract_bodies_shorter:
  "body \<in> set (snd (extract_command_substitutions s)) \<Longrightarrow> length body < length s"
proof (induction s rule: extract_command_substitutions.induct)
  case (1 s)
  show ?case
  proof (cases s)
    case Nil
    then show ?thesis using "1.prems" by (simp add: extract_command_substitutions.simps)
  next
    case (Cons c t)
    have cp: "length (fst (close_paren 1 (tl t))) \<le> length t" "length (snd (close_paren 1 (tl t))) \<le> length t"
      using close_paren_length [of 1 "tl t"] by simp_all
    have bf: "length (before_first (CHR ''`'') t) \<le> length t" by (simp add: before_first_def length_takeWhile_le)
    show ?thesis
      using "1.prems" "1.IH" [OF Cons] Cons cp bf after_first_length [of "CHR ''`''" t]
      by (subst (asm) extract_command_substitutions.simps) (fastforce split: if_splits prod.splits)
  qed
qed

text \<open>The stripped non-empty pieces, then the segments of every substitution body.\<close>

function split_command_segments :: "string \<Rightarrow> string list" where
  "split_command_segments command =
     filter (\<lambda>s. s \<noteq> []) (map str_strip
       (split_ops (\<lambda>c. c \<in> {CHR '';'', CHR ''|'', CHR 10, CHR ''&''}) [] (fst (extract_command_substitutions command)))) @
     concat (map split_command_segments (snd (extract_command_substitutions command)))"
  by pat_completeness auto
termination
  by (relation "measure length") (auto simp: extract_bodies_shorter)

declare split_command_segments.simps [simp del]

text \<open>The remaining tokens after a wrapper's own flags and, for some, its duration.\<close>

fun skip_flags :: "string list \<Rightarrow> string list \<Rightarrow> string list" where
  "skip_flags value_flags [] = []"
| "skip_flags value_flags (t # ts) =
     (if startswith t ''-'' then
        (if t \<in> set value_flags then (case ts of [] \<Rightarrow> [] | v # us \<Rightarrow> skip_flags value_flags us)
         else skip_flags value_flags ts)
      else t # ts)"

definition skip_flag_wrapper_args :: "string list \<Rightarrow> bool \<Rightarrow> string list \<Rightarrow> string list" where
  "skip_flag_wrapper_args value_flags has_duration ts =
     (if has_duration then tl (skip_flags value_flags ts) else skip_flags value_flags ts)"

lemma skip_flags_length: "length (skip_flags vf ts) \<le> length ts"
proof (induction vf ts rule: skip_flags.induct)
  case (2 vf t ts)
  then show ?case by (cases ts) (simp_all add: le_SucI)
qed simp

lemma skip_wrapper_length: "length (skip_flag_wrapper_args vf d ts) \<le> length ts"
  using skip_flags_length [of vf ts] by (auto simp: skip_flag_wrapper_args_def)

function real_invocation_tokens :: "string list \<Rightarrow> string list" where
  "real_invocation_tokens [] = []"
| "real_invocation_tokens (t # ts) =
     (if t \<in> set CMD_WRAPPERS \<or> rx_full ENV_ASSIGNMENT_RE t \<noteq> None then real_invocation_tokens ts
      else (case dget FLAG_WRAPPERS t of
              Some vf \<Rightarrow> real_invocation_tokens (skip_flag_wrapper_args vf (t \<in> set DURATION_WRAPPERS) ts)
            | None \<Rightarrow> t # ts))"
  by pat_completeness auto
termination
  by (relation "measure length") (auto simp: less_Suc_eq_le skip_wrapper_length)

fun c_flag_operand :: "string list \<Rightarrow> string option" where
  "c_flag_operand (t # u # ts) =
     (if rx_full INTERPRETER_C_FLAG t \<noteq> None then Some u else c_flag_operand (u # ts))"
| "c_flag_operand ts = None"

text \<open>The caller passes at least one token.\<close>

definition unwrap_shell_command :: "string list \<Rightarrow> string option" where
  "unwrap_shell_command tokens =
     (let head = after_last (CHR ''/'') (hd tokens)
      in if head \<in> set SHELL_INTERPRETERS then c_flag_operand tokens
         else if head = ''eval'' then (if 1 < length tokens then Some (str_join '' '' (tl tokens)) else None)
         else None)"

end
