(* ===== verification/Orchestration.thy ===== *)
theory Orchestration
  imports Safety Shell "HOL-Library.Char_ord" "HOL-Library.List_Lexorder"
begin

text \<open>
  The bounds and blast-radius policies of the coding orchestrator
  (\<^verbatim>\<open>policies/builtins/orchestration.py\<close>): the classification of shell statements by
  reversibility, the per-turn dispatch bound, the purpose guard and the write guards. An index into a token list is
  the list of the tokens from it on.
\<close>

section \<open>Events and decisions\<close>

definition orch_decision :: "string \<Rightarrow> string \<Rightarrow> pydict" where
  "orch_decision result reason = [(''result'', PStr result), (''reason'', PStr reason)]"

definition orch_tool_call :: "pydict \<Rightarrow> string list \<Rightarrow> pydict option res" where
  "orch_tool_call ev tool_names =
     (if pget ev ''type'' \<noteq> PStr ''tool_call'' then Inr None
      else (case pget ev ''data'' of
              PDict data \<Rightarrow>
                bind_res (in_strs (pget data ''name'') tool_names) (\<lambda>listed.
                  Inr (if listed then Some (case pget data ''arguments'' of PDict a \<Rightarrow> a | _ \<Rightarrow> []) else None))
            | _ \<Rightarrow> Inr None))"

section \<open>Patterns and tables\<close>

text \<open>\<^verbatim>\<open>\bgit\b.*\breset\s+--hard\s+\w+/\<close>.\<close>

definition HARD_RESET_RE :: rx where
  "HARD_RESET_RE =
     rx_seq [rx_boundary, rx_str ''git'', rx_boundary, Star rx_dot, rx_boundary, rx_str ''reset'', rx_plus rx_space,
       rx_str ''--hard'', rx_plus rx_space, rx_plus (Cls is_word_char), rx_char (CHR ''/'')]"

definition DENY_PATTERNS :: "rx list" where
  "DENY_PATTERNS = [HARD_RESET_RE]"

text \<open>\<^verbatim>\<open>\bgh\s+(pr\s+merge|release|repo\s+delete)\b\<close>.\<close>

definition GH_RE :: rx where
  "GH_RE =
     rx_seq [rx_boundary, rx_str ''gh'', rx_plus rx_space,
       Grp 1 (rx_alts [rx_seq [rx_str ''pr'', rx_plus rx_space, rx_str ''merge''], rx_str ''release'',
         rx_seq [rx_str ''repo'', rx_plus rx_space, rx_str ''delete'']]), rx_boundary]"

text \<open>\<^verbatim>\<open>\b(kubectl|helm|terraform|databricks)\b.*\b(apply|deploy|destroy|delete)\b\<close>.\<close>

definition INFRA_RE :: rx where
  "INFRA_RE =
     rx_seq [rx_boundary, Grp 1 (rx_alts (map rx_str [''kubectl'', ''helm'', ''terraform'', ''databricks''])), rx_boundary,
       Star rx_dot, rx_boundary, Grp 2 (rx_alts (map rx_str [''apply'', ''deploy'', ''destroy'', ''delete''])), rx_boundary]"

definition ASK_PATTERNS :: "rx list" where
  "ASK_PATTERNS = [GH_RE, INFRA_RE]"

definition RM_CRITICAL_DIRS :: "string list" where
  "RM_CRITICAL_DIRS =
     [''/'', ''/etc'', ''/usr'', ''/bin'', ''/sbin'', ''/lib'', ''/lib64'', ''/var'', ''/boot'', ''/root'', ''/home'', ''/opt'',
      ''/dev'', ''/proc'', ''/sys'']"

definition RM_SYSTEM_PARENTS :: "string list" where
  "RM_SYSTEM_PARENTS =
     [''/etc'', ''/usr'', ''/bin'', ''/sbin'', ''/lib'', ''/lib64'', ''/var'', ''/boot'', ''/dev'', ''/proc'', ''/sys'']"

definition SUDO_VALUE_OPTS :: "string list" where
  "SUDO_VALUE_OPTS =
     [''-C'', ''-D'', ''-g'', ''-h'', ''-p'', ''-R'', ''-r'', ''-T'', ''-t'', ''-U'', ''-u'', ''--chdir'', ''--chroot'',
      ''--close-from'', ''--command-timeout'', ''--group'', ''--host'', ''--other-user'', ''--prompt'', ''--role'', ''--type'',
      ''--user'']"

definition GIT_GLOBAL_VALUE_OPTS :: "string list" where
  "GIT_GLOBAL_VALUE_OPTS = [''-C'', ''-c'', ''--git-dir'', ''--work-tree'', ''--namespace'', ''--exec-path'']"

definition PUSH_SHORT_VALUE_OPTS :: string where
  "PUSH_SHORT_VALUE_OPTS = ''o''"

section \<open>Statements of a command\<close>

definition statement_op :: "char \<Rightarrow> bool" where
  "statement_op c \<longleftrightarrow> c \<in> {CHR '';'', CHR ''|'', CHR 10}"

definition statement_tokens :: "string \<Rightarrow> string list" where
  "statement_tokens piece = (case shlex_split piece of Inr argv \<Rightarrow> argv | Inl e \<Rightarrow> words [] piece)"

definition shell_statements :: "string \<Rightarrow> string list list" where
  "shell_statements command =
     filter (\<lambda>argv. argv \<noteq> [])
       (map statement_tokens (filter (\<lambda>p. p \<noteq> []) (map str_strip (split_ops statement_op [] command))))"

definition rstrip_slash :: "string \<Rightarrow> string" where
  "rstrip_slash s = rev (dropWhile (\<lambda>c. c = CHR ''/'') (rev s))"

definition lstrip_slash :: "string \<Rightarrow> string" where
  "lstrip_slash s = dropWhile (\<lambda>c. c = CHR ''/'') s"

definition rm_target_is_catastrophic :: "string \<Rightarrow> bool" where
  "rm_target_is_catastrophic target =
     (let norm = (if rstrip_slash target = [] then ''/'' else rstrip_slash target)
      in if norm \<in> set [''~'', ''$HOME'', ''${HOME}''] then True
         else if target = ''/*'' \<or> startswith target ''/*'' then True
         else if norm \<in> set RM_CRITICAL_DIRS then True
         else if startswith target ''/'' \<and> CHR ''/'' # before_first (CHR ''/'') (lstrip_slash target) \<in> set RM_SYSTEM_PARENTS
         then True
         else False)"

definition is_assignment :: "string \<Rightarrow> bool" where
  "is_assignment t \<longleftrightarrow> rx_full ENV_ASSIGNMENT_RE t \<noteq> None"

definition skip_shell_assignments :: "string list \<Rightarrow> string list" where
  "skip_shell_assignments argv = dropWhile is_assignment argv"

text \<open>The position of the first letter of a bundled \<^verbatim>\<open>sudo\<close> option that takes a value.\<close>

fun value_opt_pos :: "string \<Rightarrow> nat option" where
  "value_opt_pos [] = None"
| "value_opt_pos (c # s) =
     (if [CHR ''-'', c] \<in> set SUDO_VALUE_OPTS then Some 0 else map_option Suc (value_opt_pos s))"

fun skip_sudo_opts :: "string list \<Rightarrow> string list" where
  "skip_sudo_opts [] = []"
| "skip_sudo_opts (tok # ts) =
     (if tok = ''--'' then skip_shell_assignments ts
      else if startswith tok ''--'' then
        (if tok \<in> set SUDO_VALUE_OPTS \<and> CHR ''='' \<notin> set tok then (case ts of [] \<Rightarrow> [] | v # us \<Rightarrow> skip_sudo_opts us)
         else skip_sudo_opts ts)
      else if startswith tok ''-'' \<and> tok \<noteq> ''-'' then
        (case value_opt_pos (tl tok) of
           None \<Rightarrow> skip_sudo_opts ts
         | Some pos \<Rightarrow>
             if pos < length (tl tok) - 1 then skip_sudo_opts ts
             else (case ts of [] \<Rightarrow> [] | v # us \<Rightarrow> skip_sudo_opts us))
      else skip_shell_assignments (tok # ts))"

definition command_after_shell_prefixes :: "string list \<Rightarrow> string list" where
  "command_after_shell_prefixes argv =
     (case skip_shell_assignments argv of
        [] \<Rightarrow> []
      | t # ts \<Rightarrow> if t \<noteq> ''sudo'' then t # ts else skip_sudo_opts ts)"

section \<open>Severity of a statement\<close>

text \<open>The flag \<open>recursive\<close> and the targets, read off the arguments of \<^verbatim>\<open>rm\<close> from left to right.\<close>

fun rm_args :: "bool \<Rightarrow> string list \<Rightarrow> bool \<Rightarrow> string list \<Rightarrow> bool \<times> string list" where
  "rm_args recursive targets positional_only [] = (recursive, targets)"
| "rm_args recursive targets positional_only (tok # ts) =
     (if positional_only then rm_args recursive (targets @ [tok]) positional_only ts
      else if tok = ''--'' then rm_args recursive targets True ts
      else if tok = ''--force'' then rm_args recursive targets positional_only ts
      else if tok = ''--recursive'' then rm_args True targets positional_only ts
      else if startswith tok ''-'' \<and> 1 < length tok \<and> \<not> startswith tok ''--'' then
        rm_args (recursive \<or> CHR ''r'' \<in> set (tl tok) \<or> CHR ''R'' \<in> set (tl tok)) targets positional_only ts
      else if \<not> startswith tok ''-'' then rm_args recursive (targets @ [tok]) positional_only ts
      else rm_args recursive targets positional_only ts)"

definition rm_severity :: "string list \<Rightarrow> string option" where
  "rm_severity argv =
     (case command_after_shell_prefixes argv of
        [] \<Rightarrow> None
      | cmd # args \<Rightarrow>
          if cmd \<noteq> ''rm'' then None
          else (case rm_args False [] False args of
                  (recursive, targets) \<Rightarrow>
                    if \<not> recursive then None
                    else Some (if list_ex rm_target_is_catastrophic targets then ''DENY'' else ''ASK'')))"

fun push_flags_destructive :: "string \<Rightarrow> bool" where
  "push_flags_destructive [] = False"
| "push_flags_destructive (opt # s) =
     (if opt = CHR ''f'' \<or> opt = CHR ''d'' then True
      else if opt \<in> set PUSH_SHORT_VALUE_OPTS then False
      else push_flags_destructive s)"

definition push_short_option_is_destructive :: "string \<Rightarrow> bool" where
  "push_short_option_is_destructive token = push_flags_destructive (tl token)"

fun skip_git_globals :: "string list \<Rightarrow> string list" where
  "skip_git_globals [] = []"
| "skip_git_globals (t # ts) =
     (if startswith t ''-'' then
        (if t \<in> set GIT_GLOBAL_VALUE_OPTS then (case ts of [] \<Rightarrow> [] | v # us \<Rightarrow> skip_git_globals us) else skip_git_globals ts)
      else t # ts)"

definition push_token_destructive :: "string \<Rightarrow> bool" where
  "push_token_destructive tok \<longleftrightarrow>
     startswith tok ''--force'' \<or> tok \<in> set [''--delete'', ''--mirror'', ''--prune''] \<or>
     startswith tok ''-'' \<and> \<not> startswith tok ''--'' \<and> push_short_option_is_destructive tok \<or>
     1 < length tok \<and> hd tok \<in> set ''+:''"

definition push_severity :: "string list \<Rightarrow> string option" where
  "push_severity argv =
     (case command_after_shell_prefixes argv of
        [] \<Rightarrow> None
      | cmd # args \<Rightarrow>
          if cmd \<noteq> ''git'' then None
          else (case skip_git_globals args of
                  [] \<Rightarrow> None
                | sub # rest \<Rightarrow>
                    if sub \<noteq> ''push'' then None
                    else Some (if list_ex push_token_destructive rest then ''DENY'' else ''ASK'')))"

section \<open>Policies\<close>

definition SHELL_TOOLS :: "string list" where
  "SHELL_TOOLS = [''sys_os_shell'', ''Bash'', ''bash'']"

definition severities :: "string \<Rightarrow> string option list" where
  "severities command = concat (map (\<lambda>stmt. [rm_severity stmt, push_severity stmt]) (shell_statements command))"

definition blast_radius :: "bool \<Rightarrow> string \<Rightarrow> pydict \<Rightarrow> pydict res" where
  "blast_radius gate_pushes deny_reason ev =
     bind_res (orch_tool_call ev SHELL_TOOLS) (\<lambda>call.
       Inr (case call of
              None \<Rightarrow> ALLOW_RESPONSE
            | Some args \<Rightarrow>
                (case pget args ''command'' of
                   PStr command \<Rightarrow>
                     if Some ''DENY'' \<in> set (severities command) \<or> list_ex (\<lambda>p. rx_search p command \<noteq> None) DENY_PATTERNS then
                       orch_decision ''DENY'' (deny_reason @ '' (irreversible: '' @ repr_str command @ '')'')
                     else if gate_pushes \<and>
                       (Some ''ASK'' \<in> set (severities command) \<or> list_ex (\<lambda>p. rx_search p command \<noteq> None) ASK_PATTERNS) then
                       orch_decision ''ASK'' (''High-blast-radius command needs approval: '' @ repr_str command)
                     else ALLOW_RESPONSE
                 | _ \<Rightarrow> ALLOW_RESPONSE)))"

text \<open>The dispatch bound: the state is the count of the current turn.\<close>

definition spawn_bounds :: "int \<Rightarrow> string list \<Rightarrow> pydict \<Rightarrow> int \<Rightarrow> pydict res \<times> int" where
  "spawn_bounds max_dispatches dispatch_tools ev count =
     (case orch_tool_call ev dispatch_tools of
        Inl e \<Rightarrow> (Inl e, count)
      | Inr None \<Rightarrow> (Inr ALLOW_RESPONSE, count)
      | Inr (Some args) \<Rightarrow>
          (if max_dispatches < count + 1 then
             (Inr (orch_decision ''DENY'' (''Exceeded '' @ str_of_int max_dispatches @ '' worker dispatches this turn; '' @
               ''fan out in waves (collect the running batch before dispatching more).'')), count + 1)
           else (Inr ALLOW_RESPONSE, count + 1)))"

definition spawn_reset :: "int \<Rightarrow> int" where
  "spawn_reset count = 0"

definition sorted_repr :: "string list \<Rightarrow> string" where
  "sorted_repr xs = ''['' @ str_join '', '' (map repr_str (sort (remdups xs))) @ '']''"

definition headless_subagent_purpose_guard :: "string list \<Rightarrow> string \<Rightarrow> pydict \<Rightarrow> pydict res" where
  "headless_subagent_purpose_guard allowed_purposes deny_reason ev =
     bind_res (orch_tool_call ev [''sys_session_send'']) (\<lambda>call.
       Inr (case call of
              None \<Rightarrow> ALLOW_RESPONSE
            | Some args \<Rightarrow>
                (case pget args ''args'' of
                   PDict child_args \<Rightarrow>
                     if (case pget child_args ''purpose'' of PStr p \<Rightarrow> p \<in> set allowed_purposes | _ \<Rightarrow> False) then ALLOW_RESPONSE
                     else orch_decision ''DENY'' (deny_reason @ '' Set args.purpose to one of '' @ sorted_repr allowed_purposes @
                       '' when this is a legitimate sub-agent task.'')
                 | _ \<Rightarrow> orch_decision ''DENY'' (deny_reason @ '' Missing object args with purpose.''))))"

definition WRITE_TOOLS :: "string list" where
  "WRITE_TOOLS = [''sys_os_write'', ''sys_os_edit'', ''Write'', ''Edit'', ''MultiEdit'', ''write'', ''edit'']"

definition write_path :: "pydict \<Rightarrow> pyval" where
  "write_path args = (if truthy (pget args ''path'') then pget args ''path'' else pget args ''file_path'')"

definition worktree_guard :: "string \<Rightarrow> string \<Rightarrow> pydict \<Rightarrow> pydict res" where
  "worktree_guard allowed_root deny_reason ev =
     bind_res (orch_tool_call ev WRITE_TOOLS) (\<lambda>call.
       Inr (case call of
              None \<Rightarrow> ALLOW_RESPONSE
            | Some args \<Rightarrow>
                (case write_path args of
                   PStr path \<Rightarrow>
                     if startswith path ''/'' \<or> startswith path ''~'' \<or> ''..'' \<in> set (split_char (CHR ''/'') path) then
                       orch_decision ''DENY'' (deny_reason @ '' (outside '' @ allowed_root @ ''/: '' @ repr_str path @ '')'')
                     else ALLOW_RESPONSE
                 | _ \<Rightarrow> ALLOW_RESPONSE)))"

definition read_only_os :: "string \<Rightarrow> pydict \<Rightarrow> pydict res" where
  "read_only_os deny_reason ev =
     bind_res (orch_tool_call ev WRITE_TOOLS) (\<lambda>call.
       Inr (case call of None \<Rightarrow> ALLOW_RESPONSE | Some args \<Rightarrow> orch_decision ''DENY'' deny_reason))"

end
