(* ===== verification/Strictest.thy ===== *)
theory Strictest
  imports Prelude
begin

text \<open>
  The interface of the policies that fold the verdicts on the parts of a command into one: the combined answer is one
  of the two, and is as restrictive as the stricter one. The working-directory and the GitHub policy interpret it.
\<close>

text \<open>The rank table of \<^verbatim>\<open>_worse\<close>: no answer counts as ALLOW.\<close>

definition result_rank :: "pydict option \<Rightarrow> nat" where
  "result_rank r =
     (case r of
        Some d \<Rightarrow> if pget d ''result'' = PStr ''DENY'' then 3 else if pget d ''result'' = PStr ''ASK'' then 2 else 1
      | None \<Rightarrow> 1)"

lemma result_rank_None [simp]: "result_rank None = 1"
  by (simp add: result_rank_def)

lemma result_rank_pos: "1 \<le> result_rank r"
  by (auto simp: result_rank_def split: option.splits)

locale strictest =
  fixes combine :: "pydict option \<Rightarrow> pydict option \<Rightarrow> pydict option"
  assumes combine_pick: "combine a b = a \<or> combine a b = b"
    and combine_rank: "result_rank (combine a b) = max (result_rank a) (result_rank b)"
begin

abbreviation strictest_of :: "('a \<Rightarrow> pydict option) \<Rightarrow> pydict option \<Rightarrow> 'a list \<Rightarrow> pydict option" where
  "strictest_of f a xs \<equiv> foldl (\<lambda>w x. combine w (f x)) a xs"

lemma strictest_pick: "strictest_of f a xs = a \<or> (\<exists>x \<in> set xs. strictest_of f a xs = f x)"
proof (induction xs arbitrary: a)
  case (Cons x xs)
  have "strictest_of f a (x # xs) = combine a (f x) \<or> (\<exists>y \<in> set xs. strictest_of f a (x # xs) = f y)"
    using Cons [of "combine a (f x)"] by simp
  then show ?case using combine_pick [of a "f x"] by (auto simp del: foldl.simps)
qed simp

lemma strictest_le: "result_rank (strictest_of f a xs) \<le> n \<longleftrightarrow> result_rank a \<le> n \<and> (\<forall>x \<in> set xs. result_rank (f x) \<le> n)"
  by (induction xs arbitrary: a) (auto simp: combine_rank)

lemma strictest_bound: "x \<in> set xs \<Longrightarrow> result_rank (f x) \<le> result_rank (strictest_of f a xs)"
  using strictest_le [of f a xs "result_rank (strictest_of f a xs)"] by auto

text \<open>When every answer given gates, nothing is answered exactly when no part is.\<close>

lemma strictest_None:
  assumes "\<forall>x \<in> set xs. f x = None \<or> 1 < result_rank (f x)"
  shows "strictest_of f None xs = None \<longleftrightarrow> (\<forall>x \<in> set xs. f x = None)"
proof
  assume "strictest_of f None xs = None"
  then have "\<forall>x \<in> set xs. result_rank (f x) \<le> 1" using strictest_le [of f None xs 1] by simp
  then show "\<forall>x \<in> set xs. f x = None" using assms by fastforce
next
  assume "\<forall>x \<in> set xs. f x = None"
  then show "strictest_of f None xs = None" using strictest_pick [of f None xs] by auto
qed

lemma strictest_DENY:
  "result_rank (strictest_of f None xs) = 3 \<longleftrightarrow> (\<exists>x \<in> set xs. result_rank (f x) = 3)"
proof -
  have three: "result_rank r \<le> 3" for r by (simp add: result_rank_def split: option.splits)
  have "result_rank (strictest_of f None xs) = 3 \<longleftrightarrow> \<not> result_rank (strictest_of f None xs) \<le> 2"
    using three [of "strictest_of f None xs"] by linarith
  also have "\<dots> \<longleftrightarrow> (\<exists>x \<in> set xs. \<not> result_rank (f x) \<le> 2)" by (auto simp: strictest_le)
  also have "\<dots> \<longleftrightarrow> (\<exists>x \<in> set xs. result_rank (f x) = 3)" using three by (metis le_antisym not_less_eq_eq numeral_2_eq_2 numeral_3_eq_3 order_refl)
  finally show ?thesis .
qed

end

end
