(* ===== verification/WorkingDir.thy ===== *)
theory WorkingDir
  imports Orchestration Strictest
begin

text \<open>
  The working-directory policy (\<^verbatim>\<open>policies/builtins/working_dir.py\<close>) on the shell analysis: which segments of a
  command, through wrappers and interpreters, move the agent to another directory or worktree, and what the
  configured directories still admit. The recursion guard on nested interpreters is the number of levels left.
\<close>

section \<open>Tables\<close>

definition CD_COMMANDS :: "string list" where
  "CD_COMMANDS = [''cd'', ''chdir'', ''pushd'', ''popd'']"

definition WORKTREE_SWITCH_SUBCMDS :: "string list" where
  "WORKTREE_SWITCH_SUBCMDS = [''add'', ''move'', ''remove'']"

definition GIT_VALUE_OPTS :: "string list" where
  "GIT_VALUE_OPTS = [''-C'', ''-c'', ''--git-dir'', ''--work-tree'', ''--namespace'', ''--config-env'']"

definition DEFAULT_SHELL_TOOLS :: "string list" where
  "DEFAULT_SHELL_TOOLS = [''sys_os_shell'', ''Bash'']"

text \<open>The field \<open>kind\<close> of the source is \<open>cd\<close> or \<open>worktree\<close>.\<close>

datatype dir_kind = CdOp | WorktreeOp

record dir_op =
  do_kind :: dir_kind
  do_target :: "string option"
  do_detail :: string

section \<open>Paths\<close>

text \<open>\<^verbatim>\<open>os.path.normpath\<close> on POSIX; \<open>norm_comps\<close> is its loop over the components, the kept ones in reverse.\<close>

fun norm_comps :: "bool \<Rightarrow> string list \<Rightarrow> string list \<Rightarrow> string list" where
  "norm_comps rooted acc [] = rev acc"
| "norm_comps rooted acc (c # cs) =
     (if c = [] \<or> c = ''.'' then norm_comps rooted acc cs
      else if c \<noteq> ''..'' \<or> (\<not> rooted \<and> acc = []) \<or> (acc \<noteq> [] \<and> hd acc = ''..'') then norm_comps rooted (c # acc) cs
      else norm_comps rooted (tl acc) cs)"

definition initial_slashes :: "string \<Rightarrow> string" where
  "initial_slashes p =
     (if startswith p ''//'' \<and> \<not> startswith p ''///'' then ''//'' else if startswith p ''/'' then ''/'' else [])"

definition normpath :: "string \<Rightarrow> string" where
  "normpath p =
     (if p = [] then ''.''
      else
        (let q = initial_slashes p @ str_join ''/'' (norm_comps (startswith p ''/'') [] (split_char (CHR ''/'') p))
         in if q = [] then ''.'' else q))"

definition normalize_dir :: "string \<Rightarrow> string" where
  "normalize_dir path = (if str_strip path = [] then [] else normpath (str_strip path))"

definition normalize_dirs :: "string list option \<Rightarrow> string list" where
  "normalize_dirs values = filter (\<lambda>d. d \<noteq> []) (map normalize_dir (case values of Some vs \<Rightarrow> vs | None \<Rightarrow> []))"

definition is_under_allowed :: "string \<Rightarrow> string list \<Rightarrow> bool" where
  "is_under_allowed target allowed_dirs =
     (let norm = normalize_dir target
      in if norm = [] then False else list_ex (\<lambda>a. norm = a \<or> startswith norm (a @ ''/'')) allowed_dirs)"

section \<open>Classification of a segment\<close>

text \<open>The last \<^verbatim>\<open>-C\<close> path and the positional arguments of a \<^verbatim>\<open>git\<close> invocation.\<close>

fun git_scan :: "string option \<Rightarrow> string list \<Rightarrow> string option \<times> string list" where
  "git_scan c_path [] = (c_path, [])"
| "git_scan c_path [t] = (if startswith t ''-'' then (c_path, []) else (c_path, [t]))"
| "git_scan c_path (t # v # ts) =
     (if t \<in> set GIT_VALUE_OPTS then git_scan (if t = ''-C'' then Some v else c_path) ts
      else if startswith t ''-'' then git_scan c_path (v # ts)
      else (case git_scan c_path (v # ts) of (c, ps) \<Rightarrow> (c, t # ps)))"

definition classify_git :: "string list \<Rightarrow> bool \<Rightarrow> bool \<Rightarrow> dir_op option" where
  "classify_git tokens block_cd block_worktree =
     (case git_scan None (tl tokens) of
        (c_path, positionals) \<Rightarrow>
          (let action_word = (if 1 < length positionals then positionals ! 1 else [])
           in if block_worktree \<and> positionals \<noteq> [] \<and> hd positionals = ''worktree'' \<and> action_word \<in> set WORKTREE_SWITCH_SUBCMDS then
                Some \<lparr>do_kind = WorktreeOp, do_target = None, do_detail = ''git worktree '' @ action_word\<rparr>
              else (case c_path of
                      Some p \<Rightarrow> if block_cd then Some \<lparr>do_kind = CdOp, do_target = Some p, do_detail = ''git -C '' @ p\<rparr> else None
                    | None \<Rightarrow> None)))"

definition classify_cd :: "string list \<Rightarrow> dir_op" where
  "classify_cd tokens =
     (case filter (\<lambda>t. \<not> startswith t ''-'') (tl tokens) of
        [] \<Rightarrow> \<lparr>do_kind = CdOp, do_target = None, do_detail = hd tokens\<rparr>
      | t # ts \<Rightarrow>
          \<lparr>do_kind = CdOp, do_target = Some t, do_detail = (if t = [] then hd tokens else hd tokens @ '' '' @ t)\<rparr>)"

definition classify_segment :: "string list \<Rightarrow> bool \<Rightarrow> bool \<Rightarrow> dir_op option" where
  "classify_segment tokens block_cd block_worktree =
     (let head = dropWhile (\<lambda>c. c = CHR ''('') (hd tokens)
      in if head = ''git'' then classify_git (''git'' # tl tokens) block_cd block_worktree
         else if block_cd \<and> head \<in> set CD_COMMANDS then Some (classify_cd (head # tl tokens))
         else None)"

definition word_re :: "string list \<Rightarrow> rx" where
  "word_re ws = rx_seq [rx_boundary, Grp 1 (rx_alts (map rx_str ws)), rx_boundary]"

text \<open>\<^verbatim>\<open>(?<!\S)-C\b\<close>.\<close>

definition DASH_C_RE :: rx where
  "DASH_C_RE = rx_seq [Assert (\<lambda>b t. b = [] \<or> is_space (hd b)), rx_str ''-C'', rx_boundary]"

definition looks_like_dir_op :: "string \<Rightarrow> bool \<Rightarrow> bool \<Rightarrow> bool" where
  "looks_like_dir_op segment block_cd block_worktree =
     (if block_cd \<and> rx_search (word_re CD_COMMANDS) segment \<noteq> None then True
      else if rx_search (word_re [''git'']) segment \<noteq> None then
        block_worktree \<and> rx_search (word_re [''worktree'']) segment \<noteq> None \<or> block_cd \<and> rx_search DASH_C_RE segment \<noteq> None
      else False)"

section \<open>The policy\<close>

record dir_cfg =
  dc_block_cd :: bool
  dc_block_worktree :: bool
  dc_allowed :: "string list"
  dc_result_kind :: string
  dc_shell_tools :: "string list"

definition block_working_dir_changes :: "bool \<Rightarrow> bool \<Rightarrow> string list option \<Rightarrow> string \<Rightarrow> string list option \<Rightarrow> dir_cfg res" where
  "block_working_dir_changes block_cd block_worktree allowed_dirs action shell_tools =
     (if action \<notin> set [''deny'', ''ask''] then
        Inl (ValueError (''action must be '' @ quoted ''deny'' @ '' or '' @ quoted ''ask'' @ '', got '' @ repr_str action))
      else if \<not> block_cd \<and> \<not> block_worktree then
        Inl (ValueError (''block_working_dir_changes gates nothing when both block_cd and '' @
          ''block_worktree are False; enable at least one.''))
      else
        Inr \<lparr>dc_block_cd = block_cd, dc_block_worktree = block_worktree, dc_allowed = normalize_dirs allowed_dirs,
             dc_result_kind = (if action = ''deny'' then ''DENY'' else ''ASK''),
             dc_shell_tools = (case shell_tools of Some ts \<Rightarrow> ts | None \<Rightarrow> DEFAULT_SHELL_TOOLS)\<rparr>)"

definition dir_violation :: "dir_cfg \<Rightarrow> string \<Rightarrow> pydict" where
  "dir_violation cfg reason = [(''result'', PStr (dc_result_kind cfg)), (''reason'', PStr reason)]"

definition dir_gate :: "dir_cfg \<Rightarrow> dir_op \<Rightarrow> pydict option" where
  "dir_gate cfg dop =
     (if do_kind dop = WorktreeOp then
        Some (dir_violation cfg (''Blocked: '' @ quoted (do_detail dop) @ '' switches git worktrees, which this policy forbids.''))
      else if dc_allowed cfg \<noteq> [] \<and> (case do_target dop of Some t \<Rightarrow> is_under_allowed t (dc_allowed cfg) | None \<Rightarrow> False) then None
      else if dc_allowed cfg \<noteq> [] then
        Some (dir_violation cfg (''Blocked: '' @ quoted (do_detail dop) @ '' changes the working directory outside the allowed '' @
          ''directories '' @ sorted_repr (dc_allowed cfg) @ ''.''))
      else
        Some (dir_violation cfg (''Blocked: '' @ quoted (do_detail dop) @ '' changes the working directory, which this policy forbids.'')))"

definition worse :: "pydict option \<Rightarrow> pydict option \<Rightarrow> pydict option" where
  "worse current candidate = (if result_rank current < result_rank candidate then candidate else current)"

interpretation dirs: strictest worse
  by unfold_locales (auto simp: worse_def)

definition unparsable :: "dir_cfg \<Rightarrow> string \<Rightarrow> pydict option" where
  "unparsable cfg segment =
     (if looks_like_dir_op segment (dc_block_cd cfg) (dc_block_worktree cfg) then
        Some (dir_violation cfg (''Blocked: could not parse a shell command ('' @ repr_str (take 60 segment) @ '') that '' @
          ''appears to switch directories or worktrees.''))
      else None)"

text \<open>The verdict on one segment, given the verdict \<open>rec\<close> on an inner command.\<close>

definition evaluate_segment :: "dir_cfg \<Rightarrow> (string \<Rightarrow> pydict option) \<Rightarrow> string \<Rightarrow> pydict option" where
  "evaluate_segment cfg rec segment =
     (case shlex_split segment of
        Inl e \<Rightarrow> unparsable cfg segment
      | Inr all_tokens \<Rightarrow>
          (case real_invocation_tokens all_tokens of
             [] \<Rightarrow> None
           | tokens \<Rightarrow>
               (case unwrap_shell_command tokens of
                  Some inner \<Rightarrow> rec inner
                | None \<Rightarrow>
                    (case classify_segment tokens (dc_block_cd cfg) (dc_block_worktree cfg) of
                       Some dop \<Rightarrow> dir_gate cfg dop
                     | None \<Rightarrow> None))))"

fun evaluate_command :: "dir_cfg \<Rightarrow> nat \<Rightarrow> string \<Rightarrow> pydict option" where
  "evaluate_command cfg 0 command = None"
| "evaluate_command cfg (Suc n) command =
     foldl (\<lambda>worst segment. worse worst (evaluate_segment cfg (evaluate_command cfg n) segment)) None
       (split_command_segments command)"

definition dir_evaluate :: "dir_cfg \<Rightarrow> pydict \<Rightarrow> pydict option res" where
  "dir_evaluate cfg ev =
     (if pget ev ''type'' \<noteq> PStr ''tool_call'' then Inr None
      else (case pget ev ''data'' of
              PDict data \<Rightarrow>
                bind_res (in_strs (pget data ''name'') (dc_shell_tools cfg)) (\<lambda>listed.
                  Inr (if \<not> listed then None
                       else (case pget (case pget data ''arguments'' of PDict a \<Rightarrow> a | _ \<Rightarrow> []) ''command'' of
                               PStr command \<Rightarrow>
                                 if str_strip command = [] then None else evaluate_command cfg (Suc MAX_SHELL_NESTING) command
                             | _ \<Rightarrow> None)))
            | _ \<Rightarrow> Inr None))"

end
