(* ===== verification/OrchestrationProperties.thy ===== *)
theory OrchestrationProperties
  imports Orchestration Fixtures
begin

text \<open>
  Properties of the orchestrator's policies: chained commands, prefixes and flag spellings of
  destructive statements, the dispatch bound over a turn, containment of worker writes.
\<close>

section \<open>Chained commands\<close>

text \<open>A separator between \<open>u\<close> and \<open>v\<close> that no neighbouring character makes into another operator.\<close>

definition joins :: "string \<Rightarrow> string \<Rightarrow> string \<Rightarrow> bool" where
  "joins u sep v \<longleftrightarrow>
     sep = '';'' \<or> sep = [CHR 10] \<or>
     sep = ''&&'' \<and> (u = [] \<or> last u \<noteq> CHR ''&'') \<or>
     sep = ''||'' \<and> (u = [] \<or> last u \<noteq> CHR ''|'') \<or>
     sep = ''|'' \<and> (u = [] \<or> last u \<noteq> CHR ''|'') \<and> (v = [] \<or> hd v \<noteq> CHR ''|'')"

lemma statement_op_simps [simp]:
  "statement_op (CHR '';'')" "statement_op (CHR ''|'')" "statement_op (CHR 10)" "\<not> statement_op (CHR ''&'')"
  by (simp_all add: statement_op_def)

lemma split_start:
  "joins [] sep v \<Longrightarrow> split_ops statement_op w (sep @ v) = rev w # split_ops statement_op [] v"
  by (cases v) (auto simp: joins_def)

lemma joins_tl: "joins (c # d # u) sep v \<Longrightarrow> joins (d # u) sep v" "joins (c # d # u) sep v \<Longrightarrow> joins u sep v"
  by (auto simp: joins_def split: if_splits)

lemma joins_hd:
  assumes "joins [c] sep v"
  obtains x xs where "sep @ v = x # xs" and "\<not> (c = CHR ''&'' \<and> x = CHR ''&'')" and "\<not> (c = CHR ''|'' \<and> x = CHR ''|'')"
    and "joins [] sep v"
proof (cases "sep")
  case Nil
  then show ?thesis using assms by (simp add: joins_def)
next
  case (Cons x xs)
  then have "\<not> (c = CHR ''&'' \<and> x = CHR ''&'')" "\<not> (c = CHR ''|'' \<and> x = CHR ''|'')" "joins [] sep v"
    using assms by (auto simp: joins_def)
  then show ?thesis using that Cons by simp
qed

lemma split_joined:
  "joins u sep v \<Longrightarrow> split_ops statement_op w (u @ sep @ v) = split_ops statement_op w u @ split_ops statement_op [] v"
proof (induction statement_op w u rule: split_ops.induct)
  case (1 w)
  then show ?case by (simp add: split_start)
next
  case (2 w c)
  obtain x xs where x: "sep @ v = x # xs" "\<not> (c = CHR ''&'' \<and> x = CHR ''&'')" "\<not> (c = CHR ''|'' \<and> x = CHR ''|'')"
    and j: "joins [] sep v" by (rule joins_hd [OF 2])
  have "split_ops statement_op w (c # x # xs) =
      (if statement_op c then rev w # split_ops statement_op [] (x # xs) else split_ops statement_op (c # w) (x # xs))"
    using x(2,3) by auto
  then show ?case using split_start [OF j] x(1) by simp
next
  case (3 w c d s)
  then show ?case using joins_tl [OF 3(4)] by simp
qed

lemma statements_joined:
  "joins u sep v \<Longrightarrow> shell_statements (u @ sep @ v) = shell_statements u @ shell_statements v"
  by (simp add: shell_statements_def split_joined)

lemma severities_joined: "joins u sep v \<Longrightarrow> severities (u @ sep @ v) = severities u @ severities v"
  by (simp add: severities_def statements_joined)

definition shell_event :: "string \<Rightarrow> string \<Rightarrow> pydict" where
  "shell_event tool command =
     [(''type'', PStr ''tool_call''), (''data'', PDict [(''name'', PStr tool), (''arguments'', PDict [(''command'', PStr command)])])]"

lemma blast_radius_shell:
  assumes "tool \<in> set SHELL_TOOLS"
  shows "blast_radius gate deny_reason (shell_event tool command) =
    Inr (if Some ''DENY'' \<in> set (severities command) \<or> list_ex (\<lambda>p. rx_search p command \<noteq> None) DENY_PATTERNS then
           orch_decision ''DENY'' (deny_reason @ '' (irreversible: '' @ repr_str command @ '')'')
         else if gate \<and> (Some ''ASK'' \<in> set (severities command) \<or> list_ex (\<lambda>p. rx_search p command \<noteq> None) ASK_PATTERNS) then
           orch_decision ''ASK'' (''High-blast-radius command needs approval: '' @ repr_str command)
         else ALLOW_RESPONSE)"
  using assms by (simp add: blast_radius_def orch_tool_call_def shell_event_def pget_def in_strs_def)

text \<open>
  C33: Chaining commands hides nothing from the blast-radius policy: joined by a separator, a command has the statements of
  its two sides in order, and a side with a statement classified as irreversible makes the whole command denied, whatever
  surrounds it and whether or not pushes are gated.
\<close>

theorem chaining_hides_nothing:
  assumes "joins u sep v" and "tool \<in> set SHELL_TOOLS"
  shows "shell_statements (u @ sep @ v) = shell_statements u @ shell_statements v \<and>
    (Some ''DENY'' \<in> set (severities u) \<or> Some ''DENY'' \<in> set (severities v) \<longrightarrow>
     (\<exists>reason. blast_radius gate deny_reason (shell_event tool (u @ sep @ v)) = Inr (orch_decision ''DENY'' reason)))"
  using assms by (auto simp: statements_joined severities_joined blast_radius_shell)

theorem chaining_hides_nothing_witness:
  "\<exists>reason. blast_radius False ''no'' (shell_event ''Bash'' ''ls && rm -rf /'') = Inr (orch_decision ''DENY'' reason)"
proof -
  have "Some ''DENY'' \<in> set (severities '' rm -rf /'')" by code_simp
  then show ?thesis
    using chaining_hides_nothing [of "''ls ''" "''&&''" "'' rm -rf /''" "''Bash''" False "''no''"]
    by (simp add: joins_def SHELL_TOOLS_def)
qed

section \<open>Prefixes of a command\<close>

text \<open>Options of \<^verbatim>\<open>sudo\<close> before the command: flags, and options with their value in the next token.\<close>

inductive sudo_options :: "string list \<Rightarrow> bool" where
  none: "sudo_options []"
| flag: "startswith t ''-'' \<Longrightarrow> \<not> startswith t ''--'' \<Longrightarrow> t \<noteq> ''-'' \<Longrightarrow>
    (case value_opt_pos (tl t) of None \<Rightarrow> True | Some i \<Rightarrow> i < length (tl t) - 1) \<Longrightarrow> sudo_options ts \<Longrightarrow> sudo_options (t # ts)"
| flag_value: "startswith t ''-'' \<Longrightarrow> \<not> startswith t ''--'' \<Longrightarrow> t \<noteq> ''-'' \<Longrightarrow>
    value_opt_pos (tl t) = Some (length (tl t) - 1) \<Longrightarrow> sudo_options ts \<Longrightarrow> sudo_options (t # v # ts)"
| long: "startswith t ''--'' \<Longrightarrow> t \<noteq> ''--'' \<Longrightarrow> t \<notin> set SUDO_VALUE_OPTS \<Longrightarrow> sudo_options ts \<Longrightarrow> sudo_options (t # ts)"
| long_value: "startswith t ''--'' \<Longrightarrow> t \<noteq> ''--'' \<Longrightarrow> t \<in> set SUDO_VALUE_OPTS \<Longrightarrow> CHR ''='' \<notin> set t \<Longrightarrow>
    sudo_options ts \<Longrightarrow> sudo_options (t # v # ts)"

text \<open>
  A statement that runs \<open>cmd\<close> with \<open>args\<close>: environment assignments, and possibly \<^verbatim>\<open>sudo\<close> with options,
  an end-of-options marker and more assignments.
\<close>

inductive runs :: "string list \<Rightarrow> string \<Rightarrow> string list \<Rightarrow> bool" where
  bare: "list_all is_assignment as \<Longrightarrow> runs (as @ cmd # args) cmd args"
| sudo: "list_all is_assignment as \<Longrightarrow> sudo_options opts \<Longrightarrow> list_all is_assignment bs \<Longrightarrow>
    runs (as @ ''sudo'' # opts @ bs @ cmd # args) cmd args"
| sudo_end: "list_all is_assignment as \<Longrightarrow> sudo_options opts \<Longrightarrow> list_all is_assignment bs \<Longrightarrow>
    runs (as @ ''sudo'' # opts @ ''--'' # bs @ cmd # args) cmd args"

lemma skip_assignments: "list_all is_assignment as \<Longrightarrow> skip_shell_assignments (as @ ts) = skip_shell_assignments ts"
  by (induction as) (auto simp: skip_shell_assignments_def)

lemma skip_options: "sudo_options opts \<Longrightarrow> skip_sudo_opts (opts @ ts) = skip_sudo_opts ts"
proof (induction rule: sudo_options.induct)
  case (flag t us)
  then have "t \<noteq> ''--''" by (auto simp: startswith_def)
  with flag show ?case by (auto split: option.splits)
next
  case (flag_value t us v)
  then have "t \<noteq> ''--''" by (auto simp: startswith_def)
  with flag_value show ?case by auto
qed auto

text \<open>A word that no prefix rule consumes.\<close>

definition plain_command :: "string \<Rightarrow> bool" where
  "plain_command cmd \<longleftrightarrow> \<not> startswith cmd ''-'' \<and> \<not> is_assignment cmd \<and> cmd \<noteq> ''sudo''"

lemma assignment_no_dash: "is_assignment t \<Longrightarrow> \<not> startswith t ''-''"
proof
  assume "is_assignment t" and "startswith t ''-''"
  then obtain s where t: "t = CHR ''-'' # s" by (auto simp: startswith_iff)
  from \<open>is_assignment t\<close> have "rx_rel ENV_ASSIGNMENT_RE ([], t) (rev t, [])" 
    unfolding is_assignment_def rx_full_iff .
  then show False by (auto simp: t ENV_ASSIGNMENT_RE_def is_alpha_def char_code_def)
qed

lemma skip_sudo_plain:
  assumes "list_all is_assignment bs" and "plain_command cmd"
  shows "skip_sudo_opts (bs @ cmd # args) = cmd # args"
proof -
  obtain t ts where t: "bs @ cmd # args = t # ts" by (cases bs) auto
  have "\<not> startswith t ''-''"
    using t assms assignment_no_dash by (cases bs) (auto simp: plain_command_def)
  then have "\<not> startswith t ''--''" "t \<noteq> ''--''" by (auto simp: startswith_iff)
  then have "skip_sudo_opts (t # ts) = skip_shell_assignments (t # ts)" using \<open>\<not> startswith t ''-''\<close> by simp
  also have "\<dots> = cmd # args"
    unfolding t [symmetric] skip_assignments [OF assms(1)] using assms(2) by (simp add: skip_shell_assignments_def plain_command_def)
  finally show ?thesis using t by simp
qed

lemma sudo_not_assignment: "\<not> is_assignment ''sudo''"
  unfolding is_assignment_def by code_simp

lemma command_found:
  assumes "runs argv cmd args" and "plain_command cmd"
  shows "command_after_shell_prefixes argv = cmd # args"
  using assms(1)
proof cases
  case (bare as)
  then show ?thesis
    using assms(2) by (simp add: command_after_shell_prefixes_def skip_assignments skip_shell_assignments_def [of "cmd # args"] plain_command_def)
next
  case (sudo as opts bs)
  then have "command_after_shell_prefixes argv = skip_sudo_opts (opts @ bs @ cmd # args)"
    using sudo_not_assignment
    by (simp add: command_after_shell_prefixes_def skip_assignments skip_shell_assignments_def [of "''sudo'' # _"])
  then show ?thesis using sudo assms(2) by (simp add: skip_options skip_sudo_plain)
next
  case (sudo_end as opts bs)
  then have "command_after_shell_prefixes argv = skip_sudo_opts (opts @ ''--'' # bs @ cmd # args)"
    using sudo_not_assignment
    by (simp add: command_after_shell_prefixes_def skip_assignments skip_shell_assignments_def [of "''sudo'' # _"])
  then show ?thesis
    using sudo_end assms(2) by (simp add: skip_options skip_assignments skip_shell_assignments_def [of "cmd # args"] plain_command_def)
qed

section \<open>Recursive deletion and pushes\<close>

text \<open>How GNU \<^verbatim>\<open>rm\<close> reads its arguments: options up to the end-of-options marker, operands elsewhere.\<close>

definition recursive_flag :: "string \<Rightarrow> bool" where
  "recursive_flag t \<longleftrightarrow> t = ''--recursive'' \<or> (\<exists>fs. t = CHR ''-'' # fs \<and> \<not> startswith fs ''-'' \<and> (CHR ''r'' \<in> set fs \<or> CHR ''R'' \<in> set fs))"

definition rm_operands :: "string list \<Rightarrow> string list" where
  "rm_operands args =
     filter (\<lambda>t. \<not> startswith t ''-'') (takeWhile (\<lambda>t. t \<noteq> ''--'') args) @ tl (dropWhile (\<lambda>t. t \<noteq> ''--'') args)"

lemma rm_args_positional: "rm_args r ts True args = (r, ts @ args)"
  by (induction args arbitrary: ts) auto

lemma rm_args_spec:
  "rm_args r ts False args =
   (r \<or> (\<exists>t \<in> set (takeWhile (\<lambda>t. t \<noteq> ''--'') args). recursive_flag t), ts @ rm_operands args)"
proof (induction args arbitrary: r ts)
  case Nil
  then show ?case by (simp add: rm_operands_def)
next
  case (Cons t args)
  show ?case
  proof (cases "t = ''--''")
    case True
    then show ?thesis by (simp add: rm_args_positional rm_operands_def startswith_def)
  next
    case ne: False
    show ?thesis
    proof (cases "startswith t ''-''")
      case False
      then have "t \<noteq> ''--force''" "t \<noteq> ''--recursive''" "\<not> recursive_flag t"
        by (auto simp: startswith_def recursive_flag_def)
      with False ne Cons show ?thesis by (simp add: rm_operands_def)
    next
      case True
      then obtain fs where t: "t = CHR ''-'' # fs" by (auto simp: startswith_iff)
      have two: "startswith t ''--'' \<longleftrightarrow> startswith fs ''-''" by (simp add: t startswith_def)
      have "rm_args r ts False (t # args) = rm_args (r \<or> recursive_flag t) ts False args"
        using ne True two by (auto simp: recursive_flag_def t startswith_def)
      then show ?thesis using ne True Cons by (auto simp: rm_operands_def)
    qed
  qed
qed

lemma rm_plain: "plain_command ''rm''" and git_plain: "plain_command ''git''"
  unfolding plain_command_def is_assignment_def by code_simp+

lemma drop_slashes: "dropWhile (\<lambda>c. c = CHR ''/'') (replicate n (CHR ''/'') @ t) = dropWhile (\<lambda>c. c = CHR ''/'') t"
  by (induction n) simp_all

lemma rstrip_slashes: "rstrip_slash (t @ replicate n (CHR ''/'')) = rstrip_slash t"
  by (simp add: rstrip_slash_def drop_slashes)

lemma critical_any_slashes: "c \<in> set RM_CRITICAL_DIRS \<Longrightarrow> rm_target_is_catastrophic (c @ replicate n (CHR ''/''))"
proof -
  assume c: "c \<in> set RM_CRITICAL_DIRS"
  have "list_all (\<lambda>c. (if rstrip_slash c = [] then ''/'' else rstrip_slash c) = c) RM_CRITICAL_DIRS" by code_simp
  then have "(if rstrip_slash c = [] then ''/'' else rstrip_slash c) = c" using c by (simp add: list_all_iff)
  then have "(if rstrip_slash (c @ replicate n (CHR ''/'')) = [] then ''/'' else rstrip_slash (c @ replicate n (CHR ''/''))) = c"
    unfolding rstrip_slashes .
  then show ?thesis using c unfolding rm_target_is_catastrophic_def Let_def by presburger
qed

lemma system_parent_any_slashes:
  assumes "CHR ''/'' # d \<in> set RM_SYSTEM_PARENTS" and "rest = [] \<or> hd rest = CHR ''/''"
  shows "rm_target_is_catastrophic (replicate (Suc n) (CHR ''/'') @ d @ rest)"
proof -
  have "list_all (\<lambda>p. tl p \<noteq> [] \<and> CHR ''/'' \<notin> set (tl p)) RM_SYSTEM_PARENTS" by code_simp
  then have d: "d \<noteq> []" "CHR ''/'' \<notin> set d" using assms(1) by (auto simp: list_all_iff)
  have "lstrip_slash (replicate (Suc n) (CHR ''/'') @ d @ rest) = d @ rest"
    unfolding lstrip_slash_def drop_slashes using d by (cases d) auto
  moreover have "before_first (CHR ''/'') (d @ rest) = d"
    using d assms(2) by (cases rest) (auto simp: before_first_def takeWhile_append)
  ultimately show ?thesis using assms(1) by (simp add: rm_target_is_catastrophic_def startswith_def)
qed

text \<open>
  C32: A deletion is classified by what it deletes and not by how it is spelled: behind any environment
  assignments, and \<^verbatim>\<open>sudo\<close> with options, \<^verbatim>\<open>rm\<close> is denied exactly when a recursion flag stands before the
  end-of-options marker (alone, bundled with others, either case, or long) and an operand is catastrophic; with a recursion flag and
  no such operand it asks; without one it passes. Catastrophic operands include every system directory with any number of
  leading slashes and any path below it, and every critical directory with any number of trailing slashes.
\<close>

theorem rm_is_classified_by_effect:
  assumes "runs argv ''rm'' args"
  shows "rm_severity argv =
      (if \<exists>t \<in> set (takeWhile (\<lambda>t. t \<noteq> ''--'') args). recursive_flag t
       then Some (if \<exists>t \<in> set (rm_operands args). rm_target_is_catastrophic t then ''DENY'' else ''ASK'')
       else None) \<and>
    (CHR ''/'' # d \<in> set RM_SYSTEM_PARENTS \<longrightarrow>
      rm_target_is_catastrophic (replicate (Suc n) (CHR ''/'') @ d) \<and>
      rm_target_is_catastrophic (replicate (Suc n) (CHR ''/'') @ d @ CHR ''/'' # below)) \<and>
    (c \<in> set RM_CRITICAL_DIRS \<longrightarrow> rm_target_is_catastrophic (c @ replicate n (CHR ''/'')))"
  using command_found [OF assms rm_plain] critical_any_slashes [of c n]
    system_parent_any_slashes [of d "[]" n] system_parent_any_slashes [of d "CHR ''/'' # below" n]
  by (auto simp: rm_severity_def rm_args_spec list_ex_iff)

theorem rm_is_classified_by_effect_witness:
  "rm_severity [''CI=1'', ''sudo'', ''-u'', ''root'', ''rm'', ''-v'', ''-fR'', ''--'', ''x'', ''//etc/ssh''] = Some ''DENY''"
proof -
  have "sudo_options [''-u'', ''root'']"
    by (rule sudo_options.flag_value [of _ "[]"]) (simp_all add: startswith_def SUDO_VALUE_OPTS_def sudo_options.none)
  moreover have "is_assignment ''CI=1''" unfolding is_assignment_def by code_simp
  ultimately have r: "runs ([''CI=1''] @ ''sudo'' # [''-u'', ''root''] @ [] @ ''rm'' # [''-v'', ''-fR'', ''--'', ''x'', ''//etc/ssh'']) ''rm''
      [''-v'', ''-fR'', ''--'', ''x'', ''//etc/ssh'']"
    by (intro runs.sudo) simp_all
  have "recursive_flag ''-fR''" by (simp add: recursive_flag_def startswith_def)
  moreover have "rm_target_is_catastrophic ''//etc/ssh''" by code_simp
  ultimately show ?thesis
    using rm_is_classified_by_effect [OF r, of "[]" 0 "[]" "[]"] by (simp add: rm_operands_def)
qed

text \<open>Options of \<^verbatim>\<open>git\<close> before its subcommand.\<close>

inductive git_options :: "string list \<Rightarrow> bool" where
  none: "git_options []"
| flag: "startswith t ''-'' \<Longrightarrow> t \<notin> set GIT_GLOBAL_VALUE_OPTS \<Longrightarrow> git_options ts \<Longrightarrow> git_options (t # ts)"
| flag_value: "t \<in> set GIT_GLOBAL_VALUE_OPTS \<Longrightarrow> git_options ts \<Longrightarrow> git_options (t # v # ts)"

lemma skip_git: "git_options gs \<Longrightarrow> \<not> startswith c ''-'' \<Longrightarrow> skip_git_globals (gs @ c # ts) = c # ts"
proof (induction rule: git_options.induct)
  case (flag_value t us v)
  then have "startswith t ''-''" by (auto simp: GIT_GLOBAL_VALUE_OPTS_def startswith_def)
  with flag_value show ?case by simp
qed auto

lemma push_flags_bundle:
  "push_flags_destructive s \<longleftrightarrow> (\<exists>x \<in> set (takeWhile (\<lambda>c. c \<noteq> CHR ''o'') s). x = CHR ''f'' \<or> x = CHR ''d'')"
  by (induction s) (auto simp: PUSH_SHORT_VALUE_OPTS_def)

text \<open>
  A push is classified by what it does: behind any environment assignments, \<^verbatim>\<open>sudo\<close> and global options of
  \<^verbatim>\<open>git\<close>, a push is denied exactly when one of its arguments forces or deletes: a long force, delete, mirror or prune option,
  \<^verbatim>\<open>f\<close> or \<^verbatim>\<open>d\<close> anywhere in a bundle of short options ahead of the option that takes a value, or a refspec with a leading plus or colon.
  Any other push asks, and another subcommand is not a push.
\<close>

theorem push_is_classified_by_effect:
  assumes "runs argv ''git'' (gs @ sub # args)" and "git_options gs" and "\<not> startswith sub ''-''"
  shows "push_severity argv =
    (if sub \<noteq> ''push'' then None
     else if \<exists>t \<in> set args. startswith t ''--force'' \<or> t \<in> {''--delete'', ''--mirror'', ''--prune''} \<or>
       (\<exists>s. t = CHR ''-'' # s \<and> \<not> startswith s ''-'' \<and>
          (\<exists>x \<in> set (takeWhile (\<lambda>c. c \<noteq> CHR ''o'') s). x = CHR ''f'' \<or> x = CHR ''d'')) \<or>
       (\<exists>r. r \<noteq> [] \<and> (t = CHR ''+'' # r \<or> t = CHR '':'' # r))
     then Some ''DENY'' else Some ''ASK'')"
proof -
  have dash: "startswith t ''-'' \<and> \<not> startswith t ''--'' \<and> push_short_option_is_destructive t \<longleftrightarrow>
      (\<exists>s. t = CHR ''-'' # s \<and> \<not> startswith s ''-'' \<and>
          (\<exists>x \<in> set (takeWhile (\<lambda>c. c \<noteq> CHR ''o'') s). x = CHR ''f'' \<or> x = CHR ''d''))" for t
    by (cases t) (auto simp: push_short_option_is_destructive_def push_flags_bundle startswith_def)
  have ref: "1 < length t \<and> hd t \<in> set ''+:'' \<longleftrightarrow> (\<exists>r. r \<noteq> [] \<and> (t = CHR ''+'' # r \<or> t = CHR '':'' # r))" for t :: string
    by (cases t) auto
  show ?thesis
    unfolding push_severity_def command_found [OF assms(1) git_plain] list_ex_iff push_token_destructive_def dash ref
    by (simp add: skip_git [OF assms(2,3)]) blast
qed

theorem push_is_classified_by_effect_witness:
  "push_severity [''git'', ''-C'', ''repo'', ''push'', ''-uf'', ''origin''] = Some ''DENY''"
proof -
  have "runs ([] @ ''git'' # ([''-C'', ''repo''] @ ''push'' # [''-uf'', ''origin''])) ''git'' ([''-C'', ''repo''] @ ''push'' # [''-uf'', ''origin''])"
    by (rule runs.bare) simp
  moreover have "git_options [''-C'', ''repo'']"
    by (rule git_options.flag_value) (simp_all add: GIT_GLOBAL_VALUE_OPTS_def git_options.none)
  ultimately show ?thesis
    using push_is_classified_by_effect [of "[''git'', ''-C'', ''repo'', ''push'', ''-uf'', ''origin'']" "[''-C'', ''repo'']" "''push''" "[''-uf'', ''origin'']"]
    by (simp add: startswith_def)
qed

section \<open>Dispatches in a turn\<close>

fun spawn_turn :: "int \<Rightarrow> string list \<Rightarrow> pydict list \<Rightarrow> int \<Rightarrow> pydict res list \<times> int" where
  "spawn_turn m tools [] count = ([], count)"
| "spawn_turn m tools (ev # evs) count =
     (case spawn_bounds m tools ev count of
        (r, c1) \<Rightarrow> (case spawn_turn m tools evs c1 of (rs, c2) \<Rightarrow> (r # rs, c2)))"

definition is_dispatch :: "string list \<Rightarrow> pydict \<Rightarrow> bool" where
  "is_dispatch tools ev \<longleftrightarrow> (\<exists>args. orch_tool_call ev tools = Inr (Some args))"

lemma spawn_step:
  "is_dispatch tools ev \<Longrightarrow> snd (spawn_bounds m tools ev k) = k + 1 \<and>
     (fst (spawn_bounds m tools ev k) = Inr ALLOW_RESPONSE \<longleftrightarrow> k < m)"
  "\<not> is_dispatch tools ev \<Longrightarrow> snd (spawn_bounds m tools ev k) = k"
  by (auto simp: spawn_bounds_def is_dispatch_def ALLOW_RESPONSE_def orch_decision_def split: sum.splits option.splits)

lemma spawn_turn_Cons:
  "spawn_turn m tools (ev # evs) k =
   (fst (spawn_bounds m tools ev k) # fst (spawn_turn m tools evs (snd (spawn_bounds m tools ev k))),
    snd (spawn_turn m tools evs (snd (spawn_bounds m tools ev k))))"
  by (simp split: prod.splits)

lemma spawn_turn_allowed:
  assumes "0 \<le> k"
  shows "length (filter (\<lambda>(ev, r). is_dispatch tools ev \<and> r = Inr ALLOW_RESPONSE) (zip evs (fst (spawn_turn m tools evs k)))) =
    min (nat (m - k)) (length (filter (is_dispatch tools) evs))"
  using assms
proof (induction evs arbitrary: k)
  case Nil
  then show ?case by simp
next
  case (Cons ev evs)
  show ?case
  proof (cases "is_dispatch tools ev")
    case True
    then show ?thesis
      using Cons.IH [of "k + 1"] Cons.prems spawn_step(1) [OF True, of m k]
      by (auto simp: spawn_turn_Cons simp del: spawn_turn.simps)
  next
    case False
    then show ?thesis
      using Cons.IH [of k] Cons.prems spawn_step(2) [OF False, of m k] by (simp add: spawn_turn_Cons del: spawn_turn.simps)
  qed
qed

text \<open>
  However many workers the orchestrator tries to dispatch in a turn, exactly the bound's number of dispatches
  is allowed (all of them when there are fewer), interleaved other events neither use up the bound nor are they stopped by it, and
  the next turn starts afresh whatever the last one counted.
\<close>

theorem dispatches_bounded_per_turn:
  "length (filter (\<lambda>(ev, r). is_dispatch tools ev \<and> r = Inr ALLOW_RESPONSE) (zip evs (fst (spawn_turn m tools evs (spawn_reset k))))) =
    min (nat m) (length (filter (is_dispatch tools) evs)) \<and>
   (spawn_bounds m tools ev k = (Inr ALLOW_RESPONSE, k) \<or> is_dispatch tools ev \<or> (\<exists>e. orch_tool_call ev tools = Inl e))"
  using spawn_turn_allowed [of "spawn_reset k" tools evs m]
  by (auto simp: spawn_reset_def is_dispatch_def spawn_bounds_def split: sum.splits option.splits)

section \<open>Guards on writes\<close>

text \<open>The file a relative path names, from the segments of the working directory.\<close>

fun resolve_path :: "string list \<Rightarrow> string list \<Rightarrow> string list" where
  "resolve_path base [] = base"
| "resolve_path base (s # ss) =
     (if s = [] \<or> s = ''.'' then resolve_path base ss
      else if s = ''..'' then resolve_path (butlast base) ss
      else resolve_path (base @ [s]) ss)"

lemma resolve_stays: "''..'' \<notin> set ss \<Longrightarrow> prefix base (resolve_path base ss)"
proof (induction ss arbitrary: base)
  case (Cons s ss)
  then show ?case using Cons.IH [of "base @ [s]"] by (auto dest: append_prefixD)
qed simp

definition absolute_path :: "string \<Rightarrow> bool" where
  "absolute_path p \<longleftrightarrow> startswith p ''/'' \<or> startswith p ''~''"

text \<open>
  A worker's write that the worktree guard lets through stays in the worktree: its path is relative, and resolved from
  the worker's directory, with current and parent segments followed, it names a file below that directory.
\<close>

theorem worktree_write_stays_inside:
  assumes "orch_tool_call ev WRITE_TOOLS = Inr (Some args)" and "write_path args = PStr path"
    and "worktree_guard allowed_root deny_reason ev = Inr ALLOW_RESPONSE"
  shows "\<not> absolute_path path \<and> prefix cwd (resolve_path cwd (split_char (CHR ''/'') path))"
  using assms by (auto simp: worktree_guard_def absolute_path_def ALLOW_RESPONSE_def orch_decision_def resolve_stays split: if_splits)

definition write_event :: "string \<Rightarrow> string \<Rightarrow> pydict" where
  "write_event tool path =
     [(''type'', PStr ''tool_call''), (''data'', PDict [(''name'', PStr tool), (''arguments'', PDict [(''path'', PStr path)])])]"

theorem worktree_write_stays_inside_witness:
  "prefix [''w'', ''t''] (resolve_path [''w'', ''t''] (split_char (CHR ''/'') ''src/./a.py''))"
proof -
  have "orch_tool_call (write_event ''edit'' ''src/./a.py'') WRITE_TOOLS = Inr (Some [(''path'', PStr ''src/./a.py'')])"
    by (simp add: write_event_def orch_tool_call_def pget_def in_strs_def WRITE_TOOLS_def)
  moreover have "write_path [(''path'', PStr ''src/./a.py'')] = PStr ''src/./a.py''" by (simp add: write_path_def pget_def)
  moreover have "worktree_guard ''.worktrees'' ''no'' (write_event ''edit'' ''src/./a.py'') = Inr ALLOW_RESPONSE" by code_simp
  ultimately show ?thesis
    using worktree_write_stays_inside [of "write_event ''edit'' ''src/./a.py''" "[(''path'', PStr ''src/./a.py'')]" "''src/./a.py''"] by blast
qed

text \<open>The two write guards act on the same calls.\<close>

lemma guards_in_step:
  "read_only_os reason ev = Inr ALLOW_RESPONSE \<Longrightarrow> worktree_guard allowed_root deny_reason ev = Inr ALLOW_RESPONSE"
  by (auto simp: read_only_os_def worktree_guard_def ALLOW_RESPONSE_def orch_decision_def split: option.splits)

lemma purpose_declared:
  assumes "orch_tool_call ev [''sys_session_send''] = Inr (Some args)"
  shows "headless_subagent_purpose_guard allowed_purposes reason ev = Inr ALLOW_RESPONSE \<longleftrightarrow>
    (\<exists>child p. pget args ''args'' = PDict child \<and> pget child ''purpose'' = PStr p \<and> p \<in> set allowed_purposes)"
  using assms
  by (auto simp: headless_subagent_purpose_guard_def ALLOW_RESPONSE_def orch_decision_def split: pyval.splits if_splits)

end
