(* ===== verification/WorkingDirProperties.thy ===== *)
theory WorkingDirProperties
  imports WorkingDir OrchestrationProperties
begin

text \<open>
  Properties of the working-directory policy: which commands it gates, that an admitted change of
  directory stays below a configured directory, and where the nesting limit ends the analysis.
\<close>

section \<open>Gated commands\<close>

text \<open>A command with a segment that is refused, directly or inside at most \<open>n\<close> levels of interpreters.\<close>

inductive gated :: "dir_cfg \<Rightarrow> nat \<Rightarrow> string \<Rightarrow> bool" for cfg where
  unparsed: "seg \<in> set (split_command_segments command) \<Longrightarrow> isl (shlex_split seg) \<Longrightarrow>
    looks_like_dir_op seg (dc_block_cd cfg) (dc_block_worktree cfg) \<Longrightarrow> gated cfg (Suc n) command"
| direct: "seg \<in> set (split_command_segments command) \<Longrightarrow> shlex_split seg = Inr all_tokens \<Longrightarrow>
    real_invocation_tokens all_tokens = t # ts \<Longrightarrow> unwrap_shell_command (t # ts) = None \<Longrightarrow>
    classify_segment (t # ts) (dc_block_cd cfg) (dc_block_worktree cfg) = Some dop \<Longrightarrow>
    \<not> (do_kind dop = CdOp \<and> (\<exists>d. do_target dop = Some d \<and> is_under_allowed d (dc_allowed cfg))) \<Longrightarrow> gated cfg (Suc n) command"
| nested: "seg \<in> set (split_command_segments command) \<Longrightarrow> shlex_split seg = Inr all_tokens \<Longrightarrow>
    real_invocation_tokens all_tokens = t # ts \<Longrightarrow> unwrap_shell_command (t # ts) = Some inner_command \<Longrightarrow> gated cfg n inner_command \<Longrightarrow>
    gated cfg (Suc n) command"

inductive_cases gated_SucE: "gated cfg (Suc n) command"
inductive_cases gated_0E: "gated cfg 0 command"

definition gates :: "dir_cfg \<Rightarrow> bool" where
  "gates cfg \<longleftrightarrow> dc_result_kind cfg \<in> {''DENY'', ''ASK''}"

text \<open>A verdict of the policy carries the configured result.\<close>

definition is_violation :: "dir_cfg \<Rightarrow> pydict option \<Rightarrow> bool" where
  "is_violation cfg r \<longleftrightarrow> (\<exists>reason. r = Some (dir_violation cfg reason))"

lemma dir_gate_cases:
  "dir_gate cfg dop = None \<or> is_violation cfg (dir_gate cfg dop)"
  "dir_gate cfg dop = None \<longleftrightarrow> do_kind dop = CdOp \<and> (\<exists>d. do_target dop = Some d \<and> is_under_allowed d (dc_allowed cfg))"
proof -
  show "dir_gate cfg dop = None \<or> is_violation cfg (dir_gate cfg dop)" by (auto simp: dir_gate_def is_violation_def)
  have "\<not> is_under_allowed d []" for d by (simp add: is_under_allowed_def Let_def)
  then show "dir_gate cfg dop = None \<longleftrightarrow> do_kind dop = CdOp \<and> (\<exists>d. do_target dop = Some d \<and> is_under_allowed d (dc_allowed cfg))"
    by (cases "do_kind dop") (auto simp: dir_gate_def split: option.splits)
qed

lemma violation_rank: "gates cfg \<Longrightarrow> is_violation cfg r \<Longrightarrow> 1 < result_rank r"
  by (auto simp: is_violation_def result_rank_def dir_violation_def pget_def gates_def)

lemma segment_violation:
  assumes "\<And>c. r c = None \<or> is_violation cfg (r c)"
  shows "evaluate_segment cfg r seg = None \<or> is_violation cfg (evaluate_segment cfg r seg)"
  using assms dir_gate_cases(1) [of cfg]
  by (auto simp: evaluate_segment_def unparsable_def is_violation_def split: sum.splits list.splits option.splits)

lemma command_violation: "gates cfg \<Longrightarrow> evaluate_command cfg n c = None \<or> is_violation cfg (evaluate_command cfg n c)"
proof (induction n arbitrary: c)
  case (Suc n)
  have "evaluate_segment cfg (evaluate_command cfg n) seg = None \<or> is_violation cfg (evaluate_segment cfg (evaluate_command cfg n) seg)" for seg
    by (rule segment_violation) (rule Suc.IH [OF Suc.prems])
  then show ?case
    using dirs.strictest_pick [of "evaluate_segment cfg (evaluate_command cfg n)" None "split_command_segments c"]
    by (metis evaluate_command.simps(2))
qed simp

lemma command_gated: "gates cfg \<Longrightarrow> evaluate_command cfg n c \<noteq> None \<longleftrightarrow> gated cfg n c"
proof (induction n arbitrary: c)
  case 0
  then show ?case by (auto elim: gated_0E)
next
  case (Suc n)
  let ?e = "evaluate_segment cfg (evaluate_command cfg n)"
  have v: "?e seg = None \<or> is_violation cfg (?e seg)" for seg
    by (rule segment_violation) (rule command_violation [OF Suc.prems])
  have "evaluate_command cfg (Suc n) c \<noteq> None \<longleftrightarrow> (\<exists>seg \<in> set (split_command_segments c). ?e seg \<noteq> None)"
    using dirs.strictest_None [of "split_command_segments c" ?e] v violation_rank [OF Suc.prems]
    by (metis evaluate_command.simps(2))
  also have "\<dots> \<longleftrightarrow> gated cfg (Suc n) c"
  proof
    assume "\<exists>seg \<in> set (split_command_segments c). ?e seg \<noteq> None"
    then obtain seg where seg: "seg \<in> set (split_command_segments c)" "?e seg \<noteq> None" by blast
    show "gated cfg (Suc n) c"
    proof (cases "shlex_split seg")
      case (Inl e)
      then show ?thesis using seg by (auto simp: evaluate_segment_def unparsable_def split: if_splits intro: gated.unparsed)
    next
      case (Inr toks)
      with seg obtain t ts where t: "real_invocation_tokens toks = t # ts" by (cases "real_invocation_tokens toks") (auto simp: evaluate_segment_def)
      show ?thesis
      proof (cases "unwrap_shell_command (t # ts)")
        case None
        with seg Inr t obtain dop where "classify_segment (t # ts) (dc_block_cd cfg) (dc_block_worktree cfg) = Some dop" "dir_gate cfg dop \<noteq> None"
          by (auto simp: evaluate_segment_def split: option.splits)
        then show ?thesis by (intro gated.direct [OF seg(1) Inr t None]) (simp_all only: dir_gate_cases(2) not_False_eq_True)
      next
        case (Some inner_command)
        then have "gated cfg n inner_command" using seg Inr t Suc.IH [OF Suc.prems] by (auto simp: evaluate_segment_def)
        then show ?thesis by (rule gated.nested [OF seg(1) Inr t Some])
      qed
    qed
  next
    assume "gated cfg (Suc n) c"
    then show "\<exists>seg \<in> set (split_command_segments c). ?e seg \<noteq> None"
    proof (cases rule: gated.cases)
      case (unparsed seg)
      then show ?thesis by (intro bexI [of _ seg]) (auto simp: evaluate_segment_def unparsable_def split: sum.splits)
    next
      case (direct seg all_tokens t ts dop)
      then show ?thesis using dir_gate_cases(2) [of cfg dop] by (intro bexI [of _ seg]) (auto simp: evaluate_segment_def)
    next
      case (nested seg all_tokens t ts inner_command)
      then show ?thesis using Suc.IH [OF Suc.prems, of inner_command] by (intro bexI [of _ seg]) (auto simp: evaluate_segment_def)
    qed
  qed
  finally show ?case .
qed

lemma dir_evaluate_shell:
  assumes "tool \<in> set (dc_shell_tools cfg)" and "str_strip command \<noteq> []"
  shows "dir_evaluate cfg (shell_event tool command) = Inr (evaluate_command cfg 5 command)"
  using assms by (simp add: dir_evaluate_def shell_event_def pget_def in_strs_def MAX_SHELL_NESTING_def)

text \<open>
  The working-directory policy gates exactly the commands with a refused segment: one whose invocation, behind assignments and wrappers and inside up to
  four levels of interpreters and \<^verbatim>\<open>eval\<close>, changes the directory outside the allowed ones or switches a worktree, or one that cannot be tokenized
  and mentions such a change; the answer is the configured one, and every other command passes.
\<close>

theorem working_dir_gates_exactly:
  assumes "gates cfg" and "tool \<in> set (dc_shell_tools cfg)" and "str_strip command \<noteq> []"
  shows "if gated cfg 5 command
    then \<exists>reason. dir_evaluate cfg (shell_event tool command) = Inr (Some (dir_violation cfg reason))
    else dir_evaluate cfg (shell_event tool command) = Inr None"
  using dir_evaluate_shell [OF assms(2,3)] command_gated [OF assms(1), of 5 command] command_violation [OF assms(1), of 5 command]
  by (auto simp: is_violation_def)

definition fx_dir :: dir_cfg where
  "fx_dir = \<lparr>dc_block_cd = True, dc_block_worktree = True, dc_allowed = [''/workspace''], dc_result_kind = ''DENY'', dc_shell_tools = DEFAULT_SHELL_TOOLS\<rparr>"

lemma fx_dir_gates: "gates fx_dir"
  by (simp add: gates_def fx_dir_def)

lemma fx_gated: "gated fx_dir 5 ''sudo bash -c 'cd /etc' & ls''"
proof -
  have "evaluate_command fx_dir 5 ''sudo bash -c 'cd /etc' & ls'' \<noteq> None" by code_simp
  then show ?thesis using command_gated [OF fx_dir_gates] by blast
qed

theorem working_dir_gates_exactly_witness:
  "\<exists>reason. dir_evaluate fx_dir (shell_event ''Bash'' ''sudo bash -c 'cd /etc' & ls'') = Inr (Some (dir_violation fx_dir reason))"
proof -
  have "str_strip ''sudo bash -c 'cd /etc' & ls'' \<noteq> []" by code_simp
  then show ?thesis
    using working_dir_gates_exactly [OF fx_dir_gates, of "''Bash''" "''sudo bash -c 'cd /etc' & ls''"] fx_gated
    by (simp add: fx_dir_def DEFAULT_SHELL_TOOLS_def)
qed

section \<open>Admitted directories\<close>

text \<open>The names on a path, without the empty ones between adjacent slashes.\<close>

definition path_names :: "string \<Rightarrow> string list" where
  "path_names s = filter (\<lambda>c. c \<noteq> []) (split_char (CHR ''/'') s)"

lemma path_names_append: "path_names (x @ CHR ''/'' # s) = path_names x @ path_names s"
  by (simp add: path_names_def split_char_append)

lemma path_names_slashes: "path_names (initial_slashes p @ s) = path_names s"
  using path_names_append [of "[]"] by (auto simp: initial_slashes_def path_names_def)

lemma path_names_join:
  assumes "\<forall>c \<in> set cs. c \<noteq> [] \<and> CHR ''/'' \<notin> set c"
  shows "path_names (str_join ''/'' cs) = cs"
  using assms split_char_join [of cs "CHR ''/''"] by (cases "cs = []") (auto simp: path_names_def)

lemma norm_comps_set: "set (norm_comps r acc cs) \<subseteq> set acc \<union> {c \<in> set cs. c \<noteq> []}"
proof (induction cs arbitrary: acc)
  case (Cons c cs)
  show ?case using Cons [of acc] Cons [of "c # acc"] Cons [of "tl acc"] by (cases acc) auto
qed simp

lemma norm_comps_resolve: "''..'' \<notin> set acc \<Longrightarrow> norm_comps True acc cs = resolve_path (rev acc) cs"
proof (induction cs arbitrary: acc)
  case (Cons c cs)
  have "norm_comps True (tl acc) cs = resolve_path (rev (tl acc)) cs" using Cons.IH [of "tl acc"] Cons.prems by (cases acc) auto
  moreover have "acc \<noteq> [] \<Longrightarrow> hd acc \<noteq> ''..''" using Cons.prems by (cases acc) auto
  ultimately show ?case using Cons.IH [of acc] Cons.IH [of "c # acc"] Cons.prems by auto
qed simp

lemma normpath_names:
  assumes "startswith p ''/''"
  shows "path_names (normpath p) = resolve_path [] (split_char (CHR ''/'') p)"
proof -
  let ?cs = "norm_comps True [] (split_char (CHR ''/'') p)"
  have "\<forall>c \<in> set ?cs. c \<noteq> [] \<and> CHR ''/'' \<notin> set c"
    using norm_comps_set [of True "[]" "split_char (CHR ''/'') p"] by (auto dest: split_char_no_sep)
  moreover have "initial_slashes p \<noteq> []" "p \<noteq> []" using assms by (auto simp: initial_slashes_def startswith_def)
  ultimately show ?thesis
    using assms by (simp add: normpath_def Let_def path_names_slashes path_names_join norm_comps_resolve)
qed

lemma normpath_absolute: "startswith (normpath p) ''/'' \<Longrightarrow> startswith p ''/''"
proof (rule ccontr)
  assume n: "startswith (normpath p) ''/''" and p: "\<not> startswith p ''/''"
  let ?cs = "norm_comps False [] (split_char (CHR ''/'') p)"
  have i: "initial_slashes p = []" using p by (auto simp: initial_slashes_def startswith_iff)
  have cs: "\<forall>c \<in> set ?cs. c \<noteq> [] \<and> CHR ''/'' \<notin> set c"
    using norm_comps_set [of False "[]" "split_char (CHR ''/'') p"] by (auto dest: split_char_no_sep)
  have "\<not> startswith (str_join ''/'' cs) ''/''" if "\<forall>c \<in> set cs. c \<noteq> [] \<and> CHR ''/'' \<notin> set c" for cs
    using that by (induction "''/''" cs rule: str_join.induct) (auto simp: startswith_iff append_eq_Cons_conv)
  with cs have "\<not> startswith (str_join ''/'' ?cs) ''/''" by blast
  then show False using n p i by (auto simp: normpath_def Let_def startswith_iff split: if_splits)
qed

lemma under_allowed_below:
  assumes "is_under_allowed d (normalize_dirs (Some dirs))" and "str_strip d = d" and "startswith d ''/''"
  shows "\<exists>a \<in> set dirs. startswith (str_strip a) ''/'' \<and>
    prefix (resolve_path [] (split_char (CHR ''/'') (str_strip a))) (resolve_path [] (split_char (CHR ''/'') d))"
proof -
  have d: "normalize_dir d = normpath d" "startswith (normpath d) ''/''"
    using assms(2,3) by (auto simp: normalize_dir_def normpath_def Let_def initial_slashes_def startswith_iff)
  obtain a where a: "a \<in> set dirs" "str_strip a \<noteq> []" "normpath (str_strip a) \<noteq> []"
    and u: "normpath d = normpath (str_strip a) \<or> startswith (normpath d) (normpath (str_strip a) @ ''/'')"
    using assms(1) d(1) by (auto simp: is_under_allowed_def Let_def normalize_dirs_def list_ex_iff normalize_dir_def split: if_splits)
  have "startswith (normpath (str_strip a)) ''/''"
    using u d(2) a(3) by (cases "normpath (str_strip a)") (auto simp: startswith_iff)
  then have abs: "startswith (str_strip a) ''/''" by (rule normpath_absolute)
  have "prefix (path_names (normpath (str_strip a))) (path_names (normpath d))"
    using u by (auto simp: startswith_iff path_names_append)
  then show ?thesis using a(1) abs normpath_names [OF abs] normpath_names [OF assms(3)] by auto
qed

text \<open>
  An agent confined to configured directories stays in them: when the policy built for \<open>dirs\<close> lets a command pass, every statement of it that changes
  to an absolute directory, behind assignments and wrappers, goes to a configured directory or below one, with the parent
  segments of both paths followed.
\<close>

theorem admitted_cd_stays_below:
  assumes "block_working_dir_changes True block_worktree (Some dirs) action_word tools = Inr cfg"
    and "tool \<in> set (dc_shell_tools cfg)" and "dir_evaluate cfg (shell_event tool command) = Inr None"
    and "seg \<in> set (split_command_segments command)" and "shlex_split seg = Inr all_tokens"
    and "real_invocation_tokens all_tokens = cd_word # d # ts" and "cd_word \<in> set CD_COMMANDS"
    and "str_strip d = d" and "startswith d ''/''" and nonblank: "str_strip command \<noteq> []"
  shows "\<exists>a \<in> set dirs. startswith (str_strip a) ''/'' \<and>
    prefix (resolve_path [] (split_char (CHR ''/'') (str_strip a))) (resolve_path [] (split_char (CHR ''/'') d))"
proof -
  have cfg: "gates cfg" "dc_block_cd cfg" "dc_allowed cfg = normalize_dirs (Some dirs)"
    using assms(1) by (auto simp: block_working_dir_changes_def gates_def split: if_splits)
  have word: "cd_word = ''cd'' \<or> cd_word = ''chdir'' \<or> cd_word = ''pushd'' \<or> cd_word = ''popd''"
    using assms(7) by (simp add: CD_COMMANDS_def)
  have "unwrap_shell_command (cd_word # d # ts) = None"
    using word by (auto simp: unwrap_shell_command_def after_last_def SHELL_INTERPRETERS_def)
  moreover obtain det where op: "classify_segment (cd_word # d # ts) (dc_block_cd cfg) (dc_block_worktree cfg) =
      Some \<lparr>do_kind = CdOp, do_target = Some d, do_detail = det\<rparr>"
    using word assms(9) cfg(2) by (auto simp: classify_segment_def classify_cd_def CD_COMMANDS_def startswith_def Let_def)
  moreover have "\<not> gated cfg 5 command"
    using assms(3) command_gated [OF cfg(1), of 5 command] dir_evaluate_shell [OF assms(2) nonblank] by simp
  ultimately have "is_under_allowed d (dc_allowed cfg)"
    using gated.direct [OF assms(4-6), of cfg _ 4] by (auto simp: numeral_eq_Suc)
  then show ?thesis using cfg(3) assms(8,9) under_allowed_below by auto
qed

theorem admitted_cd_stays_below_witness:
  "\<exists>a \<in> set [''/workspace'']. startswith (str_strip a) ''/'' \<and>
    prefix (resolve_path [] (split_char (CHR ''/'') (str_strip a))) (resolve_path [] (split_char (CHR ''/'') ''/workspace/a/../b''))"
proof (rule admitted_cd_stays_below)
  show "block_working_dir_changes True True (Some [''/workspace'']) ''deny'' None = Inr fx_dir" by code_simp
  show "''Bash'' \<in> set (dc_shell_tools fx_dir)" by code_simp
  show "dir_evaluate fx_dir (shell_event ''Bash'' ''ls && sudo cd /workspace/a/../b'') = Inr None" by code_simp
  show "''sudo cd /workspace/a/../b'' \<in> set (split_command_segments ''ls && sudo cd /workspace/a/../b'')" by code_simp
  show "shlex_split ''sudo cd /workspace/a/../b'' = Inr [''sudo'', ''cd'', ''/workspace/a/../b'']" by code_simp
  show "real_invocation_tokens [''sudo'', ''cd'', ''/workspace/a/../b''] = [''cd'', ''/workspace/a/../b'']" by code_simp
  show "''cd'' \<in> set CD_COMMANDS" by code_simp
  show "str_strip ''/workspace/a/../b'' = ''/workspace/a/../b''" by code_simp
  show "startswith ''/workspace/a/../b'' ''/''" by code_simp
  show "str_strip ''ls && sudo cd /workspace/a/../b'' \<noteq> []" by code_simp
qed

section \<open>The nesting limit\<close>

text \<open>The analysis follows four interpreters: a fifth \<^verbatim>\<open>eval\<close> hides the change of directory.\<close>

lemma nesting_hides:
  "evaluate_command fx_dir (Suc MAX_SHELL_NESTING) ''eval eval eval eval cd /etc'' \<noteq> None"
  "evaluate_command fx_dir (Suc MAX_SHELL_NESTING) ''eval eval eval eval eval cd /etc'' = None"
  by (code_simp, code_simp)

text \<open>An option of a wrapper is taken for the command, and below the root directory nothing is admitted.\<close>

lemma wrapper_option_hides: "evaluate_command fx_dir (Suc MAX_SHELL_NESTING) ''sudo -n cd /etc'' = None"
  by code_simp

lemma root_admits_nothing_below: "\<not> is_under_allowed ''/etc'' (normalize_dirs (Some [''/'']))"
  by code_simp

end
