(* ===== verification/GitHub.thy ===== *)
theory GitHub
  imports Orchestration Strictest
begin

text \<open>
  The GitHub access policy (\<^verbatim>\<open>policies/builtins/github.py\<close>): repositories and branches read out of tool arguments
  and of \<^verbatim>\<open>git\<close> and \<^verbatim>\<open>gh\<close> command lines, and the two allowlists. The sets of the source are lists here, read as sets.
\<close>

section \<open>Constants\<close>

definition DEFAULT_TOOL_PREFIXES :: "string list" where
  "DEFAULT_TOOL_PREFIXES = [''mcp__github__'', ''github__'']"

definition GITHUB_SHELL_TOOLS :: "string list" where
  "GITHUB_SHELL_TOOLS = [''sys_os_shell'']"

text \<open>The class \<^verbatim>\<open>[A-Za-z0-9._-]\<close>.\<close>

definition repo_char :: "char \<Rightarrow> bool" where
  "repo_char c \<longleftrightarrow> is_alpha c \<or> is_digit c \<or> c = CHR ''.'' \<or> c = CHR ''_'' \<or> c = CHR ''-''"

definition rx_lazy_plus :: "rx \<Rightarrow> rx" where
  "rx_lazy_plus r = Seq r (LazyStar r)"

definition REPO_URL_PATTERN :: rx where
  "REPO_URL_PATTERN =
     rx_seq [Assert (\<lambda>b t. b = [] \<or> \<not> repo_char (hd b)), rx_str ''github.com'', rx_plus (Cls (\<lambda>c. c = CHR '':'' \<or> c = CHR ''/'')),
       Grp 1 (rx_plus (Cls repo_char)), rx_char (CHR ''/''), Grp 2 (rx_lazy_plus (Cls repo_char)), rx_opt (rx_str ''.git''),
       Alt (Cls (\<lambda>c. c = CHR ''/'' \<or> c = CHR ''?'' \<or> c = CHR ''#'')) rx_end]"

definition REPO_BARE_PATTERN :: rx where
  "REPO_BARE_PATTERN =
     rx_seq [rx_start, Grp 1 (rx_plus (Cls repo_char)), rx_char (CHR ''/''), Grp 2 (rx_lazy_plus (Cls repo_char)),
       rx_opt (rx_str ''.git''), rx_end]"

definition REPO_API_PATH_PATTERN :: rx where
  "REPO_API_PATH_PATTERN =
     rx_seq [Alt rx_start (rx_char (CHR ''/'')), rx_str ''repos/'', Grp 1 (rx_plus (Cls repo_char)), rx_char (CHR ''/''),
       Grp 2 (rx_plus (Cls repo_char))]"

definition OWNER_ARG_KEYS :: "string list" where
  "OWNER_ARG_KEYS = [''owner'', ''org'', ''organization'']"

definition FULL_REPO_ARG_KEYS :: "string list" where
  "FULL_REPO_ARG_KEYS = [''repository'', ''full_name'', ''repo'', ''name_with_owner'', ''nameWithOwner'']"

definition BRANCH_ARG_KEYS :: "string list" where
  "BRANCH_ARG_KEYS =
     [''branch'', ''ref'', ''base'', ''branch_name'', ''base_branch'', ''target_branch'', ''baseRefName'', ''ref_name'']"

definition NESTED_ARG_KEYS :: "string list" where
  "NESTED_ARG_KEYS = [''params'', ''parameters'', ''arguments'', ''body'', ''payload'', ''input'']"

section \<open>Helpers\<close>

definition gh_deny :: "string \<Rightarrow> pydict" where
  "gh_deny reason = [(''result'', PStr ''DENY''), (''reason'', PStr reason)]"

definition gh_ask :: "string \<Rightarrow> pydict" where
  "gh_ask reason = [(''result'', PStr ''ASK''), (''reason'', PStr reason)]"

fun canonical_tool_name :: "string \<Rightarrow> string list \<Rightarrow> string" where
  "canonical_tool_name tool_name [] = tool_name"
| "canonical_tool_name tool_name (p # ps) =
     (if startswith tool_name p then drop (length p) tool_name else canonical_tool_name tool_name ps)"

definition owner_repo :: "rx_result \<Rightarrow> string" where
  "owner_repo m = str_lower (rx_group 1 m @ ''/'' @ rx_group 2 m)"

definition repo_from_url :: "string \<Rightarrow> string" where
  "repo_from_url v = (case rx_search REPO_URL_PATTERN v of Some m \<Rightarrow> owner_repo m | None \<Rightarrow> [])"

definition normalize_repo :: "string \<Rightarrow> string" where
  "normalize_repo v =
     (let s = str_strip v
      in if s = [] then []
         else (case rx_search REPO_URL_PATTERN s of
                 Some m \<Rightarrow> owner_repo m
               | None \<Rightarrow> (case rx_prefix REPO_BARE_PATTERN s of Some m \<Rightarrow> owner_repo m | None \<Rightarrow> [])))"

definition normalize_repos :: "string list option \<Rightarrow> string list" where
  "normalize_repos vs = filter (\<lambda>r. r \<noteq> []) (map normalize_repo (case vs of Some xs \<Rightarrow> xs | None \<Rightarrow> []))"

definition normalize_branch :: "string \<Rightarrow> string" where
  "normalize_branch v =
     (let s = str_strip v;
          t = (if startswith s ''refs/heads/'' then drop 11 s else if startswith s ''heads/'' then drop 6 s else s);
          u = (if CHR '':'' \<in> set t then after_first (CHR '':'') t else t)
      in if s = [] then [] else str_strip u)"

definition normalize_branches :: "string list option \<Rightarrow> string list" where
  "normalize_branches vs = filter (\<lambda>r. r \<noteq> []) (map normalize_branch (case vs of Some xs \<Rightarrow> xs | None \<Rightarrow> []))"

fun first_str :: "pydict \<Rightarrow> string list \<Rightarrow> string option" where
  "first_str args [] = None"
| "first_str args (k # ks) =
     (case pget args k of
        PStr v \<Rightarrow> if str_strip v \<noteq> [] then Some (str_strip v) else first_str args ks
      | _ \<Rightarrow> first_str args ks)"

text \<open>Dictionaries nested under the container keys, in the order of the keys.\<close>

definition nested_args :: "pydict \<Rightarrow> pydict list" where
  "nested_args args = concat (map (\<lambda>k. case pget args k of PDict d \<Rightarrow> [d] | _ \<Rightarrow> []) NESTED_ARG_KEYS)"

definition combined_repo :: "pydict \<Rightarrow> string" where
  "combined_repo args =
     (case (first_str args OWNER_ARG_KEYS, pget args ''repo'') of
        (Some owner, PStr name) \<Rightarrow>
          if str_strip name \<noteq> [] \<and> CHR ''/'' \<notin> set name then normalize_repo (owner @ ''/'' @ str_strip name) else []
      | _ \<Rightarrow> [])"

definition full_repo :: "pyval \<Rightarrow> string" where
  "full_repo v = (case v of PStr s \<Rightarrow> if CHR ''/'' \<in> set s then normalize_repo s else [] | _ \<Rightarrow> [])"

definition url_repo :: "pyval \<Rightarrow> string" where
  "url_repo v = (case v of PStr s \<Rightarrow> repo_from_url s | _ \<Rightarrow> [])"

definition arg_repos :: "pydict \<Rightarrow> string list" where
  "arg_repos args =
     filter (\<lambda>r. r \<noteq> [])
       (combined_repo args # map (\<lambda>k. full_repo (pget args k)) FULL_REPO_ARG_KEYS @ map (url_repo \<circ> snd) args)"

text \<open>The first argument is how many levels of containers are still entered: one from a caller.\<close>

fun extract_repos_from_args :: "nat \<Rightarrow> pydict \<Rightarrow> string list" where
  "extract_repos_from_args 0 args = arg_repos args"
| "extract_repos_from_args (Suc n) args = arg_repos args @ concat (map (extract_repos_from_args n) (nested_args args))"

definition branch_value :: "pyval \<Rightarrow> string" where
  "branch_value v = (case v of PStr s \<Rightarrow> normalize_branch s | _ \<Rightarrow> [])"

definition arg_branches :: "pydict \<Rightarrow> string list" where
  "arg_branches args = filter (\<lambda>r. r \<noteq> []) (map (\<lambda>k. branch_value (pget args k)) BRANCH_ARG_KEYS)"

fun extract_branches_from_args :: "nat \<Rightarrow> pydict \<Rightarrow> string list" where
  "extract_branches_from_args 0 args = arg_branches args"
| "extract_branches_from_args (Suc n) args =
     arg_branches args @ concat (map (extract_branches_from_args n) (nested_args args))"

section \<open>Classification of tools\<close>

definition MCP_ALWAYS_ALLOW :: "string list" where
  "MCP_ALWAYS_ALLOW = [''get_service_info'', ''get_api_info'']"

definition MCP_READ_TOOLS :: "string list" where
  "MCP_READ_TOOLS = [''get_file_contents'', ''get_me'', ''pull_request_read'', ''issue_read'']"

definition MCP_WRITE_TOOLS :: "string list" where
  "MCP_WRITE_TOOLS =
     [''create_or_update_file'', ''push_files'', ''delete_file'', ''create_repository'', ''fork_repository'', ''create_branch'',
      ''delete_branch'', ''update_repository'', ''create_pull_request'', ''update_pull_request'', ''merge_pull_request'',
      ''create_pull_request_review'', ''add_pull_request_review_comment_to_pending_review'', ''request_copilot_review'',
      ''update_pull_request_branch'', ''create_issue'', ''update_issue'', ''add_issue_comment'', ''create_release'',
      ''delete_release'', ''create_gist'', ''update_gist'', ''run_workflow'', ''rerun_workflow_run'', ''rerun_failed_jobs'',
      ''cancel_workflow_run'', ''delete_workflow_run_logs'', ''assign_copilot_to_issue'']"

definition READ_VERB_PREFIXES :: "string list" where
  "READ_VERB_PREFIXES = [''get_'', ''list_'', ''search_'', ''find_'', ''fetch_'']"

definition WRITE_VERB_PREFIXES :: "string list" where
  "WRITE_VERB_PREFIXES =
     [''create_'', ''update_'', ''delete_'', ''merge_'', ''push_'', ''add_'', ''remove_'', ''set_'', ''fork_'', ''run_'', ''rerun_'',
      ''cancel_'', ''assign_'', ''submit_'', ''request_'', ''edit_'', ''close_'', ''reopen_'', ''lock_'', ''unlock_'', ''resolve_'',
      ''unresolve_'', ''transfer_'', ''rename_'', ''dismiss_'', ''approve_'', ''enable_'', ''disable_'', ''upload_'', ''star_'', ''pin_'']"

definition MCP_BRANCH_WRITE_TOOLS :: "string list" where
  "MCP_BRANCH_WRITE_TOOLS =
     [''create_or_update_file'', ''push_files'', ''delete_file'', ''create_branch'', ''delete_branch'', ''update_pull_request_branch'']"

datatype mcp_class = McpRead | McpWrite | McpAllow | McpUnknown

definition mcp_base :: "string \<Rightarrow> string" where
  "mcp_base canonical = (if startswith canonical ''github_'' then drop 7 canonical else canonical)"

definition classify_mcp_tool :: "string \<Rightarrow> bool \<Rightarrow> mcp_class" where
  "classify_mcp_tool canonical use_verb_heuristic =
     (let base = mcp_base canonical
      in if endswith canonical ''read_api_call'' then McpRead
         else if endswith canonical ''write_api_call'' then McpWrite
         else if base \<in> set MCP_ALWAYS_ALLOW then McpAllow
         else if base \<in> set MCP_READ_TOOLS then McpRead
         else if base \<in> set MCP_WRITE_TOOLS then McpWrite
         else if use_verb_heuristic \<and> list_ex (startswith base) WRITE_VERB_PREFIXES then McpWrite
         else if use_verb_heuristic \<and> list_ex (startswith base) READ_VERB_PREFIXES then McpRead
         else McpUnknown)"

section \<open>Classification of commands\<close>

definition GIT_READ_SUBCMDS :: "string list" where
  "GIT_READ_SUBCMDS = [''clone'', ''fetch'', ''pull'', ''ls-remote'']"

definition GIT_WRITE_SUBCMDS :: "string list" where
  "GIT_WRITE_SUBCMDS = [''push'']"

definition GH_WRITE_ACTIONS :: "string list dict" where
  "GH_WRITE_ACTIONS =
     [(''pr'', [''create'', ''merge'', ''close'', ''edit'', ''comment'', ''review'', ''ready'', ''reopen'', ''lock'', ''unlock'']),
      (''issue'', [''create'', ''edit'', ''close'', ''comment'', ''reopen'', ''delete'', ''lock'', ''unlock'', ''transfer'', ''pin'', ''unpin'']),
      (''repo'', [''create'', ''delete'', ''fork'', ''edit'', ''rename'', ''archive'', ''sync'', ''set-default'']),
      (''release'', [''create'', ''delete'', ''edit'', ''upload'']),
      (''run'', [''rerun'', ''cancel'', ''delete'']),
      (''workflow'', [''run'', ''enable'', ''disable'']),
      (''secret'', [''set'', ''delete'']),
      (''label'', [''create'', ''delete'', ''edit'']),
      (''gist'', [''create'', ''edit'', ''delete'']),
      (''cache'', [''delete'']),
      (''codespace'', [''create'', ''delete'', ''stop'', ''rebuild'']),
      (''project'', [''create'', ''delete'', ''edit'', ''close'', ''mark-template'', ''field-create'', ''field-delete'', ''item-add'',
         ''item-archive'', ''item-create'', ''item-delete'', ''item-edit'']),
      (''variable'', [''set'', ''delete'']),
      (''ssh-key'', [''add'', ''delete'']),
      (''gpg-key'', [''add'', ''delete''])]"

definition GH_IGNORE_GROUPS :: "string list" where
  "GH_IGNORE_GROUPS =
     [''auth'', ''config'', ''alias'', ''extension'', ''completion'', ''browse'', ''copilot'', ''licenses'', ''search'', ''status'']"

text \<open>The field \<open>kind\<close> of the source; no constructor of the source uses \<^verbatim>\<open>ignore\<close>.\<close>

datatype shell_kind = OpRead | OpWrite | OpIgnore | OpUnparseable

record shell_op =
  so_kind :: shell_kind
  so_repo :: "string option"
  so_branches :: "string list"
  so_branch_targeted :: bool
  so_detail :: string

fun repo_from_tokens :: "string list \<Rightarrow> string option" where
  "repo_from_tokens [] = None"
| "repo_from_tokens (t # ts) =
     (if repo_from_url t \<noteq> [] then Some (repo_from_url t)
      else (case rx_search REPO_API_PATH_PATTERN t of Some m \<Rightarrow> Some (owner_repo m) | None \<Rightarrow> repo_from_tokens ts))"

text \<open>The spellings passed by the source exclude each other, so the order in which they are tried does not matter.\<close>

fun flag_value :: "string list \<Rightarrow> string list \<Rightarrow> string option" where
  "flag_value [] names = None"
| "flag_value (t # ts) names =
     (if t \<in> set names \<and> ts \<noteq> [] then Some (hd ts)
      else (case filter (\<lambda>n. startswith t (n @ ''='')) names of
              n # ns \<Rightarrow> Some (drop (length n + 1) t)
            | [] \<Rightarrow> flag_value ts names))"

definition refspec_branch :: "string \<Rightarrow> string" where
  "refspec_branch refspec =
     normalize_branch (if CHR '':'' \<in> set refspec then after_first (CHR '':'') refspec else refspec)"

definition gh_classify_git :: "string list \<Rightarrow> shell_op option" where
  "gh_classify_git tokens =
     (case tokens of
        git # sub # args \<Rightarrow>
          if sub \<in> set GIT_READ_SUBCMDS then
            Some \<lparr>so_kind = OpRead, so_repo = repo_from_tokens args, so_branches = [], so_branch_targeted = False,
                  so_detail = ''git '' @ sub\<rparr>
          else if sub \<in> set GIT_WRITE_SUBCMDS then
            Some \<lparr>so_kind = OpWrite, so_repo = repo_from_tokens args,
                  so_branches = filter (\<lambda>b. b \<noteq> []) (map refspec_branch (tl (filter (\<lambda>t. \<not> startswith t ''-'') args))),
                  so_branch_targeted = True, so_detail = ''git push''\<rparr>
          else None
      | _ \<Rightarrow> None)"

definition or_else :: "string option \<Rightarrow> string option \<Rightarrow> string option" where
  "or_else a b = (case a of Some s \<Rightarrow> if s \<noteq> [] then a else b | None \<Rightarrow> b)"

definition classify_gh_api :: "string list \<Rightarrow> string option \<Rightarrow> shell_op" where
  "classify_gh_api rest repo =
     (let meth = flag_value rest [''-X'', ''--method''];
          has_fields = list_ex (\<lambda>t. t \<in> set [''-f'', ''--field'', ''-F'', ''--raw-field'', ''--input''] \<or>
            list_ex (startswith t) [''-f='', ''--field='', ''-F='', ''--raw-field='']) rest;
          is_write = (case meth of Some m \<Rightarrow> str_upper m \<in> set [''POST'', ''PUT'', ''PATCH'', ''DELETE''] | None \<Rightarrow> has_fields)
      in \<lparr>so_kind = (if is_write then OpWrite else OpRead), so_repo = or_else repo (repo_from_tokens rest), so_branches = [],
          so_branch_targeted = False, so_detail = ''gh api''\<rparr>)"

definition gh_repo :: "string list \<Rightarrow> string option" where
  "gh_repo rest =
     (case or_else (flag_value rest [''--repo'', ''-R'']) (repo_from_tokens rest) of
        Some r \<Rightarrow> if r \<noteq> [] then Some (normalize_repo r) else None
      | None \<Rightarrow> None)"

definition gh_branches :: "string list \<Rightarrow> string list" where
  "gh_branches rest =
     normalize_branches (case flag_value rest [''--base'', ''-B''] of Some b \<Rightarrow> if b \<noteq> [] then Some [b] else None | None \<Rightarrow> None)"

definition classify_gh :: "string list \<Rightarrow> shell_op option" where
  "classify_gh tokens =
     (case tokens of
        gh # grp # rest \<Rightarrow>
          if grp \<in> set GH_IGNORE_GROUPS then None
          else if grp = ''api'' then Some (classify_gh_api rest (gh_repo rest))
          else
            (let action_word = (if rest \<noteq> [] \<and> \<not> startswith (hd rest) ''-'' then hd rest else []);
                 is_write = (case dget GH_WRITE_ACTIONS grp of Some as \<Rightarrow> action_word \<in> set as | None \<Rightarrow> False);
                 detail = str_strip (''gh '' @ grp @ '' '' @ action_word)
             in Some \<lparr>so_kind = (if is_write then OpWrite else OpRead), so_repo = gh_repo rest,
                      so_branches = (if is_write then gh_branches rest else []), so_branch_targeted = False, so_detail = detail\<rparr>)
      | _ \<Rightarrow> None)"

definition GIT_OR_GH_RE :: rx where
  "GIT_OR_GH_RE = rx_seq [rx_boundary, Grp 1 (Alt (rx_str ''git'') (rx_str ''gh'')), rx_boundary]"

definition classify_invocation :: "string list \<Rightarrow> shell_op option" where
  "classify_invocation tokens =
     (if hd tokens = ''git'' then gh_classify_git tokens else if hd tokens = ''gh'' then classify_gh tokens else None)"

text \<open>The operations of one segment, given those \<open>inner_ops\<close> of an inner command; the first argument of the whole is the levels left.\<close>

definition segment_ops :: "(string \<Rightarrow> shell_op list) \<Rightarrow> string \<Rightarrow> shell_op list" where
  "segment_ops inner_ops segment =
     (case shlex_split segment of
        Inl e \<Rightarrow>
          if rx_search GIT_OR_GH_RE segment \<noteq> None then
            [\<lparr>so_kind = OpUnparseable, so_repo = None, so_branches = [], so_branch_targeted = False, so_detail = take 60 segment\<rparr>]
          else []
      | Inr all_tokens \<Rightarrow>
          (case real_invocation_tokens all_tokens of
             [] \<Rightarrow> []
           | tokens \<Rightarrow>
               (case unwrap_shell_command tokens of
                  Some inner_command \<Rightarrow> inner_ops inner_command
                | None \<Rightarrow> (case classify_invocation tokens of Some sop \<Rightarrow> [sop] | None \<Rightarrow> []))))"

fun classify_shell_command :: "nat \<Rightarrow> string \<Rightarrow> shell_op list" where
  "classify_shell_command 0 command = []"
| "classify_shell_command (Suc n) command =
     concat (map (segment_ops (classify_shell_command n)) (split_command_segments command))"

section \<open>The policy\<close>

record github_cfg =
  gc_read_all :: bool
  gc_read_repos :: "string list"
  gc_write_repos :: "string list"
  gc_write_branches :: "string list"
  gc_prefixes :: "string list"
  gc_shell_tools :: "string list"
  gc_deny_reason :: string

definition github_policy ::
    "bool \<Rightarrow> string list option \<Rightarrow> string list option \<Rightarrow> string list option \<Rightarrow> string list option \<Rightarrow> string list option \<Rightarrow> string \<Rightarrow> github_cfg" where
  "github_policy read_all read_repos write_repos write_branches mcp_tool_prefixes shell_tools deny_reason =
     \<lparr>gc_read_all = read_all, gc_read_repos = normalize_repos read_repos, gc_write_repos = normalize_repos write_repos,
      gc_write_branches = normalize_branches write_branches,
      gc_prefixes = (case mcp_tool_prefixes of Some ps \<Rightarrow> ps | None \<Rightarrow> DEFAULT_TOOL_PREFIXES),
      gc_shell_tools = (case shell_tools of Some ts \<Rightarrow> ts | None \<Rightarrow> GITHUB_SHELL_TOOLS), gc_deny_reason = deny_reason\<rparr>"

definition gate_read_repo :: "github_cfg \<Rightarrow> string list \<Rightarrow> pydict \<Rightarrow> pydict option" where
  "gate_read_repo cfg repos undeterminable =
     (if gc_read_all cfg then None
      else if repos = [] then Some undeterminable
      else if set repos \<subseteq> set (gc_read_repos cfg) then None
      else Some (gh_deny (gc_deny_reason cfg @ '' Read is restricted to the configured repos; '' @
        ''this call targets '' @ sorted_repr repos @ ''.'')))"

definition gate_write :: "github_cfg \<Rightarrow> string list \<Rightarrow> string list \<Rightarrow> bool \<Rightarrow> pydict \<Rightarrow> pydict \<Rightarrow> pydict option" where
  "gate_write cfg repos branches branch_targeted no_repo no_branch =
     (if repos = [] then Some no_repo
      else if \<not> set repos \<subseteq> set (gc_write_repos cfg) then
        Some (gh_deny (gc_deny_reason cfg @ '' Write is restricted to the configured repos; '' @
          ''this call targets '' @ sorted_repr repos @ ''.''))
      else if gc_write_branches cfg \<noteq> [] then
        (if branches \<noteq> [] then
           (let bad = filter (\<lambda>b. b \<notin> set (gc_write_branches cfg)) branches
            in if bad \<noteq> [] then
                 Some (gh_deny (gc_deny_reason cfg @ '' Write is restricted to branches '' @
                   sorted_repr (gc_write_branches cfg) @ ''; this call targets '' @ sorted_repr bad @ ''.''))
               else None)
         else if branch_targeted then Some no_branch
         else None)
      else None)"

definition evaluate_mcp :: "github_cfg \<Rightarrow> string \<Rightarrow> pydict \<Rightarrow> pydict option" where
  "evaluate_mcp cfg raw_tool args =
     (let canonical = canonical_tool_name raw_tool (gc_prefixes cfg);
          had_github_prefix = (canonical \<noteq> raw_tool);
          deny_reason = gc_deny_reason cfg
      in (case classify_mcp_tool canonical had_github_prefix of
            McpUnknown \<Rightarrow>
              if had_github_prefix then Some (gh_deny (deny_reason @ '' Unrecognized GitHub tool '' @ repr_str raw_tool @ ''.'')) else None
          | McpAllow \<Rightarrow> None
          | McpRead \<Rightarrow>
              gate_read_repo cfg (extract_repos_from_args 1 args)
                (gh_deny (deny_reason @ '' Read is restricted to the configured repos and this '' @
                  ''call'' @ [single_quote] @ ''s target repo could not be determined.''))
          | McpWrite \<Rightarrow>
              gate_write cfg (extract_repos_from_args 1 args) (extract_branches_from_args 1 args)
                (mcp_base canonical \<in> set MCP_BRANCH_WRITE_TOOLS)
                (gh_deny (deny_reason @ '' Write call carries no identifiable target repo.''))
                (gh_deny (deny_reason @ '' Write is restricted to branches '' @ sorted_repr (gc_write_branches cfg) @
                  '' and this call'' @ [single_quote] @ ''s target branch could '' @ ''not be determined.''))))"

definition op_repos :: "shell_op \<Rightarrow> string list" where
  "op_repos sop = (case so_repo sop of Some r \<Rightarrow> if r \<noteq> [] then [r] else [] | None \<Rightarrow> [])"

definition gate_shell_op :: "github_cfg \<Rightarrow> shell_op \<Rightarrow> pydict option" where
  "gate_shell_op cfg sop =
     (case so_kind sop of
        OpUnparseable \<Rightarrow>
          Some (gh_ask (''Could not parse a git/gh command ('' @ repr_str (so_detail sop) @ '') to check it against '' @
            ''the GitHub policy. Approve to run it?''))
      | OpRead \<Rightarrow>
          gate_read_repo cfg (op_repos sop)
            (gh_ask (''Reads are restricted to the configured repos, but the target repo '' @
              ''of `'' @ so_detail sop @ ''` could not be determined. Approve?''))
      | OpWrite \<Rightarrow>
          gate_write cfg (op_repos sop) (so_branches sop) (so_branch_targeted sop)
            (gh_ask (''The target repo of `'' @ so_detail sop @ ''` could not be determined '' @
              ''(e.g. a local remote alias). Approve this write?''))
            (gh_ask (''`'' @ so_detail sop @ ''` writes to an allowed repo but its target branch could '' @
              ''not be determined, and writes are branch-restricted. Approve?''))
      | OpIgnore \<Rightarrow> None)"

definition gh_worse :: "pydict option \<Rightarrow> pydict option \<Rightarrow> pydict option" where
  "gh_worse current candidate = (if result_rank current < result_rank candidate then candidate else current)"

interpretation ghs: strictest gh_worse
  by unfold_locales (auto simp: gh_worse_def)

definition evaluate_shell :: "github_cfg \<Rightarrow> string \<Rightarrow> pydict option" where
  "evaluate_shell cfg command =
     foldl (\<lambda>decision sop. gh_worse decision (gate_shell_op cfg sop)) None
       (classify_shell_command (Suc MAX_SHELL_NESTING) command)"

definition github_evaluate :: "github_cfg \<Rightarrow> pydict \<Rightarrow> pydict option" where
  "github_evaluate cfg ev =
     (if pget ev ''type'' \<noteq> PStr ''tool_call'' then None
      else (case pget ev ''data'' of
              PDict data \<Rightarrow>
                (case pget data ''name'' of
                   PStr raw_tool \<Rightarrow>
                     (let args = (case pget data ''arguments'' of PDict a \<Rightarrow> a | _ \<Rightarrow> [])
                      in if raw_tool \<in> set (gc_shell_tools cfg) then
                           (case pget args ''command'' of
                              PStr command \<Rightarrow> if str_strip command = [] then None else evaluate_shell cfg command
                            | _ \<Rightarrow> None)
                         else evaluate_mcp cfg raw_tool args)
                 | _ \<Rightarrow> None)
            | _ \<Rightarrow> None))"

end
