(* ===== verification/Json.thy ===== *)
theory Json
  imports Prelude
begin

text \<open>
  \<^verbatim>\<open>json.loads\<close> of the standard library, as a recursive-descent reader. Every nested value is
  shorter than the text around it, so the length of the text bounds the depth of the recursion (Python's own
  recursion limit is not modelled). The constants \<^verbatim>\<open>NaN\<close> and \<^verbatim>\<open>Infinity\<close>, which name no rational,
  are read as errors.
\<close>

definition json_space :: "char \<Rightarrow> bool" where
  "json_space c \<longleftrightarrow> c \<in> {CHR '' '', CHR 9, CHR 10, CHR 13}"

definition skip_space :: "string \<Rightarrow> string" where
  "skip_space s = dropWhile json_space s"

section \<open>Strings\<close>

definition hex_val :: "char \<Rightarrow> nat option" where
  "hex_val c =
     (if is_digit c then Some (digit_val c)
      else if 97 \<le> char_code c \<and> char_code c \<le> 102 then Some (char_code c - 87)
      else if 65 \<le> char_code c \<and> char_code c \<le> 70 then Some (char_code c - 55)
      else None)"

fun hex4 :: "string \<Rightarrow> (nat \<times> string) option" where
  "hex4 (a # b # c # d # s) =
     (case (hex_val a, hex_val b, hex_val c, hex_val d) of
        (Some i, Some j, Some k, Some l) \<Rightarrow> Some (4096 * i + 256 * j + 16 * k + l, s)
      | _ \<Rightarrow> None)"
| "hex4 s = None"

definition utf8 :: "nat \<Rightarrow> string" where
  "utf8 n =
     (if n < 128 then [char_of n]
      else if n < 2048 then [char_of (192 + n div 64), char_of (128 + n mod 64)]
      else if n < 65536 then [char_of (224 + n div 4096), char_of (128 + n div 64 mod 64), char_of (128 + n mod 64)]
      else [char_of (240 + n div 262144), char_of (128 + n div 4096 mod 64), char_of (128 + n div 64 mod 64),
            char_of (128 + n mod 64)])"

text \<open>After \<^verbatim>\<open>\u\<close>: one code unit, or two that form a surrogate pair.\<close>

definition json_unicode :: "string \<Rightarrow> (string \<times> string) option" where
  "json_unicode s =
     (case hex4 s of
        None \<Rightarrow> None
      | Some (n, t) \<Rightarrow>
          (if 55296 \<le> n \<and> n \<le> 56319 \<and> startswith t [CHR 92, CHR ''u''] then
             (case hex4 (drop 2 t) of
                Some (m, u) \<Rightarrow>
                  if 56320 \<le> m \<and> m \<le> 57343 then Some (utf8 (65536 + (n - 55296) * 1024 + (m - 56320)), u)
                  else Some (utf8 n, t)
              | None \<Rightarrow> None)
           else Some (utf8 n, t)))"

definition json_escape :: "char \<Rightarrow> char option" where
  "json_escape c =
     (if c \<in> {CHR 34, CHR 92, CHR ''/''} then Some c
      else if c = CHR ''b'' then Some (CHR 8) else if c = CHR ''f'' then Some (CHR 12)
      else if c = CHR ''n'' then Some (CHR 10) else if c = CHR ''r'' then Some (CHR 13)
      else if c = CHR ''t'' then Some (CHR 9) else None)"

text \<open>The characters up to the closing quotation mark; the first argument bounds the length.\<close>

fun json_string :: "nat \<Rightarrow> string \<Rightarrow> string \<Rightarrow> (string \<times> string) option" where
  "json_string 0 w s = None"
| "json_string (Suc n) w [] = None"
| "json_string (Suc n) w (c # s) =
     (if c = CHR 34 then Some (rev w, s)
      else if char_code c < 32 then None
      else if c = CHR 92 then
        (case s of
           [] \<Rightarrow> None
         | e # t \<Rightarrow>
             (if e = CHR ''u'' then
                (case json_unicode t of Some (x, u) \<Rightarrow> json_string n (rev x @ w) u | None \<Rightarrow> None)
              else (case json_escape e of Some x \<Rightarrow> json_string n (x # w) t | None \<Rightarrow> None)))
      else json_string n (c # w) s)"

section \<open>Numbers\<close>

definition json_number :: "string \<Rightarrow> (pyval \<times> string) option" where
  "json_number s =
     (let neg = startswith s ''-'';
          t = (if neg then tl s else s);
          i = (if startswith t ''0'' then ''0'' else takeWhile is_digit t);
          r = drop (length i) t;
          f = (if startswith r ''.'' then takeWhile is_digit (tl r) else []);
          r1 = (if f = [] then r else drop (Suc (length f)) r);
          es = (case r1 of
                  c # u \<Rightarrow>
                    if c = CHR ''e'' \<or> c = CHR ''E'' then
                      (case u of
                         d # v \<Rightarrow> if d = CHR ''+'' \<or> d = CHR ''-'' then (d = CHR ''-'', takeWhile is_digit v, 2)
                                  else (False, takeWhile is_digit u, 1)
                       | [] \<Rightarrow> (False, [], 1))
                    else (False, [], 0)
                | [] \<Rightarrow> (False, [], 0 :: nat));
          e = fst (snd es);
          r2 = (if e = [] then r1 else drop (snd (snd es) + length e) r1);
          m = (of_nat (digits_val i) :: rat) + of_nat (digits_val f) / 10 ^ length f;
          x = (if e = [] then m else if fst es then m / 10 ^ digits_val e else m * 10 ^ digits_val e)
      in if i = [] then None
         else if f = [] \<and> e = [] then Some (PInt ((if neg then - 1 else 1) * int (digits_val i)), r2)
         else Some (PFloat ((if neg then - 1 else 1) * x), r2))"

section \<open>Values\<close>

fun json_value :: "nat \<Rightarrow> string \<Rightarrow> (pyval \<times> string) option"
  and json_items :: "nat \<Rightarrow> pyval list \<Rightarrow> string \<Rightarrow> (pyval \<times> string) option"
  and json_members :: "nat \<Rightarrow> pydict \<Rightarrow> string \<Rightarrow> (pyval \<times> string) option" where
  "json_value 0 s = None"
| "json_value (Suc n) [] = None"
| "json_value (Suc n) (c # s) =
     (if c = CHR 34 then (case json_string (Suc (length s)) [] s of Some (x, t) \<Rightarrow> Some (PStr x, t) | None \<Rightarrow> None)
      else if c = CHR ''{'' then
        (if startswith (skip_space s) ''}'' then Some (PDict [], tl (skip_space s)) else json_members n [] (skip_space s))
      else if c = CHR ''['' then
        (if startswith (skip_space s) '']'' then Some (PList [], tl (skip_space s)) else json_items n [] (skip_space s))
      else if startswith (c # s) ''null'' then Some (PNone, drop 4 (c # s))
      else if startswith (c # s) ''true'' then Some (PBool True, drop 4 (c # s))
      else if startswith (c # s) ''false'' then Some (PBool False, drop 5 (c # s))
      else json_number (c # s))"
| "json_items 0 xs s = None"
| "json_items (Suc n) xs s =
     (case json_value n s of
        None \<Rightarrow> None
      | Some (v, t) \<Rightarrow>
          (case skip_space t of
             c # u \<Rightarrow>
               if c = CHR '']'' then Some (PList (xs @ [v]), u)
               else if c = CHR '','' then json_items n (xs @ [v]) (skip_space u)
               else None
           | [] \<Rightarrow> None))"
| "json_members 0 d s = None"
| "json_members (Suc n) d [] = None"
| "json_members (Suc n) d (q # s) =
     (if q \<noteq> CHR 34 then None
      else (case json_string (Suc (length s)) [] s of
              None \<Rightarrow> None
            | Some (k, t) \<Rightarrow>
                (case skip_space t of
                   c # u \<Rightarrow>
                     if c \<noteq> CHR '':'' then None
                     else (case json_value n (skip_space u) of
                             None \<Rightarrow> None
                           | Some (v, r) \<Rightarrow>
                               (case skip_space r of
                                  e # w \<Rightarrow>
                                    if e = CHR ''}'' then Some (PDict (dset d k v), w)
                                    else if e = CHR '','' then json_members n (dset d k v) (skip_space w)
                                    else None
                                | [] \<Rightarrow> None))
                 | [] \<Rightarrow> None)))"

text \<open>\<open>None\<close> is a \<^verbatim>\<open>JSONDecodeError\<close>.\<close>

definition py_json_loads :: "string \<Rightarrow> pyval option" where
  "py_json_loads s =
     (case json_value (2 * length s + 1) (skip_space s) of
        Some (v, t) \<Rightarrow> if skip_space t = [] then Some v else None
      | None \<Rightarrow> None)"

end
