(* ===== verification/RiskScore.thy ===== *)
theory RiskScore
  imports Safety Json
begin

text \<open>
  The session risk score (\<^verbatim>\<open>policies/builtins/risk_score.py\<close>): points for configured tool calls and
  for classification labels found in tool results, and escalation of guarded tools once the score
  reaches the threshold. The evaluator returns \<open>None\<close> to abstain. A set of labels is a list.
\<close>

definition DEFAULT_RISK_STATE_KEY :: string where
  "DEFAULT_RISK_STATE_KEY = ''risk_score''"

definition DEFAULT_LABEL_KEYS :: "string list" where
  "DEFAULT_LABEL_KEYS = [''label_classification'', ''classification'', ''sensitivity'', ''sensitivity_label'', ''dlp_label'']"

definition MAX_RESULT_SCAN_DEPTH :: nat where
  "MAX_RESULT_SCAN_DEPTH = 20"

definition VALID_ESCALATIONS :: "string list" where
  "VALID_ESCALATIONS = [''ASK'', ''DENY'']"

record risk_cfg =
  rc_threshold :: int
  rc_tool_points :: "int dict"
  rc_sensitive_labels :: "int dict"
  rc_guarded_tools :: "string list"
  rc_escalate_action :: string
  rc_initial_scores_by_actor :: "int dict"
  rc_state_key :: string
  rc_label_keys :: "string list"
  rc_reason :: string

section \<open>Helpers\<close>

definition tool_matches :: "string \<Rightarrow> string \<Rightarrow> bool" where
  "tool_matches raw_tool name \<longleftrightarrow> raw_tool = name \<or> endswith raw_tool (''__'' @ name)"

definition points_for_tool :: "string \<Rightarrow> int dict \<Rightarrow> int" where
  "points_for_tool raw_tool tool_points =
     sum_list (map snd (filter (\<lambda>(name, points). tool_matches raw_tool name) tool_points))"

definition is_guarded :: "string \<Rightarrow> string list \<Rightarrow> bool" where
  "is_guarded raw_tool guarded_tools = list_ex (tool_matches raw_tool) guarded_tools"

definition parse_result_payload :: "pyval \<Rightarrow> pyval" where
  "parse_result_payload data =
     (let inner = (case data of
                     PDict d \<Rightarrow> (case dget d ''result'' of Some v \<Rightarrow> v | None \<Rightarrow> data)
                   | _ \<Rightarrow> data)
      in case inner of
           PStr s \<Rightarrow> (case py_json_loads s of Some v \<Rightarrow> v | None \<Rightarrow> inner)
         | _ \<Rightarrow> inner)"

definition entry_label :: "string list \<Rightarrow> string \<times> pyval \<Rightarrow> string list" where
  "entry_label label_keys e =
     (case e of (key, nested) \<Rightarrow>
        (case nested of
           PStr s \<Rightarrow> if key \<in> set label_keys \<and> str_strip s \<noteq> [] then [str_lower (str_strip s)] else []
         | _ \<Rightarrow> []))"

fun collect_labels :: "string list \<Rightarrow> nat \<Rightarrow> pyval \<Rightarrow> string list" where
  "collect_labels label_keys 0 payload = []"
| "collect_labels label_keys (Suc d) payload =
     (case payload of
        PDict es \<Rightarrow> concat (map (\<lambda>e. entry_label label_keys e @ collect_labels label_keys d (snd e)) es)
      | PList vs \<Rightarrow> concat (map (collect_labels label_keys d) vs)
      | _ \<Rightarrow> [])"

definition actor_offset :: "pydict \<Rightarrow> risk_cfg \<Rightarrow> int res" where
  "actor_offset ev cfg =
     (let run_as = pget (or_dict (pget (event_context ev) ''actor'')) ''run_as''
      in case (if truthy run_as then run_as else PStr []) of
           PStr s \<Rightarrow> Inr (case dget (rc_initial_scores_by_actor cfg) s of Some n \<Rightarrow> n | None \<Rightarrow> 0)
         | PList xs \<Rightarrow> Inl (TypeError (''unhashable type: '' @ quoted ''list''))
         | PDict d \<Rightarrow> Inl (TypeError (''unhashable type: '' @ quoted ''dict''))
         | _ \<Rightarrow> Inr 0)"

definition current_score :: "pydict \<Rightarrow> risk_cfg \<Rightarrow> int res" where
  "current_score ev cfg =
     bind_res (py_int (pget_default (or_dict (pget ev ''session_state'')) (rc_state_key cfg) (PInt 0))) (\<lambda>accumulated.
     bind_res (actor_offset ev cfg) (\<lambda>offset. Inr (offset + accumulated)))"

definition risk_increment :: "string \<Rightarrow> int \<Rightarrow> pydict" where
  "risk_increment state_key points =
     [(''result'', PStr ''ALLOW''),
      (''state_updates'', PList [PDict [(''key'', PStr state_key), (''action'', PStr ''increment''), (''value'', PInt points)]])]"

section \<open>Decisions\<close>

text \<open>The sign of the reason, in UTF-8.\<close>

definition at_least :: string where
  "at_least = [CHR 226, CHR 137, CHR 165]"

definition escalation :: "risk_cfg \<Rightarrow> int \<Rightarrow> string \<Rightarrow> pydict" where
  "escalation cfg score raw_tool =
     [(''result'', PStr (rc_escalate_action cfg)),
      (''reason'', PStr (rc_reason cfg @ '' Session risk score '' @ str_of_int score @ '' '' @ at_least @ '' threshold '' @
         str_of_int (rc_threshold cfg) @ ''; '' @ raw_tool @ '' requires review.''))]"

definition no_endswith :: "pyval \<Rightarrow> py_exn" where
  "no_endswith v = AttributeError (quoted (type_name v) @ '' object has no attribute '' @ quoted ''endswith'')"

definition decide_tool_call :: "pydict \<Rightarrow> risk_cfg \<Rightarrow> pydict option res" where
  "decide_tool_call ev cfg =
     (case pget ev ''data'' of
        PDict data \<Rightarrow>
          (let name = pget_default data ''name'' (PStr [])
           in if \<not> truthy name then Inr None
              else (case name of
                PStr raw_tool \<Rightarrow>
                  (let scored = Inr (if 0 < points_for_tool raw_tool (rc_tool_points cfg)
                     then Some (risk_increment (rc_state_key cfg) (points_for_tool raw_tool (rc_tool_points cfg))) else None)
                   in if is_guarded raw_tool (rc_guarded_tools cfg) then
                        bind_res (current_score ev cfg) (\<lambda>score.
                          if rc_threshold cfg \<le> score then Inr (Some (escalation cfg score raw_tool)) else scored)
                      else scored)
              | v \<Rightarrow> if rc_guarded_tools cfg = [] \<and> rc_tool_points cfg = [] then Inr None else Inl (no_endswith v)))
      | _ \<Rightarrow> Inr None)"

definition matched_points :: "risk_cfg \<Rightarrow> pyval \<Rightarrow> int list" where
  "matched_points cfg data =
     List.map_filter (dget (rc_sensitive_labels cfg))
       (collect_labels (rc_label_keys cfg) MAX_RESULT_SCAN_DEPTH (parse_result_payload data))"

definition decide_tool_result :: "pydict \<Rightarrow> risk_cfg \<Rightarrow> pydict option" where
  "decide_tool_result ev cfg =
     (if rc_sensitive_labels cfg = [] then None
      else (case matched_points cfg (pget ev ''data'') of
              [] \<Rightarrow> None
            | p # ps \<Rightarrow> Some (risk_increment (rc_state_key cfg) (foldl max p ps))))"

definition risk_evaluate :: "risk_cfg \<Rightarrow> pydict \<Rightarrow> pydict option res" where
  "risk_evaluate cfg ev =
     (if pget ev ''type'' = PStr ''tool_call'' then decide_tool_call ev cfg
      else if pget ev ''type'' = PStr ''tool_result'' then Inr (decide_tool_result ev cfg)
      else Inr None)"

definition risk_score_policy ::
    "int \<Rightarrow> int dict option \<Rightarrow> int dict option \<Rightarrow> string list option \<Rightarrow> string \<Rightarrow> int dict option \<Rightarrow> string \<Rightarrow> string list option \<Rightarrow>
     string \<Rightarrow> risk_cfg res" where
  "risk_score_policy threshold tool_points sensitive_labels guarded_tools escalate_action initial_scores state_key label_keys reason =
     (let normalized = str_upper (str_strip escalate_action)
      in if normalized \<notin> set VALID_ESCALATIONS then
           Inl (ValueError (''risk_score_policy: escalate_action must be one of ['' @ quoted ''ASK'' @ '', '' @ quoted ''DENY'' @
             ''], got '' @ repr_str escalate_action))
         else
           Inr \<lparr>rc_threshold = threshold,
                rc_tool_points = (case tool_points of Some d \<Rightarrow> d | None \<Rightarrow> []),
                rc_sensitive_labels =
                  dupdate [] (map (\<lambda>(k, v). (str_lower (str_strip k), v)) (case sensitive_labels of Some d \<Rightarrow> d | None \<Rightarrow> [])),
                rc_guarded_tools = (case guarded_tools of Some xs \<Rightarrow> xs | None \<Rightarrow> []),
                rc_escalate_action = normalized,
                rc_initial_scores_by_actor = (case initial_scores of Some d \<Rightarrow> d | None \<Rightarrow> []),
                rc_state_key = state_key,
                rc_label_keys = (case label_keys of Some xs \<Rightarrow> xs | None \<Rightarrow> DEFAULT_LABEL_KEYS),
                rc_reason = reason\<rparr>)"

end
