(* ===== verification/RiskProperties.thy ===== *)
theory RiskProperties
  imports SafetyProperties RiskScore
begin

text \<open>
  The risk-score policy through the engine refines a ledger: a running score that tool calls and
  labelled results add to, against which guarded calls are checked.
\<close>

section \<open>The ledger\<close>

datatype risk_event = RiskCall string | RiskResult pyval | RiskOther

definition label_points :: "risk_cfg \<Rightarrow> pyval \<Rightarrow> int" where
  "label_points cfg data =
     (if rc_sensitive_labels cfg = [] \<or> matched_points cfg data = [] then 0 else Max (set (matched_points cfg data)))"

definition risk_action :: "risk_cfg \<Rightarrow> policy_action" where
  "risk_action cfg = (if rc_escalate_action cfg = ''DENY'' then DENY else ASK)"

fun ledger_step :: "risk_cfg \<Rightarrow> int \<Rightarrow> int \<Rightarrow> risk_event \<Rightarrow> policy_action \<times> int" where
  "ledger_step cfg offset score (RiskCall t) =
     (if is_guarded t (rc_guarded_tools cfg) \<and> rc_threshold cfg \<le> offset + score then (risk_action cfg, score)
      else (ALLOW, score + max 0 (points_for_tool t (rc_tool_points cfg))))"
| "ledger_step cfg offset score (RiskResult data) = (ALLOW, score + label_points cfg data)"
| "ledger_step cfg offset score RiskOther = (ALLOW, score)"

fun ledger_run :: "risk_cfg \<Rightarrow> int \<Rightarrow> int \<Rightarrow> risk_event list \<Rightarrow> policy_action list \<times> int" where
  "ledger_run cfg offset score [] = ([], score)"
| "ledger_run cfg offset score (ev # evs) =
     (case ledger_step cfg offset score ev of
        (a, s1) \<Rightarrow> (case ledger_run cfg offset s1 evs of (as, s2) \<Rightarrow> (a # as, s2)))"

text \<open>The evaluation context of a ledger event for an actor.\<close>

definition run_as_of :: "evaluation_context \<Rightarrow> pyval" where
  "run_as_of ctx = pget (case ec_actor ctx of Some a \<Rightarrow> a | None \<Rightarrow> []) ''run_as''"

definition shows_event :: "risk_cfg \<Rightarrow> int \<Rightarrow> evaluation_context \<Rightarrow> risk_event \<Rightarrow> bool" where
  "shows_event cfg offset ctx ev \<longleftrightarrow>
     (case ev of
        RiskCall t \<Rightarrow> ec_phase ctx = TOOL_CALL \<and> t \<noteq> [] \<and> (\<exists>data. ec_content ctx = PDict data \<and> dget data ''name'' = Some (PStr t))
      | RiskResult v \<Rightarrow> ec_phase ctx = TOOL_RESULT \<and> ec_content ctx = v
      | RiskOther \<Rightarrow> ec_phase ctx \<notin> {TOOL_CALL, TOOL_RESULT}) \<and>
     (run_as_of ctx = PNone \<and> dget (rc_initial_scores_by_actor cfg) [] = None \<and> offset = 0 \<or>
      (\<exists>u. run_as_of ctx = PStr u \<and> offset = (case dget (rc_initial_scores_by_actor cfg) u of Some n \<Rightarrow> n | None \<Rightarrow> 0)))"

section \<open>The policy in the engine\<close>

definition risk_policy :: "policy_spec \<Rightarrow> risk_cfg \<Rightarrow> 's \<Rightarrow> 's policy" where
  "risk_policy spec cfg s0 =
     function_policy spec (event_callable
       (\<lambda>ev. bind_res (risk_evaluate cfg ev) (\<lambda>r. Inr (case r of None \<Rightarrow> RNone | Some d \<Rightarrow> RDict d))) s0)"

definition risk_ok :: "risk_cfg \<Rightarrow> bool" where
  "risk_ok cfg \<longleftrightarrow> rc_escalate_action cfg \<in> {''ASK'', ''DENY''} \<and>
     rc_state_key cfg \<notin> {USER_DAILY_ASK_APPROVED_STATE_KEY, SESSION_COST_ASK_APPROVED_STATE_KEY, SESSION_COST_UNPRICED_APPROVED_KEY}"

definition score_of :: "risk_cfg \<Rightarrow> 's engine \<Rightarrow> pyval" where
  "score_of cfg en = pget_default (en_session_state en) (rc_state_key cfg) (PInt 0)"

definition increment_update :: "string \<Rightarrow> int \<Rightarrow> state_update" where
  "increment_update k n = \<lparr>su_key = k, su_action = INCREMENT, su_value = PInt n\<rparr>"

lemma risk_policy_spec [simp]: "pol_spec (risk_policy spec cfg s0) = spec"
  by (simp add: risk_policy_def function_policy_def)

lemma foldl_max: "foldl max (p :: int) ps = Max (set (p # ps))"
proof (induction ps arbitrary: p)
  case (Cons q ps)
  have "foldl max p (q # ps) = Max (set (max p q # ps))" using Cons.IH [of "max p q"] by simp
  also have "\<dots> = Max (set (p # q # ps))" by (cases ps) (simp_all add: max.assoc)
  finally show ?case .
qed simp

lemma increment_result:
  "coerce_to_policy_result n (RDict (risk_increment k i)) =
   Inr ((policy_result_of ALLOW)\<lparr>pr_state_updates := Some [increment_update k i]\<rparr>)"
  by (simp add: coerce_to_policy_result_def policy_result_from_dict_def risk_increment_def pget_def policy_action_of_def
      coerce_state_updates_def dict_or_none_def policy_result_of_def coerce_entry_def state_update_action_of_def or_none_def
      increment_update_def)

lemma escalation_result:
  assumes "risk_ok cfg"
  shows "\<exists>why. coerce_to_policy_result n (RDict (escalation cfg score t)) = Inr ((policy_result_of (risk_action cfg))\<lparr>pr_reason := why\<rparr>)"
  using assms coerce_verdict [of "rc_escalate_action cfg" "risk_action cfg"]
  by (auto simp: escalation_def risk_ok_def risk_action_def policy_action_of_def)

lemma actor_of_event:
  "or_dict (pget (event_context (ev_fields (build_event ctx))) ''actor'') = (case ec_actor ctx of Some a \<Rightarrow> a | None \<Rightarrow> [])"
  by (simp add: event_context_def build_event_def pget_def opt_dict_def or_dict_def split: option.splits)

lemma offset_read:
  assumes "shows_event cfg offset ctx e"
  shows "actor_offset (ev_fields (build_event (prepare_ctx en ctx))) cfg = Inr offset"
proof -
  have "ec_actor (prepare_ctx en ctx) = ec_actor ctx" by simp
  then have "pget (or_dict (pget (event_context (ev_fields (build_event (prepare_ctx en ctx)))) ''actor'')) ''run_as'' = run_as_of ctx"
    by (simp add: actor_of_event run_as_of_def)
  then show ?thesis using assms by (auto simp: shows_event_def actor_offset_def Let_def split: option.splits)
qed

lemma score_read:
  assumes "shows_event cfg offset ctx e" and "score_of cfg en = PInt k"
  shows "current_score (ev_fields (build_event (prepare_ctx en ctx))) cfg = Inr (offset + k)"
proof -
  have "or_dict (pget (ev_fields (build_event (prepare_ctx en ctx))) ''session_state'') = en_session_state en"
    by (simp add: opt_dict_def or_dict_def)
  then show ?thesis
    using assms offset_read [OF assms(1), of en] by (simp add: current_score_def score_of_def py_int_def)
qed

text \<open>The response to an event: an escalation, an increment, or nothing.\<close>

lemma risk_response:
  assumes "shows_event cfg offset ctx e" and "score_of cfg en = PInt k" and "ledger_step cfg offset k e = (a, k')"
  shows "risk_evaluate cfg (ev_fields (build_event (prepare_ctx en ctx))) =
    Inr (if \<exists>t. e = RiskCall t \<and> is_guarded t (rc_guarded_tools cfg) \<and> rc_threshold cfg \<le> offset + k
         then Some (escalation cfg (offset + k) (case e of RiskCall t \<Rightarrow> t | _ \<Rightarrow> []))
         else if (case e of RiskCall t \<Rightarrow> 0 < points_for_tool t (rc_tool_points cfg)
                  | RiskResult v \<Rightarrow> rc_sensitive_labels cfg \<noteq> [] \<and> matched_points cfg v \<noteq> [] | RiskOther \<Rightarrow> False)
         then Some (risk_increment (rc_state_key cfg) (k' - k)) else None)"
proof (cases e)
  case (RiskCall t)
  then obtain data where d: "ec_phase ctx = TOOL_CALL" "ec_content ctx = PDict data" "dget data ''name'' = Some (PStr t)" "t \<noteq> []"
    using assms(1) by (auto simp: shows_event_def)
  then show ?thesis
    using assms(3) RiskCall score_read [OF assms(1,2)]
    by (auto simp: risk_evaluate_def decide_tool_call_def Let_def pget_default_def split: if_splits)
next
  case (RiskResult v)
  then show ?thesis
    using assms(1,3)
    by (auto simp: shows_event_def risk_evaluate_def decide_tool_result_def label_points_def foldl_max split: list.splits if_splits)
next
  case RiskOther
  then have "phase_value (ec_phase ctx) \<noteq> ''tool_call''" "phase_value (ec_phase ctx) \<noteq> ''tool_result''"
    using assms(1) phase_value_inject [of "ec_phase ctx" TOOL_CALL] phase_value_inject [of "ec_phase ctx" TOOL_RESULT]
    by (auto simp: shows_event_def simp del: phase_value_inject)
  then show ?thesis using RiskOther by (simp add: risk_evaluate_def)
qed

lemma risk_dispatch:
  assumes "shows_event cfg offset ctx e" and "score_of cfg en = PInt k" and "ledger_step cfg offset k e = (a, k')" and "risk_ok cfg"
  shows "\<exists>why ups. dispatch_policy (risk_policy spec cfg s0) (prepare_ctx en ctx) b =
      ((policy_result_of a)\<lparr>pr_reason := why, pr_state_updates := ups\<rparr>, risk_policy spec cfg s0) \<and>
    (ups = None \<and> k' = k \<or> a = ALLOW \<and> ups = Some [increment_update (rc_state_key cfg) (k' - k)])"
proof -
  let ?ev = "ev_fields (build_event (prepare_ctx en ctx))"
  note r = risk_response [OF assms(1-3)]
  have d: "dispatch_policy (risk_policy spec cfg s0) (prepare_ctx en ctx) b = (v, risk_policy spec cfg s0)"
    if "risk_evaluate cfg ?ev = Inr x" and "coerce_to_policy_result (ps_name spec) (case x of None \<Rightarrow> RNone | Some d \<Rightarrow> RDict d) = Inr v" for x v
    using that by (simp add: risk_policy_def dispatch_event_callable)
  consider (esc) t where "e = RiskCall t" "is_guarded t (rc_guarded_tools cfg)" "rc_threshold cfg \<le> offset + k"
    | (inc) "risk_evaluate cfg ?ev = Inr (Some (risk_increment (rc_state_key cfg) (k' - k)))" "a = ALLOW"
    | (none) "risk_evaluate cfg ?ev = Inr None" "a = ALLOW" "k' = k"
  proof (cases "\<exists>t. e = RiskCall t \<and> is_guarded t (rc_guarded_tools cfg) \<and> rc_threshold cfg \<le> offset + k")
    case True
    then show ?thesis using esc by blast
  next
    case False
    then have "a = ALLOW" using assms(3) by (cases e) (auto split: if_splits)
    show ?thesis
    proof (cases "case e of RiskCall t \<Rightarrow> 0 < points_for_tool t (rc_tool_points cfg)
                  | RiskResult v \<Rightarrow> rc_sensitive_labels cfg \<noteq> [] \<and> matched_points cfg v \<noteq> [] | RiskOther \<Rightarrow> False")
      case True
      from r [unfolded if_not_P [OF False] if_P [OF True]] \<open>a = ALLOW\<close> show ?thesis by (rule inc)
    next
      case no: False
      then have "k' = k" using assms(3) False by (cases e) (auto simp: label_points_def split: if_splits)
      from r [unfolded if_not_P [OF False] if_not_P [OF no]] \<open>a = ALLOW\<close> this show ?thesis by (rule none)
    qed
  qed
  then show ?thesis
  proof cases
    case esc
    then have "a = risk_action cfg" "k' = k" using assms(3) by auto
    moreover have "risk_evaluate cfg ?ev = Inr (Some (escalation cfg (offset + k) t))" using r esc by simp
    moreover obtain why where "coerce_to_policy_result (ps_name spec) (RDict (escalation cfg (offset + k) t)) =
        Inr ((policy_result_of (risk_action cfg))\<lparr>pr_reason := why\<rparr>)" using escalation_result [OF assms(4)] by blast
    ultimately show ?thesis
      using d [of "Some (escalation cfg (offset + k) t)" "(policy_result_of (risk_action cfg))\<lparr>pr_reason := why\<rparr>"]
      by (intro exI [of _ why] exI [of _ None]) (simp add: policy_result_of_def)
  next
    case inc
    then show ?thesis using d [OF inc(1)] increment_result [of "ps_name spec"]
      by (intro exI [of _ PNone] exI [of _ "Some [increment_update (rc_state_key cfg) (k' - k)]"]) (simp add: policy_result_of_def)
  next
    case none
    then show ?thesis using d [OF none(1)]
      by (intro exI [of _ PNone] exI [of _ None]) (simp add: policy_result_of_def coerce_to_policy_result_def)
  qed
qed

lemma apply_increment:
  assumes "score_of cfg en = PInt k" and "risk_ok cfg"
  shows "\<exists>en'. apply_state_updates today en [increment_update (rc_state_key cfg) n] = (Inr (), en') \<and> score_of cfg en' = PInt (k + n) \<and>
    en_policies en' = en_policies en"
proof -
  have "rc_state_key cfg \<noteq> USER_DAILY_ASK_APPROVED_STATE_KEY" "\<not> root_routed en (increment_update (rc_state_key cfg) n)"
    using assms(2) by (simp_all add: risk_ok_def root_routed_def increment_update_def)
  moreover have "apply_one (en_session_state en) (increment_update (rc_state_key cfg) n) =
      Inr (dset (en_session_state en) (rc_state_key cfg) (PInt (k + n)))"
    using assms(1) by (simp add: apply_one.simps increment_update_def score_of_def py_add_int)
  ultimately show ?thesis
    by (simp add: apply_state_updates_def score_of_def pget_default_def) (simp add: increment_update_def)
qed

lemma risk_step:
  assumes "en_policies en = [risk_policy spec cfg s0]" and "unconditional spec" and "risk_ok cfg"
    and "shows_event cfg offset ctx e" and "score_of cfg en = PInt k" and "ledger_step cfg offset k e = (a, k')"
  shows "\<exists>r en'. evaluate_composed today en ctx False = (Inr r, en') \<and> pr_action r = a \<and>
    en_policies en' = [risk_policy spec cfg s0] \<and> score_of cfg en' = PInt k'"
proof -
  let ?p = "risk_policy spec cfg s0"
  let ?en1 = "en\<lparr>en_policies := [?p]\<rparr>"
  obtain why ups where v: "dispatch_policy ?p (prepare_ctx en ctx) (context_bundle en) =
      ((policy_result_of a)\<lparr>pr_reason := why, pr_state_updates := ups\<rparr>, ?p)"
    and ups: "ups = None \<and> k' = k \<or> a = ALLOW \<and> ups = Some [increment_update (rc_state_key cfg) (k' - k)]"
    using risk_dispatch [OF assms(4-6,3), of spec s0 "context_bundle en"] by blast
  have vs: "verdicts en ctx = [(spec, (policy_result_of a)\<lparr>pr_reason := why, pr_state_updates := ups\<rparr>)]" "policies_after en ctx = [?p]"
    using evaluate_single [OF assms(1) _ v] assms(2) by simp_all
  have c1: "score_of cfg ?en1 = PInt k" using assms(5) by (simp add: score_of_def)
  obtain en' where ap: "apply_state_updates today ?en1 [increment_update (rc_state_key cfg) (k' - k)] = (Inr (), en')"
    "score_of cfg en' = PInt k'" "en_policies en' = [?p]"
    using apply_increment [OF c1 assms(3), of today "k' - k"] by auto
  show ?thesis
    using ups
  proof
    assume n: "ups = None \<and> k' = k"
    then show ?thesis using vs c1
      by (cases a) (simp_all add: evaluate_composed_spec compose_effects_def composed_result_def policy_result_of_def
          label_writes_def filter_writable_labels_def state_writes_def)
  next
    assume "a = ALLOW \<and> ups = Some [increment_update (rc_state_key cfg) (k' - k)]"
    then show ?thesis using vs ap
      by (simp add: evaluate_composed_spec compose_effects_def composed_result_def policy_result_of_def
          label_writes_def filter_writable_labels_def state_writes_def)
  qed
qed

lemma risk_run:
  assumes "list_all2 (shows_event cfg offset) ctxs evs" and "en_policies en = [risk_policy spec cfg s0]" and "unconditional spec"
    and "risk_ok cfg" and "score_of cfg en = PInt k"
  shows "fst (run_calls today en ctxs) = map Some (fst (ledger_run cfg offset k evs)) \<and>
    score_of cfg (snd (run_calls today en ctxs)) = PInt (snd (ledger_run cfg offset k evs))"
  using assms
proof (induction ctxs evs arbitrary: en k rule: list_all2_induct)
  case Nil
  then show ?case by simp
next
  case (Cons ctx ctxs e evs)
  obtain a k1 where l: "ledger_step cfg offset k e = (a, k1)" by fastforce
  obtain r en1 where e1: "evaluate_composed today en ctx False = (Inr r, en1)" "pr_action r = a"
    "en_policies en1 = [risk_policy spec cfg s0]" "score_of cfg en1 = PInt k1"
    using risk_step [OF Cons.prems(1-3) Cons.hyps(1) Cons.prems(4) l] by blast
  from Cons.IH [OF e1(3) Cons.prems(2,3) e1(4)] e1 l show ?case by (simp add: split_beta)
qed


definition fx_risk :: risk_cfg where
  "fx_risk =
     \<lparr>rc_threshold = 15, rc_tool_points = [(''web_search'', 10)], rc_sensitive_labels = [(''secret'', 5)],
      rc_guarded_tools = [''send''], rc_escalate_action = ''ASK'', rc_initial_scores_by_actor = [], rc_state_key = DEFAULT_RISK_STATE_KEY,
      rc_label_keys = DEFAULT_LABEL_KEYS, rc_reason = ''r''\<rparr>"

definition fx_call :: "string \<Rightarrow> evaluation_context" where
  "fx_call t = (fx_ctx TOOL_CALL)\<lparr>ec_content := PDict [(''name'', PStr t)]\<rparr>"

definition fx_result :: "pyval \<Rightarrow> evaluation_context" where
  "fx_result v = (fx_ctx TOOL_RESULT)\<lparr>ec_content := v\<rparr>"

definition fx_secret :: pyval where
  "fx_secret = PDict [(''classification'', PStr ''Secret'')]"

lemma fx_shows:
  "list_all2 (shows_event fx_risk 0) [fx_call ''send'', fx_call ''mcp__web_search'', fx_result fx_secret, fx_call ''send'']
     [RiskCall ''send'', RiskCall ''mcp__web_search'', RiskResult fx_secret, RiskCall ''send'']"
  by (simp add: shows_event_def fx_call_def fx_result_def fx_ctx_def run_as_of_def pget_def fx_risk_def)

lemma fx_risk_engine:
  "risk_ok fx_risk" "unconditional (fx_spec ''risk'')"
  "dget (en_session_state (fx_engine [risk_policy (fx_spec ''risk'') fx_risk ()] None ''root'')) (rc_state_key fx_risk) = None"
  by (simp_all add: risk_ok_def fx_risk_def DEFAULT_RISK_STATE_KEY_def USER_DAILY_ASK_APPROVED_STATE_KEY_def
      SESSION_COST_ASK_APPROVED_STATE_KEY_def SESSION_COST_UNPRICED_APPROVED_KEY_def unconditional_def fx_spec_def fx_engine_def init_engine_def)

lemma fx_ledger:
  "fst (ledger_run fx_risk 0 0 [RiskCall ''send'', RiskCall ''mcp__web_search'', RiskResult fx_secret, RiskCall ''send'']) =
   [ALLOW, ALLOW, ALLOW, ASK]"
  by code_simp


section \<open>Once gated, always gated\<close>

lemma in_map_filter: "y \<in> set (List.map_filter f xs) \<longleftrightarrow> (\<exists>x \<in> set xs. f x = Some y)"
  by (induction xs) (auto simp: map_filter_simps split: option.splits)

lemma ledger_mono:
  assumes "\<forall>(l, n) \<in> set (rc_sensitive_labels cfg). 0 \<le> n"
  shows "k \<le> snd (ledger_step cfg offset k e)"
proof -
  have nonneg: "0 \<le> n" if m: "n \<in> set (matched_points cfg v)" for n v
  proof -
    obtain l where "dget (rc_sensitive_labels cfg) l = Some n"
      using m by (auto simp: matched_points_def in_map_filter)
    then show ?thesis using assms by (auto dest: map_of_SomeD)
  qed
  have "0 \<le> label_points cfg v" for v
  proof (cases "matched_points cfg v")
    case (Cons n ns)
    then have "0 \<le> n" using nonneg [of n v] by simp
    moreover have "n \<le> Max (set (matched_points cfg v))" using Cons by (intro Max_ge) auto
    ultimately show ?thesis by (simp add: label_points_def)
  qed (simp add: label_points_def)
  then show ?thesis by (cases e) auto
qed

lemma ledger_run_append:
  "ledger_run cfg offset k (xs @ ys) =
   (fst (ledger_run cfg offset k xs) @ fst (ledger_run cfg offset (snd (ledger_run cfg offset k xs)) ys),
    snd (ledger_run cfg offset (snd (ledger_run cfg offset k xs)) ys))"
  by (induction xs arbitrary: k) (simp_all add: split_beta)

lemma ledger_run_mono:
  assumes "\<forall>(l, n) \<in> set (rc_sensitive_labels cfg). 0 \<le> n"
  shows "k \<le> snd (ledger_run cfg offset k evs)"
proof (induction evs arbitrary: k)
  case (Cons e evs)
  have "k \<le> snd (ledger_step cfg offset k e)" by (rule ledger_mono [OF assms])
  also have "\<dots> \<le> snd (ledger_run cfg offset (snd (ledger_step cfg offset k e)) evs)" by (rule Cons.IH)
  finally show ?case by (simp add: split_beta)
qed simp

lemma ledger_length: "length (fst (ledger_run cfg offset k evs)) = length evs"
  by (induction evs arbitrary: k) (simp_all add: split_beta)

lemma risk_action_not_allow [simp]: "risk_action cfg \<noteq> ALLOW"
  by (simp add: risk_action_def)

lemma ledger_last:
  "fst (ledger_run cfg offset k (xs @ e # ys)) ! length xs = fst (ledger_step cfg offset (snd (ledger_run cfg offset k xs)) e)"
  by (simp add: ledger_run_append nth_append ledger_length split_beta)

text \<open>
  When no label is configured with negative points, the gate does not reopen: in a session where a guarded call was
  escalated, every later guarded call is escalated too, whatever happens in between.
\<close>

theorem risk_gate_stays_closed:
  assumes "list_all2 (shows_event cfg offset) ctxs (xs @ RiskCall t # ys @ RiskCall t' # zs)"
    and "en_policies en = [risk_policy spec cfg s0]" and "unconditional spec" and "risk_ok cfg"
    and "dget (en_session_state en) (rc_state_key cfg) = None" and "\<forall>(l, n) \<in> set (rc_sensitive_labels cfg). 0 \<le> n"
    and "fst (run_calls today en ctxs) ! length xs \<noteq> Some ALLOW" and "is_guarded t' (rc_guarded_tools cfg)"
  shows "fst (run_calls today en ctxs) ! (length xs + Suc (length ys)) = Some (risk_action cfg)"
proof -
  let ?evs = "xs @ RiskCall t # ys @ RiskCall t' # zs"
  let ?k = "snd (ledger_run cfg offset 0 xs)"
  let ?k' = "snd (ledger_run cfg offset 0 (xs @ RiskCall t # ys))"
  have run: "fst (run_calls today en ctxs) = map Some (fst (ledger_run cfg offset 0 ?evs))"
    using risk_run [OF assms(1-4), of 0 today] assms(5) by (simp add: score_of_def pget_default_def)
  have "fst (ledger_run cfg offset 0 ?evs) ! length xs = fst (ledger_step cfg offset ?k (RiskCall t))" by (rule ledger_last)
  then have "fst (ledger_step cfg offset ?k (RiskCall t)) \<noteq> ALLOW"
    using assms(7) by (simp add: run nth_map ledger_length)
  then have over: "rc_threshold cfg \<le> offset + ?k" by (auto split: if_splits)
  have "?k \<le> ?k'"
    using ledger_run_mono [OF assms(6), of ?k offset "RiskCall t # ys"] by (simp add: ledger_run_append del: ledger_run.simps)
  then have "fst (ledger_step cfg offset ?k' (RiskCall t')) = risk_action cfg" using over assms(8) by simp
  moreover have "fst (ledger_run cfg offset 0 ((xs @ RiskCall t # ys) @ RiskCall t' # zs)) ! length (xs @ RiskCall t # ys) =
      fst (ledger_step cfg offset ?k' (RiskCall t'))" by (rule ledger_last)
  ultimately show ?thesis by (simp add: run nth_map ledger_length)
qed

lemma fx_shows_twice:
  "list_all2 (shows_event fx_risk 0) [fx_call ''web_search'', fx_call ''web_search'', fx_call ''send'', fx_call ''ls'', fx_call ''send'']
     ([RiskCall ''web_search'', RiskCall ''web_search''] @ RiskCall ''send'' # [RiskCall ''ls''] @ RiskCall ''send'' # [])"
  by (simp add: shows_event_def fx_call_def fx_ctx_def run_as_of_def pget_def fx_risk_def)

lemma fx_third_not_allowed:
  "fst (run_calls ''d'' (fx_engine [risk_policy (fx_spec ''risk'') fx_risk ()] None ''root'')
      [fx_call ''web_search'', fx_call ''web_search'', fx_call ''send'', fx_call ''ls'', fx_call ''send'']) ! 2 \<noteq> Some ALLOW"
proof -
  have "fst (ledger_run fx_risk 0 0 ([RiskCall ''web_search'', RiskCall ''web_search''] @ RiskCall ''send'' # [RiskCall ''ls''] @ RiskCall ''send'' # [])) =
      [ALLOW, ALLOW, ASK, ALLOW, ASK]" by code_simp
  then show ?thesis
    using risk_run [OF fx_shows_twice _ fx_risk_engine(2,1), of "fx_engine [risk_policy (fx_spec ''risk'') fx_risk ()] None ''root''" "()" 0 "''d''"]
      fx_risk_engine(3) by (simp add: score_of_def pget_default_def)
qed

theorem risk_gate_stays_closed_witness:
  "fst (run_calls ''d'' (fx_engine [risk_policy (fx_spec ''risk'') fx_risk ()] None ''root'')
      [fx_call ''web_search'', fx_call ''web_search'', fx_call ''send'', fx_call ''ls'', fx_call ''send'']) ! 4 = Some ASK"
  using risk_gate_stays_closed [OF fx_shows_twice _ fx_risk_engine(2,1,3), of "()" "''d''"] fx_third_not_allowed
  by (simp add: fx_risk_def is_guarded_def tool_matches_def risk_action_def numeral_2_eq_2 numeral_eq_Suc)

end
