(* ===== verification/Retry.thy ===== *)
theory Retry
  imports Regex Json "HOL-Library.Monad_Syntax"
begin

text \<open>
  Retries: the policy object (\<^verbatim>\<open>RetryPolicy\<close> of \<^verbatim>\<open>spec/types.py\<close>) with its adapters, the
  classification of LLM failures and the synchronous loop (\<^verbatim>\<open>runtime/llm_retry.py\<close>), the loop of the LLM client
  (\<^verbatim>\<open>llms/client.py\<close>) and the tool loop (\<^verbatim>\<open>runtime/tool_retry.py\<close>). The outcome of the \<open>i\<close>-th call is \<open>f i\<close>, the
  \<open>i\<close>-th draw of \<^verbatim>\<open>random.uniform(0.5, 1.5)\<close> is \<open>u i\<close>; emitted events and slept delays are logs. The
  locale \<open>retry_loop\<close> is what the three loops have in common.
\<close>

section \<open>The policy\<close>

record retry_policy =
  rp_max_retries :: int
  rp_backoff_base_s :: rat
  rp_backoff_max_s :: rat
  rp_jitter :: bool
  rp_timeout_per_request_s :: "rat option"
  rp_retryable_status_codes :: "int list"

definition retry_defaults :: retry_policy where
  "retry_defaults =
     \<lparr>rp_max_retries = 7, rp_backoff_base_s = 2, rp_backoff_max_s = 60, rp_jitter = True,
      rp_timeout_per_request_s = Some 120, rp_retryable_status_codes = [429, 500, 502, 503, 504]\<rparr>"

definition retry_post_init :: "retry_policy \<Rightarrow> retry_policy res" where
  "retry_post_init p =
     (if \<not> (0 \<le> rp_max_retries p \<and> rp_max_retries p \<le> 20) then
        Inl (ValueError (''max_retries must be 0..20, got '' @ str_of_int (rp_max_retries p)))
      else if rp_backoff_base_s p < 1 / 1000 then
        Inl (ValueError (''backoff_base_s must be > 0, got '' @ repr_float (rp_backoff_base_s p)))
      else if rp_backoff_max_s p < 1 / 1000 then
        Inl (ValueError (''backoff_max_s must be > 0, got '' @ repr_float (rp_backoff_max_s p)))
      else (case rp_timeout_per_request_s p of
              Some t \<Rightarrow>
                if t \<le> 0 then Inl (ValueError (''timeout_per_request_s must be > 0 or None, got '' @ repr_float t)) else Inr p
            | None \<Rightarrow> Inr p))"

text \<open>\<^verbatim>\<open>dataclasses.asdict\<close>: the value whose JSON text is the payload.\<close>

definition retry_to_json :: "retry_policy \<Rightarrow> pyval" where
  "retry_to_json p =
     PDict [(''max_retries'', PInt (rp_max_retries p)), (''backoff_base_s'', PFloat (rp_backoff_base_s p)),
       (''backoff_max_s'', PFloat (rp_backoff_max_s p)), (''jitter'', PBool (rp_jitter p)),
       (''timeout_per_request_s'', (case rp_timeout_per_request_s p of None \<Rightarrow> PNone | Some t \<Rightarrow> PFloat t)),
       (''retryable_status_codes'', PList (map PInt (rp_retryable_status_codes p)))]"

text \<open>
  A field of the decoded payload, or the default. Values of another type than the field's are
  stored by the code without a check; such payloads are outside the model (\<open>None\<close>).
\<close>

definition int_field :: "pydict \<Rightarrow> string \<Rightarrow> int \<Rightarrow> int option" where
  "int_field d k def = (case dget d k of None \<Rightarrow> Some def | Some (PInt i) \<Rightarrow> Some i | Some v \<Rightarrow> None)"

definition float_field :: "pydict \<Rightarrow> string \<Rightarrow> rat \<Rightarrow> rat option" where
  "float_field d k def =
     (case dget d k of None \<Rightarrow> Some def | Some (PInt i) \<Rightarrow> Some (of_int i) | Some (PFloat r) \<Rightarrow> Some r | Some v \<Rightarrow> None)"

definition bool_field :: "pydict \<Rightarrow> string \<Rightarrow> bool \<Rightarrow> bool option" where
  "bool_field d k def = (case dget d k of None \<Rightarrow> Some def | Some (PBool b) \<Rightarrow> Some b | Some v \<Rightarrow> None)"

definition opt_float_field :: "pydict \<Rightarrow> string \<Rightarrow> rat option \<Rightarrow> rat option option" where
  "opt_float_field d k def =
     (case dget d k of
        None \<Rightarrow> Some def | Some PNone \<Rightarrow> Some None | Some (PInt i) \<Rightarrow> Some (Some (of_int i))
      | Some (PFloat r) \<Rightarrow> Some (Some r) | Some v \<Rightarrow> None)"

fun int_list :: "pyval list \<Rightarrow> int list option" where
  "int_list [] = Some []"
| "int_list (PInt i # vs) = map_option (Cons i) (int_list vs)"
| "int_list (v # vs) = None"

definition retry_from_decoded :: "pyval \<Rightarrow> retry_policy res option" where
  "retry_from_decoded decoded =
     (case decoded of
        PDict d \<Rightarrow>
          (case dget d ''retryable_status_codes'' of
             Some v \<Rightarrow> if is_list v then (case v of PList cs \<Rightarrow> map_option Inr (int_list cs) | _ \<Rightarrow> None)
               else Some (Inl (ValueError (''RetryPolicy.from_json: retryable_status_codes must be a list, got '' @ type_name v)))
           | None \<Rightarrow> Some (Inr (rp_retryable_status_codes retry_defaults)))
          \<bind> (\<lambda>codes.
            (case codes of
               Inl e \<Rightarrow> Some (Inl e)
             | Inr cs \<Rightarrow>
                 int_field d ''max_retries'' (rp_max_retries retry_defaults) \<bind> (\<lambda>n.
                 float_field d ''backoff_base_s'' (rp_backoff_base_s retry_defaults) \<bind> (\<lambda>b.
                 float_field d ''backoff_max_s'' (rp_backoff_max_s retry_defaults) \<bind> (\<lambda>m.
                 bool_field d ''jitter'' (rp_jitter retry_defaults) \<bind> (\<lambda>j.
                 opt_float_field d ''timeout_per_request_s'' (rp_timeout_per_request_s retry_defaults) \<bind> (\<lambda>t.
                   Some (retry_post_init \<lparr>rp_max_retries = n, rp_backoff_base_s = b, rp_backoff_max_s = m, rp_jitter = j,
                     rp_timeout_per_request_s = t, rp_retryable_status_codes = cs\<rparr>))))))))
      | v \<Rightarrow> Some (Inl (ValueError (''RetryPolicy.from_json: expected dict, got '' @ type_name v))))"

definition retry_from_json :: "string \<Rightarrow> retry_policy res option" where
  "retry_from_json payload =
     (case py_json_loads payload of
        None \<Rightarrow> Some (Inl (ValueError ''RetryPolicy.from_json: invalid JSON''))
      | Some v \<Rightarrow> retry_from_decoded v)"

text \<open>The adapters for SDK clients and subprocesses; \<^verbatim>\<open>int\<close> of a float truncates.\<close>

definition trunc :: "rat \<Rightarrow> int" where
  "trunc r = (if r < 0 then \<lceil>r\<rceil> else \<lfloor>r\<rfloor>)"

definition sdk_kwargs :: "retry_policy \<Rightarrow> pydict" where
  "sdk_kwargs p =
     (''max_retries'', PInt (rp_max_retries p)) #
     (case rp_timeout_per_request_s p of None \<Rightarrow> [] | Some t \<Rightarrow> [(''timeout'', PFloat t)])"

definition claude_cli_env :: "retry_policy \<Rightarrow> string dict" where
  "claude_cli_env p =
     (''ANTHROPIC_MAX_RETRIES'', str_of_int (rp_max_retries p)) #
     (case rp_timeout_per_request_s p of None \<Rightarrow> [] | Some t \<Rightarrow> [(''ANTHROPIC_REQUEST_TIMEOUT_SECONDS'', str_of_int (trunc t))])"

definition codex_cli_env :: "retry_policy \<Rightarrow> string dict" where
  "codex_cli_env p =
     (''OPENAI_MAX_RETRIES'', str_of_int (rp_max_retries p)) #
     (case rp_timeout_per_request_s p of None \<Rightarrow> [] | Some t \<Rightarrow> [(''OPENAI_TIMEOUT'', str_of_int (trunc t))])"

definition pi_settings :: "retry_policy \<Rightarrow> pydict" where
  "pi_settings p =
     [(''retry'', PDict [(''enabled'', PBool (0 < rp_max_retries p)), (''maxRetries'', PInt (rp_max_retries p)),
        (''baseDelayMs'', PInt (trunc (rp_backoff_base_s p * 1000))), (''maxDelayMs'', PInt (trunc (rp_backoff_max_s p * 1000)))])]"

definition backoff_delay :: "retry_policy \<Rightarrow> int \<Rightarrow> rat option \<Rightarrow> rat \<Rightarrow> rat" where
  "backoff_delay p retry_index retry_after_s uniform =
     (let delay = rp_backoff_base_s p * (2 powi (retry_index - 1));
          delay1 = (case retry_after_s of Some r \<Rightarrow> max delay r | None \<Rightarrow> delay);
          delay2 = min delay1 (rp_backoff_max_s p)
      in if rp_jitter p then delay2 * uniform else delay2)"

definition compute_backoff_delay :: "nat \<Rightarrow> rat \<Rightarrow> rat \<Rightarrow> rat \<Rightarrow> rat" where
  "compute_backoff_delay attempt_index backoff_base_s backoff_max_s uniform =
     min (backoff_base_s * 2 ^ attempt_index) backoff_max_s * uniform"

section \<open>Failures of an LLM call\<close>

record llm_error_detail =
  ld_provider :: "string option"
  ld_status_code :: "int option"
  ld_response_body :: "string option"

definition no_detail :: llm_error_detail where
  "no_detail = \<lparr>ld_provider = None, ld_status_code = None, ld_response_body = None\<rparr>"

datatype llm_error =
    RetryableLLMError string string "llm_error_detail option"
  | PermanentLLMError string string "llm_error_detail option"
  | ContextWindowExceededError string string "llm_error_detail option" int int

text \<open>
  What a call raises: an httpx timeout, an HTTP status error with its body (\<open>None\<close> when reading it raises), a
  connection or network error, one of the LLM errors, anything else (with its text).
\<close>

datatype call_exn =
    HttpTimeout string
  | HttpStatus int "string option"
  | ConnectionFailure string
  | LlmRaised llm_error
  | OtherExn string

fun error_code :: "llm_error \<Rightarrow> string" where
  "error_code (RetryableLLMError m c d) = c"
| "error_code (PermanentLLMError m c d) = c"
| "error_code (ContextWindowExceededError m c d x y) = c"

fun error_message :: "llm_error \<Rightarrow> string" where
  "error_message (RetryableLLMError m c d) = m"
| "error_message (PermanentLLMError m c d) = m"
| "error_message (ContextWindowExceededError m c d x y) = m"

fun error_detail :: "llm_error \<Rightarrow> llm_error_detail option" where
  "error_detail (RetryableLLMError m c d) = d"
| "error_detail (PermanentLLMError m c d) = d"
| "error_detail (ContextWindowExceededError m c d x y) = d"

text \<open>\<^verbatim>\<open>isinstance(e, PermanentLLMError)\<close>: the context error is a subclass.\<close>

fun is_permanent :: "llm_error \<Rightarrow> bool" where
  "is_permanent (RetryableLLMError m c d) = False"
| "is_permanent (PermanentLLMError m c d) = True"
| "is_permanent (ContextWindowExceededError m c d x y) = True"

record overflow_tokens =
  ot_max_context_tokens :: int
  ot_actual_tokens :: int

definition rx_digits :: "nat \<Rightarrow> rx" where
  "rx_digits n = Grp n (rx_plus rx_digit)"

definition OPENAI_MAX_RE :: rx where
  "OPENAI_MAX_RE = rx_seq [rx_str ''maximum context length is '', rx_digits 1, rx_str '' tokens'']"

definition OPENAI_ACTUAL_RE :: rx where
  "OPENAI_ACTUAL_RE = rx_seq [rx_str ''you requested '', rx_digits 1, rx_str '' tokens'']"

definition ANTHROPIC_SUM_RE :: rx where
  "ANTHROPIC_SUM_RE =
     rx_seq [rx_digits 1, Star rx_space, rx_char (CHR ''+''), Star rx_space, rx_digits 2, Star rx_space, rx_char (CHR ''>''),
       Star rx_space, rx_digits 3]"

definition ANTHROPIC_LONG_RE :: rx where
  "ANTHROPIC_LONG_RE =
     rx_seq [rx_str ''prompt is too long:'', Star rx_space, rx_digits 1, Star rx_space, rx_str ''tokens'', Star rx_space,
       rx_char (CHR ''>''), Star rx_space, rx_digits 2, Star rx_space, rx_str ''maximum'']"

definition GEMINI_RE :: rx where
  "GEMINI_RE =
     rx_seq [rx_str ''input token count ('', rx_digits 1, rx_str '') exceeds the maximum number of tokens allowed ('', rx_digits 2,
       rx_char (CHR '')'')]"

definition group_int :: "nat \<Rightarrow> rx_result \<Rightarrow> int" where
  "group_int n m = int (digits_val (rx_group n m))"

text \<open>The OpenAI body: a non-string message reaches \<^verbatim>\<open>re.search\<close>, whose type error is not caught.\<close>

definition openai_overflow :: "string \<Rightarrow> overflow_tokens option res" where
  "openai_overflow body =
     (case py_json_loads body of
        Some (PDict parsed) \<Rightarrow>
          (case pget_default parsed ''error'' (PDict []) of
             PDict error_obj \<Rightarrow>
               if pget error_obj ''code'' = PStr ''context_length_exceeded'' then
                 (case pget_default error_obj ''message'' (PStr []) of
                    PStr msg \<Rightarrow>
                      (case (rx_search OPENAI_MAX_RE msg, rx_search OPENAI_ACTUAL_RE msg) of
                         (Some m, Some a) \<Rightarrow>
                           Inr (Some \<lparr>ot_max_context_tokens = group_int 1 m, ot_actual_tokens = group_int 1 a\<rparr>)
                       | _ \<Rightarrow> Inr None)
                  | v \<Rightarrow> Inl (TypeError (''expected string or bytes-like object, got '' @ [CHR 39] @ type_name v @ [CHR 39])))
               else Inr None
           | _ \<Rightarrow> Inr None)
      | _ \<Rightarrow> Inr None)"

definition detect_context_overflow :: "string \<Rightarrow> overflow_tokens option res" where
  "detect_context_overflow body =
     bind_res (openai_overflow body) (\<lambda>r.
       case r of
         Some t \<Rightarrow> Inr (Some t)
       | None \<Rightarrow>
           (case rx_search ANTHROPIC_SUM_RE body of
              Some m \<Rightarrow> Inr (Some \<lparr>ot_max_context_tokens = group_int 3 m, ot_actual_tokens = group_int 1 m + group_int 2 m\<rparr>)
            | None \<Rightarrow>
                (case rx_search ANTHROPIC_LONG_RE body of
                   Some m \<Rightarrow> Inr (Some \<lparr>ot_max_context_tokens = group_int 2 m, ot_actual_tokens = group_int 1 m\<rparr>)
                 | None \<Rightarrow>
                     (case rx_search GEMINI_RE body of
                        Some m \<Rightarrow> Inr (Some \<lparr>ot_max_context_tokens = group_int 2 m, ot_actual_tokens = group_int 1 m\<rparr>)
                      | None \<Rightarrow> Inr None))))"

definition safe_response_text :: "string option \<Rightarrow> string" where
  "safe_response_text t =
     (case t of
        None \<Rightarrow> ''<unreadable response body>''
      | Some s \<Rightarrow> if 1000 < length s then take 1000 s @ ''...'' else s)"

definition classify_http_error :: "int \<Rightarrow> string option \<Rightarrow> int list \<Rightarrow> llm_error res" where
  "classify_http_error status response codes =
     (let body = safe_response_text response;
          detail = \<lparr>ld_provider = None, ld_status_code = Some status, ld_response_body = Some body\<rparr>;
          message = ''LLM returned HTTP '' @ str_of_int status @ '': '' @ body;
          generic = (if status \<in> set codes then RetryableLLMError message (str_of_int status) (Some detail)
                     else PermanentLLMError message (str_of_int status) (Some detail))
      in if status = 400 then
           bind_res (detect_context_overflow body) (\<lambda>overflow.
             case overflow of
               Some t \<Rightarrow>
                 Inr (ContextWindowExceededError
                   (''Context window exceeded: '' @ str_of_int (ot_actual_tokens t) @ '' tokens > '' @
                     str_of_int (ot_max_context_tokens t) @ '' max'')
                   ''context_length_exceeded'' (Some detail) (ot_max_context_tokens t) (ot_actual_tokens t))
             | None \<Rightarrow> Inr generic)
         else Inr generic)"

fun classify_llm_error :: "call_exn \<Rightarrow> int list \<Rightarrow> llm_error res" where
  "classify_llm_error (HttpTimeout t) codes =
     Inr (RetryableLLMError (''LLM request timed out: '' @ t) ''timeout'' (Some no_detail))"
| "classify_llm_error (HttpStatus status body) codes = classify_http_error status body codes"
| "classify_llm_error (ConnectionFailure t) codes =
     Inr (RetryableLLMError (''LLM call failed (transient): '' @ t) ''connection_error'' (Some no_detail))"
| "classify_llm_error (LlmRaised e) codes =
     Inr (PermanentLLMError (''LLM call failed: '' @ error_message e) ''unknown_error'' (Some no_detail))"
| "classify_llm_error (OtherExn t) codes =
     Inr (PermanentLLMError (''LLM call failed: '' @ t) ''unknown_error'' (Some no_detail))"

definition detail_to_dict :: "llm_error_detail option \<Rightarrow> pydict option" where
  "detail_to_dict detail =
     (case detail of
        None \<Rightarrow> None
      | Some d \<Rightarrow>
          (let r = (case ld_provider d of Some x \<Rightarrow> [(''provider'', PStr x)] | None \<Rightarrow> []) @
                   (case ld_status_code d of Some x \<Rightarrow> [(''status_code'', PInt x)] | None \<Rightarrow> []) @
                   (case ld_response_body d of Some x \<Rightarrow> [(''response_body'', PStr x)] | None \<Rightarrow> [])
           in if r = [] then None else Some r))"

section \<open>The loops\<close>

record retry_log =
  rl_events :: "pydict list"
  rl_slept :: "rat list"

definition round2 :: "rat \<Rightarrow> rat" where
  "round2 x = of_int (round_half_even (x * 100)) / 100"

definition emit_retry_and_sleep :: "(nat \<Rightarrow> rat) \<Rightarrow> nat \<Rightarrow> retry_policy \<Rightarrow> llm_error \<Rightarrow> retry_log \<Rightarrow> retry_log" where
  "emit_retry_and_sleep u attempt p err w =
     (let delay = backoff_delay p (int attempt + 1) None (u attempt)
      in \<lparr>rl_events = rl_events w @
            [[(''type'', PStr ''response.retry''), (''source'', PStr ''llm''), (''attempt'', PInt (int attempt + 2)),
              (''max_attempts'', PInt (rp_max_retries p + 1)), (''delay_seconds'', PFloat (round2 delay)),
              (''error'', PDict [(''code'', PStr (error_code err)), (''message'', PStr (error_message err)),
                 (''detail'', (case detail_to_dict (error_detail err) of None \<Rightarrow> PNone | Some d \<Rightarrow> PDict d))])]],
          rl_slept = rl_slept w @ [delay]\<rparr>)"

text \<open>How a call ends for its caller: an LLM error, an exception of the classifier, the failed assertion.\<close>

datatype retry_failure = LlmFailure llm_error | Crash py_exn | AssertionFailed

text \<open>The loop over \<open>range(total_tries)\<close>: attempts left, attempt number, last error.\<close>

fun execute_loop ::
    "(nat \<Rightarrow> call_exn + 'a) \<Rightarrow> retry_policy \<Rightarrow> (nat \<Rightarrow> rat) \<Rightarrow> nat \<Rightarrow> nat \<Rightarrow> llm_error option \<Rightarrow> retry_log \<Rightarrow>
     (retry_failure + 'a) \<times> nat \<times> retry_log" where
  "execute_loop f p u 0 i last_error w =
     (Inl (case last_error of Some e \<Rightarrow> LlmFailure e | None \<Rightarrow> AssertionFailed), i, w)"
| "execute_loop f p u (Suc n) i last_error w =
     (case f i of
        Inr x \<Rightarrow> (Inr x, Suc i, w)
      | Inl (LlmRaised e) \<Rightarrow>
          (if is_permanent e then (Inl (LlmFailure e), Suc i, w)
           else execute_loop f p u n (Suc i) (Some e) (if n = 0 then w else emit_retry_and_sleep u i p e w))
      | Inl exc \<Rightarrow>
          (case classify_llm_error exc (rp_retryable_status_codes p) of
             Inl x \<Rightarrow> (Inl (Crash x), Suc i, w)
           | Inr e \<Rightarrow>
               (if is_permanent e then (Inl (LlmFailure e), Suc i, w)
                else execute_loop f p u n (Suc i) (Some e) (if n = 0 then w else emit_retry_and_sleep u i p e w))))"

definition execute_with_retry ::
    "(nat \<Rightarrow> call_exn + 'a) \<Rightarrow> retry_policy \<Rightarrow> (nat \<Rightarrow> rat) \<Rightarrow> (retry_failure + 'a) \<times> nat \<times> retry_log" where
  "execute_with_retry f p u =
     execute_loop f p u (nat (rp_max_retries p + 1)) 0 None \<lparr>rl_events = [], rl_slept = []\<rparr>"

text \<open>The client's loop raises an already classified error at once, and only sleeps.\<close>

definition backoff_sleep :: "(nat \<Rightarrow> rat) \<Rightarrow> nat \<Rightarrow> retry_policy \<Rightarrow> retry_log \<Rightarrow> retry_log" where
  "backoff_sleep u attempt p w = w\<lparr>rl_slept := rl_slept w @ [backoff_delay p (int attempt + 1) None (u attempt)]\<rparr>"

fun client_loop ::
    "(nat \<Rightarrow> call_exn + 'a) \<Rightarrow> retry_policy \<Rightarrow> (nat \<Rightarrow> rat) \<Rightarrow> nat \<Rightarrow> nat \<Rightarrow> llm_error option \<Rightarrow> retry_log \<Rightarrow>
     (retry_failure + 'a) \<times> nat \<times> retry_log" where
  "client_loop f p u 0 i last_error w =
     (Inl (case last_error of Some e \<Rightarrow> LlmFailure e | None \<Rightarrow> AssertionFailed), i, w)"
| "client_loop f p u (Suc n) i last_error w =
     (case f i of
        Inr x \<Rightarrow> (Inr x, Suc i, w)
      | Inl (LlmRaised e) \<Rightarrow> (Inl (LlmFailure e), Suc i, w)
      | Inl exc \<Rightarrow>
          (case classify_llm_error exc (rp_retryable_status_codes p) of
             Inl x \<Rightarrow> (Inl (Crash x), Suc i, w)
           | Inr e \<Rightarrow>
               (if is_permanent e then (Inl (LlmFailure e), Suc i, w)
                else client_loop f p u n (Suc i) (Some e) (if n = 0 then w else backoff_sleep u i p w))))"

definition client_execute_with_retry ::
    "(nat \<Rightarrow> call_exn + 'a) \<Rightarrow> retry_policy \<Rightarrow> (nat \<Rightarrow> rat) \<Rightarrow> (retry_failure + 'a) \<times> nat \<times> retry_log" where
  "client_execute_with_retry f p u =
     client_loop f p u (nat (rp_max_retries p + 1)) 0 None \<lparr>rl_events = [], rl_slept = []\<rparr>"

section \<open>Tools\<close>

definition resolve_tool_timeout :: "int \<Rightarrow> int option \<Rightarrow> int" where
  "resolve_tool_timeout configured per_tool = (case per_tool of Some t \<Rightarrow> t | None \<Rightarrow> configured)"

definition resolve_tool_retry :: "retry_policy \<Rightarrow> retry_policy option \<Rightarrow> retry_policy" where
  "resolve_tool_retry configured per_tool = (case per_tool of Some r \<Rightarrow> r | None \<Rightarrow> configured)"

text \<open>
  A tool call in its worker thread: it returns, is not done by the deadline (or raises a timeout error itself, which
  the same handler catches), or raises. The flag tells that \<^verbatim>\<open>cancel_fn\<close> was called.
\<close>

datatype tool_outcome = ToolReturns string | ToolLate | ToolRaises string string

datatype tool_exn = ToolTimeout string | ToolFailure string string

definition call_tool_with_timeout :: "tool_outcome \<Rightarrow> int \<Rightarrow> bool \<Rightarrow> (tool_exn + string) \<times> bool" where
  "call_tool_with_timeout out timeout has_cancel =
     (case out of
        ToolReturns s \<Rightarrow> (Inr s, False)
      | ToolLate \<Rightarrow> (Inl (ToolTimeout (''Tool execution timed out after '' @ str_of_int timeout @ ''s'')), has_cancel)
      | ToolRaises t m \<Rightarrow> (Inl (ToolFailure t m), False))"

definition emit_tool_retry ::
    "(nat \<Rightarrow> rat) \<Rightarrow> string \<Rightarrow> nat \<Rightarrow> retry_policy \<Rightarrow> string \<Rightarrow> string \<Rightarrow> retry_log \<Rightarrow> retry_log" where
  "emit_tool_retry u tool attempt p code message w =
     (let delay = backoff_delay p (int attempt + 1) None (u attempt)
      in \<lparr>rl_events = rl_events w @
            [[(''type'', PStr ''response.retry''), (''source'', PStr ''tool''), (''tool_name'', PStr tool),
              (''attempt'', PInt (int attempt + 2)), (''max_attempts'', PInt (rp_max_retries p + 1)),
              (''delay_seconds'', PFloat (round2 delay)),
              (''error'', PDict [(''code'', PStr code), (''message'', PStr message), (''detail'', PNone)])]],
          rl_slept = rl_slept w @ [delay]\<rparr>)"

definition emit_tool_error :: "string \<Rightarrow> int \<Rightarrow> string option \<Rightarrow> retry_log \<Rightarrow> retry_log" where
  "emit_tool_error tool max_attempts message w =
     w\<lparr>rl_events := rl_events w @
        [[(''type'', PStr ''response.error''), (''source'', PStr ''tool''), (''tool_name'', PStr tool),
          (''error'', PDict [(''code'', PStr ''timeout''),
             (''message'', PStr ((case message of Some (c # s) \<Rightarrow> c # s | _ \<Rightarrow> ''Unknown error'') @ '' ('' @ str_of_int max_attempts @
                '' attempts exhausted)'')),
             (''detail'', PNone)])]]\<rparr>"

text \<open>The loop of tool calls: \<open>Inr\<close> the result, \<open>Inl\<close> the last error after the loop is left.\<close>

fun tool_loop ::
    "string \<Rightarrow> (nat \<Rightarrow> tool_outcome) \<Rightarrow> int \<Rightarrow> retry_policy \<Rightarrow> bool \<Rightarrow> (nat \<Rightarrow> rat) \<Rightarrow> nat \<Rightarrow> nat \<Rightarrow> string option \<Rightarrow> retry_log \<Rightarrow>
     (string option + string) \<times> nat \<times> retry_log" where
  "tool_loop tool f timeout p has_cancel u 0 i last_error w = (Inl last_error, i, w)"
| "tool_loop tool f timeout p has_cancel u (Suc n) i last_error w =
     (case fst (call_tool_with_timeout (f i) timeout has_cancel) of
        Inr s \<Rightarrow> (Inr s, Suc i, w)
      | Inl (ToolTimeout m) \<Rightarrow>
          tool_loop tool f timeout p has_cancel u n (Suc i) (Some m)
            (if n = 0 then w else emit_tool_retry u tool i p ''timeout'' m w)
      | Inl (ToolFailure t m) \<Rightarrow>
          (Inl (Some (''Tool '' @ [CHR 39] @ tool @ [CHR 39] @ '' raised '' @ t @ '': '' @ m)), Suc i, w))"

definition execute_tool_with_retry ::
    "string \<Rightarrow> (nat \<Rightarrow> tool_outcome) \<Rightarrow> int \<Rightarrow> retry_policy \<Rightarrow> bool \<Rightarrow> (nat \<Rightarrow> rat) \<Rightarrow> string \<times> nat \<times> retry_log" where
  "execute_tool_with_retry tool f timeout p has_cancel u =
     (case tool_loop tool f timeout p has_cancel u (nat (rp_max_retries p + 1)) 0 None \<lparr>rl_events = [], rl_slept = []\<rparr> of
        (Inr s, i, w) \<Rightarrow> (s, i, w)
      | (Inl e, i, w) \<Rightarrow>
          (''Error: '' @ (case e of Some m \<Rightarrow> m | None \<Rightarrow> ''None'') @ '' ('' @ str_of_int (rp_max_retries p + 1) @ '' attempts)'', i,
           emit_tool_error tool (rp_max_retries p + 1) e w))"

section \<open>What the loops have in common\<close>

text \<open>
  An attempt is decisive (\<open>Inr\<close>) or fails in a way that is tried again (\<open>Inl\<close>); there is a pause between two
  attempts and none after the last.
\<close>

locale retry_loop =
  fixes attempt :: "nat \<Rightarrow> 'e + 'r"
    and pause :: "nat \<Rightarrow> 'e \<Rightarrow> 'w \<Rightarrow> 'w"
    and give_up :: "'e \<Rightarrow> 'r"
    and loop :: "nat \<Rightarrow> nat \<Rightarrow> 'e option \<Rightarrow> 'w \<Rightarrow> 'r \<times> nat \<times> 'w"
  assumes exhausted: "loop 0 i (Some e) w = (give_up e, i, w)"
    and decisive: "attempt i = Inr r \<Longrightarrow> loop (Suc n) i l w = (r, Suc i, w)"
    and again: "attempt i = Inl e \<Longrightarrow> loop (Suc n) i l w = loop n (Suc i) (Some e) (if n = 0 then w else pause i e w)"
begin

lemma loop_runs:
  assumes "0 < n"
  shows "\<exists>k < n. (\<forall>j < k. isl (attempt (i + j))) \<and> (isl (attempt (i + k)) \<longrightarrow> Suc k = n) \<and>
    loop n i l w =
      ((case attempt (i + k) of Inr r \<Rightarrow> r | Inl e \<Rightarrow> give_up e), i + Suc k,
       fold (\<lambda>j. pause j (projl (attempt j))) [i..<i + k] w)"
  using assms
proof (induction n arbitrary: i l w)
  case (Suc n)
  show ?case
  proof (cases "attempt i")
    case (Inr r)
    then show ?thesis by (intro exI [of _ 0]) (simp add: decisive)
  next
    case (Inl e)
    show ?thesis
    proof (cases n)
      case 0
      then show ?thesis using Inl by (intro exI [of _ 0]) (simp add: again exhausted)
    next
      case (Suc m)
      with Suc.IH [of "Suc i" "Some e" "pause i e w"] obtain k where k: "k < n" "\<forall>j < k. isl (attempt (Suc i + j))"
        "isl (attempt (Suc i + k)) \<longrightarrow> Suc k = n"
        and run: "loop n (Suc i) (Some e) (pause i e w) =
          ((case attempt (Suc i + k) of Inr r \<Rightarrow> r | Inl e \<Rightarrow> give_up e), Suc i + Suc k,
           fold (\<lambda>j. pause j (projl (attempt j))) [Suc i..<Suc i + k] (pause i e w))"
        by auto
      have "[i..<i + Suc k] = i # [Suc i..<Suc i + k]" by (simp add: upt_rec [of i])
      then have "loop (Suc n) i l w =
          ((case attempt (i + Suc k) of Inr r \<Rightarrow> r | Inl e \<Rightarrow> give_up e), i + Suc (Suc k),
           fold (\<lambda>j. pause j (projl (attempt j))) [i..<i + Suc k] w)"
        using Inl run Suc by (simp add: again)
      moreover have "\<forall>j < Suc k. isl (attempt (i + j))"
        using k(2) Inl by (auto simp: less_Suc_eq_0_disj)
      ultimately show ?thesis using k by (intro exI [of _ "Suc k"]) simp
    qed
  qed
qed simp

end

definition llm_verdict :: "int list \<Rightarrow> call_exn + 'a \<Rightarrow> llm_error + (retry_failure + 'a)" where
  "llm_verdict codes out =
     (case out of
        Inr x \<Rightarrow> Inr (Inr x)
      | Inl exc \<Rightarrow>
          (case (case exc of LlmRaised e \<Rightarrow> Inr e | _ \<Rightarrow> classify_llm_error exc codes) of
             Inl x \<Rightarrow> Inr (Inl (Crash x))
           | Inr e \<Rightarrow> if is_permanent e then Inr (Inl (LlmFailure e)) else Inl e))"

definition client_verdict :: "int list \<Rightarrow> call_exn + 'a \<Rightarrow> llm_error + (retry_failure + 'a)" where
  "client_verdict codes out =
     (case out of
        Inl (LlmRaised e) \<Rightarrow> Inr (Inl (LlmFailure e))
      | _ \<Rightarrow> llm_verdict codes out)"

definition tool_verdict :: "string \<Rightarrow> int \<Rightarrow> tool_outcome \<Rightarrow> string + (string option + string)" where
  "tool_verdict tool timeout out =
     (case out of
        ToolReturns s \<Rightarrow> Inr (Inr s)
      | ToolLate \<Rightarrow> Inl (''Tool execution timed out after '' @ str_of_int timeout @ ''s'')
      | ToolRaises t m \<Rightarrow> Inr (Inl (Some (''Tool '' @ [CHR 39] @ tool @ [CHR 39] @ '' raised '' @ t @ '': '' @ m))))"

interpretation llm_loop: retry_loop "\<lambda>i. llm_verdict (rp_retryable_status_codes p) (f i)"
  "\<lambda>i e. emit_retry_and_sleep u i p e" "\<lambda>e. Inl (LlmFailure e)" "execute_loop f p u"
  by unfold_locales (auto simp: llm_verdict_def split: sum.splits call_exn.splits if_splits)

interpretation client: retry_loop "\<lambda>i. client_verdict (rp_retryable_status_codes p) (f i)"
  "\<lambda>i e. backoff_sleep u i p" "\<lambda>e. Inl (LlmFailure e)" "client_loop f p u"
  by unfold_locales (auto simp: client_verdict_def llm_verdict_def split: sum.splits call_exn.splits if_splits)

interpretation tools: retry_loop "\<lambda>i. tool_verdict tool timeout (f i)"
  "\<lambda>i m. emit_tool_retry u tool i p ''timeout'' m" "\<lambda>m. Inl (Some m)" "tool_loop tool f timeout p has_cancel u"
  by unfold_locales (auto simp: tool_verdict_def call_tool_with_timeout_def split: tool_outcome.splits)

section \<open>Delays\<close>

definition uniform_ok :: "rat \<Rightarrow> bool" where
  "uniform_ok x \<longleftrightarrow> 1 / 2 \<le> x \<and> x \<le> 3 / 2"

definition valid_policy :: "retry_policy \<Rightarrow> bool" where
  "valid_policy p \<longleftrightarrow> retry_post_init p = Inr p"

lemma valid_policyD:
  assumes "valid_policy p"
  shows "0 \<le> rp_max_retries p" and "rp_max_retries p \<le> 20" and "1 / 1000 \<le> rp_backoff_base_s p" and "1 / 1000 \<le> rp_backoff_max_s p"
  using assms by (auto simp: valid_policy_def retry_post_init_def split: if_splits)

lemma delay_nat:
  "backoff_delay p (int j + 1) None x =
   (if rp_jitter p then min (rp_backoff_base_s p * 2 ^ j) (rp_backoff_max_s p) * x else min (rp_backoff_base_s p * 2 ^ j) (rp_backoff_max_s p))"
  by (simp add: backoff_delay_def Let_def power_int_def)

lemma delay_bounds:
  assumes "valid_policy p" and "uniform_ok x"
  shows "min (rp_backoff_base_s p) (rp_backoff_max_s p) / 2 \<le> backoff_delay p (int j + 1) None x \<and>
    backoff_delay p (int j + 1) None x \<le> rp_backoff_max_s p * (3 / 2)"
proof -
  let ?d = "min (rp_backoff_base_s p * 2 ^ j) (rp_backoff_max_s p)"
  have b: "1 / 1000 \<le> rp_backoff_base_s p" "1 / 1000 \<le> rp_backoff_max_s p" using valid_policyD [OF assms(1)] by auto
  have "rp_backoff_base_s p * 1 \<le> rp_backoff_base_s p * 2 ^ j" using b by (intro mult_left_mono) auto
  then have lo: "min (rp_backoff_base_s p) (rp_backoff_max_s p) \<le> ?d" by (auto simp: min_def)
  have hi: "?d \<le> rp_backoff_max_s p" by simp
  have pos: "0 < min (rp_backoff_base_s p) (rp_backoff_max_s p)" using b by simp
  have "min (rp_backoff_base_s p) (rp_backoff_max_s p) * (1 / 2) \<le> ?d * x"
    using lo pos assms(2) by (intro mult_mono) (auto simp: uniform_ok_def)
  moreover have "?d * x \<le> rp_backoff_max_s p * (3 / 2)"
    using hi b assms(2) by (intro mult_mono) (auto simp: uniform_ok_def)
  moreover have "rp_backoff_max_s p \<le> rp_backoff_max_s p * (3 / 2)" using b by simp
  ultimately show ?thesis using lo hi pos unfolding delay_nat by (cases "rp_jitter p") auto
qed

text \<open>The delays of a run.\<close>

definition delays :: "retry_policy \<Rightarrow> (nat \<Rightarrow> rat) \<Rightarrow> nat \<Rightarrow> rat list" where
  "delays p u k = map (\<lambda>j. backoff_delay p (int j + 1) None (u j)) [0..<k]"

lemma slept_llm: "rl_slept (fold (\<lambda>j. emit_retry_and_sleep u j p (g j)) [0..<k] w) = rl_slept w @ delays p u k"
  and slept_client: "rl_slept (fold (\<lambda>j. backoff_sleep u j p) [0..<k] w) = rl_slept w @ delays p u k"
  and slept_tool: "rl_slept (fold (\<lambda>j. emit_tool_retry u tool j p c (h j)) [0..<k] w) = rl_slept w @ delays p u k"
  by (induction k) (simp_all add: emit_retry_and_sleep_def backoff_sleep_def emit_tool_retry_def Let_def delays_def)

lemma delays_bounds:
  assumes "valid_policy p" and "\<forall>j. uniform_ok (u j)"
  shows "\<forall>d \<in> set (delays p u k). min (rp_backoff_base_s p) (rp_backoff_max_s p) / 2 \<le> d \<and> d \<le> rp_backoff_max_s p * (3 / 2)"
    and "sum_list (delays p u k) \<le> of_nat k * (rp_backoff_max_s p * (3 / 2))"
proof -
  show each: "\<forall>d \<in> set (delays p u k). min (rp_backoff_base_s p) (rp_backoff_max_s p) / 2 \<le> d \<and> d \<le> rp_backoff_max_s p * (3 / 2)"
    using delay_bounds [OF assms(1)] assms(2) by (auto simp: delays_def)
  have "sum_list ds \<le> of_nat (length ds) * b" if "\<forall>d \<in> set ds. d \<le> b" for ds and b :: rat
    using that by (induction ds) (auto simp: algebra_simps)
  from this [of "delays p u k" "rp_backoff_max_s p * (3 / 2)"] each
  show "sum_list (delays p u k) \<le> of_nat k * (rp_backoff_max_s p * (3 / 2))" by (simp add: delays_def)
qed

end
