(* ===== verification/RetryProperties.thy ===== *)
theory RetryProperties
  imports Retry
begin

text \<open>
  Properties of the retry loops: which failures are tried again, how many attempts there are and what they return, the
  bounds on the time slept, the wire format of the policy.
\<close>

section \<open>Attempts\<close>

lemma attempts_nat: "valid_policy p \<Longrightarrow> 0 < nat (rp_max_retries p + 1)"
  using valid_policyD(1) [of p] by simp

lemma events_llm: "length (rl_events (fold (\<lambda>j. emit_retry_and_sleep u j p (g j)) [0..<k] w)) = length (rl_events w) + k"
  by (induction k) (simp_all add: emit_retry_and_sleep_def Let_def)

text \<open>
  The LLM retry loop returns the outcome of the first attempt that is decisive, a success or a permanent
  failure, and otherwise the last transient failure: every attempt before it failed transiently, there are at most the policy's retries
  beyond the first, giving up happens only after all of them, and each retry is preceded by one event and one delay.
\<close>

theorem llm_retry_stops_at_first_decisive:
  assumes "valid_policy p"
  shows "\<exists>k w. int k \<le> rp_max_retries p \<and>
    (\<forall>j < k. isl (llm_verdict (rp_retryable_status_codes p) (f j))) \<and>
    (isl (llm_verdict (rp_retryable_status_codes p) (f k)) \<longrightarrow> int k = rp_max_retries p) \<and>
    execute_with_retry f p u =
      ((case llm_verdict (rp_retryable_status_codes p) (f k) of Inr r \<Rightarrow> r | Inl e \<Rightarrow> Inl (LlmFailure e)), Suc k, w) \<and>
    rl_slept w = delays p u k \<and> length (rl_events w) = k"
proof -
  obtain k where k: "k < nat (rp_max_retries p + 1)" "\<forall>j < k. isl (llm_verdict (rp_retryable_status_codes p) (f j))"
    "isl (llm_verdict (rp_retryable_status_codes p) (f k)) \<longrightarrow> Suc k = nat (rp_max_retries p + 1)"
    and run: "execute_with_retry f p u =
      ((case llm_verdict (rp_retryable_status_codes p) (f k) of Inr r \<Rightarrow> r | Inl e \<Rightarrow> Inl (LlmFailure e)), Suc k,
       fold (\<lambda>j. emit_retry_and_sleep u j p (projl (llm_verdict (rp_retryable_status_codes p) (f j)))) [0..<k]
         \<lparr>rl_events = [], rl_slept = []\<rparr>)"
    using llm_loop.loop_runs [OF attempts_nat [OF assms], of p f 0 u None "\<lparr>rl_events = [], rl_slept = []\<rparr>"]
    by (auto simp: execute_with_retry_def)
  have "int k \<le> rp_max_retries p" "Suc k = nat (rp_max_retries p + 1) \<Longrightarrow> int k = rp_max_retries p"
    using k(1) valid_policyD(1) [OF assms] by linarith+
  then show ?thesis using k run by (auto simp: slept_llm events_llm)
qed

definition fx_policy :: retry_policy where
  "fx_policy = retry_defaults\<lparr>rp_max_retries := 2, rp_jitter := False\<rparr>"

lemma fx_policy_valid: "valid_policy fx_policy"
  by (simp add: valid_policy_def retry_post_init_def fx_policy_def retry_defaults_def)

theorem llm_retry_stops_at_first_decisive_witness:
  "fst (snd (execute_with_retry (\<lambda>i. if i = 0 then Inl (HttpTimeout ''t'') else Inr ()) fx_policy (\<lambda>i. 1))) = 2"
proof -
  let ?f = "\<lambda>i :: nat. if i = 0 then Inl (HttpTimeout ''t'') else Inr ()"
  obtain k w where k: "\<forall>j < k. isl (llm_verdict (rp_retryable_status_codes fx_policy) (?f j))"
    "isl (llm_verdict (rp_retryable_status_codes fx_policy) (?f k)) \<longrightarrow> int k = rp_max_retries fx_policy"
    and run: "execute_with_retry ?f fx_policy (\<lambda>i. 1) =
      ((case llm_verdict (rp_retryable_status_codes fx_policy) (?f k) of Inr r \<Rightarrow> r | Inl e \<Rightarrow> Inl (LlmFailure e)), Suc k, w)"
    using llm_retry_stops_at_first_decisive [OF fx_policy_valid, of ?f "\<lambda>i. 1"] by blast
  have "\<not> 1 < k" using k(1) by (auto simp: llm_verdict_def dest: spec [of _ 1])
  moreover have "k \<noteq> 0" using k(2) by (cases k) (simp_all add: llm_verdict_def fx_policy_def)
  ultimately show ?thesis using run by simp
qed

text \<open>
  An attempt is repeated exactly when its failure is transient: a timeout, a connection failure, an error raised
  as retryable, or an HTTP status listed in the policy that is not a context overflow. A success, a permanent or context-window error, an
  unlisted status and any other exception end the loop, and the client's own loop also ends on errors raised already classified.
\<close>

theorem repeated_exactly_when_transient:
  "(isl (llm_verdict codes out) \<longleftrightarrow>
     (\<exists>t. out = Inl (HttpTimeout t) \<or> out = Inl (ConnectionFailure t)) \<or>
     (\<exists>m c d. out = Inl (LlmRaised (RetryableLLMError m c d))) \<or>
     (\<exists>s b. out = Inl (HttpStatus s b) \<and> s \<in> set codes \<and>
        (s = 400 \<longrightarrow> detect_context_overflow (safe_response_text b) = Inr None))) \<and>
   (isl (client_verdict codes out) \<longleftrightarrow> isl (llm_verdict codes out) \<and> (\<forall>e. out \<noteq> Inl (LlmRaised e)))"
proof
  show "isl (client_verdict codes out) \<longleftrightarrow> isl (llm_verdict codes out) \<and> (\<forall>e. out \<noteq> Inl (LlmRaised e))"
    by (auto simp: client_verdict_def split: sum.splits call_exn.splits)
  have http: "(\<exists>e. classify_http_error s b codes = Inr e \<and> \<not> is_permanent e) \<longleftrightarrow>
      s \<in> set codes \<and> (s = 400 \<longrightarrow> detect_context_overflow (safe_response_text b) = Inr None)" for s b
    by (cases "detect_context_overflow (safe_response_text b)") (auto simp: classify_http_error_def Let_def split: option.splits if_splits)
  have v: "isl (llm_verdict codes (Inl exc)) \<longleftrightarrow>
      (\<exists>e. (case exc of LlmRaised e \<Rightarrow> Inr e | _ \<Rightarrow> classify_llm_error exc codes) = Inr e \<and> \<not> is_permanent e)" for exc
    by (auto simp: llm_verdict_def split: sum.splits)
  have perm: "\<not> is_permanent e \<longleftrightarrow> (\<exists>m c d. e = RetryableLLMError m c d)" for e by (cases e) auto
  show "isl (llm_verdict codes out) \<longleftrightarrow>
     (\<exists>t. out = Inl (HttpTimeout t) \<or> out = Inl (ConnectionFailure t)) \<or>
     (\<exists>m c d. out = Inl (LlmRaised (RetryableLLMError m c d))) \<or>
     (\<exists>s b. out = Inl (HttpStatus s b) \<and> s \<in> set codes \<and>
        (s = 400 \<longrightarrow> detect_context_overflow (safe_response_text b) = Inr None))"
  proof (cases out)
    case (Inl exc)
    show ?thesis unfolding Inl v by (cases exc) (use http in \<open>auto simp: perm\<close>)
  qed (simp add: llm_verdict_def)
qed

theorem repeated_exactly_when_transient_witness:
  "isl (llm_verdict [429] (Inl (HttpStatus 429 None) :: call_exn + unit)) \<and> \<not> isl (llm_verdict [429] (Inl (HttpStatus 401 None) :: call_exn + unit))"
  using repeated_exactly_when_transient [of "[429]" "Inl (HttpStatus 429 None) :: call_exn + unit"]
    repeated_exactly_when_transient [of "[429]" "Inl (HttpStatus 401 None) :: call_exn + unit"] by simp

section \<open>Time slept\<close>

lemma tool_runs:
  assumes "valid_policy p"
  shows "\<exists>k w. int k \<le> rp_max_retries p \<and> (\<forall>j < k. f j = ToolLate) \<and> (f k = ToolLate \<longrightarrow> int k = rp_max_retries p) \<and>
    tool_loop tool f timeout p has_cancel u (nat (rp_max_retries p + 1)) 0 None \<lparr>rl_events = [], rl_slept = []\<rparr> =
      ((case tool_verdict tool timeout (f k) of Inr r \<Rightarrow> r | Inl m \<Rightarrow> Inl (Some m)), Suc k, w) \<and> rl_slept w = delays p u k"
proof -
  have late: "isl (tool_verdict tool timeout x) \<longleftrightarrow> x = ToolLate" for x by (cases x) (simp_all add: tool_verdict_def)
  obtain k where k: "k < nat (rp_max_retries p + 1)" "\<forall>j < k. f j = ToolLate" "f k = ToolLate \<longrightarrow> Suc k = nat (rp_max_retries p + 1)"
    and run: "tool_loop tool f timeout p has_cancel u (nat (rp_max_retries p + 1)) 0 None \<lparr>rl_events = [], rl_slept = []\<rparr> =
      ((case tool_verdict tool timeout (f k) of Inr r \<Rightarrow> r | Inl m \<Rightarrow> Inl (Some m)), Suc k,
       fold (\<lambda>j. emit_tool_retry u tool j p ''timeout'' (projl (tool_verdict tool timeout (f j)))) [0..<k] \<lparr>rl_events = [], rl_slept = []\<rparr>)"
    using tools.loop_runs [OF attempts_nat [OF assms], where tool = tool and timeout = timeout and f = f and has_cancel = has_cancel and u = u
        and p = p and i = 0 and l = None and w = "\<lparr>rl_events = [], rl_slept = []\<rparr>", unfolded late add_0] by blast
  have "int k \<le> rp_max_retries p" "Suc k = nat (rp_max_retries p + 1) \<Longrightarrow> int k = rp_max_retries p"
    using k(1) valid_policyD(1) [OF assms] by linarith+
  then show ?thesis using k run by (auto simp: slept_tool)
qed

text \<open>
  A tool call always comes back with text: the tool's own result if an attempt within the retries returns, with no error
  event, and otherwise an error text. Only a timeout is tried again, so a tool that raises is called no further; the number of calls never
  exceeds the policy's retries beyond the first.
\<close>

theorem tool_call_always_returns_text:
  assumes "valid_policy p"
  shows "\<exists>k s w. execute_tool_with_retry tool f timeout p has_cancel u = (s, Suc k, w) \<and> int k \<le> rp_max_retries p \<and>
    (\<forall>j < k. f j = ToolLate) \<and> (f k = ToolLate \<longrightarrow> int k = rp_max_retries p) \<and>
    (\<forall>r. f k = ToolReturns r \<longrightarrow> s = r) \<and> ((\<forall>r. f k \<noteq> ToolReturns r) \<longrightarrow> startswith s ''Error: '')"
proof -
  obtain k w where k: "int k \<le> rp_max_retries p" "\<forall>j < k. f j = ToolLate" "f k = ToolLate \<longrightarrow> int k = rp_max_retries p"
    and run: "tool_loop tool f timeout p has_cancel u (nat (rp_max_retries p + 1)) 0 None \<lparr>rl_events = [], rl_slept = []\<rparr> =
      ((case tool_verdict tool timeout (f k) of Inr r \<Rightarrow> r | Inl m \<Rightarrow> Inl (Some m)), Suc k, w)"
    using tool_runs [OF assms, of f tool timeout has_cancel u] by blast
  show ?thesis
  proof (cases "f k")
    case (ToolReturns r)
    then have "execute_tool_with_retry tool f timeout p has_cancel u = (r, Suc k, w)"
      by (simp add: execute_tool_with_retry_def run tool_verdict_def)
    then show ?thesis using k ToolReturns by auto
  next
    case ToolLate
    then show ?thesis using k by (auto simp: execute_tool_with_retry_def run tool_verdict_def startswith_def)
  next
    case (ToolRaises t m)
    then show ?thesis using k by (auto simp: execute_tool_with_retry_def run tool_verdict_def startswith_def)
  qed
qed

theorem tool_call_always_returns_text_witness:
  "fst (execute_tool_with_retry ''t'' (\<lambda>i. if i < 2 then ToolLate else ToolReturns ''ok'') 5 fx_policy False (\<lambda>i. 1)) = ''ok''"
proof -
  let ?f = "\<lambda>i :: nat. if i < 2 then ToolLate else ToolReturns ''ok''"
  obtain k s w where e: "execute_tool_with_retry ''t'' ?f 5 fx_policy False (\<lambda>i. 1) = (s, Suc k, w)"
    and k: "?f k = ToolLate \<longrightarrow> int k = rp_max_retries fx_policy" "\<forall>r. ?f k = ToolReturns r \<longrightarrow> s = r"
    using tool_call_always_returns_text [OF fx_policy_valid, of "''t''" ?f 5 False "\<lambda>i. 1"] by blast
  have "\<not> k < 2" using k(1) by (auto simp: fx_policy_def)
  then show ?thesis using e k(2) by simp
qed

lemma llm_slept: "valid_policy p \<Longrightarrow> \<exists>k. int k \<le> rp_max_retries p \<and> rl_slept (snd (snd (execute_with_retry f p u))) = delays p u k"
proof -
  assume v: "valid_policy p"
  obtain k r where "k < nat (rp_max_retries p + 1)" "execute_with_retry f p u =
      (r, Suc k, fold (\<lambda>j. emit_retry_and_sleep u j p (projl (llm_verdict (rp_retryable_status_codes p) (f j)))) [0..<k] \<lparr>rl_events = [], rl_slept = []\<rparr>)"
    unfolding execute_with_retry_def
    using llm_loop.loop_runs [OF attempts_nat [OF v], where p = p and f = f and u = u and i = 0 and l = None and w = "\<lparr>rl_events = [], rl_slept = []\<rparr>",
        unfolded add_0] by blast
  then show ?thesis by (intro exI [of _ k]) (auto simp: slept_llm)
qed

lemma client_slept: "valid_policy p \<Longrightarrow> \<exists>k. int k \<le> rp_max_retries p \<and> rl_slept (snd (snd (client_execute_with_retry f p u))) = delays p u k"
proof -
  assume v: "valid_policy p"
  obtain k r where "k < nat (rp_max_retries p + 1)" "client_execute_with_retry f p u =
      (r, Suc k, fold (\<lambda>j. backoff_sleep u j p) [0..<k] \<lparr>rl_events = [], rl_slept = []\<rparr>)"
    unfolding client_execute_with_retry_def
    using client.loop_runs [OF attempts_nat [OF v], where p = p and f = f and u = u and i = 0 and l = None and w = "\<lparr>rl_events = [], rl_slept = []\<rparr>",
        unfolded add_0] by blast
  then show ?thesis by (intro exI [of _ k]) (auto simp: slept_client)
qed

lemma tool_slept:
  assumes "valid_policy p"
  shows "\<exists>k. int k \<le> rp_max_retries p \<and> rl_slept (snd (snd (execute_tool_with_retry tool f timeout p has_cancel u))) = delays p u k"
proof -
  obtain k r w where "int k \<le> rp_max_retries p"
    and "tool_loop tool f timeout p has_cancel u (nat (rp_max_retries p + 1)) 0 None \<lparr>rl_events = [], rl_slept = []\<rparr> = (r, Suc k, w)"
    and "rl_slept w = delays p u k"
    using tool_runs [OF assms, of f tool timeout has_cancel u] by blast
  then show ?thesis by (intro exI [of _ k]) (auto simp: execute_tool_with_retry_def emit_tool_error_def split: sum.splits)
qed

text \<open>
  C38: With draws of the jitter between one half and three halves, every delay of the LLM, client and tool loops is at least half
  the smaller of the base and the cap and at most one and a half times the cap, the delays of a run add up to at most the retries times that
  bound, and without jitter the delays double from the base up to the cap.
\<close>

theorem slept_time_bounded:
  assumes "valid_policy p" and "\<forall>j. uniform_ok (u j)"
    and "ds \<in> {rl_slept (snd (snd (execute_with_retry f p u))), rl_slept (snd (snd (client_execute_with_retry f p u))),
      rl_slept (snd (snd (execute_tool_with_retry tool g timeout p has_cancel u)))}"
  shows "(\<forall>d \<in> set ds. min (rp_backoff_base_s p) (rp_backoff_max_s p) / 2 \<le> d \<and> d \<le> rp_backoff_max_s p * (3 / 2)) \<and>
    sum_list ds \<le> of_int (rp_max_retries p) * (rp_backoff_max_s p * (3 / 2)) \<and>
    (\<not> rp_jitter p \<longrightarrow> (\<forall>j < length ds. ds ! j = min (rp_backoff_base_s p * 2 ^ j) (rp_backoff_max_s p)))"
proof -
  obtain k where k: "int k \<le> rp_max_retries p" and ds: "ds = delays p u k"
    using assms(3) llm_slept [OF assms(1), of f u] client_slept [OF assms(1), of f u] tool_slept [OF assms(1), of tool g timeout has_cancel u]
    by auto
  have "of_nat k * (rp_backoff_max_s p * (3 / 2)) \<le> of_int (rp_max_retries p) * (rp_backoff_max_s p * (3 / 2))"
  proof (rule mult_right_mono)
    show "rat_of_nat k \<le> rat_of_int (rp_max_retries p)" using k by (metis of_int_le_iff of_int_of_nat_eq)
  qed (use valid_policyD(4) [OF assms(1)] in simp)
  then show ?thesis
    using delays_bounds [OF assms(1,2), of k] by (auto simp: ds delays_def delay_nat)
qed

theorem slept_time_bounded_witness:
  "sum_list (rl_slept (snd (snd (execute_with_retry (\<lambda>i. Inl (HttpTimeout ''t'') :: call_exn + unit) fx_policy (\<lambda>i. 1))))) \<le> 180"
  using slept_time_bounded [OF fx_policy_valid, of "\<lambda>i. 1"
      "rl_slept (snd (snd (execute_with_retry (\<lambda>i. Inl (HttpTimeout ''t'') :: call_exn + unit) fx_policy (\<lambda>i. 1))))"
      "\<lambda>i. Inl (HttpTimeout ''t'') :: call_exn + unit"]
  by (simp add: uniform_ok_def) (simp add: fx_policy_def retry_defaults_def)

section \<open>Wire format\<close>

lemma int_list_map: "int_list (map PInt is) = Some is"
  by (induction "is") auto

text \<open>
  A policy survives its transport to a subprocess: reading back what a valid policy serializes to gives the policy, fields a
  newer version adds are ignored, and a payload with out-of-range values is refused by the same checks as construction.
\<close>

theorem retry_policy_round_trip:
  assumes "retry_to_json p = PDict d" and "\<forall>(k, v) \<in> set extra. k \<notin> fst ` set d"
  shows "retry_from_decoded (PDict (d @ extra)) = Some (retry_post_init p) \<and>
    retry_from_decoded (PDict (extra @ d)) = Some (retry_post_init p) \<and>
    (valid_policy p \<longrightarrow> retry_from_decoded (retry_to_json p) = Some (Inr p))"
proof -
  have d: "d = [(''max_retries'', PInt (rp_max_retries p)), (''backoff_base_s'', PFloat (rp_backoff_base_s p)),
       (''backoff_max_s'', PFloat (rp_backoff_max_s p)), (''jitter'', PBool (rp_jitter p)),
       (''timeout_per_request_s'', (case rp_timeout_per_request_s p of None \<Rightarrow> PNone | Some t \<Rightarrow> PFloat t)),
       (''retryable_status_codes'', PList (map PInt (rp_retryable_status_codes p)))]"
    using assms(1) by (simp add: retry_to_json_def)
  have e: "dget extra k = None" if "k \<in> fst ` set d" for k
    using assms(2) that by (force simp: map_of_eq_None_iff)
  have read: "retry_from_decoded (PDict x) = Some (retry_post_init p)" if "\<forall>k \<in> fst ` set d. dget x k = dget d k" for x
    using that by (cases p; cases "rp_timeout_per_request_s p")
      (simp_all add: d retry_from_decoded_def int_field_def float_field_def bool_field_def opt_float_field_def int_list_map)
  have 1: "\<forall>k \<in> fst ` set d. dget (d @ extra) k = dget d k"
    by (auto simp: map_add_def map_of_eq_None_iff image_iff split: option.splits)
  have 2: "\<forall>k \<in> fst ` set d. dget (extra @ d) k = dget d k" using e by (auto simp: map_add_def split: option.splits)
  have 3: "retry_from_decoded (PDict d) = Some (retry_post_init p)" by (rule read) simp
  show ?thesis using read [OF 1] read [OF 2] 3 assms(1) by (simp add: valid_policy_def)
qed

theorem retry_policy_round_trip_witness:
  "retry_from_decoded (retry_to_json fx_policy) = Some (Inr fx_policy)"
proof -
  obtain d where "retry_to_json fx_policy = PDict d" by (simp add: retry_to_json_def)
  from retry_policy_round_trip [OF this, of "[]"] fx_policy_valid show ?thesis by simp
qed

section \<open>A message that is not text\<close>

text \<open>
  An HTTP 400 whose JSON body announces a context overflow with a message that is not a string is not classified: the
  type error of the pattern search leaves the retry loop as it is, instead of a permanent LLM error.
\<close>

theorem non_text_message_escapes:
  assumes "valid_policy p" and "f 0 = Inl (HttpStatus 400 (Some body))" and "length body \<le> 1000"
    and "py_json_loads body = Some (PDict parsed)" and "pget parsed ''error'' = PDict err"
    and "pget err ''code'' = PStr ''context_length_exceeded''" and "dget err ''message'' = Some msg" and "\<forall>s. msg \<noteq> PStr s"
  shows "\<exists>m. execute_with_retry f p u = (Inl (Crash (TypeError m)), 1, \<lparr>rl_events = [], rl_slept = []\<rparr>)"
proof -
  have e: "pget_default parsed ''error'' (PDict []) = PDict err" using assms(5) by (auto simp: pget_def pget_default_def split: option.splits)
  have "openai_overflow body = Inl (TypeError (''expected string or bytes-like object, got '' @ [CHR 39] @ type_name msg @ [CHR 39]))"
    using assms(4,6,7,8) e by (cases msg) (simp_all add: openai_overflow_def pget_default_def)
  then have c: "classify_llm_error (HttpStatus 400 (Some body)) codes =
      Inl (TypeError (''expected string or bytes-like object, got '' @ [CHR 39] @ type_name msg @ [CHR 39]))" for codes
    using assms(3) by (simp add: classify_http_error_def safe_response_text_def detect_context_overflow_def Let_def)
  obtain n where "nat (rp_max_retries p + 1) = Suc n" using attempts_nat [OF assms(1)] by (auto simp: gr0_conv_Suc)
  then show ?thesis using assms(2) c by (simp add: execute_with_retry_def del: classify_llm_error.simps)
qed

definition fx_body :: string where
  "fx_body = ''{'' @ [CHR 34] @ ''error'' @ [CHR 34] @ '': {'' @ [CHR 34] @ ''code'' @ [CHR 34] @ '': '' @ [CHR 34] @ ''context_length_exceeded'' @
     [CHR 34] @ '', '' @ [CHR 34] @ ''message'' @ [CHR 34] @ '': null}}''"

theorem non_text_message_escapes_witness:
  "\<exists>m. execute_with_retry (\<lambda>i. Inl (HttpStatus 400 (Some fx_body)) :: call_exn + unit) fx_policy (\<lambda>i. 1) =
     (Inl (Crash (TypeError m)), 1, \<lparr>rl_events = [], rl_slept = []\<rparr>)"
proof -
  have "py_json_loads fx_body =
      Some (PDict [(''error'', PDict [(''code'', PStr ''context_length_exceeded''), (''message'', PNone)])])" by code_simp
  moreover have "length fx_body \<le> 1000" by code_simp
  ultimately show ?thesis
    using non_text_message_escapes [OF fx_policy_valid, of "\<lambda>i. Inl (HttpStatus 400 (Some fx_body)) :: call_exn + unit" fx_body
        "[(''error'', PDict [(''code'', PStr ''context_length_exceeded''), (''message'', PNone)])]"
        "[(''code'', PStr ''context_length_exceeded''), (''message'', PNone)]" PNone "\<lambda>i. 1"]
    by (simp add: pget_def)
qed

end
