(* ===== verification/Pii.thy ===== *)
theory Pii
  imports Safety Regex
begin

text \<open>
  The PII scanner of the safety policies (\<^verbatim>\<open>policies/builtins/safety.py\<close>): its category patterns and
  the policy that scans user messages and LLM requests with the selected ones.
\<close>

section \<open>Patterns\<close>

definition chars :: "string \<Rightarrow> rx" where
  "chars s = Cls (\<lambda>c. c \<in> set s)"

text \<open>\<^verbatim>\<open>\b\d{3}-\d{2}-\d{4}\b\<close>.\<close>

definition SSN_RE :: rx where
  "SSN_RE =
     rx_seq [rx_boundary, rx_times 3 rx_digit, rx_char (CHR ''-''), rx_times 2 rx_digit, rx_char (CHR ''-''), rx_times 4 rx_digit, rx_boundary]"

text \<open>\<^verbatim>\<open>\b(?:\d[ -]*?){13,19}\b\<close>.\<close>

definition CREDIT_CARD_RE :: rx where
  "CREDIT_CARD_RE = rx_seq [rx_boundary, rx_between 13 19 (Seq rx_digit (LazyStar (chars '' -''))), rx_boundary]"

text \<open>\<^verbatim>\<open>\b[A-Za-z0-9._%+-]+@[A-Za-z0-9.-]+\.[A-Z|a-z]{2,}\b\<close>.\<close>

definition EMAIL_RE :: rx where
  "EMAIL_RE =
     rx_seq [rx_boundary, rx_plus (Cls (\<lambda>c. is_alpha c \<or> is_digit c \<or> c \<in> set ''._%+-'')), rx_char (CHR ''@''),
       rx_plus (Cls (\<lambda>c. is_alpha c \<or> is_digit c \<or> c \<in> set ''.-'')), rx_char (CHR ''.''),
       rx_atleast 2 (Cls (\<lambda>c. is_alpha c \<or> c = CHR ''|'')), rx_boundary]"

definition phone_sep :: rx where
  "phone_sep = Cls (\<lambda>c. c \<in> set ''-.'' \<or> is_space c)"

text \<open>The three alternatives of the phone pattern: international, local with separators, local with a leading zero.\<close>

definition PHONE_RE :: rx where
  "PHONE_RE =
     rx_alts
       [rx_seq [rx_char (CHR ''+''), rx_between 1 3 rx_digit, rx_opt phone_sep, rx_opt (rx_char (CHR ''('')), rx_between 1 4 rx_digit,
          rx_opt (rx_char (CHR '')'')), rx_opt phone_sep, rx_between 1 4 rx_digit, rx_opt phone_sep, rx_between 1 9 rx_digit, rx_boundary],
        rx_seq [rx_boundary, rx_opt (rx_char (CHR ''('')), rx_times 3 rx_digit, rx_opt (rx_char (CHR '')'')), phone_sep, rx_times 3 rx_digit,
          phone_sep, rx_times 4 rx_digit, rx_boundary],
        rx_seq [rx_boundary, rx_char (CHR ''0''), rx_between 1 4 rx_digit, rx_opt phone_sep, rx_between 2 4 rx_digit, rx_opt phone_sep,
          rx_between 3 4 rx_digit, rx_boundary]]"

definition PII_CATEGORY_PATTERNS :: "rx dict" where
  "PII_CATEGORY_PATTERNS = [(''ssn'', SSN_RE), (''credit_card'', CREDIT_CARD_RE), (''email'', EMAIL_RE), (''phone'', PHONE_RE)]"

definition PII_CATEGORY_LABELS :: "string dict" where
  "PII_CATEGORY_LABELS =
     [(''ssn'', ''Social Security Number (US)''), (''credit_card'', ''Credit Card Number''), (''email'', ''Email Address''),
      (''phone'', ''Phone Number'')]"

section \<open>The policy\<close>

definition selected_patterns :: "string list option \<Rightarrow> rx dict" where
  "selected_patterns pii_types =
     (case pii_types of
        Some (t # ts) \<Rightarrow> filter (\<lambda>(k, r). k \<in> set (t # ts)) PII_CATEGORY_PATTERNS
      | _ \<Rightarrow> PII_CATEGORY_PATTERNS)"

definition effective_action :: "string \<Rightarrow> string" where
  "effective_action action = (if action \<in> {''DENY'', ''ASK''} then action else ''DENY'')"

text \<open>\<open>None\<close> is the shared allow response.\<close>

fun scan_text :: "string \<Rightarrow> rx dict \<Rightarrow> string \<Rightarrow> pydict option" where
  "scan_text action [] t = None"
| "scan_text action ((category, r) # sel) t =
     (case rx_search r t of
        Some m \<Rightarrow>
          Some [(''result'', PStr action),
                (''reason'', PStr (''PII detected ('' @ (case dget PII_CATEGORY_LABELS category of Some l \<Rightarrow> l | None \<Rightarrow> category) @
                   ''): '' @ [CHR 39] @ take 20 (fst m) @ ''...'' @ [CHR 39]))]
      | None \<Rightarrow> scan_text action sel t)"

fun first_hit :: "('a \<Rightarrow> pydict option) \<Rightarrow> 'a list \<Rightarrow> pydict option" where
  "first_hit f [] = None"
| "first_hit f (x # xs) = (case f x of Some d \<Rightarrow> Some d | None \<Rightarrow> first_hit f xs)"

definition pii_block_text :: "pyval \<Rightarrow> string option" where
  "pii_block_text b = (case b of PDict d \<Rightarrow> (case pget_default d ''text'' (PStr []) of PStr t \<Rightarrow> Some t | _ \<Rightarrow> None) | _ \<Rightarrow> None)"

definition scan_opt :: "(string \<Rightarrow> pydict option) \<Rightarrow> string option \<Rightarrow> pydict option" where
  "scan_opt scan t = (case t of Some s \<Rightarrow> scan s | None \<Rightarrow> None)"

definition pii_field :: "pydict \<Rightarrow> string \<Rightarrow> string option" where
  "pii_field data k = (case pget_default data k (PStr []) of PStr (c # s) \<Rightarrow> Some (c # s) | _ \<Rightarrow> None)"

definition deny_pii_in_llm_request :: "string list option \<Rightarrow> string \<Rightarrow> pydict \<Rightarrow> pydict" where
  "deny_pii_in_llm_request pii_types action ev =
     (let scan = scan_text (effective_action action) (selected_patterns pii_types);
          hit = (if pget ev ''type'' = PStr ''request'' then
                   (case pget ev ''data'' of
                      PStr t \<Rightarrow> scan t
                    | PList blocks \<Rightarrow> first_hit (\<lambda>b. scan_opt scan (pii_block_text b)) blocks
                    | _ \<Rightarrow> None)
                 else if pget ev ''type'' = PStr ''llm_request'' then
                   (case pget ev ''data'' of
                      PDict data \<Rightarrow> first_hit (\<lambda>k. scan_opt scan (pii_field data k)) [''system_prompt_preview'', ''last_user_message'']
                    | _ \<Rightarrow> None)
                 else None)
      in case hit of Some d \<Rightarrow> d | None \<Rightarrow> ALLOW_RESPONSE)"

section \<open>What is found\<close>

lemma scan_text_None: "scan_text action sel t = None \<longleftrightarrow> (\<forall>(k, r) \<in> set sel. rx_search r t = None)"
  by (induction sel) (auto split: option.splits)

lemma first_hit_None: "first_hit f xs = None \<longleftrightarrow> (\<forall>x \<in> set xs. f x = None)"
  by (induction xs) (auto split: option.splits)

lemma scan_text_action:
  "scan_text action sel t = Some d \<Longrightarrow> pget d ''result'' = PStr action"
  by (induction sel) (auto simp: pget_def split: option.splits)

lemma first_hit_action:
  "first_hit (\<lambda>x. scan_opt (scan_text action sel) (g x)) xs = Some d \<Longrightarrow> pget d ''result'' = PStr action"
  by (induction xs) (auto simp: scan_opt_def scan_text_action split: option.splits)

text \<open>The texts the policy scans in an event.\<close>

definition scanned_texts :: "pydict \<Rightarrow> string list" where
  "scanned_texts ev =
     (if pget ev ''type'' = PStr ''request'' then
        (case pget ev ''data'' of PStr t \<Rightarrow> [t] | PList blocks \<Rightarrow> List.map_filter pii_block_text blocks | _ \<Rightarrow> [])
      else if pget ev ''type'' = PStr ''llm_request'' then
        (case pget ev ''data'' of
           PDict data \<Rightarrow> List.map_filter (pii_field data) [''system_prompt_preview'', ''last_user_message'']
         | _ \<Rightarrow> [])
      else [])"

lemma first_hit_map_filter:
  "first_hit (\<lambda>x. scan_opt scan (g x)) xs = first_hit scan (List.map_filter g xs)"
  by (induction xs) (auto simp: scan_opt_def map_filter_simps split: option.splits)

lemma pii_by_texts:
  "deny_pii_in_llm_request pii_types action ev =
   (case first_hit (scan_text (effective_action action) (selected_patterns pii_types)) (scanned_texts ev) of
      Some d \<Rightarrow> d | None \<Rightarrow> ALLOW_RESPONSE)"
  unfolding deny_pii_in_llm_request_def scanned_texts_def Let_def first_hit_map_filter
  by (auto split: pyval.splits option.splits)

lemma first_hit_scan_action:
  "first_hit (scan_text action sel) ts = Some d \<Longrightarrow> pget d ''result'' = PStr action"
  by (induction ts) (auto simp: scan_text_action split: option.splits)

lemma pii_result:
  "pget (deny_pii_in_llm_request pii_types action ev) ''result'' =
   PStr (if \<exists>t \<in> set (scanned_texts ev). \<exists>(k, r) \<in> set (selected_patterns pii_types). rx_search r t \<noteq> None
         then effective_action action else ''ALLOW'')"
proof (cases "first_hit (scan_text (effective_action action) (selected_patterns pii_types)) (scanned_texts ev)")
  case None
  then have no: "\<not> (\<exists>t \<in> set (scanned_texts ev). \<exists>(k, r) \<in> set (selected_patterns pii_types). rx_search r t \<noteq> None)"
    unfolding first_hit_None scan_text_None by fastforce
  show ?thesis unfolding if_not_P [OF no] pii_by_texts None by (simp add: ALLOW_RESPONSE_def pget_def)
next
  case (Some d)
  then have "first_hit (scan_text (effective_action action) (selected_patterns pii_types)) (scanned_texts ev) \<noteq> None" by simp
  then have "\<exists>t \<in> set (scanned_texts ev). \<exists>(k, r) \<in> set (selected_patterns pii_types). rx_search r t \<noteq> None"
    unfolding first_hit_None scan_text_None by blast
  then show ?thesis using Some first_hit_scan_action [OF Some] by (simp add: pii_by_texts)
qed

section \<open>A social security number in a text\<close>

text \<open>Where a pattern that reads \<open>w\<close> applies inside a text.\<close>

lemma Seq_eats:
  "eats r w \<Longrightarrow> rx_rel q (rev w @ b, t) y \<Longrightarrow> rx_rel (Seq r q) (b, w @ t) y"
  by (auto simp: eats_def)

lemma Seq_assert: "p b t \<Longrightarrow> rx_rel q (b, t) y \<Longrightarrow> rx_rel (Seq (Assert p) q) (b, t) y"
  by auto

lemma digits_eaten: "list_all is_digit w \<Longrightarrow> length w = n \<Longrightarrow> eats (rx_times n rx_digit) w"
  by (rule eats_times) (auto simp: rx_digit_def list_all_iff intro: eats_Cls)

lemma word_edge_digits: "list_all is_digit w \<Longrightarrow> w \<noteq> [] \<Longrightarrow> word_edge (w @ t)"
  by (cases w) (auto simp: word_edge_def is_word_char_def)

lemma ssn_found:
  assumes "list_all is_digit a" and "length a = 3" and "list_all is_digit b" and "length b = 2" and "list_all is_digit c" and "length c = 4"
    and "\<not> word_edge (rev u)" and "\<not> word_edge v"
  shows "rx_search SSN_RE (u @ (a @ ''-'' @ b @ ''-'' @ c) @ v) \<noteq> None"
proof -
  let ?dash = "''-'' :: string"
  have ne: "a \<noteq> []" "c \<noteq> []" using assms(2,6) by auto
  have "\<exists>y. rx_rel SSN_RE (rev u, a @ ?dash @ b @ ?dash @ c @ v) y"
    unfolding SSN_RE_def rx_seq.simps rx_boundary_def
  proof (rule exI, rule Seq_assert)
    show "word_edge (rev u) \<noteq> word_edge (a @ ?dash @ b @ ?dash @ c @ v)"
      using assms(7) word_edge_digits [OF assms(1) ne(1)] by simp
    have e: "eats (rx_times 3 rx_digit) a" "eats (rx_times 2 rx_digit) b" "eats (rx_times 4 rx_digit) c"
      using assms(1-6) by (simp_all add: digits_eaten)
    have "word_edge (rev c @ t)" for t using word_edge_digits [of "rev c"] assms(5) ne(2) by (simp add: list_all_iff)
    then have fin: "rx_rel (Assert (\<lambda>b t. word_edge b \<noteq> word_edge t)) (rev c @ t, v) (rev c @ t, v)" for t
      using assms(8) by simp
    show "rx_rel (Seq (rx_times 3 rx_digit) (Seq (rx_char (CHR ''-'')) (Seq (rx_times 2 rx_digit) (Seq (rx_char (CHR ''-''))
        (Seq (rx_times 4 rx_digit) (Assert (\<lambda>b t. word_edge b \<noteq> word_edge t)))))))
      (rev u, a @ ?dash @ b @ ?dash @ c @ v) (rev c @ rev ?dash @ rev b @ rev ?dash @ rev a @ rev u, v)"
      by (intro Seq_eats e eats_char fin)
  qed
  then obtain y where y: "rx_rel SSN_RE (rev u, (a @ ?dash @ b @ ?dash @ c) @ v) y" by auto
  show ?thesis unfolding rx_search_iff by (intro exI conjI) (rule refl, rule y)
qed

text \<open>
  The PII policy stops exactly the events with a match: its verdict is the configured action when a selected pattern matches
  somewhere in a scanned text (the user message or its text blocks on a request, the system prompt preview or the last user message on an LLM
  request) and allow otherwise; in particular a social security number that is not glued to other word characters is
  stopped wherever it stands in the text.
\<close>

theorem pii_match_is_stopped:
  assumes "list_all is_digit (a @ b @ c)" and "length a = 3" and "length b = 2" and "length c = 4"
    and "\<not> word_edge (rev u)" and "\<not> word_edge v" and "pii_types = None \<or> pii_types = Some ts \<and> ''ssn'' \<in> set ts"
    and "u @ (a @ ''-'' @ b @ ''-'' @ c) @ v \<in> set (scanned_texts ev)"
  shows "pget (deny_pii_in_llm_request pii_types action ev) ''result'' = PStr (effective_action action) \<and>
    pget (deny_pii_in_llm_request types action ev') ''result'' =
      PStr (if \<exists>t \<in> set (scanned_texts ev'). \<exists>(k, r) \<in> set (selected_patterns types). rx_search r t \<noteq> None
            then effective_action action else ''ALLOW'')"
proof -
  have "(''ssn'', SSN_RE) \<in> set (selected_patterns pii_types)"
    using assms(7) by (cases ts) (auto simp: selected_patterns_def PII_CATEGORY_PATTERNS_def)
  moreover have "rx_search SSN_RE (u @ (a @ ''-'' @ b @ ''-'' @ c) @ v) \<noteq> None"
    using ssn_found [of a b c u v] assms(1-6) by simp
  ultimately have ex: "\<exists>t \<in> set (scanned_texts ev). \<exists>(k, r) \<in> set (selected_patterns pii_types). rx_search r t \<noteq> None"
    using assms(8) by blast
  show ?thesis using pii_result [of pii_types action ev, unfolded if_P [OF ex]] pii_result [of types action ev'] by blast
qed

definition pii_event :: "string \<Rightarrow> pydict" where
  "pii_event t = [(''type'', PStr ''request''), (''data'', PStr t)]"

theorem pii_match_is_stopped_witness:
  "pget (deny_pii_in_llm_request None ''DENY'' (pii_event ''my number: 123-45-6789.'')) ''result'' = PStr ''DENY''"
proof -
  have "''my number: '' @ (''123'' @ ''-'' @ ''45'' @ ''-'' @ ''6789'') @ ''.'' \<in> set (scanned_texts (pii_event ''my number: 123-45-6789.''))"
    by (simp add: scanned_texts_def pii_event_def pget_def)
  moreover have "list_all is_digit (''123'' @ ''45'' @ ''6789'')" "\<not> word_edge (rev ''my number: '')" "\<not> word_edge ''.''"
    by (simp_all add: word_edge_def is_word_char_def is_digit_def char_code_def)
  ultimately show ?thesis
    using pii_match_is_stopped [of "''123''" "''45''" "''6789''" "''my number: ''" "''.''" None "[]"
        "pii_event ''my number: 123-45-6789.''" "''DENY''" None "[]"]
    by (simp add: effective_action_def)
qed

end
