(* ===== verification/Paging.thy ===== *)
theory Paging
  imports ConversationStore "HOL-Library.Product_Lexorder"
begin

text \<open>
  Cursor paging: the page the listing queries of the conversation store cut from an ordered result, the loops of
  their clients that follow the cursor from page to page, and the interface between the two. The locale \<open>cursor_pages\<close>
  says what a listing promises; inside it the loops are shown to end and to see every row once, in order.
\<close>

section \<open>Pages\<close>

text \<open>The query asks for one row more than the page holds, to learn whether more follow.\<close>

definition page_of :: "('a \<Rightarrow> string) \<Rightarrow> nat \<Rightarrow> 'a list \<Rightarrow> 'a paged_list" where
  "page_of ident limit result =
     (let got = take (limit + 1) result;
          more = limit < length got;
          rows = (if more then take limit got else got)
      in \<lparr>pg_data = rows,
          pg_first_id = (if rows = [] then None else Some (ident (hd rows))),
          pg_last_id = (if rows = [] then None else Some (ident (last rows))),
          pg_has_more = more\<rparr>)"

lemma page_of_data [simp]: "pg_data (page_of ident n xs) = take n xs"
  by (simp add: page_of_def Let_def min_def)

lemma page_of_more [simp]: "pg_has_more (page_of ident n xs) \<longleftrightarrow> n < length xs"
  by (simp add: page_of_def Let_def min_def)

lemma page_of_last: "pg_last_id (page_of ident n xs) = (if take n xs = [] then None else Some (ident (last (take n xs))))"
  by (auto simp: page_of_def Let_def min_def)

lemma find_append: "find P (xs @ ys) = (case find P xs of Some x \<Rightarrow> Some x | None \<Rightarrow> find P ys)"
  by (induction xs) auto

lemma find_SomeD: "find P xs = Some x \<Longrightarrow> x \<in> set xs \<and> P x"
  by (auto simp: find_Some_iff in_set_conv_nth)

section \<open>Loops over pages\<close>

text \<open>The loop of \<^verbatim>\<open>fetch_all_items\<close>; \<open>None\<close> is a loop that does not end.\<close>

partial_function (option) drain_pages :: "(string option \<Rightarrow> 'a paged_list) \<Rightarrow> string option \<Rightarrow> 'a list option" where
  "drain_pages fetch cursor =
     (let page = fetch cursor
      in if \<not> pg_has_more page then Some (pg_data page)
         else Option.bind (drain_pages fetch (pg_last_id page)) (\<lambda>rest. Some (pg_data page @ rest)))"

text \<open>The lookup loops of the session routes: the first row with a property, over all pages.\<close>

partial_function (option) seek_pages :: "(string option \<Rightarrow> 'a paged_list) \<Rightarrow> ('a \<Rightarrow> bool) \<Rightarrow> string option \<Rightarrow> 'a option option" where
  "seek_pages fetch hit cursor =
     (let page = fetch cursor
      in (case find hit (pg_data page) of
            Some x \<Rightarrow> Some (Some x)
          | None \<Rightarrow>
              if \<not> pg_has_more page \<or> pg_last_id page = None then Some None
              else seek_pages fetch hit (pg_last_id page)))"

text \<open>The loop of \<^verbatim>\<open>_descendant_sessions\<close>: an action on every row, over all pages.\<close>

partial_function (option) fold_pages :: "(string option \<Rightarrow> 'a paged_list) \<Rightarrow> ('a \<Rightarrow> 'b \<Rightarrow> 'b) \<Rightarrow> string option \<Rightarrow> 'b \<Rightarrow> 'b option" where
  "fold_pages fetch act cursor acc =
     (let page = fetch cursor;
          acc1 = fold act (pg_data page) acc
      in if \<not> pg_has_more page \<or> pg_last_id page = None then Some acc1
         else fold_pages fetch act (pg_last_id page) acc1)"

declare fold_pages.simps [code]
declare drain_pages.simps [code]
declare seek_pages.simps [code]

section \<open>The interface\<close>

locale cursor_pages =
  fixes fetch :: "'s \<Rightarrow> string option \<Rightarrow> 'a paged_list"
    and listing :: "'s \<Rightarrow> 'a list"
    and ident :: "'a \<Rightarrow> string"
    and size :: "'s \<Rightarrow> nat"
    and ok :: "'s \<Rightarrow> bool"
  assumes size_pos: "ok s \<Longrightarrow> 0 < size s"
    and fetch_first: "ok s \<Longrightarrow> fetch s None = page_of ident (size s) (listing s)"
    and fetch_next: "ok s \<Longrightarrow> listing s = pre @ x # post \<Longrightarrow> fetch s (Some (ident x)) = page_of ident (size s) post"
begin

definition cursor_at :: "'a list \<Rightarrow> string option" where
  "cursor_at pre = (if pre = [] then None else Some (ident (last pre)))"

lemma fetch_at:
  assumes "ok s" and "listing s = pre @ xs"
  shows "fetch s (cursor_at pre) = page_of ident (size s) xs"
proof (cases pre rule: rev_cases)
  case Nil
  then show ?thesis using assms fetch_first by (simp add: cursor_at_def)
next
  case (snoc ys y)
  then show ?thesis using assms fetch_next [of s ys y xs] by (simp add: cursor_at_def)
qed

lemma last_at:
  assumes "ok s" and "size s < length xs"
  shows "pg_last_id (page_of ident (size s) xs) = cursor_at (pre @ take (size s) xs)"
proof -
  have "take (size s) xs \<noteq> []" using assms size_pos by fastforce
  then show ?thesis by (auto simp: page_of_last cursor_at_def)
qed

lemma drain_rest:
  assumes "ok s" and "listing s = pre @ xs"
  shows "drain_pages (fetch s) (cursor_at pre) = Some xs"
  using assms(2)
proof (induction "length xs" arbitrary: pre xs rule: less_induct)
  case less
  note page = fetch_at [OF assms(1) less.prems]
  show ?case
  proof (cases "size s < length xs")
    case False
    then show ?thesis by (subst drain_pages.simps) (simp add: page)
  next
    case True
    have "listing s = (pre @ take (size s) xs) @ drop (size s) xs" using less.prems by simp
    then have "drain_pages (fetch s) (cursor_at (pre @ take (size s) xs)) = Some (drop (size s) xs)"
      using less.hyps [of "drop (size s) xs"] True size_pos [OF assms(1)] by simp
    then show ?thesis
      using True last_at [OF assms(1) True] by (subst drain_pages.simps) (simp add: page)
  qed
qed

lemma drain_all: "ok s \<Longrightarrow> drain_pages (fetch s) None = Some (listing s)"
  using drain_rest [of s "[]" "listing s"] by (simp add: cursor_at_def)

lemma drain_after: "ok s \<Longrightarrow> listing s = pre @ x # post \<Longrightarrow> drain_pages (fetch s) (Some (ident x)) = Some post"
  using drain_rest [of s "pre @ [x]" post] by (simp add: cursor_at_def)

lemma seek_rest:
  assumes "ok s" and "listing s = pre @ xs"
  shows "seek_pages (fetch s) hit (cursor_at pre) = Some (find hit xs)"
  using assms(2)
proof (induction "length xs" arbitrary: pre xs rule: less_induct)
  case less
  note page = fetch_at [OF assms(1) less.prems]
  have split: "find hit xs = (case find hit (take (size s) xs) of Some x \<Rightarrow> Some x | None \<Rightarrow> find hit (drop (size s) xs))"
    using find_append [of hit "take (size s) xs" "drop (size s) xs"] by simp
  show ?case
  proof (cases "size s < length xs")
    case False
    then show ?thesis by (subst seek_pages.simps) (auto simp: page Let_def split: option.splits)
  next
    case True
    have "listing s = (pre @ take (size s) xs) @ drop (size s) xs" using less.prems by simp
    then have "seek_pages (fetch s) hit (cursor_at (pre @ take (size s) xs)) = Some (find hit (drop (size s) xs))"
      using less.hyps [of "drop (size s) xs"] True size_pos [OF assms(1)] by simp
    moreover have "cursor_at (pre @ take (size s) xs) \<noteq> None" using True size_pos [OF assms(1)] by (auto simp: cursor_at_def)
    ultimately show ?thesis
      using True last_at [OF assms(1) True] by (subst seek_pages.simps) (auto simp: page split Let_def split: option.splits)
  qed
qed

lemma fold_rest:
  assumes "ok s" and "listing s = pre @ xs"
  shows "fold_pages (fetch s) act (cursor_at pre) acc = Some (fold act xs acc)"
  using assms(2)
proof (induction "length xs" arbitrary: pre xs acc rule: less_induct)
  case less
  note page = fetch_at [OF assms(1) less.prems]
  show ?case
  proof (cases "size s < length xs")
    case False
    then show ?thesis by (subst fold_pages.simps) (simp add: page Let_def)
  next
    case True
    have "listing s = (pre @ take (size s) xs) @ drop (size s) xs" using less.prems by simp
    then have "fold_pages (fetch s) act (cursor_at (pre @ take (size s) xs)) a = Some (fold act (drop (size s) xs) a)" for a
      using less.hyps [of "drop (size s) xs"] True size_pos [OF assms(1)] by simp
    moreover have "cursor_at (pre @ take (size s) xs) \<noteq> None" using True size_pos [OF assms(1)] by (auto simp: cursor_at_def)
    moreover have "fold act (drop (size s) xs) (fold act (take (size s) xs) acc) = fold act xs acc"
      using fold_append [of act "take (size s) xs" "drop (size s) xs"] by simp
    ultimately show ?thesis
      using True last_at [OF assms(1) True] by (subst fold_pages.simps) (auto simp: page Let_def)
  qed
qed

lemma fold_all: "ok s \<Longrightarrow> fold_pages (fetch s) act None acc = Some (fold act (listing s) acc)"
  using fold_rest [of s "[]" "listing s"] by (simp add: cursor_at_def)

lemma seek_all: "ok s \<Longrightarrow> seek_pages (fetch s) hit None = Some (find hit (listing s))"
  using seek_rest [of s "[]" "listing s"] by (simp add: cursor_at_def)

end

section \<open>Listings by a key\<close>

text \<open>\<^verbatim>\<open>ORDER BY\<close> a key whose values are distinct, and the rows beyond a cursor row.\<close>

definition keyed_listing :: "('a \<Rightarrow> 'k::linorder) \<Rightarrow> bool \<Rightarrow> 'a list \<Rightarrow> 'a list" where
  "keyed_listing key ascending rows = (if ascending then sort_key key rows else rev (sort_key key rows))"

definition beyond :: "bool \<Rightarrow> 'k::linorder \<Rightarrow> 'k \<Rightarrow> bool" where
  "beyond ascending c k = (if ascending then c < k else k < c)"

lemma set_keyed_listing [simp]: "set (keyed_listing key d rows) = set rows"
  by (simp add: keyed_listing_def)

lemma filter_keyed_listing: "filter P (keyed_listing key d rows) = keyed_listing key d (filter P rows)"
  by (simp add: keyed_listing_def filter_sort [symmetric] rev_filter)

lemma keyed_listing_sorted:
  assumes "inj_on key (set rows)" and "distinct rows"
  shows "sorted_wrt (\<lambda>x y. beyond d (key x) (key y)) (keyed_listing key d rows)"
proof -
  have "sorted_wrt (<) (map key (sort_key key rows))"
    using assms by (simp add: strict_sorted_iff distinct_map)
  then have "sorted_wrt (\<lambda>x y. key x < key y) (sort_key key rows)" by (simp add: sorted_wrt_map)
  then show ?thesis by (auto simp: keyed_listing_def beyond_def sorted_wrt_rev)
qed

lemma beyond_filter:
  assumes "sorted_wrt (\<lambda>x y. beyond d (key x) (key y)) (pre @ x # post)"
  shows "filter (\<lambda>r. beyond d (key x) (key r)) (pre @ x # post) = post"
    and "filter (\<lambda>r. beyond (\<not> d) (key x) (key r)) (pre @ x # post) = pre"
proof -
  have post: "\<forall>r \<in> set post. beyond d (key x) (key r)" and pre: "\<forall>r \<in> set pre. beyond d (key r) (key x)"
    using assms by (auto simp: sorted_wrt_append)
  have "filter (\<lambda>r. beyond d (key x) (key r)) pre = []" "filter (\<lambda>r. beyond d (key x) (key r)) post = post"
    using pre post by (auto simp: filter_empty_conv beyond_def split: if_splits)
  moreover have "\<not> beyond d (key x) (key x)" by (simp add: beyond_def)
  ultimately show "filter (\<lambda>r. beyond d (key x) (key r)) (pre @ x # post) = post" by simp
  have "filter (\<lambda>r. beyond (\<not> d) (key x) (key r)) pre = pre" "filter (\<lambda>r. beyond (\<not> d) (key x) (key r)) post = []"
    using pre post by (auto simp: filter_empty_conv filter_id_conv beyond_def split: if_splits)
  then show "filter (\<lambda>r. beyond (\<not> d) (key x) (key r)) (pre @ x # post) = pre" by (simp add: beyond_def)
qed

text \<open>The rows beyond the cursor row are those listed after it; the rows on the other side those listed before it.\<close>

lemma keyed_listing_after:
  assumes "inj_on key (set rows)" and "distinct rows" and "keyed_listing key d rows = pre @ x # post"
  shows "keyed_listing key d (filter (\<lambda>r. beyond d (key x) (key r)) rows) = post"
  using beyond_filter(1) [of d key pre x post] keyed_listing_sorted [OF assms(1,2), of d]
  unfolding filter_keyed_listing [symmetric] assms(3) by simp

lemma keyed_listing_before:
  assumes "inj_on key (set rows)" and "distinct rows" and "keyed_listing key d rows = pre @ x # post"
  shows "keyed_listing key d (filter (\<lambda>r. beyond (\<not> d) (key x) (key r)) rows) = pre"
  using beyond_filter(2) [of d key pre x post] keyed_listing_sorted [OF assms(1,2), of d]
  unfolding filter_keyed_listing [symmetric] assms(3) by simp

end
