(* ===== verification/SessionStore.thy ===== *)
theory SessionStore
  imports Paging "HOL-Library.Char_ord" "HOL-Library.List_Lexorder"
begin

text \<open>
  Sessions in the SQLAlchemy conversation store (\<^verbatim>\<open>stores/conversation_store/sqlalchemy_store.py\<close>): the rows of
  conversations with their bindings, the items of a conversation with their positions, labels and session-scoped
  agents, and the operations that create, list, extend, fork, rebind and delete them. A table is a list
  of rows in the order of insertion (the \<^verbatim>\<open>rowid\<close> of SQLite); a transaction is one function, and one that raises
  leaves the database as it was. Generated identifiers and the clock are arguments. Text
  columns hold text: the JSON payload of an item is the text the column holds.
\<close>

section \<open>Tables\<close>

record sess_row =
  sr_id :: string
  sr_created_at :: int
  sr_updated_at :: int
  sr_title :: "string option"
  sr_kind :: string
  sr_parent :: "string option"
  sr_root :: string
  sr_agent :: "string option"
  sr_runner :: "string option"
  sr_host :: "string option"
  sr_reasoning_effort :: "string option"
  sr_model_override :: "string option"
  sr_cost_control :: "string option"
  sr_harness_override :: "string option"
  sr_sub_agent_name :: "string option"
  sr_next_position :: "int option"
  sr_external_session :: "string option"
  sr_launch_args :: "string list option"
  sr_workspace :: "string option"
  sr_git_branch :: "string option"
  sr_archived :: bool

record item_row =
  ir_id :: string
  ir_conv :: string
  ir_response :: string
  ir_created_at :: int
  ir_status :: string
  ir_position :: int
  ir_type :: string
  ir_data :: string
  ir_search :: string
  ir_created_by :: "string option"

record agent_row =
  ar_id :: string
  ar_created_at :: int
  ar_name :: string
  ar_bundle :: string
  ar_version :: int
  ar_kind :: string
  ar_description :: "string option"

record sess_db =
  sd_rows :: "sess_row list"
  sd_items :: "item_row list"
  sd_labels :: "string \<Rightarrow> string dict"
  sd_agents :: "agent_row list"
  sd_grants :: "(string \<times> string \<times> int) list"
  sd_comments :: "(string \<times> string) list"
  sd_policies :: "(string \<times> string option) list"

text \<open>Exceptions of the store and of the database driver.\<close>

datatype store_exn =
    ConversationNotFoundError string
  | NameAlreadyExistsError string
  | IntegrityError string
  | LookupError string
  | StoreValueError string
  | AssertionError

type_synonym 'a store_res = "store_exn + 'a"

text \<open>A \<^verbatim>\<open>Conversation\<close> entity: the row and the labels fetched with it.\<close>

type_synonym session = "sess_row \<times> string dict"

section \<open>Constants\<close>

definition FORK_SOURCE_LABEL_KEY :: string where
  "FORK_SOURCE_LABEL_KEY = ''omnigent.fork.source_id''"

definition FORK_SOURCE_EXTERNAL_SESSION_LABEL_KEY :: string where
  "FORK_SOURCE_EXTERNAL_SESSION_LABEL_KEY = ''omnigent.fork.source_external_session_id''"

definition FORK_CARRY_HISTORY_LABEL_KEY :: string where
  "FORK_CARRY_HISTORY_LABEL_KEY = ''omnigent.fork.carry_history''"

definition SWITCH_PREVIOUS_BUILTIN_LABEL_KEY :: string where
  "SWITCH_PREVIOUS_BUILTIN_LABEL_KEY = ''omnigent.switch.previous_builtin_id''"

definition CODEX_NATIVE_BYPASS_SANDBOX_LABEL_KEY :: string where
  "CODEX_NATIVE_BYPASS_SANDBOX_LABEL_KEY = ''omnigent.codex_native.bypass_sandbox''"

definition PROJECT_LABEL_KEY :: string where
  "PROJECT_LABEL_KEY = ''omni_project''"

definition WRAPPER_LABEL_KEY :: string where
  "WRAPPER_LABEL_KEY = ''omnigent.wrapper''"

definition UI_MODE_LABEL_KEY :: string where
  "UI_MODE_LABEL_KEY = ''omnigent.ui''"

definition INSTANCE_SCOPED_LABEL_KEYS :: "string list" where
  "INSTANCE_SCOPED_LABEL_KEYS =
     [''omnigent.claude_native.bridge_id'', ''omnigent.codex_native.bridge_id'', ''omnigent.last_context_tokens'',
      ''omnigent.last_context_window'', CODEX_NATIVE_BYPASS_SANDBOX_LABEL_KEY]"

definition AGENT_KIND_SESSION :: string where
  "AGENT_KIND_SESSION = ''session''"

section \<open>Rows and constraints\<close>

definition find_row :: "sess_db \<Rightarrow> string \<Rightarrow> sess_row option" where
  "find_row db cid = find (\<lambda>r. sr_id r = cid) (sd_rows db)"

text \<open>
  The table's constraints on a row next to the others: check constraints first, then the primary key and the
  partial unique index, in which a missing title equals no other.
\<close>

definition same_child :: "sess_row \<Rightarrow> sess_row \<Rightarrow> bool" where
  "same_child r q \<longleftrightarrow> sr_parent r \<noteq> None \<and> sr_parent r = sr_parent q \<and> sr_title r \<noteq> None \<and> sr_title r = sr_title q"

definition row_checks :: "sess_row \<Rightarrow> bool" where
  "row_checks r \<longleftrightarrow> sr_kind r \<in> {''default'', ''sub_agent''} \<and> (sr_host r = None \<or> sr_workspace r \<noteq> None)"

definition put_row :: "sess_db \<Rightarrow> sess_row \<Rightarrow> sess_db store_res" where
  "put_row db row =
     (let others = filter (\<lambda>r. sr_id r \<noteq> sr_id row) (sd_rows db)
      in if \<not> row_checks row then Inl (IntegrityError ''CHECK constraint failed'')
         else if list_ex (same_child row) others then Inl (IntegrityError ''ix_conversations_parent_title_unique'')
         else Inr (db\<lparr>sd_rows := map (\<lambda>r. if sr_id r = sr_id row then row else r) (sd_rows db)\<rparr>))"

definition add_row :: "sess_db \<Rightarrow> sess_row \<Rightarrow> sess_db store_res" where
  "add_row db row =
     (if \<not> row_checks row then Inl (IntegrityError ''CHECK constraint failed'')
      else if find_row db (sr_id row) \<noteq> None then Inl (IntegrityError ''UNIQUE constraint failed: conversations.id'')
      else if list_ex (same_child row) (sd_rows db) then Inl (IntegrityError ''ix_conversations_parent_title_unique'')
      else Inr (db\<lparr>sd_rows := sd_rows db @ [row]\<rparr>))"

definition bind_store :: "'a store_res \<Rightarrow> ('a \<Rightarrow> 'b store_res) \<Rightarrow> 'b store_res" where
  "bind_store r f = (case r of Inl e \<Rightarrow> Inl e | Inr x \<Rightarrow> f x)"

lemma bind_store_Inr_iff: "bind_store r f = Inr y \<longleftrightarrow> (\<exists>x. r = Inr x \<and> f x = Inr y)"
  by (auto simp: bind_store_def split: sum.splits)

definition upsert_labels :: "sess_db \<Rightarrow> string \<Rightarrow> string dict \<Rightarrow> sess_db" where
  "upsert_labels db cid updates =
     db\<lparr>sd_labels := (sd_labels db)(cid := dupdate (sd_labels db cid) (map (\<lambda>(k, v). (k, take LABEL_VALUE_MAX_LEN v)) updates))\<rparr>"

definition not_found :: "string \<Rightarrow> store_exn" where
  "not_found cid = ConversationNotFoundError (''conversation '' @ repr_str cid @ '' does not exist'')"

text \<open>A row as the constructor leaves it, with the column defaults.\<close>

definition blank_row :: "string \<Rightarrow> int \<Rightarrow> sess_row" where
  "blank_row cid now =
     \<lparr>sr_id = cid, sr_created_at = now, sr_updated_at = now, sr_title = None, sr_kind = ''default'', sr_parent = None, sr_root = cid,
      sr_agent = None, sr_runner = None, sr_host = None, sr_reasoning_effort = None, sr_model_override = None, sr_cost_control = None,
      sr_harness_override = None, sr_sub_agent_name = None, sr_next_position = Some 0, sr_external_session = None,
      sr_launch_args = None, sr_workspace = None, sr_git_branch = None, sr_archived = False\<rparr>"

section \<open>Creation\<close>

text \<open>The arguments of \<^verbatim>\<open>create_conversation\<close>.\<close>

record new_session =
  ns_kind :: string
  ns_title :: "string option"
  ns_parent :: "string option"
  ns_agent :: "string option"
  ns_runner :: "string option"
  ns_sub_agent_name :: "string option"
  ns_host :: "string option"
  ns_workspace :: "string option"
  ns_git_branch :: "string option"
  ns_launch_args :: "string list option"

definition parent_missing :: "string \<Rightarrow> store_exn" where
  "parent_missing p = ConversationNotFoundError (''parent conversation '' @ repr_str p @ '' does not exist'')"

definition inherited_root :: "sess_db \<Rightarrow> string \<Rightarrow> string option \<Rightarrow> string store_res" where
  "inherited_root db new_id parent =
     (case parent of
        None \<Rightarrow> Inr new_id
      | Some p \<Rightarrow> (case find_row db p of None \<Rightarrow> Inl (parent_missing p) | Some r \<Rightarrow> Inr (sr_root r)))"

definition repr_opt :: "string option \<Rightarrow> string" where
  "repr_opt s = (case s of None \<Rightarrow> ''None'' | Some t \<Rightarrow> repr_str t)"

definition created_row :: "string \<Rightarrow> int \<Rightarrow> string \<Rightarrow> new_session \<Rightarrow> sess_row" where
  "created_row new_id now root_id args =
     (blank_row new_id now)\<lparr>sr_title := ns_title args, sr_kind := ns_kind args, sr_parent := ns_parent args,
       sr_root := root_id, sr_agent := ns_agent args, sr_runner := ns_runner args, sr_host := ns_host args,
       sr_sub_agent_name := ns_sub_agent_name args, sr_workspace := ns_workspace args,
       sr_git_branch := ns_git_branch args, sr_launch_args := ns_launch_args args\<rparr>"

text \<open>The violation of the index on sibling titles is reported as an error of its own.\<close>

definition name_conflict :: "new_session \<Rightarrow> store_exn \<Rightarrow> store_exn" where
  "name_conflict args e =
     (if e = IntegrityError ''ix_conversations_parent_title_unique'' then
        NameAlreadyExistsError (''sub-agent name already exists under parent '' @ repr_opt (ns_parent args) @
          '': title='' @ repr_opt (ns_title args))
      else e)"

definition create_conversation :: "sess_db \<Rightarrow> string \<Rightarrow> int \<Rightarrow> new_session \<Rightarrow> (sess_db \<times> session) store_res" where
  "create_conversation db new_id now args =
     bind_store (inherited_root db new_id (ns_parent args)) (\<lambda>root_id.
       (case add_row db (created_row new_id now root_id args) of
          Inr db' \<Rightarrow> Inr (db', (created_row new_id now root_id args, []))
        | Inl e \<Rightarrow> Inl (name_conflict args e)))"

definition new_session_agent_row :: "string \<Rightarrow> string \<Rightarrow> string \<Rightarrow> string option \<Rightarrow> int \<Rightarrow> agent_row" where
  "new_session_agent_row agent_id agent_name bundle description now =
     \<lparr>ar_id = agent_id, ar_created_at = now, ar_name = agent_name, ar_bundle = bundle, ar_version = 1,
      ar_kind = AGENT_KIND_SESSION, ar_description = description\<rparr>"

definition find_agent :: "sess_db \<Rightarrow> string \<Rightarrow> agent_row option" where
  "find_agent db aid = find (\<lambda>a. ar_id a = aid) (sd_agents db)"

definition add_agent :: "sess_db \<Rightarrow> agent_row \<Rightarrow> sess_db store_res" where
  "add_agent db a =
     (if find_agent db (ar_id a) \<noteq> None then Inl (IntegrityError ''UNIQUE constraint failed: agents.id'')
      else Inr (db\<lparr>sd_agents := sd_agents db @ [a]\<rparr>))"

record new_agent_session =
  na_agent_id :: string
  na_agent_name :: string
  na_bundle :: string
  na_description :: "string option"
  na_title :: "string option"
  na_labels :: "string dict"
  na_reasoning_effort :: "string option"
  na_workspace :: "string option"
  na_launch_args :: "string list option"
  na_parent :: "string option"
  na_runner :: "string option"

definition new_session_conversation_row :: "string \<Rightarrow> int \<Rightarrow> string \<Rightarrow> new_agent_session \<Rightarrow> sess_row" where
  "new_session_conversation_row new_id now root_id args =
     (blank_row new_id now)\<lparr>sr_title := na_title args,
       sr_kind := (case na_parent args of Some (c # cs) \<Rightarrow> ''sub_agent'' | _ \<Rightarrow> ''default''), sr_parent := na_parent args,
       sr_root := (if root_id = [] then new_id else root_id), sr_runner := na_runner args,
       sr_reasoning_effort := na_reasoning_effort args, sr_launch_args := na_launch_args args, sr_workspace := na_workspace args\<rparr>"

definition create_session_with_agent :: "sess_db \<Rightarrow> string \<Rightarrow> int \<Rightarrow> new_agent_session \<Rightarrow> (sess_db \<times> session \<times> agent_row) store_res" where
  "create_session_with_agent db new_id now args =
     bind_store (inherited_root db new_id (na_parent args)) (\<lambda>root_id.
       let row = new_session_conversation_row new_id now root_id args;
           agent = new_session_agent_row (na_agent_id args) (na_agent_name args) (na_bundle args) (na_description args) now;
           bound = row\<lparr>sr_agent := Some (na_agent_id args)\<rparr>
       in bind_store (add_row db row) (\<lambda>db1.
          bind_store (add_agent db1 agent) (\<lambda>db2.
          bind_store (put_row db2 bound) (\<lambda>db3.
            Inr (if na_labels args = [] then db3 else upsert_labels db3 new_id (na_labels args), (bound, na_labels args), agent)))))"

section \<open>Reading\<close>

definition get_session :: "sess_db \<Rightarrow> string \<Rightarrow> session option" where
  "get_session db cid = map_option (\<lambda>r. (r, sd_labels db cid)) (find_row db cid)"

definition get_runner_ids :: "sess_db \<Rightarrow> string list \<Rightarrow> string option dict" where
  "get_runner_ids db cids = map (\<lambda>r. (sr_id r, sr_runner r)) (filter (\<lambda>r. sr_id r \<in> set cids) (sd_rows db))"

record session_connectivity =
  sc_runner_id :: "string option"
  sc_host_id :: "string option"
  sc_needs_workspace :: bool

definition get_session_connectivity :: "sess_db \<Rightarrow> string list \<Rightarrow> session_connectivity dict" where
  "get_session_connectivity db cids =
     map (\<lambda>r. (sr_id r, \<lparr>sc_runner_id = sr_runner r, sc_host_id = sr_host r,
                 sc_needs_workspace = dhas (sd_labels db (sr_id r)) FORK_SOURCE_LABEL_KEY\<rparr>))
       (filter (\<lambda>r. sr_id r \<in> set cids) (sd_rows db))"

definition get_sessions :: "sess_db \<Rightarrow> string list \<Rightarrow> session dict" where
  "get_sessions db cids =
     map (\<lambda>r. (sr_id r, (r, sd_labels db (sr_id r)))) (filter (\<lambda>r. sr_id r \<in> set cids) (sd_rows db))"

text \<open>Newest first, the later row first among equal times.\<close>

definition newest_first :: "sess_row list \<Rightarrow> sess_row list" where
  "newest_first rows = rev (sort_key sr_created_at rows)"

definition list_child_conversation_ids_by_parent :: "sess_db \<Rightarrow> string list \<Rightarrow> string list dict" where
  "list_child_conversation_ids_by_parent db parents =
     map (\<lambda>p. (p, map sr_id (newest_first (filter (\<lambda>r. sr_kind r = ''sub_agent'' \<and> sr_parent r = Some p) (sd_rows db)))))
       (rev (remdups (rev parents)))"

section \<open>Items\<close>

text \<open>A new item: the payload as serialized text and the text extracted for search.\<close>

record new_item =
  ni_type :: string
  ni_response :: string
  ni_data :: string
  ni_search :: string
  ni_created_by :: "string option"

definition strip_nul_bytes :: "string \<Rightarrow> string" where
  "strip_nul_bytes s = filter (\<lambda>c. char_code c \<noteq> 0) s"

definition add_item :: "sess_db \<Rightarrow> item_row \<Rightarrow> sess_db store_res" where
  "add_item db item =
     (if list_ex (\<lambda>r. ir_id r = ir_id item) (sd_items db) then Inl (IntegrityError ''UNIQUE constraint failed: conversation_items.id'')
      else if list_ex (\<lambda>r. ir_conv r = ir_conv item \<and> ir_position r = ir_position item) (sd_items db) then
        Inl (IntegrityError ''ix_conversation_items_conversation_id_position'')
      else Inr (db\<lparr>sd_items := sd_items db @ [item]\<rparr>))"

fun add_items :: "sess_db \<Rightarrow> item_row list \<Rightarrow> sess_db store_res" where
  "add_items db [] = Inr db"
| "add_items db (r # rs) = bind_store (add_item db r) (\<lambda>db'. add_items db' rs)"

definition conv_items :: "sess_db \<Rightarrow> string \<Rightarrow> item_row list" where
  "conv_items db cid = filter (\<lambda>r. ir_conv r = cid) (sd_items db)"

text \<open>\<^verbatim>\<open>coalesce(max(position), -1) + 1\<close> over the items of a conversation.\<close>

definition scan_position :: "sess_db \<Rightarrow> string \<Rightarrow> int" where
  "scan_position db cid =
     (let ps = map ir_position (conv_items db cid) in (if ps = [] then - 1 else Max (set ps)) + 1)"

definition next_position :: "sess_db \<Rightarrow> string \<Rightarrow> int" where
  "next_position db cid =
     (case find_row db cid of
        Some row \<Rightarrow> (case sr_next_position row of Some n \<Rightarrow> n | None \<Rightarrow> scan_position db cid)
      | None \<Rightarrow> scan_position db cid)"

text \<open>\<open>fresh\<close> gives the generated identifiers of the new items in order.\<close>

fun item_rows :: "string \<Rightarrow> int \<Rightarrow> (nat \<Rightarrow> string) \<Rightarrow> nat \<Rightarrow> int \<Rightarrow> new_item list \<Rightarrow> item_row list" where
  "item_rows cid now fresh i pos [] = []"
| "item_rows cid now fresh i pos (n # ns) =
     \<lparr>ir_id = fresh i, ir_conv = cid, ir_response = ni_response n, ir_created_at = now, ir_status = ''completed'', ir_position = pos,
      ir_type = ni_type n, ir_data = strip_nul_bytes (ni_data n), ir_search = strip_nul_bytes (ni_search n),
      ir_created_by = ni_created_by n\<rparr> # item_rows cid now fresh (Suc i) (pos + 1) ns"

definition set_row :: "(sess_row \<Rightarrow> sess_row) \<Rightarrow> string \<Rightarrow> sess_db \<Rightarrow> sess_db" where
  "set_row f cid db = db\<lparr>sd_rows := map (\<lambda>r. if sr_id r = cid then f r else r) (sd_rows db)\<rparr>"

definition append_items :: "sess_db \<Rightarrow> string \<Rightarrow> int \<Rightarrow> (nat \<Rightarrow> string) \<Rightarrow> new_item list \<Rightarrow> (sess_db \<times> item_row list) store_res" where
  "append_items db cid now fresh items =
     (let pos = next_position db cid;
          rows = item_rows cid now fresh 0 pos items
      in bind_store (add_items db rows) (\<lambda>db1.
           Inr (set_row (\<lambda>r. r\<lparr>sr_updated_at := now, sr_next_position := Some (pos + int (length items))\<rparr>) cid db1, rows)))"

text \<open>The position of a cursor item; a cursor that names no item compares as unknown with every row.\<close>

definition cursor_position :: "sess_db \<Rightarrow> string \<Rightarrow> int option" where
  "cursor_position db iid = map_option ir_position (find (\<lambda>r. ir_id r = iid) (sd_items db))"

definition item_cursor :: "sess_db \<Rightarrow> bool \<Rightarrow> string option \<Rightarrow> item_row \<Rightarrow> bool" where
  "item_cursor db direction cursor r =
     (case cursor of
        None \<Rightarrow> True
      | Some [] \<Rightarrow> True
      | Some c \<Rightarrow> (case cursor_position db c of None \<Rightarrow> False | Some p \<Rightarrow> beyond direction p (ir_position r)))"

definition list_items_page ::
    "sess_db \<Rightarrow> string \<Rightarrow> nat \<Rightarrow> string option \<Rightarrow> string option \<Rightarrow> string \<Rightarrow> string option \<Rightarrow> item_row paged_list" where
  "list_items_page db cid limit after before order ty =
     (let is_asc = (order = ''asc'');
          rows = filter (\<lambda>r. ir_conv r = cid \<and> (case ty of None \<Rightarrow> True | Some t \<Rightarrow> ir_type r = t) \<and>
                   item_cursor db is_asc after r \<and> item_cursor db (\<not> is_asc) before r) (sd_items db)
      in page_of ir_id limit (keyed_listing ir_position is_asc rows))"

definition fetch_all_items :: "sess_db \<Rightarrow> string \<Rightarrow> string option \<Rightarrow> item_row list option" where
  "fetch_all_items db cid after = drain_pages (\<lambda>cursor. list_items_page db cid 100 cursor None ''asc'' None) after"

definition list_latest_message_items :: "sess_db \<Rightarrow> string list \<Rightarrow> nat \<Rightarrow> item_row list dict" where
  "list_latest_message_items db cids limit =
     map (\<lambda>c. (c, take limit (rev (sort_key ir_position (filter (\<lambda>r. ir_conv r = c \<and> ir_type r = ''message'') (sd_items db))))))
       (rev (remdups (rev cids)))"

section \<open>Labels and projects\<close>

definition delete_label :: "sess_db \<Rightarrow> string \<Rightarrow> string \<Rightarrow> sess_db" where
  "delete_label db cid key = db\<lparr>sd_labels := (sd_labels db)(cid := dpop (sd_labels db cid) key)\<rparr>"

definition list_projects :: "sess_db \<Rightarrow> string option \<Rightarrow> string list" where
  "list_projects db accessible_by =
     sort (remdups (concat (map (\<lambda>r. case dget (sd_labels db (sr_id r)) PROJECT_LABEL_KEY of None \<Rightarrow> [] | Some v \<Rightarrow> [v])
       (filter (\<lambda>r. \<not> sr_archived r \<and>
          (case accessible_by of None \<Rightarrow> True | Some u \<Rightarrow> list_ex (\<lambda>(c, w, l). c = sr_id r \<and> w = u) (sd_grants db))) (sd_rows db)))))"

section \<open>Listing sessions\<close>

text \<open>SQL \<^verbatim>\<open>LIKE\<close> of SQLite on lower-cased text.\<close>

fun sql_like :: "string \<Rightarrow> string \<Rightarrow> bool" where
  "sql_like [] s = (s = [])"
| "sql_like (p # ps) [] = (p = CHR ''%'' \<and> sql_like ps [])"
| "sql_like (p # ps) (c # s) =
     (if p = CHR ''%'' then sql_like ps (c # s) \<or> sql_like (p # ps) s
      else if p = CHR ''_'' then sql_like ps s
      else p = c \<and> sql_like ps s)"

record listing_query =
  lq_kind :: "string option"
  lq_parent :: "string option"
  lq_root :: "string option"
  lq_agent_id :: "string option"
  lq_agent_name :: "string option"
  lq_has_agent :: bool
  lq_order :: string
  lq_sort_by :: string
  lq_search :: "string option"
  lq_accessible_by :: "string option"
  lq_include_archived :: bool
  lq_project :: "string option"
  lq_title :: "string option"

definition opt_eq :: "'a option \<Rightarrow> 'a \<Rightarrow> bool" where
  "opt_eq q v = (case q of None \<Rightarrow> True | Some w \<Rightarrow> v = w)"

definition search_matches :: "sess_db \<Rightarrow> string option \<Rightarrow> sess_row \<Rightarrow> bool" where
  "search_matches db q r =
     (case q of
        None \<Rightarrow> True
      | Some [] \<Rightarrow> True
      | Some s \<Rightarrow>
          (let pattern = ''%'' @ str_lower s @ ''%''
           in (case sr_title r of None \<Rightarrow> False | Some t \<Rightarrow> sql_like pattern (str_lower t)) \<or>
              list_ex (\<lambda>i. sql_like pattern (str_lower (ir_search i))) (conv_items db (sr_id r))))"

definition project_matches :: "sess_db \<Rightarrow> string option \<Rightarrow> sess_row \<Rightarrow> bool" where
  "project_matches db q r =
     (case q of
        None \<Rightarrow> True
      | Some p \<Rightarrow>
          (let label = dget (sd_labels db (sr_id r)) PROJECT_LABEL_KEY
           in if p = [] then label = None else label = Some p))"

definition row_matches :: "sess_db \<Rightarrow> listing_query \<Rightarrow> sess_row \<Rightarrow> bool" where
  "row_matches db q r \<longleftrightarrow>
     opt_eq (lq_kind q) (sr_kind r) \<and>
     (case lq_parent q of None \<Rightarrow> True | Some p \<Rightarrow> sr_parent r = Some p) \<and>
     opt_eq (lq_root q) (sr_root r) \<and>
     (lq_has_agent q \<longrightarrow> sr_agent r \<noteq> None) \<and>
     (lq_include_archived q \<or> \<not> sr_archived r) \<and>
     (case lq_agent_name q of
        None \<Rightarrow> True
      | Some n \<Rightarrow> (case sr_agent r of None \<Rightarrow> False | Some a \<Rightarrow> list_ex (\<lambda>g. ar_id g = a \<and> ar_name g = n) (sd_agents db))) \<and>
     (case lq_agent_id q of None \<Rightarrow> True | Some a \<Rightarrow> sr_agent r = Some a) \<and>
     (case lq_title q of None \<Rightarrow> True | Some t \<Rightarrow> sr_title r = Some t) \<and>
     (case lq_accessible_by q of None \<Rightarrow> True | Some u \<Rightarrow> list_ex (\<lambda>(c, w, l). c = sr_id r \<and> w = u) (sd_grants db)) \<and>
     search_matches db (lq_search q) r \<and> project_matches db (lq_project q) r"

text \<open>The sort column and, behind it, the \<^verbatim>\<open>rowid\<close>: the place of the row in the table.\<close>

definition resolve_sort_column :: "string \<Rightarrow> (sess_row \<Rightarrow> int) store_res" where
  "resolve_sort_column sort_by =
     (if sort_by = ''created_at'' then Inr sr_created_at
      else if sort_by = ''updated_at'' then Inr sr_updated_at
      else Inl (StoreValueError (''invalid sort_by: '' @ repr_str sort_by)))"

definition row_key :: "(sess_row \<Rightarrow> int) \<Rightarrow> nat \<times> sess_row \<Rightarrow> int \<times> nat" where
  "row_key col ir = (col (snd ir), fst ir)"

definition apply_cursor :: "sess_db \<Rightarrow> (sess_row \<Rightarrow> int) \<Rightarrow> bool \<Rightarrow> string option \<Rightarrow> nat \<times> sess_row \<Rightarrow> bool" where
  "apply_cursor db col direction cursor ir =
     (case cursor of
        None \<Rightarrow> True
      | Some [] \<Rightarrow> True
      | Some c \<Rightarrow>
          (case find (\<lambda>x. sr_id (snd x) = c) (enumerate 0 (sd_rows db)) of
             None \<Rightarrow> False
           | Some x \<Rightarrow> beyond direction (row_key col x) (row_key col ir)))"

definition list_sessions ::
    "sess_db \<Rightarrow> nat \<Rightarrow> string option \<Rightarrow> string option \<Rightarrow> listing_query \<Rightarrow> session paged_list store_res" where
  "list_sessions db limit after before q =
     bind_store (resolve_sort_column (lq_sort_by q)) (\<lambda>col.
       let is_asc = (lq_order q \<noteq> ''desc'');
           rows = filter (\<lambda>x. row_matches db q (snd x) \<and> apply_cursor db col is_asc after x \<and> apply_cursor db col (\<not> is_asc) before x)
                    (enumerate 0 (sd_rows db))
       in Inr (page_of (sr_id \<circ> fst) limit (map (\<lambda>x. (snd x, sd_labels db (sr_id (snd x)))) (keyed_listing (row_key col) is_asc rows))))"

definition list_conversations_by_host_id :: "sess_db \<Rightarrow> string \<Rightarrow> session list" where
  "list_conversations_by_host_id db host = map (\<lambda>r. (r, [])) (filter (\<lambda>r. sr_host r = Some host) (sd_rows db))"

definition list_conversations_by_runner_id :: "sess_db \<Rightarrow> string \<Rightarrow> session list" where
  "list_conversations_by_runner_id db runner = map (\<lambda>r. (r, [])) (filter (\<lambda>r. sr_runner r = Some runner) (sd_rows db))"

section \<open>Updates of a row\<close>

text \<open>Read the row, change it, write it back; the new row carries the labels.\<close>

definition with_row ::
    "sess_db \<Rightarrow> string \<Rightarrow> (sess_row \<Rightarrow> sess_row store_res) \<Rightarrow> (sess_db \<times> session) store_res" where
  "with_row db cid f =
     (case find_row db cid of
        None \<Rightarrow> Inl (not_found cid)
      | Some row \<Rightarrow> bind_store (f row) (\<lambda>row'. bind_store (put_row db row') (\<lambda>db'. Inr (db', (row', sd_labels db cid)))))"

record session_update =
  su_title :: "string option"
  su_reasoning_effort :: "string option"
  su_unset_reasoning_effort :: bool
  su_model_override :: "string option"
  su_unset_model_override :: bool
  su_cost_control :: "string option"
  su_unset_cost_control :: bool
  su_harness_override :: "string option"
  su_launch_args :: "string list option"
  su_archived :: "bool option"

definition keep_or :: "bool \<Rightarrow> 'a option \<Rightarrow> 'a option \<Rightarrow> 'a option" where
  "keep_or unset new old = (if unset then None else case new of None \<Rightarrow> old | Some v \<Rightarrow> Some v)"

definition update_changes :: "session_update \<Rightarrow> bool" where
  "update_changes u \<longleftrightarrow>
     su_title u \<noteq> None \<or> su_archived u \<noteq> None \<or> su_unset_reasoning_effort u \<or> su_reasoning_effort u \<noteq> None \<or>
     su_unset_model_override u \<or> su_model_override u \<noteq> None \<or> su_unset_cost_control u \<or> su_cost_control u \<noteq> None \<or>
     su_harness_override u \<noteq> None \<or> su_launch_args u \<noteq> None"

definition updated_row :: "int \<Rightarrow> session_update \<Rightarrow> sess_row \<Rightarrow> sess_row" where
  "updated_row now u r =
     r\<lparr>sr_title := keep_or False (su_title u) (sr_title r),
       sr_archived := (case su_archived u of None \<Rightarrow> sr_archived r | Some a \<Rightarrow> a),
       sr_reasoning_effort := keep_or (su_unset_reasoning_effort u) (su_reasoning_effort u) (sr_reasoning_effort r),
       sr_model_override := keep_or (su_unset_model_override u) (su_model_override u) (sr_model_override r),
       sr_cost_control := keep_or (su_unset_cost_control u) (su_cost_control u) (sr_cost_control r),
       sr_harness_override := keep_or False (su_harness_override u) (sr_harness_override r),
       sr_launch_args := keep_or False (su_launch_args u) (sr_launch_args r),
       sr_updated_at := (if update_changes u then now else sr_updated_at r)\<rparr>"

definition update_conversation :: "sess_db \<Rightarrow> string \<Rightarrow> int \<Rightarrow> session_update \<Rightarrow> (sess_db \<times> session option) store_res" where
  "update_conversation db cid now u =
     (case find_row db cid of
        None \<Rightarrow> Inr (db, None)
      | Some row \<Rightarrow>
          bind_store (put_row db (updated_row now u row)) (\<lambda>db'. Inr (db', Some (updated_row now u row, sd_labels db cid))))"

text \<open>\<^verbatim>\<open>UPDATE ... WHERE id = ? AND runner_id IS NULL\<close>: the flag says whether this call pinned the runner.\<close>

definition set_runner_id :: "sess_db \<Rightarrow> string \<Rightarrow> string \<Rightarrow> sess_db \<times> bool" where
  "set_runner_id db cid runner =
     (let hits = filter (\<lambda>r. sr_id r = cid \<and> sr_runner r = None) (sd_rows db)
      in (db\<lparr>sd_rows := map (\<lambda>r. if sr_id r = cid \<and> sr_runner r = None then r\<lparr>sr_runner := Some runner\<rparr> else r) (sd_rows db)\<rparr>,
          length hits = 1))"

definition replace_runner_id :: "sess_db \<Rightarrow> string \<Rightarrow> int \<Rightarrow> string \<Rightarrow> (sess_db \<times> session) store_res" where
  "replace_runner_id db cid now runner = with_row db cid (\<lambda>r. Inr (r\<lparr>sr_runner := Some runner, sr_updated_at := now\<rparr>))"

definition clear_runner_id :: "sess_db \<Rightarrow> string \<Rightarrow> int \<Rightarrow> (sess_db \<times> session) store_res" where
  "clear_runner_id db cid now = with_row db cid (\<lambda>r. Inr (r\<lparr>sr_runner := None, sr_updated_at := now\<rparr>))"

definition clear_host_binding :: "sess_db \<Rightarrow> string \<Rightarrow> int \<Rightarrow> (sess_db \<times> session) store_res" where
  "clear_host_binding db cid now =
     with_row db cid (\<lambda>r. Inr (r\<lparr>sr_host := None, sr_workspace := None, sr_git_branch := None, sr_runner := None, sr_updated_at := now\<rparr>))"

definition set_host_id ::
    "sess_db \<Rightarrow> string \<Rightarrow> int \<Rightarrow> string \<Rightarrow> string option \<Rightarrow> string option \<Rightarrow> (sess_db \<times> session) store_res" where
  "set_host_id db cid now host workspace git_branch =
     with_row db cid (\<lambda>r. Inr (r\<lparr>sr_host := Some host, sr_workspace := keep_or False workspace (sr_workspace r),
       sr_git_branch := keep_or False git_branch (sr_git_branch r), sr_updated_at := now\<rparr>))"

definition set_external_session_id :: "sess_db \<Rightarrow> string \<Rightarrow> int \<Rightarrow> string \<Rightarrow> (sess_db \<times> session) store_res" where
  "set_external_session_id db cid now v =
     with_row db cid (\<lambda>r.
       (case sr_external_session r of
          None \<Rightarrow> Inr (r\<lparr>sr_external_session := Some v, sr_updated_at := now\<rparr>)
        | Some old \<Rightarrow>
            if old \<noteq> v then
              Inl (StoreValueError (''conversation '' @ repr_str cid @ '' already has '' @ ''external_session_id='' @ repr_str old @
                ''; refusing to '' @ ''overwrite with '' @ repr_str v))
            else Inr r))"

section \<open>Forks\<close>

record fork_args =
  fk_title :: "string option"
  fk_agent :: "string option"
  fk_cloned_name :: "string option"
  fk_cloned_bundle :: "string option"
  fk_cloned_description :: "string option"
  fk_copy_model_settings :: bool
  fk_model_override :: "string option"
  fk_carry_history :: bool
  fk_resume_native :: bool
  fk_presentation :: "string dict option"
  fk_up_to_response :: "string option"

text \<open>The ellipsis character of the default title.\<close>

definition ellipsis :: string where
  "ellipsis = [CHR 226, CHR 128, CHR 166]"

definition fork_title :: "string option \<Rightarrow> sess_row \<Rightarrow> string" where
  "fork_title title src =
     (case title of
        Some t \<Rightarrow> t
      | None \<Rightarrow>
          (case sr_title src of
             Some (c # cs) \<Rightarrow> ''Fork of '' @ c # cs
           | _ \<Rightarrow> ''Fork of '' @ take 16 (sr_id src) @ ellipsis))"

definition fork_row :: "string \<Rightarrow> int \<Rightarrow> sess_row \<Rightarrow> fork_args \<Rightarrow> sess_row" where
  "fork_row new_id now src a =
     (blank_row new_id now)\<lparr>sr_title := Some (fork_title (fk_title a) src),
       sr_agent := (if fk_cloned_bundle a \<noteq> None then None else keep_or False (fk_agent a) (sr_agent src)),
       sr_reasoning_effort := (if fk_copy_model_settings a then sr_reasoning_effort src else None),
       sr_model_override := keep_or False (fk_model_override a) (if fk_copy_model_settings a then sr_model_override src else None),
       sr_harness_override := (if fk_copy_model_settings a then sr_harness_override src else None),
       sr_launch_args := sr_launch_args src\<rparr>"

definition max_position :: "item_row list \<Rightarrow> int option" where
  "max_position rows = (if rows = [] then None else Some (Max (set (map ir_position rows))))"

text \<open>The last position of the selected response, \<open>None\<close> for a full fork.\<close>

definition fork_cutoff :: "sess_db \<Rightarrow> string \<Rightarrow> string option \<Rightarrow> int option store_res" where
  "fork_cutoff db src up_to =
     (case up_to of
        None \<Rightarrow> Inr None
      | Some resp \<Rightarrow>
          (case max_position (filter (\<lambda>r. ir_response r = resp) (conv_items db src)) of
             None \<Rightarrow>
               Inl (StoreValueError (''response not found in conversation '' @ repr_str src @ '': '' @ repr_str resp))
           | Some p \<Rightarrow> Inr (Some p)))"

definition fork_truncated :: "sess_db \<Rightarrow> string \<Rightarrow> int option \<Rightarrow> bool" where
  "fork_truncated db src cutoff =
     (case (cutoff, max_position (conv_items db src)) of (Some p, Some m) \<Rightarrow> p < m | _ \<Rightarrow> False)"

definition fork_source_items :: "sess_db \<Rightarrow> string \<Rightarrow> int option \<Rightarrow> item_row list" where
  "fork_source_items db src cutoff =
     sort_key ir_position (filter (\<lambda>r. case cutoff of None \<Rightarrow> True | Some p \<Rightarrow> ir_position r \<le> p) (conv_items db src))"

definition copy_item :: "string \<Rightarrow> int \<Rightarrow> string \<Rightarrow> int \<Rightarrow> item_row \<Rightarrow> item_row" where
  "copy_item new_id now iid pos r = r\<lparr>ir_id := iid, ir_conv := new_id, ir_created_at := now, ir_position := pos\<rparr>"

definition copy_items :: "string \<Rightarrow> int \<Rightarrow> (nat \<Rightarrow> string) \<Rightarrow> item_row list \<Rightarrow> item_row list" where
  "copy_items new_id now fresh rows = map (\<lambda>(i, r). copy_item new_id now (fresh i) (int i) r) (enumerate 0 rows)"

definition fork_labels :: "sess_row \<Rightarrow> string dict \<Rightarrow> bool \<Rightarrow> fork_args \<Rightarrow> string dict" where
  "fork_labels src labels truncated a =
     (let l1 = filter (\<lambda>(k, v). k \<notin> set INSTANCE_SCOPED_LABEL_KEYS) labels;
          l2 = (if sr_workspace src \<noteq> None then dset l1 FORK_SOURCE_LABEL_KEY (sr_id src) else l1);
          l3 = (case sr_external_session src of
                  Some (c # cs) \<Rightarrow>
                    if \<not> truncated \<and> fk_resume_native a then dset l2 FORK_SOURCE_EXTERNAL_SESSION_LABEL_KEY (c # cs) else l2
                | _ \<Rightarrow> l2);
          l4 = (if fk_carry_history a then dset l3 FORK_CARRY_HISTORY_LABEL_KEY ''1'' else l3)
      in (case fk_presentation a of
            None \<Rightarrow> l4
          | Some ps \<Rightarrow> dupdate (dpop (dpop l4 UI_MODE_LABEL_KEY) WRAPPER_LABEL_KEY) ps))"

definition fork_agent :: "sess_db \<Rightarrow> int \<Rightarrow> fork_args \<Rightarrow> sess_db store_res" where
  "fork_agent db now a =
     (case fk_cloned_bundle a of
        None \<Rightarrow> Inr db
      | Some bundle \<Rightarrow>
          (case (fk_agent a, fk_cloned_name a) of
             (Some aid, Some name) \<Rightarrow> add_agent db (new_session_agent_row aid name bundle (fk_cloned_description a) now)
           | _ \<Rightarrow> Inl AssertionError))"

definition fork_conversation ::
    "sess_db \<Rightarrow> string \<Rightarrow> string \<Rightarrow> int \<Rightarrow> (nat \<Rightarrow> string) \<Rightarrow> fork_args \<Rightarrow> (sess_db \<times> session) store_res" where
  "fork_conversation db src_id new_id now fresh a =
     (case find_row db src_id of
        None \<Rightarrow> Inl (LookupError (''conversation not found: '' @ repr_str src_id))
      | Some src \<Rightarrow>
          bind_store (fork_cutoff db src_id (fk_up_to_response a)) (\<lambda>cutoff.
            let source_items = fork_source_items db src_id cutoff;
                row = (fork_row new_id now src a)\<lparr>sr_next_position := Some (int (length source_items)),
                        sr_agent := (if fk_cloned_bundle a \<noteq> None then fk_agent a else sr_agent (fork_row new_id now src a))\<rparr>;
                labels = fork_labels src (sd_labels db src_id) (fork_truncated db src_id cutoff) a
            in bind_store (fork_agent db now a) (\<lambda>db1.
               bind_store (add_row db1 row) (\<lambda>db2.
               bind_store (add_items db2 (copy_items new_id now fresh source_items)) (\<lambda>db3.
                 Inr (if labels = [] then db3 else upsert_labels db3 new_id labels, (row, labels)))))))"

section \<open>Switching the agent\<close>

record switch_args =
  sw_agent_id :: string
  sw_agent_name :: string
  sw_bundle :: string
  sw_description :: "string option"
  sw_copy_model_settings :: bool
  sw_carry_history :: bool
  sw_presentation :: "string dict"
  sw_previous_builtin :: "string option"

definition drop_session_agent :: "sess_db \<Rightarrow> string option \<Rightarrow> sess_db" where
  "drop_session_agent db old =
     (case old of
        None \<Rightarrow> db
      | Some aid \<Rightarrow> db\<lparr>sd_agents := filter (\<lambda>g. \<not> (ar_id g = aid \<and> ar_kind g = AGENT_KIND_SESSION)) (sd_agents db)\<rparr>)"

definition switched_row :: "int \<Rightarrow> switch_args \<Rightarrow> sess_row \<Rightarrow> sess_row" where
  "switched_row now a r =
     r\<lparr>sr_agent := Some (sw_agent_id a),
       sr_model_override := (if sw_copy_model_settings a then sr_model_override r else None),
       sr_reasoning_effort := (if sw_copy_model_settings a then sr_reasoning_effort r else None),
       sr_harness_override := None, sr_external_session := None, sr_updated_at := now\<rparr>"

definition switch_drop_keys :: "bool \<Rightarrow> string list" where
  "switch_drop_keys carry =
     INSTANCE_SCOPED_LABEL_KEYS @
     [FORK_SOURCE_LABEL_KEY, FORK_SOURCE_EXTERNAL_SESSION_LABEL_KEY, UI_MODE_LABEL_KEY, WRAPPER_LABEL_KEY, SWITCH_PREVIOUS_BUILTIN_LABEL_KEY] @
     (if carry then [] else [FORK_CARRY_HISTORY_LABEL_KEY])"

definition switch_upserts :: "switch_args \<Rightarrow> string dict" where
  "switch_upserts a =
     (let u1 = (if sw_carry_history a then dset (sw_presentation a) FORK_CARRY_HISTORY_LABEL_KEY ''1'' else sw_presentation a)
      in (case sw_previous_builtin a of None \<Rightarrow> u1 | Some b \<Rightarrow> dset u1 SWITCH_PREVIOUS_BUILTIN_LABEL_KEY b))"

definition switch_labels :: "sess_db \<Rightarrow> string \<Rightarrow> switch_args \<Rightarrow> sess_db" where
  "switch_labels db cid a =
     (let kept = filter (\<lambda>(k, v). k \<notin> set (switch_drop_keys (sw_carry_history a))) (sd_labels db cid);
          db1 = db\<lparr>sd_labels := (sd_labels db)(cid := kept)\<rparr>
      in if switch_upserts a = [] then db1 else upsert_labels db1 cid (switch_upserts a))"

definition switch_conversation_agent :: "sess_db \<Rightarrow> string \<Rightarrow> int \<Rightarrow> switch_args \<Rightarrow> (sess_db \<times> session) store_res" where
  "switch_conversation_agent db cid now a =
     (case find_row db cid of
        None \<Rightarrow> Inl (LookupError (''conversation not found: '' @ repr_str cid))
      | Some row \<Rightarrow>
          bind_store (add_agent (drop_session_agent db (sr_agent row))
              (new_session_agent_row (sw_agent_id a) (sw_agent_name a) (sw_bundle a) (sw_description a) now)) (\<lambda>db1.
          bind_store (put_row db1 (switched_row now a row)) (\<lambda>db2.
            let db3 = switch_labels db2 cid a in Inr (db3, (switched_row now a row, sd_labels db3 cid)))))"

section \<open>Deletion\<close>

text \<open>
  The recursive query of the subtree: level by level, the children of the last level. A level is not empty only
  if the tree is deeper, so as many levels as there are rows are enough when the parents form a tree.
\<close>

fun subtree_levels :: "sess_db \<Rightarrow> nat \<Rightarrow> string list \<Rightarrow> string list" where
  "subtree_levels db 0 ids = []"
| "subtree_levels db (Suc n) ids =
     ids @ (if ids = [] then [] else subtree_levels db n
       (map sr_id (filter (\<lambda>r. case sr_parent r of None \<Rightarrow> False | Some p \<Rightarrow> p \<in> set ids) (sd_rows db))))"

definition subtree_ids :: "sess_db \<Rightarrow> string \<Rightarrow> string list" where
  "subtree_ids db cid = subtree_levels db (Suc (length (sd_rows db))) [cid]"

definition delete_conversation :: "sess_db \<Rightarrow> string \<Rightarrow> sess_db \<times> bool" where
  "delete_conversation db cid =
     (case find_row db cid of
        None \<Rightarrow> (db, False)
      | Some row \<Rightarrow>
          (let ids = set (subtree_ids db cid)
           in (db\<lparr>sd_rows := filter (\<lambda>r. sr_id r \<notin> ids) (sd_rows db),
                  sd_items := filter (\<lambda>r. ir_conv r \<notin> ids) (sd_items db),
                  sd_labels := (\<lambda>c. if c \<in> ids then [] else sd_labels db c),
                  sd_comments := filter (\<lambda>(k, c). c \<notin> ids) (sd_comments db),
                  sd_policies := filter (\<lambda>(k, c). case c of None \<Rightarrow> True | Some s \<Rightarrow> s \<notin> ids) (sd_policies db),
                  sd_grants := filter (\<lambda>(c, u, l). c \<notin> ids) (sd_grants db)\<rparr>, True)))"

end
