(* ===== verification/SessionLaws.thy ===== *)
theory SessionLaws
  imports SessionStore
begin

text \<open>
  Laws of the session store: the invariant of the tables, the history of a conversation as the list of its items by position, what
  each operation does to both, and the paging interface on items and on sessions.
\<close>

section \<open>The invariant\<close>

definition items_ok :: "item_row list \<Rightarrow> bool" where
  "items_ok items \<longleftrightarrow> distinct (map ir_id items) \<and> distinct (map (\<lambda>r. (ir_conv r, ir_position r)) items)"

text \<open>The position allocator of a conversation is ahead of its items.\<close>

definition allocator_ok :: "item_row list \<Rightarrow> sess_row \<Rightarrow> bool" where
  "allocator_ok items row \<longleftrightarrow>
     (case sr_next_position row of None \<Rightarrow> True | Some n \<Rightarrow> \<forall>i \<in> set items. ir_conv i = sr_id row \<longrightarrow> ir_position i < n)"

text \<open>Every row is the root of its tree or the child of an earlier row with the same root.\<close>

fun tree_ok :: "sess_row list \<Rightarrow> sess_row list \<Rightarrow> bool" where
  "tree_ok seen [] = True"
| "tree_ok seen (r # rs) =
     ((case sr_parent r of
         None \<Rightarrow> sr_root r = sr_id r
       | Some p \<Rightarrow> \<exists>q \<in> set seen. sr_id q = p \<and> sr_root q = sr_root r) \<and> tree_ok (seen @ [r]) rs)"

definition rows_ok :: "sess_row list \<Rightarrow> bool" where
  "rows_ok rows \<longleftrightarrow> distinct (map sr_id rows) \<and> (\<forall>r \<in> set rows. row_checks r \<and> sr_id r \<noteq> [] \<and> sr_root r \<noteq> []) \<and>
     (\<forall>r \<in> set rows. \<forall>q \<in> set rows. same_child r q \<longrightarrow> sr_id r = sr_id q) \<and> tree_ok [] rows"

definition db_ok :: "sess_db \<Rightarrow> bool" where
  "db_ok db \<longleftrightarrow> rows_ok (sd_rows db) \<and> items_ok (sd_items db) \<and> (\<forall>r \<in> set (sd_rows db). allocator_ok (sd_items db) r) \<and>
     distinct (map ar_id (sd_agents db))"

lemma find_row_Some: "find_row db cid = Some r \<Longrightarrow> r \<in> set (sd_rows db) \<and> sr_id r = cid"
  by (auto simp: find_row_def find_Some_iff)

lemma find_row_None: "find_row db cid = None \<longleftrightarrow> cid \<notin> sr_id ` set (sd_rows db)"
  by (auto simp: find_row_def find_None_iff)

lemma rows_unique: "distinct (map sr_id rows) \<Longrightarrow> r \<in> set rows \<Longrightarrow> q \<in> set rows \<Longrightarrow> sr_id r = sr_id q \<Longrightarrow> r = q"
  by (meson inj_on_contraD inj_on_def distinct_map)

text \<open>\<open>tree_ok\<close> sees the rows only through their identifiers, parents and roots.\<close>

lemma tree_ok_append: "tree_ok seen (xs @ ys) \<longleftrightarrow> tree_ok seen xs \<and> tree_ok (seen @ xs) ys"
  by (induction xs arbitrary: seen) auto

lemma tree_ok_map:
  assumes "\<And>r. r \<in> set (seen @ rows) \<Longrightarrow> sr_id (f r) = sr_id r \<and> sr_parent (f r) = sr_parent r \<and> sr_root (f r) = sr_root r"
  shows "tree_ok (map f seen) (map f rows) \<longleftrightarrow> tree_ok seen rows"
  using assms
proof (induction rows arbitrary: seen)
  case (Cons r rs)
  have "tree_ok (map f (seen @ [r])) (map f rs) \<longleftrightarrow> tree_ok (seen @ [r]) rs" using Cons.prems by (intro Cons.IH) auto
  moreover have "sr_parent (f r) = sr_parent r" "sr_root (f r) = sr_root r" "sr_id (f r) = sr_id r"
    "\<And>q. q \<in> set seen \<Longrightarrow> sr_id (f q) = sr_id q \<and> sr_root (f q) = sr_root q" using Cons.prems by simp_all
  ultimately show ?case by (auto split: option.splits)
qed simp

lemma tree_ok_filter:
  assumes "\<And>r p. r \<in> set rows \<Longrightarrow> P r \<Longrightarrow> sr_parent r = Some p \<Longrightarrow> \<forall>q \<in> set (seen @ rows). sr_id q = p \<longrightarrow> P q" and "tree_ok seen rows"
  shows "tree_ok (filter P seen) (filter P rows)"
  using assms
proof (induction rows arbitrary: seen)
  case (Cons r rs)
  have "tree_ok (filter P (seen @ [r])) (filter P rs)" using Cons.prems by (intro Cons.IH) auto
  then show ?case using Cons.prems by (auto split: option.splits)
qed simp

section \<open>Items\<close>

lemma add_items_Inr:
  "add_items db rs = Inr db' \<longleftrightarrow>
     db' = db\<lparr>sd_items := sd_items db @ rs\<rparr> \<and> distinct (map ir_id rs) \<and> distinct (map (\<lambda>r. (ir_conv r, ir_position r)) rs) \<and>
     (\<forall>r \<in> set rs. \<forall>i \<in> set (sd_items db). ir_id i \<noteq> ir_id r \<and> (ir_conv i, ir_position i) \<noteq> (ir_conv r, ir_position r))"
proof (induction rs arbitrary: db)
  case (Cons r rs)
  then show ?case
    by (auto simp: bind_store_Inr_iff add_item_def list_ex_iff image_iff split: if_splits)
qed auto

lemma items_ok_append:
  "items_ok (xs @ ys) \<longleftrightarrow> items_ok xs \<and> items_ok ys \<and>
     (\<forall>y \<in> set ys. \<forall>x \<in> set xs. ir_id x \<noteq> ir_id y \<and> (ir_conv x, ir_position x) \<noteq> (ir_conv y, ir_position y))"
  by (auto simp: items_ok_def image_iff)

lemma add_items_ok: "items_ok (sd_items db) \<Longrightarrow> add_items db rs = Inr db' \<Longrightarrow> items_ok (sd_items db')"
  by (auto simp: add_items_Inr items_ok_append) (simp add: items_ok_def)

definition history :: "sess_db \<Rightarrow> string \<Rightarrow> item_row list" where
  "history db cid = sort_key ir_position (conv_items db cid)"

text \<open>What an item says, apart from the identity of its row.\<close>

definition content :: "item_row \<Rightarrow> string \<times> string \<times> string \<times> string \<times> string \<times> string option" where
  "content r = (ir_response r, ir_status r, ir_type r, ir_data r, ir_search r, ir_created_by r)"

lemma conv_items_ok:
  assumes "items_ok (sd_items db)"
  shows "inj_on ir_position (set (conv_items db cid))" and "distinct (conv_items db cid)" and "inj_on ir_id (set (sd_items db))"
  using assms unfolding items_ok_def conv_items_def by (auto simp: distinct_map inj_on_def)

lemma sort_key_append:
  assumes "\<forall>x \<in> set xs. \<forall>y \<in> set ys. f x \<le> f y"
  shows "sort_key f (xs @ ys) = sort_key f xs @ sort_key f ys"
proof -
  have ins: "\<forall>y \<in> set bs. f x \<le> f y \<Longrightarrow> insort_key f x (as @ bs) = insort_key f x as @ bs" for x as bs
    by (induction as) (cases bs; auto)+
  show ?thesis using assms by (induction xs) (auto simp: ins)
qed

lemma item_rows_length [simp]: "length (item_rows cid now fresh i pos ns) = length ns"
  by (induction ns arbitrary: i pos) auto

lemma item_rows_fields:
  "map ir_id (item_rows cid now fresh i pos ns) = map fresh [i..<i + length ns]"
  "map ir_position (item_rows cid now fresh i pos ns) = map (\<lambda>k. pos + int k) [0..<length ns]"
  "\<forall>r \<in> set (item_rows cid now fresh i pos ns). ir_conv r = cid \<and> pos \<le> ir_position r \<and> ir_position r < pos + int (length ns)"
proof (induction ns arbitrary: i pos)
  case (Cons n ns)
  { case 1 show ?case using Cons(1) [of "Suc i" "pos + 1"] by (simp add: upt_conv_Cons del: upt_Suc) }
  { case 2 show ?case using Cons(2) [of "Suc i" "pos + 1"] by (simp add: upt_conv_Cons map_Suc_upt [symmetric] del: upt_Suc) }
  { case 3 show ?case using Cons(3) [of "Suc i" "pos + 1"] by auto }
qed auto

lemma item_rows_content:
  "map content (item_rows cid now fresh i pos ns) =
     map (\<lambda>n. (ni_response n, ''completed'', ni_type n, strip_nul_bytes (ni_data n), strip_nul_bytes (ni_search n), ni_created_by n)) ns"
  by (induction ns arbitrary: i pos) (auto simp: content_def)

lemma item_rows_sorted: "sort_key ir_position (item_rows cid now fresh i pos ns) = item_rows cid now fresh i pos ns"
proof (rule sort_key_id_if_sorted)
  show "sorted (map ir_position (item_rows cid now fresh i pos ns))"
    unfolding item_rows_fields by (simp add: sorted_map sorted_wrt_iff_nth_less)
qed

text \<open>The allocated position is behind every item of the conversation.\<close>

lemma next_position_fresh:
  assumes "db_ok db" and "i \<in> set (conv_items db cid)"
  shows "ir_position i < next_position db cid"
proof -
  have scan: "ir_position i < scan_position db cid"
  proof -
    have "ir_position i \<le> Max (set (map ir_position (conv_items db cid)))" using assms(2) by (intro Max_ge) auto
    then show ?thesis using assms(2) by (auto simp: scan_position_def Let_def)
  qed
  show ?thesis
  proof (cases "find_row db cid")
    case None
    then show ?thesis using scan by (simp add: next_position_def)
  next
    case (Some row)
    then have "allocator_ok (sd_items db) row" "sr_id row = cid" using assms(1) find_row_Some by (auto simp: db_ok_def)
    then show ?thesis using Some scan assms(2) by (auto simp: next_position_def allocator_ok_def conv_items_def split: option.splits)
  qed
qed

text \<open>Identifiers the generator has not given out before.\<close>

definition new_item_ids :: "sess_db \<Rightarrow> (nat \<Rightarrow> string) \<Rightarrow> nat \<Rightarrow> bool" where
  "new_item_ids db fresh n \<longleftrightarrow> inj_on fresh {..<n} \<and> (\<forall>k < n. \<forall>i \<in> set (sd_items db). ir_id i \<noteq> fresh k)"

lemma sd_items_set_row [simp]: "sd_items (set_row f cid db) = sd_items db"
  by (simp add: set_row_def)

lemma append_items_Inr:
  assumes "append_items db cid now fresh ns = Inr (db', rows)"
  shows "rows = item_rows cid now fresh 0 (next_position db cid) ns" and "sd_items db' = sd_items db @ rows"
    and "db' = set_row (\<lambda>r. r\<lparr>sr_updated_at := now, sr_next_position := Some (next_position db cid + int (length ns))\<rparr>) cid
      (db\<lparr>sd_items := sd_items db @ rows\<rparr>)"
    and "add_items db rows = Inr (db\<lparr>sd_items := sd_items db @ rows\<rparr>)"
  using assms by (auto simp: append_items_def Let_def bind_store_Inr_iff add_items_Inr)

text \<open>An append with new identifiers does not fail: its positions collide with none.\<close>

lemma append_items_returns:
  assumes "db_ok db" and "new_item_ids db fresh (length ns)"
  shows "\<exists>db'. append_items db cid now fresh ns = Inr (db', item_rows cid now fresh 0 (next_position db cid) ns)"
proof -
  let ?rows = "item_rows cid now fresh 0 (next_position db cid) ns"
  note f = item_rows_fields [of cid now fresh 0 "next_position db cid" ns]
  have "distinct (map ir_id ?rows)" unfolding f using assms(2) by (auto simp: new_item_ids_def distinct_map lessThan_atLeast0)
  moreover have "distinct (map ir_position ?rows)" unfolding f by (simp add: distinct_map inj_on_def)
  then have "distinct (map (\<lambda>r. (ir_conv r, ir_position r)) ?rows)" by (auto simp: distinct_map inj_on_def)
  moreover have "ir_id i \<noteq> ir_id r" if "r \<in> set ?rows" "i \<in> set (sd_items db)" for r i
  proof -
    have "ir_id r \<in> set (map ir_id ?rows)" using that(1) by simp
    then show ?thesis unfolding f using assms(2) that(2) by (auto simp: new_item_ids_def)
  qed
  moreover have "(ir_conv i, ir_position i) \<noteq> (ir_conv r, ir_position r)" if "r \<in> set ?rows" "i \<in> set (sd_items db)" for r i
    using that f(3) next_position_fresh [OF assms(1), of i cid] by (fastforce simp: conv_items_def)
  ultimately have "add_items db ?rows = Inr (db\<lparr>sd_items := sd_items db @ ?rows\<rparr>)" unfolding add_items_Inr by blast
  then show ?thesis by (simp add: append_items_def Let_def bind_store_def)
qed

lemma append_history:
  assumes "db_ok db" and "append_items db cid now fresh ns = Inr (db', rows)"
  shows "history db' cid = history db cid @ rows" and "c \<noteq> cid \<Longrightarrow> history db' c = history db c"
proof -
  note a = append_items_Inr [OF assms(2)]
  note f = item_rows_fields(3) [of cid now fresh 0 "next_position db cid" ns, folded a(1)]
  have own: "conv_items db' cid = conv_items db cid @ rows" using f by (simp add: conv_items_def a(2))
  have "\<forall>x \<in> set (conv_items db cid). \<forall>y \<in> set rows. ir_position x \<le> ir_position y"
    using f next_position_fresh [OF assms(1)] by (meson less_imp_le order_less_le_trans)
  then show "history db' cid = history db cid @ rows"
    unfolding history_def own by (simp add: sort_key_append) (simp add: a(1) item_rows_sorted)
  show "c \<noteq> cid \<Longrightarrow> history db' c = history db c" using f by (auto simp: history_def conv_items_def a(2))
qed

section \<open>Paging through items\<close>

definition typed :: "string option \<Rightarrow> item_row \<Rightarrow> bool" where
  "typed ty r = (case ty of None \<Rightarrow> True | Some t \<Rightarrow> ir_type r = t)"

definition items_listing :: "sess_db \<times> string \<times> nat \<times> string \<times> string option \<Rightarrow> item_row list" where
  "items_listing = (\<lambda>(db, cid, limit, order, ty). keyed_listing ir_position (order = ''asc'') (filter (typed ty) (conv_items db cid)))"

definition items_fetch :: "sess_db \<times> string \<times> nat \<times> string \<times> string option \<Rightarrow> string option \<Rightarrow> item_row paged_list" where
  "items_fetch = (\<lambda>(db, cid, limit, order, ty) after. list_items_page db cid limit after None order ty)"

definition items_fetch_ok :: "sess_db \<times> string \<times> nat \<times> string \<times> string option \<Rightarrow> bool" where
  "items_fetch_ok = (\<lambda>(db, cid, limit, order, ty). items_ok (sd_items db) \<and> (\<forall>i \<in> set (sd_items db). ir_id i \<noteq> []) \<and> 0 < limit)"

lemma items_page:
  "list_items_page db cid limit after before order ty =
     page_of ir_id limit (filter (\<lambda>r. item_cursor db (order = ''asc'') after r \<and> item_cursor db (order \<noteq> ''asc'') before r)
       (items_listing (db, cid, limit, order, ty)))"
  by (simp add: list_items_page_def items_listing_def Let_def filter_keyed_listing conv_items_def typed_def conj_ac)

lemma cursor_position_item:
  assumes "items_ok (sd_items db)" and "x \<in> set (sd_items db)"
  shows "cursor_position db (ir_id x) = Some (ir_position x)"
proof -
  obtain y where y: "find (\<lambda>r. ir_id r = ir_id x) (sd_items db) = Some y"
    using assms(2) by (cases "find (\<lambda>r. ir_id r = ir_id x) (sd_items db)") (auto simp: find_None_iff)
  then have "y \<in> set (sd_items db)" "ir_id y = ir_id x" by (auto simp: find_Some_iff)
  then have "y = x" using conv_items_ok(3) [OF assms(1)] assms(2) by (auto dest: inj_onD)
  then show ?thesis using y by (simp add: cursor_position_def)
qed

interpretation items: cursor_pages items_fetch items_listing ir_id "\<lambda>(db, cid, limit, order, ty). limit" items_fetch_ok
proof
  fix s :: "sess_db \<times> string \<times> nat \<times> string \<times> string option" and pre x post
  assume ok: "items_fetch_ok s"
  obtain db cid limit order ty where s: "s = (db, cid, limit, order, ty)" by (cases s) auto
  show "0 < (case s of (db, cid, limit, order, ty) \<Rightarrow> limit)" using ok by (simp add: s items_fetch_ok_def)
  show "items_fetch s None = page_of ir_id (case s of (db, cid, limit, order, ty) \<Rightarrow> limit) (items_listing s)"
    by (simp add: s items_fetch_def items_page item_cursor_def)
  assume l: "items_listing s = pre @ x # post"
  let ?d = "order = ''asc''" and ?rows = "filter (typed ty) (conv_items db cid)"
  have i: "items_ok (sd_items db)" using ok by (simp add: s items_fetch_ok_def)
  have "x \<in> set (items_listing s)" using l by simp
  then have x: "x \<in> set (sd_items db)" by (auto simp: s items_listing_def conv_items_def)
  then have "ir_id x \<noteq> []" using ok by (simp add: s items_fetch_ok_def)
  then have "item_cursor db ?d (Some (ir_id x)) r \<longleftrightarrow> beyond ?d (ir_position x) (ir_position r)" for r
    using cursor_position_item [OF i x] by (cases "ir_id x") (auto simp: item_cursor_def)
  then have "items_fetch s (Some (ir_id x)) = page_of ir_id limit (filter (\<lambda>r. beyond ?d (ir_position x) (ir_position r)) (items_listing s))"
    by (simp add: s items_fetch_def items_page item_cursor_def)
  moreover have "inj_on ir_position (set ?rows)" "distinct ?rows"
    using conv_items_ok(1,2) [OF i, of cid] by (auto intro: inj_on_subset)
  then have "keyed_listing ir_position ?d (filter (\<lambda>r. beyond ?d (ir_position x) (ir_position r)) ?rows) = post"
    using l by (intro keyed_listing_after) (auto simp: s items_listing_def)
  then have "filter (\<lambda>r. beyond ?d (ir_position x) (ir_position r)) (items_listing s) = post"
    by (simp only: s items_listing_def prod.case filter_keyed_listing)
  ultimately show "items_fetch s (Some (ir_id x)) = page_of ir_id (case s of (db, cid, limit, order, ty) \<Rightarrow> limit) post" by (simp add: s)
qed

section \<open>Paging through sessions\<close>

definition sort_column :: "string \<Rightarrow> sess_row \<Rightarrow> int" where
  "sort_column sort_by = (if sort_by = ''created_at'' then sr_created_at else sr_updated_at)"

definition with_labels :: "sess_db \<Rightarrow> nat \<times> sess_row \<Rightarrow> session" where
  "with_labels db x = (snd x, sd_labels db (sr_id (snd x)))"

definition ordered_rows :: "sess_db \<Rightarrow> listing_query \<Rightarrow> (nat \<times> sess_row) list" where
  "ordered_rows db q =
     keyed_listing (row_key (sort_column (lq_sort_by q))) (lq_order q \<noteq> ''desc'') (filter (row_matches db q \<circ> snd) (enumerate 0 (sd_rows db)))"

definition sessions_listing :: "sess_db \<times> nat \<times> listing_query \<Rightarrow> session list" where
  "sessions_listing = (\<lambda>(db, limit, q). map (with_labels db) (ordered_rows db q))"

definition sessions_fetch :: "sess_db \<times> nat \<times> listing_query \<Rightarrow> string option \<Rightarrow> session paged_list" where
  "sessions_fetch = (\<lambda>(db, limit, q) after.
     (case list_sessions db limit after None q of
        Inr page \<Rightarrow> page
      | Inl e \<Rightarrow> \<lparr>pg_data = [], pg_first_id = None, pg_last_id = None, pg_has_more = False\<rparr>))"

definition sessions_fetch_ok :: "sess_db \<times> nat \<times> listing_query \<Rightarrow> bool" where
  "sessions_fetch_ok = (\<lambda>(db, limit, q). distinct (map sr_id (sd_rows db)) \<and> (\<forall>r \<in> set (sd_rows db). sr_id r \<noteq> []) \<and>
     lq_sort_by q \<in> {''created_at'', ''updated_at''} \<and> 0 < limit)"

lemma sessions_page:
  assumes "lq_sort_by q \<in> {''created_at'', ''updated_at''}"
  shows "sessions_fetch (db, limit, q) after = page_of (sr_id \<circ> fst) limit (map (with_labels db)
    (filter (apply_cursor db (sort_column (lq_sort_by q)) (lq_order q \<noteq> ''desc'') after) (ordered_rows db q)))"
proof -
  have c: "resolve_sort_column (lq_sort_by q) = Inr (sort_column (lq_sort_by q))"
    using assms by (auto simp: resolve_sort_column_def sort_column_def)
  have n: "apply_cursor db col b None x" for col b x by (simp add: apply_cursor_def)
  show ?thesis
    unfolding sessions_fetch_def prod.case list_sessions_def c bind_store_def sum.case Let_def ordered_rows_def filter_keyed_listing
    by (simp add: with_labels_def [abs_def] n conj_commute)
qed

lemma apply_cursor_row:
  assumes "distinct (map sr_id (sd_rows db))" and "x \<in> set (enumerate 0 (sd_rows db))" and "sr_id (snd x) \<noteq> []"
  shows "apply_cursor db col d (Some (sr_id (snd x))) y \<longleftrightarrow> beyond d (row_key col x) (row_key col y)"
proof -
  let ?t = "enumerate 0 (sd_rows db)"
  have "map (sr_id \<circ> snd) ?t = map sr_id (sd_rows db)" by (simp flip: map_map)
  then have inj: "inj_on (sr_id \<circ> snd) (set ?t)" using assms(1) by (metis distinct_map)
  obtain z where z: "find (\<lambda>u. sr_id (snd u) = sr_id (snd x)) ?t = Some z"
    using assms(2) find_None_iff [of "\<lambda>u. sr_id (snd u) = sr_id (snd x)" ?t] by (metis not_None_eq)
  then have "z \<in> set ?t" "sr_id (snd z) = sr_id (snd x)" by (auto simp: find_Some_iff)
  then have "z = x" using inj_onD [OF inj, of z x] assms(2) by simp
  then show ?thesis using z assms(3) by (cases "sr_id (snd x)") (auto simp: apply_cursor_def)
qed

interpretation sessions: cursor_pages sessions_fetch sessions_listing "sr_id \<circ> fst" "\<lambda>(db, limit, q). limit" sessions_fetch_ok
proof
  fix s :: "sess_db \<times> nat \<times> listing_query" and pre x post
  assume ok: "sessions_fetch_ok s"
  obtain db limit q where s: "s = (db, limit, q)" by (cases s) auto
  have ids: "distinct (map sr_id (sd_rows db))" "\<forall>r \<in> set (sd_rows db). sr_id r \<noteq> []"
    and col_ok: "lq_sort_by q \<in> {''created_at'', ''updated_at''}" and pos: "0 < limit"
    using ok by (simp_all add: s sessions_fetch_ok_def)
  show "0 < (case s of (db, limit, q) \<Rightarrow> limit)" using pos by (simp add: s)
  have "apply_cursor db col d None = (\<lambda>x. True)" for col d by (auto simp: apply_cursor_def)
  then show "sessions_fetch s None = page_of (sr_id \<circ> fst) (case s of (db, limit, q) \<Rightarrow> limit) (sessions_listing s)"
    by (simp add: s sessions_page [OF col_ok] sessions_listing_def)
  assume l: "sessions_listing s = pre @ x # post"
  let ?col = "sort_column (lq_sort_by q)" and ?d = "lq_order q \<noteq> ''desc''"
  let ?rows = "filter (row_matches db q \<circ> snd) (enumerate 0 (sd_rows db))"
  obtain ps u qs where o: "ordered_rows db q = ps @ u # qs" and m: "x = with_labels db u" "post = map (with_labels db) qs"
    using l by (auto simp: s sessions_listing_def map_eq_append_conv map_eq_Cons_conv)
  have "u \<in> set (ordered_rows db q)" using o by simp
  then have u: "u \<in> set (enumerate 0 (sd_rows db))" by (simp add: ordered_rows_def)
  then have "sr_id (snd u) \<noteq> []" using ids(2) nth_mem [of "fst u" "sd_rows db"] by (auto simp: in_set_enumerate_eq)
  then have "apply_cursor db ?col ?d (Some ((sr_id \<circ> fst) x)) = (\<lambda>y. beyond ?d (row_key ?col u) (row_key ?col y))"
    using apply_cursor_row [OF ids(1) u] by (auto simp: m with_labels_def)
  moreover have "inj_on (row_key ?col) (set ?rows)" "distinct ?rows"
    by (auto simp: inj_on_def row_key_def in_set_enumerate_eq intro: distinct_enumerate)
  then have "keyed_listing (row_key ?col) ?d (filter (\<lambda>y. beyond ?d (row_key ?col u) (row_key ?col y)) ?rows) = qs"
    using o by (intro keyed_listing_after) (auto simp: ordered_rows_def)
  then have "filter (\<lambda>y. beyond ?d (row_key ?col u) (row_key ?col y)) (ordered_rows db q) = qs"
    by (simp only: ordered_rows_def filter_keyed_listing)
  ultimately show "sessions_fetch s (Some ((sr_id \<circ> fst) x)) = page_of (sr_id \<circ> fst) (case s of (db, limit, q) \<Rightarrow> limit) post"
    unfolding s sessions_page [OF col_ok] prod.case m(2) by (simp only:)
qed

end
