(* ===== verification/SessionRuns.thy ===== *)
theory SessionRuns
  imports SessionLaws
begin

text \<open>
  Runs of the session store: every operation keeps the invariant of the tables, the recursive query of a deletion computes the
  descendants of a conversation, and the step relation that puts the operations in sequence.
\<close>

section \<open>Rows\<close>

text \<open>What an update of a row may not touch.\<close>

definition same_place :: "sess_row \<Rightarrow> sess_row \<Rightarrow> bool" where
  "same_place r q \<longleftrightarrow> sr_id q = sr_id r \<and> sr_parent q = sr_parent r \<and> sr_root q = sr_root r"

lemma same_child_commute: "same_child r q \<longleftrightarrow> same_child q r"
  unfolding same_child_def by metis

lemma rows_ok_map:
  assumes "rows_ok rows" and "\<And>r. r \<in> set rows \<Longrightarrow> same_place r (f r) \<and> row_checks (f r)"
    and "\<And>r q. r \<in> set rows \<Longrightarrow> q \<in> set rows \<Longrightarrow> same_child (f r) (f q) \<Longrightarrow> sr_id r = sr_id q"
  shows "rows_ok (map f rows)"
proof -
  have "map sr_id (map f rows) = map sr_id rows" using assms(2) by (auto simp: same_place_def)
  moreover have "tree_ok [] (map f rows)"
    using assms(1,2) tree_ok_map [of "[]" rows f] by (auto simp: same_place_def rows_ok_def)
  ultimately show ?thesis using assms by (auto simp: rows_ok_def same_place_def simp del: map_map)
qed

lemma put_row_ok:
  assumes "db_ok db" and "find_row db (sr_id row') = Some row" and "same_place row row'" and "sr_next_position row' = sr_next_position row"
    and "put_row db row' = Inr db'"
  shows "db_ok db'" and "sd_items db' = sd_items db" and "sd_labels db' = sd_labels db" and "sd_agents db' = sd_agents db"
    and "sd_rows db' = map (\<lambda>r. if sr_id r = sr_id row' then row' else r) (sd_rows db)"
proof -
  let ?f = "\<lambda>r. if sr_id r = sr_id row' then row' else r"
  have p: "row_checks row'" "\<not> list_ex (same_child row') (filter (\<lambda>r. sr_id r \<noteq> sr_id row') (sd_rows db))"
    "db' = db\<lparr>sd_rows := map ?f (sd_rows db)\<rparr>" using assms(5) by (auto simp: put_row_def Let_def split: if_splits)
  then show "sd_items db' = sd_items db" "sd_labels db' = sd_labels db" "sd_agents db' = sd_agents db"
    "sd_rows db' = map ?f (sd_rows db)" by simp_all
  have r: "rows_ok (sd_rows db)" and row: "row \<in> set (sd_rows db)" "sr_id row = sr_id row'"
    using assms(1) find_row_Some [OF assms(2)] by (auto simp: db_ok_def)
  have same: "same_place q (?f q)" if "q \<in> set (sd_rows db)" for q
  proof (cases "sr_id q = sr_id row'")
    case True
    then have "q = row" using rows_unique [of "sd_rows db" q row] that row r by (auto simp: rows_ok_def)
    then show ?thesis using True assms(3) by simp
  qed (simp add: same_place_def)
  have conflict: "\<not> same_child row' q" "\<not> same_child q row'" if "q \<in> set (sd_rows db)" "sr_id q \<noteq> sr_id row'" for q
    using that p(2) same_child_commute [of q row'] by (auto simp: list_ex_iff)
  have "rows_ok (map ?f (sd_rows db))"
  proof (rule rows_ok_map [OF r])
    fix q assume "q \<in> set (sd_rows db)"
    then show "same_place q (?f q) \<and> row_checks (?f q)" using same p(1) r by (auto simp: rows_ok_def)
  next
    fix q w assume "q \<in> set (sd_rows db)" "w \<in> set (sd_rows db)" "same_child (?f q) (?f w)"
    then show "sr_id q = sr_id w" using conflict r by (auto simp: rows_ok_def split: if_splits)
  qed
  moreover have "allocator_ok (sd_items db) row' \<longleftrightarrow> allocator_ok (sd_items db) row"
    unfolding allocator_ok_def assms(4) row(2) ..
  then have "allocator_ok (sd_items db) (?f q)" if "q \<in> set (sd_rows db)" for q
    using that assms(1) row(1) by (auto simp: db_ok_def)
  then have "\<forall>q \<in> set (map ?f (sd_rows db)). allocator_ok (sd_items db) q" unfolding list.set_map by blast
  ultimately show "db_ok db'" using assms(1) by (simp add: p(3) db_ok_def)
qed

lemma with_row_Inr:
  assumes "with_row db cid f = Inr (db', s)"
  obtains row row' where "find_row db cid = Some row" "f row = Inr row'" "put_row db row' = Inr db'" "s = (row', sd_labels db cid)"
  using assms by (auto simp: with_row_def bind_store_Inr_iff split: option.splits)

lemma with_row_ok:
  assumes "db_ok db" and "with_row db cid f = Inr (db', s)"
    and "\<And>r r'. f r = Inr r' \<Longrightarrow> same_place r r' \<and> sr_next_position r' = sr_next_position r"
  shows "db_ok db'" and "sd_items db' = sd_items db" and "sd_labels db' = sd_labels db" and "sd_agents db' = sd_agents db"
proof -
  obtain row row' where w: "find_row db cid = Some row" "f row = Inr row'" "put_row db row' = Inr db'"
    using assms(2) by (rule with_row_Inr)
  then have "same_place row row'" "sr_next_position row' = sr_next_position row" "find_row db (sr_id row') = Some row"
    using assms(3) find_row_Some [OF w(1)] by (auto simp: same_place_def)
  then show "db_ok db'" "sd_items db' = sd_items db" "sd_labels db' = sd_labels db" "sd_agents db' = sd_agents db"
    using put_row_ok [OF assms(1) _ _ _ w(3)] by blast+
qed

text \<open>Where a new row may go: the generated identifier names nothing yet.\<close>

definition new_conv_id :: "sess_db \<Rightarrow> string \<Rightarrow> bool" where
  "new_conv_id db cid \<longleftrightarrow> cid \<noteq> [] \<and> (\<forall>r \<in> set (sd_rows db). sr_id r \<noteq> cid \<and> sr_parent r \<noteq> Some cid) \<and> (\<forall>i \<in> set (sd_items db). ir_conv i \<noteq> cid) \<and>
     sd_labels db cid = []"

definition rooted :: "sess_db \<Rightarrow> sess_row \<Rightarrow> bool" where
  "rooted db row \<longleftrightarrow>
     (case sr_parent row of
        None \<Rightarrow> sr_root row = sr_id row
      | Some p \<Rightarrow> \<exists>q \<in> set (sd_rows db). sr_id q = p \<and> sr_root q = sr_root row)"

lemma inherited_root_rooted:
  "inherited_root db new_id (sr_parent row) = Inr (sr_root row) \<Longrightarrow> sr_id row = new_id \<Longrightarrow> rooted db row"
  by (auto simp: inherited_root_def rooted_def split: option.splits dest!: find_row_Some)

lemma add_row_ok:
  assumes "db_ok db" and "add_row db row = Inr db'" and "rooted db row" and "allocator_ok (sd_items db) row" and "sr_id row \<noteq> []"
  shows "db_ok db'" and "db' = db\<lparr>sd_rows := sd_rows db @ [row]\<rparr>"
proof -
  have p: "row_checks row" "find_row db (sr_id row) = None" "\<not> list_ex (same_child row) (sd_rows db)"
    and d: "db' = db\<lparr>sd_rows := sd_rows db @ [row]\<rparr>" using assms(2) by (auto simp: add_row_def split: if_splits)
  have "\<forall>q \<in> set (sd_rows db). \<not> same_child row q \<and> \<not> same_child q row"
    using p(3) same_child_commute [of row] by (auto simp: list_ex_iff)
  then have "rows_ok (sd_rows db @ [row])"
    using assms(1,3,5) p(1,2) unfolding rows_ok_def db_ok_def find_row_None
    by (auto simp: tree_ok_append rooted_def split: option.splits)
  then show "db_ok db'" using assms(1,4) d by (auto simp: db_ok_def)
  show "db' = db\<lparr>sd_rows := sd_rows db @ [row]\<rparr>" by (rule d)
qed

lemma add_agent_ok:
  assumes "db_ok db" and "add_agent db a = Inr db'"
  shows "db_ok db'" and "db' = db\<lparr>sd_agents := sd_agents db @ [a]\<rparr>" and "ar_id a \<notin> ar_id ` set (sd_agents db)"
proof -
  show new: "ar_id a \<notin> ar_id ` set (sd_agents db)" and d: "db' = db\<lparr>sd_agents := sd_agents db @ [a]\<rparr>"
    using assms(2) by (auto simp: add_agent_def find_agent_def find_None_iff image_iff split: if_splits)
  show "db_ok db'" using assms(1) new by (simp add: d db_ok_def)
qed

lemma db_ok_labels [simp]: "db_ok (db\<lparr>sd_labels := ls\<rparr>) = db_ok db" "db_ok (upsert_labels db c u) = db_ok db"
  by (simp_all add: db_ok_def upsert_labels_def)

lemma upsert_labels_simps [simp]:
  "sd_rows (upsert_labels db c u) = sd_rows db" "sd_items (upsert_labels db c u) = sd_items db" "sd_agents (upsert_labels db c u) = sd_agents db"
  by (simp_all add: upsert_labels_def)

lemma allocator_new: "new_conv_id db (sr_id row) \<Longrightarrow> allocator_ok (sd_items db) row"
  by (auto simp: new_conv_id_def allocator_ok_def split: option.splits)

section \<open>Operations keep the invariant\<close>

lemma create_conversation_ok:
  assumes "db_ok db" and "new_conv_id db new_id" and "create_conversation db new_id now a = Inr (db', s)"
  shows "db_ok db'" and "db' = db\<lparr>sd_rows := sd_rows db @ [fst s]\<rparr>" and "sr_id (fst s) = new_id" and "sr_parent (fst s) = ns_parent a"
    and "sr_next_position (fst s) = Some 0"
proof -
  obtain root where root: "inherited_root db new_id (ns_parent a) = Inr root"
    and "(case add_row db (created_row new_id now root a) of
          Inr db' \<Rightarrow> Inr (db', (created_row new_id now root a, [])) | Inl e \<Rightarrow> Inl (name_conflict a e)) = Inr (db', s)"
    using assms(3) unfolding create_conversation_def bind_store_Inr_iff by blast
  then have add: "add_row db (fst s) = Inr db'" and s: "fst s = created_row new_id now root a" by (auto split: sum.splits)
  have row: "sr_id (fst s) = new_id" "sr_parent (fst s) = ns_parent a" "sr_root (fst s) = root" "sr_next_position (fst s) = Some 0"
    unfolding s by (simp_all add: created_row_def blank_row_def)
  have "rooted db (fst s)" using inherited_root_rooted [of db new_id "fst s"] root row by simp
  moreover have "allocator_ok (sd_items db) (fst s)" using allocator_new assms(2) row by simp
  moreover have "sr_id (fst s) \<noteq> []" using assms(2) row by (simp add: new_conv_id_def)
  ultimately show "db_ok db'" "db' = db\<lparr>sd_rows := sd_rows db @ [fst s]\<rparr>" using add_row_ok [OF assms(1) add] by blast+
  show "sr_id (fst s) = new_id" "sr_parent (fst s) = ns_parent a" "sr_next_position (fst s) = Some 0" using row by simp_all
qed

lemma create_session_with_agent_ok:
  assumes "db_ok db" and "new_conv_id db new_id" and "create_session_with_agent db new_id now a = Inr (db', s, g)"
  shows "db_ok db'"
proof -
  let ?agent = "new_session_agent_row (na_agent_id a) (na_agent_name a) (na_bundle a) (na_description a) now"
  obtain root db1 db2 db3 where root: "inherited_root db new_id (na_parent a) = Inr root"
    and add: "add_row db (new_session_conversation_row new_id now root a) = Inr db1" and ag: "add_agent db1 ?agent = Inr db2"
    and put: "put_row db2 ((new_session_conversation_row new_id now root a)\<lparr>sr_agent := Some (na_agent_id a)\<rparr>) = Inr db3"
    and d: "db' = (if na_labels a = [] then db3 else upsert_labels db3 new_id (na_labels a))"
    using assms(3) by (auto simp: create_session_with_agent_def bind_store_Inr_iff Let_def)
  let ?row = "new_session_conversation_row new_id now root a"
  have row: "sr_id ?row = new_id" "sr_parent ?row = na_parent a" by (simp_all add: new_session_conversation_row_def blank_row_def)
  have "root \<noteq> []"
    using root assms(1,2) find_row_Some by (fastforce simp: inherited_root_def new_conv_id_def db_ok_def rows_ok_def split: option.splits)
  then have "rooted db ?row"
    using inherited_root_rooted [of db new_id ?row] root row by (simp add: new_session_conversation_row_def)
  moreover have "allocator_ok (sd_items db) ?row" "sr_id ?row \<noteq> []" using allocator_new assms(2) row by (simp_all add: new_conv_id_def)
  ultimately have ok1: "db_ok db1" and d1: "db1 = db\<lparr>sd_rows := sd_rows db @ [?row]\<rparr>" using add_row_ok [OF assms(1) add] by blast+
  note ok2 = add_agent_ok [OF ok1 ag]
  have "find_row db new_id = None" using assms(2) by (auto simp: find_row_None new_conv_id_def)
  then have "find_row db2 new_id = Some ?row" using row by (simp add: ok2(2) d1 find_row_def find_append)
  then have "db_ok db3" using put_row_ok(1) [OF ok2(1) _ _ _ put, of ?row] row by (simp add: same_place_def)
  then show ?thesis by (simp add: d)
qed

lemma append_items_ok:
  assumes "db_ok db" and "append_items db cid now fresh ns = Inr (db', rows)"
  shows "db_ok db'"
proof -
  note a = append_items_Inr [OF assms(2)]
  let ?f = "\<lambda>r. r\<lparr>sr_updated_at := now, sr_next_position := Some (next_position db cid + int (length ns))\<rparr>"
  let ?g = "\<lambda>r. if sr_id r = cid then ?f r else r"
  have rows': "sd_rows db' = map ?g (sd_rows db)" "sd_agents db' = sd_agents db" unfolding a(3) by (simp_all add: set_row_def)
  have c: "same_child (?g r) (?g q) \<longleftrightarrow> same_child r q" for r q by (simp add: same_child_def)
  have r: "rows_ok (sd_rows db)" using assms(1) by (simp add: db_ok_def)
  have "rows_ok (map ?g (sd_rows db))"
    by (rule rows_ok_map [OF r]) (use r in \<open>auto simp: c same_place_def rows_ok_def row_checks_def\<close>)
  moreover have "items_ok (sd_items db')" using add_items_ok [OF _ a(4)] assms(1) a(2) by (simp add: db_ok_def)
  moreover have "allocator_ok (sd_items db') (?g r)" if "r \<in> set (sd_rows db)" for r
  proof -
    note f = item_rows_fields(3) [of cid now fresh 0 "next_position db cid" ns, folded a(1)]
    have "allocator_ok (sd_items db) r" using that assms(1) by (simp add: db_ok_def)
    then show ?thesis
      using f next_position_fresh [OF assms(1), of _ cid] unfolding a(2)
      by (fastforce simp: allocator_ok_def conv_items_def split: option.splits)
  qed
  then have "\<forall>q \<in> set (map ?g (sd_rows db)). allocator_ok (sd_items db') q" unfolding list.set_map by blast
  ultimately show ?thesis using assms(1) unfolding db_ok_def rows' by blast
qed

section \<open>Forks\<close>

lemma copy_items_fields:
  "length (copy_items new_id now fresh rows) = length rows"
  "map ir_id (copy_items new_id now fresh rows) = map fresh [0..<length rows]"
  "map ir_position (copy_items new_id now fresh rows) = map int [0..<length rows]"
  "map content (copy_items new_id now fresh rows) = map content rows"
  "\<forall>r \<in> set (copy_items new_id now fresh rows). ir_conv r = new_id \<and> ir_position r < int (length rows)"
proof -
  show "length (copy_items new_id now fresh rows) = length rows" by (simp add: copy_items_def)
  show "map ir_id (copy_items new_id now fresh rows) = map fresh [0..<length rows]"
    "map ir_position (copy_items new_id now fresh rows) = map int [0..<length rows]"
    "map content (copy_items new_id now fresh rows) = map content rows"
    by (rule nth_equalityI; simp add: copy_items_def copy_item_def nth_enumerate_eq content_def)+
  show "\<forall>r \<in> set (copy_items new_id now fresh rows). ir_conv r = new_id \<and> ir_position r < int (length rows)"
    by (auto simp: copy_items_def copy_item_def in_set_enumerate_eq)
qed

lemma copy_items_sorted: "sort_key ir_position (copy_items new_id now fresh rows) = copy_items new_id now fresh rows"
  by (rule sort_key_id_if_sorted) (simp add: copy_items_fields(3) sorted_map sorted_wrt_iff_nth_less)

text \<open>What a fork writes: the agent, the row, the copied items, the labels.\<close>

lemma fork_conversation_Inr:
  assumes "fork_conversation db src_id new_id now fresh a = Inr (db', s)"
  obtains src cutoff db1 db2 where "find_row db src_id = Some src" "fork_cutoff db src_id (fk_up_to_response a) = Inr cutoff"
    "fork_agent db now a = Inr db1" "add_row db1 (fst s) = Inr db2"
    "sr_id (fst s) = new_id" "sr_parent (fst s) = None" "sr_root (fst s) = new_id"
    "sr_next_position (fst s) = Some (int (length (fork_source_items db src_id cutoff)))"
    "snd s = fork_labels src (sd_labels db src_id) (fork_truncated db src_id cutoff) a"
    "add_items db2 (copy_items new_id now fresh (fork_source_items db src_id cutoff)) =
      Inr (db2\<lparr>sd_items := sd_items db2 @ copy_items new_id now fresh (fork_source_items db src_id cutoff)\<rparr>)"
    "db' = (let db3 = db2\<lparr>sd_items := sd_items db2 @ copy_items new_id now fresh (fork_source_items db src_id cutoff)\<rparr>
      in if snd s = [] then db3 else upsert_labels db3 new_id (snd s))"
proof -
  obtain src where src: "find_row db src_id = Some src" using assms by (auto simp: fork_conversation_def split: option.splits)
  obtain cutoff db1 db2 db3 where cutoff: "fork_cutoff db src_id (fk_up_to_response a) = Inr cutoff" and ag: "fork_agent db now a = Inr db1"
    and add: "add_row db1 (fst s) = Inr db2" and items: "add_items db2 (copy_items new_id now fresh (fork_source_items db src_id cutoff)) = Inr db3"
    and row: "fst s = (fork_row new_id now src a)\<lparr>sr_next_position := Some (int (length (fork_source_items db src_id cutoff))),
      sr_agent := (if fk_cloned_bundle a \<noteq> None then fk_agent a else sr_agent (fork_row new_id now src a))\<rparr>"
    and ls: "snd s = fork_labels src (sd_labels db src_id) (fork_truncated db src_id cutoff) a"
    and d: "db' = (if snd s = [] then db3 else upsert_labels db3 new_id (snd s))"
    using assms unfolding fork_conversation_def src option.case bind_store_Inr_iff Let_def by (auto simp del: fun_upd_apply)
  have "db3 = db2\<lparr>sd_items := sd_items db2 @ copy_items new_id now fresh (fork_source_items db src_id cutoff)\<rparr>"
    using items by (simp add: add_items_Inr)
  moreover have "sr_id (fst s) = new_id" "sr_parent (fst s) = None" "sr_root (fst s) = new_id"
    "sr_next_position (fst s) = Some (int (length (fork_source_items db src_id cutoff)))" by (simp_all add: row fork_row_def blank_row_def)
  ultimately show ?thesis using that [OF src cutoff ag add] items ls d by (simp add: Let_def)
qed

lemma fork_agent_ok:
  assumes "db_ok db" and "fork_agent db now a = Inr db1"
  shows "db_ok db1" and "sd_rows db1 = sd_rows db" and "sd_items db1 = sd_items db" and "sd_labels db1 = sd_labels db"
proof -
  have "db1 = db \<or> (\<exists>g. add_agent db g = Inr db1)" using assms(2) by (auto simp: fork_agent_def split: option.splits)
  then have "db_ok db1 \<and> sd_rows db1 = sd_rows db \<and> sd_items db1 = sd_items db \<and> sd_labels db1 = sd_labels db"
  proof (elim disjE exE)
    fix g assume "add_agent db g = Inr db1"
    then show ?thesis using add_agent_ok(1,2) [OF assms(1)] by fastforce
  qed (use assms(1) in simp)
  then show "db_ok db1" "sd_rows db1 = sd_rows db" "sd_items db1 = sd_items db" "sd_labels db1 = sd_labels db" by blast+
qed

lemma fork_conversation_ok:
  assumes "db_ok db" and "new_conv_id db new_id" and "fork_conversation db src_id new_id now fresh a = Inr (db', s)"
  shows "db_ok db'" and "\<exists>items. sd_items db' = sd_items db @ items \<and> (\<forall>i \<in> set items. ir_conv i = new_id)"
    and "sd_rows db' = sd_rows db @ [fst s]" and "\<forall>c. c \<noteq> new_id \<longrightarrow> sd_labels db' c = sd_labels db c"
proof -
  obtain src cutoff db1 db2 where f: "fork_agent db now a = Inr db1" "add_row db1 (fst s) = Inr db2"
    "sr_id (fst s) = new_id" "sr_parent (fst s) = None" "sr_root (fst s) = new_id"
    "sr_next_position (fst s) = Some (int (length (fork_source_items db src_id cutoff)))"
    "add_items db2 (copy_items new_id now fresh (fork_source_items db src_id cutoff)) =
      Inr (db2\<lparr>sd_items := sd_items db2 @ copy_items new_id now fresh (fork_source_items db src_id cutoff)\<rparr>)"
    "db' = (let db3 = db2\<lparr>sd_items := sd_items db2 @ copy_items new_id now fresh (fork_source_items db src_id cutoff)\<rparr>
      in if snd s = [] then db3 else upsert_labels db3 new_id (snd s))"
    using assms(3) by (rule fork_conversation_Inr)
  let ?copies = "copy_items new_id now fresh (fork_source_items db src_id cutoff)"
  note ag = fork_agent_ok [OF assms(1) f(1)]
  have "rooted db1 (fst s)" "allocator_ok (sd_items db1) (fst s)" "sr_id (fst s) \<noteq> []"
    using f(3-5) assms(2) ag(3) allocator_new [of db "fst s"] by (simp_all add: rooted_def new_conv_id_def)
  then have ok2: "db_ok db2" and d2: "db2 = db1\<lparr>sd_rows := sd_rows db1 @ [fst s]\<rparr>" using add_row_ok [OF ag(1) f(2)] by blast+
  have items: "sd_items db' = sd_items db @ ?copies" and rows: "sd_rows db' = sd_rows db @ [fst s]"
    and ags: "sd_agents db' = sd_agents db1" by (simp_all add: f(8) d2 ag Let_def)
  have "allocator_ok (sd_items db') r" if "r \<in> set (sd_rows db')" for r
  proof (cases "r = fst s")
    case True
    then show ?thesis using f(3,6) copy_items_fields(5) [of new_id now fresh] assms(2)
      by (auto simp: items allocator_ok_def new_conv_id_def)
  next
    case False
    then have "r \<in> set (sd_rows db)" using that rows by simp
    then have "allocator_ok (sd_items db) r" "sr_id r \<noteq> new_id" using assms(1,2) by (auto simp: db_ok_def new_conv_id_def)
    then show ?thesis using copy_items_fields(5) [of new_id now fresh] by (auto simp: items allocator_ok_def split: option.splits)
  qed
  moreover have "items_ok (sd_items db')" using add_items_ok [OF _ f(7)] ok2 d2 ag items by (simp add: db_ok_def)
  ultimately show "db_ok db'" using ok2 by (simp add: db_ok_def rows ags d2 ag)
  show "\<exists>items. sd_items db' = sd_items db @ items \<and> (\<forall>i \<in> set items. ir_conv i = new_id)" using items copy_items_fields(5) by blast
  show "sd_rows db' = sd_rows db @ [fst s]" by (rule rows)
  show "\<forall>c. c \<noteq> new_id \<longrightarrow> sd_labels db' c = sd_labels db c" by (simp add: f(8) d2 ag Let_def upsert_labels_def)
qed

text \<open>The copied history: the items of the source up to the cutoff.\<close>

lemma fork_history:
  assumes "db_ok db" and "new_conv_id db new_id" and "fork_conversation db src_id new_id now fresh a = Inr (db', s)"
  shows "\<exists>cutoff. fork_cutoff db src_id (fk_up_to_response a) = Inr cutoff \<and>
      map content (history db' new_id) = map content (fork_source_items db src_id cutoff)"
    and "c \<noteq> new_id \<Longrightarrow> history db' c = history db c"
proof -
  obtain src cutoff db1 db2 where f: "fork_cutoff db src_id (fk_up_to_response a) = Inr cutoff" "fork_agent db now a = Inr db1" "add_row db1 (fst s) = Inr db2"
    "db' = (let db3 = db2\<lparr>sd_items := sd_items db2 @ copy_items new_id now fresh (fork_source_items db src_id cutoff)\<rparr>
      in if snd s = [] then db3 else upsert_labels db3 new_id (snd s))"
    using assms(3) by (rule fork_conversation_Inr)
  let ?copies = "copy_items new_id now fresh (fork_source_items db src_id cutoff)"
  have "sd_items db2 = sd_items db" using f(3) fork_agent_ok [OF assms(1) f(2)] by (auto simp: add_row_def split: if_splits)
  then have items: "sd_items db' = sd_items db @ ?copies" by (simp add: f(4) Let_def)
  have "filter (\<lambda>r. ir_conv r = new_id) (sd_items db) = []" using assms(2) by (auto simp: filter_empty_conv new_conv_id_def)
  then have "conv_items db' new_id = ?copies" using copy_items_fields(5) by (simp add: conv_items_def items)
  then have "history db' new_id = ?copies" by (simp add: history_def copy_items_sorted)
  then show "\<exists>cutoff. fork_cutoff db src_id (fk_up_to_response a) = Inr cutoff \<and>
      map content (history db' new_id) = map content (fork_source_items db src_id cutoff)"
    using f(1) copy_items_fields(4) by auto
  show "c \<noteq> new_id \<Longrightarrow> history db' c = history db c"
    using copy_items_fields(5) [of new_id now fresh] by (auto simp: history_def conv_items_def items)
qed

section \<open>Other updates\<close>

lemma update_conversation_ok:
  assumes "db_ok db" and "update_conversation db cid now u = Inr (db', s)"
  shows "db_ok db'"
proof (cases "find_row db cid")
  case None
  then show ?thesis using assms by (simp add: update_conversation_def)
next
  case (Some row)
  then have "put_row db (updated_row now u row) = Inr db'" using assms(2) by (auto simp: update_conversation_def bind_store_Inr_iff)
  moreover have "sr_id (updated_row now u row) = cid" "same_place row (updated_row now u row)"
    "sr_next_position (updated_row now u row) = sr_next_position row"
    using find_row_Some [OF Some] by (simp_all add: updated_row_def same_place_def)
  ultimately show ?thesis using put_row_ok(1) [OF assms(1), of "updated_row now u row" row db'] Some by simp
qed

lemma set_runner_id_ok:
  assumes "db_ok db" and "set_runner_id db cid runner = (db', won)"
  shows "db_ok db'"
proof -
  let ?f = "\<lambda>r. if sr_id r = cid \<and> sr_runner r = None then r\<lparr>sr_runner := Some runner\<rparr> else r"
  have d: "db' = db\<lparr>sd_rows := map ?f (sd_rows db)\<rparr>" using assms(2) by (auto simp: set_runner_id_def Let_def)
  have r: "rows_ok (sd_rows db)" using assms(1) by (simp add: db_ok_def)
  have c: "same_child (?f r) (?f q) \<longleftrightarrow> same_child r q" for r q by (simp add: same_child_def)
  have "rows_ok (map ?f (sd_rows db))"
    by (rule rows_ok_map [OF r]) (use r in \<open>auto simp: c same_place_def rows_ok_def row_checks_def\<close>)
  moreover have "allocator_ok (sd_items db) (?f r) \<longleftrightarrow> allocator_ok (sd_items db) r" for r
    by (auto simp: allocator_ok_def split: option.splits)
  then have "\<forall>q \<in> set (map ?f (sd_rows db)). allocator_ok (sd_items db) q"
    using assms(1) unfolding list.set_map db_ok_def by blast
  ultimately show ?thesis using assms(1) by (simp add: d db_ok_def)
qed

lemma db_ok_drop_agent: "db_ok db \<Longrightarrow> db_ok (drop_session_agent db old)"
  by (auto simp: drop_session_agent_def db_ok_def distinct_map_filter split: option.splits)

lemma drop_session_agent_simps [simp]:
  "sd_rows (drop_session_agent db old) = sd_rows db" "sd_items (drop_session_agent db old) = sd_items db"
  "sd_labels (drop_session_agent db old) = sd_labels db"
  by (simp_all add: drop_session_agent_def split: option.splits)

lemma switch_conversation_agent_ok:
  assumes "db_ok db" and "switch_conversation_agent db cid now a = Inr (db', s)"
  shows "db_ok db'" and "sd_items db' = sd_items db" and "sd_labels db' = sd_labels (switch_labels db cid a)"
    and "\<exists>row. find_row db cid = Some row \<and> fst s = switched_row now a row"
proof -
  obtain row where row: "find_row db cid = Some row" using assms(2) by (auto simp: switch_conversation_agent_def split: option.splits)
  let ?g = "new_session_agent_row (sw_agent_id a) (sw_agent_name a) (sw_bundle a) (sw_description a) now"
  obtain db1 db2 where ag: "add_agent (drop_session_agent db (sr_agent row)) ?g = Inr db1"
    and put: "put_row db1 (switched_row now a row) = Inr db2" and d: "db' = switch_labels db2 cid a" "fst s = switched_row now a row"
    using assms(2) by (auto simp: switch_conversation_agent_def row bind_store_Inr_iff Let_def)
  note ok1 = add_agent_ok [OF db_ok_drop_agent [OF assms(1)] ag]
  have sw: "sr_id (switched_row now a row) = cid" "same_place row (switched_row now a row)"
    "sr_next_position (switched_row now a row) = sr_next_position row"
    using find_row_Some [OF row] by (simp_all add: switched_row_def same_place_def)
  have "find_row db1 cid = Some row" using row by (simp add: ok1(2) find_row_def)
  then have "db_ok db2" "sd_items db2 = sd_items db1" "sd_labels db2 = sd_labels db1"
    using put_row_ok(1-3) [OF ok1(1) _ sw(2,3) put] sw(1) by simp_all
  then show "db_ok db'" "sd_items db' = sd_items db" "sd_labels db' = sd_labels (switch_labels db cid a)"
    by (simp_all add: d switch_labels_def Let_def ok1(2) upsert_labels_def db_ok_def)
  show "\<exists>row. find_row db cid = Some row \<and> fst s = switched_row now a row" using row d by blast
qed

section \<open>Deletion\<close>

text \<open>A conversation and everything below it.\<close>

inductive_set family :: "sess_row list \<Rightarrow> string \<Rightarrow> string set" for rows cid where
  self: "cid \<in> family rows cid"
| child: "p \<in> family rows cid \<Longrightarrow> r \<in> set rows \<Longrightarrow> sr_parent r = Some p \<Longrightarrow> sr_id r \<in> family rows cid"

definition children_of :: "sess_row list \<Rightarrow> string list \<Rightarrow> string list" where
  "children_of rows ids = map sr_id (filter (\<lambda>r. case sr_parent r of None \<Rightarrow> False | Some p \<Rightarrow> p \<in> set ids) rows)"

lemma set_children_of: "set (children_of rows ids) = {sr_id r |r p. r \<in> set rows \<and> sr_parent r = Some p \<and> p \<in> set ids}"
  by (auto simp: children_of_def split: option.splits)

lemma subtree_levels_set: "set (subtree_levels db n ids) = (\<Union>k < n. set ((children_of (sd_rows db) ^^ k) ids))"
proof (induction n arbitrary: ids)
  case (Suc n)
  let ?c = "children_of (sd_rows db)"
  have none: "?c [] = []" by (auto simp: children_of_def filter_empty_conv split: option.splits)
  then have nil: "(?c ^^ k) [] = []" for k by (induction k) auto
  have "set (subtree_levels db (Suc n) ids) = set ids \<union> (\<Union>k < n. set ((?c ^^ k) (?c ids)))"
    using Suc [of "?c ids"] nil none by (auto simp: children_of_def [symmetric] simp del: funpow.simps)
  also have "\<dots> = (\<Union>k < Suc n. set ((?c ^^ k) ids))"
    by (simp add: lessThan_Suc_eq_insert_0 image_image funpow_swap1 [symmetric] del: funpow.simps) (simp add: funpow_swap1)
  finally show ?case .
qed simp

text \<open>A row at depth \<open>k\<close> stands at place \<open>k\<close> or later, so no level is deeper than the table is long.\<close>

lemma tree_parent_before:
  assumes "tree_ok [] rows" and "j < length rows" and "sr_parent (rows ! j) = Some p"
  shows "\<exists>i < j. sr_id (rows ! i) = p \<and> sr_root (rows ! i) = sr_root (rows ! j)"
proof -
  have "tree_ok [] (take j rows @ rows ! j # drop (Suc j) rows)" using assms(1,2) by (simp add: id_take_nth_drop [symmetric])
  then have "\<exists>q \<in> set (take j rows). sr_id q = p \<and> sr_root q = sr_root (rows ! j)" using assms(3) by (simp add: tree_ok_append)
  then obtain q where q: "q \<in> set (take j rows)" "sr_id q = p" "sr_root q = sr_root (rows ! j)" by blast
  then obtain i where "i < j" "rows ! i = q" using assms(2) by (auto simp: in_set_conv_nth)
  then show ?thesis using q by blast
qed

lemma level_place:
  assumes "rows_ok rows" and "cid \<in> sr_id ` set rows"
  shows "x \<in> set ((children_of rows ^^ k) [cid]) \<Longrightarrow> \<exists>j < length rows. k \<le> j \<and> sr_id (rows ! j) = x"
proof (induction k arbitrary: x)
  case 0
  then show ?case using assms(2) by (auto simp: in_set_conv_nth)
next
  case (Suc k)
  then obtain r p where r: "r \<in> set rows" "sr_parent r = Some p" "sr_id r = x" "p \<in> set ((children_of rows ^^ k) [cid])"
    by (auto simp: set_children_of)
  then obtain j where j: "j < length rows" "rows ! j = r" by (auto simp: in_set_conv_nth)
  then obtain i where i: "i < j" "sr_id (rows ! i) = p" using tree_parent_before [of rows j p] r assms(1) by (auto simp: rows_ok_def)
  obtain i' where i': "i' < length rows" "k \<le> i'" "sr_id (rows ! i') = p" using Suc.IH r(4) by blast
  have "i' = i"
    using nth_eq_iff_index_eq [of "map sr_id rows" i' i] assms(1) i i' j(1) by (simp add: rows_ok_def)
  then show ?case using i i' j r(3) by (intro exI [of _ j]) auto
qed

lemma subtree_ids_family:
  assumes "rows_ok (sd_rows db)" and "find_row db cid \<noteq> None"
  shows "set (subtree_ids db cid) = family (sd_rows db) cid"
proof -
  let ?c = "children_of (sd_rows db)" and ?n = "length (sd_rows db)"
  have cid: "cid \<in> sr_id ` set (sd_rows db)" using assms(2) find_row_None [of db cid] by simp
  have deep: "set ((?c ^^ k) [cid]) = {}" if "?n \<le> k" for k
  proof (rule equals0I)
    fix x assume "x \<in> set ((?c ^^ k) [cid])"
    then show False using level_place [OF assms(1) cid, of x k] that by auto
  qed
  have below: "x \<in> family (sd_rows db) cid" if "x \<in> set ((?c ^^ k) [cid])" for x k
    using that
  proof (induction k arbitrary: x)
    case (Suc k)
    then obtain r p where "r \<in> set (sd_rows db)" "sr_parent r = Some p" "sr_id r = x" "p \<in> set ((?c ^^ k) [cid])"
      by (auto simp: set_children_of)
    then show ?case using Suc.IH family.child by metis
  qed (simp add: family.self)
  have depth: "\<exists>k. x \<in> set ((?c ^^ k) [cid])" if "x \<in> family (sd_rows db) cid" for x
    using that
  proof induction
    case self
    show ?case by (rule exI [of _ 0]) simp
  next
    case (child p r)
    then obtain k where "p \<in> set ((?c ^^ k) [cid])" by blast
    then have "sr_id r \<in> set ((?c ^^ Suc k) [cid])" using child by (auto simp: set_children_of)
    then show ?case by blast
  qed
  have "x \<in> (\<Union>k < Suc ?n. set ((?c ^^ k) [cid]))" if x: "x \<in> family (sd_rows db) cid" for x
  proof -
    obtain k where k: "x \<in> set ((?c ^^ k) [cid])" using depth [OF x] by (rule exE)
    then have "k < ?n" using deep [of k] by (cases "k < ?n") simp_all
    then show ?thesis using k by (intro UN_I [of k]) simp_all
  qed
  moreover have "x \<in> family (sd_rows db) cid" if "x \<in> (\<Union>k < Suc ?n. set ((?c ^^ k) [cid]))" for x
    using that by (elim UN_E) (rule below)
  ultimately show ?thesis unfolding subtree_ids_def subtree_levels_set by (intro equalityI subsetI)
qed

lemma delete_conversation_ok:
  assumes "db_ok db"
  shows "db_ok (fst (delete_conversation db cid))"
proof (cases "find_row db cid")
  case None
  then show ?thesis using assms by (simp add: delete_conversation_def)
next
  case (Some row)
  let ?keep = "\<lambda>r. sr_id r \<notin> family (sd_rows db) cid"
  have r: "rows_ok (sd_rows db)" using assms by (simp add: db_ok_def)
  note fam = subtree_ids_family [OF r, of cid]
  have "tree_ok (filter ?keep []) (filter ?keep (sd_rows db))"
    using r by (intro tree_ok_filter) (auto simp: rows_ok_def intro: family.child)
  then have "rows_ok (filter ?keep (sd_rows db))" using r by (auto simp: rows_ok_def distinct_map_filter)
  moreover have "items_ok (filter P (sd_items db))" for P using assms by (auto simp: db_ok_def items_ok_def distinct_map_filter)
  moreover have "allocator_ok (filter P (sd_items db)) q" if "q \<in> set (sd_rows db)" for P q
    using that assms by (auto simp: db_ok_def allocator_ok_def split: option.splits)
  ultimately show ?thesis using assms Some fam by (simp add: delete_conversation_def Let_def db_ok_def)
qed

section \<open>Steps\<close>

inductive sess_step :: "sess_db \<Rightarrow> sess_db \<Rightarrow> bool" where
  create: "new_conv_id db c \<Longrightarrow> create_conversation db c now a = Inr (db', s) \<Longrightarrow> sess_step db db'"
| create_agent: "new_conv_id db c \<Longrightarrow> create_session_with_agent db c now a = Inr (db', s, g) \<Longrightarrow> sess_step db db'"
| append: "append_items db c now fresh ns = Inr (db', rows) \<Longrightarrow> sess_step db db'"
| fork: "new_conv_id db c \<Longrightarrow> fork_conversation db src c now fresh fa = Inr (db', s) \<Longrightarrow> sess_step db db'"
| switch: "switch_conversation_agent db c now sa = Inr (db', s) \<Longrightarrow> sess_step db db'"
| update: "update_conversation db c now u = Inr (db', t) \<Longrightarrow> sess_step db db'"
| pin: "set_runner_id db c runner = (db', won) \<Longrightarrow> sess_step db db'"
| rebind: "replace_runner_id db c now runner = Inr (db', s) \<Longrightarrow> sess_step db db'"
| unpin: "clear_runner_id db c now = Inr (db', s) \<Longrightarrow> sess_step db db'"
| unbind: "clear_host_binding db c now = Inr (db', s) \<Longrightarrow> sess_step db db'"
| host: "set_host_id db c now h w b = Inr (db', s) \<Longrightarrow> sess_step db db'"
| external: "set_external_session_id db c now v = Inr (db', s) \<Longrightarrow> sess_step db db'"
| labels: "sess_step db (upsert_labels db c ls)"
| unlabel: "sess_step db (delete_label db c k)"
| delete: "sess_step db (fst (delete_conversation db c))"

lemmas row_updates = replace_runner_id_def clear_runner_id_def clear_host_binding_def set_host_id_def set_external_session_id_def

lemma external_same_place:
  "(case sr_external_session r of None \<Rightarrow> Inr (r\<lparr>sr_external_session := Some v, sr_updated_at := now\<rparr>)
    | Some old \<Rightarrow> if old \<noteq> v then Inl (e old) else Inr r) = Inr r' \<Longrightarrow> same_place r r' \<and> sr_next_position r' = sr_next_position r"
  by (auto simp: same_place_def split: option.splits if_splits)

lemma sess_step_ok: "sess_step db db' \<Longrightarrow> db_ok db \<Longrightarrow> db_ok db'"
proof (induction rule: sess_step.induct)
  case (rebind db c now runner db' s)
  then show ?case unfolding row_updates by (elim with_row_ok(1) [rotated]) (auto simp: same_place_def)
next
  case (unpin db c now db' s)
  then show ?case unfolding row_updates by (elim with_row_ok(1) [rotated]) (auto simp: same_place_def)
next
  case (unbind db c now db' s)
  then show ?case unfolding row_updates by (elim with_row_ok(1) [rotated]) (auto simp: same_place_def)
next
  case (host db c now h w b db' s)
  then show ?case unfolding row_updates by (elim with_row_ok(1) [rotated]) (auto simp: same_place_def)
next
  case (external db c now v db' s)
  then show ?case unfolding row_updates by (elim with_row_ok(1) [rotated]) (rule external_same_place)
next
  case (unlabel db c k)
  then show ?case by (simp add: delete_label_def)
qed (auto intro: create_conversation_ok(1) create_session_with_agent_ok append_items_ok fork_conversation_ok(1) switch_conversation_agent_ok(1)
  update_conversation_ok set_runner_id_ok delete_conversation_ok)

definition empty_db :: sess_db where
  "empty_db = \<lparr>sd_rows = [], sd_items = [], sd_labels = (\<lambda>c. []), sd_agents = [], sd_grants = [], sd_comments = [], sd_policies = []\<rparr>"

lemma empty_db_ok: "db_ok empty_db"
  by (simp add: empty_db_def db_ok_def rows_ok_def items_ok_def)

end
