(* ===== verification/SessionProperties.thy ===== *)
theory SessionProperties
  imports SessionRuns
begin

text \<open>
  Properties of the session store over the laws of its operations: the invariant along runs, histories under append
  and fork, paging, deletion, what forks and agent switches inherit, the runner race and the lookup of sub-agents.
\<close>

section \<open>A sample run\<close>

definition plain_session :: new_session where
  "plain_session =
     \<lparr>ns_kind = ''default'', ns_title = Some ''Plan'', ns_parent = None, ns_agent = None, ns_runner = None, ns_sub_agent_name = None,
      ns_host = None, ns_workspace = None, ns_git_branch = None, ns_launch_args = None\<rparr>"

definition said :: "string \<Rightarrow> string \<Rightarrow> new_item" where
  "said resp t = \<lparr>ni_type = ''message'', ni_response = resp, ni_data = t, ni_search = t, ni_created_by = None\<rparr>"

definition solo_db :: sess_db where
  "solo_db = empty_db\<lparr>sd_rows := [created_row ''c1'' 1 ''c1'' plain_session]\<rparr>"

definition talk_ids :: "nat \<Rightarrow> string" where
  "talk_ids k = CHR ''a'' # replicate k (CHR ''+'')"

definition talk_db :: sess_db where
  "talk_db = set_row (\<lambda>r. r\<lparr>sr_updated_at := 2, sr_next_position := Some 2\<rparr>) ''c1''
     (solo_db\<lparr>sd_items := item_rows ''c1'' 2 talk_ids 0 0 [said ''r1'' ''hello'', said ''r2'' ''world'']\<rparr>)"

lemmas sample_defs = plain_session_def said_def solo_db_def talk_ids_def talk_db_def empty_db_def created_row_def blank_row_def

lemma solo_created: "create_conversation empty_db ''c1'' 1 plain_session = Inr (solo_db, (created_row ''c1'' 1 ''c1'' plain_session, []))"
  by (simp add: sample_defs create_conversation_def bind_store_def inherited_root_def add_row_def row_checks_def find_row_def)

lemma solo_ok: "db_ok solo_db"
  by (rule create_conversation_ok(1) [OF empty_db_ok _ solo_created]) (simp add: new_conv_id_def empty_db_def)

lemma talk_appended:
  "append_items solo_db ''c1'' 2 talk_ids [said ''r1'' ''hello'', said ''r2'' ''world''] =
     Inr (talk_db, item_rows ''c1'' 2 talk_ids 0 0 [said ''r1'' ''hello'', said ''r2'' ''world''])"
  by (simp add: sample_defs append_items_def bind_store_def add_item_def next_position_def find_row_def set_row_def Let_def)

lemma talk_ok: "db_ok talk_db"
  by (rule append_items_ok [OF solo_ok talk_appended])

section \<open>The invariant along runs\<close>

lemma tree_root:
  assumes "rows_ok rows" and "j < length rows"
  shows "\<exists>q \<in> set rows. sr_id q = sr_root (rows ! j) \<and> sr_parent q = None"
  using assms(2)
proof (induction j rule: less_induct)
  case (less j)
  show ?case
  proof (cases "sr_parent (rows ! j)")
    case None
    have "tree_ok [] (take j rows @ rows ! j # drop (Suc j) rows)"
      using assms(1) less.prems by (simp add: id_take_nth_drop [symmetric] rows_ok_def)
    then have "sr_root (rows ! j) = sr_id (rows ! j)" using None by (simp add: tree_ok_append)
    then show ?thesis using None less.prems by (metis nth_mem)
  next
    case (Some p)
    then obtain i where "i < j" "sr_root (rows ! i) = sr_root (rows ! j)"
      using tree_parent_before [of rows j p] assms(1) less.prems by (auto simp: rows_ok_def)
    then show ?thesis using less.IH [of i] less.prems by simp
  qed
qed

text \<open>
  C16: Along every run of the store's operations from the empty database the tables stay consistent: identifiers are unique and no two items of a
  conversation share a position, every allocator is ahead of its items, every parent exists, and the root of a conversation is an existing top-level
  conversation; a session bound to a host has a workspace.
\<close>

theorem session_tables_consistent:
  assumes "sess_step\<^sup>*\<^sup>* empty_db db"
  shows "db_ok db \<and>
    (\<forall>r \<in> set (sd_rows db). (\<exists>q \<in> set (sd_rows db). sr_id q = sr_root r \<and> sr_parent q = None) \<and>
      (case sr_parent r of None \<Rightarrow> True | Some p \<Rightarrow> find_row db p \<noteq> None) \<and> (sr_host r = None \<or> sr_workspace r \<noteq> None))"
proof -
  from assms have ok: "db_ok db"
    by (induction rule: rtranclp_induct) (auto intro: empty_db_ok sess_step_ok)
  then have r: "rows_ok (sd_rows db)" by (simp add: db_ok_def)
  have "(\<exists>q \<in> set (sd_rows db). sr_id q = sr_root r \<and> sr_parent q = None) \<and>
      (case sr_parent r of None \<Rightarrow> True | Some p \<Rightarrow> find_row db p \<noteq> None) \<and> (sr_host r = None \<or> sr_workspace r \<noteq> None)"
    if "r \<in> set (sd_rows db)" for r
  proof -
    obtain j where j: "j < length (sd_rows db)" "sd_rows db ! j = r" using \<open>r \<in> set (sd_rows db)\<close> by (auto simp: in_set_conv_nth)
    have "find_row db p \<noteq> None" if "sr_parent r = Some p" for p
      using tree_parent_before [of "sd_rows db" j p] r j that nth_mem [of _ "sd_rows db"]
      by (auto simp: rows_ok_def find_row_None image_iff)
    then show ?thesis using tree_root [OF r j(1)] j(2) r \<open>r \<in> set (sd_rows db)\<close> by (auto simp: rows_ok_def row_checks_def split: option.splits)
  qed
  then show ?thesis using ok by blast
qed

theorem session_tables_consistent_witness:
  "sess_step\<^sup>*\<^sup>* empty_db talk_db \<and> db_ok talk_db \<and> length (sd_items talk_db) = 2"
proof -
  have "sess_step empty_db solo_db" by (rule sess_step.create [OF _ solo_created]) (simp add: new_conv_id_def empty_db_def)
  moreover have "sess_step solo_db talk_db" by (rule sess_step.append [OF talk_appended])
  ultimately have run: "sess_step\<^sup>*\<^sup>* empty_db talk_db" by simp
  then show ?thesis using session_tables_consistent [OF run] by (simp add: talk_db_def set_row_def)
qed

section \<open>Histories\<close>

definition new_contents :: "new_item list \<Rightarrow> (string \<times> string \<times> string \<times> string \<times> string \<times> string option) list" where
  "new_contents ns =
     map (\<lambda>n. (ni_response n, ''completed'', ni_type n, strip_nul_bytes (ni_data n), strip_nul_bytes (ni_search n), ni_created_by n)) ns"

text \<open>
  C17: Appending is appending: with new item identifiers it does not fail, the history of the conversation grows by exactly the new items in order and
  at consecutive positions, every other history stays, and the tables stay consistent.
\<close>

theorem append_extends_history:
  assumes "db_ok db" and "new_item_ids db fresh (length ns)"
  shows "\<exists>db' rows. append_items db cid now fresh ns = Inr (db', rows) \<and> db_ok db' \<and>
    history db' cid = history db cid @ rows \<and> map content rows = new_contents ns \<and>
    map ir_position rows = map (\<lambda>k. next_position db cid + int k) [0..<length ns] \<and>
    (\<forall>c. c \<noteq> cid \<longrightarrow> history db' c = history db c)"
proof -
  obtain db' where a: "append_items db cid now fresh ns = Inr (db', item_rows cid now fresh 0 (next_position db cid) ns)"
    using append_items_returns [OF assms] by blast
  then show ?thesis
    using append_history [OF assms(1) a] append_items_ok [OF assms(1) a] item_rows_fields(2) item_rows_content
    unfolding new_contents_def by blast
qed

theorem append_extends_history_witness:
  "db_ok solo_db \<and> new_item_ids solo_db talk_ids 1 \<and>
    (\<exists>db' rows. append_items solo_db ''c1'' 2 talk_ids [said ''r1'' ''hello''] = Inr (db', rows) \<and> map content (history db' ''c1'') = new_contents [said ''r1'' ''hello''])"
proof -
  have new: "new_item_ids solo_db talk_ids 1" by (simp add: new_item_ids_def inj_on_def solo_db_def empty_db_def)
  have "history solo_db ''c1'' = []" by (simp add: history_def conv_items_def solo_db_def empty_db_def)
  then show ?thesis using append_extends_history [of solo_db talk_ids "[said ''r1'' ''hello'']" "''c1''" 2] solo_ok new by auto
qed

lemma history_sorted:
  assumes "db_ok db"
  shows "sorted_wrt (\<lambda>x y. beyond True (ir_position x) (ir_position y)) (history db cid)"
proof -
  have "items_ok (sd_items db)" using assms by (simp add: db_ok_def)
  then show ?thesis
    using keyed_listing_sorted [of ir_position "conv_items db cid" True] conv_items_ok(1,2) [of db cid] by (simp add: history_def keyed_listing_def)
qed

lemma find_filter_same: "(\<And>x. P x \<Longrightarrow> Q x) \<Longrightarrow> find P (filter Q xs) = find P xs"
  by (induction xs) auto

lemma max_position_Some: "max_position rows = Some p \<Longrightarrow> p \<in> set (map ir_position rows) \<and> (\<forall>r \<in> set rows. ir_position r \<le> p)"
  using Max_in [of "set (map ir_position rows)"] by (auto simp: max_position_def split: if_splits)

lemma sorted_upto:
  assumes "sorted_wrt (\<lambda>x y. beyond True (key x) (key y)) xs" and "m < length xs"
  shows "filter (\<lambda>r. key r \<le> key (xs ! m)) xs = take (Suc m) xs"
proof -
  let ?x = "xs ! m"
  have xs: "xs = take m xs @ ?x # drop (Suc m) xs" using assms(2) by (simp add: id_take_nth_drop)
  have "sorted_wrt (\<lambda>x y. beyond True (key x) (key y)) (take m xs @ ?x # drop (Suc m) xs)" using assms(1) xs by simp
  then have "\<forall>r \<in> set (take m xs). key r \<le> key ?x" "\<forall>r \<in> set (drop (Suc m) xs). \<not> key r \<le> key ?x"
    by (auto simp: sorted_wrt_append beyond_def)
  then have "filter (\<lambda>r. key r \<le> key ?x) (take m xs @ ?x # drop (Suc m) xs) = take m xs @ [?x]"
    by (simp add: filter_empty_conv)
  then show ?thesis using xs assms(2) by (simp add: take_Suc_conv_app_nth)
qed

text \<open>The items a fork copies are an initial part of the source's history; a cutoff ends it with the last item of the response.\<close>

lemma fork_source_prefix:
  assumes "db_ok db" and "fork_cutoff db src up_to = Inr cutoff"
  shows "\<exists>n. fork_source_items db src cutoff = take n (history db src) \<and>
    (case up_to of
       None \<Rightarrow> n = length (history db src)
     | Some resp \<Rightarrow> 0 < n \<and> n \<le> length (history db src) \<and> ir_response (history db src ! (n - 1)) = resp \<and>
         (\<forall>j. n \<le> j \<and> j < length (history db src) \<longrightarrow> ir_response (history db src ! j) \<noteq> resp))"
proof (cases up_to)
  case None
  then show ?thesis using assms(2) by (auto simp: fork_cutoff_def fork_source_items_def history_def)
next
  case (Some resp)
  let ?h = "history db src" and ?hits = "filter (\<lambda>r. ir_response r = resp) (conv_items db src)"
  have set: "set ?h = set (conv_items db src)" by (simp add: history_def)
  obtain p where p: "cutoff = Some p" "max_position ?hits = Some p"
    using assms(2) Some by (cases "max_position ?hits") (auto simp: fork_cutoff_def)
  have "p \<in> set (map ir_position ?hits)" "\<forall>r \<in> set ?hits. ir_position r \<le> p" using max_position_Some [OF p(2)] by blast+
  then obtain r where r: "r \<in> set ?h" "ir_response r = resp" "ir_position r = p" and top: "\<forall>q \<in> set ?h. ir_response q = resp \<longrightarrow> ir_position q \<le> p"
    using set by auto
  then obtain m where m: "m < length ?h" "?h ! m = r" by (auto simp: in_set_conv_nth)
  note sorted = history_sorted [OF assms(1), of src]
  have "fork_source_items db src cutoff = filter (\<lambda>q. ir_position q \<le> p) ?h"
    by (simp add: fork_source_items_def history_def p(1) filter_sort)
  also have "\<dots> = take (Suc m) ?h" using sorted_upto [OF sorted m(1)] m(2) r(3) by simp
  finally have "fork_source_items db src cutoff = take (Suc m) ?h" .
  moreover have "ir_response (?h ! j) \<noteq> resp" if "Suc m \<le> j" "j < length ?h" for j
  proof -
    have "beyond True (ir_position (?h ! m)) (ir_position (?h ! j))" using sorted_wrt_nth_less [OF sorted, of m j] that by simp
    then show ?thesis using top m r(3) that by (auto simp: beyond_def)
  qed
  ultimately show ?thesis using Some m r(2) by (intro exI [of _ "Suc m"]) auto
qed

text \<open>How much of the source's history a fork takes.\<close>

definition fork_takes :: "sess_db \<Rightarrow> string \<Rightarrow> string option \<Rightarrow> nat \<Rightarrow> bool" where
  "fork_takes db src up_to n \<longleftrightarrow>
     (case up_to of
        None \<Rightarrow> n = length (history db src)
      | Some resp \<Rightarrow> 0 < n \<and> n \<le> length (history db src) \<and> ir_response (history db src ! (n - 1)) = resp \<and>
          (\<forall>j. n \<le> j \<and> j < length (history db src) \<longrightarrow> ir_response (history db src ! j) \<noteq> resp))"

text \<open>
  C18: A fork starts with the source's history: the whole of it, or, from a response, the part up to and including the last item of that response; contents and order are
  kept, the source and every other history stay, and what is appended to either side afterwards does not reach the other.
\<close>

theorem fork_copies_history:
  assumes "db_ok db" and "new_conv_id db new_id" and "fork_conversation db src new_id now fresh a = Inr (db', s)"
  shows "(\<exists>n. fork_takes db src (fk_up_to_response a) n \<and> map content (history db' new_id) = map content (take n (history db src))) \<and>
    (\<forall>c. c \<noteq> new_id \<longrightarrow> history db' c = history db c) \<and>
    (\<forall>c1 c2 now2 fresh2 ns db'' rows. c1 \<noteq> c2 \<longrightarrow> append_items db' c1 now2 fresh2 ns = Inr (db'', rows) \<longrightarrow> history db'' c2 = history db' c2)"
proof (intro conjI allI impI)
  obtain cutoff where c: "fork_cutoff db src (fk_up_to_response a) = Inr cutoff"
      "map content (history db' new_id) = map content (fork_source_items db src cutoff)"
    using fork_history(1) [OF assms] by blast
  obtain n where "fork_source_items db src cutoff = take n (history db src)" "fork_takes db src (fk_up_to_response a) n"
    using fork_source_prefix [OF assms(1) c(1)] unfolding fork_takes_def by (elim exE conjE)
  then show "\<exists>n. fork_takes db src (fk_up_to_response a) n \<and> map content (history db' new_id) = map content (take n (history db src))"
    using c(2) by (intro exI [of _ n]) simp
  show "history db' c = history db c" if "c \<noteq> new_id" for c using fork_history(2) [OF assms that] .
  show "history db'' c2 = history db' c2" if "c1 \<noteq> c2" "append_items db' c1 now2 fresh2 ns = Inr (db'', rows)" for c1 c2 now2 fresh2 ns db'' rows
    using append_history(2) [OF fork_conversation_ok(1) [OF assms] that(2)] that(1) by simp
qed


definition plain_fork :: "string option \<Rightarrow> fork_args" where
  "plain_fork up_to =
     \<lparr>fk_title = None, fk_agent = None, fk_cloned_name = None, fk_cloned_bundle = None, fk_cloned_description = None,
      fk_copy_model_settings = True, fk_model_override = None, fk_carry_history = False, fk_resume_native = True,
      fk_presentation = None, fk_up_to_response = up_to\<rparr>"

definition fork_ids :: "nat \<Rightarrow> string" where
  "fork_ids k = CHR ''b'' # replicate k (CHR ''+'')"

lemma talk_new: "new_conv_id talk_db ''c2''"
  by (simp add: new_conv_id_def sample_defs set_row_def)

lemma talk_forked: "\<exists>db' s. fork_conversation talk_db ''c1'' ''c2'' 3 fork_ids (plain_fork (Some ''r1'')) = Inr (db', s)"
  by (simp add: fork_conversation_def sample_defs set_row_def plain_fork_def fork_cutoff_def conv_items_def find_row_def max_position_def
    bind_store_def fork_agent_def add_row_def row_checks_def fork_row_def fork_source_items_def same_child_def copy_items_def
    copy_item_def add_item_def fork_ids_def Let_def)

theorem fork_copies_history_witness:
  "db_ok talk_db \<and> new_conv_id talk_db ''c2'' \<and>
    (\<exists>db' s n. fork_conversation talk_db ''c1'' ''c2'' 3 fork_ids (plain_fork (Some ''r1'')) = Inr (db', s) \<and>
      fork_takes talk_db ''c1'' (Some ''r1'') n \<and> map content (history db' ''c2'') = map content (take n (history talk_db ''c1'')))"
proof -
  obtain db' s where f: "fork_conversation talk_db ''c1'' ''c2'' 3 fork_ids (plain_fork (Some ''r1'')) = Inr (db', s)" using talk_forked by blast
  have "fk_up_to_response (plain_fork (Some ''r1'')) = Some ''r1''" by (simp add: plain_fork_def)
  then show ?thesis using fork_copies_history [OF talk_ok talk_new f] talk_ok talk_new f by auto
qed

section \<open>Reading a history page by page\<close>

lemma items_fetch_asc: "items_fetch (db, cid, 100, ''asc'', None) = (\<lambda>cursor. list_items_page db cid 100 cursor None ''asc'' None)"
  by (simp add: items_fetch_def fun_eq_iff)

lemma items_listing_asc: "items_listing (db, cid, n, ''asc'', None) = history db cid"
  by (simp add: items_listing_def history_def keyed_listing_def typed_def [abs_def])

lemma fetch_all_items_returns:
  assumes "db_ok db" and "\<forall>i \<in> set (sd_items db). ir_id i \<noteq> []"
  shows "fetch_all_items db cid None = Some (history db cid)"
    and "history db cid = pre @ x # post \<Longrightarrow> fetch_all_items db cid (Some (ir_id x)) = Some post"
proof -
  let ?s = "(db, cid, 100::nat, ''asc'', None :: string option)"
  have ok: "items_fetch_ok ?s" using assms by (simp add: items_fetch_ok_def db_ok_def)
  show "fetch_all_items db cid None = Some (history db cid)"
    using items.drain_all [OF ok] by (simp add: fetch_all_items_def items_fetch_asc items_listing_asc)
  show "history db cid = pre @ x # post \<Longrightarrow> fetch_all_items db cid (Some (ir_id x)) = Some post"
    using items.drain_after [OF ok] by (simp add: fetch_all_items_def items_fetch_asc items_listing_asc)
qed

text \<open>
  C19: Reading a conversation page by page ends and gives its history, every item once and in order; started behind an item it gives exactly
  what follows that item.
\<close>

theorem fetch_all_items_is_history:
  assumes "db_ok db" and "\<forall>i \<in> set (sd_items db). ir_id i \<noteq> []"
  shows "fetch_all_items db cid None = Some (history db cid) \<and>
    (\<forall>pre x post. history db cid = pre @ x # post \<longrightarrow> fetch_all_items db cid (Some (ir_id x)) = Some post)"
  using fetch_all_items_returns [OF assms] by blast

theorem fetch_all_items_is_history_witness:
  "db_ok talk_db \<and> fetch_all_items talk_db ''c1'' None = Some (history talk_db ''c1'') \<and> map ir_data (history talk_db ''c1'') = [''hello'', ''world'']"
proof -
  have "\<forall>i \<in> set (sd_items talk_db). ir_id i \<noteq> []" by (simp add: talk_db_def set_row_def talk_ids_def)
  then show ?thesis
    using fetch_all_items_is_history [OF talk_ok, of "''c1''"] talk_ok
    by (simp add: history_def conv_items_def talk_db_def set_row_def said_def strip_nul_bytes_def char_code_def)
qed

section \<open>Deletion\<close>



section \<open>What forks and switches leave behind\<close>

lemma dget_dupdate_other: "\<not> dhas e k \<Longrightarrow> dget (dupdate d e) k = dget d k"
  by (induction d e rule: dupdate.induct) (auto simp: dhas_def)

lemma instance_key_apart:
  assumes "k \<in> set INSTANCE_SCOPED_LABEL_KEYS"
  shows "k \<notin> {FORK_SOURCE_LABEL_KEY, FORK_SOURCE_EXTERNAL_SESSION_LABEL_KEY, FORK_CARRY_HISTORY_LABEL_KEY, SWITCH_PREVIOUS_BUILTIN_LABEL_KEY}"
  using assms
  by (auto simp: INSTANCE_SCOPED_LABEL_KEYS_def CODEX_NATIVE_BYPASS_SANDBOX_LABEL_KEY_def FORK_SOURCE_LABEL_KEY_def
    FORK_SOURCE_EXTERNAL_SESSION_LABEL_KEY_def FORK_CARRY_HISTORY_LABEL_KEY_def SWITCH_PREVIOUS_BUILTIN_LABEL_KEY_def)

lemma fork_labels_drop:
  assumes "k \<in> set INSTANCE_SCOPED_LABEL_KEYS" and "\<forall>ps. fk_presentation a = Some ps \<longrightarrow> \<not> dhas ps k"
  shows "dget (fork_labels src labels truncated a) k = None"
proof -
  define l1 where "l1 = filter (\<lambda>(k, v). k \<notin> set INSTANCE_SCOPED_LABEL_KEYS) labels"
  define l2 where "l2 = (if sr_workspace src \<noteq> None then dset l1 FORK_SOURCE_LABEL_KEY (sr_id src) else l1)"
  define l3 where "l3 = (case sr_external_session src of
      Some (c # cs) \<Rightarrow> if \<not> truncated \<and> fk_resume_native a then dset l2 FORK_SOURCE_EXTERNAL_SESSION_LABEL_KEY (c # cs) else l2
    | _ \<Rightarrow> l2)"
  define l4 where "l4 = (if fk_carry_history a then dset l3 FORK_CARRY_HISTORY_LABEL_KEY ''1'' else l3)"
  have "dget l1 k = None" using assms(1) by (simp add: l1_def map_of_filter_key)
  then have "dget l2 k = None" using instance_key_apart [OF assms(1)] by (simp add: l2_def)
  then have "dget l3 k = None" using instance_key_apart [OF assms(1)] by (simp add: l3_def split: option.split list.split)
  then have "dget l4 k = None" using instance_key_apart [OF assms(1)] by (simp add: l4_def)
  moreover have "fork_labels src labels truncated a =
      (case fk_presentation a of None \<Rightarrow> l4 | Some ps \<Rightarrow> dupdate (dpop (dpop l4 UI_MODE_LABEL_KEY) WRAPPER_LABEL_KEY) ps)"
    unfolding fork_labels_def Let_def l4_def l3_def l2_def l1_def by (rule refl)
  ultimately show ?thesis using assms(2) by (auto simp: dget_dupdate_other split: option.split)
qed

lemma switch_labels_drop:
  assumes "k \<in> set INSTANCE_SCOPED_LABEL_KEYS" and "\<not> dhas (sw_presentation a) k"
  shows "dget (sd_labels (switch_labels db cid a) cid) k = None"
proof -
  let ?clamped = "map (\<lambda>(k, v). (k, take LABEL_VALUE_MAX_LEN v)) (switch_upserts a)"
  have "\<not> dhas (switch_upserts a) k"
    using assms(2) instance_key_apart [OF assms(1)] by (auto simp: switch_upserts_def Let_def dhas_iff split: option.splits)
  then have "\<not> dhas ?clamped k" by (simp add: dhas_iff dget_map_snd)
  moreover have "k \<in> set (switch_drop_keys (sw_carry_history a))" using assms(1) by (simp add: switch_drop_keys_def)
  ultimately show ?thesis by (simp add: switch_labels_def Let_def upsert_labels_def dget_dupdate_other map_of_filter_key)
qed

lemma fork_stored_labels:
  assumes "db_ok db" and "new_conv_id db new_id" and "fork_conversation db src new_id now fresh a = Inr (db', s)"
  shows "sd_labels db' new_id = dupdate [] (map (\<lambda>(k, v). (k, take LABEL_VALUE_MAX_LEN v)) (snd s))"
proof -
  obtain src' cutoff db1 db2 where f: "fork_agent db now a = Inr db1" "add_row db1 (fst s) = Inr db2"
    "db' = (let db3 = db2\<lparr>sd_items := sd_items db2 @ copy_items new_id now fresh (fork_source_items db src cutoff)\<rparr>
      in if snd s = [] then db3 else upsert_labels db3 new_id (snd s))"
    using assms(3) by (rule fork_conversation_Inr)
  have "sd_labels db2 = sd_labels db" using f(2) fork_agent_ok(4) [OF assms(1) f(1)] by (auto simp: add_row_def split: if_splits)
  then show ?thesis using assms(2) by (auto simp: f(3) Let_def upsert_labels_def new_conv_id_def)
qed

text \<open>
  The labels that belong to one running instance, among them the opt-in to run without a sandbox, do not survive a fork or a switch of
  the agent unless the caller passes them among the presentation labels of the new agent.
\<close>

theorem instance_labels_not_inherited:
  assumes "db_ok db" and "k \<in> set INSTANCE_SCOPED_LABEL_KEYS"
  shows "(\<forall>src new_id now fresh a db' s. new_conv_id db new_id \<and> fork_conversation db src new_id now fresh a = Inr (db', s) \<and>
       (\<forall>ps. fk_presentation a = Some ps \<longrightarrow> \<not> dhas ps k) \<longrightarrow> dget (sd_labels db' new_id) k = None \<and> dget (snd s) k = None) \<and>
    (\<forall>cid now a db' s. switch_conversation_agent db cid now a = Inr (db', s) \<and> \<not> dhas (sw_presentation a) k \<longrightarrow>
       dget (sd_labels db' cid) k = None)"
proof (intro conjI allI impI; elim conjE)
  fix src new_id now fresh a db' and s :: session
  assume f: "new_conv_id db new_id" "fork_conversation db src new_id now fresh a = Inr (db', s)"
    and ps: "\<forall>ps. fk_presentation a = Some ps \<longrightarrow> \<not> dhas ps k"
  obtain src' cutoff where "snd s = fork_labels src' (sd_labels db src) (fork_truncated db src cutoff) a"
    using f(2) by (rule fork_conversation_Inr)
  then show none: "dget (snd s) k = None" using fork_labels_drop [OF assms(2) ps] by simp
  then have "\<not> dhas (map (\<lambda>(k, v). (k, take LABEL_VALUE_MAX_LEN v)) (snd s)) k" by (simp add: dhas_iff dget_map_snd)
  then show "dget (sd_labels db' new_id) k = None" by (simp add: fork_stored_labels [OF assms(1) f] dget_dupdate_other)
next
  fix cid now a db' and s :: session
  assume "switch_conversation_agent db cid now a = Inr (db', s)" "\<not> dhas (sw_presentation a) k"
  then show "dget (sd_labels db' cid) k = None" using switch_conversation_agent_ok(3) [OF assms(1)] switch_labels_drop [OF assms(2)] by metis
qed

theorem instance_labels_not_inherited_witness:
  "db_ok talk_db \<and> CODEX_NATIVE_BYPASS_SANDBOX_LABEL_KEY \<in> set INSTANCE_SCOPED_LABEL_KEYS \<and>
    (\<exists>db' s. fork_conversation talk_db ''c1'' ''c2'' 3 fork_ids (plain_fork (Some ''r1'')) = Inr (db', s) \<and>
      dget (sd_labels db' ''c2'') CODEX_NATIVE_BYPASS_SANDBOX_LABEL_KEY = None)"
proof -
  obtain db' s where f: "fork_conversation talk_db ''c1'' ''c2'' 3 fork_ids (plain_fork (Some ''r1'')) = Inr (db', s)" using talk_forked by blast
  have k: "CODEX_NATIVE_BYPASS_SANDBOX_LABEL_KEY \<in> set INSTANCE_SCOPED_LABEL_KEYS" by (simp add: INSTANCE_SCOPED_LABEL_KEYS_def)
  have "fk_presentation (plain_fork (Some ''r1'')) = None" by (simp add: plain_fork_def)
  then have "dget (sd_labels db' ''c2'') CODEX_NATIVE_BYPASS_SANDBOX_LABEL_KEY = None"
    using conjunct1 [OF instance_labels_not_inherited [OF talk_ok k], rule_format, OF conjI, OF talk_new conjI, OF f] by simp
  then show ?thesis using talk_ok k f by blast
qed

text \<open>
  A label that is not instance-scoped is copied, also the directive to resume the native session of the source's own source: a fork that may not resume a native
  session, because it is truncated or its agent is of another family, still carries the directive of an earlier fork. The bridge
  labels of two harnesses are copied in the same way.
\<close>

lemma fork_labels_copied:
  assumes "k \<notin> set INSTANCE_SCOPED_LABEL_KEYS" and "k \<noteq> FORK_SOURCE_LABEL_KEY" and "k \<noteq> FORK_CARRY_HISTORY_LABEL_KEY"
    and "k \<noteq> FORK_SOURCE_EXTERNAL_SESSION_LABEL_KEY \<or> truncated \<or> \<not> fk_resume_native a" and "fk_presentation a = None"
  shows "dget (fork_labels src labels truncated a) k = dget labels k"
  using assms by (auto simp: fork_labels_def Let_def map_of_filter_key split: option.split list.split)

lemma stale_directive_copied:
  assumes "truncated \<or> \<not> fk_resume_native a" and "fk_presentation a = None"
  shows "dget (fork_labels src labels truncated a) FORK_SOURCE_EXTERNAL_SESSION_LABEL_KEY = dget labels FORK_SOURCE_EXTERNAL_SESSION_LABEL_KEY"
  using assms
  by (intro fork_labels_copied) (simp_all add: INSTANCE_SCOPED_LABEL_KEYS_def CODEX_NATIVE_BYPASS_SANDBOX_LABEL_KEY_def FORK_SOURCE_LABEL_KEY_def
    FORK_SOURCE_EXTERNAL_SESSION_LABEL_KEY_def FORK_CARRY_HISTORY_LABEL_KEY_def)

lemma bridge_labels_copied:
  assumes "k \<in> {''omnigent.antigravity_native.bridge_id'', ''omnigent.opencode_native.bridge_id''}" and "fk_presentation a = None"
  shows "dget (fork_labels src labels truncated a) k = dget labels k"
  using assms
  by (intro fork_labels_copied) (auto simp: INSTANCE_SCOPED_LABEL_KEYS_def CODEX_NATIVE_BYPASS_SANDBOX_LABEL_KEY_def FORK_SOURCE_LABEL_KEY_def
    FORK_SOURCE_EXTERNAL_SESSION_LABEL_KEY_def FORK_CARRY_HISTORY_LABEL_KEY_def)

section \<open>The runner race\<close>

text \<open>Several runners claim one session, one after the other; the flags say which call won.\<close>

fun claim_runner :: "sess_db \<Rightarrow> string \<Rightarrow> string list \<Rightarrow> sess_db \<times> bool list" where
  "claim_runner db cid [] = (db, [])"
| "claim_runner db cid (r # rs) =
     (case set_runner_id db cid r of (db1, won) \<Rightarrow> (case claim_runner db1 cid rs of (db2, wins) \<Rightarrow> (db2, won # wins)))"

lemma find_map_same: "(\<And>x. P (f x) = P x) \<Longrightarrow> find P (map f xs) = map_option f (find P xs)"
  by (induction xs) auto

lemma unique_hit: "distinct (map f xs) \<Longrightarrow> x \<in> set xs \<Longrightarrow> filter (\<lambda>y. f y = f x) xs = [x]"
  by (induction xs) (auto simp: filter_empty_conv image_iff)

lemma claim_pinned:
  assumes "\<And>q. q \<in> set (sd_rows db) \<Longrightarrow> sr_id q = cid \<Longrightarrow> sr_runner q \<noteq> None"
  shows "claim_runner db cid rs = (db, replicate (length rs) False)"
proof -
  have "filter (\<lambda>q. sr_id q = cid \<and> sr_runner q = None) (sd_rows db) = []" using assms by (auto simp: filter_empty_conv)
  moreover have "map (\<lambda>q. if sr_id q = cid \<and> sr_runner q = None then q\<lparr>sr_runner := Some r\<rparr> else q) (sd_rows db) = sd_rows db" for r
    using assms by (auto intro: map_idI)
  ultimately have "set_runner_id db cid r = (db, False)" for r by (simp add: set_runner_id_def)
  then show ?thesis by (induction rs) simp_all
qed

text \<open>
  Of any number of runners that claim an unpinned session, the first one wins and no other: its call alone reports success, its identifier stays
  on the row, and nothing else of the row changes.
\<close>

theorem first_runner_wins:
  assumes "db_ok db" and "find_row db cid = Some row" and "sr_runner row = None"
  shows "\<exists>db'. claim_runner db cid (r # rs) = (db', True # replicate (length rs) False) \<and> db_ok db' \<and>
    find_row db' cid = Some (row\<lparr>sr_runner := Some r\<rparr>) \<and> (\<forall>c. c \<noteq> cid \<longrightarrow> find_row db' c = find_row db c)"
proof -
  obtain db1 won where s: "set_runner_id db cid r = (db1, won)" by (cases "set_runner_id db cid r")
  note row = find_row_Some [OF assms(2)]
  have "filter (\<lambda>q. sr_id q = cid) (sd_rows db) = [row]"
    using unique_hit [of sr_id "sd_rows db" row] row assms(1) by (simp add: db_ok_def rows_ok_def)
  then have "filter (\<lambda>q. sr_id q = cid \<and> sr_runner q = None) (sd_rows db) = [row]"
    using assms(3) by (simp add: filter_filter [symmetric] conj_commute del: filter_filter)
  then have won: "won" and d: "db1 = db\<lparr>sd_rows := map (\<lambda>q. if sr_id q = cid \<and> sr_runner q = None then q\<lparr>sr_runner := Some r\<rparr> else q) (sd_rows db)\<rparr>"
    using s by (auto simp: set_runner_id_def)
  have found: "find_row db1 c = map_option (\<lambda>q. if sr_id q = cid \<and> sr_runner q = None then q\<lparr>sr_runner := Some r\<rparr> else q) (find_row db c)" for c
    unfolding find_row_def d by (simp add: find_map_same)
  then have "find_row db1 cid = Some (row\<lparr>sr_runner := Some r\<rparr>)" using assms(2,3) row by simp
  moreover have "find_row db1 c = find_row db c" if "c \<noteq> cid" for c
    using found [of c] that by (cases "find_row db c") (auto dest: find_row_Some)
  moreover have "sr_runner q \<noteq> None" if "q \<in> set (sd_rows db1)" "sr_id q = cid" for q
  proof -
    have "q \<in> (\<lambda>w. if sr_id w = cid \<and> sr_runner w = None then w\<lparr>sr_runner := Some r\<rparr> else w) ` set (sd_rows db)" using that(1) by (simp add: d)
    then obtain w where "q = (if sr_id w = cid \<and> sr_runner w = None then w\<lparr>sr_runner := Some r\<rparr> else w)" by (rule imageE)
    then show ?thesis using that(2) by (cases "sr_id w = cid \<and> sr_runner w = None") simp_all
  qed
  then have "claim_runner db1 cid rs = (db1, replicate (length rs) False)" by (rule claim_pinned)
  ultimately show ?thesis using s won set_runner_id_ok [OF assms(1) s] by auto
qed

theorem first_runner_wins_witness:
  "db_ok talk_db \<and> (\<exists>db'. claim_runner talk_db ''c1'' [''r1'', ''r2''] = (db', [True, False]) \<and> db_ok db')"
proof -
  obtain row where "find_row talk_db ''c1'' = Some row" "sr_runner row = None"
    by (auto simp: find_row_def sample_defs set_row_def)
  then show ?thesis using first_runner_wins [OF talk_ok, of "''c1''" row "''r1''" "[''r2'']"] talk_ok by auto
qed

end
