(* ===== verification/Subagents.thy ===== *)
theory Subagents
  imports SessionStore
begin

text \<open>
  Sub-agents in the session routes (\<^verbatim>\<open>server/routes/sessions.py\<close>): the lookups of a child session over all pages of a parent's children, and
  the registration of children that a native harness spawned by itself, for Claude Code and for Codex. A page loop that does
  not end is \<open>None\<close>; a handler returns the error it raises or the database, the identifier of the child and the
  \<^verbatim>\<open>session.created\<close> events it publishes on the parent's stream.
\<close>

section \<open>Lookups\<close>

definition children_query :: "string \<Rightarrow> listing_query" where
  "children_query parent_id =
     \<lparr>lq_kind = Some ''sub_agent'', lq_parent = Some parent_id, lq_root = None, lq_agent_id = None, lq_agent_name = None,
      lq_has_agent = False, lq_order = ''desc'', lq_sort_by = ''created_at'', lq_search = None, lq_accessible_by = None,
      lq_include_archived = False, lq_project = None, lq_title = None\<rparr>"

text \<open>The page of children the lookup loops read; the query names a valid column, so it does not raise.\<close>

definition children_page :: "sess_db \<Rightarrow> string \<Rightarrow> string option \<Rightarrow> session paged_list" where
  "children_page db parent_id after =
     (case list_sessions db 100 after None (children_query parent_id) of
        Inr page \<Rightarrow> page
      | Inl e \<Rightarrow> \<lparr>pg_data = [], pg_first_id = None, pg_last_id = None, pg_has_more = False\<rparr>)"

definition find_subagent_child_by_title :: "sess_db \<Rightarrow> string \<Rightarrow> string \<Rightarrow> session option option" where
  "find_subagent_child_by_title db parent_id title =
     seek_pages (children_page db parent_id) (\<lambda>(r, ls). sr_title r = Some title) None"

definition CLAUDE_NATIVE_SUBAGENT_ID_LABEL_KEY :: string where
  "CLAUDE_NATIVE_SUBAGENT_ID_LABEL_KEY = ''omnigent.claude_native.subagent_id''"

definition find_claude_native_subagent_child :: "sess_db \<Rightarrow> string \<Rightarrow> string \<Rightarrow> session option option" where
  "find_claude_native_subagent_child db parent_id subagent_id =
     seek_pages (children_page db parent_id) (\<lambda>(r, ls). dget ls CLAUDE_NATIVE_SUBAGENT_ID_LABEL_KEY = Some subagent_id) None"

definition CODEX_NATIVE_SUBAGENT_THREAD_ID_LABEL_KEY :: string where
  "CODEX_NATIVE_SUBAGENT_THREAD_ID_LABEL_KEY = ''omnigent.codex_native.subagent_thread_id''"

definition find_codex_native_subagent_child :: "sess_db \<Rightarrow> string \<Rightarrow> string \<Rightarrow> session option option" where
  "find_codex_native_subagent_child db parent_id thread_id =
     seek_pages (children_page db parent_id) (\<lambda>(r, ls). dget ls CODEX_NATIVE_SUBAGENT_THREAD_ID_LABEL_KEY = Some thread_id) None"

section \<open>Registration\<close>

datatype route_exn = InvalidInput string | StoreExn store_exn

text \<open>Parent stream, child, agent.\<close>

type_synonym created_event = "string \<times> string \<times> string option"

type_synonym registered = "(route_exn + sess_db \<times> string \<times> created_event list) option"

definition set_session_labels :: "sess_db \<Rightarrow> string \<Rightarrow> string dict \<Rightarrow> sess_db" where
  "set_session_labels db cid updates = (if updates = [] then db else upsert_labels db cid updates)"

definition child_args :: "string \<Rightarrow> sess_row \<Rightarrow> string \<Rightarrow> string \<Rightarrow> new_session" where
  "child_args parent_id parent title name =
     \<lparr>ns_kind = ''sub_agent'', ns_title = Some title, ns_parent = Some parent_id, ns_agent = sr_agent parent, ns_runner = sr_runner parent,
      ns_sub_agent_name = Some name, ns_host = None, ns_workspace = None, ns_git_branch = None, ns_launch_args = None\<rparr>"

text \<open>
  Create the child, or adopt the row that already has the title: stamp its labels and announce it. \<open>lookup\<close> is the search for the
  existing row.
\<close>

definition mint_child ::
    "sess_db \<Rightarrow> string \<Rightarrow> sess_row \<Rightarrow> string \<Rightarrow> string \<Rightarrow> string dict \<Rightarrow> (sess_db \<Rightarrow> session option option) \<Rightarrow> string \<Rightarrow> int \<Rightarrow> registered" where
  "mint_child db parent_id parent title name labels lookup new_id now =
     (case create_conversation db new_id now (child_args parent_id parent title name) of
        Inr (db1, s) \<Rightarrow>
          Some (Inr (set_session_labels db1 (sr_id (fst s)) labels, sr_id (fst s), [(parent_id, sr_id (fst s), sr_agent parent)]))
      | Inl (NameAlreadyExistsError m) \<Rightarrow>
          (case lookup db of
             None \<Rightarrow> None
           | Some None \<Rightarrow> Some (Inl (StoreExn (NameAlreadyExistsError m)))
           | Some (Some s) \<Rightarrow>
               Some (Inr (set_session_labels db (sr_id (fst s)) labels, sr_id (fst s), [(parent_id, sr_id (fst s), sr_agent parent)])))
      | Inl e \<Rightarrow> Some (Inl (StoreExn e)))"

definition CLAUDE_NATIVE_SUBAGENT_WRAPPER_LABEL_VALUE :: string where
  "CLAUDE_NATIVE_SUBAGENT_WRAPPER_LABEL_VALUE = ''claude-code-native-ui-subagent''"

definition CLAUDE_NATIVE_TOOL_USE_ID_LABEL_KEY :: string where
  "CLAUDE_NATIVE_TOOL_USE_ID_LABEL_KEY = ''omnigent.claude_native.tool_use_id''"

definition CLAUDE_NATIVE_DESCRIPTION_LABEL_KEY :: string where
  "CLAUDE_NATIVE_DESCRIPTION_LABEL_KEY = ''omnigent.claude_native.description''"

definition claude_child_labels :: "string \<Rightarrow> string \<Rightarrow> string \<Rightarrow> string dict" where
  "claude_child_labels subagent_id tool_use_id description =
     [(WRAPPER_LABEL_KEY, CLAUDE_NATIVE_SUBAGENT_WRAPPER_LABEL_VALUE), (CLAUDE_NATIVE_SUBAGENT_ID_LABEL_KEY, subagent_id),
      (CLAUDE_NATIVE_TOOL_USE_ID_LABEL_KEY, tool_use_id), (CLAUDE_NATIVE_DESCRIPTION_LABEL_KEY, description)]"

text \<open>The part of the handler behind the lookup by label.\<close>

definition mint_claude_child :: "sess_db \<Rightarrow> string \<Rightarrow> sess_row \<Rightarrow> string \<Rightarrow> string \<Rightarrow> string \<Rightarrow> string \<Rightarrow> string \<Rightarrow> int \<Rightarrow> registered" where
  "mint_claude_child db parent_id parent subagent_id agent_type description tool_use_id new_id now =
     (let title = agent_type @ '':'' @ subagent_id
      in mint_child db parent_id parent title agent_type (claude_child_labels subagent_id tool_use_id description)
           (\<lambda>d. find_subagent_child_by_title d parent_id title) new_id now)"

definition persist_external_subagent_start ::
    "sess_db \<Rightarrow> string \<Rightarrow> sess_row \<Rightarrow> pydict \<Rightarrow> string \<Rightarrow> int \<Rightarrow> registered" where
  "persist_external_subagent_start db parent_id parent body new_id now =
     (case pget body ''subagent_id'' of
        PStr (i # js) \<Rightarrow>
          (case pget body ''agent_type'' of
             PStr (t # ts) \<Rightarrow>
               (case pget body ''description'' of
                  PStr description \<Rightarrow>
                    (case pget body ''tool_use_id'' of
                       PStr (u # us) \<Rightarrow>
                         if sr_agent parent = None then
                           Some (Inl (InvalidInput (''parent session '' @ repr_str parent_id @ '' has no agent_id; cannot '' @
                             ''create a claude-native sub-agent child'')))
                         else
                           (case find_claude_native_subagent_child db parent_id (i # js) of
                              None \<Rightarrow> None
                            | Some (Some s) \<Rightarrow> Some (Inr (db, sr_id (fst s), []))
                            | Some None \<Rightarrow> mint_claude_child db parent_id parent (i # js) (t # ts) description (u # us) new_id now)
                     | _ \<Rightarrow> Some (Inl (InvalidInput ''external_subagent_start requires non-empty data.tool_use_id'')))
                | _ \<Rightarrow> Some (Inl (InvalidInput ''external_subagent_start requires data.description (string)'')))
           | _ \<Rightarrow> Some (Inl (InvalidInput ''external_subagent_start requires non-empty data.agent_type'')))
      | _ \<Rightarrow> Some (Inl (InvalidInput ''external_subagent_start requires non-empty data.subagent_id'')))"

section \<open>Codex\<close>

definition CODEX_NATIVE_SUBAGENT_WRAPPER_LABEL_VALUE :: string where
  "CODEX_NATIVE_SUBAGENT_WRAPPER_LABEL_VALUE = ''codex-native-ui-subagent''"

definition CODEX_NATIVE_SUBAGENT_DISPLAY_FALLBACK :: string where
  "CODEX_NATIVE_SUBAGENT_DISPLAY_FALLBACK = ''Codex''"

definition CODEX_NATIVE_SUBAGENT_NICKNAME_LABEL_KEY :: string where
  "CODEX_NATIVE_SUBAGENT_NICKNAME_LABEL_KEY = ''omnigent.codex_native.agent_nickname''"

definition CODEX_NATIVE_SUBAGENT_ROLE_LABEL_KEY :: string where
  "CODEX_NATIVE_SUBAGENT_ROLE_LABEL_KEY = ''omnigent.codex_native.agent_role''"

definition codex_subagent_display_tool :: "string dict \<Rightarrow> string" where
  "codex_subagent_display_tool labels =
     (case dget labels CODEX_NATIVE_SUBAGENT_NICKNAME_LABEL_KEY of
        Some (c # cs) \<Rightarrow> c # cs
      | _ \<Rightarrow>
          (case dget labels CODEX_NATIVE_SUBAGENT_ROLE_LABEL_KEY of
             Some (c # cs) \<Rightarrow> c # cs
           | _ \<Rightarrow> CODEX_NATIVE_SUBAGENT_DISPLAY_FALLBACK))"

definition is_codex_native_subagent :: "session \<Rightarrow> bool" where
  "is_codex_native_subagent s \<longleftrightarrow>
     sr_kind (fst s) = ''sub_agent'' \<and> dget (snd s) WRAPPER_LABEL_KEY = Some CODEX_NATIVE_SUBAGENT_WRAPPER_LABEL_VALUE"

definition subagent_delivery_status :: "string \<Rightarrow> int option \<Rightarrow> session \<Rightarrow> string" where
  "subagent_delivery_status status background_task_count s =
     (if status = ''waiting'' \<and> (case background_task_count of None \<Rightarrow> False | Some n \<Rightarrow> 0 < n) \<and> sr_kind (fst s) = ''sub_agent'' \<and>
         \<not> is_codex_native_subagent s
      then ''idle'' else status)"

definition codex_label_keys :: "(string \<times> string) list" where
  "codex_label_keys =
     [(''parent_thread_id'', ''omnigent.codex_native.parent_thread_id''), (''tool_call_id'', ''omnigent.codex_native.collab_tool_call_id''),
      (''prompt'', ''omnigent.codex_native.prompt''), (''agent_nickname'', CODEX_NATIVE_SUBAGENT_NICKNAME_LABEL_KEY),
      (''agent_role'', CODEX_NATIVE_SUBAGENT_ROLE_LABEL_KEY)]"

fun add_body_labels :: "pydict \<Rightarrow> (string \<times> string) list \<Rightarrow> string dict \<Rightarrow> string dict" where
  "add_body_labels body [] labels = labels"
| "add_body_labels body ((data_key, label_key) # ks) labels =
     add_body_labels body ks
       (case pget body data_key of PStr (c # cs) \<Rightarrow> dset labels label_key (c # cs) | _ \<Rightarrow> labels)"

definition codex_subagent_labels_from_body :: "string \<Rightarrow> pydict \<Rightarrow> string dict" where
  "codex_subagent_labels_from_body thread_id body =
     add_body_labels body codex_label_keys
       [(WRAPPER_LABEL_KEY, CODEX_NATIVE_SUBAGENT_WRAPPER_LABEL_VALUE), (CODEX_NATIVE_SUBAGENT_THREAD_ID_LABEL_KEY, thread_id)]"

text \<open>An existing row is looked up by the label first, then by the title.\<close>

definition find_codex_child :: "sess_db \<Rightarrow> string \<Rightarrow> string \<Rightarrow> string \<Rightarrow> session option option" where
  "find_codex_child db parent_id thread_id title =
     (case find_codex_native_subagent_child db parent_id thread_id of
        None \<Rightarrow> None
      | Some (Some s) \<Rightarrow> Some (Some s)
      | Some None \<Rightarrow> find_subagent_child_by_title db parent_id title)"

definition create_and_publish_codex_child ::
    "sess_db \<Rightarrow> string \<Rightarrow> sess_row \<Rightarrow> string \<Rightarrow> string dict \<Rightarrow> string \<Rightarrow> int \<Rightarrow> registered" where
  "create_and_publish_codex_child db parent_id parent thread_id labels new_id now =
     (let title = ''codex-native-ui-subagent:'' @ thread_id
      in mint_child db parent_id parent title CODEX_NATIVE_SUBAGENT_DISPLAY_FALLBACK labels
           (\<lambda>d. find_codex_child d parent_id thread_id title) new_id now)"

definition persist_external_codex_subagent_start ::
    "sess_db \<Rightarrow> string \<Rightarrow> sess_row \<Rightarrow> pydict \<Rightarrow> string \<Rightarrow> int \<Rightarrow> registered" where
  "persist_external_codex_subagent_start db parent_id parent body new_id now =
     (case pget body ''thread_id'' of
        PStr (c # cs) \<Rightarrow>
          if sr_agent parent = None then
            Some (Inl (InvalidInput (''parent session '' @ repr_str parent_id @ '' has no agent_id; cannot '' @
              ''create a codex-native sub-agent child'')))
          else
            (case find_codex_native_subagent_child db parent_id (c # cs) of
               None \<Rightarrow> None
             | Some existing \<Rightarrow>
                 (let labels = codex_subagent_labels_from_body (c # cs) body
                  in case existing of
                       Some s \<Rightarrow> Some (Inr (set_session_labels db (sr_id (fst s)) labels, sr_id (fst s), []))
                     | None \<Rightarrow> create_and_publish_codex_child db parent_id parent (c # cs) labels new_id now))
      | _ \<Rightarrow> Some (Inl (InvalidInput ''external_codex_subagent_start requires non-empty data.thread_id'')))"

end
