(* ===== verification/SubagentProperties.thy ===== *)
theory SubagentProperties
  imports SessionProperties Subagents
begin

text \<open>
  Properties of sub-agent registration: the lookups over all pages of children are exact, a taken title is adopted or refused, and a repeated
  delivery of the same start event registers nothing new.
\<close>

section \<open>Lookups\<close>

definition shown_child :: "sess_db \<Rightarrow> string \<Rightarrow> sess_row \<Rightarrow> bool" where
  "shown_child db p r \<longleftrightarrow> r \<in> set (sd_rows db) \<and> sr_kind r = ''sub_agent'' \<and> sr_parent r = Some p \<and> \<not> sr_archived r"

definition shown_children :: "sess_db \<Rightarrow> string \<Rightarrow> session list" where
  "shown_children db p = sessions_listing (db, 100, children_query p)"

lemma children_page_fetch: "children_page db p = sessions_fetch (db, 100, children_query p)"
  by (simp add: children_page_def sessions_fetch_def fun_eq_iff)

lemma children_ok: "db_ok db \<Longrightarrow> sessions_fetch_ok (db, 100, children_query p)"
  by (simp add: sessions_fetch_ok_def children_query_def db_ok_def rows_ok_def)

lemma seek_children: "db_ok db \<Longrightarrow> seek_pages (children_page db p) hit None = Some (find hit (shown_children db p))"
  unfolding children_page_fetch shown_children_def by (intro sessions.seek_all children_ok)

lemma children_match: "row_matches db (children_query p) r \<longleftrightarrow> sr_kind r = ''sub_agent'' \<and> sr_parent r = Some p \<and> \<not> sr_archived r"
  by (auto simp: row_matches_def children_query_def opt_eq_def search_matches_def project_matches_def)

lemma set_shown_children: "set (shown_children db p) = {(r, sd_labels db (sr_id r)) |r. shown_child db p r}"
proof -
  have "set (shown_children db p) = with_labels db ` {x \<in> set (enumerate 0 (sd_rows db)). row_matches db (children_query p) (snd x)}"
    by (auto simp: shown_children_def sessions_listing_def ordered_rows_def)
  also have "\<dots> = (\<lambda>r. (r, sd_labels db (sr_id r))) ` {r \<in> snd ` set (enumerate 0 (sd_rows db)). row_matches db (children_query p) r}"
    by (auto simp: with_labels_def image_iff)
  also have "snd ` set (enumerate 0 (sd_rows db)) = set (sd_rows db)" by (metis list.set_map map_snd_enumerate)
  finally show ?thesis by (auto simp: children_match shown_child_def)
qed

lemma shown_unique:
  assumes "db_ok db" and "r \<in> set (sd_rows db)" and "q \<in> set (sd_rows db)" and "sr_parent r = Some p" and "sr_title r = Some t"
    and "sr_parent q = Some p" and "sr_title q = Some t"
  shows "q = r"
proof -
  have rows: "rows_ok (sd_rows db)" using assms(1) by (simp add: db_ok_def)
  have "same_child r q" using assms(4-7) by (simp add: same_child_def)
  then have "sr_id r = sr_id q" using rows assms(2,3) by (simp add: rows_ok_def)
  then show ?thesis using rows_unique [of "sd_rows db" q r] rows assms(2,3) by (simp add: rows_ok_def)
qed

text \<open>The lookup by title ends; it finds the child with the title, unless the child is archived.\<close>

lemma find_by_title:
  assumes "db_ok db"
  shows "shown_child db p r \<Longrightarrow> sr_title r = Some t \<Longrightarrow> find_subagent_child_by_title db p t = Some (Some (r, sd_labels db (sr_id r)))"
    and "(\<And>r. shown_child db p r \<Longrightarrow> sr_title r \<noteq> Some t) \<Longrightarrow> find_subagent_child_by_title db p t = Some None"
proof -
  let ?hit = "\<lambda>(r, ls). sr_title r = Some t"
  have f: "find_subagent_child_by_title db p t = Some (find ?hit (shown_children db p))"
    unfolding find_subagent_child_by_title_def by (rule seek_children [OF assms])
  show "find_subagent_child_by_title db p t = Some None" if "\<And>r. shown_child db p r \<Longrightarrow> sr_title r \<noteq> Some t"
    using that by (auto simp: f find_None_iff set_shown_children)
  show "find_subagent_child_by_title db p t = Some (Some (r, sd_labels db (sr_id r)))" if r: "shown_child db p r" "sr_title r = Some t"
  proof -
    have "(r, sd_labels db (sr_id r)) \<in> set (shown_children db p)" using r(1) by (auto simp: set_shown_children)
    then have "find ?hit (shown_children db p) \<noteq> None" using r(2) by (auto simp: find_None_iff)
    then obtain s where s: "find ?hit (shown_children db p) = Some s" by blast
    then have "s \<in> set (shown_children db p)" "?hit s" using find_SomeD [OF s] by auto
    then obtain q where "s = (q, sd_labels db (sr_id q))" "shown_child db p q" "sr_title q = Some t" by (auto simp: set_shown_children)
    then show ?thesis using shown_unique [OF assms, of r q p t] r s f by (simp add: shown_child_def)
  qed
qed

section \<open>Creation of a child\<close>

lemma create_child:
  assumes "db_ok db" and "find_row db p = Some q" and "new_conv_id db new_id"
  shows "r \<in> set (sd_rows db) \<Longrightarrow> sr_parent r = Some p \<Longrightarrow> sr_title r = Some t \<Longrightarrow>
      \<exists>m. create_conversation db new_id now (child_args p parent t name) = Inl (NameAlreadyExistsError m)"
    and "(\<And>r. r \<in> set (sd_rows db) \<Longrightarrow> \<not> (sr_parent r = Some p \<and> sr_title r = Some t)) \<Longrightarrow>
      \<exists>row. create_conversation db new_id now (child_args p parent t name) = Inr (db\<lparr>sd_rows := sd_rows db @ [row]\<rparr>, (row, [])) \<and>
        sr_id row = new_id \<and> sr_kind row = ''sub_agent'' \<and> sr_parent row = Some p \<and> sr_title row = Some t \<and> \<not> sr_archived row"
proof -
  let ?row = "created_row new_id now (sr_root q) (child_args p parent t name)"
  have row: "sr_id ?row = new_id" "sr_kind ?row = ''sub_agent''" "sr_parent ?row = Some p" "sr_title ?row = Some t" "\<not> sr_archived ?row" "row_checks ?row"
    by (simp_all add: created_row_def child_args_def blank_row_def row_checks_def)
  have root: "inherited_root db new_id (ns_parent (child_args p parent t name)) = Inr (sr_root q)"
    using assms(2) by (simp add: inherited_root_def child_args_def)
  have new: "find_row db (sr_id ?row) = None" using assms(3) row(1) by (auto simp: find_row_None new_conv_id_def)
  have taken: "list_ex (same_child ?row) (sd_rows db) \<longleftrightarrow> (\<exists>r \<in> set (sd_rows db). sr_parent r = Some p \<and> sr_title r = Some t)"
    unfolding list_ex_iff same_child_def row(3,4) by (intro bex_cong) auto
  show "\<exists>m. create_conversation db new_id now (child_args p parent t name) = Inl (NameAlreadyExistsError m)"
    if "r \<in> set (sd_rows db)" "sr_parent r = Some p" "sr_title r = Some t"
  proof -
    have "add_row db ?row = Inl (IntegrityError ''ix_conversations_parent_title_unique'')"
      using taken that row(6) new by (auto simp: add_row_def)
    then show ?thesis by (simp add: create_conversation_def bind_store_def root name_conflict_def)
  qed
  show "\<exists>row. create_conversation db new_id now (child_args p parent t name) = Inr (db\<lparr>sd_rows := sd_rows db @ [row]\<rparr>, (row, [])) \<and>
        sr_id row = new_id \<and> sr_kind row = ''sub_agent'' \<and> sr_parent row = Some p \<and> sr_title row = Some t \<and> \<not> sr_archived row"
    if "\<And>r. r \<in> set (sd_rows db) \<Longrightarrow> \<not> (sr_parent r = Some p \<and> sr_title r = Some t)"
  proof (intro exI conjI)
    have "add_row db ?row = Inr (db\<lparr>sd_rows := sd_rows db @ [?row]\<rparr>)" using taken that row(6) new by (auto simp: add_row_def)
    then show "create_conversation db new_id now (child_args p parent t name) = Inr (db\<lparr>sd_rows := sd_rows db @ [?row]\<rparr>, (?row, []))"
      by (simp add: create_conversation_def bind_store_def root)
  qed (rule row)+
qed

section \<open>Minting\<close>

lemma mint_taken:
  assumes "db_ok db" and "find_row db p = Some q" and "new_conv_id db new_id" and "r \<in> set (sd_rows db)" and "sr_parent r = Some p" and "sr_title r = Some t"
  shows "\<exists>m. mint_child db p parent t name labels lookup new_id now =
    (case lookup db of
       None \<Rightarrow> None
     | Some None \<Rightarrow> Some (Inl (StoreExn (NameAlreadyExistsError m)))
     | Some (Some s) \<Rightarrow> Some (Inr (set_session_labels db (sr_id (fst s)) labels, sr_id (fst s), [(p, sr_id (fst s), sr_agent parent)])))"
  using create_child(1) [OF assms, of now parent name] by (auto simp: mint_child_def)

lemma mint_new:
  assumes "db_ok db" and "find_row db p = Some q" and "new_conv_id db new_id"
    and "\<And>r. r \<in> set (sd_rows db) \<Longrightarrow> \<not> (sr_parent r = Some p \<and> sr_title r = Some t)"
  shows "\<exists>row. mint_child db p parent t name labels lookup new_id now =
      Some (Inr (set_session_labels (db\<lparr>sd_rows := sd_rows db @ [row]\<rparr>) new_id labels, new_id, [(p, new_id, sr_agent parent)])) \<and>
    create_conversation db new_id now (child_args p parent t name) = Inr (db\<lparr>sd_rows := sd_rows db @ [row]\<rparr>, (row, [])) \<and>
    sr_id row = new_id \<and> sr_kind row = ''sub_agent'' \<and> sr_parent row = Some p \<and> sr_title row = Some t \<and> \<not> sr_archived row"
  using create_child(2) [OF assms, of now parent name] by (auto simp: mint_child_def)

lemma taken_child:
  assumes "db_ok db" and "find_row db p = Some q" and "new_conv_id db new_id" and "r \<in> set (sd_rows db)" and "sr_kind r = ''sub_agent''"
    and "sr_parent r = Some p" and "sr_title r = Some (agent_type @ '':'' @ subagent_id)"
  shows "\<exists>m. mint_claude_child db p parent subagent_id agent_type description tool_use_id new_id now =
    Some (if sr_archived r then Inl (StoreExn (NameAlreadyExistsError m))
      else Inr (set_session_labels db (sr_id r) (claude_child_labels subagent_id tool_use_id description), sr_id r, [(p, sr_id r, sr_agent parent)]))"
proof -
  let ?t = "agent_type @ '':'' @ subagent_id"
  have found: "find_subagent_child_by_title db p ?t = Some (if sr_archived r then None else Some (r, sd_labels db (sr_id r)))"
  proof (cases "sr_archived r")
    case True
    have "sr_title w \<noteq> Some ?t" if "shown_child db p w" for w
      using that shown_unique [OF assms(1,4), of w p ?t] assms(6,7) True by (auto simp: shown_child_def)
    then show ?thesis using find_by_title(2) [OF assms(1)] True by simp
  next
    case False
    then have "shown_child db p r" using assms(4-6) by (simp add: shown_child_def)
    then show ?thesis using find_by_title(1) [OF assms(1)] assms(7) False by simp
  qed
  then show ?thesis
    using mint_taken [OF assms(1-4,6,7), of parent agent_type "claude_child_labels subagent_id tool_use_id description"
        "\<lambda>d. find_subagent_child_by_title d p ?t" now]
    by (auto simp: mint_claude_child_def Let_def)
qed

text \<open>
  When the title of a native sub-agent is taken under its parent, as after a delivery that died before the labels were stamped or a race of two deliveries, the
  handler adopts the row: no row is created, the labels are stamped and the child is announced. If the row is archived the lookup does not see it, and
  every delivery of the event fails.
\<close>

theorem taken_title_adopted_or_refused:
  assumes "db_ok db" and "find_row db p = Some q" and "new_conv_id db new_id" and "r \<in> set (sd_rows db)" and "sr_kind r = ''sub_agent''"
    and "sr_parent r = Some p" and "sr_title r = Some (agent_type @ '':'' @ subagent_id)"
  shows "\<exists>m. mint_claude_child db p parent subagent_id agent_type description tool_use_id new_id now =
    Some (if sr_archived r then Inl (StoreExn (NameAlreadyExistsError m))
      else Inr (set_session_labels db (sr_id r) (claude_child_labels subagent_id tool_use_id description), sr_id r, [(p, sr_id r, sr_agent parent)]))"
  using taken_child [OF assms] .

section \<open>Repeated delivery\<close>

definition start_by_label :: "sess_db \<Rightarrow> string \<Rightarrow> sess_row \<Rightarrow> string \<Rightarrow> string \<Rightarrow> string \<Rightarrow> string \<Rightarrow> string \<Rightarrow> int \<Rightarrow> registered" where
  "start_by_label db p parent sid ty desc tool new_id now =
     (case find_claude_native_subagent_child db p sid of
        None \<Rightarrow> None
      | Some (Some s) \<Rightarrow> Some (Inr (db, sr_id (fst s), []))
      | Some None \<Rightarrow> mint_claude_child db p parent sid ty desc tool new_id now)"

lemma start_accepted:
  assumes "persist_external_subagent_start db p parent body new_id now = Some (Inr res)"
  shows "\<exists>sid ty desc tool. \<forall>db' id' now'.
    persist_external_subagent_start db' p parent body id' now' = start_by_label db' p parent sid ty desc tool id' now'"
proof -
  obtain i js where 1: "pget body ''subagent_id'' = PStr (i # js)"
    using assms by (auto simp: persist_external_subagent_start_def split: pyval.splits list.splits)
  obtain t ts where 2: "pget body ''agent_type'' = PStr (t # ts)"
    using assms by (auto simp: persist_external_subagent_start_def 1 split: pyval.splits list.splits)
  obtain d where 3: "pget body ''description'' = PStr d"
    using assms by (auto simp: persist_external_subagent_start_def 1 2 split: pyval.splits)
  obtain u us where 4: "pget body ''tool_use_id'' = PStr (u # us)"
    using assms by (auto simp: persist_external_subagent_start_def 1 2 3 split: pyval.splits list.splits)
  obtain a where 5: "sr_agent parent = Some a"
    using assms by (auto simp: persist_external_subagent_start_def 1 2 3 4 split: if_splits)
  show ?thesis
    by (intro exI [of _ "i # js"] exI [of _ "t # ts"] exI [of _ d] exI [of _ "u # us"] allI)
      (simp add: persist_external_subagent_start_def 1 2 3 4 5 start_by_label_def)
qed

lemma find_by_label:
  assumes "db_ok db"
  shows "\<exists>res. find_claude_native_subagent_child db p sid = Some res \<and>
    (case res of
       None \<Rightarrow> \<forall>r. shown_child db p r \<longrightarrow> dget (sd_labels db (sr_id r)) CLAUDE_NATIVE_SUBAGENT_ID_LABEL_KEY \<noteq> Some sid
     | Some s \<Rightarrow> shown_child db p (fst s) \<and> dget (sd_labels db (sr_id (fst s))) CLAUDE_NATIVE_SUBAGENT_ID_LABEL_KEY = Some sid)"
proof -
  let ?hit = "\<lambda>(r :: sess_row, ls). dget ls CLAUDE_NATIVE_SUBAGENT_ID_LABEL_KEY = Some sid"
  have "find_claude_native_subagent_child db p sid = Some (find ?hit (shown_children db p))"
    unfolding find_claude_native_subagent_child_def by (rule seek_children [OF assms])
  moreover have "case find ?hit (shown_children db p) of
       None \<Rightarrow> \<forall>r. shown_child db p r \<longrightarrow> dget (sd_labels db (sr_id r)) CLAUDE_NATIVE_SUBAGENT_ID_LABEL_KEY \<noteq> Some sid
     | Some s \<Rightarrow> shown_child db p (fst s) \<and> dget (sd_labels db (sr_id (fst s))) CLAUDE_NATIVE_SUBAGENT_ID_LABEL_KEY = Some sid"
  proof (cases "find ?hit (shown_children db p)")
    case None
    then have "\<forall>s \<in> set (shown_children db p). \<not> ?hit s" by (auto simp: find_None_iff)
    then show ?thesis unfolding None by (auto simp: set_shown_children)
  next
    case (Some s)
    then show ?thesis using find_SomeD [OF Some] by (auto simp: set_shown_children)
  qed
  ultimately show ?thesis by blast
qed

text \<open>The child is registered and no other child has its label: the next delivery returns it and creates nothing.\<close>

lemma start_again:
  assumes "db_ok db" and "find_row db p = Some q" and "new_conv_id db new_id" and "shown_child db p r" and "sr_title r = Some (ty @ '':'' @ sid)"
    and "\<And>w. shown_child db p w \<Longrightarrow> sr_id w \<noteq> sr_id r \<Longrightarrow> dget (sd_labels db (sr_id w)) CLAUDE_NATIVE_SUBAGENT_ID_LABEL_KEY \<noteq> Some sid"
  shows "\<exists>db' evs. start_by_label db p parent sid ty desc tool new_id now = Some (Inr (db', sr_id r, evs)) \<and> sd_rows db' = sd_rows db"
proof -
  obtain res where res: "find_claude_native_subagent_child db p sid = Some res"
    "case res of
       None \<Rightarrow> \<forall>r. shown_child db p r \<longrightarrow> dget (sd_labels db (sr_id r)) CLAUDE_NATIVE_SUBAGENT_ID_LABEL_KEY \<noteq> Some sid
     | Some s \<Rightarrow> shown_child db p (fst s) \<and> dget (sd_labels db (sr_id (fst s))) CLAUDE_NATIVE_SUBAGENT_ID_LABEL_KEY = Some sid"
    using find_by_label [OF assms(1), of p sid] by blast
  show ?thesis
  proof (cases res)
    case (Some s)
    then have "sr_id (fst s) = sr_id r" using res(2) assms(6) [of "fst s"] by auto
    then show ?thesis using Some res(1) by (simp add: start_by_label_def)
  next
    case None
    obtain m where m: "mint_claude_child db p parent sid ty desc tool new_id now = Some (if sr_archived r then Inl (StoreExn (NameAlreadyExistsError m))
      else Inr (set_session_labels db (sr_id r) (claude_child_labels sid tool desc), sr_id r, [(p, sr_id r, sr_agent parent)]))"
      using taken_child [OF assms(1-3), of r ty sid parent desc tool now] assms(4,5) by (auto simp: shown_child_def)
    then show ?thesis using None res(1) assms(4) by (simp add: start_by_label_def shown_child_def set_session_labels_def)
  qed
qed

lemma set_session_labels_simps [simp]:
  "sd_rows (set_session_labels db c ls) = sd_rows db" "sd_items (set_session_labels db c ls) = sd_items db" "db_ok (set_session_labels db c ls) = db_ok db"
  "find_row (set_session_labels db c ls) = find_row db" "shown_child (set_session_labels db c ls) = shown_child db"
  by (simp_all add: set_session_labels_def find_row_def shown_child_def fun_eq_iff)

lemma set_session_labels_other: "d \<noteq> c \<Longrightarrow> sd_labels (set_session_labels db c ls) d = sd_labels db d"
  by (simp add: set_session_labels_def upsert_labels_def)

lemma shown_child_add: "shown_child (db\<lparr>sd_rows := sd_rows db @ [row]\<rparr>) p w \<longleftrightarrow>
    shown_child db p w \<or> w = row \<and> sr_kind row = ''sub_agent'' \<and> sr_parent row = Some p \<and> \<not> sr_archived row"
  by (auto simp: shown_child_def)

text \<open>What a successful delivery leaves behind: the child is listed under its title, and no other child carries its label.\<close>

lemma mint_leaves:
  assumes "db_ok db" and "find_row db p = Some q" and "new_conv_id db new_id"
    and none: "\<And>r. shown_child db p r \<Longrightarrow> dget (sd_labels db (sr_id r)) CLAUDE_NATIVE_SUBAGENT_ID_LABEL_KEY \<noteq> Some sid"
    and mint: "mint_claude_child db p parent sid ty desc tool new_id now = Some (Inr (db1, c, evs))"
  shows "db_ok db1 \<and> find_row db1 p = Some q \<and> (\<exists>r. shown_child db1 p r \<and> sr_id r = c \<and> sr_title r = Some (ty @ '':'' @ sid)) \<and>
    (\<forall>w. shown_child db1 p w \<longrightarrow> sr_id w \<noteq> c \<longrightarrow> dget (sd_labels db1 (sr_id w)) CLAUDE_NATIVE_SUBAGENT_ID_LABEL_KEY \<noteq> Some sid)"
proof -
  let ?t = "ty @ '':'' @ sid" and ?ls = "claude_child_labels sid tool desc"
  note defs = mint_claude_child_def Let_def
  show ?thesis
  proof (cases "\<exists>r \<in> set (sd_rows db). sr_parent r = Some p \<and> sr_title r = Some ?t")
    case True
    then obtain r0 where "r0 \<in> set (sd_rows db)" "sr_parent r0 = Some p" "sr_title r0 = Some ?t" by blast
    then obtain m where m: "mint_claude_child db p parent sid ty desc tool new_id now =
        (case find_subagent_child_by_title db p ?t of
           None \<Rightarrow> None
         | Some None \<Rightarrow> Some (Inl (StoreExn (NameAlreadyExistsError m)))
         | Some (Some s) \<Rightarrow> Some (Inr (set_session_labels db (sr_id (fst s)) ?ls, sr_id (fst s), [(p, sr_id (fst s), sr_agent parent)])))"
      using mint_taken [OF assms(1-3), of r0 ?t] unfolding defs by blast
    have "\<exists>r. shown_child db p r \<and> sr_title r = Some ?t"
      using m mint find_by_title(2) [OF assms(1), of p ?t] by (cases "\<exists>r. shown_child db p r \<and> sr_title r = Some ?t") auto
    then obtain r where r: "shown_child db p r" "sr_title r = Some ?t" by blast
    then have "db1 = set_session_labels db (sr_id r) ?ls" "c = sr_id r" using m mint find_by_title(1) [OF assms(1) r] by auto
    then show ?thesis using assms(1,2) r none by (auto simp: set_session_labels_other)
  next
    case False
    then obtain row where row: "mint_claude_child db p parent sid ty desc tool new_id now =
        Some (Inr (set_session_labels (db\<lparr>sd_rows := sd_rows db @ [row]\<rparr>) new_id ?ls, new_id, [(p, new_id, sr_agent parent)]))"
      "create_conversation db new_id now (child_args p parent ?t ty) = Inr (db\<lparr>sd_rows := sd_rows db @ [row]\<rparr>, (row, []))"
      "sr_id row = new_id" "sr_kind row = ''sub_agent''" "sr_parent row = Some p" "sr_title row = Some ?t" "\<not> sr_archived row"
      using mint_new [OF assms(1-3), of ?t] unfolding defs by blast
    have d: "db1 = set_session_labels (db\<lparr>sd_rows := sd_rows db @ [row]\<rparr>) new_id ?ls" "c = new_id" using row(1) mint by auto
    have "db_ok (db\<lparr>sd_rows := sd_rows db @ [row]\<rparr>)" using create_conversation_ok(1) [OF assms(1,3) row(2)] .
    moreover have "find_row (db\<lparr>sd_rows := sd_rows db @ [row]\<rparr>) p = Some q" using assms(2) by (simp add: find_row_def find_append)
    ultimately show ?thesis using row(3-7) none unfolding d by (auto simp: shown_child_add set_session_labels_other)
  qed
qed

text \<open>
  C21: Registration of a native sub-agent is idempotent: when a delivery of the start event succeeded, the next delivery of the same event returns
  the same child and creates no row, also when the identifier is too long to be stored as a label.
\<close>

theorem subagent_start_idempotent:
  assumes "db_ok db" and "find_row db p \<noteq> None" and "new_conv_id db id1"
    and "persist_external_subagent_start db p parent body id1 now1 = Some (Inr (db1, c, evs))" and "new_conv_id db1 id2"
  shows "\<exists>db2 evs2. persist_external_subagent_start db1 p parent body id2 now2 = Some (Inr (db2, c, evs2)) \<and> sd_rows db2 = sd_rows db1"
proof -
  obtain q where q: "find_row db p = Some q" using assms(2) by auto
  obtain sid ty desc tool where start:
    "\<And>db' id' now'. persist_external_subagent_start db' p parent body id' now' = start_by_label db' p parent sid ty desc tool id' now'"
    using start_accepted [OF assms(4)] by blast
  obtain res where res: "find_claude_native_subagent_child db p sid = Some res"
    "case res of
       None \<Rightarrow> \<forall>r. shown_child db p r \<longrightarrow> dget (sd_labels db (sr_id r)) CLAUDE_NATIVE_SUBAGENT_ID_LABEL_KEY \<noteq> Some sid
     | Some s \<Rightarrow> shown_child db p (fst s) \<and> dget (sd_labels db (sr_id (fst s))) CLAUDE_NATIVE_SUBAGENT_ID_LABEL_KEY = Some sid"
    using find_by_label [OF assms(1), of p sid] by blast
  show ?thesis
  proof (cases res)
    case (Some s)
    then have "db1 = db" "c = sr_id (fst s)" using assms(4) res(1) by (auto simp: start start_by_label_def)
    then show ?thesis using Some res(1) by (simp add: start start_by_label_def)
  next
    case None
    then have "mint_claude_child db p parent sid ty desc tool id1 now1 = Some (Inr (db1, c, evs))"
      using assms(4) res(1) by (simp add: start start_by_label_def)
    then have m: "db_ok db1" "find_row db1 p = Some q" "\<exists>r. shown_child db1 p r \<and> sr_id r = c \<and> sr_title r = Some (ty @ '':'' @ sid)"
      "\<forall>w. shown_child db1 p w \<longrightarrow> sr_id w \<noteq> c \<longrightarrow> dget (sd_labels db1 (sr_id w)) CLAUDE_NATIVE_SUBAGENT_ID_LABEL_KEY \<noteq> Some sid"
      using mint_leaves [OF assms(1) q assms(3), of sid] None res(2) by simp_all
    then obtain r where r: "shown_child db1 p r" "sr_id r = c" "sr_title r = Some (ty @ '':'' @ sid)" by blast
    then show ?thesis using start_again [OF m(1,2) assms(5) r(1,3)] m(4) by (simp add: start)
  qed
qed

section \<open>A sample registration\<close>

definition start_body :: pydict where
  "start_body = [(''subagent_id'', PStr ''a5c7''), (''agent_type'', PStr ''Explore''), (''description'', PStr ''look around''), (''tool_use_id'', PStr ''toolu_1'')]"

definition claude_parent :: sess_row where
  "claude_parent = (created_row ''c1'' 1 ''c1'' plain_session)\<lparr>sr_agent := Some ''ag1''\<rparr>"

lemma solo_rows: "sd_rows solo_db = [created_row ''c1'' 1 ''c1'' plain_session]"
  by (simp add: solo_db_def)

lemma solo_childless: "\<not> shown_child solo_db p r" "r \<in> set (sd_rows solo_db) \<Longrightarrow> sr_parent r = None"
  by (auto simp: shown_child_def solo_rows created_row_def plain_session_def blank_row_def)

lemma solo_parent: "find_row solo_db ''c1'' = Some (created_row ''c1'' 1 ''c1'' plain_session)"
  by (simp add: find_row_def solo_rows created_row_def blank_row_def)

lemma solo_new: "c \<noteq> [] \<Longrightarrow> c \<noteq> ''c1'' \<Longrightarrow> new_conv_id solo_db c"
  by (simp add: new_conv_id_def solo_db_def empty_db_def created_row_def blank_row_def plain_session_def)

lemma start_sample:
  "persist_external_subagent_start db ''c1'' claude_parent start_body i now =
     start_by_label db ''c1'' claude_parent ''a5c7'' ''Explore'' ''look around'' ''toolu_1'' i now"
  by (simp add: persist_external_subagent_start_def start_body_def claude_parent_def pget_def start_by_label_def)

lemma solo_start:
  "\<exists>row. persist_external_subagent_start solo_db ''c1'' claude_parent start_body ''c2'' 5 =
      Some (Inr (set_session_labels (solo_db\<lparr>sd_rows := sd_rows solo_db @ [row]\<rparr>) ''c2'' (claude_child_labels ''a5c7'' ''toolu_1'' ''look around''),
        ''c2'', [(''c1'', ''c2'', Some ''ag1'')])) \<and>
    create_conversation solo_db ''c2'' 5 (child_args ''c1'' claude_parent ''Explore:a5c7'' ''Explore'') =
      Inr (solo_db\<lparr>sd_rows := sd_rows solo_db @ [row]\<rparr>, (row, [])) \<and>
    sr_id row = ''c2'' \<and> sr_kind row = ''sub_agent'' \<and> sr_parent row = Some ''c1'' \<and> sr_title row = Some ''Explore:a5c7''"
proof -
  have "set (shown_children solo_db ''c1'') = {}" by (simp add: set_shown_children solo_childless)
  then have "find_claude_native_subagent_child solo_db ''c1'' ''a5c7'' = Some None"
    by (simp add: find_claude_native_subagent_child_def seek_children solo_ok)
  then have "persist_external_subagent_start solo_db ''c1'' claude_parent start_body ''c2'' 5 =
      mint_claude_child solo_db ''c1'' claude_parent ''a5c7'' ''Explore'' ''look around'' ''toolu_1'' ''c2'' 5"
    by (simp add: start_sample start_by_label_def)
  then have start: "persist_external_subagent_start solo_db ''c1'' claude_parent start_body ''c2'' 5 =
      mint_child solo_db ''c1'' claude_parent ''Explore:a5c7'' ''Explore'' (claude_child_labels ''a5c7'' ''toolu_1'' ''look around'')
        (\<lambda>d. find_subagent_child_by_title d ''c1'' ''Explore:a5c7'') ''c2'' 5"
    by (simp add: mint_claude_child_def Let_def)
  have free: "\<not> (sr_parent r = Some ''c1'' \<and> sr_title r = Some ''Explore:a5c7'')" if "r \<in> set (sd_rows solo_db)" for r
    using solo_childless(2) [OF that] by simp
  have new: "new_conv_id solo_db ''c2''" by (rule solo_new) simp_all
  have agent: "sr_agent claude_parent = Some ''ag1''" by (simp add: claude_parent_def)
  obtain row where "mint_child solo_db ''c1'' claude_parent ''Explore:a5c7'' ''Explore'' (claude_child_labels ''a5c7'' ''toolu_1'' ''look around'')
        (\<lambda>d. find_subagent_child_by_title d ''c1'' ''Explore:a5c7'') ''c2'' 5 =
      Some (Inr (set_session_labels (solo_db\<lparr>sd_rows := sd_rows solo_db @ [row]\<rparr>) ''c2'' (claude_child_labels ''a5c7'' ''toolu_1'' ''look around''),
        ''c2'', [(''c1'', ''c2'', sr_agent claude_parent)]))"
    "create_conversation solo_db ''c2'' 5 (child_args ''c1'' claude_parent ''Explore:a5c7'' ''Explore'') =
      Inr (solo_db\<lparr>sd_rows := sd_rows solo_db @ [row]\<rparr>, (row, []))"
    "sr_id row = ''c2''" "sr_kind row = ''sub_agent''" "sr_parent row = Some ''c1''" "sr_title row = Some ''Explore:a5c7''"
    using mint_new [OF solo_ok solo_parent new free, of claude_parent "''Explore''" "claude_child_labels ''a5c7'' ''toolu_1'' ''look around''"
      "\<lambda>d. find_subagent_child_by_title d ''c1'' ''Explore:a5c7''" 5] by blast
  then show ?thesis unfolding start agent by (intro exI [of _ row] conjI)
qed

theorem subagent_start_idempotent_witness:
  "\<exists>db1 evs db2 evs2. persist_external_subagent_start solo_db ''c1'' claude_parent start_body ''c2'' 5 = Some (Inr (db1, ''c2'', evs)) \<and>
    persist_external_subagent_start db1 ''c1'' claude_parent start_body ''c3'' 6 = Some (Inr (db2, ''c2'', evs2)) \<and> sd_rows db2 = sd_rows db1"
proof -
  obtain row where row: "persist_external_subagent_start solo_db ''c1'' claude_parent start_body ''c2'' 5 =
      Some (Inr (set_session_labels (solo_db\<lparr>sd_rows := sd_rows solo_db @ [row]\<rparr>) ''c2'' (claude_child_labels ''a5c7'' ''toolu_1'' ''look around''),
        ''c2'', [(''c1'', ''c2'', Some ''ag1'')]))" "sr_id row = ''c2''" "sr_parent row = Some ''c1''"
    using solo_start by blast
  let ?db1 = "set_session_labels (solo_db\<lparr>sd_rows := sd_rows solo_db @ [row]\<rparr>) ''c2'' (claude_child_labels ''a5c7'' ''toolu_1'' ''look around'')"
  have parent: "find_row solo_db ''c1'' \<noteq> None" by (simp add: solo_parent)
  have new: "new_conv_id solo_db ''c2''" by (rule solo_new) simp_all
  have "new_conv_id ?db1 ''c3''"
    using solo_new [of "''c3''"] row(2,3) by (simp add: new_conv_id_def set_session_labels_def upsert_labels_def solo_db_def empty_db_def)
  from subagent_start_idempotent [OF solo_ok parent new row(1) this] show ?thesis using row(1) by blast
qed

theorem taken_title_adopted_or_refused_witness:
  "\<exists>db1 row m. create_conversation solo_db ''c2'' 5 (child_args ''c1'' claude_parent ''Explore:a5c7'' ''Explore'') = Inr (db1, (row, [])) \<and>
    mint_claude_child db1 ''c1'' claude_parent ''a5c7'' ''Explore'' ''look around'' ''toolu_1'' ''c3'' 6 =
      Some (if sr_archived row then Inl (StoreExn (NameAlreadyExistsError m))
        else Inr (set_session_labels db1 ''c2'' (claude_child_labels ''a5c7'' ''toolu_1'' ''look around''), ''c2'', [(''c1'', ''c2'', Some ''ag1'')]))"
proof -
  obtain row where c: "create_conversation solo_db ''c2'' 5 (child_args ''c1'' claude_parent ''Explore:a5c7'' ''Explore'') =
      Inr (solo_db\<lparr>sd_rows := sd_rows solo_db @ [row]\<rparr>, (row, []))" and
    row: "sr_id row = ''c2''" "sr_kind row = ''sub_agent''" "sr_parent row = Some ''c1''" "sr_title row = Some (''Explore'' @ '':'' @ ''a5c7'')"
    using solo_start by auto
  let ?db1 = "solo_db\<lparr>sd_rows := sd_rows solo_db @ [row]\<rparr>"
  have ok: "db_ok ?db1" by (rule create_conversation_ok(1) [OF solo_ok _ c]) (simp add: solo_new)
  have parent: "find_row ?db1 ''c1'' = Some (created_row ''c1'' 1 ''c1'' plain_session)"
    using solo_parent by (simp add: find_row_def find_append)
  have new: "new_conv_id ?db1 ''c3''" using solo_new [of "''c3''"] row(1,3) by (simp add: new_conv_id_def)
  have "row \<in> set (sd_rows ?db1)" by simp
  from taken_title_adopted_or_refused [OF ok parent new this row(2-4), of claude_parent "''look around''" "''toolu_1''" 6]
  show ?thesis using c row(1) by (auto simp: claude_parent_def)
qed

end
