(* ===== verification/SessionTree.thy ===== *)
theory SessionTree
  imports Subagents Pending
begin

text \<open>
  The tree of sessions in the session routes (\<^verbatim>\<open>server/routes/sessions.py\<close>): the walks up to the ancestors and down to the
  descendants of a session, the mirroring of approval prompts into ancestor streams, and the prompts a
  session snapshot shows. Publishing on a stream is its effect on the index of pending elicitations. A loop that does not end
  is \<open>None\<close>.
\<close>

section \<open>Walks\<close>

partial_function (option) ancestor_walk :: "sess_db \<Rightarrow> string set \<Rightarrow> sess_row option \<Rightarrow> string list option" where
  "ancestor_walk db seen current =
     (case current of
        None \<Rightarrow> Some []
      | Some r \<Rightarrow>
          (case sr_parent r of
             None \<Rightarrow> Some []
           | Some p \<Rightarrow>
               if p \<in> seen then Some []
               else Option.bind (ancestor_walk db (insert p seen) (find_row db p)) (\<lambda>rest. Some (p # rest))))"

declare ancestor_walk.simps [code]

definition ancestor_session_ids :: "sess_db \<Rightarrow> string \<Rightarrow> string list option" where
  "ancestor_session_ids db session_id = ancestor_walk db {session_id} (find_row db session_id)"

text \<open>The loop state: the identifiers seen, the descendants found, the queue of parents to expand.\<close>

type_synonym walk_state = "string set \<times> session list \<times> string list"

definition visit_child :: "session \<Rightarrow> walk_state \<Rightarrow> walk_state" where
  "visit_child child st =
     (case st of (seen, found, queue) \<Rightarrow>
        if sr_id (fst child) \<in> seen then (seen, found, queue)
        else (insert (sr_id (fst child)) seen, found @ [child], queue @ [sr_id (fst child)]))"

partial_function (option) descendant_walk :: "sess_db \<Rightarrow> walk_state \<Rightarrow> session list option" where
  "descendant_walk db st =
     (case st of (seen, found, queue) \<Rightarrow>
        (case queue of
           [] \<Rightarrow> Some found
         | parent_id # rest \<Rightarrow>
             Option.bind (fold_pages (children_page db parent_id) visit_child None (seen, found, rest)) (descendant_walk db)))"

declare descendant_walk.simps [code]

definition descendant_sessions :: "sess_db \<Rightarrow> string \<Rightarrow> session list option" where
  "descendant_sessions db session_id = descendant_walk db ({session_id}, [], [session_id])"

section \<open>Approval prompts across the tree\<close>

definition targeted_elicitation_event :: "pydict \<Rightarrow> string \<Rightarrow> pydict" where
  "targeted_elicitation_event event target =
     (case pget event ''params'' of
        PDict params \<Rightarrow> dset event ''params'' (PDict (dset params ''target_session_id'' (PStr target)))
      | _ \<Rightarrow> dset event ''params'' (PDict [(''target_session_id'', PStr target)]))"

definition publish_elicitation_request_to_ancestors :: "sess_db \<Rightarrow> string \<Rightarrow> pydict \<Rightarrow> pending_state \<Rightarrow> pending_state option" where
  "publish_elicitation_request_to_ancestors db session_id event st =
     (let mirrored = targeted_elicitation_event event session_id
      in map_option (\<lambda>as. fold (\<lambda>a. record_publish a mirrored) as st) (ancestor_session_ids db session_id))"

definition publish_elicitation_resolved :: "string \<Rightarrow> string \<Rightarrow> pending_state \<Rightarrow> pending_state" where
  "publish_elicitation_resolved session_id elicitation =
     record_publish session_id [(''type'', PStr ''response.elicitation_resolved''), (''elicitation_id'', PStr elicitation)]"

definition publish_elicitation_resolved_to_ancestors :: "sess_db \<Rightarrow> string \<Rightarrow> string \<Rightarrow> pending_state \<Rightarrow> pending_state option" where
  "publish_elicitation_resolved_to_ancestors db session_id elicitation st =
     map_option (\<lambda>as. fold (\<lambda>a. publish_elicitation_resolved a elicitation) as st) (ancestor_session_ids db session_id)"

definition own_ids :: "pydict list \<Rightarrow> string set" where
  "own_ids events = set (List.map_filter (\<lambda>e. case pget e ''elicitation_id'' of PStr k \<Rightarrow> Some k | _ \<Rightarrow> None) events)"

definition add_prompt :: "string \<Rightarrow> pydict \<Rightarrow> string set \<times> pydict list \<Rightarrow> string set \<times> pydict list" where
  "add_prompt child event st =
     (case st of (seen, events) \<Rightarrow>
        (case pget event ''elicitation_id'' of
           PStr k \<Rightarrow>
             if k \<in> seen then (seen, events)
             else (insert k seen, events @ [targeted_elicitation_event event child])
         | _ \<Rightarrow> (seen, events @ [targeted_elicitation_event event child])))"

definition pending_elicitation_snapshot_for_session :: "sess_db \<Rightarrow> pydict index \<Rightarrow> string \<Rightarrow> pydict list option" where
  "pending_elicitation_snapshot_for_session db ix session_id =
     (let events = snapshot_elicitations ix session_id
      in if set (pending_session_ids ix) - {session_id} = {} then Some events
         else map_option
           (\<lambda>children. snd (fold (\<lambda>child. fold (add_prompt (sr_id (fst child))) (snapshot_elicitations ix (sr_id (fst child)))) children
              (own_ids events, events)))
           (descendant_sessions db session_id))"

end
