(* ===== verification/SessionTreeProperties.thy ===== *)
theory SessionTreeProperties
  imports SubagentProperties SessionTree
begin

text \<open>
  Properties of the tree of sessions: both walks end and are exact, a snapshot shows every prompt of the visible tree once, and a prompt that
  is mirrored into the ancestors is shown there until it is resolved.
\<close>

section \<open>Ancestors\<close>

lemma family_cases:
  assumes "rows_ok rows" and "r \<in> set rows" and "sr_id r \<in> family rows x"
  shows "x = sr_id r \<or> (\<exists>p. sr_parent r = Some p \<and> p \<in> family rows x)"
  using assms(3)
proof cases
  case (child p q)
  then have "q = r" using rows_unique [of rows q r] assms(1,2) by (simp add: rows_ok_def)
  then show ?thesis using child by blast
qed simp

text \<open>What lies below a row stands behind it in the table.\<close>

lemma family_behind:
  assumes "rows_ok rows" and "i < length rows" and "y \<in> family rows (sr_id (rows ! i))"
  shows "\<exists>j. i \<le> j \<and> j < length rows \<and> sr_id (rows ! j) = y"
  using assms(3)
proof induction
  case (child p r)
  then obtain k where k: "i \<le> k" "k < length rows" "sr_id (rows ! k) = p" by blast
  obtain j where j: "j < length rows" "rows ! j = r" using child.hyps(2) by (auto simp: in_set_conv_nth)
  then obtain m where m: "m < j" "sr_id (rows ! m) = p"
    using tree_parent_before [of rows j p] assms(1) child.hyps(3) by (auto simp: rows_ok_def)
  have "m = k" using nth_eq_iff_index_eq [of "map sr_id rows" m k] assms(1) m k j(1) by (simp add: rows_ok_def)
  then show ?case using k m j by (intro exI [of _ j]) auto
qed (use assms(2) in auto)

definition ancestors_of :: "sess_row list \<Rightarrow> string \<Rightarrow> string set" where
  "ancestors_of rows c = {x. c \<in> family rows x \<and> x \<noteq> c}"

lemma ancestors_of_child:
  assumes "rows_ok rows" and "i < j" and "j < length rows" and "sr_parent (rows ! j) = Some (sr_id (rows ! i))"
  shows "ancestors_of rows (sr_id (rows ! j)) = insert (sr_id (rows ! i)) (ancestors_of rows (sr_id (rows ! i)))"
proof -
  let ?c = "sr_id (rows ! j)" and ?p = "sr_id (rows ! i)"
  have ids: "sr_id (rows ! k) = sr_id (rows ! m) \<longleftrightarrow> k = m" if "k < length rows" "m < length rows" for k m
    using nth_eq_iff_index_eq [of "map sr_id rows" k m] assms(1) that by (simp add: rows_ok_def)
  have up: "?c \<in> family rows x" if "?p \<in> family rows x" for x
    using that assms(3,4) by (intro family.child) simp_all
  have "?p \<in> family rows x" if "?c \<in> family rows x" "x \<noteq> ?c" for x
    using family_cases [OF assms(1) nth_mem [OF assms(3)] that(1)] that(2) assms(4) by auto
  moreover have "?p \<notin> family rows ?c"
  proof
    assume "?p \<in> family rows ?c"
    then obtain k where "j \<le> k" "k < length rows" "sr_id (rows ! k) = ?p" using family_behind [OF assms(1,3)] by blast
    then show False using ids [of k i] assms(2,3) by simp
  qed
  moreover have "?p \<noteq> ?c" using ids [of i j] assms(2,3) by simp
  ultimately show ?thesis using up by (auto simp: ancestors_of_def intro: family.self)
qed

lemma ancestors_of_top: "rows_ok rows \<Longrightarrow> r \<in> set rows \<Longrightarrow> sr_parent r = None \<Longrightarrow> ancestors_of rows (sr_id r) = {}"
  using family_cases by (fastforce simp: ancestors_of_def)

lemma find_row_nth:
  assumes "rows_ok (sd_rows db)" and "i < length (sd_rows db)"
  shows "find_row db (sr_id (sd_rows db ! i)) = Some (sd_rows db ! i)"
proof -
  obtain r where r: "find_row db (sr_id (sd_rows db ! i)) = Some r"
    using find_row_None [of db "sr_id (sd_rows db ! i)"] assms(2) by (cases "find_row db (sr_id (sd_rows db ! i))") auto
  then show ?thesis using find_row_Some [OF r] rows_unique [of "sd_rows db" r "sd_rows db ! i"] assms by (simp add: rows_ok_def)
qed

lemma ancestor_walk_exact:
  assumes "rows_ok (sd_rows db)" and "j < length (sd_rows db)"
    and "\<And>x. x \<in> seen \<Longrightarrow> \<exists>k. j \<le> k \<and> k < length (sd_rows db) \<and> sr_id (sd_rows db ! k) = x"
  shows "\<exists>as. ancestor_walk db seen (Some (sd_rows db ! j)) = Some as \<and> distinct as \<and> set as = ancestors_of (sd_rows db) (sr_id (sd_rows db ! j)) \<and>
    last (sr_id (sd_rows db ! j) # as) = sr_root (sd_rows db ! j)"
  using assms(2,3)
proof (induction j arbitrary: seen rule: less_induct)
  case (less j)
  let ?rows = "sd_rows db"
  show ?case
  proof (cases "sr_parent (?rows ! j)")
    case None
    have "tree_ok [] (take j ?rows @ ?rows ! j # drop (Suc j) ?rows)"
      using assms(1) less.prems(1) by (simp add: id_take_nth_drop [symmetric] rows_ok_def)
    then have "sr_root (?rows ! j) = sr_id (?rows ! j)" using None by (simp add: tree_ok_append)
    then show ?thesis using None ancestors_of_top [OF assms(1) nth_mem [OF less.prems(1)] None] by (subst ancestor_walk.simps) simp
  next
    case (Some p)
    obtain i where i: "i < j" "sr_id (?rows ! i) = p" "sr_root (?rows ! i) = sr_root (?rows ! j)"
      using tree_parent_before [of ?rows j p] assms(1) less.prems(1) Some by (auto simp: rows_ok_def)
    have "p \<notin> seen"
    proof
      assume "p \<in> seen"
      then obtain k where "j \<le> k" "k < length ?rows" "sr_id (?rows ! k) = sr_id (?rows ! i)" using less.prems(2) i(2) by blast
      then show False using nth_eq_iff_index_eq [of "map sr_id ?rows" k i] assms(1) i(1) less.prems(1) by (simp add: rows_ok_def)
    qed
    moreover have behind: "\<exists>k. i \<le> k \<and> k < length ?rows \<and> sr_id (?rows ! k) = x" if "x \<in> insert p seen" for x
    proof (cases "x = p")
      case True
      then show ?thesis using i less.prems(1) by (intro exI [of _ i]) simp
    next
      case False
      then have "x \<in> seen" using that by simp
      then obtain k where "j \<le> k" "k < length ?rows" "sr_id (?rows ! k) = x" using less.prems(2) by meson
      then show ?thesis using i(1) by (intro exI [of _ k]) simp
    qed
    have "i < length ?rows" using i(1) less.prems(1) by simp
    from less.IH [OF i(1) this, of "insert p seen"] behind obtain as where as: "ancestor_walk db (insert p seen) (Some (?rows ! i)) = Some as" "distinct as"
        "set as = ancestors_of ?rows p" "last (p # as) = sr_root (?rows ! j)"
      unfolding i(2,3) by meson
    moreover have "find_row db p = Some (?rows ! i)" using find_row_nth [OF assms(1), of i] i less.prems(1) by simp
    moreover have "ancestors_of ?rows (sr_id (?rows ! j)) = insert p (ancestors_of ?rows p)"
      using ancestors_of_child [OF assms(1) i(1) less.prems(1)] Some i(2) by simp
    moreover have "p \<notin> ancestors_of ?rows p" by (simp add: ancestors_of_def)
    ultimately show ?thesis using Some by (subst ancestor_walk.simps) simp
  qed
qed

text \<open>
  The walk to the ancestors of a session ends and lists each ancestor once: exactly the sessions in whose subtree the session lies, ending with
  the root of its tree.
\<close>

lemma ancestors_exact:
  assumes "db_ok db" and "find_row db sid = Some row"
  shows "\<exists>as. ancestor_session_ids db sid = Some as \<and> distinct as \<and> set as = ancestors_of (sd_rows db) sid \<and> last (sid # as) = sr_root row"
proof -
  have rows: "rows_ok (sd_rows db)" using assms(1) by (simp add: db_ok_def)
  note r = find_row_Some [OF assms(2)]
  then obtain j where j: "j < length (sd_rows db)" "sd_rows db ! j = row" by (auto simp: in_set_conv_nth)
  have "\<exists>k. j \<le> k \<and> k < length (sd_rows db) \<and> sr_id (sd_rows db ! k) = x" if "x \<in> {sid}" for x
    using that j r by (intro exI [of _ j]) simp
  then have "\<exists>as. ancestor_walk db {sid} (Some (sd_rows db ! j)) = Some as \<and> distinct as \<and> set as = ancestors_of (sd_rows db) (sr_id (sd_rows db ! j)) \<and>
      last (sr_id (sd_rows db ! j) # as) = sr_root (sd_rows db ! j)"
    by (rule ancestor_walk_exact [OF rows j(1)])
  then show ?thesis using r unfolding j(2) ancestor_session_ids_def assms(2) by simp
qed

section \<open>Descendants\<close>

text \<open>A session and the sub-agents below it that are reached without passing an archived one.\<close>

inductive_set shown_family :: "sess_db \<Rightarrow> string \<Rightarrow> string set" for db sid where
  self: "sid \<in> shown_family db sid"
| child: "p \<in> shown_family db sid \<Longrightarrow> shown_child db p r \<Longrightarrow> sr_id r \<in> shown_family db sid"

abbreviation session_id :: "session \<Rightarrow> string" where
  "session_id s \<equiv> sr_id (fst s)"

lemma visit_children:
  assumes "distinct (map session_id cs)"
  shows "fold visit_child cs (seen, found, queue) =
    (seen \<union> set (map session_id cs), found @ filter (\<lambda>s. session_id s \<notin> seen) cs, queue @ map session_id (filter (\<lambda>s. session_id s \<notin> seen) cs))"
  using assms
proof (induction cs arbitrary: seen found queue)
  case (Cons c cs)
  have rest: "filter (\<lambda>s. session_id s \<notin> insert (session_id c) seen) cs = filter (\<lambda>s. session_id s \<notin> seen) cs"
  proof (rule filter_cong)
    fix s assume "s \<in> set cs"
    then have "session_id s \<in> session_id ` set cs" by (rule imageI)
    then have "session_id s \<noteq> session_id c" using Cons.prems by (metis distinct.simps(2) list.set_map list.simps(9))
    then show "session_id s \<notin> insert (session_id c) seen \<longleftrightarrow> session_id s \<notin> seen" by simp
  qed simp
  show ?case
  proof (cases "session_id c \<in> seen")
    case True
    then show ?thesis using Cons by (auto simp: visit_child_def)
  next
    case False
    then have "fold visit_child (c # cs) (seen, found, queue) = fold visit_child cs (insert (session_id c) seen, found @ [c], queue @ [session_id c])"
      by (simp add: visit_child_def)
    then show ?thesis using Cons.IH [of "insert (session_id c) seen"] Cons.prems False by (simp only: rest) simp
  qed
qed simp

lemma distinct_shown_children:
  assumes "db_ok db"
  shows "distinct (map session_id (shown_children db p))"
proof -
  let ?t = "filter (row_matches db (children_query p) \<circ> snd) (enumerate 0 (sd_rows db))"
  have "map (sr_id \<circ> snd) (enumerate 0 (sd_rows db)) = map sr_id (sd_rows db)" by (simp flip: map_map)
  then have "distinct (map (sr_id \<circ> snd) (enumerate 0 (sd_rows db)))" using assms by (simp add: db_ok_def rows_ok_def)
  then have "distinct (map (sr_id \<circ> snd) ?t)" by (rule distinct_map_filter)
  then have "distinct (map (sr_id \<circ> snd) (ordered_rows db (children_query p)))"
    by (simp add: ordered_rows_def keyed_listing_def distinct_map rev_map [symmetric])
  moreover have "map session_id (shown_children db p) = map (sr_id \<circ> snd) (ordered_rows db (children_query p))"
    by (simp add: shown_children_def sessions_listing_def with_labels_def)
  ultimately show ?thesis by simp
qed

lemma fold_children:
  "db_ok db \<Longrightarrow> fold_pages (children_page db p) act None acc = Some (fold act (shown_children db p) acc)"
  unfolding children_page_fetch shown_children_def by (intro sessions.fold_all children_ok)

text \<open>The loop invariant: what was seen is reachable, and what was seen and left the queue is expanded.\<close>

definition walk_ok :: "sess_db \<Rightarrow> string \<Rightarrow> walk_state \<Rightarrow> bool" where
  "walk_ok db sid st \<longleftrightarrow>
     (case st of (seen, found, queue) \<Rightarrow>
        seen = insert sid (set (map session_id found)) \<and> distinct (sid # map session_id found) \<and> set queue \<subseteq> seen \<and> seen \<subseteq> shown_family db sid \<and>
        (\<forall>s \<in> set found. s = (fst s, sd_labels db (session_id s)) \<and> fst s \<in> set (sd_rows db)) \<and>
        (\<forall>p r. p \<in> seen - set queue \<longrightarrow> shown_child db p r \<longrightarrow> sr_id r \<in> seen))"

lemma walk_ok_step:
  assumes "db_ok db" and "walk_ok db sid (seen, found, p # queue)"
  shows "walk_ok db sid (fold visit_child (shown_children db p) (seen, found, queue))"
proof -
  let ?cs = "shown_children db p"
  let ?new = "filter (\<lambda>s. session_id s \<notin> seen) ?cs"
  note fold = visit_children [OF distinct_shown_children [OF assms(1)], of p seen found queue]
  have inv: "seen = insert sid (set (map session_id found))" "distinct (sid # map session_id found)" "set (p # queue) \<subseteq> seen" "seen \<subseteq> shown_family db sid"
    "\<forall>s \<in> set found. s = (fst s, sd_labels db (session_id s)) \<and> fst s \<in> set (sd_rows db)"
    "\<forall>p' r. p' \<in> seen - set (p # queue) \<longrightarrow> shown_child db p' r \<longrightarrow> sr_id r \<in> seen"
    using assms(2) by (auto simp: walk_ok_def)
  have cs: "s = (fst s, sd_labels db (session_id s)) \<and> shown_child db p (fst s)" if "s \<in> set ?cs" for s
    using that by (auto simp: set_shown_children)
  have all: "sr_id r \<in> set (map session_id ?cs)" if "shown_child db p r" for r
    using that by (force simp: set_shown_children image_iff)
  have ids: "seen \<union> set (map session_id ?cs) = seen \<union> set (map session_id ?new)" by auto
  have "distinct (map session_id ?new)" using distinct_shown_children [OF assms(1)] by (rule distinct_map_filter)
  moreover have "set (map session_id ?new) \<inter> seen = {}" by auto
  ultimately have "distinct (sid # map session_id (found @ ?new))" using inv(1,2) by auto
  moreover have "set (map session_id ?cs) \<subseteq> shown_family db sid"
    using cs inv(3,4) by (auto intro!: shown_family.child [of p])
  moreover have "sr_id r \<in> seen \<union> set (map session_id ?cs)"
    if "p' \<in> (seen \<union> set (map session_id ?new)) - set (queue @ map session_id ?new)" "shown_child db p' r" for p' r
  proof (cases "p' = p")
    case True
    then show ?thesis using all that(2) by simp
  next
    case False
    then have "p' \<in> seen - set (p # queue)" using that(1) by auto
    then show ?thesis using inv(6) that(2) by blast
  qed
  moreover have "\<forall>s \<in> set (found @ ?new). s = (fst s, sd_labels db (session_id s)) \<and> fst s \<in> set (sd_rows db)"
    using inv(5) cs by (auto simp: shown_child_def)
  ultimately show ?thesis unfolding fold walk_ok_def prod.case ids using inv(1,3,4) by auto
qed

text \<open>Every round takes one entry from the queue and adds as many as it finds new sessions.\<close>

lemma walk_measure:
  assumes "db_ok db" and "seen \<subseteq> U" and "finite U" and "sr_id ` set (sd_rows db) \<subseteq> U"
    and "fold visit_child (shown_children db p) (seen, found, queue) = (seen', found', queue')"
  shows "seen' \<subseteq> U \<and> length queue' + card (U - seen') = length queue + card (U - seen)"
proof -
  let ?new = "filter (\<lambda>s. session_id s \<notin> seen) (shown_children db p)"
  note d = distinct_shown_children [OF assms(1), of p]
  have f: "seen' = seen \<union> set (map session_id (shown_children db p))" "queue' = queue @ map session_id ?new"
    using assms(5) visit_children [OF d, of seen found queue] by simp_all
  have rows: "set (map session_id (shown_children db p)) \<subseteq> U" using assms(4) by (auto simp: set_shown_children shown_child_def)
  have "distinct (map session_id ?new)" using d by (rule distinct_map_filter)
  then have len: "length ?new = card (set (map session_id ?new))" using distinct_card [of "map session_id ?new"] by simp
  have new: "set (map session_id ?new) \<subseteq> U - seen" using rows by auto
  have "U - seen' = (U - seen) - set (map session_id ?new)" unfolding f by auto
  then have "card (U - seen') = card (U - seen) - card (set (map session_id ?new))" using new by (simp add: card_Diff_subset)
  moreover have "card (set (map session_id ?new)) \<le> card (U - seen)" using new assms(3) by (intro card_mono) simp_all
  ultimately show ?thesis using len rows assms(2) unfolding f by auto
qed

lemma descendant_walk_ends:
  assumes "db_ok db" and "walk_ok db sid (seen, found, queue)"
  shows "\<exists>ds. descendant_walk db (seen, found, queue) = Some ds \<and> walk_ok db sid (insert sid (set (map session_id ds)), ds, [])"
proof -
  let ?U = "insert sid (sr_id ` set (sd_rows db))"
  have "seen \<subseteq> ?U" using assms(2) unfolding walk_ok_def by auto
  then show ?thesis using assms(2)
  proof (induction "length queue + card (?U - seen)" arbitrary: seen found queue rule: less_induct)
    case less
    show ?case
    proof (cases queue)
      case Nil
      then have "seen = insert sid (set (map session_id found))" using less.prems(2) by (simp add: walk_ok_def)
      then show ?thesis using Nil less.prems(2) by (subst descendant_walk.simps) simp
    next
      case (Cons p rest)
      obtain seen' found' queue' where st: "fold visit_child (shown_children db p) (seen, found, rest) = (seen', found', queue')"
        by (cases "fold visit_child (shown_children db p) (seen, found, rest)")
      have ok: "walk_ok db sid (seen', found', queue')" using walk_ok_step [OF assms(1), of sid seen found p rest] less.prems(2) Cons st by simp
      have m: "seen' \<subseteq> ?U \<and> length queue' + card (?U - seen') = length rest + card (?U - seen)"
        by (rule walk_measure [OF assms(1) less.prems(1) _ _ st]) auto
      then have "length queue' + card (?U - seen') < length queue + card (?U - seen)" unfolding Cons by simp
      from less.hyps [OF this _ ok] m obtain ds where "descendant_walk db (seen', found', queue') = Some ds"
        "walk_ok db sid (insert sid (set (map session_id ds)), ds, [])" by blast
      then show ?thesis using Cons st by (subst descendant_walk.simps) (simp add: fold_children [OF assms(1)])
    qed
  qed
qed

lemma descendants_exact:
  assumes "db_ok db"
  shows "\<exists>ds. descendant_sessions db sid = Some ds \<and> distinct (map session_id ds) \<and>
    set (map session_id ds) = shown_family db sid - {sid} \<and> (\<forall>s \<in> set ds. get_session db (session_id s) = Some s)"
proof -
  have "walk_ok db sid ({sid}, [], [sid])" by (auto simp: walk_ok_def intro: shown_family.self)
  from descendant_walk_ends [OF assms this] obtain ds where ds: "descendant_sessions db sid = Some ds"
    and ok: "walk_ok db sid (insert sid (set (map session_id ds)), ds, [])" by (auto simp: descendant_sessions_def)
  have "x \<in> insert sid (set (map session_id ds))" if "x \<in> shown_family db sid" for x
    using that
  proof induction
    case (child p r)
    then show ?case using ok unfolding walk_ok_def by auto
  qed simp
  then have fam: "shown_family db sid = insert sid (set (map session_id ds))" using ok unfolding walk_ok_def by blast
  have "get_session db (session_id s) = Some s" if "s \<in> set ds" for s
  proof -
    have s: "s = (fst s, sd_labels db (session_id s))" "fst s \<in> set (sd_rows db)" using ok that unfolding walk_ok_def by auto
    then obtain j where "j < length (sd_rows db)" "sd_rows db ! j = fst s" by (auto simp: in_set_conv_nth)
    then have "find_row db (session_id s) = Some (fst s)" using find_row_nth [of db j] assms by (simp add: db_ok_def)
    then show ?thesis using s(1) by (simp add: get_session_def)
  qed
  moreover have "distinct (map session_id ds)" "sid \<notin> set (map session_id ds)" using ok by (simp_all add: walk_ok_def)
  ultimately show ?thesis using ds unfolding fam by (intro exI [of _ ds]) auto
qed


section \<open>Prompts in a snapshot\<close>

definition prompt_id :: "pydict \<Rightarrow> pyval" where
  "prompt_id ev = pget ev ''elicitation_id''"

text \<open>Every event of the index is stored under its own identifier.\<close>

definition keyed_events :: "pydict index \<Rightarrow> bool" where
  "keyed_events ix \<longleftrightarrow> index_ok ix \<and> (\<forall>c k ev. (k, ev) \<in> set (inner ix c) \<longrightarrow> prompt_id ev = PStr k)"

definition pending_ids :: "pydict index \<Rightarrow> string \<Rightarrow> string set" where
  "pending_ids ix c = fst ` set (inner ix c)"

lemma prompt_id_targeted [simp]: "prompt_id (targeted_elicitation_event ev c) = prompt_id ev"
  by (auto simp: prompt_id_def targeted_elicitation_event_def pget_def split: pyval.split option.split)

lemma snapshot_inner: "snapshot_elicitations ix c = map snd (inner ix c)"
  by (simp add: snapshot_elicitations_def inner_def split: option.split)

lemma snapshot_ids:
  assumes "keyed_events ix"
  shows "map prompt_id (snapshot_elicitations ix c) = map PStr (map fst (inner ix c))"
  using assms by (auto simp: snapshot_inner keyed_events_def)

lemma own_ids_strings: "map prompt_id events = map PStr ks \<Longrightarrow> own_ids events = set ks"
proof (induction events arbitrary: ks)
  case (Cons e es)
  then obtain k ks' where ks: "ks = k # ks'" "prompt_id e = PStr k" "map prompt_id es = map PStr ks'" by (cases ks) auto
  have "own_ids es = set ks'" by (rule Cons.IH [OF ks(3)])
  moreover have "pget e ''elicitation_id'' = PStr k" using ks(2) by (simp add: prompt_id_def)
  ultimately show ?case by (simp add: ks(1) own_ids_def map_filter_simps)
qed (simp add: own_ids_def map_filter_simps)

text \<open>Events of other sessions are appended once per identifier, each with its session as the target.\<close>

definition prompts_ok :: "(string \<times> pydict) set \<Rightarrow> pydict list \<Rightarrow> string set \<Rightarrow> pydict list \<Rightarrow> bool" where
  "prompts_ok from own seen events \<longleftrightarrow>
     (\<exists>more. events = own @ more \<and> (\<forall>e \<in> set more. \<exists>(c, ev) \<in> from. e = targeted_elicitation_event ev c)) \<and>
     (\<exists>ks. map prompt_id events = map PStr ks \<and> distinct ks \<and> set ks = seen)"

lemma add_prompt_ok:
  assumes "prompts_ok from own seen events" and "prompt_id ev = PStr k"
  shows "(case add_prompt c ev (seen, events) of (seen', events') \<Rightarrow> prompts_ok (insert (c, ev) from) own seen' events' \<and> seen' = insert k seen)"
proof (cases "k \<in> seen")
  case True
  then have "add_prompt c ev (seen, events) = (seen, events)" using assms(2) by (simp add: add_prompt_def prompt_id_def)
  then show ?thesis using assms(1) True unfolding prompts_ok_def by (auto simp: insert_absorb)
next
  case False
  let ?e = "targeted_elicitation_event ev c"
  obtain more ks where o: "events = own @ more" "\<forall>e \<in> set more. \<exists>(c, ev) \<in> from. e = targeted_elicitation_event ev c"
    "map prompt_id events = map PStr ks" "distinct ks" "set ks = seen" using assms(1) unfolding prompts_ok_def by blast
  have "add_prompt c ev (seen, events) = (insert k seen, events @ [?e])" using False assms(2) by (simp add: add_prompt_def prompt_id_def)
  moreover have "events @ [?e] = own @ (more @ [?e])" "map prompt_id (events @ [?e]) = map PStr (ks @ [k])" "distinct (ks @ [k])" "set (ks @ [k]) = insert k seen"
    using o assms(2) False by simp_all
  moreover have "\<forall>e \<in> set (more @ [?e]). \<exists>(c, ev) \<in> insert (c, ev) from. e = targeted_elicitation_event ev c" using o(2) by auto
  ultimately show ?thesis unfolding prompts_ok_def by (simp only: prod.case) blast
qed

lemma add_prompts_ok:
  assumes "prompts_ok from own seen events" and "map prompt_id evs = map PStr ks"
  shows "case fold (add_prompt c) evs (seen, events) of (seen', events') \<Rightarrow>
    prompts_ok (from \<union> Pair c ` set evs) own seen' events' \<and> seen' = seen \<union> set ks"
  using assms
proof (induction evs arbitrary: "from" seen events ks)
  case (Cons ev evs)
  then obtain k ks' where ks: "ks = k # ks'" "prompt_id ev = PStr k" "map prompt_id evs = map PStr ks'" by (cases ks) auto
  obtain s1 e1 where a: "add_prompt c ev (seen, events) = (s1, e1)" by (cases "add_prompt c ev (seen, events)")
  have "prompts_ok (insert (c, ev) from) own s1 e1 \<and> s1 = insert k seen" using add_prompt_ok [OF Cons.prems(1) ks(2), of c] a by auto
  then show ?case using Cons.IH [of "insert (c, ev) from" s1 e1 ks'] ks a by (auto split: prod.splits)
qed simp

lemma child_prompts_ok:
  assumes "keyed_events ix" and "prompts_ok from own seen events"
  shows "case fold (\<lambda>child. fold (add_prompt (session_id child)) (snapshot_elicitations ix (session_id child))) ds (seen, events) of (seen', events') \<Rightarrow>
    prompts_ok (from \<union> (\<Union>d \<in> set ds. Pair (session_id d) ` set (snapshot_elicitations ix (session_id d)))) own seen' events' \<and>
    seen' = seen \<union> (\<Union>d \<in> set ds. pending_ids ix (session_id d))"
  using assms(2)
proof (induction ds arbitrary: "from" seen events)
  case (Cons d ds)
  let ?evs = "snapshot_elicitations ix (session_id d)"
  obtain s1 e1 where a: "fold (add_prompt (session_id d)) ?evs (seen, events) = (s1, e1)" by (cases "fold (add_prompt (session_id d)) ?evs (seen, events)")
  have 1: "prompts_ok (from \<union> Pair (session_id d) ` set ?evs) own s1 e1 \<and> s1 = seen \<union> pending_ids ix (session_id d)"
    using add_prompts_ok [OF Cons.prems snapshot_ids [OF assms(1)], of "session_id d" "session_id d"] a by (auto simp: pending_ids_def)
  obtain s2 e2 where b: "fold (\<lambda>child. fold (add_prompt (session_id child)) (snapshot_elicitations ix (session_id child))) ds (s1, e1) = (s2, e2)"
    by (cases "fold (\<lambda>child. fold (add_prompt (session_id child)) (snapshot_elicitations ix (session_id child))) ds (s1, e1)")
  have "prompts_ok ((from \<union> Pair (session_id d) ` set ?evs) \<union> (\<Union>d \<in> set ds. Pair (session_id d) ` set (snapshot_elicitations ix (session_id d)))) own s2 e2 \<and>
      s2 = s1 \<union> (\<Union>d \<in> set ds. pending_ids ix (session_id d))"
    using Cons.IH [OF conjunct1 [OF 1]] unfolding b prod.case .
  then show ?case unfolding fold_simps a b prod.case by (auto simp only: conjunct2 [OF 1] list.set UN_insert Un_assoc)
qed simp

lemma snapshot_exact:
  assumes "db_ok db" and "keyed_events ix"
  shows "\<exists>events ks more. pending_elicitation_snapshot_for_session db ix sid = Some events \<and>
    map prompt_id events = map PStr ks \<and> distinct ks \<and> set ks = (\<Union>c \<in> shown_family db sid. pending_ids ix c) \<and>
    events = snapshot_elicitations ix sid @ more \<and>
    (\<forall>e \<in> set more. \<exists>c ev. c \<in> shown_family db sid \<and> c \<noteq> sid \<and> ev \<in> set (snapshot_elicitations ix c) \<and> e = targeted_elicitation_event ev c)"
proof -
  let ?own = "snapshot_elicitations ix sid"
  have ids: "map prompt_id ?own = map PStr (map fst (inner ix sid))" by (rule snapshot_ids [OF assms(2)])
  have dist: "distinct (map fst (inner ix sid))" using assms(2) index_ok_inner by (auto simp: keyed_events_def dict_ok_def)
  show ?thesis
  proof (cases "set (pending_session_ids ix) - {sid} = {}")
    case True
    have "pending_ids ix c = {}" if "c \<noteq> sid" for c
    proof -
      have "c \<notin> fst ` set ix" using True that by (auto simp: pending_session_ids_def)
      then show ?thesis by (simp add: pending_ids_def inner_def map_of_eq_None_iff [symmetric])
    qed
    then have "(\<Union>c \<in> shown_family db sid. pending_ids ix c) = pending_ids ix sid" by (auto intro: shown_family.self) (metis empty_iff)
    then show ?thesis
      using True ids dist by (intro exI [of _ ?own] exI [of _ "map fst (inner ix sid)"] exI [of _ "[]"])
        (simp add: pending_elicitation_snapshot_for_session_def pending_ids_def)
  next
    case False
    obtain ds where ds: "descendant_sessions db sid = Some ds" "set (map session_id ds) = shown_family db sid - {sid}"
      using descendants_exact [OF assms(1), of sid] by blast
    obtain seen events where f: "fold (\<lambda>child. fold (add_prompt (session_id child)) (snapshot_elicitations ix (session_id child))) ds (own_ids ?own, ?own) = (seen, events)"
      by (cases "fold (\<lambda>child. fold (add_prompt (session_id child)) (snapshot_elicitations ix (session_id child))) ds (own_ids ?own, ?own)")
    have own: "own_ids ?own = pending_ids ix sid" using own_ids_strings [OF ids] by (simp add: pending_ids_def)
    have "prompts_ok {} ?own (own_ids ?own) ?own" unfolding own prompts_ok_def using ids dist
      by (intro conjI exI [of _ "[]"] exI [of _ "map fst (inner ix sid)"]) (simp_all add: pending_ids_def)
    from child_prompts_ok [OF assms(2) this, of ds, unfolded f prod.case] have ok:
      "prompts_ok (\<Union>d \<in> set ds. Pair (session_id d) ` set (snapshot_elicitations ix (session_id d))) ?own seen events"
      "seen = pending_ids ix sid \<union> (\<Union>d \<in> set ds. pending_ids ix (session_id d))" unfolding own Un_empty_left by blast+
    have fam: "shown_family db sid = insert sid (session_id ` set ds)" using ds(2) shown_family.self [of sid db] by auto
    have seen: "seen = (\<Union>c \<in> shown_family db sid. pending_ids ix c)" unfolding ok(2) fam by auto
    obtain more ks where m: "events = ?own @ more" "\<forall>e \<in> set more. \<exists>(c, ev) \<in> (\<Union>d \<in> set ds. Pair (session_id d) ` set (snapshot_elicitations ix (session_id d))).
        e = targeted_elicitation_event ev c" "map prompt_id events = map PStr ks" "distinct ks" "set ks = seen"
      using ok(1) unfolding prompts_ok_def by blast
    have "\<exists>c ev. c \<in> shown_family db sid \<and> c \<noteq> sid \<and> ev \<in> set (snapshot_elicitations ix c) \<and> e = targeted_elicitation_event ev c" if e: "e \<in> set more" for e
    proof -
      obtain d ev where d: "d \<in> set ds" "ev \<in> set (snapshot_elicitations ix (session_id d))" "e = targeted_elicitation_event ev (session_id d)"
        using bspec [OF m(2) e] by auto
      then have "session_id d \<in> shown_family db sid - {sid}" unfolding ds(2) [symmetric] by simp
      then show ?thesis using d by blast
    qed
    then show ?thesis
      using False ds(1) f m seen by (intro exI [of _ events] exI [of _ ks] exI [of _ more])
        (simp add: pending_elicitation_snapshot_for_session_def Let_def)
  qed
qed

text \<open>
  A session snapshot shows every outstanding prompt of the session and of the visible sub-agents below it exactly once, its own prompts first and unchanged,
  every other prompt with the session it belongs to as its target.
\<close>

theorem pending_snapshot_exact:
  assumes "db_ok db" and "keyed_events ix"
  shows "\<exists>events ks more. pending_elicitation_snapshot_for_session db ix sid = Some events \<and>
    map prompt_id events = map PStr ks \<and> distinct ks \<and> set ks = (\<Union>c \<in> shown_family db sid. pending_ids ix c) \<and>
    events = snapshot_elicitations ix sid @ more \<and>
    (\<forall>e \<in> set more. \<exists>c ev. c \<in> shown_family db sid \<and> c \<noteq> sid \<and> ev \<in> set (snapshot_elicitations ix c) \<and> e = targeted_elicitation_event ev c)"
  using snapshot_exact [OF assms] .

section \<open>Prompts mirrored into the ancestors\<close>

lemma pending_ids_get: "k \<in> pending_ids ix c \<longleftrightarrow> dget (inner ix c) k \<noteq> None"
  by (simp add: pending_ids_def map_of_eq_None_iff)

lemma record_publish_get: "dget (inner (pn_index (record_publish c ev s)) d) k = (case says d k (Publish c ev) of Some w \<Rightarrow> w | None \<Rightarrow> dget (inner (pn_index s) d) k)"
  using pending_step_get [of "Publish c ev" s d k] by simp

lemma keyed_events_get:
  "keyed_events ix \<longleftrightarrow> index_ok ix \<and> (\<forall>c k ev. dget (inner ix c) k = Some ev \<longrightarrow> prompt_id ev = PStr k)"
proof -
  have "(k, ev) \<in> set (inner ix c) \<longleftrightarrow> dget (inner ix c) k = Some ev" if "index_ok ix" for c k ev
    using index_ok_inner [OF that, of c] by (simp add: dict_ok_def)
  then show ?thesis unfolding keyed_events_def by blast
qed

lemma elicitation_id_prompt: "elicitation_id ev = Some k \<Longrightarrow> prompt_id ev = PStr k"
  by (auto simp: elicitation_id_def prompt_id_def split: pyval.splits list.splits)

lemma record_publish_keyed:
  assumes "keyed_events (pn_index s)"
  shows "keyed_events (pn_index (record_publish c ev s))"
proof -
  have "index_ok (pn_index (record_publish c ev s))"
    using assms pending_step_ok [of s "Publish c ev"] by (simp add: keyed_events_def)
  then show ?thesis
    using assms elicitation_id_prompt by (auto simp: keyed_events_get record_publish_get split: option.splits if_splits)
qed

lemma fold_publish_keyed: "keyed_events (pn_index s) \<Longrightarrow> keyed_events (pn_index (fold (\<lambda>a. record_publish a ev) as s))"
  by (induction as arbitrary: s) (simp_all add: record_publish_keyed)

definition request_event :: "string \<Rightarrow> pydict \<Rightarrow> bool" where
  "request_event k ev \<longleftrightarrow> pget ev ''type'' = PStr ''response.elicitation_request'' \<and> elicitation_id ev = Some k"

definition resolved_event :: "string \<Rightarrow> pydict \<Rightarrow> bool" where
  "resolved_event k ev \<longleftrightarrow> pget ev ''type'' = PStr ''response.elicitation_resolved'' \<and> elicitation_id ev = Some k"

lemma request_targeted: "request_event k ev \<Longrightarrow> request_event k (targeted_elicitation_event ev c)"
  by (auto simp: request_event_def targeted_elicitation_event_def elicitation_id_def pget_def split: pyval.splits option.splits)

lemma fold_request:
  "request_event k ev \<Longrightarrow> pending_ids (pn_index (fold (\<lambda>a. record_publish a ev) as s)) c =
    (if c \<in> set as then insert k (pending_ids (pn_index s) c) else pending_ids (pn_index s) c)"
proof (induction as arbitrary: s)
  case (Cons a as)
  have "pending_ids (pn_index (record_publish a ev s)) c = (if c = a then insert k (pending_ids (pn_index s) c) else pending_ids (pn_index s) c)"
    using Cons.prems by (auto simp: pending_ids_get record_publish_get request_event_def split: if_splits)
  then show ?case using Cons by auto
qed simp

lemma fold_resolved:
  "resolved_event k ev \<Longrightarrow> pending_ids (pn_index (fold (\<lambda>a. record_publish a ev) as s)) c =
    (if c \<in> set as then pending_ids (pn_index s) c - {k} else pending_ids (pn_index s) c)"
proof (induction as arbitrary: s)
  case (Cons a as)
  have "pending_ids (pn_index (record_publish a ev s)) c = (if c = a then pending_ids (pn_index s) c - {k} else pending_ids (pn_index s) c)"
    using Cons.prems by (auto simp: pending_ids_get record_publish_get resolved_event_def split: if_splits)
  then show ?case using Cons by auto
qed simp

lemma count_list_distinct: "distinct xs \<Longrightarrow> count_list xs x = (if x \<in> set xs then 1 else 0)"
  by (induction xs) auto

lemma snapshot_count:
  assumes "db_ok db" and "keyed_events ix"
  shows "\<exists>events. pending_elicitation_snapshot_for_session db ix sid = Some events \<and>
    count_list (map prompt_id events) (PStr k) = (if \<exists>c \<in> shown_family db sid. k \<in> pending_ids ix c then 1 else 0)"
proof -
  obtain events ks where e: "pending_elicitation_snapshot_for_session db ix sid = Some events" "map prompt_id events = map PStr ks" "distinct ks"
    "set ks = (\<Union>c \<in> shown_family db sid. pending_ids ix c)" using snapshot_exact [OF assms, of sid] by blast
  have "count_list (map PStr ks) (PStr k) = count_list ks k" by (induction ks) auto
  then show ?thesis using e count_list_distinct [OF e(3), of k] by auto
qed

text \<open>
  C23: A prompt of a session that is mirrored into its ancestors is shown exactly once in the snapshot of the session and of every ancestor; when its resolution is published on the
  session and mirrored in the same way, no snapshot shows it any more.
\<close>

theorem prompt_shown_until_resolved:
  assumes "db_ok db" and "find_row db sid = Some row" and "keyed_events (pn_index st)" and "\<And>c. k \<notin> pending_ids (pn_index st) c" and "request_event k ev"
  shows "\<exists>st2 st4. publish_elicitation_request_to_ancestors db sid ev (record_publish sid ev st) = Some st2 \<and>
    publish_elicitation_resolved_to_ancestors db sid k (publish_elicitation_resolved sid k st2) = Some st4 \<and>
    (\<forall>a \<in> insert sid (ancestors_of (sd_rows db) sid).
      \<exists>events. pending_elicitation_snapshot_for_session db (pn_index st2) a = Some events \<and> count_list (map prompt_id events) (PStr k) = 1) \<and>
    (\<forall>a. \<exists>events. pending_elicitation_snapshot_for_session db (pn_index st4) a = Some events \<and> PStr k \<notin> set (map prompt_id events))"
proof -
  obtain as where as: "ancestor_session_ids db sid = Some as" "set as = ancestors_of (sd_rows db) sid" using ancestors_exact [OF assms(1,2)] by blast
  let ?gone = "[(''type'', PStr ''response.elicitation_resolved''), (''elicitation_id'', PStr k)]"
  let ?st2 = "fold (\<lambda>a. record_publish a (targeted_elicitation_event ev sid)) as (record_publish sid ev st)"
  let ?st4 = "fold (\<lambda>a. record_publish a ?gone) as (record_publish sid ?gone ?st2)"
  have "k \<noteq> []" using assms(5) by (auto simp: request_event_def elicitation_id_def split: pyval.splits list.splits)
  then have gone: "resolved_event k ?gone" by (cases k) (simp_all add: resolved_event_def elicitation_id_def pget_def)
  note own = fold_request [OF assms(5), of "[sid]" st, simplified]
  have ids2: "k \<in> pending_ids (pn_index ?st2) c \<longleftrightarrow> c \<in> insert sid (set as)" for c
    using assms(4) fold_request [OF request_targeted [OF assms(5), of sid], of as "record_publish sid ev st" c] own [of c] by auto
  have ids4: "k \<notin> pending_ids (pn_index ?st4) c" for c
    using ids2 [of c] fold_resolved [OF gone, of as "record_publish sid ?gone ?st2" c] fold_resolved [OF gone, of "[sid]" ?st2 c] by auto
  have keyed: "keyed_events (pn_index ?st2)" "keyed_events (pn_index ?st4)"
    using assms(3) by (intro fold_publish_keyed record_publish_keyed; assumption)+
  have shown: "\<exists>events. pending_elicitation_snapshot_for_session db (pn_index ?st2) a = Some events \<and> count_list (map prompt_id events) (PStr k) = 1"
    if "a \<in> insert sid (ancestors_of (sd_rows db) sid)" for a
    using snapshot_count [OF assms(1) keyed(1), of a k] ids2 [of a] that shown_family.self [of a db] unfolding as(2) [symmetric] by auto
  have hidden: "\<exists>events. pending_elicitation_snapshot_for_session db (pn_index ?st4) a = Some events \<and> PStr k \<notin> set (map prompt_id events)" for a
    using snapshot_count [OF assms(1) keyed(2), of a k] ids4 unfolding count_list_0_iff [symmetric] by auto
  show ?thesis
  proof (rule exI [of _ ?st2], rule exI [of _ ?st4], intro conjI ballI allI)
    show "publish_elicitation_request_to_ancestors db sid ev (record_publish sid ev st) = Some ?st2"
      by (simp add: publish_elicitation_request_to_ancestors_def as(1) Let_def)
    show "publish_elicitation_resolved_to_ancestors db sid k (publish_elicitation_resolved sid k ?st2) = Some ?st4"
      by (simp add: publish_elicitation_resolved_to_ancestors_def publish_elicitation_resolved_def as(1))
  qed (use shown hidden in blast)+
qed


section \<open>A sample tree\<close>

definition pair_db :: sess_db where
  "pair_db = solo_db\<lparr>sd_rows := sd_rows solo_db @ [created_row ''c2'' 5 ''c1'' (child_args ''c1'' claude_parent ''Explore:a5c7'' ''Explore'')]\<rparr>"

definition sample_prompt :: pydict where
  "sample_prompt = [(''type'', PStr ''response.elicitation_request''), (''elicitation_id'', PStr ''elicit_1'')]"

definition no_prompts :: pending_state where
  "no_prompts = \<lparr>pn_index = [], pn_observed = False, pn_log = []\<rparr>"

lemma pair_ok: "db_ok pair_db"
proof -
  have "create_conversation solo_db ''c2'' 5 (child_args ''c1'' claude_parent ''Explore:a5c7'' ''Explore'') =
      Inr (pair_db, (created_row ''c2'' 5 ''c1'' (child_args ''c1'' claude_parent ''Explore:a5c7'' ''Explore''), []))"
    by (simp add: pair_db_def create_conversation_def bind_store_def inherited_root_def child_args_def solo_rows find_row_def add_row_def
      row_checks_def created_row_def blank_row_def plain_session_def same_child_def)
  moreover have "new_conv_id solo_db ''c2''" by (rule solo_new) simp_all
  ultimately show ?thesis using create_conversation_ok(1) [OF solo_ok] by blast
qed

lemma pair_child:
  "find_row pair_db ''c2'' = Some (created_row ''c2'' 5 ''c1'' (child_args ''c1'' claude_parent ''Explore:a5c7'' ''Explore''))"
  "shown_child pair_db ''c1'' (created_row ''c2'' 5 ''c1'' (child_args ''c1'' claude_parent ''Explore:a5c7'' ''Explore''))"
  by (simp_all add: pair_db_def find_row_def solo_rows shown_child_def created_row_def blank_row_def child_args_def)

lemma pair_ancestor: "''c1'' \<in> ancestors_of (sd_rows pair_db) ''c2''"
proof -
  have "sr_id (created_row ''c2'' 5 ''c1'' (child_args ''c1'' claude_parent ''Explore:a5c7'' ''Explore'')) \<in> family (sd_rows pair_db) ''c1''"
    using pair_child(2) by (intro family.child [OF family.self]) (simp_all add: shown_child_def)
  then show ?thesis by (simp add: ancestors_of_def created_row_def blank_row_def)
qed

lemma no_prompts_keyed: "keyed_events (pn_index no_prompts)" "k \<notin> pending_ids (pn_index no_prompts) c"
  by (simp_all add: no_prompts_def keyed_events_def pending_ids_def)


theorem pending_snapshot_exact_witness:
  "db_ok pair_db \<and> keyed_events (pn_index no_prompts) \<and> pending_elicitation_snapshot_for_session pair_db (pn_index no_prompts) ''c1'' = Some []"
proof -
  obtain events ks where "pending_elicitation_snapshot_for_session pair_db (pn_index no_prompts) ''c1'' = Some events" "map prompt_id events = map PStr ks"
      "set ks = (\<Union>c \<in> shown_family pair_db ''c1''. pending_ids (pn_index no_prompts) c)"
    using pending_snapshot_exact [OF pair_ok no_prompts_keyed(1), of "''c1''"] by blast
  moreover have "pending_ids (pn_index no_prompts) c = {}" for c by (simp add: no_prompts_def pending_ids_def)
  ultimately show ?thesis using pair_ok no_prompts_keyed(1) by simp
qed

theorem prompt_shown_until_resolved_witness:
  "request_event ''elicit_1'' sample_prompt \<and> db_ok pair_db \<and>
    (\<exists>st2 events. publish_elicitation_request_to_ancestors pair_db ''c2'' sample_prompt (record_publish ''c2'' sample_prompt no_prompts) = Some st2 \<and>
      pending_elicitation_snapshot_for_session pair_db (pn_index st2) ''c1'' = Some events \<and> count_list (map prompt_id events) (PStr ''elicit_1'') = 1)"
proof -
  have req: "request_event ''elicit_1'' sample_prompt" by (simp add: request_event_def sample_prompt_def pget_def elicitation_id_def)
  show ?thesis
    using prompt_shown_until_resolved [OF pair_ok pair_child(1) no_prompts_keyed(1) no_prompts_keyed(2) req] pair_ancestor pair_ok req by blast
qed

end
