(* ===== verification/Inflight.thy ===== *)
theory Inflight
  imports Pending
begin

text \<open>
  The index of assistant text that streams in the current turn (\<^verbatim>\<open>runtime/inflight_text.py\<close>) and the stream that feeds it
  (\<^verbatim>\<open>runtime/session_stream.py\<close>). The lock makes every operation atomic; the monotonic clock reading is an argument, and so is the
  fingerprint of a text (\<^verbatim>\<open>hashlib.sha256\<close>). Queues hold what a subscriber has not read yet; the delivery of an item to a
  queue is immediate.
\<close>

section \<open>The index\<close>

record inflight_turn =
  it_response_id :: "string option"
  it_response :: "pydict option"
  it_parts :: "string list"

record native_message =
  nm_parts :: "string list"
  nm_last_index :: int
  nm_final_seen :: bool

record inflight =
  if_turns :: "inflight_turn dict"
  if_native :: "native_message index"
  if_retired :: "unit index"
  if_committed :: "rat list index"

definition TERMINAL_EVENT_TYPES :: "string list" where
  "TERMINAL_EVENT_TYPES = [''response.completed'', ''response.failed'', ''response.cancelled'', ''response.incomplete'']"

definition TERMINAL_STATUS_VALUES :: "string list" where
  "TERMINAL_STATUS_VALUES = [''idle'', ''failed'']"

definition MAX_NATIVE_RETIRED_PER_CONV :: nat where
  "MAX_NATIVE_RETIRED_PER_CONV = 256"

definition MAX_NATIVE_COMMITTED_PER_CONV :: nat where
  "MAX_NATIVE_COMMITTED_PER_CONV = 256"

definition NATIVE_COMMITTED_TTL_S :: rat where
  "NATIVE_COMMITTED_TTL_S = 10"

text \<open>The joined \<^verbatim>\<open>output_text\<close> blocks of a committed message.\<close>

definition block_text :: "pyval \<Rightarrow> string option" where
  "block_text b =
     (case b of
        PDict d \<Rightarrow>
          if pget d ''type'' = PStr ''output_text'' then (case pget d ''text'' of PStr t \<Rightarrow> Some t | _ \<Rightarrow> None) else None
      | _ \<Rightarrow> None)"

definition committed_message_text :: "pydict \<Rightarrow> string option" where
  "committed_message_text item =
     (case pget item ''content'' of
        PList blocks \<Rightarrow> (let parts = List.map_filter block_text blocks in if parts = [] then None else Some (concat parts))
      | _ \<Rightarrow> None)"

text \<open>\<^verbatim>\<open>while len(d) > limit: del d[next(iter(d))]\<close>\<close>

fun evict_oldest :: "nat \<Rightarrow> 'v dict \<Rightarrow> 'v dict" where
  "evict_oldest limit d = (if limit < length d then evict_oldest limit (tl d) else d)"

declare evict_oldest.simps [simp del]

definition retire_native_message :: "string \<Rightarrow> string \<Rightarrow> inflight \<Rightarrow> inflight" where
  "retire_native_message c m st =
     (let native = (case dget (if_native st) c of
                      None \<Rightarrow> if_native st
                    | Some messages \<Rightarrow> index_set (if_native st) c (dpop messages m));
          retired = evict_oldest MAX_NATIVE_RETIRED_PER_CONV (dset (inner (if_retired st) c) m ())
      in st\<lparr>if_native := native, if_retired := dset (if_retired st) c retired\<rparr>)"

definition is_codex_message_id :: "string \<Rightarrow> bool" where
  "is_codex_message_id m = startswith m ''codex:''"

definition match_committed_native_message :: "(string \<Rightarrow> string) \<Rightarrow> string \<Rightarrow> string \<Rightarrow> inflight \<Rightarrow> string option" where
  "match_committed_native_message fingerprint c f st =
     map_option fst (find (\<lambda>(m, msg). (nm_final_seen msg \<or> is_codex_message_id m) \<and> fingerprint (concat (nm_parts msg)) = f)
       (inner (if_native st) c))"

definition consume_committed_fingerprint ::
    "(string \<Rightarrow> string) \<Rightarrow> rat \<Rightarrow> string \<Rightarrow> string list \<Rightarrow> inflight \<Rightarrow> inflight \<times> bool" where
  "consume_committed_fingerprint fingerprint now c parts st =
     (let committed = inner (if_committed st) c;
          f = fingerprint (concat parts)
      in case dget committed f of
           None \<Rightarrow> (st, False)
         | Some [] \<Rightarrow> (st, False)
         | Some timestamps \<Rightarrow>
             (let fresh = filter (\<lambda>ts. now - NATIVE_COMMITTED_TTL_S \<le> ts) timestamps;
                  rest = tl fresh;
                  committed1 = (if rest \<noteq> [] then dset committed f rest else dpop committed f)
              in (st\<lparr>if_committed := index_set (if_committed st) c committed1\<rparr>, fresh \<noteq> [])))"

definition buffer_committed_fingerprint :: "rat \<Rightarrow> string \<Rightarrow> string \<Rightarrow> inflight \<Rightarrow> inflight" where
  "buffer_committed_fingerprint now c f st =
     (let committed = inner (if_committed st) c;
          old = (case dget committed f of None \<Rightarrow> [] | Some ts \<Rightarrow> ts)
      in st\<lparr>if_committed := dset (if_committed st) c (evict_oldest MAX_NATIVE_COMMITTED_PER_CONV (dset committed f (old @ [now])))\<rparr>)"

section \<open>Events\<close>

text \<open>\<^verbatim>\<open>response.created\<close> and \<^verbatim>\<open>response.in_progress\<close>.\<close>

definition record_lifecycle :: "string \<Rightarrow> pydict \<Rightarrow> inflight \<Rightarrow> inflight" where
  "record_lifecycle c event st =
     (case pget event ''response'' of
        PDict response \<Rightarrow>
          (case pget response ''id'' of
             PStr (i # js) \<Rightarrow>
               (let new_turn = \<lparr>it_response_id = Some (i # js), it_response = Some response, it_parts = []\<rparr>
                in case dget (if_turns st) c of
                     None \<Rightarrow> st\<lparr>if_turns := dset (if_turns st) c new_turn\<rparr>
                   | Some entry \<Rightarrow>
                       if it_response_id entry \<noteq> Some (i # js) then st\<lparr>if_turns := dset (if_turns st) c new_turn\<rparr>
                       else st\<lparr>if_turns := dset (if_turns st) c (entry\<lparr>it_response := Some response\<rparr>)\<rparr>)
           | _ \<Rightarrow> st)
      | _ \<Rightarrow> st)"

text \<open>A chunk of a message with an identifier: \<open>index\<close> is the chunk's number if it has one.\<close>

definition tracked_message :: "string \<Rightarrow> string \<Rightarrow> inflight \<Rightarrow> native_message" where
  "tracked_message c m st =
     (case dget (inner (if_native st) c) m of
        None \<Rightarrow> \<lparr>nm_parts = [], nm_last_index = - 1, nm_final_seen = False\<rparr>
      | Some msg \<Rightarrow> msg)"

definition record_chunk ::
    "(string \<Rightarrow> string) \<Rightarrow> rat \<Rightarrow> string \<Rightarrow> string \<Rightarrow> int option \<Rightarrow> bool \<Rightarrow> string \<Rightarrow> inflight \<Rightarrow> inflight \<times> bool" where
  "record_chunk fingerprint now c m index final delta st =
     (if dhas (inner (if_retired st) c) m then (st, True)
      else if dget (inner (if_native st) c) m = None \<and> delta = [] \<and> \<not> final then (st, False)
      else
        (let msg = tracked_message c m st
         in if (case index of None \<Rightarrow> False | Some i \<Rightarrow> i \<le> nm_last_index msg) then
              (st\<lparr>if_native := index_put (if_native st) c m msg\<rparr>, False)
            else
              (let msg1 = msg\<lparr>nm_last_index := (case index of None \<Rightarrow> nm_last_index msg | Some i \<Rightarrow> i),
                              nm_parts := (if delta = [] then nm_parts msg else nm_parts msg @ [delta]),
                              nm_final_seen := (nm_final_seen msg \<or> final)\<rparr>;
                   st1 = st\<lparr>if_native := index_put (if_native st) c m msg1\<rparr>
               in if \<not> final then (st1, False)
                  else
                    (case consume_committed_fingerprint fingerprint now c (nm_parts msg1) st1 of
                       (st2, matched) \<Rightarrow> if matched then (retire_native_message c m st2, True) else (st2, False)))))"

text \<open>A delta without a message identifier belongs to the turn.\<close>

definition record_turn_delta :: "string \<Rightarrow> string \<Rightarrow> inflight \<Rightarrow> inflight" where
  "record_turn_delta c delta st =
     (if delta = [] then st
      else
        (let entry = (case dget (if_turns st) c of
                        None \<Rightarrow> \<lparr>it_response_id = None, it_response = None, it_parts = []\<rparr>
                      | Some e \<Rightarrow> e)
         in st\<lparr>if_turns := dset (if_turns st) c (entry\<lparr>it_parts := it_parts entry @ [delta]\<rparr>)\<rparr>))"

definition chunk_index :: "pydict \<Rightarrow> int option" where
  "chunk_index event = (case pget event ''index'' of PInt i \<Rightarrow> Some i | _ \<Rightarrow> None)"

definition record_delta :: "(string \<Rightarrow> string) \<Rightarrow> rat \<Rightarrow> string \<Rightarrow> pydict \<Rightarrow> inflight \<Rightarrow> inflight \<times> bool" where
  "record_delta fingerprint now c event st =
     (case pget event ''delta'' of
        PStr delta \<Rightarrow>
          (case pget event ''message_id'' of
             PStr (i # js) \<Rightarrow> record_chunk fingerprint now c (i # js) (chunk_index event) (truthy (pget event ''final'')) delta st
           | _ \<Rightarrow> (record_turn_delta c delta st, False))
      | _ \<Rightarrow> (st, False))"

definition record_done :: "(string \<Rightarrow> string) \<Rightarrow> rat \<Rightarrow> string \<Rightarrow> pydict \<Rightarrow> inflight \<Rightarrow> inflight" where
  "record_done fingerprint now c event st =
     (case pget event ''item'' of
        PDict item \<Rightarrow>
          if pget item ''type'' = PStr ''message'' then
            (case committed_message_text item of
               None \<Rightarrow> st
             | Some t \<Rightarrow>
                 (case match_committed_native_message fingerprint c (fingerprint t) st of
                    Some m \<Rightarrow> retire_native_message c m st
                  | None \<Rightarrow> buffer_committed_fingerprint now c (fingerprint t) st))
          else st
      | _ \<Rightarrow> st)"

definition discard_text :: "string \<Rightarrow> inflight \<Rightarrow> inflight" where
  "discard_text c st =
     st\<lparr>if_turns := dpop (if_turns st) c, if_native := dpop (if_native st) c, if_retired := dpop (if_retired st) c,
        if_committed := dpop (if_committed st) c\<rparr>"

text \<open>The flag says that the event is withheld from the live stream.\<close>

definition record_text :: "(string \<Rightarrow> string) \<Rightarrow> rat \<Rightarrow> string \<Rightarrow> pydict \<Rightarrow> inflight \<Rightarrow> inflight \<times> bool" where
  "record_text fingerprint now c event st =
     (case pget event ''type'' of
        PStr ty \<Rightarrow>
          if ty = ''response.created'' \<or> ty = ''response.in_progress'' then (record_lifecycle c event st, False)
          else if ty = ''response.output_text.delta'' then record_delta fingerprint now c event st
          else if ty = ''response.output_item.done'' then (record_done fingerprint now c event st, False)
          else if ty \<in> set TERMINAL_EVENT_TYPES then (discard_text c st, False)
          else if ty = ''session.status'' then
            (case pget event ''status'' of
               PStr s \<Rightarrow> (if s \<in> set TERMINAL_STATUS_VALUES then st\<lparr>if_turns := dpop (if_turns st) c\<rparr> else st, False)
             | _ \<Rightarrow> (st, False))
          else (st, False)
      | _ \<Rightarrow> (st, False))"

definition native_event :: "string \<Rightarrow> native_message \<Rightarrow> pydict" where
  "native_event m msg =
     [(''type'', PStr ''response.output_text.delta''), (''delta'', PStr (concat (nm_parts msg))), (''message_id'', PStr m),
      (''index'', PInt (nm_last_index msg))]"

definition turn_events :: "inflight_turn \<Rightarrow> pydict list" where
  "turn_events entry =
     (let t = concat (it_parts entry)
      in if t = [] then []
         else (case it_response entry of
                 None \<Rightarrow> []
               | Some r \<Rightarrow> [[(''type'', PStr ''response.created''), (''response'', PDict r)]]) @
              [[(''type'', PStr ''response.output_text.delta''), (''delta'', PStr t)]])"

definition snapshot_text :: "string \<Rightarrow> inflight \<Rightarrow> pydict list" where
  "snapshot_text c st =
     (let native = map (\<lambda>(m, msg). native_event m msg) (filter (\<lambda>(m, msg). concat (nm_parts msg) \<noteq> []) (inner (if_native st) c))
      in if native \<noteq> [] then native
         else (case dget (if_turns st) c of None \<Rightarrow> [] | Some entry \<Rightarrow> turn_events entry))"

definition reset_text :: "string \<Rightarrow> inflight \<Rightarrow> inflight" where
  "reset_text c st =
     (case dget (if_turns st) c of
        None \<Rightarrow> st
      | Some entry \<Rightarrow> st\<lparr>if_turns := dset (if_turns st) c (entry\<lparr>it_parts := []\<rparr>)\<rparr>)"

section \<open>The stream\<close>

datatype stream_item = Ev pydict | Done

text \<open>Both indexes and, per conversation, the queues of its subscribers by their slot.\<close>

record stream =
  sm_text :: inflight
  sm_pending :: pending_state
  sm_subscribers :: "stream_item list index"

definition broadcast :: "string \<Rightarrow> stream_item \<Rightarrow> stream \<Rightarrow> stream" where
  "broadcast c item s =
     (case dget (sm_subscribers s) c of
        None \<Rightarrow> s
      | Some qs \<Rightarrow> s\<lparr>sm_subscribers := dset (sm_subscribers s) c (map (\<lambda>(slot, q). (slot, q @ [item])) qs)\<rparr>)"

definition publish :: "(string \<Rightarrow> string) \<Rightarrow> rat \<Rightarrow> string \<Rightarrow> pydict \<Rightarrow> stream \<Rightarrow> stream" where
  "publish fingerprint now c event s =
     (case record_text fingerprint now c event (sm_text s) of
        (text1, suppress_live) \<Rightarrow>
          (let s1 = s\<lparr>sm_text := text1, sm_pending := record_publish c event (sm_pending s)\<rparr>
           in if suppress_live then s1 else broadcast c (Ev event) s1))"

definition close_stream :: "string \<Rightarrow> stream \<Rightarrow> stream" where
  "close_stream c s = broadcast c Done s"

definition shutdown_all :: "stream \<Rightarrow> stream" where
  "shutdown_all s = s\<lparr>sm_subscribers := map (\<lambda>(c, qs). (c, map (\<lambda>(slot, q). (slot, q @ [Done])) qs)) (sm_subscribers s)\<rparr>"

text \<open>The slot is registered and the snapshot is read in one step; the snapshot is yielded ahead of the queue.\<close>

definition subscribe :: "string \<Rightarrow> string \<Rightarrow> stream \<Rightarrow> stream \<times> pydict list" where
  "subscribe c slot s = (s\<lparr>sm_subscribers := index_put (sm_subscribers s) c slot []\<rparr>, snapshot_text c (sm_text s))"

definition unsubscribe :: "string \<Rightarrow> string \<Rightarrow> stream \<Rightarrow> stream" where
  "unsubscribe c slot s =
     (case dget (sm_subscribers s) c of
        None \<Rightarrow> s
      | Some qs \<Rightarrow> s\<lparr>sm_subscribers := index_set (sm_subscribers s) c (dpop qs slot)\<rparr>)"

end
