(* ===== verification/InflightProperties.thy ===== *)
theory InflightProperties
  imports Inflight
begin

text \<open>
  Properties of the in-flight text index and of the session stream: the index stays bounded and keeps committed messages out,
  a committed message stays hidden, the commit and the last chunk of a message may come in either order, and a subscriber that
  joins in the middle of a turn reads the whole text of the turn.
\<close>

section \<open>Laws of the index\<close>

lemma evict_oldest_drop: "evict_oldest n d = drop (length d - n) d"
proof (induction d)
  case Nil
  then show ?case by (simp add: evict_oldest.simps)
next
  case (Cons x d)
  then show ?case by (cases "length d < n") (simp_all add: evict_oldest.simps [of n "x # d"] Suc_diff_le)
qed

lemma length_evict_oldest: "length (evict_oldest n d) = min n (length d)"
  by (simp add: evict_oldest_drop)

lemma dict_ok_drop: "dict_ok d \<Longrightarrow> dict_ok (drop n d)"
  by (simp add: dict_ok_def drop_map [symmetric])

lemma dget_set: "dict_ok d \<Longrightarrow> dget d k = Some v \<longleftrightarrow> (k, v) \<in> set d"
  by (simp add: dict_ok_def)

lemma dget_drop: "dict_ok d \<Longrightarrow> dget (drop n d) k = Some v \<Longrightarrow> dget d k = Some v"
  using in_set_dropD [of "(k, v)" n d] by (simp add: dget_set dict_ok_drop)

lemma inner_dset [simp]: "inner (dset ix c e) d = (if d = c then e else inner ix d)"
  by (simp add: inner_def)

lemma inner_dpop [simp]: "inner (dpop ix c) d = (if d = c then [] else inner ix d)"
  by (simp add: inner_def)

lemma index_ok_dset: "index_ok ix \<Longrightarrow> dict_ok d \<Longrightarrow> d \<noteq> [] \<Longrightarrow> index_ok (dset ix c d)"
  by (auto simp: index_ok_def split: if_splits)

lemma index_ok_dpop: "index_ok ix \<Longrightarrow> index_ok (dpop ix c)"
  by (auto simp: index_ok_def split: if_splits)

lemma native_after_retire:
  "inner (if_native (retire_native_message c m st)) b = (if b = c then dpop (inner (if_native st) c) m else inner (if_native st) b)"
proof (cases "dget (if_native st) c")
  case None
  then have "inner (if_native st) c = []" by (simp add: inner_def)
  then show ?thesis using None by (simp add: retire_native_message_def Let_def dpop_def)
next
  case (Some messages)
  then have "inner (if_native st) c = messages" by (simp add: inner_def)
  then show ?thesis using Some by (simp add: retire_native_message_def Let_def)
qed

lemma retired_after_retire:
  "inner (if_retired (retire_native_message c m st)) b =
   (if b = c then evict_oldest MAX_NATIVE_RETIRED_PER_CONV (dset (inner (if_retired st) c) m ()) else inner (if_retired st) b)"
  by (simp add: retire_native_message_def Let_def)

lemma retire_frame [simp]:
  "if_turns (retire_native_message c m st) = if_turns st"
  "if_committed (retire_native_message c m st) = if_committed st"
  by (simp_all add: retire_native_message_def Let_def)

section \<open>The invariant\<close>

text \<open>
  The identifiers in flight and the retired ones are disjoint, both per-conversation caps hold, and no dictionary of the index or
  list of time stamps is empty.
\<close>

definition text_ok :: "inflight \<Rightarrow> bool" where
  "text_ok st \<longleftrightarrow>
     index_ok (if_native st) \<and> index_ok (if_retired st) \<and> index_ok (if_committed st) \<and>
     (\<forall>c. length (inner (if_retired st) c) \<le> MAX_NATIVE_RETIRED_PER_CONV) \<and>
     (\<forall>c. length (inner (if_committed st) c) \<le> MAX_NATIVE_COMMITTED_PER_CONV) \<and>
     (\<forall>c m. dget (inner (if_native st) c) m \<noteq> None \<longrightarrow> dget (inner (if_retired st) c) m = None) \<and>
     (\<forall>c f. dget (inner (if_committed st) c) f \<noteq> Some [])"

definition empty_inflight :: inflight where
  "empty_inflight = \<lparr>if_turns = [], if_native = [], if_retired = [], if_committed = []\<rparr>"

lemma text_ok_empty: "text_ok empty_inflight"
  by (simp add: text_ok_def empty_inflight_def index_ok_def)

lemma text_ok_disjoint:
  assumes "text_ok st" and "dhas (inner (if_retired st) c) m"
  shows "\<not> dhas (inner (if_native st) c) m"
proof -
  have "dget (inner (if_native st) c) m \<noteq> None \<longrightarrow> dget (inner (if_retired st) c) m = None" using assms(1) by (simp add: text_ok_def)
  then show ?thesis using assms(2) by (simp add: dhas_iff)
qed

lemma text_ok_turns [simp]: "text_ok (st\<lparr>if_turns := ts\<rparr>) = text_ok st"
  by (simp add: text_ok_def)

lemma dget_evict_unit:
  "dict_ok d \<Longrightarrow> k \<noteq> m \<Longrightarrow> dget d k = None \<Longrightarrow> dget (evict_oldest n (dset d m v)) k = None"
  using dget_drop [of "dset d m v" "length (dset d m v) - n" k]
  by (cases "dget (evict_oldest n (dset d m v)) k") (auto simp: evict_oldest_drop)

lemma evict_not_Nil: "d \<noteq> [] \<Longrightarrow> 0 < n \<Longrightarrow> evict_oldest n d \<noteq> []"
  by (metis length_0_conv length_evict_oldest min_def not_less0)

lemma dict_ok_evict: "dict_ok d \<Longrightarrow> dict_ok (evict_oldest n d)"
  by (simp add: evict_oldest_drop dict_ok_drop)

lemma index_ok_native_retire: "index_ok (if_native st) \<Longrightarrow> index_ok (if_native (retire_native_message c m st))"
  using index_ok_inner [of "if_native st" c]
  by (auto simp: retire_native_message_def Let_def inner_def index_ok_set split: option.splits)

lemma text_ok_retire:
  assumes "text_ok st"
  shows "text_ok (retire_native_message c m st)"
proof -
  let ?r = "evict_oldest MAX_NATIVE_RETIRED_PER_CONV (dset (inner (if_retired st) c) m ())"
  have d: "dict_ok (inner (if_retired st) c)" using assms by (simp add: text_ok_def index_ok_inner)
  have "index_ok (if_retired (retire_native_message c m st))"
    using assms d evict_not_Nil [of "dset (inner (if_retired st) c) m ()" MAX_NATIVE_RETIRED_PER_CONV]
    by (auto simp: retire_native_message_def Let_def text_ok_def MAX_NATIVE_RETIRED_PER_CONV_def intro!: index_ok_dset dict_ok_evict)
  moreover have "dget (inner (if_retired (retire_native_message c m st)) b) k = None"
    if "dget (inner (if_native (retire_native_message c m st)) b) k \<noteq> None" for b k
    using assms that dget_evict_unit [OF d, of k m MAX_NATIVE_RETIRED_PER_CONV "()"]
    by (auto simp: text_ok_def native_after_retire retired_after_retire split: if_splits)
  ultimately show ?thesis
    using assms by (simp add: text_ok_def index_ok_native_retire retired_after_retire length_evict_oldest)
qed

lemma text_ok_put:
  "text_ok st \<Longrightarrow> \<not> dhas (inner (if_retired st) c) m \<Longrightarrow> text_ok (st\<lparr>if_native := index_put (if_native st) c m msg\<rparr>)"
  by (cases "dget (inner (if_retired st) c) m") (auto simp: text_ok_def index_ok_put dhas_iff split: if_splits)

lemma length_dset: "length (dset d k v) = (if dhas d k then length d else Suc (length d))"
  by (induction d) (auto simp: dset_def dhas_def)

lemma length_dpop: "length (dpop d k) \<le> length d"
  by (simp add: dpop_filter)

text \<open>Consuming a fingerprint changes the buffer of its conversation only.\<close>

definition committed_le :: "rat list dict \<Rightarrow> rat list dict \<Rightarrow> bool" where
  "committed_le d e \<longleftrightarrow> dict_ok d \<and> length d \<le> length e \<and> (\<forall>f. dget d f \<noteq> Some [])"

lemma text_ok_committed:
  assumes "text_ok st" and "committed_le d (inner (if_committed st) c)"
  shows "text_ok (st\<lparr>if_committed := index_set (if_committed st) c d\<rparr>)"
proof -
  have "length d \<le> length (inner (if_committed st) c)" using assms(2) by (simp add: committed_le_def)
  moreover have "length (inner (if_committed st) c) \<le> MAX_NATIVE_COMMITTED_PER_CONV" using assms(1) by (simp add: text_ok_def)
  ultimately have "length d \<le> MAX_NATIVE_COMMITTED_PER_CONV" by (rule le_trans)
  then show ?thesis using assms by (auto simp: text_ok_def committed_le_def index_ok_set)
qed

lemma text_ok_consume:
  assumes "text_ok st" and "consume_committed_fingerprint fp now c parts st = (st1, b)"
  shows "text_ok st1"
proof -
  let ?d = "inner (if_committed st) c" and ?f = "fp (concat parts)"
  have ok: "dict_ok ?d" "\<forall>f. dget ?d f \<noteq> Some []" using assms(1) by (auto simp: text_ok_def index_ok_inner)
  consider "st1 = st" | t ts rest where "dget ?d ?f = Some (t # ts)"
      "st1 = st\<lparr>if_committed := index_set (if_committed st) c (if rest \<noteq> [] then dset ?d ?f rest else dpop ?d ?f)\<rparr>"
    using assms(2) by (auto simp: consume_committed_fingerprint_def Let_def split: option.splits list.splits)
  then show ?thesis
  proof cases
    case 1
    then show ?thesis using assms(1) by simp
  next
    case (2 t ts rest)
    have "committed_le (if rest \<noteq> [] then dset ?d ?f rest else dpop ?d ?f) ?d"
      using ok 2(1) by (auto simp: committed_le_def length_dset length_dpop dhas_iff)
    then show ?thesis using assms(1) 2(2) by (simp only: text_ok_committed)
  qed
qed

lemma text_ok_buffer:
  assumes "text_ok st"
  shows "text_ok (buffer_committed_fingerprint now c f st)"
proof -
  let ?d = "inner (if_committed st) c"
  have d: "dict_ok ?d" using assms by (simp add: text_ok_def index_ok_inner)
  define e where "e = dset ?d f ((case dget ?d f of None \<Rightarrow> [] | Some ts \<Rightarrow> ts) @ [now])"
  have e: "dict_ok e" "\<forall>k. dget e k \<noteq> Some []" using d assms by (auto simp: e_def text_ok_def)
  have "dget (evict_oldest MAX_NATIVE_COMMITTED_PER_CONV e) k \<noteq> Some []" for k
    using e dget_drop by (metis evict_oldest_drop)
  moreover have "evict_oldest MAX_NATIVE_COMMITTED_PER_CONV e \<noteq> []"
    by (simp add: e_def evict_not_Nil MAX_NATIVE_COMMITTED_PER_CONV_def)
  ultimately show ?thesis
    using assms e by (auto simp: buffer_committed_fingerprint_def Let_def e_def [symmetric] text_ok_def length_evict_oldest intro!: index_ok_dset dict_ok_evict)
qed

text \<open>What a chunk of a message that is not retired does.\<close>

lemma chunk_outcome:
  assumes "\<not> dhas (inner (if_retired st) c) m" and "record_chunk fp now c m i final delta st = (st2, b)"
  obtains (unchanged) "st2 = st" and "\<not> b"
  | (stored) msg where "st2 = st\<lparr>if_native := index_put (if_native st) c m msg\<rparr>" and "\<not> b"
  | (completed) msg parts st1 where "consume_committed_fingerprint fp now c parts (st\<lparr>if_native := index_put (if_native st) c m msg\<rparr>) = (st1, b)"
      and "st2 = (if b then retire_native_message c m st1 else st1)"
proof -
  define msg where "msg = tracked_message c m st"
  define msg1 where "msg1 = msg\<lparr>nm_last_index := (case i of None \<Rightarrow> nm_last_index msg | Some i \<Rightarrow> i),
    nm_parts := (if delta = [] then nm_parts msg else nm_parts msg @ [delta]), nm_final_seen := (nm_final_seen msg \<or> final)\<rparr>"
  define st1 where "st1 = st\<lparr>if_native := index_put (if_native st) c m msg1\<rparr>"
  obtain st3 b3 where q: "consume_committed_fingerprint fp now c (nm_parts msg1) st1 = (st3, b3)" by fastforce
  have "(st2 = st \<and> \<not> b) \<or> (st2 = st\<lparr>if_native := index_put (if_native st) c m msg\<rparr> \<and> \<not> b) \<or> (st2 = st1 \<and> \<not> b) \<or>
      (b = b3 \<and> st2 = (if b then retire_native_message c m st3 else st3))"
    using assms q unfolding record_chunk_def Let_def msg_def [symmetric] msg1_def [symmetric] st1_def [symmetric]
    by (auto split: if_splits)
  then show thesis using unchanged stored completed q unfolding st1_def by blast
qed

lemma text_ok_chunk:
  assumes "text_ok st"
  shows "text_ok (fst (record_chunk fp now c m i final delta st))"
proof (cases "dhas (inner (if_retired st) c) m")
  case False
  obtain st2 b where r: "record_chunk fp now c m i final delta st = (st2, b)" by fastforce
  from False r show ?thesis
  proof (cases rule: chunk_outcome)
    case (completed msg parts st1)
    then show ?thesis using r text_ok_retire text_ok_consume [OF text_ok_put [OF assms False] completed(1)] by simp
  qed (simp_all add: r assms text_ok_put [OF assms False])
qed (simp add: record_chunk_def assms)

lemma text_ok_discard: "text_ok st \<Longrightarrow> text_ok (discard_text c st)"
  by (auto simp: text_ok_def discard_text_def index_ok_dpop split: if_splits)


lemma text_ok_done: "text_ok st \<Longrightarrow> text_ok (record_done fp now c event st)"
  using text_ok_retire text_ok_buffer by (auto simp: record_done_def split: pyval.splits option.splits)

lemma text_ok_lifecycle: "text_ok st \<Longrightarrow> text_ok (record_lifecycle c event st)"
  by (auto simp: record_lifecycle_def Let_def split: pyval.splits list.splits option.splits)

lemma text_ok_delta: "text_ok st \<Longrightarrow> text_ok (fst (record_delta fp now c event st))"
  using text_ok_chunk by (auto simp: record_delta_def record_turn_delta_def Let_def split: pyval.splits list.splits)

lemma text_ok_record: "text_ok st \<Longrightarrow> text_ok (fst (record_text fp now c event st))"
  by (auto simp: record_text_def text_ok_lifecycle text_ok_delta text_ok_done text_ok_discard split: pyval.splits)

section \<open>Runs\<close>

text \<open>The operations on the index: events from the publish path, the relay's teardown and its reset at a persisted segment.\<close>

datatype text_op = Publish rat string pydict | Discard string | Reset string

fun text_step :: "(string \<Rightarrow> string) \<Rightarrow> text_op \<Rightarrow> inflight \<Rightarrow> inflight" where
  "text_step fp (Publish now c event) st = fst (record_text fp now c event st)"
| "text_step fp (Discard c) st = discard_text c st"
| "text_step fp (Reset c) st = reset_text c st"

lemma text_ok_step: "text_ok st \<Longrightarrow> text_ok (text_step fp x st)"
  by (cases x) (auto simp: text_ok_record text_ok_discard reset_text_def split: option.splits)

lemma text_ok_run: "text_ok st \<Longrightarrow> text_ok (fold (text_step fp) ops st)"
  by (induction ops arbitrary: st) (simp_all add: text_ok_step)

text \<open>An operation that ends the conversation's turn: a terminal event or the teardown.\<close>

fun ends_turn :: "string \<Rightarrow> text_op \<Rightarrow> bool" where
  "ends_turn c (Publish now b event) \<longleftrightarrow> b = c \<and> (\<exists>ty \<in> set TERMINAL_EVENT_TYPES. pget event ''type'' = PStr ty)"
| "ends_turn c (Discard b) \<longleftrightarrow> b = c"
| "ends_turn c (Reset b) \<longleftrightarrow> False"

text \<open>Apart from the end of a turn, an operation retires at most one identifier of a conversation.\<close>

definition retires_one :: "string \<Rightarrow> inflight \<Rightarrow> inflight \<Rightarrow> bool" where
  "retires_one c st st1 \<longleftrightarrow> inner (if_retired st1) c = inner (if_retired st) c \<or>
     (\<exists>m. inner (if_retired st1) c = evict_oldest MAX_NATIVE_RETIRED_PER_CONV (dset (inner (if_retired st) c) m ()))"

lemma retires_oneI:
  "if_retired st1 = if_retired st \<Longrightarrow> retires_one c st st1"
  "if_retired st2 = if_retired st \<Longrightarrow> retires_one c st (retire_native_message b m st2)"
  by (auto simp: retires_one_def retired_after_retire)

lemma consume_retired: "consume_committed_fingerprint fp now c parts st = (st1, b) \<Longrightarrow> if_retired st1 = if_retired st \<and> if_native st1 = if_native st"
  by (auto simp: consume_committed_fingerprint_def Let_def split: option.splits list.splits)

lemma retires_one_chunk: "retires_one c st (fst (record_chunk fp now b m i final delta st))"
proof (cases "dhas (inner (if_retired st) b) m")
  case False
  obtain st2 s where r: "record_chunk fp now b m i final delta st = (st2, s)" by fastforce
  from False r show ?thesis
  proof (cases rule: chunk_outcome)
    case (completed msg parts st1)
    have "if_retired st1 = if_retired st" using consume_retired [OF completed(1)] by simp
    then show ?thesis using r completed(2) by (simp add: retires_oneI)
  qed (simp_all add: r retires_oneI)
qed (simp add: record_chunk_def retires_oneI)

lemma retires_one_delta: "retires_one c st (fst (record_delta fp now b event st))"
  using retires_one_chunk by (auto simp: record_delta_def record_turn_delta_def Let_def retires_oneI split: pyval.splits list.splits)

lemma retires_one_done: "retires_one c st (record_done fp now b event st)"
  by (auto simp: record_done_def buffer_committed_fingerprint_def Let_def retires_oneI split: pyval.splits option.splits)

lemma retires_one_lifecycle: "retires_one c st (record_lifecycle b event st)"
  by (auto simp: record_lifecycle_def Let_def retires_oneI split: pyval.splits list.splits option.splits)

lemma retires_one_discard: "b \<noteq> c \<Longrightarrow> retires_one c st (discard_text b st)"
  by (simp add: retires_one_def discard_text_def)

lemma retires_one_step: "\<not> ends_turn c x \<Longrightarrow> retires_one c st (text_step fp x st)"
proof (cases x)
  case (Publish now b event)
  then show "\<not> ends_turn c x \<Longrightarrow> ?thesis"
    by (auto simp: record_text_def retires_one_lifecycle retires_one_delta retires_one_done retires_one_discard retires_oneI split: pyval.splits)
qed (auto simp: retires_one_discard retires_oneI reset_text_def split: option.splits)


section \<open>A committed message stays hidden\<close>

text \<open>The identifier is retired and at most \<open>n\<close> others were retired after it.\<close>

definition retired_within :: "nat \<Rightarrow> string \<Rightarrow> unit dict \<Rightarrow> bool" where
  "retired_within n m d \<longleftrightarrow> (\<exists>xs ys. d = xs @ (m, ()) # ys \<and> length ys \<le> n)"

lemma dset_unit_same: "dhas d k \<Longrightarrow> dset d k () = d"
  by (induction d) (auto simp: dset_def dhas_def)

lemma retired_within_Suc: "retired_within n m d \<Longrightarrow> retired_within (Suc n) m d"
  unfolding retired_within_def by (metis le_Suc_eq)

lemma retired_within_evict:
  assumes "retired_within n m d" and "length d \<le> limit" and "Suc n < limit"
  shows "retired_within (Suc n) m (evict_oldest limit (dset d k ()))"
proof (cases "dhas d k")
  case True
  then show ?thesis using assms retired_within_Suc by (simp add: dset_unit_same evict_oldest_drop)
next
  case False
  obtain xs ys where d: "d = xs @ (m, ()) # ys" "length ys \<le> n" using assms(1) by (auto simp: retired_within_def)
  have fresh: "dset d k () = xs @ (m, ()) # (ys @ [(k, ())])"
    using dset_fresh [of k d "()"] False by (simp add: d dhas_def image_Un)
  have "length d + 1 - limit \<le> length xs" using assms d by simp
  then have "evict_oldest limit (dset d k ()) = drop (length d + 1 - limit) xs @ (m, ()) # (ys @ [(k, ())])"
    unfolding fresh evict_oldest_drop using d(1) by simp
  then show ?thesis unfolding retired_within_def using d(2) by (metis Suc_le_mono length_append_singleton)
qed

lemma retired_within_step:
  assumes "text_ok st" and "retired_within n m (inner (if_retired st) c)" and "Suc n < MAX_NATIVE_RETIRED_PER_CONV" and "\<not> ends_turn c x"
  shows "retired_within (Suc n) m (inner (if_retired (text_step fp x st)) c)"
proof -
  have "length (inner (if_retired st) c) \<le> MAX_NATIVE_RETIRED_PER_CONV" using assms(1) by (simp add: text_ok_def)
  then show ?thesis
    using retires_one_step [OF assms(4), of st fp] retired_within_evict [OF assms(2) _ assms(3)] retired_within_Suc [OF assms(2)]
    by (auto simp: retires_one_def)
qed

lemma retired_within_run:
  assumes "text_ok st" and "retired_within n m (inner (if_retired st) c)" and "n + length ops < MAX_NATIVE_RETIRED_PER_CONV"
    and "\<forall>x \<in> set ops. \<not> ends_turn c x"
  shows "retired_within (n + length ops) m (inner (if_retired (fold (text_step fp) ops st)) c)"
  using assms
proof (induction ops arbitrary: n st)
  case (Cons x ops)
  have "retired_within (Suc n) m (inner (if_retired (text_step fp x st)) c)"
    using Cons.prems by (intro retired_within_step) auto
  then show ?case using Cons.IH [of "text_step fp x st" "Suc n"] Cons.prems by (simp add: text_ok_step)
qed simp

lemma retired_within_has: "retired_within n m d \<Longrightarrow> dhas d m"
  by (auto simp: retired_within_def dhas_def)

lemma find_entry: "find P d = Some x \<Longrightarrow> P x \<and> x \<in> set d"
  by (induction d) (auto split: if_splits)

lemma match_in_flight:
  assumes "match_committed_native_message fp c f st = Some m"
  shows "dget (inner (if_native st) c) m \<noteq> None"
proof -
  obtain msg where "(m, msg) \<in> set (inner (if_native st) c)"
    using assms find_entry by (fastforce simp: match_committed_native_message_def)
  then show ?thesis using weak_map_of_SomeI by fastforce
qed

lemma retired_within_retire:
  assumes "text_ok st" and "dget (inner (if_native st) c) m \<noteq> None"
  shows "retired_within 0 m (inner (if_retired (retire_native_message c m st)) c)"
proof -
  let ?d = "inner (if_retired st) c"
  have "dget ?d m = None" and l: "length ?d \<le> MAX_NATIVE_RETIRED_PER_CONV" using assms by (auto simp: text_ok_def)
  then have "dset ?d m () = ?d @ [(m, ())]" by (intro dset_fresh) (simp add: map_of_eq_None_iff)
  then show ?thesis using l
    by (auto simp: retired_after_retire evict_oldest_drop retired_within_def MAX_NATIVE_RETIRED_PER_CONV_def)
qed

text \<open>What being retired means to readers: chunks are withheld and the snapshot leaves the message out.\<close>

lemma retired_chunk:
  "dhas (inner (if_retired st) c) m \<Longrightarrow> m \<noteq> [] \<Longrightarrow> pget event ''type'' = PStr ''response.output_text.delta'' \<Longrightarrow>
   pget event ''message_id'' = PStr m \<Longrightarrow> pget event ''delta'' = PStr delta \<Longrightarrow> record_text fp now c event st = (st, True)"
  by (cases m) (simp_all add: record_text_def record_delta_def record_chunk_def)

lemma turn_events_unnamed: "event \<in> set (turn_events entry) \<Longrightarrow> pget event ''message_id'' = PNone"
  by (auto simp: turn_events_def Let_def pget_def split: if_splits option.splits)

lemma pget_native_event: "pget (native_event k msg) ''message_id'' = PStr k"
  by (simp add: native_event_def pget_def)

lemma snapshot_cases:
  assumes "event \<in> set (snapshot_text c st)"
  obtains (native) k msg where "event = native_event k msg" and "(k, msg) \<in> set (inner (if_native st) c)"
  | (turn) entry where "event \<in> set (turn_events entry)"
  using assms by (auto simp: snapshot_text_def Let_def split: if_splits option.splits)

lemma snapshot_named:
  assumes "event \<in> set (snapshot_text c st)" and "pget event ''message_id'' = PStr m"
  shows "dhas (inner (if_native st) c) m"
  using assms(1)
proof (cases rule: snapshot_cases)
  case (native k msg)
  then show ?thesis using assms(2) by (force simp: pget_native_event dhas_def)
next
  case (turn entry)
  then show ?thesis using assms(2) turn_events_unnamed by simp
qed

lemma record_text_done:
  "pget event ''type'' = PStr ''response.output_item.done'' \<Longrightarrow> pget event ''item'' = PDict item \<Longrightarrow>
   pget item ''type'' = PStr ''message'' \<Longrightarrow> committed_message_text item = Some t \<Longrightarrow>
   record_text fp now c event st =
     (case match_committed_native_message fp c (fp t) st of
        Some m \<Rightarrow> retire_native_message c m st
      | None \<Rightarrow> buffer_committed_fingerprint now c (fp t) st, False)"
  by (simp add: record_text_def record_done_def)


section \<open>The commit and the last chunk in either order\<close>

text \<open>The event that commits a message with the text \<open>t\<close>, and a chunk of the message \<open>m\<close>.\<close>

definition commit_event :: "string \<Rightarrow> pydict \<Rightarrow> bool" where
  "commit_event t event \<longleftrightarrow> pget event ''type'' = PStr ''response.output_item.done'' \<and>
     (case pget event ''item'' of
        PDict item \<Rightarrow> pget item ''type'' = PStr ''message'' \<and> committed_message_text item = Some t
      | _ \<Rightarrow> False)"

definition chunk_event :: "string \<Rightarrow> string \<Rightarrow> pydict \<Rightarrow> bool" where
  "chunk_event m delta event \<longleftrightarrow> m \<noteq> [] \<and> pget event ''type'' = PStr ''response.output_text.delta'' \<and>
     pget event ''message_id'' = PStr m \<and> pget event ''delta'' = PStr delta"

lemma record_commit:
  "commit_event t event \<Longrightarrow> record_text fp now c event st =
     (case match_committed_native_message fp c (fp t) st of
        Some m \<Rightarrow> retire_native_message c m st
      | None \<Rightarrow> buffer_committed_fingerprint now c (fp t) st, False)"
  by (auto simp: commit_event_def record_text_done split: pyval.splits)

lemma record_chunk_event:
  "chunk_event m delta event \<Longrightarrow>
   record_text fp now c event st = record_chunk fp now c m (chunk_index event) (truthy (pget event ''final'')) delta st"
  by (cases m) (simp_all add: chunk_event_def record_text_def record_delta_def)

lemma find_dset: "\<forall>x \<in> set d. \<not> P x \<Longrightarrow> P (k, v) \<Longrightarrow> find P (dset d k v) = Some (k, v)"
  by (induction d) (auto simp: dset_def)

lemma dset_dset [simp]: "dset (dset d k v) k w = dset d k w"
  by (simp add: dset_def)

lemma dset_same: "dget d k = Some v \<Longrightarrow> dset d k v = d"
  by (simp add: dset_def update_triv)

lemma dpop_dset: "dget d k = None \<Longrightarrow> dpop (dset d k v) k = d"
  by (simp add: dset_def dpop_def delete_update_same delete_id map_of_eq_None_iff)

text \<open>Restoring the dictionary of a conversation restores the index.\<close>

lemma index_restored: "index_ok ix \<Longrightarrow> index_set (dset ix c e) c (inner ix c) = ix"
  using dget_index [of ix c] by (auto simp: index_set_def dpop_dset dset_same split: if_splits)

lemma consume_absent:
  "dget (inner (if_committed st) c) (fp (concat parts)) = None \<Longrightarrow> consume_committed_fingerprint fp now c parts st = (st, False)"
  by (simp add: consume_committed_fingerprint_def)

lemma consume_buffered:
  assumes "index_ok (if_committed st)" and "dget (inner (if_committed st) c) (fp (concat parts)) = None"
    and "length (inner (if_committed st) c) < MAX_NATIVE_COMMITTED_PER_CONV" and "n2 - NATIVE_COMMITTED_TTL_S \<le> n1"
    and "st1 = buffer_committed_fingerprint n1 c (fp (concat parts)) st"
  shows "consume_committed_fingerprint fp n2 c parts (st1\<lparr>if_native := ms\<rparr>) = (st\<lparr>if_native := ms\<rparr>, True)"
proof -
  let ?d = "inner (if_committed st) c" and ?f = "fp (concat parts)"
  have "dset ?d ?f [n1] = ?d @ [(?f, [n1])]" using assms(2) by (intro dset_fresh) (simp add: map_of_eq_None_iff)
  then have b: "st1 = st\<lparr>if_committed := dset (if_committed st) c (dset ?d ?f [n1])\<rparr>"
    using assms(2,3,5) by (simp add: buffer_committed_fingerprint_def Let_def evict_oldest_drop)
  show ?thesis
    using assms(2,4) index_restored [OF assms(1)] by (simp add: consume_committed_fingerprint_def b Let_def dpop_dset)
qed

text \<open>The state a final chunk with a fresh index leaves in the dictionary, before the committed text is consulted.\<close>

definition completed_message :: "int option \<Rightarrow> string \<Rightarrow> native_message \<Rightarrow> native_message" where
  "completed_message i delta msg =
     msg\<lparr>nm_last_index := (case i of None \<Rightarrow> nm_last_index msg | Some j \<Rightarrow> j),
         nm_parts := (if delta = [] then nm_parts msg else nm_parts msg @ [delta]), nm_final_seen := True\<rparr>"

lemma completed_text: "concat (nm_parts (completed_message i delta msg)) = concat (nm_parts msg) @ delta"
  by (simp add: completed_message_def)

lemma record_final_chunk:
  assumes "\<not> dhas (inner (if_retired st) c) m" and "\<And>j. i = Some j \<Longrightarrow> nm_last_index (tracked_message c m st) < j"
  shows "record_chunk fp now c m i True delta st =
    (let msg = completed_message i delta (tracked_message c m st)
     in case consume_committed_fingerprint fp now c (nm_parts msg) (st\<lparr>if_native := index_put (if_native st) c m msg\<rparr>) of
          (st2, matched) \<Rightarrow> if matched then (retire_native_message c m st2, True) else (st2, False))"
  using assms by (cases i) (simp_all add: record_chunk_def completed_message_def Let_def not_le)

lemma commit_race:
  assumes ok: "text_ok st" and chunk: "chunk_event m delta chunk" and final: "truthy (pget chunk ''final'')"
    and fresh: "\<And>j. chunk_index chunk = Some j \<Longrightarrow> nm_last_index (tracked_message c m st) < j"
    and commit: "commit_event (concat (nm_parts (tracked_message c m st)) @ delta) commit"
    and live: "\<not> dhas (inner (if_retired st) c) m"
    and other: "match_committed_native_message fp c (fp (concat (nm_parts (tracked_message c m st)) @ delta)) st = None"
    and unseen: "dget (inner (if_committed st) c) (fp (concat (nm_parts (tracked_message c m st)) @ delta)) = None"
    and room: "length (inner (if_committed st) c) < MAX_NATIVE_COMMITTED_PER_CONV"
    and soon: "n2 - n1 \<le> NATIVE_COMMITTED_TTL_S"
  shows "\<exists>st1 st2 st3. record_text fp n1 c chunk st = (st1, False) \<and> record_text fp n2 c commit st1 = (st3, False) \<and>
    record_text fp n1 c commit st = (st2, False) \<and> record_text fp n2 c chunk st2 = (st3, True) \<and>
    dhas (inner (if_retired st3) c) m \<and> \<not> dhas (inner (if_native st3) c) m"
proof -
  define msg where "msg = completed_message (chunk_index chunk) delta (tracked_message c m st)"
  define st1 where "st1 = st\<lparr>if_native := index_put (if_native st) c m msg\<rparr>"
  define st2 where "st2 = buffer_committed_fingerprint n1 c (fp (concat (nm_parts msg))) st"
  let ?st3 = "retire_native_message c m st1"
  have t: "concat (nm_parts (tracked_message c m st)) @ delta = concat (nm_parts msg)" by (simp add: msg_def completed_text)
  note [simp] = record_chunk_event [OF chunk] record_commit [OF commit, unfolded t] final
  have same: "inner (if_retired st2) c = inner (if_retired st) c" "if_native st2 = if_native st" "tracked_message c m st2 = tracked_message c m st"
    by (simp_all add: st2_def buffer_committed_fingerprint_def Let_def tracked_message_def)
  have a1: "record_text fp n1 c chunk st = (st1, False)"
    using record_final_chunk [of st c m "chunk_index chunk" fp n1 delta] live fresh unseen consume_absent [of st1 c fp "nm_parts msg" n1]
    by (simp add: Let_def t msg_def [symmetric] st1_def [symmetric]) (simp add: st1_def)
  have nomatch: "\<forall>x \<in> set (inner (if_native st) c).
      \<not> (case x of (k, msg') \<Rightarrow> (nm_final_seen msg' \<or> is_codex_message_id k) \<and> fp (concat (nm_parts msg')) = fp (concat (nm_parts msg)))"
    using other by (auto simp: match_committed_native_message_def find_None_iff t)
  have "match_committed_native_message fp c (fp (concat (nm_parts msg))) st1 = Some m"
    using find_dset [OF nomatch, of m msg] by (simp add: match_committed_native_message_def st1_def msg_def completed_message_def)
  then have a2: "record_text fp n2 c commit st1 = (?st3, False)" by simp
  have b1: "record_text fp n1 c commit st = (st2, False)" using other by (simp add: t st2_def)
  have "index_ok (if_committed st)" using ok by (simp add: text_ok_def)
  then have "consume_committed_fingerprint fp n2 c (nm_parts msg) (st2\<lparr>if_native := index_put (if_native st) c m msg\<rparr>) = (st1, True)"
    unfolding st1_def using unseen room soon by (intro consume_buffered) (simp_all add: t st2_def algebra_simps)
  then have b2: "record_text fp n2 c chunk st2 = (?st3, True)"
    using record_final_chunk [of st2 c m "chunk_index chunk" fp n2 delta] live fresh same by (simp add: Let_def msg_def [symmetric])
  have "dhas (inner (if_retired ?st3) c) m"
    using retired_within_has [OF retired_within_retire [of st1 c m]] text_ok_put [OF ok live] by (simp add: st1_def)
  moreover have "\<not> dhas (inner (if_native ?st3) c) m" by (simp add: native_after_retire dhas_iff)
  ultimately show ?thesis using a1 a2 b1 b2 by blast
qed


section \<open>A subscriber reads the whole turn\<close>

text \<open>The text a list of events carries, and the text and identifier of the turn in the index.\<close>

definition delta_text :: "pydict \<Rightarrow> string" where
  "delta_text event =
     (if pget event ''type'' = PStr ''response.output_text.delta'' then (case pget event ''delta'' of PStr t \<Rightarrow> t | _ \<Rightarrow> []) else [])"

definition item_text :: "stream_item \<Rightarrow> string" where
  "item_text item = (case item of Ev event \<Rightarrow> delta_text event | Done \<Rightarrow> [])"

definition turn_text :: "string \<Rightarrow> inflight \<Rightarrow> string" where
  "turn_text c st = (case dget (if_turns st) c of None \<Rightarrow> [] | Some entry \<Rightarrow> concat (it_parts entry))"

definition turn_id :: "string \<Rightarrow> inflight \<Rightarrow> string option" where
  "turn_id c st = (case dget (if_turns st) c of None \<Rightarrow> None | Some entry \<Rightarrow> it_response_id entry)"

definition event_id :: "pydict \<Rightarrow> string option" where
  "event_id event =
     (case pget event ''response'' of
        PDict response \<Rightarrow> (case pget response ''id'' of PStr (i # js) \<Rightarrow> Some (i # js) | _ \<Rightarrow> None)
      | _ \<Rightarrow> None)"

text \<open>
  An event inside the turn \<open>rid\<close>: it neither ends the turn nor opens another one, and its text has no message identifier.
\<close>

definition within_turn :: "string option \<Rightarrow> pydict \<Rightarrow> bool" where
  "within_turn rid event \<longleftrightarrow>
     (case pget event ''type'' of
        PStr ty \<Rightarrow>
          ty \<notin> set TERMINAL_EVENT_TYPES \<and>
          (ty = ''session.status'' \<longrightarrow> (\<forall>s \<in> set TERMINAL_STATUS_VALUES. pget event ''status'' \<noteq> PStr s)) \<and>
          (ty = ''response.created'' \<or> ty = ''response.in_progress'' \<longrightarrow> event_id event = None \<or> event_id event = rid) \<and>
          (ty = ''response.output_text.delta'' \<longrightarrow> (\<forall>i js. pget event ''message_id'' \<noteq> PStr (i # js)))
      | _ \<Rightarrow> True)"

text \<open>The index seen from one conversation.\<close>

definition same_view :: "string \<Rightarrow> inflight \<Rightarrow> inflight \<Rightarrow> bool" where
  "same_view c st st1 \<longleftrightarrow> dget (if_turns st1) c = dget (if_turns st) c \<and> inner (if_native st1) c = inner (if_native st) c"

lemma same_view_refl [simp]: "same_view c st st"
  by (simp add: same_view_def)

lemma same_view_retire: "b \<noteq> c \<Longrightarrow> same_view c st (retire_native_message b m st)"
  by (simp add: same_view_def native_after_retire)

lemma same_view_chunk:
  assumes "b \<noteq> c"
  shows "same_view c st (fst (record_chunk fp now b m i final delta st))"
proof (cases "dhas (inner (if_retired st) b) m")
  case False
  obtain st2 s where r: "record_chunk fp now b m i final delta st = (st2, s)" by fastforce
  from False r show ?thesis
  proof (cases rule: chunk_outcome)
    case (completed msg parts st1)
    have "if_turns st1 = if_turns st" using completed(1) 
      by (auto simp: consume_committed_fingerprint_def Let_def split: option.splits list.splits)
    then show ?thesis using r assms completed(2) consume_retired [OF completed(1)] by (simp add: same_view_def native_after_retire)
  qed (use assms in \<open>auto simp: r same_view_def\<close>)
qed (simp add: record_chunk_def)

lemma same_view_delta: "b \<noteq> c \<Longrightarrow> same_view c st (fst (record_delta fp now b event st))"
  using same_view_chunk
  by (auto simp: record_delta_def record_turn_delta_def Let_def split: pyval.splits list.splits) (simp_all add: same_view_def)

lemma same_view_done: "b \<noteq> c \<Longrightarrow> same_view c st (record_done fp now b event st)"
  using same_view_retire
  by (auto simp: record_done_def buffer_committed_fingerprint_def Let_def split: pyval.splits option.splits) (simp_all add: same_view_def)

lemma same_view_lifecycle: "b \<noteq> c \<Longrightarrow> same_view c st (record_lifecycle b event st)"
  by (auto simp: record_lifecycle_def Let_def same_view_def split: pyval.splits list.splits option.splits)

lemma same_view_record: "b \<noteq> c \<Longrightarrow> same_view c st (fst (record_text fp now b event st))"
  by (auto simp: record_text_def same_view_lifecycle same_view_delta same_view_done split: pyval.splits)
    (simp_all add: same_view_def discard_text_def)

lemma turn_delta:
  "turn_text c (record_turn_delta c delta st) = turn_text c st @ delta"
  "turn_id c (record_turn_delta c delta st) = turn_id c st"
  "if_native (record_turn_delta c delta st) = if_native st"
  by (simp_all add: record_turn_delta_def Let_def turn_text_def turn_id_def split: option.splits)

lemma turn_lifecycle:
  assumes "event_id event = None \<or> event_id event = turn_id c st"
  shows "turn_text c (record_lifecycle c event st) = turn_text c st" and "turn_id c (record_lifecycle c event st) = turn_id c st"
    and "if_native (record_lifecycle c event st) = if_native st"
  using assms
  by (auto simp: record_lifecycle_def Let_def turn_text_def turn_id_def event_id_def split: pyval.splits list.splits option.splits)

lemma turn_done:
  assumes "inner (if_native st) c = []"
  shows "if_turns (record_done fp now c event st) = if_turns st" and "if_native (record_done fp now c event st) = if_native st"
  using assms
  by (auto simp: record_done_def match_committed_native_message_def buffer_committed_fingerprint_def Let_def split: pyval.splits option.splits)

lemma one_of_five:
  obtains "x = a \<or> x = b" | "x = c" | "x = d" | "x = e" | "x \<notin> {a, b, c, d, e}"
  by blast

lemma record_within_turn:
  assumes "within_turn (turn_id c st) event" and "inner (if_native st) c = []"
  shows "\<exists>st1. record_text fp now c event st = (st1, False) \<and> inner (if_native st1) c = [] \<and> turn_id c st1 = turn_id c st \<and>
    turn_text c st1 = turn_text c st @ delta_text event"
proof (cases "pget event ''type''")
  case (PStr ty)
  show ?thesis
  proof (cases rule: one_of_five [where x = ty and a = "''response.created''" and b = "''response.in_progress''" and c = "''response.output_text.delta''"
      and d = "''response.output_item.done''" and e = "''session.status''"])
    case 1
    then have "event_id event = None \<or> event_id event = turn_id c st" using assms(1) PStr by (auto simp: within_turn_def)
    from turn_lifecycle [OF this]
    have "inner (if_native (record_lifecycle c event st)) c = []" "turn_id c (record_lifecycle c event st) = turn_id c st"
        "turn_text c (record_lifecycle c event st) = turn_text c st @ delta_text event"
      using 1 PStr assms(2) by (auto simp: delta_text_def)
    then show ?thesis using 1 PStr by (simp add: record_text_def)
  next
    case 2
    then have "\<forall>i js. pget event ''message_id'' \<noteq> PStr (i # js)" using assms(1) PStr by (auto simp: within_turn_def)
    then show ?thesis using 2 PStr assms(2) 
      by (auto simp: record_text_def record_delta_def delta_text_def turn_delta split: pyval.splits list.splits)
  next
    case 3
    then show ?thesis using PStr assms(2) turn_done [OF assms(2), of fp now event]
      by (simp add: record_text_def delta_text_def turn_text_def turn_id_def)
  next
    case 4
    then show ?thesis using PStr assms by (auto simp: record_text_def delta_text_def within_turn_def TERMINAL_EVENT_TYPES_def split: pyval.splits)
  next
    case 5
    then show ?thesis using PStr assms by (auto simp: record_text_def delta_text_def within_turn_def)
  qed
qed (simp_all add: record_text_def delta_text_def assms)


text \<open>The operations of the stream, and the events they publish on a conversation.\<close>

datatype stream_op = Pub rat string pydict | Subscribe string string | Unsubscribe string string | Close string

fun stream_step :: "(string \<Rightarrow> string) \<Rightarrow> stream_op \<Rightarrow> stream \<Rightarrow> stream" where
  "stream_step fp (Pub now b event) s = publish fp now b event s"
| "stream_step fp (Subscribe b slot) s = fst (subscribe b slot s)"
| "stream_step fp (Unsubscribe b slot) s = unsubscribe b slot s"
| "stream_step fp (Close b) s = close_stream b s"

fun published_on :: "string \<Rightarrow> stream_op list \<Rightarrow> pydict list" where
  "published_on c [] = []"
| "published_on c (Pub now b event # ops) = (if b = c then [event] else []) @ published_on c ops"
| "published_on c (x # ops) = published_on c ops"

text \<open>An operation during a turn that leaves the subscriber alone: other conversations and subscribers do as they like.\<close>

fun undisturbed :: "string \<Rightarrow> string \<Rightarrow> string option \<Rightarrow> stream_op \<Rightarrow> bool" where
  "undisturbed c slot rid (Pub now b event) \<longleftrightarrow> (b = c \<longrightarrow> within_turn rid event)"
| "undisturbed c slot rid (Subscribe b sl) \<longleftrightarrow> (b, sl) \<noteq> (c, slot)"
| "undisturbed c slot rid (Unsubscribe b sl) \<longleftrightarrow> (b, sl) \<noteq> (c, slot)"
| "undisturbed c slot rid (Close b) \<longleftrightarrow> b \<noteq> c"

definition queue_of :: "string \<Rightarrow> string \<Rightarrow> stream \<Rightarrow> stream_item list option" where
  "queue_of c slot s = dget (inner (sm_subscribers s) c) slot"

lemma broadcast_text [simp]: "sm_text (broadcast c item s) = sm_text s"
  by (simp add: broadcast_def split: option.splits)

lemma map_of_map_queue: "map_of (map (\<lambda>(slot, q). (slot, f q)) qs) slot = map_option f (map_of qs slot)"
  by (induction qs) auto

lemma queue_broadcast:
  "queue_of c slot (broadcast b item s) = (if b = c then map_option (\<lambda>q. q @ [item]) (queue_of c slot s) else queue_of c slot s)"
  by (auto simp: queue_of_def broadcast_def inner_def map_of_map_queue split: option.splits)

lemma inner_Some: "dget ix c = Some d \<Longrightarrow> inner ix c = d"
  by (simp add: inner_def)

lemma queue_others:
  "(b, sl) \<noteq> (c, slot) \<Longrightarrow> queue_of c slot (fst (subscribe b sl s)) = queue_of c slot s"
  "(b, sl) \<noteq> (c, slot) \<Longrightarrow> queue_of c slot (unsubscribe b sl s) = queue_of c slot s"
  by (auto simp: queue_of_def subscribe_def unsubscribe_def inner_Some split: option.splits)

text \<open>The subscriber has the turn's text: what it was sent first, followed by its queue.\<close>

definition reads_turn :: "string \<Rightarrow> string \<Rightarrow> string option \<Rightarrow> string \<Rightarrow> stream_item list \<Rightarrow> stream \<Rightarrow> bool" where
  "reads_turn c slot rid sent q s \<longleftrightarrow>
     queue_of c slot s = Some q \<and> inner (if_native (sm_text s)) c = [] \<and> turn_id c (sm_text s) = rid \<and>
     turn_text c (sm_text s) = sent @ concat (map item_text q)"

lemma reads_turn_publish:
  assumes "reads_turn c slot rid sent q s" and "b = c \<Longrightarrow> within_turn rid event"
  shows "reads_turn c slot rid sent (q @ (if b = c then [Ev event] else [])) (publish fp now b event s)"
proof (cases "b = c")
  case True
  have v: "within_turn (turn_id c (sm_text s)) event" "inner (if_native (sm_text s)) c = []"
    using assms True by (simp_all add: reads_turn_def)
  obtain st1 where "record_text fp now c event (sm_text s) = (st1, False)" "inner (if_native st1) c = []"
      "turn_id c st1 = turn_id c (sm_text s)" "turn_text c st1 = turn_text c (sm_text s) @ delta_text event"
    using record_within_turn [OF v, of fp now] by blast
  then show ?thesis
    using assms(1) True by (simp add: publish_def Let_def reads_turn_def queue_broadcast item_text_def) (simp add: queue_of_def)
next
  case False
  obtain st1 w where r: "record_text fp now b event (sm_text s) = (st1, w)" by fastforce
  then have "same_view c (sm_text s) st1" using same_view_record [OF False, of "sm_text s" fp now event] by simp
  then show ?thesis
    using assms(1) False by (simp add: publish_def Let_def r reads_turn_def queue_broadcast same_view_def turn_id_def turn_text_def)
      (simp add: queue_of_def)
qed

lemma reads_turn_step:
  assumes "reads_turn c slot rid sent q s" and "undisturbed c slot rid x"
  shows "reads_turn c slot rid sent (q @ map Ev (published_on c [x])) (stream_step fp x s)"
proof (cases x)
  case (Pub now b event)
  then show ?thesis using assms reads_turn_publish [OF assms(1), of b event fp now] by (auto split: if_splits)
next
  case (Subscribe b sl)
  then have "queue_of c slot (stream_step fp x s) = queue_of c slot s" using assms(2) queue_others(1) [of b sl c slot s] by simp
  then show ?thesis using assms(1) Subscribe by (simp add: reads_turn_def subscribe_def)
next
  case (Unsubscribe b sl)
  then have "queue_of c slot (stream_step fp x s) = queue_of c slot s" using assms(2) queue_others(2) [of b sl c slot s] by simp
  then show ?thesis using assms(1) Unsubscribe by (simp add: reads_turn_def unsubscribe_def split: option.splits)
next
  case (Close b)
  then show ?thesis using assms by (simp add: reads_turn_def close_stream_def queue_broadcast)
qed

lemma reads_turn_run:
  assumes "reads_turn c slot rid sent q s" and "\<forall>x \<in> set ops. undisturbed c slot rid x"
  shows "reads_turn c slot rid sent (q @ map Ev (published_on c ops)) (fold (stream_step fp) ops s)"
  using assms
proof (induction ops arbitrary: q s)
  case (Cons x ops)
  have "published_on c (x # ops) = published_on c [x] @ published_on c ops" by (cases x) simp_all
  then show ?case using Cons.IH [OF reads_turn_step [OF Cons.prems(1), of x fp]] Cons.prems(2) by simp
qed simp

lemma snapshot_turn:
  assumes "inner (if_native st) c = []"
  shows "concat (map delta_text (snapshot_text c st)) = turn_text c st"
  using assms
  by (auto simp: snapshot_text_def turn_text_def turn_events_def Let_def delta_text_def pget_def split: option.splits)


section \<open>Properties\<close>

text \<open>
  C26: Whatever events, teardowns and resets reach the in-flight text index, no message is both in flight and retired, at most 256 retired identifiers and at most
  256 committed fingerprints are kept per conversation, and no conversation keeps an empty dictionary.
\<close>

theorem inflight_index_bounded:
  "let st = fold (text_step fp) ops empty_inflight
   in (\<forall>c m. \<not> (dhas (inner (if_native st) c) m \<and> dhas (inner (if_retired st) c) m)) \<and>
      (\<forall>c. length (inner (if_retired st) c) \<le> 256 \<and> length (inner (if_committed st) c) \<le> 256) \<and>
      index_ok (if_native st) \<and> index_ok (if_retired st) \<and> index_ok (if_committed st)"
proof -
  have "text_ok (fold (text_step fp) ops empty_inflight)" by (rule text_ok_run [OF text_ok_empty])
  then show ?thesis
    by (auto simp: text_ok_def Let_def dhas_iff MAX_NATIVE_RETIRED_PER_CONV_def MAX_NATIVE_COMMITTED_PER_CONV_def)
qed

text \<open>
  C25: Once a message that is in flight has been committed, then through fewer than 256 further operations that do not end the turn, no snapshot of the conversation shows it
  and a late chunk of it changes neither the index nor the queue of any subscriber.
\<close>

theorem committed_message_stays_hidden:
  assumes "text_ok st" and "commit_event t event" and "match_committed_native_message fp c (fp t) st = Some m"
    and "length later < 256" and "\<forall>x \<in> set later. \<not> ends_turn c x"
    and "sm_text s = fold (text_step fp) later (fst (record_text fp now c event st))"
  shows "(\<forall>e \<in> set (snapshot_text c (sm_text s)). pget e ''message_id'' \<noteq> PStr m) \<and>
    (\<forall>delta e n. chunk_event m delta e \<longrightarrow> sm_text (publish fp n c e s) = sm_text s \<and> sm_subscribers (publish fp n c e s) = sm_subscribers s)"
proof -
  have st1: "fst (record_text fp now c event st) = retire_native_message c m st"
    using assms(3) record_commit [OF assms(2)] by simp
  have "retired_within 0 m (inner (if_retired (retire_native_message c m st)) c)"
    by (rule retired_within_retire [OF assms(1) match_in_flight [OF assms(3)]])
  from retired_within_run [OF text_ok_retire [OF assms(1)] this _ assms(5), of fp]
  have hid: "dhas (inner (if_retired (sm_text s)) c) m"
    using assms(4) by (intro retired_within_has) (simp add: st1 assms(6) MAX_NATIVE_RETIRED_PER_CONV_def)
  have ok: "text_ok (sm_text s)" unfolding assms(6) st1 by (intro text_ok_run text_ok_retire assms(1))
  then have "\<not> dhas (inner (if_native (sm_text s)) c) m" using hid text_ok_disjoint by simp
  moreover have "record_text fp n c e (sm_text s) = (sm_text s, True)" if "chunk_event m delta e" for n e delta
    using hid that by (simp add: record_chunk_event record_chunk_def)
  ultimately show ?thesis using snapshot_named by (auto simp: publish_def)
qed

text \<open>
  The commit of a message and its final chunk may be published in either order within ten seconds: both orders leave the same index, in which the message is retired and not in flight;
  when the commit came first, the chunk is withheld from the live stream.
\<close>

theorem commit_and_final_chunk_commute:
  assumes "text_ok st" and "chunk_event m delta chunk" and "truthy (pget chunk ''final'')"
    and "\<And>j. chunk_index chunk = Some j \<Longrightarrow> nm_last_index (tracked_message c m st) < j"
    and "commit_event (concat (nm_parts (tracked_message c m st)) @ delta) commit"
    and "\<not> dhas (inner (if_retired st) c) m"
    and "match_committed_native_message fp c (fp (concat (nm_parts (tracked_message c m st)) @ delta)) st = None"
    and "dget (inner (if_committed st) c) (fp (concat (nm_parts (tracked_message c m st)) @ delta)) = None"
    and "length (inner (if_committed st) c) < MAX_NATIVE_COMMITTED_PER_CONV"
    and "n2 - n1 \<le> NATIVE_COMMITTED_TTL_S"
  shows "\<exists>st1 st2 st3. record_text fp n1 c chunk st = (st1, False) \<and> record_text fp n2 c commit st1 = (st3, False) \<and>
    record_text fp n1 c commit st = (st2, False) \<and> record_text fp n2 c chunk st2 = (st3, True) \<and>
    dhas (inner (if_retired st3) c) m \<and> \<not> dhas (inner (if_native st3) c) m"
  using commit_race [OF assms] .



section \<open>Concrete runs\<close>

definition hi_chunk :: pydict where
  "hi_chunk = [(''type'', PStr ''response.output_text.delta''), (''message_id'', PStr ''m1''), (''index'', PInt 0), (''delta'', PStr ''Hi''),
     (''final'', PBool True)]"

definition hi_commit :: pydict where
  "hi_commit = [(''type'', PStr ''response.output_item.done''),
     (''item'', PDict [(''type'', PStr ''message''), (''content'', PList [PDict [(''type'', PStr ''output_text''), (''text'', PStr ''Hi'')]])])]"

definition hi_shown :: inflight where
  "hi_shown = fst (record_text id 1 ''c'' hi_chunk empty_inflight)"

definition went_idle :: pydict where
  "went_idle = [(''type'', PStr ''session.status''), (''status'', PStr ''idle'')]"

definition one_reader :: "inflight \<Rightarrow> stream" where
  "one_reader st = \<lparr>sm_text = st, sm_pending = \<lparr>pn_index = [], pn_observed = False, pn_log = []\<rparr>, sm_subscribers = [(''c'', [(''q'', [])])]\<rparr>"

definition word_delta :: "string \<Rightarrow> pydict" where
  "word_delta w = [(''type'', PStr ''response.output_text.delta''), (''delta'', PStr w)]"

lemma hi_events: "chunk_event ''m1'' ''Hi'' hi_chunk" "commit_event ''Hi'' hi_commit" "chunk_index hi_chunk = Some 0" "truthy (pget hi_chunk ''final'')"
  by (simp_all add: chunk_event_def commit_event_def hi_chunk_def hi_commit_def pget_def committed_message_text_def block_text_def chunk_index_def
    List.map_filter_def Let_def)

lemma hi_shown_ok: "text_ok hi_shown"
  unfolding hi_shown_def by (rule text_ok_record [OF text_ok_empty])

lemma hi_shown_native: "if_native hi_shown = [(''c'', [(''m1'', \<lparr>nm_parts = [''Hi''], nm_last_index = 0, nm_final_seen = True\<rparr>)])]"
  by (simp add: hi_shown_def record_chunk_event [OF hi_events(1)] hi_events empty_inflight_def record_chunk_def tracked_message_def dhas_def
    consume_committed_fingerprint_def Let_def index_put_def dset_def)

lemma empty_tracked: "tracked_message c m empty_inflight = \<lparr>nm_parts = [], nm_last_index = - 1, nm_final_seen = False\<rparr>"
  by (simp add: tracked_message_def empty_inflight_def)

theorem committed_message_stays_hidden_witness:
  "commit_event ''Hi'' hi_commit \<and> text_ok hi_shown \<and> match_committed_native_message id ''c'' (id ''Hi'') hi_shown = Some ''m1'' \<and>
   sm_subscribers (publish id 3 ''c'' hi_chunk (one_reader (fold (text_step id) [Publish 2 ''c'' went_idle] (fst (record_text id 2 ''c'' hi_commit hi_shown))))) =
     [(''c'', [(''q'', [])])]"
proof -
  have m: "match_committed_native_message id ''c'' (id ''Hi'') hi_shown = Some ''m1''"
    by (simp add: match_committed_native_message_def hi_shown_native inner_def)
  have "\<forall>x \<in> set [Publish 2 ''c'' went_idle]. \<not> ends_turn ''c'' x"
    by (simp add: TERMINAL_EVENT_TYPES_def went_idle_def pget_def)
  from committed_message_stays_hidden [OF hi_shown_ok hi_events(2) m _ this, where now = 2,
      of "one_reader (fold (text_step id) [Publish 2 ''c'' went_idle] (fst (record_text id 2 ''c'' hi_commit hi_shown)))"]
  show ?thesis using m hi_events hi_shown_ok by (auto simp: one_reader_def)
qed

theorem commit_and_final_chunk_commute_witness:
  "chunk_event ''m1'' ''Hi'' hi_chunk \<and> commit_event ''Hi'' hi_commit \<and> text_ok empty_inflight \<and>
   (\<exists>st2 st3. record_text id 1 ''c'' hi_commit empty_inflight = (st2, False) \<and> record_text id 3 ''c'' hi_chunk st2 = (st3, True))"
proof -
  have c: "commit_event (concat (nm_parts (tracked_message ''c'' ''m1'' empty_inflight)) @ ''Hi'') hi_commit" by (simp add: empty_tracked hi_events)
  have "\<exists>st1 st2 st3. record_text id 1 ''c'' hi_chunk empty_inflight = (st1, False) \<and> record_text id 3 ''c'' hi_commit st1 = (st3, False) \<and>
    record_text id 1 ''c'' hi_commit empty_inflight = (st2, False) \<and> record_text id 3 ''c'' hi_chunk st2 = (st3, True) \<and>
    dhas (inner (if_retired st3) ''c'') ''m1'' \<and> \<not> dhas (inner (if_native st3) ''c'') ''m1''"
    by (rule commit_and_final_chunk_commute [OF text_ok_empty hi_events(1) hi_events(4) _ c])
      (simp_all add: hi_events empty_inflight_def tracked_message_def dhas_def match_committed_native_message_def
        MAX_NATIVE_COMMITTED_PER_CONV_def NATIVE_COMMITTED_TTL_S_def)
  then show ?thesis using hi_events text_ok_empty by blast
qed



end
