(* ===== verification/Compaction.thy ===== *)
theory Compaction
  imports SessionRuns Pricing
begin

text \<open>
  Compaction of the history a model is given (\<^verbatim>\<open>runtime/compaction.py\<close>, \<^verbatim>\<open>llms/summarize.py\<close>), the prompt it works on
  (\<^verbatim>\<open>runtime/prompt.py\<close>) and the loading and persisting of compacted histories (\<^verbatim>\<open>runtime/workflow.py\<close>). The token encodings
  (tiktoken), the JSON writer, the model call and the decoding of stored payloads (pydantic) are arguments. Messages are JSON values, so a deep copy through JSON
  is the message itself.
\<close>

section \<open>Items\<close>

datatype item_data =
    MessageData string "pyval list" "string option"
  | FunctionCallData string string string
  | FunctionCallOutputData string string
  | NativeToolData pydict
  | ReasoningData
  | CompactionData string string "string option" int "pydict list option"
  | ErrorData
  | ResourceEventData
  | RoutingDecisionData
  | SlashCommandData
  | TerminalCommandData

text \<open>\<^verbatim>\<open>ITEM_TYPE_TO_DATA_CLS\<close>: an item's type is the one of its payload, as its validator demands.\<close>

fun data_type :: "item_data \<Rightarrow> string" where
  "data_type (MessageData role blocks agent) = ''message''"
| "data_type (FunctionCallData call_id name arguments) = ''function_call''"
| "data_type (FunctionCallOutputData call_id output) = ''function_call_output''"
| "data_type (NativeToolData item) = ''native_tool''"
| "data_type ReasoningData = ''reasoning''"
| "data_type (CompactionData summary last_item_id model n_tokens compacted) = ''compaction''"
| "data_type ErrorData = ''error''"
| "data_type ResourceEventData = ''resource_event''"
| "data_type RoutingDecisionData = ''routing_decision''"
| "data_type SlashCommandData = ''slash_command''"
| "data_type TerminalCommandData = ''terminal_command''"

definition NON_CONTENT_ITEM_TYPES :: "string list" where
  "NON_CONTENT_ITEM_TYPES = [''compaction'', ''error'', ''resource_event'', ''routing_decision'', ''slash_command'', ''terminal_command'']"

record conv_item =
  ci_id :: string
  ci_status :: string
  ci_response :: string
  ci_created_at :: int
  ci_data :: item_data

definition ci_type :: "conv_item \<Rightarrow> string" where
  "ci_type item = data_type (ci_data item)"

text \<open>The checks of \<^verbatim>\<open>MessageData\<close> on values that come from elsewhere.\<close>

definition message_data :: "pyval \<Rightarrow> pyval \<Rightarrow> string option \<Rightarrow> item_data res" where
  "message_data role body agent =
     (case (role, body) of
        (PStr r, PList blocks) \<Rightarrow>
          if r \<noteq> ''user'' \<and> r \<noteq> ''assistant'' then Inl (ValueError ''role'')
          else if \<not> list_all (\<lambda>b. case b of PDict d \<Rightarrow> True | _ \<Rightarrow> False) blocks then Inl (ValueError ''content'')
          else if r = ''assistant'' \<and> agent = None then Inl (ValueError (''assistant messages require '' @ [CHR 39] @ ''agent'' @ [CHR 39]))
          else Inr (MessageData r blocks agent)
      | _ \<Rightarrow> Inl (ValueError ''validation error for MessageData''))"

section \<open>The prompt\<close>

definition prompt_block :: "pyval \<Rightarrow> pyval" where
  "prompt_block b =
     (case b of
        PDict d \<Rightarrow> if pget d ''type'' = PStr ''output_text'' \<and> dhas d ''annotations'' then PDict (filter (\<lambda>(k, v). k \<noteq> ''annotations'') d) else b
      | _ \<Rightarrow> b)"

fun item_input :: "item_data \<Rightarrow> pydict option" where
  "item_input (MessageData role blocks agent) = Some [(''role'', PStr role), (''content'', PList (map prompt_block blocks))]"
| "item_input (FunctionCallData call_id name arguments) =
     Some [(''type'', PStr ''function_call''), (''call_id'', PStr call_id), (''name'', PStr name), (''arguments'', PStr arguments)]"
| "item_input (FunctionCallOutputData call_id output) =
     Some [(''type'', PStr ''function_call_output''), (''call_id'', PStr call_id), (''output'', PStr output)]"
| "item_input (NativeToolData item) = Some item"
| "item_input _ = None"

definition history_to_input_items :: "conv_item list \<Rightarrow> pydict list" where
  "history_to_input_items items = List.map_filter (item_input \<circ> ci_data) items"

record agent_prompt =
  ap_instructions :: "string option"
  ap_skills :: "(string \<times> string) list"

definition build_instructions :: "agent_prompt \<Rightarrow> string option \<Rightarrow> pydict list \<Rightarrow> string" where
  "build_instructions spec per_request tool_schemas =
     (let has_load_skill = list_ex (\<lambda>schema. case pget_default schema ''function'' (PDict []) of
                             PDict f \<Rightarrow> pget f ''name'' = PStr ''load_skill'' | _ \<Rightarrow> False) tool_schemas;
          skill_lines = ''Available skills (use the load_skill tool to load one):'' #
                          map (\<lambda>(name, description). ''- '' @ name @ '': '' @ description) (ap_skills spec);
          parts = (case ap_instructions spec of Some (c # cs) \<Rightarrow> [c # cs] | _ \<Rightarrow> []) @
                  (case per_request of Some (c # cs) \<Rightarrow> [c # cs] | _ \<Rightarrow> []) @
                  (if ap_skills spec \<noteq> [] \<and> has_load_skill then [str_join [CHR 10] skill_lines] else [])
      in if parts \<noteq> [] then str_join [CHR 10, CHR 10] parts else ''You are a helpful assistant.'')"

section \<open>Tokens\<close>

text \<open>The encodings of tiktoken by model and by name, each as the length of its encoding, and the JSON writer.\<close>

record tokenizer =
  tk_encoding_for_model :: "string \<Rightarrow> (string \<Rightarrow> nat) option"
  tk_get_encoding :: "string \<Rightarrow> string \<Rightarrow> nat"
  tk_dumps :: "pyval \<Rightarrow> string"

definition bare_model :: "string \<Rightarrow> string" where
  "bare_model model = (if CHR ''/'' \<in> set model then tl (dropWhile (\<lambda>c. c \<noteq> CHR ''/'') model) else model)"

definition count_tokens :: "tokenizer \<Rightarrow> pydict list \<Rightarrow> string \<Rightarrow> nat" where
  "count_tokens tk messages model =
     (let enc = (case tk_encoding_for_model tk (bare_model model) of Some e \<Rightarrow> e | None \<Rightarrow> tk_get_encoding tk ''cl100k_base'')
      in enc (tk_dumps tk (PList (map PDict messages))))"

section \<open>The recent window\<close>

definition is_assistant_msg :: "conv_item \<Rightarrow> bool" where
  "is_assistant_msg item = (case ci_data item of MessageData role blocks agent \<Rightarrow> role = ''assistant'' | _ \<Rightarrow> False)"

definition is_function_call :: "conv_item \<Rightarrow> bool" where
  "is_function_call item \<longleftrightarrow> ci_type item = ''function_call''"

definition starts_group :: "conv_item \<Rightarrow> bool" where
  "starts_group item \<longleftrightarrow> is_assistant_msg item \<or> is_function_call item"

text \<open>The loop from the end of the history; the second argument is the number of items not visited yet.\<close>

fun recent_scan :: "conv_item list \<Rightarrow> nat \<Rightarrow> int \<Rightarrow> int \<Rightarrow> nat" where
  "recent_scan hist 0 window groups_seen = 0"
| "recent_scan hist (Suc i) window groups_seen =
     (if starts_group (hist ! i) then
        (if window \<le> groups_seen + 1 then i else recent_scan hist i window (groups_seen + 1))
      else recent_scan hist i window groups_seen)"

definition find_recent_boundary :: "conv_item list \<Rightarrow> int \<Rightarrow> nat" where
  "find_recent_boundary hist window =
     (if window \<le> 0 then length hist else recent_scan hist (length hist) window 0)"

definition history_idx_to_msg_idx :: "conv_item list \<Rightarrow> nat \<Rightarrow> nat" where
  "history_idx_to_msg_idx hist n = length (filter (\<lambda>item. ci_type item \<noteq> ''reasoning'') (take n hist))"

section \<open>Layer 1: clearing\<close>

definition TOOL_RESULT_CLEARED :: string where
  "TOOL_RESULT_CLEARED = ''[Previous tool result cleared '' @ [CHR 0xE2, CHR 0x80, CHR 0x94] @ '' re-call tool if needed]''"

definition BINARY_CONTENT_CLEARED :: string where
  "BINARY_CONTENT_CLEARED =
     ''[binary content removed for context management '' @ [CHR 0xE2, CHR 0x80, CHR 0x94] @ '' use file_id to retrieve]''"

text \<open>\<^verbatim>\<open>for i, msg in enumerate(messages): if i >= protect_from: break\<close>\<close>

definition on_prefix :: "nat \<Rightarrow> ('a \<Rightarrow> 'a) \<Rightarrow> 'a list \<Rightarrow> 'a list" where
  "on_prefix n f xs = map f (take n xs) @ drop n xs"

definition on_blocks :: "(pydict \<Rightarrow> pydict) \<Rightarrow> pydict \<Rightarrow> pydict" where
  "on_blocks f msg =
     (case pget msg ''content'' of
        PList blocks \<Rightarrow> dset msg ''content'' (PList (map (\<lambda>b. case b of PDict d \<Rightarrow> PDict (f d) | _ \<Rightarrow> b) blocks))
      | _ \<Rightarrow> msg)"

definition clear_result :: "pydict \<Rightarrow> pydict" where
  "clear_result msg = (if pget msg ''type'' = PStr ''function_call_output'' then dset msg ''output'' (PStr TOOL_RESULT_CLEARED) else msg)"

definition clear_binary :: "pydict \<Rightarrow> pydict" where
  "clear_binary block =
     (if (pget block ''type'' = PStr ''image'' \<or> pget block ''type'' = PStr ''file'') \<and> dhas block ''data''
      then dset block ''data'' (PStr BINARY_CONTENT_CLEARED) else block)"

definition strip_annotations :: "pydict \<Rightarrow> pydict" where
  "strip_annotations block =
     (if pget block ''type'' = PStr ''output_text'' \<and> dhas block ''annotations'' then dpop block ''annotations'' else block)"

definition clear_tool_results :: "pydict list \<Rightarrow> nat \<Rightarrow> pydict list" where
  "clear_tool_results messages n = on_prefix n clear_result messages"

definition clear_binary_content :: "pydict list \<Rightarrow> nat \<Rightarrow> pydict list" where
  "clear_binary_content messages n = on_prefix n (on_blocks clear_binary) messages"

definition strip_output_annotations :: "pydict list \<Rightarrow> nat \<Rightarrow> pydict list" where
  "strip_output_annotations messages n = on_prefix n (on_blocks strip_annotations) messages"

section \<open>Layer 3: truncation\<close>

definition pair_aware_drop_count :: "pydict list \<Rightarrow> nat" where
  "pair_aware_drop_count messages =
     (case messages of
        [] \<Rightarrow> 0
      | [m] \<Rightarrow> 1
      | m # n # ms \<Rightarrow>
          if pget m ''type'' = PStr ''function_call'' \<and> pget n ''type'' = PStr ''function_call_output'' \<and> pget m ''call_id'' = pget n ''call_id''
          then 2 else 1)"

function truncate_oldest :: "tokenizer \<Rightarrow> pydict list \<Rightarrow> int \<Rightarrow> string \<Rightarrow> pydict list" where
  "truncate_oldest tk result budget model =
     (if result \<noteq> [] \<and> budget < int (count_tokens tk result model) then
        (let drop_count = pair_aware_drop_count result
         in if drop_count = 0 then result else truncate_oldest tk (drop drop_count result) budget model)
      else result)"
  by pat_completeness auto
termination
  by (relation "measure (\<lambda>(tk, result, budget, model). length result)") auto

declare truncate_oldest.simps [simp del]

section \<open>Layer 2: summarisation\<close>

definition SUMMARY_REQUEST :: string where
  "SUMMARY_REQUEST =
     ''[This is an automatically generated summary of the prior conversation context. The original messages are available but not included in this prompt for brevity.]'' @
     [CHR 10, CHR 10] @ ''Please provide a summary of our conversation so far.''"

definition SUMMARIZATION_BASE_PROMPT :: string where
  "SUMMARIZATION_BASE_PROMPT =
     ''Summarize the conversation above so that a future assistant can continue'' @ [CHR 10] @
     ''the work without access to the original messages.'' @ [CHR 10, CHR 10] @
     ''Include: the user'' @ [CHR 39] @ ''s goals, key decisions and why they were made, tool'' @ [CHR 10] @
     ''results that matter going forward (paths, values, errors), and any'' @ [CHR 10] @
     ''outstanding commitments or next steps.'' @ [CHR 10, CHR 10] @
     ''Exclude: verbose tool output, redundant exchanges, and intermediate'' @ [CHR 10] @
     ''reasoning that led to a final decision '' @ [CHR 0xE2, CHR 0x80, CHR 0x94] @ '' keep the decision, not the path.'' @ [CHR 10, CHR 10] @
     ''Do not incorporate knowledge from outside this conversation. Do not'' @ [CHR 10] @
     ''invent facts. Write in plain text with no markup.''"

definition SUMMARIZATION_TRIGGER_MESSAGE :: string where
  "SUMMARIZATION_TRIGGER_MESSAGE = ''Produce the summary now, following the instructions in the system message.''"

definition text_block :: "pyval \<Rightarrow> bool" where
  "text_block b = (case b of PDict d \<Rightarrow> pget d ''type'' = PStr ''input_text'' \<or> pget d ''type'' = PStr ''text'' | _ \<Rightarrow> False)"

definition extract_first_text :: "pydict list \<Rightarrow> string" where
  "extract_first_text messages =
     (case messages of
        [] \<Rightarrow> []
      | m # ms \<Rightarrow>
          (case pget m ''content'' of
             PList blocks \<Rightarrow>
               (case find text_block blocks of
                  Some (PDict d) \<Rightarrow> (case pget_default d ''text'' (PStr []) of PStr t \<Rightarrow> t | _ \<Rightarrow> [])
                | _ \<Rightarrow> [])
           | PStr t \<Rightarrow> t
           | _ \<Rightarrow> []))"

definition build_summarization_prompt :: "pydict list \<Rightarrow> string" where
  "build_summarization_prompt messages =
     (if py_in ''[This is an automatically generated summary'' (extract_first_text messages)
      then ''The conversation starts with a summary of earlier context. Incorporate it into your new summary '' @ [CHR 0xE2, CHR 0x80, CHR 0x94] @
        '' do not discard it.'' @ [CHR 10, CHR 10] @ SUMMARIZATION_BASE_PROMPT
      else SUMMARIZATION_BASE_PROMPT)"

definition build_summarization_input :: "pydict list \<Rightarrow> pydict list" where
  "build_summarization_input messages =
     (if messages \<noteq> [] \<and> pget (last messages) ''role'' = PStr ''user'' then messages
      else messages @ [[(''role'', PStr ''user''), (''content'', PStr SUMMARIZATION_TRIGGER_MESSAGE)]])"

text \<open>A response's output items: those with content, and its blocks, those with text.\<close>

definition extract_summary_text :: "string option list option list \<Rightarrow> string" where
  "extract_summary_text output =
     concat (map (\<lambda>item. case item of None \<Rightarrow> [] | Some blocks \<Rightarrow> concat (map (\<lambda>b. case b of Some t \<Rightarrow> t | None \<Rightarrow> []) blocks)) output)"

text \<open>The runner's endpoint, when there is a runner, and the model call: input, instructions and model.\<close>

record summarizer =
  sz_runner :: "(pydict \<Rightarrow> pydict res) option"
  sz_client :: "pydict list \<Rightarrow> string \<Rightarrow> string \<Rightarrow> pydict option \<Rightarrow> string option list option list res"

definition summarize_via_runner_uncached ::
    "(pydict \<Rightarrow> pydict res) \<Rightarrow> pydict list \<Rightarrow> string \<Rightarrow> pydict option \<Rightarrow> string option \<Rightarrow> pydict res" where
  "summarize_via_runner_uncached post messages model connection conversation_id =
     post ([(''messages'', PList (map PDict messages)), (''model'', PStr model)] @
       (case connection of Some (c # cs) \<Rightarrow> [(''connection'', PDict (c # cs))] | _ \<Rightarrow> []) @
       (case conversation_id of Some c \<Rightarrow> [(''session_id'', PStr c)] | None \<Rightarrow> []))"

definition summarize_history_uncached :: "tokenizer \<Rightarrow> summarizer \<Rightarrow> pydict list \<Rightarrow> string \<Rightarrow> pydict option \<Rightarrow> pydict res" where
  "summarize_history_uncached tk sz messages model connection =
     bind_res (sz_client sz (build_summarization_input messages) (build_summarization_prompt messages) model connection) (\<lambda>output.
       let t = extract_summary_text output
       in Inr [(''text'', PStr t), (''token_count'', PInt (int (count_tokens tk [[(''role'', PStr ''assistant''), (''content'', PStr t)]] model)))])"

definition summarize_history :: "tokenizer \<Rightarrow> summarizer \<Rightarrow> pydict list \<Rightarrow> string \<Rightarrow> pydict option \<Rightarrow> string option \<Rightarrow> pydict res" where
  "summarize_history tk sz messages model connection conversation_id =
     (case sz_runner sz of
        Some post \<Rightarrow> summarize_via_runner_uncached post messages model connection conversation_id
      | None \<Rightarrow> summarize_history_uncached tk sz messages model connection)"

record summary_metadata =
  su_text :: pyval
  su_last_item_id :: string
  su_model :: string
  su_token_count :: pyval

definition real_item :: "conv_item \<Rightarrow> bool" where
  "real_item item \<longleftrightarrow> \<not> (endswith (ci_id item) ''_user'' \<or> endswith (ci_id item) ''_assistant'') \<and> \<not> startswith (ci_id item) ''synthetic_''"

definition find_last_summarized_item_id :: "conv_item list \<Rightarrow> nat \<Rightarrow> string option" where
  "find_last_summarized_item_id hist n = map_option ci_id (find real_item (rev (take n hist)))"

definition dict_item :: "pydict \<Rightarrow> string \<Rightarrow> pyval res" where
  "dict_item d k = (case dget d k of Some v \<Rightarrow> Inr v | None \<Rightarrow> Inl (KeyError k))"

definition layer2_input :: "tokenizer \<Rightarrow> pydict list \<Rightarrow> int \<Rightarrow> string \<Rightarrow> pydict list" where
  "layer2_input tk messages budget model =
     (if budget < int (count_tokens tk messages model)
      then clear_binary_content (clear_tool_results messages (length messages)) (length messages)
      else messages)"

definition run_layer2 ::
    "tokenizer \<Rightarrow> summarizer \<Rightarrow> pydict list \<Rightarrow> conv_item list \<Rightarrow> nat \<Rightarrow> nat \<Rightarrow> int \<Rightarrow> string \<Rightarrow> pydict option \<Rightarrow> bool \<Rightarrow> string option
     \<Rightarrow> summary_metadata option res" where
  "run_layer2 tk sz messages hist history_boundary msg_boundary budget model connection fail_on_error conversation_id =
     (case summarize_history tk sz (layer2_input tk (take msg_boundary messages) budget model) model connection conversation_id of
        Inl e \<Rightarrow> if fail_on_error then Inl e else Inr None
      | Inr result \<Rightarrow>
          (case find_last_summarized_item_id hist history_boundary of
             None \<Rightarrow> Inr None
           | Some last_item_id \<Rightarrow>
               bind_res (dict_item result ''text'') (\<lambda>t.
               bind_res (dict_item result ''token_count'') (\<lambda>n.
                 Inr (Some \<lparr>su_text = t, su_last_item_id = last_item_id, su_model = model, su_token_count = n\<rparr>)))))"

definition summary_to_messages :: "summary_metadata \<Rightarrow> pydict list" where
  "summary_to_messages s =
     [[(''role'', PStr ''user''), (''content'', PStr SUMMARY_REQUEST)], [(''role'', PStr ''assistant''), (''content'', su_text s)]]"

section \<open>Compaction\<close>

record compaction_config =
  cc_trigger_threshold :: rat
  cc_recent_window :: int

record compaction_result =
  cr_messages :: "pydict list"
  cr_summary :: "summary_metadata option"
  cr_total_tokens :: "nat option"

definition DEFAULT_TRIGGER_THRESHOLD :: rat where
  "DEFAULT_TRIGGER_THRESHOLD = 4 / 5"

definition DEFAULT_RECENT_WINDOW :: int where
  "DEFAULT_RECENT_WINDOW = 5"

text \<open>\<^verbatim>\<open>int(x)\<close> of a float.\<close>

definition int_of_float :: "rat \<Rightarrow> int" where
  "int_of_float x = (if 0 \<le> x then \<lfloor>x\<rfloor> else \<lceil>x\<rceil>)"

definition compaction_budget :: "compaction_config option \<Rightarrow> int \<Rightarrow> int \<Rightarrow> int" where
  "compaction_budget config context_window system_token_budget =
     int_of_float (of_int context_window * (case config of Some c \<Rightarrow> cc_trigger_threshold c | None \<Rightarrow> DEFAULT_TRIGGER_THRESHOLD)) - system_token_budget"

definition compaction_window :: "compaction_config option \<Rightarrow> int" where
  "compaction_window config = (case config of Some c \<Rightarrow> cc_recent_window c | None \<Rightarrow> DEFAULT_RECENT_WINDOW)"

definition layer1 :: "pydict list \<Rightarrow> nat \<Rightarrow> pydict list" where
  "layer1 messages n = strip_output_annotations (clear_binary_content (clear_tool_results messages n) n) n"

definition in_progress_event :: "string \<Rightarrow> pydict" where
  "in_progress_event task_id = [(''type'', PStr ''response.compaction.in_progress''), (''task_id'', PStr task_id)]"

definition completed_event :: "string \<Rightarrow> nat \<Rightarrow> pydict" where
  "completed_event task_id n =
     [(''type'', PStr ''response.compaction.completed''), (''task_id'', PStr task_id), (''total_tokens'', PInt (int n))]"

text \<open>What the call returns or raises, and the events it publishes on the stream of the conversation.\<close>

definition compact ::
    "tokenizer \<Rightarrow> summarizer \<Rightarrow> pydict list \<Rightarrow> conv_item list \<Rightarrow> compaction_config option \<Rightarrow> int \<Rightarrow> int \<Rightarrow> string \<Rightarrow> string \<Rightarrow> pydict option \<Rightarrow>
     bool \<Rightarrow> bool \<Rightarrow> string option \<Rightarrow> compaction_result res \<times> pydict list" where
  "compact tk sz messages hist config context_window system_token_budget model task_id connection force fail_on_summary_error conversation_id =
     (let budget = compaction_budget config context_window system_token_budget;
          history_boundary = find_recent_boundary hist (compaction_window config);
          msg_boundary = history_idx_to_msg_idx hist history_boundary;
          working = layer1 messages msg_boundary;
          l1_tokens = count_tokens tk working model;
          emit = (\<lambda>e. if conversation_id \<noteq> None \<and> conversation_id \<noteq> Some [] then [e] else [])
      in if \<not> force \<and> int l1_tokens \<le> budget then (Inr \<lparr>cr_messages = working, cr_summary = None, cr_total_tokens = Some l1_tokens\<rparr>, [])
         else
           (case run_layer2 tk sz working hist history_boundary msg_boundary budget model connection fail_on_summary_error conversation_id of
              Inl e \<Rightarrow> (Inl e, emit (in_progress_event task_id))
            | Inr summary \<Rightarrow>
                (let working2 = (case summary of None \<Rightarrow> working | Some s \<Rightarrow> summary_to_messages s @ drop msg_boundary working);
                     compacted_tokens = count_tokens tk working2 model
                 in if summary \<noteq> None \<and> int compacted_tokens \<le> budget then
                      (Inr \<lparr>cr_messages = working2, cr_summary = summary, cr_total_tokens = Some compacted_tokens\<rparr>,
                       emit (in_progress_event task_id) @ emit (completed_event task_id compacted_tokens))
                    else
                      (let truncated = truncate_oldest tk working2 budget model;
                           l3_tokens = count_tokens tk truncated model
                       in (Inr \<lparr>cr_messages = truncated, cr_summary = summary, cr_total_tokens = Some l3_tokens\<rparr>,
                           emit (in_progress_event task_id) @ emit (completed_event task_id l3_tokens))))))"


section \<open>Loading and persisting\<close>

text \<open>
  An item of the store as an entity; \<open>decode\<close> reads its stored payload for its type (JSON and the payload's model), \<open>encode\<close> writes one.
\<close>

definition item_of :: "(string \<Rightarrow> string \<Rightarrow> item_data) \<Rightarrow> item_row \<Rightarrow> conv_item" where
  "item_of decode r =
     \<lparr>ci_id = ir_id r, ci_status = ir_status r, ci_response = ir_response r, ci_created_at = ir_created_at r, ci_data = decode (ir_type r) (ir_data r)\<rparr>"

definition find_latest_compaction_item :: "(string \<Rightarrow> string \<Rightarrow> item_data) \<Rightarrow> sess_db \<Rightarrow> string \<Rightarrow> conv_item option" where
  "find_latest_compaction_item decode db cid =
     (case pg_data (list_items_page db cid 1 None None ''desc'' (Some ''compaction'')) of
        [] \<Rightarrow> None
      | r # rs \<Rightarrow> Some (item_of decode r))"

text \<open>The entity of a message that is not stored; the type a compacted message names must be the one of a message.\<close>

definition compacted_item :: "conv_item \<Rightarrow> nat \<Rightarrow> pydict \<Rightarrow> conv_item res" where
  "compacted_item item i msg =
     bind_res (message_data (pget_default msg ''role'' (PStr ''user'')) (pget_default msg ''content'' (PList [])) None) (\<lambda>d.
       if pget_default msg ''type'' (PStr ''message'') = PStr ''message''
       then Inr \<lparr>ci_id = ci_id item @ ''_compacted_'' @ str_of_nat i, ci_status = ''completed'', ci_response = ci_response item,
                 ci_created_at = ci_created_at item, ci_data = d\<rparr>
       else Inl (ValueError ''item type''))"

fun compacted_items :: "conv_item \<Rightarrow> nat \<Rightarrow> pydict list \<Rightarrow> conv_item list res" where
  "compacted_items item i [] = Inr []"
| "compacted_items item i (msg # msgs) =
     bind_res (compacted_item item i msg) (\<lambda>x. bind_res (compacted_items item (Suc i) msgs) (\<lambda>xs. Inr (x # xs)))"

definition summary_item :: "conv_item \<Rightarrow> string \<Rightarrow> string \<Rightarrow> string \<Rightarrow> string \<Rightarrow> string option \<Rightarrow> conv_item" where
  "summary_item item tail role block_type t agent =
     \<lparr>ci_id = ci_id item @ tail, ci_status = ''completed'', ci_response = ci_response item, ci_created_at = ci_created_at item,
      ci_data = MessageData role [PDict [(''type'', PStr block_type), (''text'', PStr t)]] agent\<rparr>"

definition compaction_to_history_items :: "conv_item \<Rightarrow> conv_item list res" where
  "compaction_to_history_items item =
     (case ci_data item of
        CompactionData summary last_item_id model n_tokens compacted \<Rightarrow>
          (case compacted of
             Some (m # ms) \<Rightarrow> compacted_items item 0 (m # ms)
           | _ \<Rightarrow>
               if model = None then Inl (ValueError (''assistant messages require '' @ [CHR 39] @ ''agent'' @ [CHR 39]))
               else Inr [summary_item item ''_user'' ''user'' ''input_text'' SUMMARY_REQUEST None,
                         summary_item item ''_assistant'' ''assistant'' ''output_text'' summary model])
      | _ \<Rightarrow> Inl (ValueError ''assertion''))"

record loaded_history =
  lh_items :: "conv_item list"
  lh_last_compaction_created_at :: "int option"

definition content_items :: "(string \<Rightarrow> string \<Rightarrow> item_data) \<Rightarrow> item_row list \<Rightarrow> conv_item list" where
  "content_items decode rows = filter (\<lambda>item. ci_type item \<notin> set NON_CONTENT_ITEM_TYPES) (map (item_of decode) rows)"

definition broken_compaction :: "string \<Rightarrow> string \<Rightarrow> bool" where
  "broken_compaction summary last_id \<longleftrightarrow> summary = [] \<or> last_id = [] \<or> startswith last_id ''synthetic_''"

text \<open>\<open>None\<close> is a paging loop that does not end.\<close>

definition load_initial_history :: "(string \<Rightarrow> string \<Rightarrow> item_data) \<Rightarrow> sess_db \<Rightarrow> string \<Rightarrow> loaded_history res option" where
  "load_initial_history decode db cid =
     (let full = map_option (\<lambda>rows. Inr \<lparr>lh_items = content_items decode rows, lh_last_compaction_created_at = None\<rparr>) (fetch_all_items db cid None)
      in case find_latest_compaction_item decode db cid of
           None \<Rightarrow> full
         | Some item \<Rightarrow>
             (case ci_data item of
                CompactionData summary last_id model n_tokens compacted \<Rightarrow>
                  if broken_compaction summary last_id then full
                  else map_option (\<lambda>rows. bind_res (compaction_to_history_items item) (\<lambda>front.
                         Inr \<lparr>lh_items = front @ content_items decode rows, lh_last_compaction_created_at = Some (ci_created_at item)\<rparr>))
                         (fetch_all_items db cid (Some last_id))
              | _ \<Rightarrow> Some (Inl (ValueError ''assertion''))))"

text \<open>The payload of a new compaction item: the summary must be text and the token count a number.\<close>

definition compaction_data :: "summary_metadata \<Rightarrow> item_data res" where
  "compaction_data s =
     (case (su_text s, su_token_count s) of
        (PStr t, PInt n) \<Rightarrow> Inr (CompactionData t (su_last_item_id s) (Some (su_model s)) n None)
      | _ \<Rightarrow> Inl (ValueError ''validation error for CompactionData''))"

definition maybe_persist_compaction_item ::
    "(item_data \<Rightarrow> string) \<Rightarrow> (item_data \<Rightarrow> string) \<Rightarrow> summary_metadata \<Rightarrow> string \<Rightarrow> string \<Rightarrow> int \<Rightarrow> (nat \<Rightarrow> string) \<Rightarrow> sess_db \<Rightarrow> sess_db store_res res" where
  "maybe_persist_compaction_item encode search_text s task_id cid now fresh db =
     (if \<not> truthy (su_text s) \<or> su_last_item_id s = [] \<or> startswith (su_last_item_id s) ''synthetic_'' then Inr (Inr db)
      else if (case pg_data (list_items_page db cid 1 None None ''desc'' (Some ''compaction'')) of [] \<Rightarrow> False | r # rs \<Rightarrow> ir_response r = task_id)
      then Inr (Inr db)
      else
        bind_res (compaction_data s) (\<lambda>d.
          Inr (bind_store (append_items db cid now fresh
                 [\<lparr>ni_type = ''compaction'', ni_response = task_id, ni_data = encode d, ni_search = search_text d, ni_created_by = None\<rparr>])
               (\<lambda>(db', rows). Inr db'))))"

definition route_bare_model_for_compaction :: "string \<Rightarrow> string" where
  "route_bare_model_for_compaction model =
     (if CHR ''/'' \<in> set model then model
      else if startswith model ''databricks-'' then ''databricks/'' @ model
      else if startswith model ''claude-'' then ''anthropic/'' @ model
      else model)"

definition forced_config :: "compaction_config option \<Rightarrow> int option \<Rightarrow> compaction_config option" where
  "forced_config config preserve_recent_window =
     (case preserve_recent_window of
        None \<Rightarrow> config
      | Some w \<Rightarrow>
          Some \<lparr>cc_trigger_threshold = (case config of Some c \<Rightarrow> cc_trigger_threshold c | None \<Rightarrow> 4 / 5), cc_recent_window = max (w - 1) 0\<rparr>)"


section \<open>Explicit compaction\<close>

text \<open>
  The configuration of a call: payload codec, token counter, summariser, the resolver of content references when both file stores are configured, and
  \<open>get_model_context_window\<close> with its sources.
\<close>

record compaction_env =
  ce_decode :: "string \<Rightarrow> string \<Rightarrow> item_data"
  ce_encode :: "item_data \<Rightarrow> string"
  ce_search :: "item_data \<Rightarrow> string"
  ce_tokens :: tokenizer
  ce_summarizer :: summarizer
  ce_resolve :: "(conv_item list \<Rightarrow> conv_item list) option"
  ce_window :: "string \<Rightarrow> int res"

datatype 'a call_outcome = Raised py_exn | StoreRaised store_exn | Returned 'a

definition prepare_messages ::
    "compaction_env \<Rightarrow> agent_prompt \<Rightarrow> string \<Rightarrow> conv_item list \<Rightarrow> string option \<Rightarrow> pydict list \<Rightarrow> string \<times> pydict list \<times> nat" where
  "prepare_messages env spec model hist instructions tool_schemas =
     (let sys_instructions = build_instructions spec instructions tool_schemas;
          resolved = (case ce_resolve env of Some f \<Rightarrow> f hist | None \<Rightarrow> hist)
      in (sys_instructions, history_to_input_items resolved,
          count_tokens (ce_tokens env) [[(''role'', PStr ''system''), (''content'', PStr sys_instructions)]] model))"

definition no_summary_error :: py_exn where
  "no_summary_error =
     OmnigentError ''Compaction did not produce a persisted summary. The conversation was left unchanged; check server logs for the summarization failure.''"

definition persist_result ::
    "compaction_env \<Rightarrow> compaction_result \<Rightarrow> string \<Rightarrow> string \<Rightarrow> int \<Rightarrow> (nat \<Rightarrow> string) \<Rightarrow> sess_db \<Rightarrow> (compaction_result \<times> sess_db) call_outcome" where
  "persist_result env result task_id cid now fresh db =
     (case cr_summary result of
        None \<Rightarrow> Raised no_summary_error
      | Some s \<Rightarrow>
          (case maybe_persist_compaction_item (ce_encode env) (ce_search env) s task_id cid now fresh db of
             Inl e \<Rightarrow> Raised e
           | Inr (Inl e) \<Rightarrow> StoreRaised e
           | Inr (Inr db') \<Rightarrow> Returned (result, db')))"

text \<open>The outcome with the new state of the store, and the published events.\<close>

definition compact_conversation_now ::
    "compaction_env \<Rightarrow> string \<Rightarrow> string \<Rightarrow> agent_prompt \<Rightarrow> compaction_config option \<Rightarrow> string \<Rightarrow> pydict option \<Rightarrow> string option \<Rightarrow> pydict list \<Rightarrow>
     string option \<Rightarrow> int option \<Rightarrow> int \<Rightarrow> (nat \<Rightarrow> string) \<Rightarrow> sess_db \<Rightarrow> ((compaction_result \<times> sess_db) call_outcome \<times> pydict list) option" where
  "compact_conversation_now env task_id cid spec config llm_model connection instructions tool_schemas model_override preserve_recent_window now fresh db =
     map_option (\<lambda>loaded.
       case loaded of
         Inl e \<Rightarrow> (Raised e, [])
       | Inr lh \<Rightarrow>
           if lh_items lh = [] then (Returned (\<lparr>cr_messages = [], cr_summary = None, cr_total_tokens = None\<rparr>, db), [])
           else
             (let model = route_bare_model_for_compaction (case model_override of Some m \<Rightarrow> m | None \<Rightarrow> llm_model)
              in case prepare_messages env spec model (lh_items lh) instructions tool_schemas of
                   (sys, messages, sys_tokens) \<Rightarrow>
                     (case ce_window env model of
                        Inl e \<Rightarrow> (Raised e, [])
                      | Inr context_window \<Rightarrow>
                          (case compact (ce_tokens env) (ce_summarizer env) messages (lh_items lh) (forced_config config preserve_recent_window)
                                  context_window (int sys_tokens) model task_id connection True True (Some cid) of
                             (Inl e, events) \<Rightarrow> (Raised e, events)
                           | (Inr result, events) \<Rightarrow> (persist_result env result task_id cid now fresh db, events)))))
       (load_initial_history (ce_decode env) db cid)"


end
