(* ===== verification/CompactionProperties.thy ===== *)
theory CompactionProperties
  imports Compaction SessionProperties
begin

text \<open>
  Properties of compaction: the result fits the budget, the recent items survive verbatim, tool calls keep their results, and a persisted summary
  is what the next load of the conversation starts with.
\<close>

section \<open>The recent window\<close>

lemma recent_scan_le: "recent_scan hist n w g \<le> n"
  by (induction hist n w g rule: recent_scan.induct) auto

text \<open>The window holds as many groups as asked for, or all there are; it starts with a group unless it is the whole history.\<close>

definition groups :: "conv_item list \<Rightarrow> int" where
  "groups hist = int (length (filter starts_group hist))"

lemma groups_append [simp]: "groups (xs @ ys) = groups xs + groups ys"
  by (simp add: groups_def)

lemma groups_nonneg: "0 \<le> groups xs"
  by (simp add: groups_def)

lemma recent_scan_groups:
  assumes "n \<le> length hist" and "g < w"
  shows "groups (drop (recent_scan hist n w g) (take n hist)) = min (w - g) (groups (take n hist))"
  using assms
proof (induction hist n w g rule: recent_scan.induct)
  case (1 hist w g)
  then show ?case by (simp add: groups_def)
next
  case (2 hist i w g)
  let ?x = "hist ! i"
  have t: "take (Suc i) hist = take i hist @ [?x]" using "2.prems" by (simp add: take_Suc_conv_app_nth)
  have d: "drop b (take (Suc i) hist) = drop b (take i hist) @ [?x]" if "b \<le> i" for b
    using that "2.prems" by (simp add: t)
  have one: "groups [?x] = (if starts_group ?x then 1 else 0)" by (simp add: groups_def)
  show ?case
  proof (cases "starts_group ?x \<and> w \<le> g + 1")
    case True
    then have "drop (recent_scan hist (Suc i) w g) (take (Suc i) hist) = [?x]" using "2.prems" by (simp add: t)
    then show ?thesis using True "2.prems" one groups_nonneg [of "take i hist"] by (simp add: t)
  next
    case False
    define g' where "g' = (if starts_group ?x then g + 1 else g)"
    have b: "recent_scan hist (Suc i) w g = recent_scan hist i w g'" using False by (simp add: g'_def)
    have "groups (drop (recent_scan hist i w g') (take i hist)) = min (w - g') (groups (take i hist))"
      using "2.IH" "2.prems" False by (auto simp: g'_def)
    moreover have "drop (recent_scan hist i w g') (take (Suc i) hist) = drop (recent_scan hist i w g') (take i hist) @ [?x]"
      by (rule d [OF recent_scan_le])
    ultimately have "groups (drop (recent_scan hist (Suc i) w g) (take (Suc i) hist)) = min (w - g') (groups (take i hist)) + groups [?x]"
      unfolding b by simp
    also have "\<dots> = min (w - g) (groups (take (Suc i) hist))" unfolding t groups_append one g'_def by (simp add: min_def)
    finally show ?thesis .
  qed
qed

lemma recent_scan_start: "n \<le> length hist \<Longrightarrow> recent_scan hist n w g \<noteq> 0 \<Longrightarrow> starts_group (hist ! recent_scan hist n w g)"
  by (induction hist n w g rule: recent_scan.induct) (auto split: if_splits)

lemma boundary_le: "find_recent_boundary hist w \<le> length hist"
  using recent_scan_le by (simp add: find_recent_boundary_def)

lemma boundary_groups: "groups (drop (find_recent_boundary hist w) hist) = min (max w 0) (groups hist)"
  using recent_scan_groups [of "length hist" hist 0 w] groups_nonneg [of hist]
  by (auto simp: find_recent_boundary_def groups_def)

section \<open>Items and messages\<close>

text \<open>A loaded history: every item has an input, except reasoning, which the index mapping skips as well.\<close>

definition prompt_items :: "conv_item list \<Rightarrow> bool" where
  "prompt_items hist \<longleftrightarrow> (\<forall>item \<in> set hist. ci_type item \<notin> set NON_CONTENT_ITEM_TYPES)"

lemma item_input_content: "data_type d \<notin> set NON_CONTENT_ITEM_TYPES \<Longrightarrow> (item_input d = None) = (data_type d = ''reasoning'')"
  by (cases d) (simp_all add: NON_CONTENT_ITEM_TYPES_def)

lemma inputs_append [simp]: "history_to_input_items (xs @ ys) = history_to_input_items xs @ history_to_input_items ys"
  by (simp add: history_to_input_items_def List.map_filter_def)

lemma inputs_length: "prompt_items hist \<Longrightarrow> length (history_to_input_items hist) = length (filter (\<lambda>item. ci_type item \<noteq> ''reasoning'') hist)"
proof (induction hist)
  case (Cons item hist)
  then have "(item_input (ci_data item) = None) = (ci_type item = ''reasoning'')"
    using item_input_content [of "ci_data item"] by (simp add: prompt_items_def ci_type_def)
  then show ?case using Cons by (cases "item_input (ci_data item)") (simp_all add: history_to_input_items_def List.map_filter_def prompt_items_def)
qed (simp add: history_to_input_items_def List.map_filter_def)

lemma inputs_split:
  assumes "prompt_items hist"
  shows "drop (history_idx_to_msg_idx hist n) (history_to_input_items hist) = history_to_input_items (drop n hist)"
    and "take (history_idx_to_msg_idx hist n) (history_to_input_items hist) = history_to_input_items (take n hist)"
proof -
  have "prompt_items (take n hist)" using assms in_set_takeD by (fastforce simp: prompt_items_def)
  then have l: "length (history_to_input_items (take n hist)) = history_idx_to_msg_idx hist n"
    by (simp add: inputs_length history_idx_to_msg_idx_def)
  have s: "history_to_input_items hist = history_to_input_items (take n hist) @ history_to_input_items (drop n hist)"
    by (metis append_take_drop_id inputs_append)
  show "drop (history_idx_to_msg_idx hist n) (history_to_input_items hist) = history_to_input_items (drop n hist)"
    using l by (simp add: s)
  show "take (history_idx_to_msg_idx hist n) (history_to_input_items hist) = history_to_input_items (take n hist)"
    using l by (simp add: s)
qed

section \<open>Clearing\<close>

lemma length_on_prefix [simp]: "length (on_prefix n f xs) = length xs"
  by (simp add: on_prefix_def)

lemma drop_on_prefix [simp]: "drop n (on_prefix n f xs) = drop n xs"
  by (cases "n \<le> length xs") (simp_all add: on_prefix_def)

lemma take_on_prefix [simp]: "take n (on_prefix n f xs) = map f (take n xs)"
  by (cases "n \<le> length xs") (simp_all add: on_prefix_def)

definition cleared :: "pydict \<Rightarrow> pydict" where
  "cleared = on_blocks strip_annotations \<circ> on_blocks clear_binary \<circ> clear_result"

lemma drop_layer1: "drop n (layer1 messages n) = drop n messages"
  by (simp add: layer1_def strip_output_annotations_def clear_binary_content_def clear_tool_results_def)

lemma layer1_split: "layer1 messages n = map cleared (take n messages) @ drop n messages"
proof -
  have "take n (layer1 messages n) = map cleared (take n messages)"
    by (simp add: layer1_def strip_output_annotations_def clear_binary_content_def clear_tool_results_def cleared_def comp_def)
  with drop_layer1 [of n messages] show ?thesis by (metis append_take_drop_id)
qed

text \<open>Clearing touches only the output and the content of a message.\<close>

lemma pget_cleared: "k \<noteq> ''output'' \<Longrightarrow> k \<noteq> ''content'' \<Longrightarrow> pget (cleared m) k = pget m k"
  by (simp add: cleared_def on_blocks_def clear_result_def pget_def split: pyval.splits)

section \<open>Truncation\<close>

lemma drop_count_le: "ms \<noteq> [] \<Longrightarrow> 0 < pair_aware_drop_count ms"
  by (auto simp: pair_aware_drop_count_def split: list.splits)

lemma truncate_stop: "\<not> (ms \<noteq> [] \<and> b < int (count_tokens tk ms model)) \<Longrightarrow> truncate_oldest tk ms b model = ms"
  by (subst truncate_oldest.simps) (simp only: if_False)

lemma truncate_step:
  "ms \<noteq> [] \<Longrightarrow> b < int (count_tokens tk ms model) \<Longrightarrow>
   truncate_oldest tk ms b model = truncate_oldest tk (drop (pair_aware_drop_count ms) ms) b model"
  using drop_count_le [of ms] by (subst truncate_oldest.simps) (simp add: Let_def)

text \<open>Induction over the rounds of the loop.\<close>

lemma truncate_rounds:
  assumes "\<And>ms. \<not> (ms \<noteq> [] \<and> b < int (count_tokens tk ms model)) \<Longrightarrow> P ms ms"
    and "\<And>ms r. ms \<noteq> [] \<Longrightarrow> b < int (count_tokens tk ms model) \<Longrightarrow> P (drop (pair_aware_drop_count ms) ms) r \<Longrightarrow> P ms r"
  shows "P ms (truncate_oldest tk ms b model)"
proof (induction "length ms" arbitrary: ms rule: less_induct)
  case less
  show ?case
  proof (cases "ms \<noteq> [] \<and> b < int (count_tokens tk ms model)")
    case True
    then have "length (drop (pair_aware_drop_count ms) ms) < length ms" using drop_count_le [of ms] by simp
    then show ?thesis using less assms(2) True truncate_step [of ms b tk model] by simp
  next
    case False
    then show ?thesis using assms(1) truncate_stop [of ms b tk model] by simp
  qed
qed

lemma truncate_fits: "int (count_tokens tk (truncate_oldest tk ms b model) model) \<le> b \<or> truncate_oldest tk ms b model = []"
  by (rule truncate_rounds [where P = "\<lambda>ms r. int (count_tokens tk r model) \<le> b \<or> r = []"]) auto

text \<open>Only the front is dropped, and nothing when the messages fit.\<close>

lemma truncate_drops: "\<exists>k. truncate_oldest tk ms b model = drop k ms \<and> (k = 0 \<or> b < int (count_tokens tk ms model))"
proof (rule truncate_rounds [where P = "\<lambda>ms r. \<exists>k. r = drop k ms \<and> (k = 0 \<or> b < int (count_tokens tk ms model))"])
  show "\<exists>k. ms = drop k ms \<and> (k = 0 \<or> b < int (count_tokens tk ms model))" for ms by (rule exI [of _ 0]) simp
  show "\<exists>k. r = drop k ms \<and> (k = 0 \<or> b < int (count_tokens tk ms model))"
    if "b < int (count_tokens tk ms model)"
      and "\<exists>k. r = drop k (drop (pair_aware_drop_count ms) ms) \<and> (k = 0 \<or> b < int (count_tokens tk (drop (pair_aware_drop_count ms) ms) model))" for ms r
    using that by (metis drop_drop)
qed

text \<open>Every tool call is directly followed by its result, and every result directly preceded by its call.\<close>

definition is_call :: "pydict \<Rightarrow> bool" where
  "is_call m \<longleftrightarrow> pget m ''type'' = PStr ''function_call''"

definition is_result :: "pydict \<Rightarrow> bool" where
  "is_result m \<longleftrightarrow> pget m ''type'' = PStr ''function_call_output''"

fun paired :: "pydict list \<Rightarrow> bool" where
  "paired [] = True"
| "paired [m] = (\<not> is_call m \<and> \<not> is_result m)"
| "paired (m # n # ms) =
     (if is_call m then is_result n \<and> pget n ''call_id'' = pget m ''call_id'' \<and> paired ms else \<not> is_result m \<and> paired (n # ms))"

lemma drop_count_pair:
  "pair_aware_drop_count (m # n # ms) = (if is_call m \<and> is_result n \<and> pget m ''call_id'' = pget n ''call_id'' then 2 else 1)"
  by (simp add: pair_aware_drop_count_def is_call_def is_result_def)

lemma paired_drop: "paired ms \<Longrightarrow> paired (drop (pair_aware_drop_count ms) ms)"
  by (cases ms rule: paired.cases) (auto simp: drop_count_pair pair_aware_drop_count_def [of "[]"] pair_aware_drop_count_def [of "[_]"]
    split: if_splits)

lemma paired_truncate: "paired ms \<Longrightarrow> paired (truncate_oldest tk ms b model)"
  by (rule truncate_rounds [where P = "\<lambda>ms r. paired ms \<longrightarrow> paired r", THEN mp]) (auto intro: paired_drop)

definition same_tool :: "pydict \<Rightarrow> pydict \<Rightarrow> bool" where
  "same_tool m n \<longleftrightarrow> is_call m = is_call n \<and> is_result m = is_result n \<and> pget m ''call_id'' = pget n ''call_id''"

lemma paired_same: "list_all2 same_tool xs ys \<Longrightarrow> paired xs = paired ys"
proof (induction xs arbitrary: ys rule: paired.induct)
  case (3 m n ms)
  then obtain m' n' ms' where ys: "ys = m' # n' # ms'" "same_tool m m'" "same_tool n n'" "list_all2 same_tool ms ms'"
    by (auto simp: list_all2_Cons1)
  have "paired ms = paired ms'" if "is_call m" using "3.IH"(1) [OF that ys(4)] .
  moreover have "paired (n # ms) = paired (n' # ms')" if "\<not> is_call m" using "3.IH"(2) [OF that] ys(3,4) by simp
  ultimately show ?case using ys(2,3) by (auto simp: ys(1) same_tool_def)
qed (auto simp: list_all2_Cons1 same_tool_def)

lemma same_tool_cleared: "same_tool (cleared m) m"
  by (simp add: same_tool_def is_call_def is_result_def pget_cleared)

lemma paired_layer1: "paired (layer1 messages n) = paired messages"
proof (rule paired_same)
  have "list_all2 same_tool (map cleared (take n messages)) (take n messages)"
    by (simp add: list_all2_map1 list_all2_refl same_tool_cleared)
  moreover have "list_all2 same_tool (drop n messages) (drop n messages)" by (simp add: list_all2_refl same_tool_def)
  ultimately show "list_all2 same_tool (layer1 messages n) messages"
    using list_all2_appendI by (metis append_take_drop_id layer1_split)
qed

section \<open>The result of a compaction\<close>

text \<open>
  The shape of every result: a front, cleared or summarised, before the recent messages, of which the truncation dropped the first \<open>k\<close>.
\<close>

definition compacted_as :: "tokenizer \<Rightarrow> string \<Rightarrow> int \<Rightarrow> nat \<Rightarrow> pydict list \<Rightarrow> compaction_result \<Rightarrow> pydict list \<Rightarrow> nat \<Rightarrow> bool" where
  "compacted_as tk model budget b messages r front k \<longleftrightarrow>
     front = (case cr_summary r of None \<Rightarrow> map cleared (take b messages) | Some s \<Rightarrow> summary_to_messages s) \<and>
     (cr_messages r = front @ drop b messages \<or> cr_messages r = truncate_oldest tk (front @ drop b messages) budget model) \<and>
     cr_messages r = drop k (front @ drop b messages) \<and>
     (k = 0 \<or> budget < int (count_tokens tk (front @ drop b messages) model)) \<and>
     cr_total_tokens r = Some (count_tokens tk (cr_messages r) model) \<and>
     (int (count_tokens tk (cr_messages r) model) \<le> budget \<or> cr_messages r = [])"

lemma compact_result:
  assumes "compact tk sz messages hist config window sys model task connection force fail cid = (Inr r, events)"
  defines "budget \<equiv> compaction_budget config window sys"
    and "b \<equiv> history_idx_to_msg_idx hist (find_recent_boundary hist (compaction_window config))"
  shows "\<exists>front k. compacted_as tk model budget b messages r front k"
proof -
  define hb where "hb = find_recent_boundary hist (compaction_window config)"
  define work where "work = layer1 messages b"
  have d: "drop b work = drop b messages" "work = map cleared (take b messages) @ drop b messages"
    unfolding work_def by (rule drop_layer1, rule layer1_split)
  note c = assms(1) [unfolded compact_def Let_def, folded budget_def hb_def, folded b_def [folded hb_def], folded work_def]
  show ?thesis
  proof (cases "\<not> force \<and> int (count_tokens tk work model) \<le> budget")
    case True
    then have "compacted_as tk model budget b messages r (map cleared (take b messages)) 0" using c d(2) by (auto simp: compacted_as_def)
    then show ?thesis by blast
  next
    case False
    obtain so where l2: "run_layer2 tk sz work hist hb b budget model connection fail cid = Inr so"
      using c unfolding if_not_P [OF False] by (cases "run_layer2 tk sz work hist hb b budget model connection fail cid") simp_all
    define front where "front = (case so of None \<Rightarrow> map cleared (take b messages) | Some s \<Rightarrow> summary_to_messages s)"
    have w: "(case so of None \<Rightarrow> work | Some s \<Rightarrow> summary_to_messages s @ drop b work) = front @ drop b messages"
      using d by (auto simp: front_def split: option.splits)
    note c2 = c [unfolded if_not_P [OF False] l2 sum.case w]
    let ?all = "front @ drop b messages"
    show ?thesis
    proof (cases "so \<noteq> None \<and> int (count_tokens tk ?all model) \<le> budget")
      case True
      then have "r = \<lparr>cr_messages = ?all, cr_summary = so, cr_total_tokens = Some (count_tokens tk ?all model)\<rparr>"
        using c2 unfolding if_P [OF True] by simp
      then have "compacted_as tk model budget b messages r front 0" using True by (simp add: compacted_as_def front_def)
      then show ?thesis by blast
    next
      case False
      define t where "t = truncate_oldest tk ?all budget model"
      have r: "r = \<lparr>cr_messages = t, cr_summary = so, cr_total_tokens = Some (count_tokens tk t model)\<rparr>"
        using c2 unfolding if_not_P [OF False] t_def by simp
      obtain k where "t = drop k ?all" "k = 0 \<or> budget < int (count_tokens tk ?all model)"
        using truncate_drops [of tk ?all budget model] t_def by blast
      then have "compacted_as tk model budget b messages r front k"
        using truncate_fits [of tk ?all budget model] by (simp add: compacted_as_def r front_def t_def)
      then show ?thesis by blast
    qed
  qed
qed

text \<open>A summariser whose answers carry the two entries the caller reads.\<close>

definition answers_well :: "tokenizer \<Rightarrow> summarizer \<Rightarrow> bool" where
  "answers_well tk sz \<longleftrightarrow> (\<forall>ms model connection cid result.
     summarize_history tk sz ms model connection cid = Inr result \<longrightarrow> dhas result ''text'' \<and> dhas result ''token_count'')"

lemma run_layer2_returns:
  assumes "answers_well tk sz"
  shows "\<exists>so. run_layer2 tk sz ms hist hb b budget model connection False cid = Inr so"
proof (cases "summarize_history tk sz (layer2_input tk (take b ms) budget model) model connection cid")
  case (Inr result)
  then have "dget result ''text'' \<noteq> None" "dget result ''token_count'' \<noteq> None" using assms by (auto simp: answers_well_def dhas_iff)
  then show ?thesis using Inr by (auto simp: run_layer2_def dict_item_def split: option.splits)
qed (simp add: run_layer2_def)

lemma compact_returns:
  assumes "answers_well tk sz"
  shows "\<exists>r events. compact tk sz messages hist config window sys model task connection force False cid = (Inr r, events)"
proof -
  define b where "b = history_idx_to_msg_idx hist (find_recent_boundary hist (compaction_window config))"
  obtain so where "run_layer2 tk sz (layer1 messages b) hist (find_recent_boundary hist (compaction_window config)) b
      (compaction_budget config window sys) model connection False cid = Inr so"
    using run_layer2_returns [OF assms] by blast
  then show ?thesis unfolding compact_def Let_def b_def [symmetric] by auto
qed


section \<open>Tool calls keep their results\<close>

lemma paired_suffix: "paired xs \<Longrightarrow> drop b xs = [] \<or> \<not> is_result (hd (drop b xs)) \<Longrightarrow> paired (drop b xs)"
proof (induction xs arbitrary: b rule: paired.induct)
  case (3 m n ms)
  show ?case
  proof (cases "is_call m")
    case True
    then consider "b = 0" | "b = 1" | b' where "b = Suc (Suc b')" by (cases b rule: nat.exhaust) (auto, metis One_nat_def not0_implies_Suc)
    then show ?thesis using True "3.prems" "3.IH"(1) [OF True] by cases simp_all
  next
    case False
    then show ?thesis using "3.prems" "3.IH"(2) [OF False] by (cases b) simp_all
  qed
next
  case (2 m)
  then show ?case by (cases b) simp_all
qed simp

lemma group_input:
  assumes "starts_group item"
  shows "\<exists>m. item_input (ci_data item) = Some m \<and> \<not> is_result m"
  using assms
  by (cases "ci_data item") (auto simp: starts_group_def is_assistant_msg_def is_function_call_def ci_type_def is_result_def pget_def)

lemma inputs_Cons: "item_input (ci_data item) = Some m \<Longrightarrow> history_to_input_items (item # hist) = m # history_to_input_items hist"
  by (simp add: history_to_input_items_def List.map_filter_def)

lemma paired_recent:
  assumes "prompt_items hist" and "paired (history_to_input_items hist)"
  shows "paired (history_to_input_items (drop (find_recent_boundary hist w) hist))"
proof -
  let ?hb = "find_recent_boundary hist w"
  consider "?hb = 0" | "?hb = length hist" | "0 < w" "?hb \<noteq> 0" "?hb < length hist"
    using boundary_le [of hist w] by (cases "w \<le> 0") (simp_all add: find_recent_boundary_def, linarith)
  then show ?thesis
  proof cases
    case 3
    then have "starts_group (hist ! ?hb)" using recent_scan_start [of "length hist" hist w 0] by (simp add: find_recent_boundary_def)
    then obtain m where m: "item_input (ci_data (hist ! ?hb)) = Some m" "\<not> is_result m" using group_input by blast
    have "history_to_input_items (drop ?hb hist) = m # history_to_input_items (drop (Suc ?hb) hist)"
      using inputs_Cons [OF m(1)] Cons_nth_drop_Suc [OF 3(3)] by metis
    then show ?thesis
      using paired_suffix [OF assms(2), of "history_idx_to_msg_idx hist ?hb"] m(2) by (simp add: inputs_split(1) [OF assms(1)])
  qed (use assms(2) in \<open>simp_all add: history_to_input_items_def List.map_filter_def\<close>)
qed

lemma summary_pair: "list_all (\<lambda>m. \<not> is_call m \<and> \<not> is_result m) (summary_to_messages s)"
  by (simp add: summary_to_messages_def is_call_def is_result_def pget_def)

lemma paired_plain_append: "list_all (\<lambda>m. \<not> is_call m \<and> \<not> is_result m) xs \<Longrightarrow> paired ys \<Longrightarrow> paired (xs @ ys)"
proof (induction xs)
  case (Cons x xs)
  then show ?case by (cases "xs @ ys") simp_all
qed simp

lemma compact_pairs:
  assumes "compact tk sz (history_to_input_items hist) hist config window sys model task connection force fail cid = (Inr r, events)"
    and "prompt_items hist" and "paired (history_to_input_items hist)"
  shows "paired (cr_messages r)"
proof -
  define budget where "budget = compaction_budget config window sys"
  define hb where "hb = find_recent_boundary hist (compaction_window config)"
  define b where "b = history_idx_to_msg_idx hist hb"
  let ?ms = "history_to_input_items hist"
  have recent: "paired (drop b ?ms)" using paired_recent [OF assms(2,3)] inputs_split(1) [OF assms(2)] by (simp add: b_def hb_def)
  obtain front k where r: "compacted_as tk model budget b ?ms r front k"
    using compact_result [OF assms(1)] by (auto simp: b_def hb_def budget_def)
  then have front: "front = (case cr_summary r of None \<Rightarrow> map cleared (take b ?ms) | Some s \<Rightarrow> summary_to_messages s)" by (simp add: compacted_as_def)
  have "paired (front @ drop b ?ms)"
  proof (cases "cr_summary r")
    case None
    then show ?thesis using front paired_layer1 [of ?ms b] assms(3) by (simp add: layer1_split)
  next
    case (Some s)
    then show ?thesis using front paired_plain_append [OF summary_pair recent] by simp
  qed
  moreover have "cr_messages r = front @ drop b ?ms \<or> cr_messages r = truncate_oldest tk (front @ drop b ?ms) budget model"
    using r unfolding compacted_as_def by blast
  ultimately show ?thesis using paired_truncate by metis
qed


section \<open>Persisting and loading\<close>

lemma latest_page:
  "pg_data (list_items_page db cid 1 None None ''desc'' (Some ty)) = take 1 (rev (filter (\<lambda>r. ir_type r = ty) (history db cid)))"
  by (simp add: items_page item_cursor_def items_listing_def keyed_listing_def history_def typed_def [abs_def] filter_sort)

lemma unknown_cursor:
  assumes "\<forall>i \<in> set (sd_items db). ir_id i \<noteq> k" and "k \<noteq> []"
  shows "fetch_all_items db cid (Some k) = Some []"
proof -
  have "cursor_position db k = None" using assms(1) by (auto simp: cursor_position_def find_None_iff)
  then have "item_cursor db True (Some k) r = False" for r using assms(2) by (cases k) (simp_all add: item_cursor_def)
  then have "list_items_page db cid 100 (Some k) None ''asc'' None = page_of ir_id 100 []" by (simp add: items_page)
  then show ?thesis unfolding fetch_all_items_def by (subst drain_pages.simps) (simp add: Let_def)
qed

text \<open>The synthetic pair the next load starts with, for the stored row of a compaction item.\<close>

definition summary_front :: "string \<Rightarrow> string \<Rightarrow> int \<Rightarrow> string \<Rightarrow> string \<Rightarrow> conv_item list" where
  "summary_front iid response now t model =
     (let item = \<lparr>ci_id = iid, ci_status = ''completed'', ci_response = response, ci_created_at = now, ci_data = ReasoningData\<rparr>
      in [summary_item item ''_user'' ''user'' ''input_text'' SUMMARY_REQUEST None,
          summary_item item ''_assistant'' ''assistant'' ''output_text'' t (Some model)])"

lemma content_items_append: "content_items decode (xs @ ys) = content_items decode xs @ content_items decode ys"
  by (simp add: content_items_def)

text \<open>The payload survives being written, stored without its NUL characters, and read.\<close>

definition stored_as :: "(string \<Rightarrow> string \<Rightarrow> item_data) \<Rightarrow> (item_data \<Rightarrow> string) \<Rightarrow> item_data \<Rightarrow> bool" where
  "stored_as decode encode d \<longleftrightarrow> decode (data_type d) (strip_nul_bytes (encode d)) = d"

text \<open>A summary that is persisted: it has text and a real identifier, and the last compaction was another one's.\<close>

definition persistable :: "sess_db \<Rightarrow> string \<Rightarrow> string \<Rightarrow> summary_metadata \<Rightarrow> string \<Rightarrow> int \<Rightarrow> bool" where
  "persistable db cid task_id s t n \<longleftrightarrow>
     su_text s = PStr t \<and> su_token_count s = PInt n \<and> t \<noteq> [] \<and> su_last_item_id s \<noteq> [] \<and> \<not> startswith (su_last_item_id s) ''synthetic_'' \<and>
     (\<forall>r \<in> set (history db cid). ir_type r = ''compaction'' \<longrightarrow> ir_response r \<noteq> task_id)"

lemma persist_appends:
  assumes "db_ok db" and "new_item_ids db fresh 1" and "persistable db cid task_id s t n"
  shows "\<exists>db' row. maybe_persist_compaction_item encode search s task_id cid now fresh db = Inr (Inr db') \<and> db_ok db' \<and>
    history db' cid = history db cid @ [row] \<and> sd_items db' = sd_items db @ [row] \<and>
    ir_id row = fresh 0 \<and> ir_type row = ''compaction'' \<and> ir_response row = task_id \<and> ir_created_at row = now \<and> ir_status row = ''completed'' \<and>
    ir_data row = strip_nul_bytes (encode (CompactionData t (su_last_item_id s) (Some (su_model s)) n None))"
proof -
  define d where "d = CompactionData t (su_last_item_id s) (Some (su_model s)) n None"
  let ?new = "\<lparr>ni_type = ''compaction'', ni_response = task_id, ni_data = encode d, ni_search = search d, ni_created_by = None\<rparr>"
  obtain db' where a: "append_items db cid now fresh [?new] = Inr (db', item_rows cid now fresh 0 (next_position db cid) [?new])"
    using append_items_returns [OF assms(1), of fresh "[?new]"] assms(2) by auto
  have "\<not> (case take 1 (rev (filter (\<lambda>r. ir_type r = ''compaction'') (history db cid))) of [] \<Rightarrow> False | r # rs \<Rightarrow> ir_response r = task_id)"
  proof (cases "rev (filter (\<lambda>r. ir_type r = ''compaction'') (history db cid))")
    case (Cons r rs)
    then have "r \<in> set (rev (filter (\<lambda>r. ir_type r = ''compaction'') (history db cid)))" by simp
    then have "r \<in> set (history db cid)" "ir_type r = ''compaction''" by simp_all
    then show ?thesis using assms(3) Cons unfolding persistable_def by simp
  qed simp
  then have "maybe_persist_compaction_item encode search s task_id cid now fresh db = Inr (Inr db')"
    using assms(3) a unfolding maybe_persist_compaction_item_def latest_page
    by (simp add: persistable_def compaction_data_def d_def [symmetric] bind_store_def)
  then show ?thesis
    using append_history(1) [OF assms(1) a] append_items_ok [OF assms(1) a] append_items_Inr(2) [OF a] by (auto simp: d_def)
qed


lemma find_latest_row:
  assumes "history db cid = h @ [row]" and "ir_type row = ''compaction''"
  shows "find_latest_compaction_item decode db cid = Some (item_of decode row)"
  unfolding find_latest_compaction_item_def latest_page using assms by simp

lemma load_after_persist:
  assumes "db_ok db" and "\<forall>i \<in> set (sd_items db). ir_id i \<noteq> []" and "new_item_ids db fresh 1" and "fresh 0 \<noteq> []"
    and "persistable db cid task_id s t n"
    and "stored_as decode encode (CompactionData t (su_last_item_id s) (Some (su_model s)) n None)"
  shows "\<exists>db'. maybe_persist_compaction_item encode search s task_id cid now fresh db = Inr (Inr db') \<and> db_ok db' \<and>
    (\<forall>pre x post. history db cid = pre @ x # post \<and> ir_id x = su_last_item_id s \<longrightarrow>
       load_initial_history decode db' cid = Some (Inr \<lparr>lh_items = summary_front (fresh 0) task_id now t (su_model s) @ content_items decode post,
         lh_last_compaction_created_at = Some now\<rparr>)) \<and>
    ((\<forall>i \<in> set (sd_items db). ir_id i \<noteq> su_last_item_id s) \<and> fresh 0 \<noteq> su_last_item_id s \<longrightarrow>
       load_initial_history decode db' cid = Some (Inr \<lparr>lh_items = summary_front (fresh 0) task_id now t (su_model s),
         lh_last_compaction_created_at = Some now\<rparr>))"
proof -
  define d where "d = CompactionData t (su_last_item_id s) (Some (su_model s)) n None"
  obtain db' row where p: "maybe_persist_compaction_item encode search s task_id cid now fresh db = Inr (Inr db')" "db_ok db'"
      "history db' cid = history db cid @ [row]" "sd_items db' = sd_items db @ [row]"
    and row: "ir_id row = fresh 0" "ir_type row = ''compaction''" "ir_response row = task_id" "ir_created_at row = now" "ir_status row = ''completed''"
      "ir_data row = strip_nul_bytes (encode d)"
    using persist_appends [OF assms(1,3,5), of encode search now] by (auto simp: d_def)
  have item: "item_of decode row = \<lparr>ci_id = fresh 0, ci_status = ''completed'', ci_response = task_id, ci_created_at = now, ci_data = d\<rparr>"
    using assms(6) by (simp add: item_of_def row stored_as_def d_def)
  have good: "\<not> broken_compaction t (su_last_item_id s)" using assms(5) by (simp add: broken_compaction_def persistable_def)
  have front: "compaction_to_history_items (item_of decode row) = Inr (summary_front (fresh 0) task_id now t (su_model s))"
    by (simp add: compaction_to_history_items_def item d_def summary_front_def summary_item_def Let_def)
  have load: "load_initial_history decode db' cid = map_option (\<lambda>rows. Inr \<lparr>lh_items = summary_front (fresh 0) task_id now t (su_model s) @ content_items decode rows,
      lh_last_compaction_created_at = Some now\<rparr>) (fetch_all_items db' cid (Some (su_last_item_id s)))"
    unfolding load_initial_history_def find_latest_row [OF p(3) row(2)] using good front by (simp add: item d_def)
  have ids: "\<forall>i \<in> set (sd_items db'). ir_id i \<noteq> []" using assms(2,4) by (auto simp: p(4) row(1))
  have none: "content_items decode [row] = []" by (simp add: content_items_def item ci_type_def d_def NON_CONTENT_ITEM_TYPES_def)
  have "load_initial_history decode db' cid = Some (Inr \<lparr>lh_items = summary_front (fresh 0) task_id now t (su_model s) @ content_items decode post,
      lh_last_compaction_created_at = Some now\<rparr>)" if "history db cid = pre @ x # post" "ir_id x = su_last_item_id s" for pre x post
  proof -
    have "history db' cid = pre @ x # (post @ [row])" using that(1) p(3) by simp
    from fetch_all_items_returns(2) [OF p(2) ids this] show ?thesis using that(2) none by (simp add: load content_items_append)
  qed
  moreover have "load_initial_history decode db' cid = Some (Inr \<lparr>lh_items = summary_front (fresh 0) task_id now t (su_model s),
      lh_last_compaction_created_at = Some now\<rparr>)" if "\<forall>i \<in> set (sd_items db). ir_id i \<noteq> su_last_item_id s" "fresh 0 \<noteq> su_last_item_id s"
  proof -
    have "fetch_all_items db' cid (Some (su_last_item_id s)) = Some []"
      using that assms(5) by (intro unknown_cursor) (auto simp: p(4) row(1) persistable_def)
    then show ?thesis by (simp add: load content_items_def)
  qed
  ultimately show ?thesis using p(1,2) by blast
qed


section \<open>Explicit compaction\<close>

lemma last_summarized:
  assumes "hist \<noteq> []" and "real_item (last hist)"
  shows "find_last_summarized_item_id hist (length hist) = Some (ci_id (last hist))"
proof -
  obtain ys y where "hist = ys @ [y]" using assms(1) by (cases hist rule: rev_cases) auto
  then show ?thesis using assms(2) by (simp add: find_last_summarized_item_id_def)
qed

lemma compact_forced:
  assumes "compaction_window config = 0" and "cid \<noteq> []" and "find_last_summarized_item_id hist (length hist) = Some k"
    and "\<And>ms. summarize_history tk sz ms model connection (Some cid) = Inr [(''text'', t), (''token_count'', n)]"
  shows "\<exists>r m. compact tk sz messages hist config window sys model task connection True fail (Some cid) =
      (Inr r, [in_progress_event task, completed_event task m]) \<and>
    cr_summary r = Some \<lparr>su_text = t, su_last_item_id = k, su_model = model, su_token_count = n\<rparr>"
proof -
  have "find_recent_boundary hist (compaction_window config) = length hist" using assms(1) by (simp add: find_recent_boundary_def)
  moreover have "run_layer2 tk sz ms hist (length hist) b budget model connection fail (Some cid) =
      Inr (Some \<lparr>su_text = t, su_last_item_id = k, su_model = model, su_token_count = n\<rparr>)" for ms b budget
    using assms(3,4) by (simp add: run_layer2_def dict_item_def)
  ultimately show ?thesis using assms(2) unfolding compact_def Let_def by simp blast
qed

text \<open>The model a forced compaction of a conversation uses.\<close>

definition compaction_model :: "string \<Rightarrow> string option \<Rightarrow> string" where
  "compaction_model llm_model model_override = route_bare_model_for_compaction (case model_override of Some m \<Rightarrow> m | None \<Rightarrow> llm_model)"

lemma compact_now:
  assumes db: "db_ok db" "\<forall>i \<in> set (sd_items db). ir_id i \<noteq> []" "new_item_ids db fresh 1" "fresh 0 \<noteq> []"
    and codec: "stored_as (ce_decode env) (ce_encode env) (CompactionData t (ir_id x) (Some (compaction_model llm_model override)) n None)"
    and loaded: "load_initial_history (ce_decode env) db cid = Some (Inr lh)" "lh_items lh \<noteq> []"
    and last: "last (lh_items lh) = item_of (ce_decode env) x" "real_item (last (lh_items lh))" "history db cid = pre @ x # post"
    and answer: "\<And>ms. summarize_history (ce_tokens env) (ce_summarizer env) ms (compaction_model llm_model override) connection (Some cid) =
      Inr [(''text'', PStr t), (''token_count'', PInt n)]" "t \<noteq> []"
    and window: "ce_window env (compaction_model llm_model override) = Inr w" and cid: "cid \<noteq> []"
    and new: "\<forall>r \<in> set (history db cid). ir_type r = ''compaction'' \<longrightarrow> ir_response r \<noteq> task_id"
  shows "\<exists>result db' m. compact_conversation_now env task_id cid spec config llm_model connection instructions schemas override (Some 1) now fresh db =
      Some (Returned (result, db'), [in_progress_event task_id, completed_event task_id m]) \<and> db_ok db' \<and>
    load_initial_history (ce_decode env) db' cid =
      Some (Inr \<lparr>lh_items = summary_front (fresh 0) task_id now t (compaction_model llm_model override) @ content_items (ce_decode env) post,
        lh_last_compaction_created_at = Some now\<rparr>)"
proof -
  let ?model = "compaction_model llm_model override" and ?hist = "lh_items lh" and ?cfg = "forced_config config (Some 1)"
  define s where "s = \<lparr>su_text = PStr t, su_last_item_id = ir_id x, su_model = ?model, su_token_count = PInt n\<rparr>"
  obtain sys ms st where prep: "prepare_messages env spec ?model ?hist instructions schemas = (sys, ms, st)" by (metis prod_cases3)
  have "compaction_window ?cfg = 0" by (simp add: compaction_window_def forced_config_def)
  moreover have "find_last_summarized_item_id ?hist (length ?hist) = Some (ir_id x)"
    using last_summarized [OF loaded(2) last(2)] last(1) by (simp add: item_of_def)
  ultimately obtain r m where c: "compact (ce_tokens env) (ce_summarizer env) ms ?hist ?cfg w (int st) ?model task_id connection True True (Some cid) =
      (Inr r, [in_progress_event task_id, completed_event task_id m])" "cr_summary r = Some s"
    using compact_forced [OF _ cid _ answer(1), of ?cfg ?hist "ir_id x" ms w "int st" task_id True] by (auto simp: s_def)
  have x: "x \<in> set (sd_items db)" using last(3) by (metis conv_items_def filter_is_subset history_def in_set_conv_decomp set_sort subsetD)
  have "\<not> startswith (ir_id x) ''synthetic_''" using last(1,2) by (simp add: real_item_def item_of_def)
  then have "persistable db cid task_id s t n" using x db(2) answer(2) new by (simp add: persistable_def s_def)
  from load_after_persist [OF db this, of "ce_decode env" "ce_encode env" "ce_search env" now] codec
  obtain db' where p: "maybe_persist_compaction_item (ce_encode env) (ce_search env) s task_id cid now fresh db = Inr (Inr db')" "db_ok db'"
      "load_initial_history (ce_decode env) db' cid =
        Some (Inr \<lparr>lh_items = summary_front (fresh 0) task_id now t ?model @ content_items (ce_decode env) post, lh_last_compaction_created_at = Some now\<rparr>)"
    using last(3) by (auto simp: s_def)
  have "compact_conversation_now env task_id cid spec config llm_model connection instructions schemas override (Some 1) now fresh db =
      Some (persist_result env r task_id cid now fresh db, [in_progress_event task_id, completed_event task_id m])"
    using prep c(1) window loaded by (simp add: compact_conversation_now_def Let_def compaction_model_def [symmetric])
  then show ?thesis using p c(2) by (auto simp: persist_result_def)
qed

text \<open>An empty summary is not stored, and the call returns all the same.\<close>

lemma empty_summary_not_stored:
  "cr_summary r = Some s \<Longrightarrow> su_text s = PStr [] \<Longrightarrow> persist_result env r task_id cid now fresh db = Returned (r, db)"
  by (simp add: persist_result_def maybe_persist_compaction_item_def)

section \<open>Properties\<close>


text \<open>
  C28: The recent window survives verbatim: the result is the inputs of the recent items, in order and unchanged, behind the summary or the cleared older messages, and only when even that
  exceeds the budget are messages dropped, from the front; the window holds as many response groups as configured, or all there are.
\<close>

theorem compaction_keeps_recent_window:
  assumes "compact tk sz (history_to_input_items hist) hist config window sys model task connection force fail cid = (Inr r, events)"
    and "prompt_items hist"
  shows "\<exists>n front k. groups (drop n hist) = min (max (compaction_window config) 0) (groups hist) \<and>
    front = (case cr_summary r of None \<Rightarrow> map cleared (history_to_input_items (take n hist)) | Some s \<Rightarrow> summary_to_messages s) \<and>
    cr_messages r = drop k (front @ history_to_input_items (drop n hist)) \<and>
    (k = 0 \<or> compaction_budget config window sys < int (count_tokens tk (front @ history_to_input_items (drop n hist)) model))"
proof -
  let ?n = "find_recent_boundary hist (compaction_window config)"
  obtain front k where "compacted_as tk model (compaction_budget config window sys) (history_idx_to_msg_idx hist ?n) (history_to_input_items hist) r front k"
    using compact_result [OF assms(1)] by blast
  note c = this [unfolded compacted_as_def inputs_split [OF assms(2)]]
  show ?thesis
    by (rule exI [of _ ?n], rule exI [of _ front], rule exI [of _ k], intro conjI boundary_groups) (use c in \<open>blast+\<close>)
qed

text \<open>
  C29: When every tool call of a history is directly followed by its result, the same holds of every compaction of it: none of the layers separates a call from its result.
\<close>

theorem compaction_keeps_tool_pairs:
  assumes "compact tk sz (history_to_input_items hist) hist config window sys model task connection force fail cid = (Inr r, events)"
    and "prompt_items hist" and "paired (history_to_input_items hist)"
  shows "paired (cr_messages r)"
  using compact_pairs [OF assms] .



section \<open>Concrete compactions\<close>

definition ten_each :: tokenizer where
  "ten_each = \<lparr>tk_encoding_for_model = (\<lambda>m. None), tk_get_encoding = (\<lambda>name s. length s),
     tk_dumps = (\<lambda>v. case v of PList ms \<Rightarrow> concat (map (\<lambda>m. ''0123456789'') ms) | _ \<Rightarrow> [])\<rparr>"

definition summed_up :: summarizer where
  "summed_up = \<lparr>sz_runner = Some (\<lambda>payload. Inr [(''text'', PStr ''summary''), (''token_count'', PInt 3)]), sz_client = (\<lambda>i p m c. Inr [])\<rparr>"

definition an_item :: "string \<Rightarrow> item_data \<Rightarrow> conv_item" where
  "an_item i d = \<lparr>ci_id = i, ci_status = ''completed'', ci_response = ''r1'', ci_created_at = 1, ci_data = d\<rparr>"

definition one_call :: "conv_item list" where
  "one_call = [an_item ''i1'' (MessageData ''user'' [] None), an_item ''i2'' (FunctionCallData ''k1'' ''ls'' ''{}''),
     an_item ''i3'' (FunctionCallOutputData ''k1'' ''a.txt''), an_item ''i4'' (MessageData ''assistant'' [] (Some ''polly''))]"

definition two_calls :: "conv_item list" where
  "two_calls = [an_item ''i1'' (FunctionCallData ''k1'' ''ls'' ''{}''), an_item ''i2'' (FunctionCallData ''k2'' ''pwd'' ''{}''),
     an_item ''i3'' (FunctionCallOutputData ''k1'' ''a.txt''), an_item ''i4'' (FunctionCallOutputData ''k2'' ''/'')]"

definition last_group :: compaction_config where
  "last_group = \<lparr>cc_trigger_threshold = 1, cc_recent_window = 1\<rparr>"

lemma summed_up_answers: "summarize_history tk summed_up ms model connection cid = Inr [(''text'', PStr ''summary''), (''token_count'', PInt 3)]"
  by (simp add: summarize_history_def summarize_via_runner_uncached_def summed_up_def)

lemma summed_up_well: "answers_well tk summed_up"
  by (simp add: answers_well_def summed_up_answers dhas_def)

lemma one_call_ok: "prompt_items one_call" "paired (history_to_input_items one_call)"
  by (simp_all add: one_call_def an_item_def prompt_items_def ci_type_def NON_CONTENT_ITEM_TYPES_def history_to_input_items_def List.map_filter_def
    is_call_def is_result_def pget_def)

lemma one_call_compacted:
  "\<exists>r events. compact ten_each summed_up (history_to_input_items one_call) one_call (Some last_group) 35 0 ''m'' ''t1'' None False False None = (Inr r, events)"
  by (rule compact_returns [OF summed_up_well])

text \<open>
  Two calls made at once, followed by their results, are not paired in this sense: the window that starts at the second call keeps the first one's result without its call.
\<close>

lemma two_calls_split:
  "drop (history_idx_to_msg_idx two_calls (find_recent_boundary two_calls 1)) (history_to_input_items two_calls) =
     List.map_filter (item_input \<circ> ci_data) (tl two_calls)"
  by (simp add: two_calls_def an_item_def find_recent_boundary_def starts_group_def is_assistant_msg_def is_function_call_def ci_type_def
    history_idx_to_msg_idx_def history_to_input_items_def List.map_filter_def)


theorem compaction_keeps_recent_window_witness:
  "prompt_items one_call \<and>
   (\<exists>r events n. compact ten_each summed_up (history_to_input_items one_call) one_call (Some last_group) 35 0 ''m'' ''t1'' None False False None = (Inr r, events) \<and>
     groups (drop n one_call) = min (max (compaction_window (Some last_group)) 0) (groups one_call))"
proof -
  obtain r events where c: "compact ten_each summed_up (history_to_input_items one_call) one_call (Some last_group) 35 0 ''m'' ''t1'' None False False None = (Inr r, events)"
    using one_call_compacted by blast
  show ?thesis using compaction_keeps_recent_window [OF c one_call_ok(1)] c one_call_ok(1) by blast
qed

theorem compaction_keeps_tool_pairs_witness:
  "paired (history_to_input_items one_call) \<and>
   (\<exists>r events. compact ten_each summed_up (history_to_input_items one_call) one_call (Some last_group) 35 0 ''m'' ''t1'' None False False None = (Inr r, events) \<and>
     paired (cr_messages r))"
proof -
  obtain r events where c: "compact ten_each summed_up (history_to_input_items one_call) one_call (Some last_group) 35 0 ''m'' ''t1'' None False False None = (Inr r, events)"
    using one_call_compacted by blast
  show ?thesis using compaction_keeps_tool_pairs [OF c one_call_ok] c one_call_ok(2) by blast
qed


definition talk_env :: compaction_env where
  "talk_env = \<lparr>ce_decode = (\<lambda>ty s. if ty = ''compaction'' then CompactionData ''summary'' ''a+'' (Some ''m'') 3 None
       else MessageData ''user'' [PDict [(''type'', PStr ''input_text''), (''text'', PStr s)]] None),
     ce_encode = (\<lambda>d. ''payload''), ce_search = (\<lambda>d. []), ce_tokens = ten_each, ce_summarizer = summed_up, ce_resolve = None, ce_window = (\<lambda>m. Inr 100)\<rparr>"

definition talk_rows :: "item_row list" where
  "talk_rows = item_rows ''c1'' 2 talk_ids 0 0 [said ''r1'' ''hello'', said ''r2'' ''world'']"

lemma talk_rows_history: "history talk_db ''c1'' = talk_rows" "sd_items talk_db = talk_rows"
  by (simp_all add: history_def conv_items_def talk_db_def set_row_def talk_rows_def said_def)

lemma talk_row_facts: "ir_id (talk_rows ! 1) = ''a+''" "talk_rows = [talk_rows ! 0, talk_rows ! 1]" "r \<in> set talk_rows \<Longrightarrow> ir_type r = ''message'' \<and> ir_id r \<noteq> [] \<and> ir_id r \<noteq> ''b''"
  by (auto simp: talk_rows_def talk_ids_def said_def)

lemma talk_loads:
  "load_initial_history (ce_decode talk_env) talk_db ''c1'' =
     Some (Inr \<lparr>lh_items = map (item_of (ce_decode talk_env)) talk_rows, lh_last_compaction_created_at = None\<rparr>)"
proof -
  have "filter (\<lambda>r. ir_type r = ''compaction'') (history talk_db ''c1'') = []"
    using talk_row_facts(3) by (auto simp: talk_rows_history filter_empty_conv)
  then have "find_latest_compaction_item (ce_decode talk_env) talk_db ''c1'' = None"
    unfolding find_latest_compaction_item_def latest_page by simp
  moreover have "fetch_all_items talk_db ''c1'' None = Some talk_rows"
    using fetch_all_items_returns(1) [OF talk_ok] talk_row_facts(3) by (simp add: talk_rows_history)
  moreover have "content_items (ce_decode talk_env) talk_rows = map (item_of (ce_decode talk_env)) talk_rows"
    using talk_row_facts(3) unfolding content_items_def
    by (intro filter_True) (auto simp: ci_type_def item_of_def talk_env_def NON_CONTENT_ITEM_TYPES_def)
  ultimately show ?thesis by (simp add: load_initial_history_def)
qed



end
