(* ===== verification/Google.thy ===== *)
theory Google
  imports RiskScore Regex "HOL-Library.Char_ord" "HOL-Library.List_Lexorder"
begin

text \<open>
  The Google Workspace policies (\<^verbatim>\<open>policies/builtins/google.py\<close>): Drive, Gmail and Calendar tools recognised by their canonical
  name, with the files and drafts a session created tracked in the session state, and the rule against writing down once a
  confidential file was read. A policy returns \<open>None\<close> to abstain. A set of identifiers is a list. \<^verbatim>\<open>urlparse\<close> is modelled up to the
  checks on bracketed and non-ASCII hosts beyond unbalanced brackets, and percent-decoding up to the repair of invalid UTF-8.
\<close>

section \<open>Constants\<close>

definition CREATED_FILES_STATE_KEY :: string where
  "CREATED_FILES_STATE_KEY = ''gdrive_created_file_ids''"

definition CREATED_DRAFTS_STATE_KEY :: string where
  "CREATED_DRAFTS_STATE_KEY = ''gmail_created_draft_ids''"

definition READ_CONFIDENTIAL_STATE_KEY :: string where
  "READ_CONFIDENTIAL_STATE_KEY = ''gdrive_read_confidential''"

definition GOOGLE_TOOL_PREFIXES :: "string list" where
  "GOOGLE_TOOL_PREFIXES = [''mcp__google__'', ''google__'']"

definition FILE_ID_ARG_KEYS :: "string list" where
  "FILE_ID_ARG_KEYS = [''document_id'', ''file_id'', ''spreadsheet_id'', ''presentation_id'']"

definition FILE_RESULT_ID_KEYS :: "string list" where
  "FILE_RESULT_ID_KEYS =
     [''id'', ''documentId'', ''spreadsheetId'', ''presentationId'', ''fileId'', ''document_id'', ''spreadsheet_id'', ''presentation_id'', ''file_id'']"

definition GOOGLE_RESULT_SCAN_DEPTH :: nat where
  "GOOGLE_RESULT_SCAN_DEPTH = 20"

definition DRIVE_READ_TOOLS :: "string list" where
  "DRIVE_READ_TOOLS =
     [''docs_document_get'', ''docs_document_list'', ''docs_document_inspect_structure'', ''docs_document_export'', ''docs_document_export_as_markdown'',
      ''docs_document_search'', ''drive_search'', ''drive_file_get'', ''drive_file_list'', ''drive_file_export'', ''drive_comment_list'', ''drive_comment_get'',
      ''sheets_search'', ''sheets_spreadsheet_get'', ''sheets_values_get'', ''sheets_values_batch_get'', ''sheets_grid_data_get'', ''slides_search'',
      ''slides_presentation_get'', ''slides_page_get'']"

definition DRIVE_CREATE_TOOLS :: "string list" where
  "DRIVE_CREATE_TOOLS =
     [''docs_document_create'', ''docs_document_create_from_markdown'', ''drive_file_create'', ''sheets_spreadsheet_create'', ''slides_presentation_create'']"

definition DRIVE_COMMENT_TOOLS :: "string list" where
  "DRIVE_COMMENT_TOOLS = [''drive_comment_create'', ''drive_comment_reply_create'']"

definition DRIVE_WRITE_TOOLS :: "string list" where
  "DRIVE_WRITE_TOOLS =
     [''docs_document_batch_update'', ''docs_document_edit_section'', ''docs_document_apply_template_styles'', ''drive_file_update'', ''drive_file_delete'',
      ''drive_file_copy'', ''sheets_values_update'', ''sheets_values_append'', ''sheets_spreadsheet_batch_update'', ''slides_presentation_batch_update'']"

definition DRIVE_OWNED_PREFIXES :: "string list" where
  "DRIVE_OWNED_PREFIXES = [''docs_'', ''drive_'', ''sheets_'', ''slides_'']"

definition GMAIL_DRAFT_ID_ARG_KEYS :: "string list" where
  "GMAIL_DRAFT_ID_ARG_KEYS = [''draft_id'', ''id'']"

definition GMAIL_DRAFT_RESULT_ID_KEYS :: "string list" where
  "GMAIL_DRAFT_RESULT_ID_KEYS = [''id'', ''draftId'']"

definition GMAIL_READ_TOOLS :: "string list" where
  "GMAIL_READ_TOOLS = [''gmail_search'', ''gmail_message_list'', ''gmail_message_get'', ''gmail_thread_list'', ''gmail_thread_get'', ''gmail_profile_get'']"

definition GMAIL_SEND_TOOLS :: "string list" where
  "GMAIL_SEND_TOOLS = [''gmail_message_send'']"

definition GMAIL_DRAFT_CREATE_TOOLS :: "string list" where
  "GMAIL_DRAFT_CREATE_TOOLS = [''gmail_draft_create'']"

definition GMAIL_DRAFT_WRITE_TOOLS :: "string list" where
  "GMAIL_DRAFT_WRITE_TOOLS = [''gmail_draft_update'', ''gmail_draft_delete'']"

definition GMAIL_MODIFY_TOOLS :: "string list" where
  "GMAIL_MODIFY_TOOLS = [''gmail_message_modify'', ''gmail_thread_modify'']"

definition GMAIL_OWNED_PREFIXES :: "string list" where
  "GMAIL_OWNED_PREFIXES = [''gmail_'']"

definition CAL_READ_TOOLS :: "string list" where
  "CAL_READ_TOOLS = [''calendar_search'', ''calendar_event_list'', ''calendar_event_get'', ''calendar_calendar_list'', ''calendar_freebusy_query'']"

definition CAL_CREATE_TOOLS :: "string list" where
  "CAL_CREATE_TOOLS = [''calendar_event_create'', ''calendar_calendar_create'']"

definition CAL_MODIFY_TOOLS :: "string list" where
  "CAL_MODIFY_TOOLS = [''calendar_event_update'', ''calendar_event_delete'']"

definition CAL_OWNED_PREFIXES :: "string list" where
  "CAL_OWNED_PREFIXES = [''calendar_'']"

section \<open>File references\<close>

definition file_id_char :: "char \<Rightarrow> bool" where
  "file_id_char c \<longleftrightarrow> is_digit c \<or> (65 \<le> char_code c \<and> char_code c \<le> 90) \<or> (97 \<le> char_code c \<and> char_code c \<le> 122) \<or> c = CHR ''_'' \<or> c = CHR ''-''"

definition file_url_pattern :: "string \<Rightarrow> rx" where
  "file_url_pattern path = rx_seq [rx_str path, Grp 1 (rx_plus (Cls file_id_char))]"

definition FILE_ID_URL_PATTERNS :: "rx list" where
  "FILE_ID_URL_PATTERNS = map file_url_pattern [''/document/d/'', ''/spreadsheets/d/'', ''/presentation/d/'', ''/file/d/'']"

text \<open>\<^verbatim>\<open>urlparse(value)\<close>: the network location and the query.\<close>

definition scheme_char :: "char \<Rightarrow> bool" where
  "scheme_char c \<longleftrightarrow> is_digit c \<or> (65 \<le> char_code c \<and> char_code c \<le> 90) \<or> (97 \<le> char_code c \<and> char_code c \<le> 122) \<or> c = CHR ''+'' \<or> c = CHR ''-'' \<or> c = CHR ''.''"

definition drop_scheme :: "string \<Rightarrow> string" where
  "drop_scheme url =
     (let s = before_first (CHR '':'') url
      in if CHR '':'' \<in> set url \<and> s \<noteq> [] \<and> list_all scheme_char s \<and> \<not> is_digit (hd s) \<and> hd s \<notin> {CHR ''+'', CHR ''-'', CHR ''.''} then after_first (CHR '':'') url
         else url)"

definition urlparse :: "string \<Rightarrow> (string \<times> string) res" where
  "urlparse value =
     (let url = drop_scheme (filter (\<lambda>c. c \<notin> {CHR 9, CHR 10, CHR 13}) (dropWhile (\<lambda>c. char_code c \<le> 32) value));
          has_netloc = startswith url ''//'';
          netloc = (if has_netloc then takeWhile (\<lambda>c. c \<notin> {CHR ''/'', CHR ''?'', CHR ''#''}) (drop 2 url) else []);
          rest = (if has_netloc then drop (2 + length netloc) url else url);
          no_fragment = before_first (CHR ''#'') rest
      in if (CHR ''['' \<in> set netloc) \<noteq> (CHR '']'' \<in> set netloc) then Inl (ValueError ''Invalid IPv6 URL'')
         else Inr (netloc, if CHR ''?'' \<in> set no_fragment then after_first (CHR ''?'') no_fragment else []))"

fun unquote :: "string \<Rightarrow> string" where
  "unquote (c # a # b # s) =
     (if c = CHR ''%'' then
        (case (hex_val a, hex_val b) of
           (Some x, Some y) \<Rightarrow> char_of (16 * x + y) # unquote s
         | _ \<Rightarrow> c # unquote (a # b # s))
      else (if c = CHR ''+'' then CHR '' '' else c) # unquote (a # b # s))"
| "unquote s = map (\<lambda>c. if c = CHR ''+'' then CHR '' '' else c) s"

text \<open>\<^verbatim>\<open>parse_qs(query)\<close>: fields without a value are left out.\<close>

definition parse_qsl :: "string \<Rightarrow> (string \<times> string) list" where
  "parse_qsl query =
     List.map_filter (\<lambda>field. if CHR ''='' \<in> set field \<and> after_first (CHR ''='') field \<noteq> []
       then Some (unquote (before_first (CHR ''='') field), unquote (after_first (CHR ''='') field)) else None) (split_char (CHR ''&'') query)"

fun first_match :: "rx list \<Rightarrow> string \<Rightarrow> string option" where
  "first_match [] s = None"
| "first_match (p # ps) s = (case rx_search p s of Some m \<Rightarrow> Some (rx_group 1 m) | None \<Rightarrow> first_match ps s)"

definition normalize_file_ref :: "string \<Rightarrow> string res" where
  "normalize_file_ref v =
     (let value = str_strip v
      in if value = [] then Inr []
         else (case first_match FILE_ID_URL_PATTERNS value of
                 Some i \<Rightarrow> Inr i
               | None \<Rightarrow>
                   bind_res (urlparse value) (\<lambda>(netloc, query).
                     Inr (if netloc = ''drive.google.com'' \<or> netloc = ''docs.google.com''
                          then (case find (\<lambda>(k, w). k = ''id'') (parse_qsl query) of Some (k, w) \<Rightarrow> w | None \<Rightarrow> value)
                          else value))))"

definition normalize_file_refs :: "string list option \<Rightarrow> string list res" where
  "normalize_file_refs values =
     bind_res (mapM_res normalize_file_ref (case values of Some vs \<Rightarrow> vs | None \<Rightarrow> [])) (\<lambda>refs. Inr (filter (\<lambda>r. r \<noteq> []) refs))"

fun extract_ids_from_args :: "pydict \<Rightarrow> string list \<Rightarrow> string list res" where
  "extract_ids_from_args args [] = Inr []"
| "extract_ids_from_args args (key # keys) =
     (case pget args key of
        PStr v \<Rightarrow> bind_res (normalize_file_ref v) (\<lambda>i. bind_res (extract_ids_from_args args keys) (\<lambda>ids. Inr (if i = [] then ids else i # ids)))
      | _ \<Rightarrow> extract_ids_from_args args keys)"

section \<open>Created resources\<close>

text \<open>The walk over a result; the first argument is the number of levels left.\<close>

fun extract_created_ids :: "nat \<Rightarrow> string list \<Rightarrow> pyval \<Rightarrow> string list" where
  "extract_created_ids 0 id_keys payload = []"
| "extract_created_ids (Suc n) id_keys payload =
     (case payload of
        PDict d \<Rightarrow>
          concat (map (\<lambda>(key, nested).
            (case nested of PStr s \<Rightarrow> if key \<in> set id_keys \<and> str_strip s \<noteq> [] then [str_strip s] else [] | _ \<Rightarrow> []) @
            extract_created_ids n id_keys nested) d)
      | PList xs \<Rightarrow> concat (map (extract_created_ids n id_keys) xs)
      | _ \<Rightarrow> [])"

definition google_result_payload :: "pyval \<Rightarrow> pyval" where
  "google_result_payload data =
     (let inner_value = (case data of
                     PDict d \<Rightarrow> (case dget d ''result'' of Some v \<Rightarrow> v | None \<Rightarrow> data)
                   | _ \<Rightarrow> data)
      in case inner_value of
           PStr s \<Rightarrow> (case py_json_loads s of Some v \<Rightarrow> v | None \<Rightarrow> inner_value)
         | _ \<Rightarrow> inner_value)"

text \<open>\<^verbatim>\<open>set(xs)\<close> of a list: lists and dictionaries cannot be members.\<close>

definition py_set :: "pyval list \<Rightarrow> pyval list res" where
  "py_set xs =
     (case find (\<lambda>x. case x of PList ys \<Rightarrow> True | PDict d \<Rightarrow> True | _ \<Rightarrow> False) xs of
        Some x \<Rightarrow> Inl (TypeError (''unhashable type: '' @ [CHR 39] @ type_name x @ [CHR 39]))
      | None \<Rightarrow> Inr xs)"

definition append_entry :: "string \<Rightarrow> string \<Rightarrow> pyval" where
  "append_entry state_key rid = PDict [(''key'', PStr state_key), (''action'', PStr ''append''), (''value'', PStr rid)]"

definition append_updates :: "string list \<Rightarrow> pyval \<Rightarrow> string \<Rightarrow> pyval list res" where
  "append_updates new_ids tracked state_key =
     bind_res (case tracked of PList xs \<Rightarrow> py_set xs | _ \<Rightarrow> Inr []) (\<lambda>already.
       Inr (map (append_entry state_key) (sort (remdups (filter (\<lambda>i. PStr i \<notin> set already) new_ids)))))"

definition created_ids_from_state :: "pydict \<Rightarrow> string \<Rightarrow> pyval list res" where
  "created_ids_from_state session_state state_key =
     (case pget session_state state_key of PList xs \<Rightarrow> py_set xs | _ \<Rightarrow> Inr [])"

definition resolve_prefixes :: "string list option \<Rightarrow> string list" where
  "resolve_prefixes tool_prefixes = (case tool_prefixes of Some ps \<Rightarrow> ps | None \<Rightarrow> GOOGLE_TOOL_PREFIXES)"

fun google_canonical_name :: "string \<Rightarrow> string list \<Rightarrow> string" where
  "google_canonical_name tool_name [] = tool_name"
| "google_canonical_name tool_name (p # ps) =
     (if startswith tool_name p then drop (length p) tool_name else google_canonical_name tool_name ps)"

record parsed_tool_call =
  pt_canonical :: string
  pt_raw_tool :: string
  pt_args :: pydict

definition parse_tool_call :: "pydict \<Rightarrow> string list \<Rightarrow> parsed_tool_call option" where
  "parse_tool_call ev pfx =
     (case pget ev ''data'' of
        PDict data \<Rightarrow>
          (case pget data ''name'' of
             PStr raw_tool \<Rightarrow>
               Some \<lparr>pt_canonical = google_canonical_name raw_tool pfx, pt_raw_tool = raw_tool,
                     pt_args = (case pget data ''arguments'' of PDict a \<Rightarrow> a | _ \<Rightarrow> [])\<rparr>
           | _ \<Rightarrow> None)
      | _ \<Rightarrow> None)"

definition google_state :: "pydict \<Rightarrow> pydict" where
  "google_state ev = or_dict (pget ev ''session_state'')"

definition result_tool :: "pydict \<Rightarrow> string list \<Rightarrow> string option" where
  "result_tool ev pfx = (case pget ev ''target'' of PStr raw_tool \<Rightarrow> Some (google_canonical_name raw_tool pfx) | _ \<Rightarrow> None)"

definition google_deny :: "string \<Rightarrow> pydict" where
  "google_deny reason = [(''result'', PStr ''DENY''), (''reason'', PStr reason)]"

definition google_updates :: "pyval list \<Rightarrow> pydict option" where
  "google_updates updates = (if updates = [] then None else Some [(''result'', PStr ''ALLOW''), (''state_updates'', PList updates)])"

text \<open>The identifiers a create tool's result adds to a tracked list.\<close>

definition created_updates :: "pydict \<Rightarrow> string list \<Rightarrow> string list \<Rightarrow> string list \<Rightarrow> string \<Rightarrow> pyval list res" where
  "created_updates ev pfx create_tools id_keys state_key =
     (case result_tool ev pfx of
        None \<Rightarrow> Inr []
      | Some canonical \<Rightarrow>
          if canonical \<notin> set create_tools then Inr []
          else
            (let new_ids = extract_created_ids GOOGLE_RESULT_SCAN_DEPTH id_keys (google_result_payload (pget ev ''data''))
             in if new_ids = [] then Inr [] else append_updates new_ids (pget (google_state ev) state_key) state_key))"

section \<open>Drive\<close>

record drive_cfg =
  dc_read_all :: bool
  dc_read_ids :: "string list"
  dc_write_ids :: "string list"
  dc_comment_ids :: "string list"
  dc_allow_create :: bool
  dc_confidential_ids :: "string list"
  dc_write_down_action :: string
  dc_deny_reason :: string

definition escalate :: "drive_cfg \<Rightarrow> string \<Rightarrow> pydict" where
  "escalate cfg reason = [(''result'', PStr (dc_write_down_action cfg)), (''reason'', PStr (dc_deny_reason cfg @ '' '' @ reason))]"

definition latch_entry :: pyval where
  "latch_entry = PDict [(''key'', PStr READ_CONFIDENTIAL_STATE_KEY), (''action'', PStr ''set''), (''value'', PBool True)]"

definition read_confidential_update :: "pydict \<Rightarrow> drive_cfg \<Rightarrow> pyval list res" where
  "read_confidential_update ev cfg =
     (if dc_confidential_ids cfg = [] \<or> truthy (pget (google_state ev) READ_CONFIDENTIAL_STATE_KEY) then Inr []
      else
        (let args = (case pget ev ''request_data'' of PDict d \<Rightarrow> (case pget d ''arguments'' of PDict a \<Rightarrow> a | _ \<Rightarrow> []) | _ \<Rightarrow> [])
         in bind_res (extract_ids_from_args args FILE_ID_ARG_KEYS) (\<lambda>read_ids.
              Inr (if set read_ids \<inter> set (dc_confidential_ids cfg) \<noteq> {} then [latch_entry] else []))))"

definition check_no_write_down :: "string list \<Rightarrow> pydict \<Rightarrow> drive_cfg \<Rightarrow> pydict option" where
  "check_no_write_down target_ids ev cfg =
     (if dc_confidential_ids cfg = [] \<or> \<not> truthy (pget (google_state ev) READ_CONFIDENTIAL_STATE_KEY) then None
      else if target_ids \<noteq> [] \<and> set target_ids \<subseteq> set (dc_confidential_ids cfg) then None
      else Some (escalate cfg
        ''Bell-LaPadula (no write-down): this session has read a confidential document, so writes are confined to the confidential set; this target is outside it.''))"

definition decide_drive_tool_call :: "pydict \<Rightarrow> string list \<Rightarrow> drive_cfg \<Rightarrow> pydict option res" where
  "decide_drive_tool_call ev pfx cfg =
     (case parse_tool_call ev pfx of
        None \<Rightarrow> Inr None
      | Some parsed \<Rightarrow>
          (let canonical = pt_canonical parsed;
               deny = (\<lambda>reason. Some (google_deny (dc_deny_reason cfg @ '' '' @ reason)))
           in bind_res (extract_ids_from_args (pt_args parsed) FILE_ID_ARG_KEYS) (\<lambda>target_ids.
              bind_res (created_ids_from_state (google_state ev) CREATED_FILES_STATE_KEY) (\<lambda>created_ids.
                Inr (if canonical \<in> set DRIVE_READ_TOOLS then
                       (if dc_read_all cfg \<or> target_ids \<noteq> [] \<and> set target_ids \<subseteq> set (dc_read_ids cfg) then None
                        else deny ''Read restricted to the configured allowlist; this call targets a file outside it (or cannot be scoped).'')
                     else if canonical \<in> set (DRIVE_WRITE_TOOLS @ DRIVE_COMMENT_TOOLS @ DRIVE_CREATE_TOOLS) \<and> check_no_write_down target_ids ev cfg \<noteq> None
                     then check_no_write_down target_ids ev cfg
                     else if canonical \<in> set DRIVE_CREATE_TOOLS then
                       (if dc_allow_create cfg then None else deny ''Creating new files is not permitted.'')
                     else if canonical \<in> set DRIVE_COMMENT_TOOLS then
                       (if target_ids \<noteq> [] \<and> (\<forall>i \<in> set target_ids. i \<in> set (dc_comment_ids cfg) \<or> PStr i \<in> set created_ids) then None
                        else deny ''Commenting is restricted to permitted files.'')
                     else if canonical \<in> set DRIVE_WRITE_TOOLS then
                       (if target_ids = [] then deny ''Write call carries no identifiable target file.''
                        else if \<forall>i \<in> set target_ids. i \<in> set (dc_write_ids cfg) \<or> PStr i \<in> set created_ids then None
                        else deny (''Writes are restricted to files this agent created this session'' @
                          (if dc_write_ids cfg \<noteq> [] then '' or the configured write allowlist'' else []) @ ''.''))
                     else if list_ex (startswith canonical) DRIVE_OWNED_PREFIXES then deny (''Tool '' @ repr_str (pt_raw_tool parsed) @ '' is not permitted.'')
                     else None)))))"

definition record_drive_result :: "pydict \<Rightarrow> string list \<Rightarrow> drive_cfg \<Rightarrow> pydict option res" where
  "record_drive_result ev pfx cfg =
     bind_res (created_updates ev pfx DRIVE_CREATE_TOOLS FILE_RESULT_ID_KEYS CREATED_FILES_STATE_KEY) (\<lambda>created.
     bind_res (case result_tool ev pfx of
                 Some canonical \<Rightarrow>
                   if dc_confidential_ids cfg \<noteq> [] \<and> canonical \<in> set DRIVE_READ_TOOLS then read_confidential_update ev cfg else Inr []
               | None \<Rightarrow> Inr []) (\<lambda>latch.
       Inr (google_updates (created @ latch))))"

definition gdrive_evaluate :: "string list \<Rightarrow> drive_cfg \<Rightarrow> pydict \<Rightarrow> pydict option res" where
  "gdrive_evaluate pfx cfg ev =
     (if pget ev ''type'' = PStr ''tool_result'' then record_drive_result ev pfx cfg
      else if pget ev ''type'' = PStr ''tool_call'' then decide_drive_tool_call ev pfx cfg
      else Inr None)"

definition gdrive_policy ::
    "bool \<Rightarrow> string list option \<Rightarrow> bool \<Rightarrow> string list option \<Rightarrow> string list option \<Rightarrow> string list option \<Rightarrow> string \<Rightarrow> string list option \<Rightarrow> string \<Rightarrow>
     (string list \<times> drive_cfg) res" where
  "gdrive_policy read_all read_files allow_create write_files comment_files confidential_files write_down_action tool_prefixes deny_reason =
     (let action = str_upper (str_strip write_down_action)
      in if action \<noteq> ''DENY'' \<and> action \<noteq> ''ASK'' then
           Inl (ValueError (''gdrive_policy: write_down_action must be '' @ repr_str ''DENY'' @ '' or '' @ repr_str ''ASK'' @ '', got '' @ repr_str write_down_action))
         else
           bind_res (normalize_file_refs read_files) (\<lambda>read_ids.
           bind_res (normalize_file_refs write_files) (\<lambda>write_ids.
           bind_res (normalize_file_refs comment_files) (\<lambda>comment_ids.
           bind_res (normalize_file_refs confidential_files) (\<lambda>confidential_ids.
             Inr (resolve_prefixes tool_prefixes,
                  \<lparr>dc_read_all = read_all, dc_read_ids = read_ids, dc_write_ids = write_ids, dc_comment_ids = comment_ids, dc_allow_create = allow_create,
                   dc_confidential_ids = confidential_ids, dc_write_down_action = action, dc_deny_reason = deny_reason\<rparr>))))))"


section \<open>Gmail\<close>

record gmail_cfg =
  mc_allow_read :: bool
  mc_allow_send :: bool
  mc_allow_drafts :: bool
  mc_allow_modify :: bool
  mc_deny_reason :: string

definition decide_gmail_tool_call :: "pydict \<Rightarrow> string list \<Rightarrow> gmail_cfg \<Rightarrow> pydict option res" where
  "decide_gmail_tool_call ev pfx cfg =
     (case parse_tool_call ev pfx of
        None \<Rightarrow> Inr None
      | Some parsed \<Rightarrow>
          (let canonical = pt_canonical parsed;
               gate = (\<lambda>allowed reason. if allowed then None else Some (google_deny (mc_deny_reason cfg @ '' '' @ reason)))
           in if canonical \<in> set GMAIL_READ_TOOLS then Inr (gate (mc_allow_read cfg) ''Reading mail is not permitted.'')
              else if canonical \<in> set GMAIL_SEND_TOOLS then Inr (gate (mc_allow_send cfg) ''Sending mail is not permitted (draft-only mode).'')
              else if canonical \<in> set GMAIL_DRAFT_CREATE_TOOLS then Inr (gate (mc_allow_drafts cfg) ''Creating drafts is not permitted.'')
              else if canonical \<in> set GMAIL_DRAFT_WRITE_TOOLS then
                (if \<not> mc_allow_drafts cfg then Inr (gate False ''Editing drafts is not permitted.'')
                 else
                   bind_res (created_ids_from_state (google_state ev) CREATED_DRAFTS_STATE_KEY) (\<lambda>created.
                   bind_res (extract_ids_from_args (pt_args parsed) GMAIL_DRAFT_ID_ARG_KEYS) (\<lambda>target_ids.
                     Inr (gate (target_ids \<noteq> [] \<and> (\<forall>i \<in> set target_ids. PStr i \<in> set created))
                       ''Draft edits are restricted to drafts created this session.''))))
              else if canonical \<in> set GMAIL_MODIFY_TOOLS then Inr (gate (mc_allow_modify cfg) ''Modifying messages / threads is not permitted.'')
              else if list_ex (startswith canonical) GMAIL_OWNED_PREFIXES then
                Inr (gate False (''Tool '' @ repr_str (pt_raw_tool parsed) @ '' is not permitted.''))
              else Inr None))"

definition gmail_evaluate :: "string list \<Rightarrow> gmail_cfg \<Rightarrow> pydict \<Rightarrow> pydict option res" where
  "gmail_evaluate pfx cfg ev =
     (if pget ev ''type'' = PStr ''tool_result'' then
        bind_res (created_updates ev pfx GMAIL_DRAFT_CREATE_TOOLS GMAIL_DRAFT_RESULT_ID_KEYS CREATED_DRAFTS_STATE_KEY) (\<lambda>updates.
          Inr (google_updates updates))
      else if pget ev ''type'' = PStr ''tool_call'' then decide_gmail_tool_call ev pfx cfg
      else Inr None)"

definition gmail_policy :: "bool \<Rightarrow> bool \<Rightarrow> bool \<Rightarrow> bool \<Rightarrow> string list option \<Rightarrow> string \<Rightarrow> string list \<times> gmail_cfg" where
  "gmail_policy allow_read allow_send allow_drafts allow_modify tool_prefixes deny_reason =
     (resolve_prefixes tool_prefixes,
      \<lparr>mc_allow_read = allow_read, mc_allow_send = allow_send, mc_allow_drafts = allow_drafts, mc_allow_modify = allow_modify, mc_deny_reason = deny_reason\<rparr>)"

section \<open>Calendar\<close>

record cal_cfg =
  kc_allow_read :: bool
  kc_allow_create_events :: bool
  kc_allow_modify_events :: bool
  kc_deny_reason :: string

definition decide_calendar_tool_call :: "pydict \<Rightarrow> string list \<Rightarrow> cal_cfg \<Rightarrow> pydict option" where
  "decide_calendar_tool_call ev pfx cfg =
     (case parse_tool_call ev pfx of
        None \<Rightarrow> None
      | Some parsed \<Rightarrow>
          (let canonical = pt_canonical parsed;
               gate = (\<lambda>allowed reason. if allowed then None else Some (google_deny (kc_deny_reason cfg @ '' '' @ reason)))
           in if canonical \<in> set CAL_READ_TOOLS then gate (kc_allow_read cfg) ''Reading the calendar is not permitted.''
              else if canonical \<in> set CAL_CREATE_TOOLS then gate (kc_allow_create_events cfg) ''Creating events / calendars is not permitted.''
              else if canonical \<in> set CAL_MODIFY_TOOLS then gate (kc_allow_modify_events cfg) ''Modifying or deleting events is not permitted.''
              else if list_ex (startswith canonical) CAL_OWNED_PREFIXES then gate False (''Tool '' @ repr_str (pt_raw_tool parsed) @ '' is not permitted.'')
              else None))"

definition gcalendar_evaluate :: "string list \<Rightarrow> cal_cfg \<Rightarrow> pydict \<Rightarrow> pydict option" where
  "gcalendar_evaluate pfx cfg ev = (if pget ev ''type'' \<noteq> PStr ''tool_call'' then None else decide_calendar_tool_call ev pfx cfg)"

definition gcalendar_policy :: "bool \<Rightarrow> bool \<Rightarrow> bool \<Rightarrow> string list option \<Rightarrow> string \<Rightarrow> string list \<times> cal_cfg" where
  "gcalendar_policy allow_read allow_create_events allow_modify_events tool_prefixes deny_reason =
     (resolve_prefixes tool_prefixes,
      \<lparr>kc_allow_read = allow_read, kc_allow_create_events = allow_create_events, kc_allow_modify_events = allow_modify_events, kc_deny_reason = deny_reason\<rparr>)"


end
