(* ===== verification/GoogleProperties.thy ===== *)
theory GoogleProperties
  imports SafetyProperties Google
begin

text \<open>
  The Google policies through the engine: once a session has read a confidential file, nothing it writes leaves the confidential set; and what the three
  policies let pass.
\<close>

section \<open>The Drive policy in the engine\<close>

definition drive_policy :: "policy_spec \<Rightarrow> string list \<Rightarrow> drive_cfg \<Rightarrow> 's \<Rightarrow> 's policy" where
  "drive_policy spec pfx cfg s0 =
     function_policy spec (event_callable
       (\<lambda>ev. bind_res (gdrive_evaluate pfx cfg ev) (\<lambda>r. Inr (case r of None \<Rightarrow> RNone | Some d \<Rightarrow> RDict d))) s0)"

definition drive_ok :: "drive_cfg \<Rightarrow> bool" where
  "drive_ok cfg \<longleftrightarrow> dc_confidential_ids cfg \<noteq> [] \<and> dc_write_down_action cfg \<in> {''DENY'', ''ASK''}"

definition latched :: "pydict \<Rightarrow> bool" where
  "latched state \<longleftrightarrow> truthy (pget state READ_CONFIDENTIAL_STATE_KEY)"

definition append_update :: "string \<Rightarrow> string \<Rightarrow> state_update" where
  "append_update k i = \<lparr>su_key = k, su_action = APPEND, su_value = PStr i\<rparr>"

definition latch_update :: state_update where
  "latch_update = \<lparr>su_key = READ_CONFIDENTIAL_STATE_KEY, su_action = SET, su_value = PBool True\<rparr>"

definition drive_update :: "state_update \<Rightarrow> bool" where
  "drive_update u \<longleftrightarrow> u = latch_update \<or> (\<exists>i. u = append_update CREATED_FILES_STATE_KEY i)"

lemma drive_policy_spec [simp]: "pol_spec (drive_policy spec pfx cfg s0) = spec"
  by (simp add: drive_policy_def function_policy_def)

lemma str_lower_append [simp]: "str_lower ''append'' = ''append''"
  by code_simp

lemma coerce_appends:
  "mapM_res (coerce_entry n) (map (append_entry k) ids) = Inr (map (append_update k) ids)"
  by (induction ids) (simp_all add: coerce_entry_def append_entry_def append_update_def pget_def state_update_action_of_def)

lemma coerce_latch: "coerce_entry n latch_entry = Inr latch_update"
  by (simp add: coerce_entry_def latch_entry_def latch_update_def pget_def state_update_action_of_def)

lemma mapM_append: "mapM_res f xs = Inr a \<Longrightarrow> mapM_res f ys = Inr b \<Longrightarrow> mapM_res f (xs @ ys) = Inr (a @ b)"
proof (induction xs arbitrary: a)
  case (Cons x xs)
  then show ?case by (cases "f x"; cases "mapM_res f xs") auto
qed simp

text \<open>The entries the policy may ask for, and the updates they become.\<close>

definition drive_entries :: "pyval list \<Rightarrow> bool" where
  "drive_entries es \<longleftrightarrow> (\<exists>ids l. es = map (append_entry CREATED_FILES_STATE_KEY) ids @ l \<and> (l = [] \<or> l = [latch_entry]))"

lemma coerce_drive_entries:
  assumes "drive_entries es"
  shows "\<exists>us. mapM_res (coerce_entry n) es = Inr us \<and> (\<forall>u \<in> set us. drive_update u) \<and> (latch_entry \<in> set es \<longrightarrow> latch_update \<in> set us) \<and> (us = [] \<longleftrightarrow> es = [])"
proof -
  obtain ids l where es: "es = map (append_entry CREATED_FILES_STATE_KEY) ids @ l" "l = [] \<or> l = [latch_entry]"
    using assms by (auto simp: drive_entries_def)
  have "latch_entry \<notin> set (map (append_entry CREATED_FILES_STATE_KEY) ids)"
    by (auto simp: latch_entry_def append_entry_def)
  moreover have "mapM_res (coerce_entry n) l = Inr (if l = [] then [] else [latch_update])" using es(2) coerce_latch by auto
  ultimately show ?thesis
    using mapM_append [OF coerce_appends [of n CREATED_FILES_STATE_KEY ids], of l] es by (auto simp: drive_update_def split: if_splits)
qed

lemma created_entries:
  assumes "created_updates ev pfx DRIVE_CREATE_TOOLS keys CREATED_FILES_STATE_KEY = Inr es"
  shows "\<exists>ids. es = map (append_entry CREATED_FILES_STATE_KEY) ids"
proof (cases "append_updates (extract_created_ids GOOGLE_RESULT_SCAN_DEPTH keys (google_result_payload (pget ev ''data'')))
    (pget (google_state ev) CREATED_FILES_STATE_KEY) CREATED_FILES_STATE_KEY")
  case (Inl e)
  then show ?thesis using assms by (auto simp: created_updates_def Let_def split: option.splits if_splits)
next
  case (Inr us)
  then have "\<exists>ids. us = map (append_entry CREATED_FILES_STATE_KEY) ids"
    unfolding append_updates_def by (auto split: pyval.splits elim!: bind_res.elims)
  then show ?thesis using assms Inr by (auto simp: created_updates_def Let_def split: option.splits if_splits)
qed

lemma latch_entries:
  "(case result_tool ev pfx of
      Some canonical \<Rightarrow> if dc_confidential_ids cfg \<noteq> [] \<and> canonical \<in> set DRIVE_READ_TOOLS then read_confidential_update ev cfg else Inr []
    | None \<Rightarrow> Inr []) = Inr l \<Longrightarrow> l = [] \<or> l = [latch_entry]"
  by (auto simp: read_confidential_update_def Let_def split: option.splits if_splits elim!: bind_res.elims)

text \<open>A response of the policy is a refusal, an escalation or a list of updates.\<close>

definition refusal :: "drive_cfg \<Rightarrow> pydict option \<Rightarrow> bool" where
  "refusal cfg x \<longleftrightarrow> (\<forall>d. x = Some d \<longrightarrow> (\<exists>why. d = google_deny why) \<or> (\<exists>why. d = escalate cfg why))"

lemma refusal_if: "refusal cfg a \<Longrightarrow> refusal cfg b \<Longrightarrow> refusal cfg (if c then a else b)"
  by simp

lemma refusal_base: "refusal cfg None" "refusal cfg (Some (google_deny why))" "refusal cfg (check_no_write_down ts ev cfg)"
  by (auto simp: refusal_def check_no_write_down_def split: if_splits)

lemma call_refusal:
  assumes "decide_drive_tool_call ev pfx cfg = Inr x"
  shows "refusal cfg x"
proof (cases "parse_tool_call ev pfx")
  case None
  then show ?thesis using assms by (simp add: decide_drive_tool_call_def refusal_base)
next
  case (Some p)
  show ?thesis
    using assms unfolding decide_drive_tool_call_def Some option.case Let_def bind_res_eq_Inr sum.inject
    by (elim exE conjE, hypsubst) (intro refusal_if refusal_base)
qed

lemma drive_responses:
  assumes "gdrive_evaluate pfx cfg ev = Inr (Some d)"
  shows "(\<exists>why. d = google_deny why) \<or> (\<exists>why. d = escalate cfg why) \<or>
    (\<exists>es. d = [(''result'', PStr ''ALLOW''), (''state_updates'', PList es)] \<and> drive_entries es \<and> es \<noteq> [])"
proof (cases "pget ev ''type'' = PStr ''tool_result''")
  case True
  then have "record_drive_result ev pfx cfg = Inr (Some d)" using assms by (simp add: gdrive_evaluate_def)
  then obtain es l where e: "created_updates ev pfx DRIVE_CREATE_TOOLS FILE_RESULT_ID_KEYS CREATED_FILES_STATE_KEY = Inr es"
      "(case result_tool ev pfx of
          Some canonical \<Rightarrow> if dc_confidential_ids cfg \<noteq> [] \<and> canonical \<in> set DRIVE_READ_TOOLS then read_confidential_update ev cfg else Inr []
        | None \<Rightarrow> Inr []) = Inr l" "google_updates (es @ l) = Some d"
    unfolding record_drive_result_def bind_res_eq_Inr by blast
  then have "drive_entries (es @ l)" using created_entries [OF e(1)] latch_entries [OF e(2)] by (auto simp: drive_entries_def)
  then show ?thesis using e(3) by (auto simp: google_updates_def split: if_splits)
next
  case False
  then have "decide_drive_tool_call ev pfx cfg = Inr (Some d)" using assms by (auto simp: gdrive_evaluate_def split: if_splits)
  then show ?thesis using call_refusal [of ev pfx cfg "Some d"] by (auto simp: refusal_def)
qed


lemma drive_action:
  assumes "drive_ok cfg"
  shows "\<exists>a. policy_action_of (str_lower (dc_write_down_action cfg)) = Some a \<and> a \<noteq> ALLOW"
  using assms by (auto simp: drive_ok_def policy_action_of_def)

lemma updates_result:
  assumes "mapM_res (coerce_entry n) es = Inr us" and "us \<noteq> []"
  shows "coerce_to_policy_result n (RDict [(''result'', PStr ''ALLOW''), (''state_updates'', PList es)]) =
    Inr ((policy_result_of ALLOW)\<lparr>pr_state_updates := Some us\<rparr>)"
  using assms by (simp add: coerce_to_policy_result_def policy_result_from_dict_def pget_def policy_action_of_def
      coerce_state_updates_def dict_or_none_def policy_result_of_def or_none_def)

text \<open>Whatever happens, the verdict refuses without a write, or allows and writes only what the policy tracks.\<close>

definition drive_verdict :: "policy_result \<Rightarrow> bool" where
  "drive_verdict v \<longleftrightarrow> pr_set_labels v = None \<and>
     (pr_state_updates v = None \<or> pr_action v = ALLOW \<and> (\<exists>us. pr_state_updates v = Some us \<and> (\<forall>u \<in> set us. drive_update u)))"

lemma drive_dispatch:
  assumes "drive_ok cfg"
  shows "\<exists>v. dispatch_policy (drive_policy spec pfx cfg s0) ctx b = (v, drive_policy spec pfx cfg s0) \<and> drive_verdict v \<and>
    (case gdrive_evaluate pfx cfg (ev_fields (build_event ctx)) of
       Inl e \<Rightarrow> pr_action v = DENY
     | Inr None \<Rightarrow> pr_action v = ALLOW
     | Inr (Some d) \<Rightarrow>
         (case dget d ''state_updates'' of
            Some (PList es) \<Rightarrow> latch_entry \<in> set es \<longrightarrow> (\<exists>us. pr_state_updates v = Some us \<and> latch_update \<in> set us)
          | _ \<Rightarrow> pr_action v \<noteq> ALLOW))"
proof -
  let ?r = "gdrive_evaluate pfx cfg (ev_fields (build_event ctx))"
  have refuse: ?thesis if "?r = Inr (Some [(''result'', PStr a), (''reason'', w)])" and "policy_action_of (str_lower a) = Some act" and "act \<noteq> ALLOW" for a w act
    using that coerce_verdict [OF that(2), of "ps_name spec" w]
    by (simp add: drive_policy_def dispatch_event_callable drive_verdict_def policy_result_of_def)
  show ?thesis
  proof (cases ?r)
    case (Inl e)
    then show ?thesis by (simp add: drive_policy_def dispatch_event_callable drive_verdict_def policy_result_of_def)
  next
    case r: (Inr x)
    show ?thesis
    proof (cases x)
      case None
      then show ?thesis using r
        by (simp add: drive_policy_def dispatch_event_callable drive_verdict_def policy_result_of_def coerce_to_policy_result_def)
    next
      case (Some d)
      then have r: "?r = Inr (Some d)" using r by simp
      from drive_responses [OF r] consider (deny) why where "d = google_deny why" | (esc) why where "d = escalate cfg why"
        | (ups) es where "d = [(''result'', PStr ''ALLOW''), (''state_updates'', PList es)]" "drive_entries es" "es \<noteq> []"
        by blast
      then show ?thesis
      proof cases
        case deny
        show ?thesis by (rule refuse [of "''DENY''" "PStr why" DENY]) (use r deny in \<open>simp_all add: google_deny_def policy_action_of_def\<close>)
      next
        case esc
        obtain a where "policy_action_of (str_lower (dc_write_down_action cfg)) = Some a" "a \<noteq> ALLOW" using drive_action [OF assms] by blast
        then show ?thesis using refuse r esc unfolding escalate_def by blast
      next
        case ups
        then obtain us where us: "mapM_res (coerce_entry (ps_name spec)) es = Inr us" "\<forall>u \<in> set us. drive_update u"
            "latch_entry \<in> set es \<longrightarrow> latch_update \<in> set us" "us \<noteq> []"
          using coerce_drive_entries [of es "ps_name spec"] by blast
        from updates_result [OF us(1,4)] r ups(1) us(2,3) show ?thesis
          by (simp add: drive_policy_def dispatch_event_callable drive_verdict_def policy_result_of_def)
      qed
    qed
  qed
qed

section \<open>The latch\<close>

lemma drive_key_ordinary:
  assumes "drive_update u"
  shows "su_key u \<noteq> USER_DAILY_ASK_APPROVED_STATE_KEY" and "\<not> root_routed en u"
  using assms by (auto simp: drive_update_def latch_update_def append_update_def root_routed_def READ_CONFIDENTIAL_STATE_KEY_def CREATED_FILES_STATE_KEY_def
      USER_DAILY_ASK_APPROVED_STATE_KEY_def SESSION_COST_ASK_APPROVED_STATE_KEY_def SESSION_COST_UNPRICED_APPROVED_KEY_def)

lemma route_drive_updates:
  "\<forall>u \<in> set us. drive_update u \<Longrightarrow> route_updates today en us acc = (Inr (acc @ us), en)"
  by (induction us arbitrary: acc) (simp_all add: drive_key_ordinary)

lemma keys_differ: "CREATED_FILES_STATE_KEY \<noteq> READ_CONFIDENTIAL_STATE_KEY" "READ_CONFIDENTIAL_STATE_KEY \<noteq> CREATED_FILES_STATE_KEY"
  by (simp_all add: CREATED_FILES_STATE_KEY_def READ_CONFIDENTIAL_STATE_KEY_def)

lemma apply_one_latch:
  "apply_one state latch_update = Inr (dset state READ_CONFIDENTIAL_STATE_KEY (PBool True))"
  by (simp add: apply_one.simps latch_update_def)

lemma apply_one_latched:
  assumes "drive_update u" and "latched state" and "apply_one state u = Inr state'"
  shows "latched state'"
  using assms unfolding drive_update_def
proof (elim disjE exE)
  assume "u = latch_update"
  then show ?thesis using assms(3) by (auto simp: apply_one_latch latched_def pget_def)
next
  fix i assume "u = append_update CREATED_FILES_STATE_KEY i"
  then show ?thesis using assms(2,3)
    by (auto simp: apply_one.simps append_update_def latched_def pget_def keys_differ split: pyval.splits option.splits)
qed

lemma apply_ops_latched:
  "\<forall>u \<in> set us. drive_update u \<Longrightarrow> latched state \<Longrightarrow> latched (snd (apply_ops state us))"
proof (induction us arbitrary: state)
  case (Cons u us)
  then show ?case using apply_one_latched [of u state] by (cases "apply_one state u") simp_all
qed simp

lemma apply_updates_latched:
  assumes "\<forall>u \<in> set us. drive_update u" and "latched (en_session_state en)"
  shows "latched (en_session_state (snd (apply_state_updates today en us)))"
  using apply_ops_latched [OF assms] by (auto simp: apply_state_updates_def route_drive_updates [OF assms(1)] split: prod.splits sum.splits)

lemma apply_updates_policies:
  assumes "\<forall>u \<in> set us. drive_update u"
  shows "en_policies (snd (apply_state_updates today en us)) = en_policies en"
  by (auto simp: apply_state_updates_def route_drive_updates [OF assms(1)] split: prod.splits sum.splits)

lemma drive_effects:
  assumes "drive_verdict v"
  shows "compose_effects today en False [(spec, v)] =
    (case pr_state_updates v of None \<Rightarrow> (Inr (), en) | Some us \<Rightarrow> apply_state_updates today en us)"
proof -
  have l: "label_writes [(spec, v)] = []" using assms by (simp add: drive_verdict_def label_writes_def filter_writable_labels_def)
  have s: "state_writes [(spec, v)] = (case pr_state_updates v of None \<Rightarrow> [] | Some us \<Rightarrow> us)"
    by (auto simp: state_writes_def split: option.splits)
  show ?thesis using assms l s
    by (cases "pr_action v") (auto simp: compose_effects_def drive_verdict_def apply_state_updates_def apply_label_writes_def split: option.splits)
qed

lemma drive_verdict_updates: "drive_verdict v \<Longrightarrow> pr_state_updates v = Some us \<Longrightarrow> \<forall>u \<in> set us. drive_update u"
  by (auto simp: drive_verdict_def)

lemma drive_evaluate:
  assumes "en_policies en = [drive_policy spec pfx cfg s0]" and "unconditional spec" and "drive_verdict v"
    and "dispatch_policy (drive_policy spec pfx cfg s0) (prepare_ctx en ctx) (context_bundle en) = (v, drive_policy spec pfx cfg s0)"
  shows "evaluate_composed today en ctx False =
    (case (case pr_state_updates v of None \<Rightarrow> (Inr (), en) | Some us \<Rightarrow> apply_state_updates today en us) of
       (Inl e, en') \<Rightarrow> (Inl e, en')
     | (Inr x, en') \<Rightarrow> (Inr (composed_result [(spec, v)]), en'))"
proof -
  have vs: "verdicts en ctx = [(spec, v)]" "policies_after en ctx = [drive_policy spec pfx cfg s0]"
    using evaluate_single [OF assms(1) _ assms(4)] assms(2) by simp_all
  have "en\<lparr>en_policies := [drive_policy spec pfx cfg s0]\<rparr> = en" using assms(1) by simp
  then show ?thesis unfolding evaluate_composed_spec vs by (simp only: drive_effects [OF assms(3)])
qed

lemma drive_step:
  assumes "en_policies en = [drive_policy spec pfx cfg s0]" and "unconditional spec" and "drive_ok cfg"
  shows "en_policies (snd (evaluate_composed today en ctx False)) = [drive_policy spec pfx cfg s0]"
    and "latched (en_session_state en) \<Longrightarrow> latched (en_session_state (snd (evaluate_composed today en ctx False)))"
proof -
  obtain v where v: "dispatch_policy (drive_policy spec pfx cfg s0) (prepare_ctx en ctx) (context_bundle en) = (v, drive_policy spec pfx cfg s0)"
    "drive_verdict v"
    using drive_dispatch [OF assms(3), of spec pfx s0 "prepare_ctx en ctx" "context_bundle en"] by (elim exE conjE)
  note ev = drive_evaluate [OF assms(1,2) v(2,1), of today]
  have e: "snd (evaluate_composed today en ctx False) = (case pr_state_updates v of None \<Rightarrow> en | Some us \<Rightarrow> snd (apply_state_updates today en us))"
    by (auto simp: ev split: option.splits prod.splits sum.splits)
  show "en_policies (snd (evaluate_composed today en ctx False)) = [drive_policy spec pfx cfg s0]"
    using assms(1) drive_verdict_updates [OF v(2)] by (auto simp: e apply_updates_policies split: option.splits)
  show "latched (en_session_state (snd (evaluate_composed today en ctx False)))" if "latched (en_session_state en)"
    using that drive_verdict_updates [OF v(2)] by (auto simp: e apply_updates_latched split: option.splits)
qed

lemma drive_run:
  assumes "en_policies en = [drive_policy spec pfx cfg s0]" and "unconditional spec" and "drive_ok cfg"
  shows "en_policies (snd (run_calls today en ctxs)) = [drive_policy spec pfx cfg s0] \<and>
    (latched (en_session_state en) \<longrightarrow> latched (en_session_state (snd (run_calls today en ctxs))))"
  using assms(1)
proof (induction ctxs arbitrary: en)
  case (Cons ctx ctxs)
  note st = drive_step [OF Cons.prems assms(2,3), of today ctx]
  from Cons.IH [OF st(1)] st(2) show ?case by (simp add: split_beta)
qed simp

lemma run_calls_append:
  "run_calls today en (xs @ ys) =
   (fst (run_calls today en xs) @ fst (run_calls today (snd (run_calls today en xs)) ys), snd (run_calls today (snd (run_calls today en xs)) ys))"
  by (induction xs arbitrary: en) (simp_all add: split_beta)

lemma run_calls_length: "length (fst (run_calls today en ctxs)) = length ctxs"
  by (induction ctxs arbitrary: en) (simp_all add: split_beta)



section \<open>Reading up and writing down\<close>

text \<open>The result of a read of a confidential file, and a call that writes to something outside the confidential set.\<close>

definition call_args :: "pyval \<Rightarrow> pydict" where
  "call_args v = (case v of PDict d \<Rightarrow> (case pget d ''arguments'' of PDict a \<Rightarrow> a | _ \<Rightarrow> []) | _ \<Rightarrow> [])"

definition reads_confidential :: "string list \<Rightarrow> drive_cfg \<Rightarrow> evaluation_context \<Rightarrow> bool" where
  "reads_confidential pfx cfg ctx \<longleftrightarrow> ec_phase ctx = TOOL_RESULT \<and>
     (case ec_tool_name ctx of Some t \<Rightarrow> google_canonical_name t pfx \<in> set DRIVE_READ_TOOLS | None \<Rightarrow> False) \<and>
     (case extract_ids_from_args (call_args (ec_request_data ctx)) FILE_ID_ARG_KEYS of
        Inr ids \<Rightarrow> \<exists>i \<in> set ids. i \<in> set (dc_confidential_ids cfg) | Inl e \<Rightarrow> False)"

definition writes_outside :: "string list \<Rightarrow> drive_cfg \<Rightarrow> evaluation_context \<Rightarrow> bool" where
  "writes_outside pfx cfg ctx \<longleftrightarrow> ec_phase ctx = TOOL_CALL \<and>
     (case ec_content ctx of
        PDict d \<Rightarrow> (case dget d ''name'' of
                     Some (PStr t) \<Rightarrow> google_canonical_name t pfx \<in> set (DRIVE_WRITE_TOOLS @ DRIVE_COMMENT_TOOLS @ DRIVE_CREATE_TOOLS)
                   | _ \<Rightarrow> False)
      | _ \<Rightarrow> False) \<and>
     (case extract_ids_from_args (call_args (ec_content ctx)) FILE_ID_ARG_KEYS of
        Inr ids \<Rightarrow> ids = [] \<or> (\<exists>i \<in> set ids. i \<notin> set (dc_confidential_ids cfg)) | Inl e \<Rightarrow> True)"

lemma tool_groups_disjoint:
  "t \<in> set DRIVE_READ_TOOLS \<Longrightarrow> t \<notin> set DRIVE_CREATE_TOOLS"
  "t \<in> set (DRIVE_WRITE_TOOLS @ DRIVE_COMMENT_TOOLS @ DRIVE_CREATE_TOOLS) \<Longrightarrow> t \<notin> set DRIVE_READ_TOOLS"
proof -
  have "list_all (\<lambda>r. r \<notin> set DRIVE_CREATE_TOOLS) DRIVE_READ_TOOLS" by code_simp
  then show "t \<in> set DRIVE_READ_TOOLS \<Longrightarrow> t \<notin> set DRIVE_CREATE_TOOLS" by (simp add: list_all_iff)
  have "list_all (\<lambda>r. r \<notin> set DRIVE_READ_TOOLS) (DRIVE_WRITE_TOOLS @ DRIVE_COMMENT_TOOLS @ DRIVE_CREATE_TOOLS)" by code_simp
  then show "t \<in> set (DRIVE_WRITE_TOOLS @ DRIVE_COMMENT_TOOLS @ DRIVE_CREATE_TOOLS) \<Longrightarrow> t \<notin> set DRIVE_READ_TOOLS" unfolding list_all_iff by blast
qed

lemma engine_google_state: "google_state (ev_fields (build_event (prepare_ctx en ctx))) = en_session_state en"
  by (simp add: google_state_def opt_dict_def or_dict_def)

lemma request_data_read: "pget (ev_fields (build_event ctx)) ''request_data'' = ec_request_data ctx"
  by (simp add: build_event_def pget_def)

lemma read_response:
  assumes "reads_confidential pfx cfg ctx" and "drive_ok cfg" and "\<not> latched (en_session_state en)"
  shows "gdrive_evaluate pfx cfg (ev_fields (build_event (prepare_ctx en ctx))) =
    Inr (Some [(''result'', PStr ''ALLOW''), (''state_updates'', PList [latch_entry])])"
proof -
  let ?ev = "ev_fields (build_event (prepare_ctx en ctx))"
  obtain t where t: "ec_tool_name ctx = Some t" "google_canonical_name t pfx \<in> set DRIVE_READ_TOOLS"
    using assms(1) by (auto simp: reads_confidential_def split: option.splits)
  obtain ids where ids: "extract_ids_from_args (call_args (ec_request_data ctx)) FILE_ID_ARG_KEYS = Inr ids"
      "\<exists>i \<in> set ids. i \<in> set (dc_confidential_ids cfg)"
    using assms(1) by (auto simp: reads_confidential_def split: sum.splits)
  have tool: "result_tool ?ev pfx = Some (google_canonical_name t pfx)" using t(1) by (simp add: result_tool_def opt_str_def)
  have "created_updates ?ev pfx DRIVE_CREATE_TOOLS FILE_RESULT_ID_KEYS CREATED_FILES_STATE_KEY = Inr []"
    using tool tool_groups_disjoint(1) [OF t(2)] by (simp add: created_updates_def)
  moreover have "read_confidential_update ?ev cfg = Inr [latch_entry]"
    using ids assms(2,3)
    by (auto simp: read_confidential_update_def drive_ok_def engine_google_state latched_def request_data_read call_args_def [symmetric])
  ultimately have "record_drive_result ?ev pfx cfg = Inr (Some [(''result'', PStr ''ALLOW''), (''state_updates'', PList [latch_entry])])"
    using tool t(2) assms(2) by (simp add: record_drive_result_def google_updates_def drive_ok_def)
  then show ?thesis using assms(1) by (simp add: gdrive_evaluate_def reads_confidential_def)
qed

lemma apply_latch:
  "latched (en_session_state (snd (apply_state_updates today en [latch_update])))"
proof -
  have "\<forall>u \<in> set [latch_update]. drive_update u" by (simp add: drive_update_def)
  from route_drive_updates [OF this, of today en "[]"] show ?thesis
    by (simp add: apply_state_updates_def apply_one_latch latched_def pget_def del: route_updates.simps)
qed

lemma read_latches:
  assumes "en_policies en = [drive_policy spec pfx cfg s0]" and "unconditional spec" and "drive_ok cfg" and "reads_confidential pfx cfg ctx"
  shows "latched (en_session_state (snd (evaluate_composed today en ctx False)))"
proof (cases "latched (en_session_state en)")
  case True
  then show ?thesis by (rule drive_step(2) [OF assms(1-3)])
next
  case False
  let ?v = "(policy_result_of ALLOW)\<lparr>pr_state_updates := Some [latch_update]\<rparr>"
  have c: "mapM_res (coerce_entry (ps_name spec)) [latch_entry] = Inr [latch_update]" by (simp add: coerce_latch)
  have d: "dispatch_policy (drive_policy spec pfx cfg s0) (prepare_ctx en ctx) (context_bundle en) = (?v, drive_policy spec pfx cfg s0)"
    using read_response [OF assms(4,3) False] updates_result [OF c] by (simp add: drive_policy_def dispatch_event_callable)
  have ok: "drive_verdict ?v" by (simp add: drive_verdict_def policy_result_of_def drive_update_def)
  have "snd (evaluate_composed today en ctx False) = snd (apply_state_updates today en [latch_update])"
    unfolding drive_evaluate [OF assms(1,2) ok d] by (simp add: split_beta split: sum.splits)
  then show ?thesis by (simp add: apply_latch)
qed

lemma write_response:
  assumes "writes_outside pfx cfg ctx" and "drive_ok cfg" and "latched (en_session_state en)"
  shows "(\<exists>e. decide_drive_tool_call (ev_fields (build_event (prepare_ctx en ctx))) pfx cfg = Inl e) \<or>
    (\<exists>why. decide_drive_tool_call (ev_fields (build_event (prepare_ctx en ctx))) pfx cfg = Inr (Some (escalate cfg why)))"
proof -
  let ?ev = "ev_fields (build_event (prepare_ctx en ctx))"
  obtain data t where d: "ec_content ctx = PDict data" "dget data ''name'' = Some (PStr t)"
      "google_canonical_name t pfx \<in> set (DRIVE_WRITE_TOOLS @ DRIVE_COMMENT_TOOLS @ DRIVE_CREATE_TOOLS)"
    using assms(1) unfolding writes_outside_def by (simp split: pyval.splits option.splits)
  then have p: "parse_tool_call ?ev pfx = Some \<lparr>pt_canonical = google_canonical_name t pfx, pt_raw_tool = t, pt_args = call_args (ec_content ctx)\<rparr>"
    by (simp add: parse_tool_call_def call_args_def) (simp add: pget_def)
  note nr = tool_groups_disjoint(2) [OF d(3)]
  show ?thesis
  proof (cases "extract_ids_from_args (call_args (ec_content ctx)) FILE_ID_ARG_KEYS")
    case (Inl e)
    then show ?thesis by (simp add: decide_drive_tool_call_def p)
  next
    case ids: (Inr ids)
    then have out: "\<not> (ids \<noteq> [] \<and> set ids \<subseteq> set (dc_confidential_ids cfg))"
      using assms(1) by (auto simp: writes_outside_def)
    obtain why where c: "check_no_write_down ids ?ev cfg = Some (escalate cfg why)"
      using assms(2,3) out by (auto simp: check_no_write_down_def engine_google_state latched_def drive_ok_def)
    show ?thesis
    proof (cases "created_ids_from_state (google_state ?ev) CREATED_FILES_STATE_KEY")
      case (Inl e)
      then show ?thesis using ids by (simp add: decide_drive_tool_call_def p)
    next
      case (Inr created)
      have g: "google_canonical_name t pfx \<in> set (DRIVE_WRITE_TOOLS @ DRIVE_COMMENT_TOOLS @ DRIVE_CREATE_TOOLS) \<and> check_no_write_down ids ?ev cfg \<noteq> None"
        using d(3) c by blast
      have "decide_drive_tool_call ?ev pfx cfg = Inr (Some (escalate cfg why))"
        unfolding decide_drive_tool_call_def p option.case Let_def parsed_tool_call.select_convs ids bind_res.simps Inr if_not_P [OF nr] if_P [OF g]
        by (simp only: c)
      then show ?thesis by blast
    qed
  qed
qed

lemma write_refused:
  assumes "en_policies en = [drive_policy spec pfx cfg s0]" and "unconditional spec" and "drive_ok cfg" and "writes_outside pfx cfg ctx"
    and "latched (en_session_state en)"
  shows "\<exists>r. fst (evaluate_composed today en ctx False) = Inr r \<and> pr_action r \<noteq> ALLOW"
proof -
  let ?ev = "ev_fields (build_event (prepare_ctx en ctx))"
  obtain v where v: "dispatch_policy (drive_policy spec pfx cfg s0) (prepare_ctx en ctx) (context_bundle en) = (v, drive_policy spec pfx cfg s0)"
    "drive_verdict v" and act: "case gdrive_evaluate pfx cfg ?ev of
       Inl e \<Rightarrow> pr_action v = DENY
     | Inr None \<Rightarrow> pr_action v = ALLOW
     | Inr (Some d) \<Rightarrow>
         (case dget d ''state_updates'' of
            Some (PList es) \<Rightarrow> latch_entry \<in> set es \<longrightarrow> (\<exists>us. pr_state_updates v = Some us \<and> latch_update \<in> set us)
          | _ \<Rightarrow> pr_action v \<noteq> ALLOW)"
    using drive_dispatch [OF assms(3), of spec pfx s0 "prepare_ctx en ctx" "context_bundle en"] by (elim exE conjE)
  have "gdrive_evaluate pfx cfg ?ev = decide_drive_tool_call ?ev pfx cfg"
    using assms(4) by (simp add: gdrive_evaluate_def writes_outside_def)
  moreover have "(\<exists>e. decide_drive_tool_call ?ev pfx cfg = Inl e) \<or> (\<exists>why. decide_drive_tool_call ?ev pfx cfg = Inr (Some (escalate cfg why)))"
    by (rule write_response [OF assms(4,3,5)])
  ultimately have n: "pr_action v \<noteq> ALLOW" using act by (auto simp: escalate_def)
  then have "pr_state_updates v = None" using v(2) by (auto simp: drive_verdict_def)
  then show ?thesis using n by (simp add: drive_evaluate [OF assms(1,2) v(2,1)] composed_result_def)
qed



definition fx_drive :: drive_cfg where
  "fx_drive =
     \<lparr>dc_read_all = True, dc_read_ids = [], dc_write_ids = [''PUBLIC''], dc_comment_ids = [], dc_allow_create = True, dc_confidential_ids = [''SECRET''],
      dc_write_down_action = ''DENY'', dc_deny_reason = ''r''\<rparr>"

definition fx_drive_call :: "string \<Rightarrow> string \<Rightarrow> pyval" where
  "fx_drive_call t i = PDict [(''name'', PStr t), (''arguments'', PDict [(''file_id'', PStr i)])]"

definition fx_read_secret :: evaluation_context where
  "fx_read_secret = (fx_ctx TOOL_RESULT)\<lparr>ec_tool_name := Some ''mcp__google__drive_file_get'',
     ec_request_data := fx_drive_call ''mcp__google__drive_file_get'' ''https://docs.google.com/file/d/SECRET/edit''\<rparr>"

definition fx_write_public :: evaluation_context where
  "fx_write_public = (fx_ctx TOOL_CALL)\<lparr>ec_content := fx_drive_call ''google__drive_file_update'' ''PUBLIC''\<rparr>"

lemma fx_secret_read: "reads_confidential GOOGLE_TOOL_PREFIXES fx_drive fx_read_secret"
  by code_simp

lemma fx_public_write: "writes_outside GOOGLE_TOOL_PREFIXES fx_drive fx_write_public"
  by code_simp



section \<open>What the rule lets through\<close>

text \<open>
  The rule looks at the identifiers in the arguments, not at where the data goes: after a confidential read, copying a confidential file that is on the write
  allowlist (into a new file outside the set) passes, and so does creating a file when the arguments carry a confidential identifier.
\<close>

definition fx_latched_event :: "string \<Rightarrow> string \<Rightarrow> pydict" where
  "fx_latched_event t i =
     [(''type'', PStr ''tool_call''), (''data'', fx_drive_call t i), (''session_state'', PDict [(READ_CONFIDENTIAL_STATE_KEY, PBool True)])]"

lemma copy_of_confidential_passes:
  "gdrive_evaluate GOOGLE_TOOL_PREFIXES (fx_drive\<lparr>dc_write_ids := [''SECRET'']\<rparr>) (fx_latched_event ''google__drive_file_copy'' ''SECRET'') = Inr None"
  by code_simp

lemma create_with_confidential_argument_passes:
  "gdrive_evaluate GOOGLE_TOOL_PREFIXES fx_drive (fx_latched_event ''google__drive_file_create'' ''SECRET'') = Inr None"
  by code_simp

text \<open>Every identifier in a create result is taken for a created file, however deep and whatever it names: here the folder.\<close>

lemma nested_identifier_recorded:
  "gdrive_evaluate GOOGLE_TOOL_PREFIXES fx_drive
     [(''type'', PStr ''tool_result''), (''target'', PStr ''google__drive_file_create''),
      (''data'', PDict [(''id'', PStr ''NEW''), (''folder'', PDict [(''id'', PStr ''SHARED'')])])] =
   Inr (Some [(''result'', PStr ''ALLOW''),
     (''state_updates'', PList (map (append_entry CREATED_FILES_STATE_KEY) [''NEW'', ''SHARED'']))])"
  by code_simp

section \<open>Gmail and Calendar\<close>

text \<open>
  A Gmail tool passes only if its group is permitted; drafts are edited only if this session created them; unknown Gmail tools never pass, nor do
  unknown Calendar tools.
\<close>

lemma gmail_passes_only:
  assumes "pget ev ''type'' = PStr ''tool_call''" and "parse_tool_call ev pfx = Some p" and "startswith (pt_canonical p) ''gmail_''"
    and "gmail_evaluate pfx cfg ev = Inr None"
  shows "pt_canonical p \<in> set GMAIL_READ_TOOLS \<and> mc_allow_read cfg \<or> pt_canonical p \<in> set GMAIL_SEND_TOOLS \<and> mc_allow_send cfg \<or>
    pt_canonical p \<in> set GMAIL_DRAFT_CREATE_TOOLS \<and> mc_allow_drafts cfg \<or> pt_canonical p \<in> set GMAIL_MODIFY_TOOLS \<and> mc_allow_modify cfg \<or>
    pt_canonical p \<in> set GMAIL_DRAFT_WRITE_TOOLS \<and> mc_allow_drafts cfg \<and>
      (\<exists>created ids. created_ids_from_state (google_state ev) CREATED_DRAFTS_STATE_KEY = Inr created \<and>
         extract_ids_from_args (pt_args p) GMAIL_DRAFT_ID_ARG_KEYS = Inr ids \<and> ids \<noteq> [] \<and> (\<forall>i \<in> set ids. PStr i \<in> set created))"
  using assms unfolding gmail_evaluate_def decide_gmail_tool_call_def
  by (auto simp: Let_def GMAIL_OWNED_PREFIXES_def split: if_splits)

lemma calendar_passes_only:
  assumes "pget ev ''type'' = PStr ''tool_call''" and "parse_tool_call ev pfx = Some p" and "startswith (pt_canonical p) ''calendar_''"
    and "gcalendar_evaluate pfx cfg ev = None"
  shows "pt_canonical p \<in> set CAL_READ_TOOLS \<and> kc_allow_read cfg \<or> pt_canonical p \<in> set CAL_CREATE_TOOLS \<and> kc_allow_create_events cfg \<or>
    pt_canonical p \<in> set CAL_MODIFY_TOOLS \<and> kc_allow_modify_events cfg"
  using assms unfolding gcalendar_evaluate_def decide_calendar_tool_call_def
  by (auto simp: Let_def CAL_OWNED_PREFIXES_def split: if_splits)

end
