(* ===== verification/EvaluateRoute.thy ===== *)
theory EvaluateRoute
  imports Builder Permissions Pending Approval
begin

text \<open>
  The policy evaluation route of the server (\<^verbatim>\<open>POST /sessions/{id}/policies/evaluate\<close> in \<^verbatim>\<open>server/routes/sessions.py\<close>, with the access check of
  \<^verbatim>\<open>_auth_helpers.py\<close>): validation of the request, the evaluation context, a fresh engine per request, and the gate that holds an ASK until a
  human answers. The agent store with its bundle cache, the JSON encoder, the human and what other requests do while this one waits are arguments.
\<close>

section \<open>Errors\<close>

text \<open>An \<^verbatim>\<open>OmnigentError\<close> with its code, or an exception the route does not catch (status 500).\<close>

datatype route_error = ApiError string string | Unhandled py_exn

definition http_status :: "route_error \<Rightarrow> int" where
  "http_status err =
     (case err of
        Unhandled e \<Rightarrow> 500
      | ApiError code m \<Rightarrow>
          (case map_of [(''unauthorized'', 401), (''forbidden'', 403), (''not_found'', 404), (''invalid_input'', 400), (''already_exists'', 409), (''conflict'', 409),
              (''internal_error'', 500), (''harness_protocol_violation'', 500), (''runner_unavailable'', 503), (''runner_capability_mismatch'', 503),
              (''harness_not_configured'', 412)] code of
             Some s \<Rightarrow> s | None \<Rightarrow> 500))"

section \<open>Access\<close>

definition LEVEL_NAMES :: "(int \<times> string) list" where
  "LEVEL_NAMES = [(1, ''read''), (2, ''edit''), (3, ''manage''), (4, ''owner'')]"

text \<open>The level shown for the caller is the direct grant on the session; the decision walks to the parents. \<open>None\<close> is an unbounded walk.\<close>

definition access_denied :: "string \<Rightarrow> string \<Rightarrow> int \<Rightarrow> bool \<Rightarrow> route_error" where
  "access_denied user cid lvl has_any =
     (if has_any then
        ApiError ''forbidden'' (repr_str user @ '' needs '' @ (case map_of LEVEL_NAMES lvl of Some n \<Rightarrow> n | None \<Rightarrow> str_of_int lvl) @
          '' permission on session '' @ repr_str cid)
      else ApiError ''not_found'' ''Conversation not found'')"

definition require_access_and_level ::
    "perm_db option \<Rightarrow> conv_store \<Rightarrow> string option \<Rightarrow> string \<Rightarrow> int \<Rightarrow> (route_error + int option) option" where
  "require_access_and_level perm st user cid lvl =
     (case perm of
        None \<Rightarrow> Some (Inr None)
      | Some db \<Rightarrow>
          (case user of
             None \<Rightarrow> Some (Inl (ApiError ''unauthorized'' ''Authentication required''))
           | Some u \<Rightarrow>
               (let acc = resolve_access db (Some u) cid
                in if ra_is_admin acc then Some (Inr (resolved_level acc))
                   else
                     (case get_conversation st cid of
                        None \<Rightarrow> Some (Inl (ApiError ''not_found'' ''Conversation not found''))
                      | Some conv \<Rightarrow>
                          (case cv_parent conv of
                             None \<Rightarrow>
                               Some (if resolved_allows acc lvl then Inr (resolved_level acc)
                                     else Inl (access_denied u cid lvl (resolved_allows acc 1)))
                           | Some p \<Rightarrow>
                               Option.bind (check_session_access db st (Some u) p lvl) (\<lambda>allowed.
                                 if allowed then Some (Inr (resolved_level acc))
                                 else map_option (\<lambda>has_any. Inl (access_denied u cid lvl has_any)) (check_session_access db st (Some u) p 1)))))))"

section \<open>The request\<close>

definition PROTO_EVENT_TYPE_TO_PHASE :: "(string \<times> phase) list" where
  "PROTO_EVENT_TYPE_TO_PHASE =
     [(''PHASE_TOOL_CALL'', TOOL_CALL), (''PHASE_TOOL_RESULT'', TOOL_RESULT), (''PHASE_LLM_REQUEST'', LLM_REQUEST), (''PHASE_LLM_RESPONSE'', LLM_RESPONSE),
      (''PHASE_REQUEST'', REQUEST)]"

definition proto_action :: "policy_action \<Rightarrow> string" where
  "proto_action a =
     (case a of ALLOW \<Rightarrow> ''POLICY_ACTION_ALLOW'' | DENY \<Rightarrow> ''POLICY_ACTION_DENY'' | ASK \<Rightarrow> ''POLICY_ACTION_ASK'')"

text \<open>\<^verbatim>\<open>^elicit_evaluate_[0-9a-f]{32}$\<close>, matched in full.\<close>

definition evaluate_id_ok :: "string \<Rightarrow> bool" where
  "evaluate_id_ok s \<longleftrightarrow> startswith s ''elicit_evaluate_'' \<and> length s = 48 \<and>
     list_all (\<lambda>c. is_digit c \<or> 97 \<le> char_code c \<and> char_code c \<le> 102) (drop 16 s)"

record eval_request =
  rq_phase :: phase
  rq_data :: pyval
  rq_event :: pydict
  rq_elicitation_id :: "string option"

text \<open>The body is \<open>None\<close> when it is not JSON (the decoder's text is left out of the message). A list or dictionary cannot be looked up in the table of event types.\<close>

definition event_phase :: "pyval \<Rightarrow> route_error + phase" where
  "event_phase v =
     (let unknown = Inl (ApiError ''invalid_input'' (''Unknown event type: '' @ py_repr v @ ''. Expected one of '' @
            py_repr (PList (map (PStr \<circ> fst) PROTO_EVENT_TYPE_TO_PHASE)) @ ''.''))
      in case v of
           PStr s \<Rightarrow> (case map_of PROTO_EVENT_TYPE_TO_PHASE s of Some ph \<Rightarrow> Inr ph | None \<Rightarrow> unknown)
         | PList (x # xs) \<Rightarrow> Inl (Unhandled (TypeError ''unhashable type: list''))
         | PDict (x # xs) \<Rightarrow> Inl (Unhandled (TypeError ''unhashable type: dict''))
         | _ \<Rightarrow> unknown)"

definition parse_evaluate_body :: "pyval option \<Rightarrow> route_error + eval_request" where
  "parse_evaluate_body body =
     (case body of
        None \<Rightarrow> Inl (ApiError ''invalid_input'' ''Invalid JSON in policy evaluate body'')
      | Some (PDict payload) \<Rightarrow>
          (case pget payload ''event'' of
             PDict event \<Rightarrow>
               (case event_phase (pget event ''type'') of
                  Inl e \<Rightarrow> Inl e
                | Inr ph \<Rightarrow>
                    (let data = (if truthy (pget event ''data'') then pget event ''data'' else PDict []);
                         bad = Inl (ApiError ''invalid_input'' (''Policy evaluate '' @ repr_str ''_omnigent_elicitation_id'' @ '' must match '' @
                           repr_str ''elicit_evaluate_'' @ '' + 32 hex chars.''))
                     in case pget payload ''_omnigent_elicitation_id'' of
                          PNone \<Rightarrow> Inr \<lparr>rq_phase = ph, rq_data = data, rq_event = event, rq_elicitation_id = None\<rparr>
                        | PStr i \<Rightarrow> (if evaluate_id_ok i then Inr \<lparr>rq_phase = ph, rq_data = data, rq_event = event, rq_elicitation_id = Some i\<rparr> else bad)
                        | _ \<Rightarrow> bad))
           | _ \<Rightarrow> Inl (ApiError ''invalid_input'' (''Policy evaluate body must include an '' @ repr_str ''event'' @ '' object.'')))
      | Some v \<Rightarrow> Inl (ApiError ''invalid_input'' ''Policy evaluate body must be a JSON object.''))"

section \<open>The evaluation context\<close>

definition build_actor :: "string option \<Rightarrow> pydict option" where
  "build_actor user = map_option (\<lambda>u. [(''run_as'', PStr u)]) user"

definition no_get :: "pyval \<Rightarrow> py_exn" where
  "no_get v = AttributeError (repr_str (type_name v) @ '' object has no attribute '' @ repr_str ''get'')"

definition str_or_none :: "pyval \<Rightarrow> string option" where
  "str_or_none v = (case v of PStr (c # s) \<Rightarrow> Some (c # s) | _ \<Rightarrow> None)"

definition py_or :: "pyval \<Rightarrow> pyval \<Rightarrow> pyval" where
  "py_or a b = (if truthy a then a else b)"

text \<open>A tool name that is not a string is read as its text.\<close>

definition name_of :: "pyval \<Rightarrow> string option" where
  "name_of v = (if truthy v then Some (py_str v) else None)"

definition build_evaluation_context ::
    "(pyval \<Rightarrow> string) \<Rightarrow> phase \<Rightarrow> pyval \<Rightarrow> pydict \<Rightarrow> pydict option \<Rightarrow> evaluation_context res" where
  "build_evaluation_context json_dumps ph data event actor =
     (case py_or (pget event ''context'') (PDict []) of
        PDict raw_context \<Rightarrow>
          (let ctx = \<lparr>ec_phase = ph, ec_content = data, ec_tool_name = None, ec_trajectory = None, ec_actor = actor, ec_request_data = PNone,
                 ec_session_state = None, ec_usage = None, ec_subtree_usage = None, ec_user_daily_cost = None,
                 ec_model = str_or_none (pget raw_context ''model''), ec_harness = str_or_none (pget raw_context ''harness''), ec_labels = None,
                 ec_llm_client = None\<rparr>
           in case ph of
                TOOL_CALL \<Rightarrow>
                  (case data of
                     PDict d \<Rightarrow>
                       Inr (ctx\<lparr>ec_content := PDict [(''name'', py_or (pget d ''name'') (PStr [])), (''arguments'', py_or (pget d ''arguments'') (PDict []))],
                         ec_tool_name := name_of (pget d ''name'')\<rparr>)
                   | v \<Rightarrow> Inl (no_get v))
              | TOOL_RESULT \<Rightarrow>
                  (case data of
                     PDict d \<Rightarrow>
                       (let res = pget_default d ''result'' (PStr []);
                            request_data = pget event ''request_data''
                        in Inr (ctx\<lparr>ec_content := PDict [(''result'', case res of PStr s \<Rightarrow> PStr s | v \<Rightarrow> PStr (json_dumps v))],
                             ec_tool_name := (case request_data of
                                PDict q \<Rightarrow> (case pget q ''name'' of PNone \<Rightarrow> None | v \<Rightarrow> Some (py_str v)) | _ \<Rightarrow> None),
                             ec_request_data := request_data\<rparr>))
                   | v \<Rightarrow> Inl (no_get v))
              | LLM_REQUEST \<Rightarrow> Inr ctx
              | LLM_RESPONSE \<Rightarrow> Inr ctx
              | _ \<Rightarrow>
                  (let text = (case data of
                         PStr s \<Rightarrow> PStr s
                       | PDict d \<Rightarrow> py_or (pget d ''text'') (py_or (pget d ''content'') (PStr (py_str data)))
                       | v \<Rightarrow> PStr (py_str v))
                   in Inr (ctx\<lparr>ec_content := (case text of PStr s \<Rightarrow> PStr s | v \<Rightarrow> PStr (json_dumps v))\<rparr>)))
      | v \<Rightarrow> Inl (no_get v))"

section \<open>The server\<close>

text \<open>
  What the route reads and writes: the permission store (\<open>None\<close> when permissions are off), the conversation store, the owner cache of the
  builder and the messages waiting for a native session.
\<close>

record srv =
  sv_perm :: "perm_db option"
  sv_store :: conv_store
  sv_cache :: "string dict"
  sv_inputs :: "input_entry index"

text \<open>
  The arguments: imports, JSON, prices, cache bound, the day and the time, the policy LLM client, server-wide and stored policies, the loaded spec of a
  conversation's agent, the token of a fresh identifier, the human (an answer or none, with what happens meanwhile), and what other requests do while
  this one waits for the lock.
\<close>

record 's eval_env =
  ee_import :: "string \<Rightarrow> string \<Rightarrow> 's target res"
  ee_json_loads :: "string \<Rightarrow> pyval option"
  ee_json_dumps :: "pyval \<Rightarrow> string"
  ee_price :: "string \<Rightarrow> model_pricing option res"
  ee_cap :: "string dict \<Rightarrow> string dict"
  ee_today :: string
  ee_now :: rat
  ee_llm :: "nat option"
  ee_defaults :: "policy_spec list option"
  ee_policy_store :: "(string \<Rightarrow> stored_policy list) option"
  ee_agent :: "string \<Rightarrow> agent_spec option"
  ee_token :: string
  ee_human :: "string \<Rightarrow> pydict \<Rightarrow> int \<Rightarrow> srv \<Rightarrow> string option \<times> srv"
  ee_others :: "srv \<Rightarrow> srv"

datatype route_effect = ApprovalPopup string string string "string option" | Interrupt string | BlockedNotice string pyval "string option"

definition build_engine :: "'s eval_env \<Rightarrow> agent_spec \<Rightarrow> string \<Rightarrow> srv \<Rightarrow> ('s engine res \<times> srv) option" where
  "build_engine env spec cid sv =
     map_option (\<lambda>(r, st, cache). (r, sv\<lparr>sv_store := st, sv_cache := cache\<rparr>))
       (build_policy_engine (ee_import env) (ee_json_loads env) (ee_price env) (ee_cap env) (ee_today env) (ee_llm env) spec cid (ee_defaults env)
          (ee_policy_store env) (sv_cache sv) (sv_store sv))"

text \<open>A fresh engine and its evaluation; the engine writes through to the store.\<close>

definition build_and_evaluate ::
    "'s eval_env \<Rightarrow> agent_spec \<Rightarrow> string \<Rightarrow> evaluation_context \<Rightarrow> bool \<Rightarrow> srv \<Rightarrow> ((policy_result \<times> 's engine) res \<times> srv) option" where
  "build_and_evaluate env spec cid ctx ro sv =
     Option.bind (build_engine env spec cid sv) (\<lambda>(b, sv1).
       Some (case b of
               Inl e \<Rightarrow> (Inl e, sv1)
             | Inr en \<Rightarrow>
                 (case evaluate_composed (ee_today env) en ctx ro of
                    (Inl e, en') \<Rightarrow> (Inl e, sv1\<lparr>sv_store := en_store en'\<rparr>)
                  | (Inr r, en') \<Rightarrow> (Inr (r, en'), sv1\<lparr>sv_store := en_store en'\<rparr>))))"

section \<open>The gate\<close>

definition gate_params :: "(pyval \<Rightarrow> string) \<Rightarrow> phase \<Rightarrow> pyval \<Rightarrow> policy_result \<Rightarrow> pydict" where
  "gate_params json_dumps ph data result =
     [(''mode'', PStr ''form''), (''message'', py_or (pr_reason result) (PStr ''Approval required'')), (''requestedSchema'', PDict []),
      (''phase'', PStr (phase_value ph)),
      (''policy_name'', case deciding_policy result of Some (c # n) \<Rightarrow> PStr (c # n) | _ \<Rightarrow> PStr ''unknown''),
      (''content_preview'', PStr (take 1024 (json_dumps data)))]"

text \<open>
  \<open>data.get\<close> comes first, so data that is no dictionary raises before anything is published. On an accept the withheld writes are applied by the engine of
  this request, to the store as the wait left it.
\<close>

definition hold_native_ask_gate ::
    "'s eval_env \<Rightarrow> string \<Rightarrow> phase \<Rightarrow> pyval \<Rightarrow> policy_result \<Rightarrow> string option \<Rightarrow> 's engine \<Rightarrow> srv \<Rightarrow> bool res \<times> srv \<times> route_effect list" where
  "hold_native_ask_gate env cid ph data result eid en sv =
     (case data of
        PDict d \<Rightarrow>
          (let i = (case eid of Some i \<Rightarrow> i | None \<Rightarrow> ''elicit_'' @ ee_token env);
               params = gate_params (ee_json_dumps env) ph data result;
               eff = [ApprovalPopup cid i (py_str (pget params ''message'')) (deciding_policy result)]
           in case ee_human env i params (resolve_ask_timeout en result) sv of
                (answer, sv1) \<Rightarrow>
                  (if answer = Some ''decline'' then
                     (Inl (ElicitationDeclinedError (py_str (reason_or_empty result)) (deciding_policy result)), sv1, eff)
                   else if answer = Some ''accept'' then
                     (case apply_approved (ee_today env) (en\<lparr>en_store := sv_store sv1\<rparr>) result of
                        (Inl e, en') \<Rightarrow> (Inl e, sv1\<lparr>sv_store := en_store en'\<rparr>, eff)
                      | (Inr x, en') \<Rightarrow> (Inr True, sv1\<lparr>sv_store := en_store en'\<rparr>, eff))
                   else (Inr False, sv1, eff)))
      | v \<Rightarrow> (Inl (no_get v), sv, []))"

definition BLOCKING_PHASES :: "phase list" where
  "BLOCKING_PHASES = [TOOL_CALL, LLM_REQUEST, REQUEST]"

text \<open>The verdict that is sent without a gate: labels are written once more, whatever the verdict.\<close>

definition direct_response ::
    "'s eval_env \<Rightarrow> string \<Rightarrow> phase \<Rightarrow> bool \<Rightarrow> policy_result \<Rightarrow> 's engine \<Rightarrow> srv \<Rightarrow> (route_error + pydict) \<times> srv \<times> route_effect list" where
  "direct_response env cid ph ro result en sv =
     (case (case pr_set_labels result of
              Some (l # ls) \<Rightarrow> if ro then (Inr (), en) else apply_label_writes en (l # ls)
            | _ \<Rightarrow> (Inr (), en)) of
        (Inl e, en') \<Rightarrow> (Inl (Unhandled e), sv\<lparr>sv_store := en_store en'\<rparr>, [])
      | (Inr x, en') \<Rightarrow>
          (Inr ([(''result'', PStr (proto_action (pr_action result)))] @
             (if truthy (pr_reason result) then [(''reason'', pr_reason result)] else []) @
             (if pr_data result \<noteq> PNone then [(''data'', pr_data result)] else [])),
           sv\<lparr>sv_store := en_store en'\<rparr>,
           if pr_action result = DENY \<and> ph = REQUEST \<and> \<not> ro
           then [BlockedNotice cid (py_or (pr_reason result) (PStr ''Blocked by policy.'')) (deciding_policy result)] else []))"

definition gated_response ::
    "'s eval_env \<Rightarrow> string \<Rightarrow> phase \<Rightarrow> pyval \<Rightarrow> string option \<Rightarrow> policy_result \<Rightarrow> 's engine \<Rightarrow> srv \<Rightarrow> (route_error + pydict) \<times> srv \<times> route_effect list" where
  "gated_response env cid ph data eid result en sv =
     (let deny = (\<lambda>why. Inr [(''result'', PStr ''POLICY_ACTION_DENY''), (''reason'', why)])
      in case hold_native_ask_gate env cid ph data result eid en sv of
           (Inl (ElicitationDeclinedError m p), sv1, eff) \<Rightarrow>
             (deny (py_or (PStr m) (PStr ''Approval was declined.'')), sv1, eff @ [Interrupt cid])
         | (Inl e, sv1, eff) \<Rightarrow> (Inl (Unhandled e), sv1, eff)
         | (Inr approved, sv1, eff) \<Rightarrow>
             (if approved then Inr [(''result'', PStr ''POLICY_ACTION_ALLOW'')]
              else deny (py_or (pr_reason result) (PStr ''Approval was not granted.'')), sv1, eff))"

text \<open>The verdict of a session with an agent; an ASK of a blocking phase is evaluated again under the lock before it is held.\<close>

definition decide_session ::
    "'s eval_env \<Rightarrow> string \<Rightarrow> agent_spec \<Rightarrow> eval_request \<Rightarrow> evaluation_context \<Rightarrow> bool \<Rightarrow> srv
     \<Rightarrow> ((route_error + pydict) \<times> srv \<times> route_effect list) option" where
  "decide_session env cid spec rq ctx ro sv =
     Option.bind (build_and_evaluate env spec cid ctx ro sv) (\<lambda>(r1, sv1).
       case r1 of
         Inl e \<Rightarrow> Some (Inl (Unhandled e), sv1, [])
       | Inr (result, en) \<Rightarrow>
           (if pr_action result = ASK \<and> rq_phase rq \<in> set BLOCKING_PHASES \<and> \<not> ro then
              Option.bind (build_and_evaluate env spec cid ctx ro (ee_others env sv1)) (\<lambda>(r2, sv2).
                case r2 of
                  Inl e \<Rightarrow> Some (Inl (Unhandled e), sv2, [])
                | Inr (result2, en2) \<Rightarrow>
                    Some (if pr_action result2 = ASK then gated_response env cid (rq_phase rq) (rq_data rq) (rq_elicitation_id rq) result2 en2 sv2
                          else direct_response env cid (rq_phase rq) ro result2 en2 sv2))
            else Some (direct_response env cid (rq_phase rq) ro result en sv1)))"

definition evaluate_policy ::
    "'s eval_env \<Rightarrow> string option \<Rightarrow> string \<Rightarrow> pyval option \<Rightarrow> srv \<Rightarrow> ((route_error + pydict) \<times> srv \<times> route_effect list) option" where
  "evaluate_policy env user cid body sv =
     Option.bind (require_access_and_level (sv_perm sv) (sv_store sv) user cid LEVEL_READ) (\<lambda>access.
       case access of
         Inl e \<Rightarrow> Some (Inl e, sv, [])
       | Inr level \<Rightarrow>
           (let is_read_only = (case level of Some l \<Rightarrow> l < LEVEL_EDIT | None \<Rightarrow> False)
            in case parse_evaluate_body body of
                 Inl e \<Rightarrow> Some (Inl e, sv, [])
               | Inr rq \<Rightarrow>
                   (case get_conversation (sv_store sv) cid of
                      None \<Rightarrow> Some (Inl (ApiError ''not_found'' (''Session '' @ repr_str cid @ '' not found.'')), sv, [])
                    | Some conv \<Rightarrow>
                        (case (if rq_phase rq = REQUEST then snapshot_inputs (sv_inputs sv) cid (ee_now env) else ([], sv_inputs sv)) of
                           (waiting, inputs) \<Rightarrow>
                             (let sv1 = sv\<lparr>sv_inputs := inputs\<rparr>
                              in if waiting \<noteq> [] then Some (Inr [(''result'', PStr ''POLICY_ACTION_ALLOW'')], sv1, [])
                                 else
                                   (case ee_agent env cid of
                                      None \<Rightarrow> Some (Inr [(''result'', PStr ''POLICY_ACTION_UNSPECIFIED'')], sv1, [])
                                    | Some spec \<Rightarrow>
                                        (case build_evaluation_context (ee_json_dumps env) (rq_phase rq) (rq_data rq) (rq_event rq) (build_actor user) of
                                           Inl e \<Rightarrow>
                                             map_option (\<lambda>(b, sv2). (Inl (Unhandled (case b of Inl e' \<Rightarrow> e' | Inr en \<Rightarrow> e)), sv2, []))
                                               (build_engine env spec cid sv1)
                                         | Inr ctx \<Rightarrow> decide_session env cid spec rq ctx is_read_only sv1)))))))"


end
