(* ===== verification/NativeHook.thy ===== *)
theory NativeHook
  imports EvaluateRoute Json
begin

text \<open>
  The command hooks of the native harnesses (\<^verbatim>\<open>native_policy_hook.py\<close> and its callers): the translation of a hook payload into an evaluation request, the
  request with retries and one renewal of the credentials, and the translation of the verdict into what the harness reads on standard output. The wire
  is an argument: from a world, a URL, headers and a body to an outcome, the milliseconds it took and the world after it. \<open>httpx\<close> classifies a response
  as a success or a redirect; reading files, environment and credentials are arguments too.
\<close>

section \<open>Payloads\<close>

definition PRE_TOOL_USE :: string where
  "PRE_TOOL_USE = ''PreToolUse''"

definition POST_TOOL_USE :: string where
  "POST_TOOL_USE = ''PostToolUse''"

definition USER_PROMPT_SUBMIT :: string where
  "USER_PROMPT_SUBMIT = ''UserPromptSubmit''"

definition EVAL_UNAVAILABLE_REASON :: string where
  "EVAL_UNAVAILABLE_REASON =
     ''Omnigent policy evaluation unavailable (could not reach or authenticate to the Omnigent server); failing closed for this tool call.''"

definition EVAL_UNAVAILABLE_REQUEST_REASON :: string where
  "EVAL_UNAVAILABLE_REQUEST_REASON =
     ''Omnigent policy evaluation unavailable (could not reach or authenticate to the Omnigent server); failing closed for this request.''"

definition wire_event :: "string \<Rightarrow> pydict \<Rightarrow> pydict \<Rightarrow> pydict" where
  "wire_event ty data extra =
     [(''event'', PDict ([(''type'', PStr ty), (''target'', PStr []), (''data'', PDict data), (''context'', PDict [])] @ extra))]"

definition hook_payload_to_evaluation_request :: "(pyval \<Rightarrow> string) \<Rightarrow> pyval \<Rightarrow> pydict \<Rightarrow> pydict option" where
  "hook_payload_to_evaluation_request json_dumps hook_event payload =
     (if hook_event = PStr USER_PROMPT_SUBMIT then
        (let prompt = pget_default payload ''prompt'' (PStr [])
         in Some (wire_event ''PHASE_REQUEST'' [(''text'', case prompt of PStr s \<Rightarrow> PStr s | v \<Rightarrow> PStr (json_dumps v))] []))
      else
        (let tool_name = pget_default payload ''tool_name'' (PStr []);
             tool_input = py_or (pget payload ''tool_input'') (PDict [])
         in if (case tool_name of PStr t \<Rightarrow> startswith t ''mcp__omnigent__'' | _ \<Rightarrow> False) then None
            else if hook_event = PStr PRE_TOOL_USE then
              Some (wire_event ''PHASE_TOOL_CALL'' [(''name'', tool_name), (''arguments'', tool_input)] [])
            else if hook_event = PStr POST_TOOL_USE then
              Some (wire_event ''PHASE_TOOL_RESULT'' [(''result'', pget_default payload ''tool_output'' (PStr []))]
                [(''request_data'', PDict [(''name'', tool_name), (''arguments'', tool_input)])])
            else None))"

definition evaluation_response_to_hook_output :: "pyval \<Rightarrow> pydict \<Rightarrow> pydict option" where
  "evaluation_response_to_hook_output hook_event eval_response =
     (let action = pget_default eval_response ''result'' (PStr ''POLICY_ACTION_UNSPECIFIED'');
          reason = pget eval_response ''reason''
      in if hook_event = PStr USER_PROMPT_SUBMIT then
           (if action = PStr ''POLICY_ACTION_DENY'' \<or> action = PStr ''POLICY_ACTION_ASK''
            then Some [(''decision'', PStr ''block''), (''reason'', py_or reason (PStr ''Denied by policy''))] else None)
         else if hook_event = PStr PRE_TOOL_USE then
           (if py_str action = ''POLICY_ACTION_DENY'' \<or> py_str action = ''POLICY_ACTION_ASK''
            then Some [(''hookSpecificOutput'', PDict ([(''hookEventName'', PStr PRE_TOOL_USE), (''permissionDecision'', PStr ''deny'')] @
                   (if truthy reason then [(''permissionDecisionReason'', reason)] else [])))] else None)
         else if hook_event = PStr POST_TOOL_USE then
           (if action = PStr ''POLICY_ACTION_DENY'' \<and> truthy reason
            then Some [(''hookSpecificOutput'', PDict [(''hookEventName'', PStr POST_TOOL_USE),
                   (''additionalContext'', PStr (''[Policy violation] '' @ py_str reason))])] else None)
         else None)"

definition fail_closed_hook_output :: "pyval \<Rightarrow> pydict option" where
  "fail_closed_hook_output hook_event =
     (if hook_event = PStr PRE_TOOL_USE then
        Some [(''hookSpecificOutput'', PDict [(''hookEventName'', PStr PRE_TOOL_USE), (''permissionDecision'', PStr ''deny''),
          (''permissionDecisionReason'', PStr EVAL_UNAVAILABLE_REASON)])]
      else if hook_event = PStr USER_PROMPT_SUBMIT then
        Some [(''decision'', PStr ''block''), (''reason'', PStr EVAL_UNAVAILABLE_REQUEST_REASON)]
      else None)"

section \<open>The request with retries\<close>

record http_response =
  hr_status :: int
  hr_success :: bool
  hr_redirect :: bool
  hr_location :: string
  hr_content :: string

text \<open>A connection that could not be made is retried; other transport errors are not; anything else escapes.\<close>

datatype post_outcome = Responded http_response | ConnectFailed | TransportFailed | Escaped string

type_synonym 'w wire = "string \<Rightarrow> string dict \<Rightarrow> pydict \<Rightarrow> 'w \<Rightarrow> post_outcome \<times> nat \<times> 'w"

definition RETRY_BUDGET_MS :: nat where
  "RETRY_BUDGET_MS = 30000"

definition INITIAL_BACKOFF_MS :: nat where
  "INITIAL_BACKOFF_MS = 1000"

definition MAX_BACKOFF_MS :: nat where
  "MAX_BACKOFF_MS = 10000"

fun backoff_ms :: "nat \<Rightarrow> nat" where
  "backoff_ms 0 = INITIAL_BACKOFF_MS"
| "backoff_ms (Suc k) = min (backoff_ms k * 2) MAX_BACKOFF_MS"

lemma backoff_ms_pos [simp]: "0 < backoff_ms k"
  by (induction k) (simp_all add: INITIAL_BACKOFF_MS_def MAX_BACKOFF_MS_def)

definition is_login_redirect_or_unauthorized :: "http_response \<Rightarrow> bool" where
  "is_login_redirect_or_unauthorized resp =
     (if hr_status resp = 401 then True
      else if \<not> hr_redirect resp then False
      else py_in ''/oidc/'' (hr_location resp) \<or> py_in ''/.auth/'' (hr_location resp))"

text \<open>The headers after a renewal, empty when there is nothing to retry with.\<close>

definition renewed :: "string dict option option \<Rightarrow> string dict" where
  "renewed reauth = (case reauth of Some (Some h) \<Rightarrow> h | _ \<Rightarrow> [])"

text \<open>
  The loop: \<open>k\<close> counts the pauses so far, \<open>reauth\<close> is what renewing the credentials gives (\<open>None\<close> without a way to renew). The result is an escaped
  exception, or a response or none, with the time and the world at the end.
\<close>

function post_loop ::
    "'w wire \<Rightarrow> string \<Rightarrow> pydict \<Rightarrow> string dict option option \<Rightarrow> nat \<Rightarrow> string dict \<Rightarrow> bool \<Rightarrow> nat \<Rightarrow> nat \<Rightarrow> 'w
     \<Rightarrow> (string + http_response option) \<times> nat \<times> 'w" where
  "post_loop wire url body reauth deadline headers reauthed k now w =
     (case wire url headers body w of
        (out, d, w1) \<Rightarrow>
          (let now1 = now + d;
               retry = (if deadline \<le> now1 + backoff_ms k then (Inr None, now1, w1)
                        else post_loop wire url body reauth deadline headers reauthed (Suc k) (now1 + backoff_ms k) w1)
           in case out of
                Escaped m \<Rightarrow> (Inl m, now1, w1)
              | TransportFailed \<Rightarrow> (Inr None, now1, w1)
              | ConnectFailed \<Rightarrow> retry
              | Responded resp \<Rightarrow>
                  (if \<not> reauthed \<and> is_login_redirect_or_unauthorized resp \<and> renewed reauth \<noteq> []
                   then post_loop wire url body reauth deadline (renewed reauth) True k now1 w1
                   else if hr_success resp then (Inr (Some resp), now1, w1)
                   else if hr_status resp < 500 then (Inr None, now1, w1)
                   else retry)))"
  by pat_completeness auto
termination
  by (relation "measures [\<lambda>(wire, url, body, reauth, deadline, headers, reauthed, k, now, w). deadline - now,
        \<lambda>(wire, url, body, reauth, deadline, headers, reauthed, k, now, w). if reauthed then 0 else 1]")
     (auto simp: less_diff_conv le_diff_conv)


declare post_loop.simps [simp del]

text \<open>One identifier is minted for all attempts.\<close>

definition post_evaluate_with_retry ::
    "'w wire \<Rightarrow> string \<Rightarrow> string \<Rightarrow> string dict \<Rightarrow> pydict \<Rightarrow> string dict option option \<Rightarrow> nat \<Rightarrow> 'w \<Rightarrow> (string + http_response option) \<times> nat \<times> 'w" where
  "post_evaluate_with_retry wire token url headers eval_request reauth now w =
     post_loop wire url (dset eval_request ''_omnigent_elicitation_id'' (PStr (''elicit_evaluate_'' @ token))) reauth (now + RETRY_BUDGET_MS) headers False 0 now w"

definition policy_hook_reauth :: "string option \<Rightarrow> string dict \<Rightarrow> string dict option" where
  "policy_hook_reauth token headers =
     (case token of
        Some (c # t) \<Rightarrow> Some (dset headers ''Authorization'' (''Bearer '' @ c # t))
      | _ \<Rightarrow> None)"

definition policy_hook_request_headers :: "(string \<Rightarrow> pyval option) \<Rightarrow> string option \<Rightarrow> string dict" where
  "policy_hook_request_headers json_loads env =
     (let headers = [(''Content-Type'', ''application/json'')]
      in case env of
           Some (c # raw) \<Rightarrow>
             (case json_loads (c # raw) of
                Some (PDict extra) \<Rightarrow> dupdate headers (map (\<lambda>(k, v). (k, py_str v)) extra)
              | _ \<Rightarrow> headers)
         | _ \<Rightarrow> headers)"

section \<open>The hooks\<close>

text \<open>What a hook writes: nothing, a JSON object, or a traceback.\<close>

datatype hook_out = NoOutput | Wrote pydict | Crashed

definition wrote :: "pydict option \<Rightarrow> hook_out" where
  "wrote d = (case d of Some x \<Rightarrow> Wrote x | None \<Rightarrow> NoOutput)"

text \<open>\<^verbatim>\<open>urllib.parse.quote(value, safe="")\<close>.\<close>

definition hex_digit :: "nat \<Rightarrow> char" where
  "hex_digit n = (if n < 10 then char_of (48 + n) else char_of (55 + n))"

definition unreserved :: "char \<Rightarrow> bool" where
  "unreserved c \<longleftrightarrow> is_digit c \<or> (65 \<le> char_code c \<and> char_code c \<le> 90) \<or> (97 \<le> char_code c \<and> char_code c \<le> 122) \<or> c \<in> {CHR ''_'', CHR ''.'', CHR ''-'', CHR ''~''}"

definition url_component :: "string \<Rightarrow> string" where
  "url_component s = concat (map (\<lambda>c. if unreserved c then [c] else [CHR ''%'', hex_digit (char_code c div 16), hex_digit (char_code c mod 16)]) s)"

definition evaluate_url :: "string \<Rightarrow> string \<Rightarrow> string" where
  "evaluate_url server component = rev (dropWhile (\<lambda>c. c = CHR ''/'') (rev server)) @ ''/v1/sessions/'' @ component @ ''/policies/evaluate''"

text \<open>The arguments of a hook process: the wire, the JSON encoder, the token of the identifier, the renewed bearer and the clock.\<close>

record 'w hook_env =
  he_wire :: "'w wire"
  he_dumps :: "pyval \<Rightarrow> string"
  he_token :: string
  he_bearer :: "string option"
  he_now :: nat

definition stamp_context :: "pydict \<Rightarrow> pydict \<Rightarrow> pydict" where
  "stamp_context eval_request stamps =
     (case pget eval_request ''event'' of
        PDict ev \<Rightarrow> dset eval_request ''event'' (PDict (dset ev ''context'' (PDict stamps)))
      | _ \<Rightarrow> eval_request)"

definition config_headers :: "pydict \<Rightarrow> string dict" where
  "config_headers config = (case pget config ''ap_auth_headers'' of PDict d \<Rightarrow> map (\<lambda>(k, v). (k, py_str v)) d | _ \<Rightarrow> [])"

text \<open>The governed part, the same in the three hooks: request, response and output.\<close>

definition answer_hook :: "pyval \<Rightarrow> (string + http_response option) \<Rightarrow> hook_out" where
  "answer_hook hook_event posted =
     (case posted of
        Inl m \<Rightarrow> Crashed
      | Inr None \<Rightarrow> wrote (fail_closed_hook_output hook_event)
      | Inr (Some resp) \<Rightarrow>
          (if hr_content resp = [] then wrote (fail_closed_hook_output hook_event)
           else (case py_json_loads (hr_content resp) of
                   None \<Rightarrow> wrote (fail_closed_hook_output hook_event)
                 | Some (PDict d) \<Rightarrow> wrote (evaluation_response_to_hook_output hook_event d)
                 | Some v \<Rightarrow> Crashed)))"

definition governed_hook ::
    "'w hook_env \<Rightarrow> string \<Rightarrow> string option \<Rightarrow> string \<Rightarrow> string \<Rightarrow> pydict \<Rightarrow> pyval \<Rightarrow> pydict \<Rightarrow> 'w \<Rightarrow> hook_out \<times> 'w" where
  "governed_hook env harness model server sid config hook_event eval_request w =
     (let headers = config_headers config;
          request = stamp_context eval_request ((''harness'', PStr harness) # (case model of Some (c # m) \<Rightarrow> [(''model'', PStr (c # m))] | _ \<Rightarrow> []))
      in case post_evaluate_with_retry (he_wire env) (he_token env) (evaluate_url server (url_component sid)) headers request
                (Some (policy_hook_reauth (he_bearer env) headers)) (he_now env) w of
           (posted, t, w1) \<Rightarrow> (answer_hook hook_event posted, w1))"

definition read_payload :: "string \<Rightarrow> pydict option" where
  "read_payload raw = (case py_json_loads (if raw = [] then ''{}'' else raw) of Some (PDict d) \<Rightarrow> Some d | _ \<Rightarrow> None)"

definition server_of :: "pydict \<Rightarrow> string option" where
  "server_of config = (case pget config ''ap_server_url'' of PStr (c # s) \<Rightarrow> Some (c # s) | _ \<Rightarrow> None)"

definition hook_event_of :: "pydict \<Rightarrow> pyval" where
  "hook_event_of payload = pget_default payload ''hook_event_name'' (PStr [])"

definition claude_evaluate_policy ::
    "'w hook_env \<Rightarrow> string \<Rightarrow> string option \<Rightarrow> pydict \<Rightarrow> string option \<Rightarrow> 'w \<Rightarrow> hook_out \<times> 'w" where
  "claude_evaluate_policy env raw session config status_model w =
     (case read_payload raw of
        None \<Rightarrow> (NoOutput, w)
      | Some payload \<Rightarrow>
          (case session of
             Some (c # sid) \<Rightarrow>
               (case server_of config of
                  None \<Rightarrow> (NoOutput, w)
                | Some server \<Rightarrow>
                    (case hook_payload_to_evaluation_request (he_dumps env) (hook_event_of payload) payload of
                       None \<Rightarrow> (NoOutput, w)
                     | Some rq \<Rightarrow> governed_hook env ''claude-native'' status_model server (c # sid) config (hook_event_of payload) rq w))
           | _ \<Rightarrow> (NoOutput, w)))"

text \<open>The bridge state of codex carries the session; without a policy configuration nothing is enforced.\<close>

definition codex_evaluate_policy ::
    "'w hook_env \<Rightarrow> string \<Rightarrow> string option \<Rightarrow> pydict option \<Rightarrow> string option \<Rightarrow> 'w \<Rightarrow> hook_out \<times> 'w" where
  "codex_evaluate_policy env raw session config config_model w =
     (case read_payload raw of
        None \<Rightarrow> (NoOutput, w)
      | Some payload \<Rightarrow>
          (case (session, config) of
             (Some sid, Some cfg) \<Rightarrow>
               (case server_of cfg of
                  None \<Rightarrow> (NoOutput, w)
                | Some server \<Rightarrow>
                    (case hook_payload_to_evaluation_request (he_dumps env) (hook_event_of payload) payload of
                       None \<Rightarrow> (NoOutput, w)
                     | Some rq \<Rightarrow> governed_hook env ''codex-native'' config_model server sid cfg (hook_event_of payload) rq w))
           | _ \<Rightarrow> (NoOutput, w)))"

definition kimi_evaluate_policy :: "'w hook_env \<Rightarrow> string \<Rightarrow> string option \<Rightarrow> pydict \<Rightarrow> 'w \<Rightarrow> hook_out \<times> 'w" where
  "kimi_evaluate_policy env raw session config w =
     (case read_payload raw of
        None \<Rightarrow> (NoOutput, w)
      | Some payload \<Rightarrow>
          (case session of
             Some (c # sid) \<Rightarrow>
               (case server_of config of
                  None \<Rightarrow> (NoOutput, w)
                | Some server \<Rightarrow>
                    (case hook_event_of payload of
                       PStr event \<Rightarrow>
                         (case hook_payload_to_evaluation_request (he_dumps env) (PStr event) payload of
                            None \<Rightarrow> (NoOutput, w)
                          | Some rq \<Rightarrow> governed_hook env ''kimi-native'' None server (c # sid) config (PStr event) rq w)
                     | _ \<Rightarrow> (NoOutput, w)))
           | _ \<Rightarrow> (NoOutput, w)))"

section \<open>The hooks of Cursor and Hermes\<close>

text \<open>
  These read their session from the environment and always ask about a tool call. \<open>post_plain\<close> is what they have in common: the body, the headers and the
  request, whose escaped exceptions they catch.
\<close>

definition plain_body :: "pyval \<Rightarrow> pyval \<Rightarrow> pydict" where
  "plain_body tool_name tool_input =
     wire_event ''PHASE_TOOL_CALL'' [(''name'', tool_name), (''arguments'', case tool_input of PDict a \<Rightarrow> PDict a | _ \<Rightarrow> PDict [])] []"

definition post_plain ::
    "'w hook_env \<Rightarrow> string option \<Rightarrow> string \<Rightarrow> string \<Rightarrow> pydict \<Rightarrow> 'w \<Rightarrow> (string + http_response option) \<times> 'w" where
  "post_plain env headers_env server sid body w =
     (let headers = policy_hook_request_headers py_json_loads headers_env
      in case post_evaluate_with_retry (he_wire env) (he_token env) (evaluate_url server sid) headers body
                (Some (policy_hook_reauth (he_bearer env) headers)) (he_now env) w of
           (posted, t, w1) \<Rightarrow> (posted, w1))"

definition quoted_tool :: "pyval \<Rightarrow> string" where
  "quoted_tool t = ''Tool '' @ [CHR 39] @ py_str t @ [CHR 39]"

definition cursor_allow :: hook_out where
  "cursor_allow = Wrote [(''permission'', PStr ''allow'')]"

definition cursor_verdict :: "pyval \<Rightarrow> pydict \<Rightarrow> hook_out" where
  "cursor_verdict tool_name d =
     (let action = pget_default d ''result'' (PStr ''POLICY_ACTION_ALLOW'');
          reason = pget_default d ''reason'' (PStr []);
          deny = (\<lambda>why. Wrote ((''permission'', PStr ''deny'') #
                   (if truthy reason then [(''agent_message'', PStr (quoted_tool tool_name @ why @ py_str reason))] else [])))
      in if action = PStr ''POLICY_ACTION_DENY'' then deny '' denied by Omnigent policy: ''
         else if action = PStr ''POLICY_ACTION_ASK'' then deny '' requires approval: ''
         else cursor_allow)"

definition cursor_main :: "'w hook_env \<Rightarrow> string option \<Rightarrow> string \<Rightarrow> string \<Rightarrow> string \<Rightarrow> 'w \<Rightarrow> hook_out \<times> 'w" where
  "cursor_main env headers_env server sid raw w =
     (if server = [] \<or> sid = [] then (cursor_allow, w)
      else (case py_json_loads raw of
              None \<Rightarrow> (cursor_allow, w)
            | Some (PDict payload) \<Rightarrow>
                (let tool_name = py_or (pget payload ''tool_name'') (py_or (pget payload ''toolName'') (PStr ''unknown''));
                     tool_input = py_or (pget payload ''tool_input'') (py_or (pget payload ''toolInput'') (PDict []))
                 in case post_plain env headers_env server sid (plain_body tool_name tool_input) w of
                      (Inl m, w1) \<Rightarrow> (cursor_allow, w1)
                    | (Inr None, w1) \<Rightarrow> (cursor_allow, w1)
                    | (Inr (Some resp), w1) \<Rightarrow>
                        (case py_json_loads (hr_content resp) of
                           None \<Rightarrow> cursor_allow
                         | Some (PDict d) \<Rightarrow> cursor_verdict tool_name d
                         | Some v \<Rightarrow> Crashed, w1))
            | Some v \<Rightarrow> (Crashed, w)))"

definition hermes_block :: "string \<Rightarrow> hook_out" where
  "hermes_block why = Wrote [(''decision'', PStr ''block''), (''reason'', PStr why)]"

definition hermes_verdict :: "pyval \<Rightarrow> pydict \<Rightarrow> hook_out" where
  "hermes_verdict tool_name d =
     (let action = pget_default d ''result'' (PStr ''POLICY_ACTION_ALLOW'');
          reason = pget_default d ''reason'' (PStr []);
          block = (\<lambda>why. hermes_block (quoted_tool tool_name @ why @ (if truthy reason then '': '' @ py_str reason else [])))
      in if action = PStr ''POLICY_ACTION_DENY'' then block '' denied by Omnigent policy''
         else if action = PStr ''POLICY_ACTION_ASK'' then block '' requires approval''
         else Wrote [])"

definition hermes_main :: "'w hook_env \<Rightarrow> string option \<Rightarrow> string \<Rightarrow> string \<Rightarrow> string \<Rightarrow> 'w \<Rightarrow> hook_out \<times> 'w" where
  "hermes_main env headers_env server sid raw w =
     (if server = [] \<or> sid = [] then (Wrote [], w)
      else (case py_json_loads raw of
              None \<Rightarrow> (Wrote [], w)
            | Some (PDict payload) \<Rightarrow>
                (let tool_name = py_or (pget payload ''tool_name'') (PStr ''unknown'');
                     tool_input = py_or (pget payload ''tool_input'') (PDict [])
                 in case post_plain env headers_env server sid (plain_body tool_name tool_input) w of
                      (Inl m, w1) \<Rightarrow> (Wrote [], w1)
                    | (Inr None, w1) \<Rightarrow> (hermes_block ''Policy evaluation unavailable'', w1)
                    | (Inr (Some resp), w1) \<Rightarrow>
                        (case py_json_loads (hr_content resp) of
                           None \<Rightarrow> hermes_block ''Malformed policy response''
                         | Some (PDict d) \<Rightarrow> hermes_verdict tool_name d
                         | Some v \<Rightarrow> Crashed, w1))
            | Some v \<Rightarrow> (Crashed, w)))"


end
