(* ===== verification/NativeGateProperties.thy ===== *)
theory NativeGateProperties
  imports NativeHook BuilderProperties
begin

text \<open>
  The native gate end to end: the hook process, the wire, the evaluation route and the engine. A hook lets a tool call pass only on a verdict, and the
  verdict of the route is the engine's or a human's.
\<close>

section \<open>The request loop\<close>

text \<open>A response that is returned is a success the wire gave, and the world is the one right after it.\<close>

lemma post_loop_returns:
  assumes "post_loop wire url body reauth deadline headers reauthed k now w = (Inr (Some resp), t, w')"
  shows "\<exists>h w0 d. wire url h body w0 = (Responded resp, d, w') \<and> hr_success resp"
  using assms
proof (induction wire url body reauth deadline headers reauthed k now w rule: post_loop.induct)
  case (1 wire url body reauth deadline headers reauthed k now w)
  obtain out d w1 where o: "wire url headers body w = (out, d, w1)" by (metis prod_cases3)
  note IH = "1.IH"(1) [OF o [symmetric] refl refl] "1.IH"(2) [OF o [symmetric] refl refl]
  from "1.prems" show ?case
    unfolding post_loop.simps [of wire url body reauth deadline headers reauthed k now w] o prod.case Let_def
    using IH o by (cases out) (simp_all split: if_splits, blast+)
qed

lemma post_loop_escapes:
  assumes "post_loop wire url body reauth deadline headers reauthed k now w = (Inl m, t, w')"
  shows "\<exists>h w0 d. wire url h body w0 = (Escaped m, d, w')"
  using assms
proof (induction wire url body reauth deadline headers reauthed k now w rule: post_loop.induct)
  case (1 wire url body reauth deadline headers reauthed k now w)
  obtain out d w1 where o: "wire url headers body w = (out, d, w1)" by (metis prod_cases3)
  note IH = "1.IH"(1) [OF o [symmetric] refl refl] "1.IH"(2) [OF o [symmetric] refl refl]
  from "1.prems" show ?case
    unfolding post_loop.simps [of wire url body reauth deadline headers reauthed k now w] o prod.case Let_def
    using IH o by (cases out) (simp_all split: if_splits, blast+)
qed

text \<open>The wire that counts its requests, and the time spent in pauses.\<close>

definition counted :: "'w wire \<Rightarrow> ('w \<times> nat) wire" where
  "counted wire url h body s = (case wire url h body (fst s) of (out, d, w1) \<Rightarrow> (out, d, w1, Suc (snd s)))"

definition paused :: "nat \<Rightarrow> nat" where
  "paused k = sum_list (map backoff_ms [0..<k])"

lemma paused_0 [simp]: "paused 0 = 0"
  by (simp add: paused_def)

lemma paused_Suc [simp]: "paused (Suc k) = paused k + backoff_ms k"
  by (simp add: paused_def)

lemma paused_five: "5 < k \<Longrightarrow> 30000 \<le> paused k"
proof (induction k)
  case (Suc k)
  show ?case
  proof (cases "k = 5")
    case True
    have "paused (Suc (Suc (Suc (Suc (Suc (Suc 0)))))) = 35000"
      by (simp add: INITIAL_BACKOFF_MS_def MAX_BACKOFF_MS_def)
    moreover have "Suc k = Suc (Suc (Suc (Suc (Suc (Suc 0)))))" using True by simp
    ultimately show ?thesis by (simp del: paused_Suc)
  next
    case False
    then show ?thesis using Suc by simp
  qed
qed simp


text \<open>Requests are counted from \<open>n\<close>: one per pause and one for the renewal, as long as the pauses fit the budget.\<close>


lemma post_loop_count:
  assumes "cw = counted wire" and "start + paused k \<le> now" and "deadline = start + 30000" and "k \<le> 5"
  shows "snd (snd (snd (post_loop cw url body reauth deadline headers reauthed k now s))) \<le> snd s + (6 - k) + (if reauthed then 0 else 1)"
  using assms
proof (induction cw url body reauth deadline headers reauthed k now s rule: post_loop.induct)
  case (1 cw url body reauth deadline headers reauthed k now s)
  obtain out d w1 where o: "wire url headers body (fst s) = (out, d, w1)" by (metis prod_cases3)
  then have c: "cw url headers body s = (out, d, w1, Suc (snd s))" using "1.prems"(1) by (simp add: counted_def)
  have more: "k < 5" "start + paused (Suc k) \<le> now + d + backoff_ms k" if "\<not> deadline \<le> now + d + backoff_ms k"
  proof -
    have "paused (Suc k) < 30000" using that "1.prems" by simp
    then have "\<not> 5 < Suc k" using paused_five [of "Suc k"] by linarith
    then show "k < 5" by simp
    show "start + paused (Suc k) \<le> now + d + backoff_ms k" using "1.prems"(2) by simp
  qed
  note retry = "1.IH"(1) [OF c [symmetric] refl refl] and renew = "1.IH"(2) [OF c [symmetric] refl refl refl]
  have r: "snd (snd (snd (if deadline \<le> now + d + backoff_ms k then (Inr None, now + d, w1, Suc (snd s))
      else post_loop cw url body reauth deadline headers reauthed (Suc k) (now + d + backoff_ms k) (w1, Suc (snd s))))) \<le>
      snd s + (6 - k) + (if reauthed then 0 else 1)"
  proof (cases "deadline \<le> now + d + backoff_ms k")
    case True
    then show ?thesis using "1.prems"(4) by simp
  next
    case False
    have "snd (snd (snd (post_loop cw url body reauth deadline headers reauthed (Suc k) (now + d + backoff_ms k) (w1, Suc (snd s))))) \<le>
        snd (w1, Suc (snd s)) + (6 - Suc k) + (if reauthed then 0 else 1)"
      using more [OF False] by (intro retry False "1.prems"(1,3)) simp_all
    then show ?thesis unfolding if_not_P [OF False] using more(1) [OF False] by simp
  qed
  show ?case
  proof (cases "\<exists>resp. out = Responded resp \<and> \<not> reauthed \<and> is_login_redirect_or_unauthorized resp \<and> renewed reauth \<noteq> []")
    case True
    then obtain resp where t: "out = Responded resp" "\<not> reauthed" "is_login_redirect_or_unauthorized resp \<and> renewed reauth \<noteq> []" by blast
    have "start + paused k \<le> now + d" using "1.prems"(2) by simp
    from renew [OF t(1) conjI [OF t(2,3)] "1.prems"(1) this "1.prems"(3,4)] t show ?thesis
      by (subst post_loop.simps) (simp add: c Let_def)
  next
    case False
    have le: "Suc (snd s) \<le> snd s + (6 - k) + (if reauthed then 0 else 1)" using "1.prems"(4) by simp
    note unf = post_loop.simps [of cw url body reauth deadline headers reauthed k now s] c prod.case Let_def
    show ?thesis
    proof (cases out)
      case (Responded resp)
      then have n: "\<not> (\<not> reauthed \<and> is_login_redirect_or_unauthorized resp \<and> renewed reauth \<noteq> [])" using False by blast
      show ?thesis
        unfolding unf Responded post_outcome.case if_not_P [OF n]
        using r le by (cases "hr_success resp"; cases "hr_status resp < 500") (simp_all only: if_True if_False snd_conv)
    next
      case ConnectFailed
      show ?thesis unfolding unf ConnectFailed post_outcome.case by (rule r)
    qed (use le in \<open>simp_all only: unf post_outcome.case snd_conv\<close>)
  qed
qed


section \<open>The verdict of the route\<close>

definition lets_pass :: "pydict \<Rightarrow> bool" where
  "lets_pass b \<longleftrightarrow> py_str (pget_default b ''result'' (PStr ''POLICY_ACTION_UNSPECIFIED'')) \<notin> {''POLICY_ACTION_DENY'', ''POLICY_ACTION_ASK''}"

text \<open>The engine allowed the call, or it asked and a human accepted.\<close>

definition permitted :: "'s eval_env \<Rightarrow> srv \<Rightarrow> 's engine \<Rightarrow> policy_result \<Rightarrow> bool" where
  "permitted env sv en r \<longleftrightarrow> pr_action r = ALLOW \<or>
     pr_action r = ASK \<and> (\<exists>i params. fst (ee_human env i params (resolve_ask_timeout en r) sv) = Some ''accept'')"

lemma direct_passes:
  assumes "direct_response env cid ph ro result en sv = (Inr b, sv', eff)" and "lets_pass b"
  shows "pr_action result = ALLOW"
proof -
  have "pget_default b ''result'' x = PStr (proto_action (pr_action result))" for x
    using assms(1) by (auto simp: direct_response_def pget_default_def split: prod.splits sum.splits)
  then show ?thesis using assms(2) by (cases "pr_action result") (simp_all add: lets_pass_def proto_action_def)
qed

lemma gated_passes:
  assumes "gated_response env cid ph data eid result en sv = (Inr b, sv', eff)" and "lets_pass b"
  shows "\<exists>i params. fst (ee_human env i params (resolve_ask_timeout en result) sv) = Some ''accept''"
proof -
  obtain h sv1 eff1 where h: "hold_native_ask_gate env cid ph data result eid en sv = (h, sv1, eff1)" by (metis prod_cases3)
  have "h = Inr True"
    using assms by (cases h rule: sum.exhaust) (auto simp: gated_response_def h Let_def lets_pass_def pget_default_def split: py_exn.splits if_splits)
  then show ?thesis
    using h by (auto simp: hold_native_ask_gate_def Let_def split: pyval.splits prod.splits if_splits) (metis fst_conv)+
qed

lemma decide_passes:
  assumes "decide_session env cid spec rq ctx ro sv = Some (Inr b, sv', eff)" and "lets_pass b"
  shows "\<exists>sv0 r en sv1. build_and_evaluate env spec cid ctx ro sv0 = Some (Inr (r, en), sv1) \<and> permitted env sv1 en r"
proof -
  obtain r1 sv1 where b1: "build_and_evaluate env spec cid ctx ro sv = Some (r1, sv1)"
    using assms(1) by (auto simp: decide_session_def bind_eq_Some_conv)
  obtain result en where r1: "r1 = Inr (result, en)" using assms(1) b1 by (cases r1) (auto simp: decide_session_def)
  show ?thesis
  proof (cases "pr_action result = ASK \<and> rq_phase rq \<in> set BLOCKING_PHASES \<and> \<not> ro")
    case False
    then have "direct_response env cid (rq_phase rq) ro result en sv1 = (Inr b, sv', eff)"
      using assms(1) unfolding decide_session_def b1 r1 bind.bind_lunit prod.case sum.case if_not_P [OF False] by simp
    then have "pr_action result = ALLOW" by (rule direct_passes [OF _ assms(2)])
    then show ?thesis using b1 r1 unfolding permitted_def by blast
  next
    case True
    from assms(1) obtain r2 sv2 where b2: "build_and_evaluate env spec cid ctx ro (ee_others env sv1) = Some (r2, sv2)"
      unfolding decide_session_def b1 r1 bind.bind_lunit prod.case sum.case if_P [OF True] by (auto simp: bind_eq_Some_conv)
    from assms(1) obtain result2 en2 where r2: "r2 = Inr (result2, en2)"
      unfolding decide_session_def b1 r1 bind.bind_lunit prod.case sum.case if_P [OF True] b2 by (cases r2) auto
    from assms(1) have e: "(if pr_action result2 = ASK then gated_response env cid (rq_phase rq) (rq_data rq) (rq_elicitation_id rq) result2 en2 sv2
        else direct_response env cid (rq_phase rq) ro result2 en2 sv2) = (Inr b, sv', eff)"
      unfolding decide_session_def b1 r1 bind.bind_lunit prod.case sum.case if_P [OF True] b2 r2 by simp
    have "permitted env sv2 en2 result2"
      using e gated_passes [OF _ assms(2)] direct_passes [OF _ assms(2)] by (cases "pr_action result2 = ASK") (auto simp: permitted_def)
    then show ?thesis using b2 r2 by blast
  qed
qed


definition tool_call_context :: "string \<Rightarrow> pyval \<Rightarrow> string option \<Rightarrow> evaluation_context \<Rightarrow> bool" where
  "tool_call_context t args user ctx \<longleftrightarrow> ec_phase ctx = TOOL_CALL \<and> ec_content ctx = PDict [(''name'', PStr t), (''arguments'', args)] \<and>
     ec_tool_name ctx = (if t = [] then None else Some t) \<and> ec_actor ctx = build_actor user"

text \<open>The body a hook sends for a tool call, and what the route makes of it.\<close>

definition call_request :: "string \<Rightarrow> pyval \<Rightarrow> pydict" where
  "call_request t args = wire_event ''PHASE_TOOL_CALL'' [(''name'', PStr t), (''arguments'', args)] []"

definition call_body :: "string \<Rightarrow> pyval \<Rightarrow> pydict \<Rightarrow> string \<Rightarrow> pydict" where
  "call_body t args stamps token = dset (stamp_context (call_request t args) stamps) ''_omnigent_elicitation_id'' (PStr (''elicit_evaluate_'' @ token))"

lemma call_body_event:
  "pget (call_body t args stamps token) ''event'' =
   PDict [(''type'', PStr ''PHASE_TOOL_CALL''), (''target'', PStr []), (''data'', PDict [(''name'', PStr t), (''arguments'', args)]), (''context'', PDict stamps)]"
  by (simp add: call_body_def stamp_context_def call_request_def wire_event_def pget_def) (simp add: dset_def)

lemma call_body_parsed:
  assumes "parse_evaluate_body (Some (PDict (call_body t args stamps token))) = Inr rq"
  shows "rq_phase rq = TOOL_CALL" and "rq_data rq = PDict [(''name'', PStr t), (''arguments'', args)]" and "pget (rq_event rq) ''context'' = PDict stamps"
  using assms unfolding parse_evaluate_body_def
  by (simp_all add: call_body_event event_phase_def PROTO_EVENT_TYPE_TO_PHASE_def pget_def [of "[_, _, _, _]"] Let_def split: pyval.splits if_splits)
     (auto simp: pget_def)

lemma call_context:
  assumes "build_evaluation_context dumps TOOL_CALL (PDict [(''name'', PStr t), (''arguments'', args)]) ev (build_actor user) = Inr ctx" and "truthy args \<or> args = PDict []"
  shows "tool_call_context t args user ctx"
  using assms by (auto simp: build_evaluation_context_def Let_def pget_def py_or_def name_of_def tool_call_context_def split: pyval.splits)

lemma route_passes:
  assumes "evaluate_policy env user cid (Some (PDict (call_body t args stamps token))) sv = Some (Inr b, sv', eff)" and "lets_pass b"
    and "truthy args \<or> args = PDict []"
  shows "ee_agent env cid = None \<or>
    (\<exists>spec ctx ro sv0 r en sv1. ee_agent env cid = Some spec \<and> tool_call_context t args user ctx \<and>
       build_and_evaluate env spec cid ctx ro sv0 = Some (Inr (r, en), sv1) \<and> permitted env sv1 en r)"
proof (cases "ee_agent env cid")
  case (Some spec)
  obtain level where a: "require_access_and_level (sv_perm sv) (sv_store sv) user cid LEVEL_READ = Some (Inr level)"
    using assms(1)
    by (cases "require_access_and_level (sv_perm sv) (sv_store sv) user cid LEVEL_READ"; cases "the (require_access_and_level (sv_perm sv) (sv_store sv) user cid LEVEL_READ)")
       (auto simp: evaluate_policy_def)
  obtain rq where rq: "parse_evaluate_body (Some (PDict (call_body t args stamps token))) = Inr rq"
    using assms(1) a by (cases "parse_evaluate_body (Some (PDict (call_body t args stamps token)))") (auto simp: evaluate_policy_def)
  obtain conv where conv: "get_conversation (sv_store sv) cid = Some conv"
    using assms(1) a rq by (cases "get_conversation (sv_store sv) cid") (auto simp: evaluate_policy_def)
  note p = call_body_parsed [OF rq]
  have np: "rq_phase rq \<noteq> REQUEST" using p(1) by simp
  obtain ctx where ctx: "build_evaluation_context (ee_json_dumps env) (rq_phase rq) (rq_data rq) (rq_event rq) (build_actor user) = Inr ctx"
    using assms(1) a rq conv Some p(1)
    by (cases "build_evaluation_context (ee_json_dumps env) (rq_phase rq) (rq_data rq) (rq_event rq) (build_actor user)") (auto simp: evaluate_policy_def Let_def)
  then have "decide_session env cid spec rq ctx (case level of Some l \<Rightarrow> l < LEVEL_EDIT | None \<Rightarrow> False) (sv\<lparr>sv_inputs := sv_inputs sv\<rparr>) = Some (Inr b, sv', eff)"
    using assms(1) a rq conv Some np by (simp add: evaluate_policy_def Let_def)
  from decide_passes [OF this assms(2)] Some call_context [OF ctx [unfolded p(1,2)] assms(3)] show ?thesis by blast
qed simp


section \<open>The hooks\<close>

text \<open>A payload that announces a call of a tool which no other gate checks.\<close>

definition announces_call :: "string \<Rightarrow> string \<Rightarrow> pyval \<Rightarrow> bool" where
  "announces_call raw t args \<longleftrightarrow> (\<exists>payload. read_payload raw = Some payload \<and> hook_event_of payload = PStr PRE_TOOL_USE \<and>
     pget_default payload ''tool_name'' (PStr []) = PStr t \<and> \<not> startswith t ''mcp__omnigent__'' \<and> py_or (pget payload ''tool_input'') (PDict []) = args)"

text \<open>The three hooks of a session.\<close>

definition hooks_of :: "'w hook_env \<Rightarrow> string \<Rightarrow> string \<Rightarrow> pydict \<Rightarrow> string option \<Rightarrow> ('w \<Rightarrow> hook_out \<times> 'w) list" where
  "hooks_of env raw sid config model =
     [claude_evaluate_policy env raw (Some sid) config model, codex_evaluate_policy env raw (Some sid) (Some config) model,
      kimi_evaluate_policy env raw (Some sid) config]"

definition is_deny :: "pydict \<Rightarrow> bool" where
  "is_deny d \<longleftrightarrow> (case pget d ''hookSpecificOutput'' of PDict o' \<Rightarrow> pget o' ''permissionDecision'' = PStr ''deny'' | _ \<Rightarrow> False)"

lemma announced_request:
  assumes "announces_call raw t args"
  shows "\<exists>payload. read_payload raw = Some payload \<and> hook_event_of payload = PStr PRE_TOOL_USE \<and>
    hook_payload_to_evaluation_request dumps (PStr PRE_TOOL_USE) payload = Some (call_request t args)"
  using assms
  by (auto simp: announces_call_def hook_payload_to_evaluation_request_def call_request_def PRE_TOOL_USE_def USER_PROMPT_SUBMIT_def)

lemma hooks_governed:
  assumes "announces_call raw t args" and "hook \<in> set (hooks_of env raw sid config model)" and "sid \<noteq> []" and "server_of config = Some server"
  shows "\<exists>harness m. hook w = governed_hook env harness m server sid config (PStr PRE_TOOL_USE) (call_request t args) w"
proof -
  obtain payload where p: "read_payload raw = Some payload" "hook_event_of payload = PStr PRE_TOOL_USE"
      "hook_payload_to_evaluation_request (he_dumps env) (PStr PRE_TOOL_USE) payload = Some (call_request t args)"
    using announced_request [OF assms(1)] by blast
  obtain c s where sid: "sid = c # s" using assms(3) by (cases sid) auto
  from assms(2) consider "hook = claude_evaluate_policy env raw (Some sid) config model"
    | "hook = codex_evaluate_policy env raw (Some sid) (Some config) model" | "hook = kimi_evaluate_policy env raw (Some sid) config"
    by (auto simp: hooks_of_def)
  then show ?thesis
    using p sid assms(4) by cases (auto simp: claude_evaluate_policy_def codex_evaluate_policy_def kimi_evaluate_policy_def)
qed

text \<open>What became of the request: the last response and how it was answered.\<close>

lemma governed_posted:
  assumes "governed_hook env harness m server sid config ev rq w = (out, w')"
  shows "\<exists>posted stamps. out = answer_hook ev posted \<and>
    (\<forall>resp. posted = Inr (Some resp) \<longrightarrow> hr_success resp \<and>
       (\<exists>h w0 d. he_wire env (evaluate_url server (url_component sid)) h
          (dset (stamp_context rq stamps) ''_omnigent_elicitation_id'' (PStr (''elicit_evaluate_'' @ he_token env))) w0 = (Responded resp, d, w'))) \<and>
    (\<forall>m. posted = Inl m \<longrightarrow> (\<exists>url h body w0 d w1. he_wire env url h body w0 = (Escaped m, d, w1)))"
proof -
  let ?stamps = "(''harness'', PStr harness) # (case m of Some (c # m) \<Rightarrow> [(''model'', PStr (c # m))] | _ \<Rightarrow> [])"
  obtain posted t1 w1 where p: "post_evaluate_with_retry (he_wire env) (he_token env) (evaluate_url server (url_component sid)) (config_headers config)
      (stamp_context rq ?stamps) (Some (policy_hook_reauth (he_bearer env) (config_headers config))) (he_now env) w = (posted, t1, w1)"
    by (metis prod_cases3)
  then have "out = answer_hook ev posted" "w' = w1" using assms by (simp_all add: governed_hook_def Let_def)
  moreover have "hr_success resp \<and> (\<exists>h w0 d. he_wire env (evaluate_url server (url_component sid)) h
      (dset (stamp_context rq ?stamps) ''_omnigent_elicitation_id'' (PStr (''elicit_evaluate_'' @ he_token env))) w0 = (Responded resp, d, w1))"
    if "posted = Inr (Some resp)" for resp
    using post_loop_returns [OF p [unfolded post_evaluate_with_retry_def that]] by blast
  moreover have "\<exists>url h body w0 d w2. he_wire env url h body w0 = (Escaped e, d, w2)" if "posted = Inl e" for e
    using post_loop_escapes [OF p [unfolded post_evaluate_with_retry_def that]] by blast
  ultimately show ?thesis by blast
qed

lemma answered:
  "case answer_hook (PStr PRE_TOOL_USE) posted of
     NoOutput \<Rightarrow> \<exists>resp d. posted = Inr (Some resp) \<and> py_json_loads (hr_content resp) = Some (PDict d) \<and> lets_pass d
   | Wrote d \<Rightarrow> is_deny d
   | Crashed \<Rightarrow> (\<exists>e. posted = Inl e) \<or> (\<exists>resp v. posted = Inr (Some resp) \<and> py_json_loads (hr_content resp) = Some v \<and> (\<forall>d. v \<noteq> PDict d))"
proof -
  have f: "\<exists>d. wrote (fail_closed_hook_output (PStr PRE_TOOL_USE)) = Wrote d \<and> is_deny d"
    by (simp add: fail_closed_hook_output_def wrote_def is_deny_def pget_def)
  have v: "case wrote (evaluation_response_to_hook_output (PStr PRE_TOOL_USE) d) of NoOutput \<Rightarrow> lets_pass d | Wrote x \<Rightarrow> is_deny x | Crashed \<Rightarrow> False" for d
    by (simp add: evaluation_response_to_hook_output_def wrote_def is_deny_def pget_def [of "[_]"] pget_def [of "_ # _"] lets_pass_def Let_def
        PRE_TOOL_USE_def USER_PROMPT_SUBMIT_def)
  show ?thesis
  proof (cases posted)
    case (Inr r)
    show ?thesis
    proof (cases r)
      case None
      then show ?thesis using f Inr by (auto simp: answer_hook_def)
    next
      case (Some resp)
      show ?thesis
      proof (cases "hr_content resp = [] \<or> py_json_loads (hr_content resp) = None")
        case True
        then show ?thesis using f Inr Some by (auto simp: answer_hook_def)
      next
        case False
        then obtain x where x: "hr_content resp \<noteq> []" "py_json_loads (hr_content resp) = Some x" by blast
        show ?thesis
        proof (cases "\<exists>d. x = PDict d")
          case True
          then obtain d where "x = PDict d" by blast
          then show ?thesis using v [of d] x Inr Some by (auto simp: answer_hook_def split: hook_out.splits)
        next
          case no: False
          then have "answer_hook (PStr PRE_TOOL_USE) posted = Crashed" using x Inr Some by (cases x) (auto simp: answer_hook_def)
          then show ?thesis using no x Inr Some by auto
        qed
      qed
    qed
  qed (simp add: answer_hook_def)
qed


text \<open>
  C14: The native gate fails closed. When a hook of a governed session announces a tool call, then whatever the network and the server do (refused connections,
  timeouts, error statuses, redirects to a login, empty or malformed bodies, in any order), the hook writes a denial unless it got a successful response:
  it stays silent only on a JSON object whose verdict is neither a denial nor a request for approval, and it dies only on a successful
  response that is JSON but no object, or on an exception that is no transport error.
\<close>

theorem native_hook_fails_closed:
  assumes "announces_call raw t args" and "hook \<in> set (hooks_of env raw sid config model)" and "sid \<noteq> []" and "server_of config = Some server"
  shows "case fst (hook w) of
      NoOutput \<Rightarrow> \<exists>url h body w0 d resp b. he_wire env url h body w0 = (Responded resp, d, snd (hook w)) \<and> hr_success resp \<and>
        py_json_loads (hr_content resp) = Some (PDict b) \<and> lets_pass b
    | Wrote o' \<Rightarrow> is_deny o'
    | Crashed \<Rightarrow> \<exists>url h body w0 out d w1. he_wire env url h body w0 = (out, d, w1) \<and>
        ((\<exists>m. out = Escaped m) \<or> (\<exists>resp v. out = Responded resp \<and> hr_success resp \<and> py_json_loads (hr_content resp) = Some v \<and> (\<forall>b. v \<noteq> PDict b)))"
proof -
  obtain harness m where g: "hook w = governed_hook env harness m server sid config (PStr PRE_TOOL_USE) (call_request t args) w"
    using hooks_governed [OF assms] by blast
  obtain posted stamps where a: "fst (hook w) = answer_hook (PStr PRE_TOOL_USE) posted"
    and p: "\<And>resp. posted = Inr (Some resp) \<Longrightarrow> hr_success resp \<and> (\<exists>h w0 d. he_wire env (evaluate_url server (url_component sid)) h
          (dset (stamp_context (call_request t args) stamps) ''_omnigent_elicitation_id'' (PStr (''elicit_evaluate_'' @ he_token env))) w0 = (Responded resp, d, snd (hook w)))"
    and e: "\<And>m. posted = Inl m \<Longrightarrow> \<exists>url h body w0 d w1. he_wire env url h body w0 = (Escaped m, d, w1)"
    using governed_posted [of env harness m server sid config "PStr PRE_TOOL_USE" "call_request t args" w "fst (hook w)" "snd (hook w)"] g by auto
  show ?thesis
  proof (cases "fst (hook w)")
    case NoOutput
    then obtain resp b where r: "posted = Inr (Some resp)" "py_json_loads (hr_content resp) = Some (PDict b)" "lets_pass b"
      using answered [of posted] a by auto
    then have "\<exists>url h body w0 d resp b. he_wire env url h body w0 = (Responded resp, d, snd (hook w)) \<and> hr_success resp \<and>
        py_json_loads (hr_content resp) = Some (PDict b) \<and> lets_pass b" using p [OF r(1)] by blast
    then show ?thesis using NoOutput by (simp only: hook_out.case)
  next
    case (Wrote x)
    then show ?thesis using answered [of posted] a by simp
  next
    case Crashed
    then consider (esc) m where "posted = Inl m"
      | (bad) resp v where "posted = Inr (Some resp)" "py_json_loads (hr_content resp) = Some v" "\<forall>d. v \<noteq> PDict d"
      using answered [of posted] a by auto
    then have "\<exists>url h body w0 out d w1. he_wire env url h body w0 = (out, d, w1) \<and>
        ((\<exists>m. out = Escaped m) \<or> (\<exists>resp v. out = Responded resp \<and> hr_success resp \<and> py_json_loads (hr_content resp) = Some v \<and> (\<forall>b. v \<noteq> PDict b)))"
    proof cases
      case esc
      then show ?thesis using e by blast
    next
      case bad
      then show ?thesis using p [OF bad(1)] by blast
    qed
    then show ?thesis using Crashed by (simp only: hook_out.case)
  qed
qed


text \<open>The fixture: a session under the tree of the builder, a hook payload and a wire that refuses the first connection.\<close>

definition fx_gate_env :: "unit eval_env" where
  "fx_gate_env =
     \<lparr>ee_import = fx_import, ee_json_loads = (\<lambda>s. None), ee_json_dumps = (\<lambda>v. []), ee_price = (\<lambda>m. Inr None), ee_cap = id, ee_today = ''2026-01-01'', ee_now = 0,
      ee_llm = None, ee_defaults = None, ee_policy_store = Some fx_table, ee_agent = (\<lambda>c. Some fx_agent), ee_token = [],
      ee_human = (\<lambda>i p n s. (Some ''accept'', s)), ee_others = id\<rparr>"

definition fx_srv :: srv where
  "fx_srv = \<lparr>sv_perm = None, sv_store = fx_tree, sv_cache = [], sv_inputs = []\<rparr>"

definition fx_ok :: "string \<Rightarrow> http_response" where
  "fx_ok text = \<lparr>hr_status = 200, hr_success = True, hr_redirect = False, hr_location = [], hr_content = text\<rparr>"

definition fx_serving :: "string \<Rightarrow> srv wire" where
  "fx_serving text url h body w =
     (case evaluate_policy fx_gate_env None ''child'' (Some (PDict body)) w of
        Some (Inr b, w1, eff) \<Rightarrow> (if py_json_loads text = Some (PDict b) then (Responded (fx_ok text), 20, w1) else (TransportFailed, 20, w1))
      | _ \<Rightarrow> (TransportFailed, 20, w))"

definition fx_hook_env :: "'w wire \<Rightarrow> 'w hook_env" where
  "fx_hook_env wire = \<lparr>he_wire = wire, he_dumps = (\<lambda>v. []), he_token = ''0123456789abcdef0123456789abcdef'', he_bearer = None, he_now = 0\<rparr>"

definition fx_raw_call :: string where
  \<open>fx_raw_call = ''{"hook_event_name": "PreToolUse", "tool_name": "Bash", "tool_input": {"command": "ls"}}''\<close>

definition fx_config :: pydict where
  "fx_config = [(''ap_server_url'', PStr ''http://host/'')]"

definition fx_allow_text :: string where
  \<open>fx_allow_text = ''{"result": "POLICY_ACTION_ALLOW"}''\<close>

lemma fx_announces: "announces_call fx_raw_call ''Bash'' (PDict [(''command'', PStr ''ls'')])"
proof -
  have "read_payload fx_raw_call =
      Some [(''hook_event_name'', PStr ''PreToolUse''), (''tool_name'', PStr ''Bash''), (''tool_input'', PDict [(''command'', PStr ''ls'')])]"
    by code_simp
  then show ?thesis
    by (simp add: announces_call_def hook_event_of_def PRE_TOOL_USE_def pget_default_def startswith_def py_or_def pget_def)
qed

lemma fx_server: "server_of fx_config = Some ''http://host/''"
  by code_simp

text \<open>The wire that is never reached.\<close>

definition fx_down :: "nat wire" where
  "fx_down url h body n = (ConnectFailed, 5000, Suc n)"

lemma fx_down_loop: "post_loop fx_down url body reauth (0 + RETRY_BUDGET_MS) h False 0 0 0 = (Inr None, 27000, 4)"
  by (simp add: post_loop.simps fx_down_def RETRY_BUDGET_MS_def INITIAL_BACKOFF_MS_def MAX_BACKOFF_MS_def)

theorem native_hook_fails_closed_witness:
  "\<exists>d. claude_evaluate_policy (fx_hook_env fx_down) fx_raw_call (Some ''child'') fx_config None 0 = (Wrote d, 4) \<and> is_deny d"
proof -
  let ?env = "fx_hook_env fx_down"
  let ?hook = "claude_evaluate_policy ?env fx_raw_call (Some ''child'') fx_config None"
  have m: "?hook \<in> set (hooks_of ?env fx_raw_call ''child'' fx_config None)" by (simp add: hooks_of_def)
  obtain harness q where "?hook 0 = governed_hook ?env harness q ''http://host/'' ''child'' fx_config (PStr PRE_TOOL_USE)
      (call_request ''Bash'' (PDict [(''command'', PStr ''ls'')])) 0"
    using hooks_governed [OF fx_announces m _ fx_server, of 0] by blast
  then have "?hook 0 = (answer_hook (PStr PRE_TOOL_USE) (Inr None), 4)"
    using fx_down_loop by (simp add: governed_hook_def post_evaluate_with_retry_def fx_hook_env_def Let_def)
  then have h: "?hook 0 = (wrote (fail_closed_hook_output (PStr PRE_TOOL_USE)), 4)" by (simp add: answer_hook_def)
  have "(case wrote (fail_closed_hook_output (PStr PRE_TOOL_USE)) of Wrote d \<Rightarrow> True | _ \<Rightarrow> False)" by code_simp
  then show ?thesis
    using native_hook_fails_closed [OF fx_announces m _ fx_server, of 0] h
    by (cases "wrote (fail_closed_hook_output (PStr PRE_TOOL_USE))") simp_all
qed

section \<open>End to end\<close>

text \<open>
  A wire between the hook and the route of a session: every success it delivers is the answer of the route, in some state the server was in, and the JSON
  text of that answer. \<open>auth\<close> is the user the server reads from the headers.
\<close>

definition serves :: "'s eval_env \<Rightarrow> (string dict \<Rightarrow> string option) \<Rightarrow> string \<Rightarrow> srv wire \<Rightarrow> bool" where
  "serves renv auth sid wire \<longleftrightarrow>
     (\<forall>url h body w resp d w'. wire url h body w = (Responded resp, d, w') \<and> hr_success resp \<longrightarrow>
        (\<exists>w0 b eff. evaluate_policy renv (auth h) sid (Some (PDict body)) w0 = Some (Inr b, w', eff) \<and> py_json_loads (hr_content resp) = Some (PDict b)))"



lemma fx_route_allows:
  "map_option fst (evaluate_policy fx_gate_env None ''child''
     (Some (PDict (call_body ''Bash'' (PDict [(''command'', PStr ''ls'')]) [(''harness'', PStr ''claude-native'')] ''0123456789abcdef0123456789abcdef''))) fx_srv) =
   Some (Inr [(''result'', PStr ''POLICY_ACTION_ALLOW'')])"
  by code_simp

lemma fx_serves: "serves fx_gate_env (\<lambda>h. None) ''child'' (fx_serving text)"
  unfolding serves_def fx_serving_def
  by (auto simp: fx_ok_def split: option.splits sum.splits if_splits)

lemma fx_call_passes:
  "fst (claude_evaluate_policy (fx_hook_env (fx_serving fx_allow_text)) fx_raw_call (Some ''child'') fx_config None fx_srv) = NoOutput"
proof -
  let ?env = "fx_hook_env (fx_serving fx_allow_text)"
  let ?body = "call_body ''Bash'' (PDict [(''command'', PStr ''ls'')]) [(''harness'', PStr ''claude-native'')] ''0123456789abcdef0123456789abcdef''"
  obtain payload where p: "read_payload fx_raw_call = Some payload" "hook_event_of payload = PStr PRE_TOOL_USE"
      "hook_payload_to_evaluation_request (he_dumps ?env) (PStr PRE_TOOL_USE) payload = Some (call_request ''Bash'' (PDict [(''command'', PStr ''ls'')]))"
    using announced_request [OF fx_announces] by blast
  have tx: "py_json_loads fx_allow_text = Some (PDict [(''result'', PStr ''POLICY_ACTION_ALLOW'')])" by code_simp
  obtain w1 eff where r: "evaluate_policy fx_gate_env None ''child'' (Some (PDict ?body)) fx_srv = Some (Inr [(''result'', PStr ''POLICY_ACTION_ALLOW'')], w1, eff)"
    using fx_route_allows by auto
  have wire: "fx_serving fx_allow_text url h ?body fx_srv = (Responded (fx_ok fx_allow_text), 20, w1)" for url h
    by (simp add: fx_serving_def r tx)
  have "post_loop (fx_serving fx_allow_text) url ?body reauth deadline h False 0 0 fx_srv = (Inr (Some (fx_ok fx_allow_text)), 20, w1)" for url reauth deadline h
    by (subst post_loop.simps) (simp add: wire fx_ok_def is_login_redirect_or_unauthorized_def)
  then have "claude_evaluate_policy ?env fx_raw_call (Some ''child'') fx_config None fx_srv =
      (answer_hook (PStr PRE_TOOL_USE) (Inr (Some (fx_ok fx_allow_text))), w1)"
    using p fx_server by (simp add: claude_evaluate_policy_def governed_hook_def post_evaluate_with_retry_def fx_hook_env_def call_body_def Let_def)
  moreover have "answer_hook (PStr PRE_TOOL_USE) (Inr (Some (fx_ok fx_allow_text))) = NoOutput" by code_simp
  ultimately show ?thesis by simp
qed


section \<open>How long the gate keeps asking\<close>

text \<open>
  C15: Whatever the server answers, one verdict costs at most seven requests: six within the budget of thirty seconds, with pauses that double up to ten seconds,
  and one more after the credentials were renewed.
\<close>

theorem verdict_costs_seven_requests:
  "snd (snd (snd (post_evaluate_with_retry (counted wire) token url headers rq reauth now (w, 0)))) \<le> 7"
proof -
  have "snd (snd (snd (post_loop (counted wire) url body reauth (now + RETRY_BUDGET_MS) headers False 0 now (w, 0)))) \<le>
      snd (w, 0 :: nat) + (6 - 0) + (if False then 0 else 1)" for body
    by (rule post_loop_count [where start = now]) (simp_all add: RETRY_BUDGET_MS_def)
  then show ?thesis unfolding post_evaluate_with_retry_def by simp
qed

section \<open>What the gate gets wrong\<close>

text \<open>A successful response that is JSON but no object kills the hook without a verdict, so the harness sees no denial.\<close>

lemma array_verdict_crashes: "answer_hook (PStr PRE_TOOL_USE) (Inr (Some (fx_ok ''[]''))) = Crashed"
  by code_simp

text \<open>An ASK on a request whose data is bare text raises before anybody is asked.\<close>

lemma bare_text_is_not_held:
  "gated_response env cid REQUEST (PStr text) eid result en sv = (Inl (Unhandled (no_get (PStr text))), sv, [])"
  by (simp add: gated_response_def hold_native_ask_gate_def no_get_def)

text \<open>An ASK on a tool result is answered without the gate, and the labels it withheld for the approval are written.\<close>

lemma result_ask_writes_labels:
  assumes "build_and_evaluate env spec cid ctx False sv = Some (Inr (result, en), sv1)" and "pr_action result = ASK" and "rq_phase rq = TOOL_RESULT"
    and "pr_set_labels result = Some (l # ls)" and "apply_label_writes en (l # ls) = (Inr (), en')"
  shows "\<exists>b eff. decide_session env cid spec rq ctx False sv = Some (Inr b, sv1\<lparr>sv_store := en_store en'\<rparr>, eff)"
  using assms by (simp add: decide_session_def BLOCKING_PHASES_def direct_response_def)

text \<open>
  The level of a caller is the direct grant on the session, and a sub-agent session has none: a caller who may only read the parent is not treated as
  read-only on the child, and the evaluation writes.
\<close>

lemma child_reader_is_not_read_only:
  assumes "get_conversation st cid = Some conv" and "cv_parent conv = Some p" and "\<not> is_admin db u" and "get_grant db u cid = None"
    and "get_grant db RESERVED_USER_PUBLIC cid = None" and "check_session_access db st (Some u) p LEVEL_READ = Some True"
  shows "require_access_and_level (Some db) st (Some u) cid LEVEL_READ = Some (Inr None)"
  using assms by (simp add: require_access_and_level_def resolve_access_def resolved_level_def)

text \<open>The Cursor hook allows a call when no verdict can be had; the Hermes hook blocks it.\<close>

lemma outage_per_harness:
  assumes "post_plain env he server sid (plain_body (PStr ''Bash'') (PDict [])) w = (Inr None, w')" and "server \<noteq> []" and "sid \<noteq> []"
    and "py_json_loads raw = Some (PDict [(''tool_name'', PStr ''Bash'')])"
  shows "cursor_main env he server sid raw w = (Wrote [(''permission'', PStr ''allow'')], w')"
    and "hermes_main env he server sid raw w = (Wrote [(''decision'', PStr ''block''), (''reason'', PStr ''Policy evaluation unavailable'')], w')"
  using assms by (simp_all add: cursor_main_def hermes_main_def cursor_allow_def hermes_block_def py_or_def pget_def)


end
