(* ===== verification/Spec2Isabelle.thy ===== *)
theory Spec2Isabelle
  imports SeedProperties AccountingProperties Egress AccessProperties WorkingDirProperties GitHubProperties RiskProperties RetryProperties Pii SessionTreeProperties InflightProperties CompactionProperties GoogleProperties NativeGateProperties
begin

text \<open>
  Verification of the policy system, the session store and the session streams of the \<^verbatim>\<open>omnigent\<close> agent runtime
  (\<^verbatim>\<open>src/otheros/omnigent/omnigent\<close>; file names below are relative to it).

  \<^bold>\<open>The program.\<close> Omnigent runs coding agents on behalf of users. Every request, tool call, tool result and
  model exchange of a conversation passes through the conversation's policy engine, which runs the
  configured policies in order, composes their verdicts (ALLOW, ASK, DENY) and commits the label and session-state
  writes they ask for. An ASK is taken to the user by the approval round trip. The engine is built afresh
  for a turn from the agent spec, the stored policies and the conversation store; agents spawn sub-agents, whose conversations
  form a tree that shares spending and cost approvals with its root. The store keeps the histories of the conversations; the server
  decides who may reach them, evaluates the calls that hooks of native harnesses announce, shows the prompts that wait in the tree of a session and streams the text of a running turn.
  Network access of sandboxed tools is decided by the egress rules.

  \<^bold>\<open>Theories, in import order, and the sources they model.\<close>
  \<^item> \<^verbatim>\<open>Prelude\<close>: Python values, exceptions, dictionaries, strings and number formats the sources use, with their laws. \<^verbatim>\<open>Regex\<close>: a matcher for the
    regular expressions of the sources and its language; \<^verbatim>\<open>Json\<close>: the standard library's JSON reader.
  \<^item> \<^verbatim>\<open>PolicyTypes\<close>: \<^verbatim>\<open>spec/types.py\<close> (phases, actions, selectors, specs) and \<^verbatim>\<open>policies/types.py\<close> (contexts, results,
    elicitations); actions are a linear order by strictness.
  \<^item> \<^verbatim>\<open>ConversationStore\<close>: the tables of \<^verbatim>\<open>stores/conversation_store/sqlalchemy_store.py\<close> that policies touch. The locale \<open>kv_column\<close>
    is the contract of a per-conversation column, interpreted on session state and on session usage.
  \<^item> \<^verbatim>\<open>Pricing\<close>: \<^verbatim>\<open>llms/context_window.py\<close>, prices, windows and the cost formula.
  \<^item> \<^verbatim>\<open>PolicyEngine\<close>: \<^verbatim>\<open>runtime/policies/engine.py\<close>; the record \<open>engine\<close> is the \<^verbatim>\<open>PolicyEngine\<close> object, \<open>evaluate_composed\<close> its
    evaluation, \<open>apply_label_writes\<close>, \<open>apply_state_updates\<close>, \<open>record_usage\<close> and \<open>reset_turn\<close> its other operations.
  \<^item> \<^verbatim>\<open>EngineLaws\<close>: the reference semantics of an evaluation (\<open>verdicts\<close>, \<open>composed_result\<close>) and that the pipeline refines it;
    frame lemmas; the locale \<open>label_invariant\<close> with its runs of engine steps.
  \<^item> \<^verbatim>\<open>FunctionPolicy\<close>: \<^verbatim>\<open>policies/function.py\<close> and \<^verbatim>\<open>spec/_omnigent_legacy_shim.py\<close>. \<^verbatim>\<open>Approval\<close>: \<^verbatim>\<open>runtime/policies/approval.py\<close>.
  \<^item> \<^verbatim>\<open>CostBudget\<close>: \<^verbatim>\<open>policies/builtins/cost.py\<close>; the locale \<open>budget_gate\<close> is what the three budgets share and is interpreted on each.
  \<^item> \<^verbatim>\<open>Safety\<close> and \<^verbatim>\<open>Pii\<close>: \<^verbatim>\<open>policies/builtins/safety.py\<close>. \<^verbatim>\<open>Shell\<close>: \<^verbatim>\<open>policies/builtins/_shell.py\<close>, with \<^verbatim>\<open>shlex\<close>. \<^verbatim>\<open>Orchestration\<close>, \<^verbatim>\<open>WorkingDir\<close>,
    \<^verbatim>\<open>GitHub\<close>, \<^verbatim>\<open>RiskScore\<close>, \<^verbatim>\<open>Google\<close>: the policies of \<^verbatim>\<open>policies/builtins/\<close> with these names; \<^verbatim>\<open>Strictest\<close>: the choice among the verdicts of the segments of a command.
  \<^item> \<^verbatim>\<open>Builder\<close> and \<^verbatim>\<open>UsageSeeds\<close>: \<^verbatim>\<open>runtime/policies/builder.py\<close>, and the usage seeds against their specification.
  \<^item> \<^verbatim>\<open>Retry\<close>: \<^verbatim>\<open>runtime/llm_retry.py\<close>, \<^verbatim>\<open>runtime/tool_retry.py\<close> and the loop of \<^verbatim>\<open>llms/client.py\<close>.
  \<^item> \<^verbatim>\<open>Permissions\<close>: \<^verbatim>\<open>stores/permission_store/sqlalchemy_store.py\<close>, \<^verbatim>\<open>server/permissions.py\<close> and the access check of \<^verbatim>\<open>server/auth.py\<close>.
  \<^item> \<^verbatim>\<open>Egress\<close>: \<^verbatim>\<open>inner/egress/rules.py\<close>, with the language of the glob patterns and the properties of the rules.
  \<^item> \<^verbatim>\<open>Paging\<close>: cursors, the loops that drain pages and the locale of a paged listing. \<^verbatim>\<open>SessionStore\<close>: conversations, items, labels, agents and bindings of
    \<^verbatim>\<open>stores/conversation_store/sqlalchemy_store.py\<close>; \<^verbatim>\<open>SessionLaws\<close> its invariant \<open>db_ok\<close> and the abstraction to histories; \<^verbatim>\<open>SessionRuns\<close> its preservation by every operation.
  \<^item> \<^verbatim>\<open>Subagents\<close> and \<^verbatim>\<open>SessionTree\<close>: the registration of native sub-agents, the walks over the session tree and the prompts of a
    snapshot of \<^verbatim>\<open>server/routes/sessions.py\<close>.
  \<^item> \<^verbatim>\<open>Pending\<close>: \<^verbatim>\<open>runtime/pending_elicitations.py\<close> and \<^verbatim>\<open>runtime/pending_inputs.py\<close>. \<^verbatim>\<open>Inflight\<close>: \<^verbatim>\<open>runtime/inflight_text.py\<close> and
    \<^verbatim>\<open>runtime/session_stream.py\<close>.
  \<^item> \<^verbatim>\<open>Compaction\<close>: \<^verbatim>\<open>runtime/compaction.py\<close>, \<^verbatim>\<open>llms/summarize.py\<close>, \<^verbatim>\<open>runtime/prompt.py\<close> and the loading and persisting of compacted histories in \<^verbatim>\<open>runtime/workflow.py\<close>.
  \<^item> \<^verbatim>\<open>EvaluateRoute\<close>: the policy evaluation route of \<^verbatim>\<open>server/routes/sessions.py\<close> with the access check of \<^verbatim>\<open>server/routes/_auth_helpers.py\<close>; \<open>srv\<close> is the server's state,
    \<open>evaluate_policy\<close> the handler, \<open>hold_native_ask_gate\<close> the wait for a human. \<^verbatim>\<open>NativeHook\<close>: \<^verbatim>\<open>native_policy_hook.py\<close> and the policy hooks of Claude, Codex, Kimi, Cursor and Hermes.
  \<^item> \<^verbatim>\<open>Fixtures\<close>: concrete engines and stores for the witnesses. The theories whose name ends in \<^verbatim>\<open>Properties\<close> hold the properties of a component or of several.

  \<^bold>\<open>What is shown.\<close>
  \<^item> Evaluation: the composed verdict is the strictest one dispatched, with exactly the accumulated writes; no policy
    loosens another's verdict; a policy that raises or returns no verdict is a DENY; read-only and asking evaluations write
    nothing, and the writes of an ASK happen exactly on an accept.
  \<^item> State: along every run the labels respect their schemas and the store holds the clamped labels; session state is
    written through; cost approvals of a sub-agent reach the root.
  \<^item> Spending: budgets deny exactly at their limits, an approved checkpoint does not ask again, approvals of a day are shared by the
    owner's sessions, usage is added up, prices are quoted ones, costs are additive.
  \<^item> Construction: the builder ends and returns; which policies run and in which order; policy installation is never silently allowed;
    the seeds are the sums over the spawn tree; labels, state and owner cache.
  \<^item> Built-in policies: recursive deletions and pushes are classified by their effect in every spelling, joined commands hide nothing; admitted directory changes stay
    below the configured directories; GitHub writes stay within the allowlists; the risk score follows an abstract ledger; after a confidential file was read no Drive write leaves the confidential set; personal data is stopped; the tool-call limit holds over a session.
  \<^item> Native gate, from the hook process over the network and the route to the engine: a call passes only if the engine allowed it or a human accepted; without a verdict the hook denies;
    one verdict costs at most seven requests.
  \<^item> Egress: default deny of requests, soundness of the host check, well-formedness and round trip of rules.
  \<^item> Retries: the loops stop at the first decisive outcome, and their delays are bounded. Access: the decision of a route ends and follows the grants at the top of the chain of parents.
  \<^item> Session store: the tables stay consistent along every run; appends extend histories, forks copy them and stay independent, paging reads each item once and ends, deletion removes
    exactly a family, labels of an instance are not inherited, the first runner wins.
  \<^item> Session tree: repeated start events of a sub-agent are idempotent; the walks are exact and end; a prompt is shown once in the session and all ancestors until it is resolved.
  \<^item> Streams: the pending indexes hold exactly the history's outstanding entries and messages are drained in order; a subscriber that joins in the middle of a turn reads the whole text; a
    committed message stays hidden; its commit and its last chunk may come in either order; the index stays bounded.
  \<^item> Compaction: a result fits the budget or is empty, the recent window survives verbatim, tool calls keep their results, and an explicit compaction is what the next load starts with.

  \<^bold>\<open>Parameters and bounds.\<close> Code outside the repository is an argument: \<open>import_path\<close> (importlib), \<open>fetch\<close> (the price catalog), \<open>litellm\<close>, the JSON writer, the network between a hook and the server with its delays in milliseconds, the token encodings, the codec of stored payloads, \<open>park\<close> (the wait for
  the user's reply), \<open>cap\<close> (eviction of the owner cache), the clock, random draws and generated identifiers, the outcomes of model and tool calls, the fingerprint of a text (SHA-256), the
  identity of the policy LLM client. Floats are rationals: rounding, infinities and NaN are outside the model. Loops are total functions, except the paging and tree
  loops, which are a \<^verbatim>\<open>partial_function\<close> whose termination is proved for stores that satisfy the invariant. Fuel is used in three places, each with a bound that is enough: a starred regular
  expression takes at most as many rounds as characters remain, the JSON reader twice the length of its text, and the walk to a subtree as many levels as there are rows; nested shell interpreters are followed to the depth the source sets. Stores and indexes
  are sequential: a transaction or a locked section is one function, and an interleaving is a sequence of such steps.

  \<^bold>\<open>Not modelled.\<close> Tracing spans and logs; the prompt, CEL, routing and context policies (they call a model or an expression library); the HTTP
  layer of the other server routes and the authentication providers (request parsing and network protocols); full-text search and the typed payloads of items; the resolution of file references; the parser of agent specs (YAML); LLM adapters, the harness bridges apart from their policy hooks, the egress proxy and the terminal (sockets, subprocesses); the generator behind a stream with its heartbeats; the command line.
\<close>

end
